(* ===== verification/Prelude.thy ===== *)
theory Prelude
  imports Main "HOL-Library.Word"
begin

text \<open>
  Shared vocabulary of the development: the machine integer types of the C code, the C casts the
  code relies on, the lemmas on bytes, words, lists and indices that several components use, and
  the collections of facts the component proofs are driven by.
\<close>

unbundle bit_operations_syntax

named_theorems wr_simps \<open>writers, as the byte string they put into the stream\<close>
named_theorems inb_intros \<open>readers that stay inside the data of the stream\<close>

type_synonym u8 = "8 word"
type_synonym u16 = "16 word"
type_synonym u32 = "32 word"
type_synonym bytes = "u8 list"

subsection \<open>Routines that return FALSE half way\<close>

text \<open>
  \<open>Inl\<close> is the early return, with whatever state the routine had reached; \<open>Inr\<close> goes on.
\<close>

fun bindS :: "'e + 'a \<Rightarrow> ('a \<Rightarrow> 'e + 'b) \<Rightarrow> 'e + 'b" where
  "bindS (Inl e) k = Inl e"
| "bindS (Inr a) k = k a"

lemma bindS_Inr_iff: "bindS r k = Inr b \<longleftrightarrow> (\<exists>a. r = Inr a \<and> k a = Inr b)"
  by (cases r) auto

subsection \<open>Casts\<close>

text \<open>
  \<open>c_int n\<close> is the C cast \<open>(int) n\<close> of a \<open>size_t\<close>: the low 32 bits read as two's complement.
\<close>

definition c_int :: "nat \<Rightarrow> int" where
  "c_int n = sint (word_of_nat n :: u32)"

lemma c_int_small [simp]:
  "n < 2 ^ 31 \<Longrightarrow> c_int n = int n"
  unfolding c_int_def by (simp add: signed_of_nat signed_take_bit_int_eq_self)

text \<open>C division and remainder truncate towards zero.\<close>

definition c_div :: "int \<Rightarrow> int \<Rightarrow> int" where
  "c_div a b = sgn a * sgn b * (\<bar>a\<bar> div \<bar>b\<bar>)"

definition c_mod :: "int \<Rightarrow> int \<Rightarrow> int" where
  "c_mod a b = a - c_div a b * b"

lemma c_div_nonneg [simp]: "0 \<le> a \<Longrightarrow> 0 < b \<Longrightarrow> c_div a b = a div b"
  by (cases "a = 0") (simp_all add: c_div_def)

lemma c_mod_nonneg [simp]: "0 \<le> a \<Longrightarrow> 0 < b \<Longrightarrow> c_mod a b = a mod b"
  by (simp add: c_mod_def minus_div_mult_eq_mod)

subsection \<open>Bytes of words\<close>

lemma word16_be:
  "push_bit 8 (ucast (ucast (drop_bit 8 v) :: u8)) + ucast (ucast v :: u8) = (v :: u16)"
proof -
  have "push_bit 8 (ucast (ucast (drop_bit 8 v) :: u8)) + ucast (ucast v :: u8)
      = push_bit 8 (ucast (ucast (drop_bit 8 v) :: u8)) OR (ucast (ucast v :: u8) :: u16)"
    by (rule disjunctive_add) (auto simp: bit_simps)
  also have "\<dots> = v"
    by (rule bit_word_eqI) (auto simp: bit_simps)
  finally show ?thesis .
qed

lemma word32_be:
  "push_bit 24 (ucast (ucast (drop_bit 24 v) :: u8)) + push_bit 16 (ucast (ucast (drop_bit 16 v) :: u8))
    + push_bit 8 (ucast (ucast (drop_bit 8 v) :: u8)) + ucast (ucast v :: u8) = (v :: u32)"
proof -
  have "push_bit 24 (ucast (ucast (drop_bit 24 v) :: u8)) + push_bit 16 (ucast (ucast (drop_bit 16 v) :: u8))
      = (push_bit 24 (ucast (ucast (drop_bit 24 v) :: u8)) OR push_bit 16 (ucast (ucast (drop_bit 16 v) :: u8)) :: u32)"
    (is "?a + ?b = ?ab")
    by (rule disjunctive_add) (auto simp: bit_simps)
  moreover have "?ab + push_bit 8 (ucast (ucast (drop_bit 8 v) :: u8))
      = (?ab OR push_bit 8 (ucast (ucast (drop_bit 8 v) :: u8)) :: u32)" (is "_ = ?abc")
    by (rule disjunctive_add) (auto simp: bit_simps)
  moreover have "?abc + ucast (ucast v :: u8) = (?abc OR ucast (ucast v :: u8) :: u32)"
    by (rule disjunctive_add) (auto simp: bit_simps)
  moreover have "bit (?abc OR ucast (ucast v :: u8) :: u32) n = bit v n" if "n < 32" for n
    using that by (cases "n < 8"; cases "n < 16"; cases "n < 24") (auto simp: bit_simps)
  then have "(?abc OR ucast (ucast v :: u8) :: u32) = v"
    by (intro bit_word_eqI) simp
  ultimately show ?thesis by simp
qed

lemma word16_le:
  "ucast (ucast v :: u8) + push_bit 8 (ucast (ucast (drop_bit 8 v) :: u8)) = (v :: u16)"
  using word16_be [of v] by (simp add: add.commute)

lemma word32_le:
  "ucast (ucast v :: u8) + push_bit 8 (ucast (ucast (drop_bit 8 v) :: u8))
    + push_bit 16 (ucast (ucast (drop_bit 16 v) :: u8))
    + push_bit 24 (ucast (ucast (drop_bit 24 v) :: u8)) = (v :: u32)"
  using word32_be [of v] by (simp add: ac_simps)

text \<open>
  Flags and masks: which bit a power-of-two literal has, and the two-byte lengths that PER marks
  with their top bit.
\<close>

lemma bit_pow2_word: "bit (2 ^ m :: 'a::len word) n \<longleftrightarrow> n = m \<and> m < LENGTH('a)"
  by (simp only: bit_exp_iff) (auto simp: possible_bit_word)

lemma bit_pow2_int: "bit (2 ^ m :: int) n \<longleftrightarrow> n = m"
  by (simp only: bit_exp_iff) auto

lemmas bit_0x80 = bit_pow2_word [where m = 7, simplified] bit_pow2_int [where m = 7, simplified]

lemmas bit_0x8000 = bit_pow2_word [where m = 15, simplified] bit_pow2_int [where m = 15, simplified]

lemma top_bit_set: "ucast (drop_bit 8 (w OR 0x8000 :: u16)) AND 0x80 \<noteq> (0::u8)"
proof -
  have "bit (ucast (drop_bit 8 (w OR 0x8000 :: u16)) AND 0x80 :: u8) 7"
    by (simp add: bit_simps bit_0x80 bit_0x8000)
  then show ?thesis by (metis bit_0_eq bot_apply bot_bool_def)
qed

lemma top_bit_clear: "\<not> bit (b::u8) 7 \<Longrightarrow> b AND 0x80 = 0"
  by (rule bit_word_eqI) (auto simp: bit_simps bit_0x80)

lemma top_bit_dropped:
  assumes "\<not> bit w 15"
  shows "push_bit 8 (ucast ((ucast (drop_bit 8 (w OR 0x8000)) :: u8) AND NOT 0x80))
           + ucast (ucast (w OR 0x8000) :: u8) = (w::u16)" (is "?h + ?l = w")
proof -
  have "?h + ?l = ?h OR ?l"
    by (rule disjunctive_add) (auto simp: bit_simps)
  also have "bit (?h OR ?l) n = bit w n" if "n < 16" for n
    using assms that by (cases "n = 15") (auto simp: bit_simps bit_0x80 bit_0x8000)
  then have "?h OR ?l = w"
    by (intro bit_word_eqI) simp
  finally show ?thesis .
qed

lemma word_of_int_or: "word_of_int (a OR b) = (word_of_int a OR word_of_int b :: 'a::len word)"
  by (rule bit_word_eqI) (auto simp: bit_simps)

lemma word_of_int_no_top:
  "0 \<le> a \<Longrightarrow> a \<le> 0x7FFF \<Longrightarrow> \<not> bit (word_of_int a :: u16) 15"
  "0 \<le> a \<Longrightarrow> a \<le> 0x7F \<Longrightarrow> \<not> bit (word_of_int a :: u8) 7"
  by (auto simp: bit_word_of_int_iff bit_iff_odd [of a])

lemma ucast_word_of_int8:
  "0 \<le> a \<Longrightarrow> a \<le> 0xFF \<Longrightarrow> ucast (word_of_int a :: u8) = (word_of_int a :: 'a::len word)"
  by (simp add: unsigned_of_int take_bit_int_eq_self)

lemma ucast_ucast_small:
  "(v :: u32) \<le> 0xFF \<Longrightarrow> ucast (ucast v :: u8) = v"
  "(v :: u32) \<le> 0xFFFF \<Longrightarrow> ucast (ucast v :: u16) = v"
  by (simp_all only: word_unat_eq_iff word_le_nat_alt)
    (simp_all add: unsigned_ucast_eq unsigned_take_bit_eq take_bit_nat_eq_self)

lemma small_word_bit:
  assumes "v < (2 :: 'a::len word) ^ k" "k < LENGTH('a)" "k \<le> n"
  shows "\<not> bit v n"
proof -
  have "uint v < 2 ^ k" using assms by (simp flip: word_2p_lem add: word_size)
  then have "v AND mask k = v" by (simp only: mask_eq_iff)
  then have "take_bit k v = v" by (simp add: take_bit_eq_mask)
  then have "bit v n = bit (take_bit k v) n" by simp
  with assms(3) show ?thesis by (simp add: bit_take_bit_iff)
qed

lemma word24_be:
  assumes "(v :: u32) < 0x800000"
  shows "ucast (ucast (v AND 0xFFFF) :: u16) + push_bit 16 (ucast (ucast (drop_bit 16 v) :: u8)) = v"
    (is "?l + ?h = v")
proof -
  have "v AND 0xFFFF = take_bit 16 v"
    by (simp add: take_bit_eq_mask mask_eq_decr_exp)
  then have l: "?l = take_bit 16 v"
    by (auto intro!: bit_word_eqI simp: bit_simps)
  have "bit (take_bit 16 v OR ?h) n = bit v n" if "n < 32" for n
    using that small_word_bit [of v 23 n] assms
    by (cases "n < 16"; cases "n < 24") (auto simp: bit_simps)
  then have "take_bit 16 v OR ?h = v" by (intro bit_word_eqI) simp
  moreover have "take_bit 16 v + ?h = take_bit 16 v OR ?h"
    by (rule disjunctive_add) (auto simp: bit_simps)
  ultimately show ?thesis by (simp add: l)
qed

lemma ucast_ucast_u16: "(v :: u32) < 0x8000 \<Longrightarrow> ucast (ucast v :: u16) = v"
  and ucast_ucast_u8: "(v :: u32) < 0x80 \<Longrightarrow> ucast (ucast v :: u8) = v"
  by (simp_all add: ucast_ucast_small word_le_nat_alt word_less_nat_alt)

lemma word_of_int_AND_mask_small:
  "(v :: u32) < 0x80 \<Longrightarrow> \<not> bit (ucast v :: u8) 7"
  using small_word_bit [of v 7 7] by (simp add: bit_simps)

end
