(* ===== verification/WStream.thy ===== *)
theory WStream
  imports Prelude
begin

text \<open>
  The byte stream every protocol module reads from and writes to (\<open>wStream\<close> of
  winpr/include/winpr/stream.h and winpr/libwinpr/utils/stream.c). The C structure holds a buffer,
  a cursor into it, the length of the data and the capacity of the allocation; here the cursor is
  an offset and the capacity is the length of the buffer list.

  The macros check nothing. A read of a byte at or past \<open>length\<close>, and a write at or past
  \<open>capacity\<close>, is the outcome \<open>Overrun\<close>; a routine that returns FALSE is \<open>Fail\<close>, with the stream
  as it left it (some callers look at it again); a routine that returns TRUE is \<open>Ok\<close>.
\<close>

record wStream =
  s_buffer :: bytes
  s_pos :: nat
  s_length :: nat

datatype 'a res = Ok 'a wStream | Fail wStream | Overrun

fun andthen :: "'a res \<Rightarrow> ('a \<Rightarrow> wStream \<Rightarrow> 'b res) \<Rightarrow> 'b res" where
  "andthen (Ok a s) k = k a s"
| "andthen (Fail s) k = Fail s"
| "andthen Overrun k = Overrun"

lemma andthen_assoc: "andthen (andthen r k) l = andthen r (\<lambda>a s. andthen (k a s) l)"
  by (cases r) simp_all

lemma andthen_Ok_iff:
  "andthen r k = Ok b t \<longleftrightarrow> (\<exists>a s. r = Ok a s \<and> k a s = Ok b t)"
  by (cases r) auto

lemma andthen_cong [fundef_cong]:
  "\<lbrakk>r = r'; \<And>a s. r' = Ok a s \<Longrightarrow> k a s = k' a s\<rbrakk> \<Longrightarrow> andthen r k = andthen r' k'"
  by (cases r') auto

subsection \<open>Allocation and cursor\<close>

definition Stream_New :: "bytes \<Rightarrow> wStream" where
  \<comment> \<open>\<open>Stream_New(NULL, size)\<close> when the allocation succeeds: the argument is what malloc left there.\<close>
  "Stream_New mem = \<lparr>s_buffer = mem, s_pos = 0, s_length = length mem\<rparr>"

definition Stream_Capacity :: "wStream \<Rightarrow> nat" where
  "Stream_Capacity s = length (s_buffer s)"

definition Stream_GetRemainingLength :: "wStream \<Rightarrow> nat" where
  \<comment> \<open>An unsigned 64-bit difference: it wraps when the cursor is past the length.\<close>
  "Stream_GetRemainingLength s =
     (if s_pos s \<le> s_length s then s_length s - s_pos s
      else 2 ^ 64 - (s_pos s - s_length s))"

definition Stream_Seek :: "wStream \<Rightarrow> nat \<Rightarrow> wStream" where
  "Stream_Seek s n = s\<lparr>s_pos := s_pos s + n\<rparr>"

definition Stream_Seek_int :: "wStream \<Rightarrow> int \<Rightarrow> wStream" where
  \<comment> \<open>\<open>Stream_Seek\<close> with a signed offset.\<close>
  "Stream_Seek_int s i = s\<lparr>s_pos := nat (int (s_pos s) + i)\<rparr>"

definition Stream_Rewind :: "wStream \<Rightarrow> nat \<Rightarrow> wStream" where
  "Stream_Rewind s n = s\<lparr>s_pos := s_pos s - n\<rparr>"

definition Stream_SetPosition :: "wStream \<Rightarrow> nat \<Rightarrow> wStream" where
  "Stream_SetPosition s p = s\<lparr>s_pos := p\<rparr>"

definition Stream_SealLength :: "wStream \<Rightarrow> wStream" where
  "Stream_SealLength s = s\<lparr>s_length := s_pos s\<rparr>"

definition Stream_SafeSeek :: "wStream \<Rightarrow> nat \<Rightarrow> unit res" where
  "Stream_SafeSeek s n =
     (if Stream_GetRemainingLength s < n then Fail s else Ok () (Stream_Seek s n))"

fun ensure_loop :: "nat \<Rightarrow> nat \<Rightarrow> nat \<Rightarrow> nat option" where
  \<comment> \<open>The doubling loop of \<open>Stream_EnsureCapacity\<close> on a 64-bit \<open>size_t\<close>, with fuel; None when the
    fuel runs out.\<close>
  "ensure_loop 0 new_capacity n = None"
| "ensure_loop (Suc fuel) new_capacity n =
     (let new_capacity = (new_capacity * 2) mod 2 ^ 64
      in if new_capacity < n then ensure_loop fuel new_capacity n else Some new_capacity)"

definition Stream_EnsureCapacity :: "nat \<Rightarrow> bool \<Rightarrow> wStream \<Rightarrow> nat \<Rightarrow> unit res option" where
  "Stream_EnsureCapacity fuel realloc_ok s n =
     (if Stream_Capacity s < n then
        (case ensure_loop fuel (Stream_Capacity s) n of
           None \<Rightarrow> None
         | Some new_capacity \<Rightarrow>
             Some (if \<not> realloc_ok then Fail s
                   else Ok () (s\<lparr>s_buffer := s_buffer s @ replicate (new_capacity - Stream_Capacity s) 0,
                                 s_length := new_capacity\<rparr>)))
      else Some (Ok () s))"

definition Stream_EnsureRemainingCapacity ::
    "nat \<Rightarrow> bool \<Rightarrow> wStream \<Rightarrow> nat \<Rightarrow> unit res option" where
  "Stream_EnsureRemainingCapacity fuel realloc_ok s n =
     (if (s_pos s + n) mod 2 ^ 64 > Stream_Capacity s
      then Stream_EnsureCapacity fuel realloc_ok s ((Stream_Capacity s + n) mod 2 ^ 64)
      else Some (Ok () s))"

subsection \<open>Reading\<close>

text \<open>The data from the cursor to the length: what a reader may look at.\<close>

definition avail :: "wStream \<Rightarrow> bytes" where
  "avail s = drop (s_pos s) (take (s_length s) (s_buffer s))"

definition Stream_Peek_UINT8 :: "wStream \<Rightarrow> u8 res" where
  "Stream_Peek_UINT8 s = (case avail s of b # _ \<Rightarrow> Ok b s | _ \<Rightarrow> Overrun)"

definition Stream_Read_UINT8 :: "wStream \<Rightarrow> u8 res" where
  "Stream_Read_UINT8 s = (case avail s of b # _ \<Rightarrow> Ok b (Stream_Seek s 1) | _ \<Rightarrow> Overrun)"

definition Stream_Read_UINT16 :: "wStream \<Rightarrow> u16 res" where
  "Stream_Read_UINT16 s =
     (case avail s of
        b0 # b1 # _ \<Rightarrow> Ok (ucast b0 + push_bit 8 (ucast b1)) (Stream_Seek s 2)
      | _ \<Rightarrow> Overrun)"

definition Stream_Read_UINT16_BE :: "wStream \<Rightarrow> u16 res" where
  "Stream_Read_UINT16_BE s =
     (case avail s of
        b0 # b1 # _ \<Rightarrow> Ok (push_bit 8 (ucast b0) + ucast b1) (Stream_Seek s 2)
      | _ \<Rightarrow> Overrun)"

definition Stream_Read_UINT32 :: "wStream \<Rightarrow> u32 res" where
  "Stream_Read_UINT32 s =
     (case avail s of
        b0 # b1 # b2 # b3 # _ \<Rightarrow>
          Ok (ucast b0 + push_bit 8 (ucast b1) + push_bit 16 (ucast b2) + push_bit 24 (ucast b3))
             (Stream_Seek s 4)
      | _ \<Rightarrow> Overrun)"

definition Stream_Read_UINT32_BE :: "wStream \<Rightarrow> u32 res" where
  "Stream_Read_UINT32_BE s =
     (case avail s of
        b0 # b1 # b2 # b3 # _ \<Rightarrow>
          Ok (push_bit 24 (ucast b0) + push_bit 16 (ucast b1) + push_bit 8 (ucast b2) + ucast b3)
             (Stream_Seek s 4)
      | _ \<Rightarrow> Overrun)"

definition Stream_Read :: "wStream \<Rightarrow> nat \<Rightarrow> bytes res" where
  "Stream_Read s n =
     (if n \<le> length (avail s) then Ok (take n (avail s)) (Stream_Seek s n) else Overrun)"

subsection \<open>Writing\<close>

definition Stream_Write :: "wStream \<Rightarrow> bytes \<Rightarrow> unit res" where
  "Stream_Write s bs =
     (if bs = [] \<or> s_pos s + length bs \<le> Stream_Capacity s
      then Ok () (s\<lparr>s_buffer := take (s_pos s) (s_buffer s) @ bs @ drop (s_pos s + length bs) (s_buffer s),
                    s_pos := s_pos s + length bs\<rparr>)
      else Overrun)"

definition le16 :: "u16 \<Rightarrow> bytes" where
  "le16 v = [ucast v, ucast (drop_bit 8 v)]"

definition be16 :: "u16 \<Rightarrow> bytes" where
  "be16 v = [ucast (drop_bit 8 v), ucast v]"

definition le32 :: "u32 \<Rightarrow> bytes" where
  "le32 v = [ucast v, ucast (drop_bit 8 v), ucast (drop_bit 16 v), ucast (drop_bit 24 v)]"

definition be32 :: "u32 \<Rightarrow> bytes" where
  "be32 v = [ucast (drop_bit 24 v), ucast (drop_bit 16 v), ucast (drop_bit 8 v), ucast v]"

definition Stream_Write_UINT8 :: "wStream \<Rightarrow> u8 \<Rightarrow> unit res" where
  "Stream_Write_UINT8 s v = Stream_Write s [v]"

definition Stream_Write_UINT16 :: "wStream \<Rightarrow> u16 \<Rightarrow> unit res" where
  "Stream_Write_UINT16 s v = Stream_Write s (le16 v)"

definition Stream_Write_UINT16_BE :: "wStream \<Rightarrow> u16 \<Rightarrow> unit res" where
  "Stream_Write_UINT16_BE s v = Stream_Write s (be16 v)"

definition Stream_Write_UINT32 :: "wStream \<Rightarrow> u32 \<Rightarrow> unit res" where
  "Stream_Write_UINT32 s v = Stream_Write s (le32 v)"

definition Stream_Write_UINT32_BE :: "wStream \<Rightarrow> u32 \<Rightarrow> unit res" where
  "Stream_Write_UINT32_BE s v = Stream_Write s (be32 v)"

subsection \<open>Well-formed streams and the data they hold\<close>

text \<open>
  The cursor is inside the data and the data inside the allocation. The last conjunct keeps the
  \<open>(int)\<close> casts of the code exact: no stream of the program holds 2 GB.
\<close>

definition swf :: "wStream \<Rightarrow> bool" where
  "swf s \<longleftrightarrow> s_pos s \<le> s_length s \<and> s_length s \<le> length (s_buffer s) \<and> s_length s < 2 ^ 31"

lemma length_avail: "swf s \<Longrightarrow> length (avail s) = s_length s - s_pos s"
  by (simp add: swf_def avail_def)

lemma length_avail_bound: "swf s \<Longrightarrow> length (avail s) < 2 ^ 31"
  by (auto simp: swf_def avail_def)

lemma remaining [simp]: "swf s \<Longrightarrow> Stream_GetRemainingLength s = length (avail s)"
  by (simp add: swf_def avail_def Stream_GetRemainingLength_def)

lemma c_int_remaining [simp]: "swf s \<Longrightarrow> c_int (length (avail s)) = int (length (avail s))"
  by (rule c_int_small) (rule length_avail_bound)

lemma avail_Stream_Seek [simp]: "avail (Stream_Seek s n) = drop n (avail s)"
  by (simp add: avail_def Stream_Seek_def add.commute)

lemma Stream_Seek_Stream_Seek [simp]: "Stream_Seek (Stream_Seek s m) n = Stream_Seek s (m + n)"
  by (simp add: Stream_Seek_def)

lemma Stream_Seek_0 [simp]: "Stream_Seek s 0 = s"
  by (simp add: Stream_Seek_def)

lemma Stream_Seek_sel [simp]:
  "s_buffer (Stream_Seek s n) = s_buffer s"
  "s_pos (Stream_Seek s n) = s_pos s + n"
  "s_length (Stream_Seek s n) = s_length s"
  by (simp_all add: Stream_Seek_def)

lemma swf_Stream_Seek [simp]: "swf s \<Longrightarrow> n \<le> length (avail s) \<Longrightarrow> swf (Stream_Seek s n)"
  by (auto simp: swf_def avail_def Stream_Seek_def)

lemma Stream_Rewind_Seek [simp]: "Stream_Rewind (Stream_Seek s n) n = s"
  by (simp add: Stream_Rewind_def Stream_Seek_def)

lemma Stream_Seek_int_nonneg [simp]: "0 \<le> i \<Longrightarrow> Stream_Seek_int s i = Stream_Seek s (nat i)"
  by (simp add: Stream_Seek_int_def Stream_Seek_def nat_add_distrib)

lemma Stream_SafeSeek_swf [simp]:
  "swf s \<Longrightarrow> Stream_SafeSeek s n =
     (if length (avail s) < n then Fail s else Ok () (Stream_Seek s n))"
  by (simp add: Stream_SafeSeek_def)

lemma swf_Stream_New [simp]: "length mem < 2 ^ 31 \<Longrightarrow> swf (Stream_New mem)"
  by (simp add: swf_def Stream_New_def)

lemma avail_Stream_New [simp]: "avail (Stream_New mem) = mem"
  by (simp add: avail_def Stream_New_def)

subsection \<open>Reading known data\<close>

lemma read_known:
  "avail s = b # r \<Longrightarrow> Stream_Peek_UINT8 s = Ok b s"
  "avail s = b # r \<Longrightarrow> Stream_Read_UINT8 s = Ok b (Stream_Seek s 1)"
  "avail s = be16 v @ r \<Longrightarrow> Stream_Read_UINT16_BE s = Ok v (Stream_Seek s 2)"
  "avail s = le16 v @ r \<Longrightarrow> Stream_Read_UINT16 s = Ok v (Stream_Seek s 2)"
  "avail s = be32 w @ r \<Longrightarrow> Stream_Read_UINT32_BE s = Ok w (Stream_Seek s 4)"
  "avail s = le32 w @ r \<Longrightarrow> Stream_Read_UINT32 s = Ok w (Stream_Seek s 4)"
  by (simp_all add: Stream_Peek_UINT8_def Stream_Read_UINT8_def Stream_Read_UINT16_BE_def
      Stream_Read_UINT16_def Stream_Read_UINT32_BE_def Stream_Read_UINT32_def
      be16_def le16_def be32_def le32_def word16_be word16_le word32_be word32_le)

lemma length_encodings [simp]:
  "length (be16 v) = 2" "length (le16 v) = 2" "length (be32 w) = 4" "length (le32 w) = 4"
  by (simp_all add: be16_def le16_def be32_def le32_def)

subsection \<open>Writers as byte strings\<close>

text \<open>
  A writer that never looks at the stream is a byte string and a result. The rules of
  \<open>wr_simps\<close> bring every writer into this form and glue a sequence of them together.
\<close>

definition put :: "wStream \<Rightarrow> bytes \<Rightarrow> 'a \<Rightarrow> 'a res" where
  "put s bs x = andthen (Stream_Write s bs) (\<lambda>_ t. Ok x t)"

lemma Stream_Write_put [wr_simps]: "Stream_Write s bs = put s bs ()"
  by (cases "Stream_Write s bs") (simp_all add: put_def)

lemma put_put [wr_simps]:
  "andthen (put s a x) (\<lambda>y t. put t (f y) (g y)) = put s (a @ f x) (g x)"
proof (cases "a = []"; cases "s_pos s + length a \<le> length (s_buffer s)")
  assume "a = []" then show ?thesis by (simp add: put_def Stream_Write_def)
next
  assume "a = []" then show ?thesis by (simp add: put_def Stream_Write_def)
next
  assume True: "s_pos s + length a \<le> length (s_buffer s)"
  then have "min (s_pos s) (length (s_buffer s)) = s_pos s"
    and "s_pos s + length a + (length (s_buffer s) - (s_pos s + length a)) = length (s_buffer s)"
    by simp_all
  with True show ?thesis
    by (simp add: put_def Stream_Write_def Stream_Capacity_def add.assoc add.commute add.left_commute)
next
  assume "a \<noteq> []" "\<not> s_pos s + length a \<le> length (s_buffer s)"
  then show ?thesis
    by (simp add: put_def Stream_Write_def Stream_Capacity_def)
qed

lemma put_Ok [wr_simps]: "andthen (put s a x) (\<lambda>y t. Ok (g y) t) = put s a (g x)"
  by (auto simp: put_def Stream_Write_def)

lemma put_put_andthen [wr_simps]:
  "andthen (put s a x) (\<lambda>y t. andthen (put t (f y) (g y)) k) = andthen (put s (a @ f x) (g x)) k"
  by (simp flip: andthen_assoc add: put_put)

lemmas stream_put [wr_simps] =
  Stream_Write_UINT8_def Stream_Write_UINT16_def Stream_Write_UINT16_BE_def
  Stream_Write_UINT32_def Stream_Write_UINT32_BE_def

lemma put_fits:
  "s_pos s + length bs \<le> Stream_Capacity s \<Longrightarrow>
   put s bs x = Ok x (s\<lparr>s_buffer := take (s_pos s) (s_buffer s) @ bs @ drop (s_pos s + length bs) (s_buffer s),
                       s_pos := s_pos s + length bs\<rparr>)"
  by (simp add: put_def Stream_Write_def)

lemma put_Overrun_iff:
  "put s bs x = Overrun \<longleftrightarrow> bs \<noteq> [] \<and> Stream_Capacity s < s_pos s + length bs"
  by (auto simp: put_def Stream_Write_def)

lemma put_Nil [simp]: "put s [] x = Ok x s"
  by (simp add: put_def Stream_Write_def)

lemma put_not_Fail [simp]: "put s bs x \<noteq> Fail t"
  by (simp add: put_def Stream_Write_def)

text \<open>A packet: what \<open>transport_write\<close> sends of a stream, the data up to the cursor.\<close>

definition packet :: "wStream \<Rightarrow> bytes" where
  "packet s = take (s_pos s) (s_buffer s)"

lemma packet_SealLength [simp]: "packet (Stream_SealLength s) = packet s"
  by (simp add: packet_def Stream_SealLength_def)

lemma packet_put:
  "put (Stream_New mem) bs x = Ok y t \<Longrightarrow> packet t = bs"
  by (auto simp: put_def Stream_Write_def Stream_New_def packet_def Stream_Capacity_def
      split: if_splits)

lemma put_new:
  "put (Stream_New mem) bs x =
     (if length bs \<le> length mem
      then Ok x \<lparr>s_buffer = bs @ drop (length bs) mem, s_pos = length bs, s_length = length mem\<rparr>
      else Overrun)"
  by (auto simp: put_def Stream_Write_def Stream_New_def Stream_Capacity_def)

lemma put_readback:
  assumes "put s bs x = Ok y t"
  shows "avail (Stream_SetPosition (Stream_SealLength t) (s_pos s)) = bs"
  using assms
  by (auto simp: put_def Stream_Write_def avail_def Stream_SealLength_def Stream_SetPosition_def
      Stream_Capacity_def split: if_splits)

subsection \<open>Readers that stay inside the data\<close>

text \<open>
  \<open>inb s r\<close>: the outcome \<open>r\<close> of a reader started at \<open>s\<close> is not an overrun, and the stream it leaves
  has the same data with the cursor moved forward inside it.
\<close>

definition ahead :: "wStream \<Rightarrow> wStream \<Rightarrow> bool" where
  "ahead s t \<longleftrightarrow> swf t \<and> s_buffer t = s_buffer s \<and> s_length t = s_length s \<and> s_pos s \<le> s_pos t"

fun inb :: "wStream \<Rightarrow> 'a res \<Rightarrow> bool" where
  "inb s (Ok a t) = ahead s t"
| "inb s (Fail t) = ahead s t"
| "inb s Overrun = False"

lemma ahead_refl [simp]: "ahead s s = swf s"
  by (auto simp: ahead_def)

lemma ahead_swf: "ahead s t \<Longrightarrow> swf t"
  by (simp add: ahead_def)

lemma ahead_trans: "ahead s t \<Longrightarrow> ahead t u \<Longrightarrow> ahead s u"
  by (auto simp: ahead_def)

lemma ahead_Seek [simp]: "swf s \<Longrightarrow> n \<le> length (avail s) \<Longrightarrow> ahead s (Stream_Seek s n)"
  by (simp add: ahead_def)

lemma ahead_avail: "ahead s t \<Longrightarrow> length (avail t) \<le> length (avail s)"
  by (auto simp: ahead_def avail_def)

lemma inb_trans: "ahead s t \<Longrightarrow> inb t r \<Longrightarrow> inb s r"
  by (cases r) (auto intro: ahead_trans)

lemma inb_not_Overrun: "inb s r \<Longrightarrow> r \<noteq> Overrun"
  by auto

lemma inb_Ok_swf: "inb s (Ok a t) \<Longrightarrow> swf t"
  by (auto dest: ahead_swf)

lemma inb_andthen:
  assumes "inb s r" and "\<And>a t. \<lbrakk>r = Ok a t; ahead s t\<rbrakk> \<Longrightarrow> inb t (k a t)"
  shows "inb s (andthen r k)"
  using assms by (cases r) (auto intro: inb_trans)

lemma inb_andthen' [inb_intros]:
  assumes "inb s r" and "\<And>a t. swf t \<Longrightarrow> inb t (k a t)"
  shows "inb s (andthen r k)"
  using assms by (intro inb_andthen) (auto dest: ahead_swf)

lemma inb_Ok [inb_intros]: "swf s \<Longrightarrow> inb s (Ok a s)"
  and inb_Fail [inb_intros]: "swf s \<Longrightarrow> inb s (Fail s)"
  by simp_all

lemma inb_reads [inb_intros]:
  "swf s \<Longrightarrow> avail s \<noteq> [] \<Longrightarrow> inb s (Stream_Peek_UINT8 s)"
  "swf s \<Longrightarrow> avail s \<noteq> [] \<Longrightarrow> inb s (Stream_Read_UINT8 s)"
  "swf s \<Longrightarrow> 2 \<le> length (avail s) \<Longrightarrow> inb s (Stream_Read_UINT16 s)"
  "swf s \<Longrightarrow> 2 \<le> length (avail s) \<Longrightarrow> inb s (Stream_Read_UINT16_BE s)"
  "swf s \<Longrightarrow> 4 \<le> length (avail s) \<Longrightarrow> inb s (Stream_Read_UINT32 s)"
  "swf s \<Longrightarrow> 4 \<le> length (avail s) \<Longrightarrow> inb s (Stream_Read_UINT32_BE s)"
  "swf s \<Longrightarrow> n \<le> length (avail s) \<Longrightarrow> inb s (Stream_Read s n)"
  by (auto simp: Stream_Peek_UINT8_def Stream_Read_UINT8_def Stream_Read_UINT16_def
      Stream_Read_UINT16_BE_def Stream_Read_UINT32_def Stream_Read_UINT32_BE_def Stream_Read_def
      split: list.split)

lemma inb_SafeSeek [inb_intros]: "swf s \<Longrightarrow> inb s (Stream_SafeSeek s n)"
  by simp

subsection \<open>The contract between an encoder and a decoder\<close>

text \<open>
  A codec: on a stream whose data start with the encoding of \<open>v\<close>, the reader returns \<open>v\<close> and has
  consumed exactly the encoding. The encoder and the reader are the parameters; what a client of
  the pair needs is proved here once and interpreted for every pair of routines that has it.
\<close>

locale codec =
  fixes rd :: "wStream \<Rightarrow> 'a res"
    and enc :: "'a \<Rightarrow> bytes"
    and ok :: "'a \<Rightarrow> bool"
  assumes rd_enc:
    "\<lbrakk>swf s; ok v; avail s = enc v @ r\<rbrakk> \<Longrightarrow> rd s = Ok v (Stream_Seek s (length (enc v)))"
begin

lemma known:
  "\<lbrakk>swf s; avail s = enc v @ r; ok v\<rbrakk> \<Longrightarrow> rd s = Ok v (Stream_Seek s (length (enc v)))"
  by (rule rd_enc)

lemma andthen_rd:
  "\<lbrakk>swf s; ok v; avail s = enc v @ r\<rbrakk>
   \<Longrightarrow> andthen (rd s) k = k v (Stream_Seek s (length (enc v)))"
  by (simp add: rd_enc)

lemma written_then_read:
  assumes "put (Stream_New mem) (enc v) x = Ok y t" "length mem < 2 ^ 31" "ok v"
  shows "rd (Stream_SetPosition (Stream_SealLength t) 0)
         = Ok v (Stream_SetPosition (Stream_SealLength t) (length (enc v)))"
proof -
  let ?u = "Stream_SetPosition (Stream_SealLength t) 0"
  have a: "avail ?u = enc v @ []"
    using put_readback [OF assms(1)] by (simp add: Stream_New_def)
  have "swf ?u"
    using assms(1,2)
    by (auto simp: put_def Stream_Write_def swf_def Stream_SetPosition_def Stream_SealLength_def
        Stream_New_def Stream_Capacity_def split: if_splits)
  from rd_enc [OF this \<open>ok v\<close> a] show ?thesis
    by (simp add: Stream_SetPosition_def Stream_Seek_def)
qed

text \<open>No two values share an encoding, whatever follows it: the reader could not tell them apart.\<close>

lemma enc_unambiguous:
  assumes "ok v" "ok w" "enc v @ r = enc w @ r'" "length (enc v @ r) < 2 ^ 31"
  shows "v = w \<and> r = r'"
proof -
  let ?s = "Stream_New (enc v @ r)"
  have "rd ?s = Ok v (Stream_Seek ?s (length (enc v)))"
    using assms(1,4) by (intro rd_enc [where r = r]) simp_all
  moreover have "rd ?s = Ok w (Stream_Seek ?s (length (enc w)))"
    using assms by (intro rd_enc [where r = r']) simp_all
  ultimately show ?thesis using assms(3) by simp
qed

end

subsection \<open>Growing a stream\<close>

lemma ensure_loop_some:
  assumes "0 < c" "c < n" "n \<le> 2 ^ 63" "n \<le> c * 2 ^ fuel" "0 < fuel"
  shows "\<exists>m. ensure_loop fuel c n = Some m \<and> n \<le> m \<and> c \<le> m \<and> m < 2 ^ 64"
  using assms
proof (induction fuel arbitrary: c)
  case (Suc fuel)
  have m: "(c * 2) mod 2 ^ 64 = c * 2"
    using Suc.prems(2,3) by (intro mod_less) simp
  show ?case
  proof (cases "c * 2 < n")
    case True
    moreover from this Suc.prems have "0 < fuel" by (cases fuel) auto
    ultimately obtain m where "ensure_loop fuel (c * 2) n = Some m" "n \<le> m" "c * 2 \<le> m" "m < 2 ^ 64"
      using Suc.IH [of "c * 2"] Suc.prems by auto
    with True m show ?thesis by auto
  next
    case False
    with m Suc.prems show ?thesis by auto
  qed
qed simp

lemma ensure_loop_zero: "0 < n \<Longrightarrow> ensure_loop fuel 0 n = None"
  by (induction fuel) simp_all

text \<open>Reserving room in a stream terminates, keeps the data and the cursor, and gives at least
  the room asked for, as long as the stream has some capacity and the request stays below 2^63 bytes;
  64 rounds of doubling are enough.\<close>

theorem Stream_EnsureRemainingCapacity_room:
  assumes "0 < Stream_Capacity s" "s_pos s \<le> Stream_Capacity s" "Stream_Capacity s + n \<le> 2 ^ 63"
  shows "\<exists>t. Stream_EnsureRemainingCapacity 64 True s n = Some (Ok () t) \<and>
    s_pos t + n \<le> Stream_Capacity t \<and> s_pos t = s_pos s \<and>
    take (Stream_Capacity s) (s_buffer t) = s_buffer s"
proof (cases "s_pos s + n \<le> Stream_Capacity s")
  case True
  moreover from this assms(3) have "(s_pos s + n) mod 2 ^ 64 = s_pos s + n" by (intro mod_less) simp
  ultimately show ?thesis by (simp add: Stream_EnsureRemainingCapacity_def Stream_Capacity_def)
next
  case False
  let ?c = "Stream_Capacity s" and ?n = "Stream_Capacity s + n"
  have m: "(s_pos s + n) mod 2 ^ 64 = s_pos s + n" "?n mod 2 ^ 64 = ?n"
    using assms(2,3) by (auto intro!: mod_less)
  have "?n \<le> ?c * 2 ^ 64"
    using assms(1,3) by (simp add: Suc_le_eq [symmetric])
  with assms False obtain m' where l: "ensure_loop 64 ?c ?n = Some m'" "?n \<le> m'"
    using ensure_loop_some [of ?c ?n 64] by auto
  have "Stream_EnsureRemainingCapacity 64 True s n
      = Some (Ok () (s\<lparr>s_buffer := s_buffer s @ replicate (m' - ?c) 0, s_length := m'\<rparr>))"
    unfolding Stream_EnsureRemainingCapacity_def m Stream_EnsureCapacity_def
    using False l assms(2) by simp
  moreover have "s_pos s + n \<le> length (s_buffer s @ replicate (m' - ?c) 0)"
    using l(2) assms(2) by (simp add: Stream_Capacity_def)
  ultimately show ?thesis by (simp add: Stream_Capacity_def)
qed

theorem Stream_EnsureRemainingCapacity_room_witness:
  "0 < Stream_Capacity (Stream_New [7, 8, 9]) \<and>
   (\<exists>t. Stream_EnsureRemainingCapacity 64 True (Stream_New [7, 8, 9]) 10 = Some (Ok () t) \<and>
    s_pos t + 10 \<le> Stream_Capacity t \<and> s_pos t = s_pos (Stream_New [7, 8, 9]) \<and>
    take (Stream_Capacity (Stream_New [7, 8, 9])) (s_buffer t) = s_buffer (Stream_New [7, 8, 9]))"
  using Stream_EnsureRemainingCapacity_room [of "Stream_New [7, 8, 9]" 10]
  by (simp add: Stream_Capacity_def Stream_New_def)

text \<open>On a stream of capacity zero the doubling loop never ends, whatever is asked for.\<close>

theorem Stream_EnsureCapacity_zero_diverges:
  assumes "Stream_Capacity s = 0" "0 < n"
  shows "Stream_EnsureCapacity fuel realloc_ok s n = None"
  using assms by (simp add: Stream_EnsureCapacity_def ensure_loop_zero)

theorem Stream_EnsureCapacity_zero_diverges_witness:
  "Stream_Capacity (Stream_New []) = 0 \<and> Stream_EnsureCapacity 1000 True (Stream_New []) 1 = None"
  using Stream_EnsureCapacity_zero_diverges [of "Stream_New []" 1 1000 True]
  by (simp add: Stream_Capacity_def Stream_New_def)

end
