(* ===== verification/Per.thy ===== *)
theory Per
  imports WStream
begin

text \<open>
  The aligned PER primitives of libfreerdp/crypto/per.c, the encoding of the T.125 domain PDUs and
  of the T.124 conference data. A reader returns its out parameter with the stream; a C array
  argument is a list, and an index past its end is an \<open>Overrun\<close> like any other stray access.
\<close>

subsection \<open>Length, choice, selection, padding\<close>

definition per_read_length :: "wStream \<Rightarrow> u16 res" where
  "per_read_length s =
     (if Stream_GetRemainingLength s < 1 then Fail s
      else andthen (Stream_Read_UINT8 s) (\<lambda>byte s.
        if byte AND 0x80 \<noteq> 0 then
          (if Stream_GetRemainingLength s < 1 then Fail s
           else
             (let byte = byte AND NOT 0x80;
                  len = push_bit 8 (ucast byte)
              in andthen (Stream_Read_UINT8 s) (\<lambda>byte s. Ok (len + ucast byte) s)))
        else Ok (ucast byte) s))"

definition per_write_length :: "wStream \<Rightarrow> int \<Rightarrow> unit res" where
  "per_write_length s len =
     (if len > 0x7F then Stream_Write_UINT16_BE s (word_of_int (len OR 0x8000))
      else Stream_Write_UINT8 s (word_of_int len))"

definition per_read_choice :: "wStream \<Rightarrow> u8 res" where
  "per_read_choice s =
     (if Stream_GetRemainingLength s < 1 then Fail s else Stream_Read_UINT8 s)"

definition per_write_choice :: "wStream \<Rightarrow> u8 \<Rightarrow> unit res" where
  "per_write_choice s choice = Stream_Write_UINT8 s choice"

definition per_read_selection :: "wStream \<Rightarrow> u8 res" where
  "per_read_selection s =
     (if Stream_GetRemainingLength s < 1 then Fail s else Stream_Read_UINT8 s)"

definition per_write_selection :: "wStream \<Rightarrow> u8 \<Rightarrow> unit res" where
  "per_write_selection s selection = Stream_Write_UINT8 s selection"

definition per_read_number_of_sets :: "wStream \<Rightarrow> u8 res" where
  "per_read_number_of_sets s =
     (if Stream_GetRemainingLength s < 1 then Fail s else Stream_Read_UINT8 s)"

definition per_write_number_of_sets :: "wStream \<Rightarrow> u8 \<Rightarrow> unit res" where
  "per_write_number_of_sets s number = Stream_Write_UINT8 s number"

definition per_read_padding :: "wStream \<Rightarrow> int \<Rightarrow> unit res" where
  "per_read_padding s len =
     (if c_int (Stream_GetRemainingLength s) < len then Fail s
      else Ok () (Stream_Seek_int s len))"

definition per_write_padding :: "wStream \<Rightarrow> int \<Rightarrow> unit res" where
  "per_write_padding s len = Stream_Write s (replicate (nat len) 0)"

subsection \<open>INTEGER and ENUMERATED\<close>

definition per_read_integer :: "wStream \<Rightarrow> u32 res" where
  "per_read_integer s =
     andthen (per_read_length s) (\<lambda>len s.
       if Stream_GetRemainingLength s < unat len then Fail s
       else if len = 0 then Ok 0 s
       else if len = 1 then andthen (Stream_Read_UINT8 s) (\<lambda>v s. Ok (ucast v) s)
       else if len = 2 then andthen (Stream_Read_UINT16_BE s) (\<lambda>v s. Ok (ucast v) s)
       else Fail s)"

definition per_write_integer :: "wStream \<Rightarrow> u32 \<Rightarrow> unit res" where
  "per_write_integer s integer =
     (if integer \<le> 0xFF then
        andthen (per_write_length s 1) (\<lambda>_ s. Stream_Write_UINT8 s (ucast integer))
      else if integer \<le> 0xFFFF then
        andthen (per_write_length s 2) (\<lambda>_ s. Stream_Write_UINT16_BE s (ucast integer))
      else
        andthen (per_write_length s 4) (\<lambda>_ s. Stream_Write_UINT32_BE s integer))"

definition per_read_integer16 :: "wStream \<Rightarrow> u16 \<Rightarrow> u16 res" where
  "per_read_integer16 s mn =
     (if Stream_GetRemainingLength s < 2 then Fail s
      else andthen (Stream_Read_UINT16_BE s) (\<lambda>integer s.
        if uint integer + uint mn > 0xFFFF then Fail s else Ok (integer + mn) s))"

definition per_write_integer16 :: "wStream \<Rightarrow> u16 \<Rightarrow> u16 \<Rightarrow> unit res" where
  "per_write_integer16 s integer mn = Stream_Write_UINT16_BE s (integer - mn)"

definition per_read_enumerated :: "wStream \<Rightarrow> u8 \<Rightarrow> u8 res" where
  "per_read_enumerated s count =
     (if Stream_GetRemainingLength s < 1 then Fail s
      else andthen (Stream_Read_UINT8 s) (\<lambda>enumerated s.
        if uint enumerated + 1 > uint count then Fail s else Ok enumerated s))"

definition per_write_enumerated :: "wStream \<Rightarrow> u8 \<Rightarrow> u8 \<Rightarrow> unit res" where
  "per_write_enumerated s enumerated count = Stream_Write_UINT8 s enumerated"

subsection \<open>OBJECT IDENTIFIER and strings\<close>

text \<open>An OID is the array \<open>oid[6]\<close>; its first two elements share a byte on the wire.\<close>

record per_oid =
  oid0 :: u8
  oid1 :: u8
  oid2 :: u8
  oid3 :: u8
  oid4 :: u8
  oid5 :: u8

definition per_read_object_identifier :: "wStream \<Rightarrow> per_oid \<Rightarrow> unit res" where
  "per_read_object_identifier s oid =
     andthen (per_read_length s) (\<lambda>len s.
       if len \<noteq> 5 then Fail s
       else if Stream_GetRemainingLength s < unat len then Fail s
       else
         andthen (Stream_Read_UINT8 s) (\<lambda>t12 s.
         andthen (Stream_Read_UINT8 s) (\<lambda>a2 s.
         andthen (Stream_Read_UINT8 s) (\<lambda>a3 s.
         andthen (Stream_Read_UINT8 s) (\<lambda>a4 s.
         andthen (Stream_Read_UINT8 s) (\<lambda>a5 s.
           if drop_bit 4 t12 = oid0 oid \<and> t12 AND 0x0F = oid1 oid \<and> a2 = oid2 oid \<and>
              a3 = oid3 oid \<and> a4 = oid4 oid \<and> a5 = oid5 oid
           then Ok () s else Fail s))))))"

definition per_write_object_identifier :: "wStream \<Rightarrow> per_oid \<Rightarrow> unit res" where
  "per_write_object_identifier s oid =
     (let t12 = push_bit 4 (oid0 oid) AND (oid1 oid AND 0x0F)
      in andthen (Stream_Write_UINT8 s 5) (\<lambda>_ s.
         andthen (Stream_Write_UINT8 s t12) (\<lambda>_ s.
         andthen (Stream_Write_UINT8 s (oid2 oid)) (\<lambda>_ s.
         andthen (Stream_Write_UINT8 s (oid3 oid)) (\<lambda>_ s.
         andthen (Stream_Write_UINT8 s (oid4 oid)) (\<lambda>_ s.
         Stream_Write_UINT8 s (oid5 oid)))))))"

definition per_write_string :: "wStream \<Rightarrow> bytes \<Rightarrow> int \<Rightarrow> unit res" where
  "per_write_string s str len =
     (if int (length str) < len then Overrun else Stream_Write s (take (nat len) str))"

definition per_read_octet_string :: "wStream \<Rightarrow> bytes \<Rightarrow> int \<Rightarrow> int \<Rightarrow> unit res" where
  "per_read_octet_string s oct_str len mn =
     andthen (per_read_length s) (\<lambda>mlength s.
       if uint mlength + mn \<noteq> len then Fail s
       else if c_int (Stream_GetRemainingLength s) < len then Fail s
       else
         (let a_oct_str = avail s; s = Stream_Seek_int s len
          in if int (length oct_str) < len then Overrun
             else if take (nat len) a_oct_str \<noteq> take (nat len) oct_str then Fail s
             else Ok () s))"

definition per_write_octet_string :: "wStream \<Rightarrow> bytes \<Rightarrow> int \<Rightarrow> int \<Rightarrow> unit res" where
  "per_write_octet_string s oct_str len mn =
     (let mlength = (if len - mn \<ge> 0 then len - mn else mn)
      in andthen (per_write_length s mlength) (\<lambda>_ s.
           if int (length oct_str) < len then Overrun
           else Stream_Write s (take (nat len) oct_str)))"

definition per_read_numeric_string :: "wStream \<Rightarrow> int \<Rightarrow> unit res" where
  "per_read_numeric_string s mn =
     andthen (per_read_length s) (\<lambda>mlength s.
       let len = c_div (uint mlength + mn + 1) 2
       in if c_int (Stream_GetRemainingLength s) < len then Fail s
          else Ok () (Stream_Seek_int s len))"

definition per_digit :: "u8 \<Rightarrow> u8" where
  \<comment> \<open>\<open>(c - 0x30) % 10\<close>, computed in int and stored in a BYTE.\<close>
  "per_digit c = word_of_int (c_mod (uint c - 0x30) 10)"

fun per_numeric_pairs :: "bytes \<Rightarrow> bytes" where
  "per_numeric_pairs [] = []"
| "per_numeric_pairs [c1] = [push_bit 4 (per_digit c1) OR per_digit 0x30]"
| "per_numeric_pairs (c1 # c2 # r) =
     (push_bit 4 (per_digit c1) OR per_digit c2) # per_numeric_pairs r"

definition per_write_numeric_string :: "wStream \<Rightarrow> bytes \<Rightarrow> int \<Rightarrow> int \<Rightarrow> unit res" where
  "per_write_numeric_string s num_str len mn =
     (let mlength = (if len - mn \<ge> 0 then len - mn else mn)
      in andthen (per_write_length s mlength) (\<lambda>_ s.
           if int (length num_str) < len then Overrun
           else Stream_Write s (per_numeric_pairs (take (nat len) num_str))))"

subsection \<open>What the writers put on the wire\<close>

definition per_length_bytes :: "int \<Rightarrow> bytes" where
  "per_length_bytes len =
     (if len > 0x7F then be16 (word_of_int len OR 0x8000) else [word_of_int len])"

definition per_integer_bytes :: "u32 \<Rightarrow> bytes" where
  "per_integer_bytes v =
     (if v \<le> 0xFF then [1, ucast v]
      else if v \<le> 0xFFFF then 2 # be16 (ucast v)
      else 4 # be32 v)"

lemma per_write_length_put [wr_simps]: "per_write_length s len = put s (per_length_bytes len) ()"
  by (simp add: per_write_length_def per_length_bytes_def wr_simps word_of_int_or)

lemma per_write_integer_put [wr_simps]: "per_write_integer s v = put s (per_integer_bytes v) ()"
  by (simp add: per_write_integer_def per_integer_bytes_def wr_simps) (simp add: per_length_bytes_def)

lemmas per_write_byte_put [wr_simps] =
  per_write_choice_def per_write_selection_def per_write_number_of_sets_def
  per_write_padding_def per_write_integer16_def per_write_enumerated_def

lemma per_write_object_identifier_put [wr_simps]:
  "per_write_object_identifier s oid =
     put s [5, push_bit 4 (oid0 oid) AND (oid1 oid AND 0x0F), oid2 oid, oid3 oid, oid4 oid, oid5 oid] ()"
  by (simp add: per_write_object_identifier_def wr_simps)

lemma per_write_octet_string_put [wr_simps]:
  "per_write_octet_string s str (int (length str)) mn =
     put s (per_length_bytes (if mn \<le> int (length str) then int (length str) - mn else mn) @ str) ()"
  by (simp add: per_write_octet_string_def wr_simps)

lemma length_per_bytes:
  "length (per_length_bytes len) = (if len > 0x7F then 2 else 1)"
  "length (per_integer_bytes v) = (if v \<le> 0xFF then 2 else if v \<le> 0xFFFF then 3 else 5)"
  by (simp_all add: per_length_bytes_def per_integer_bytes_def)

subsection \<open>Readers on well-formed input\<close>

lemma per_read_length_bytes:
  assumes "swf s" "0 \<le> len" "len \<le> 0x7FFF" "avail s = per_length_bytes len @ r"
  shows "per_read_length s =
           Ok (word_of_int len) (Stream_Seek s (length (per_length_bytes len)))"
proof (cases "len > 0x7F")
  case False
  with assms have "avail s = word_of_int len # r" "(word_of_int len :: u8) AND 0x80 = 0"
    by (simp_all add: per_length_bytes_def top_bit_clear word_of_int_no_top)
  with assms False show ?thesis
    by (simp add: per_read_length_def read_known per_length_bytes_def ucast_word_of_int8)
next
  case True
  let ?w = "word_of_int len :: u16"
  from True assms have a:
    "avail s = ucast (drop_bit 8 (?w OR 0x8000)) # ucast (?w OR 0x8000) # r"
    by (simp add: per_length_bytes_def be16_def)
  from a assms(1) have "swf (Stream_Seek s 1)" by simp
  with a assms(1) True show ?thesis
    using top_bit_set [of ?w] top_bit_dropped [OF word_of_int_no_top(1) [OF assms(2,3)]]
    by (simp add: per_read_length_def read_known per_length_bytes_def)
qed

interpretation per_len: codec per_read_length "\<lambda>v. per_length_bytes (uint v)" "\<lambda>v. uint v \<le> 0x7FFF"
proof
  fix s and v :: u16 and r
  assume "swf s" "uint v \<le> 0x7FFF" "avail s = per_length_bytes (uint v) @ r"
  then show "per_read_length s = Ok v (Stream_Seek s (length (per_length_bytes (uint v))))"
    using per_read_length_bytes [of s "uint v" r] by simp
qed

lemma per_read_small_length:
  assumes "swf s" "avail s = b # r" "\<not> bit b 7"
  shows "per_read_length s = Ok (ucast b) (Stream_Seek s 1)"
  using assms by (simp add: per_read_length_def read_known top_bit_clear)

interpretation per_int: codec per_read_integer per_integer_bytes "\<lambda>v. v \<le> 0xFFFF"
proof
  fix s and v :: u32 and r
  assume swf: "swf s" and v: "v \<le> 0xFFFF" and a: "avail s = per_integer_bytes v @ r"
  show "per_read_integer s = Ok v (Stream_Seek s (length (per_integer_bytes v)))"
  proof (cases "v \<le> 0xFF")
    case True
    with swf a show ?thesis
      by (simp add: per_read_integer_def per_integer_bytes_def per_read_small_length
          ucast_ucast_small read_known)
  next
    case False
    with swf a v have "avail (Stream_Seek s 1) = be16 (ucast v) @ r" "swf (Stream_Seek s 1)"
      by (simp_all add: per_integer_bytes_def)
    with swf a v False show ?thesis
      by (simp add: per_read_integer_def per_integer_bytes_def per_read_small_length
          ucast_ucast_small read_known)
  qed
qed

lemma per_read_integer_four_bytes:
  assumes "swf s" "0xFFFF < v" "avail s = per_integer_bytes v @ r"
  shows "per_read_integer s = Fail (Stream_Seek s 1)"
proof -
  have "\<not> v \<le> 0xFF" "\<not> v \<le> 0xFFFF" using assms(2) by (simp_all add: word_le_nat_alt word_less_nat_alt)
  with assms show ?thesis
    by (simp add: per_read_integer_def per_integer_bytes_def per_read_small_length)
qed

interpretation per_int16: codec "\<lambda>s. per_read_integer16 s mn" "\<lambda>v. be16 (v - mn)" "\<lambda>v. mn \<le> v" for mn
proof
  fix s and v :: u16 and r
  assume swf: "swf s" and le: "mn \<le> v" and a: "avail s = be16 (v - mn) @ r"
  have "uint (v - mn) + uint mn = uint v"
    using le by (simp add: uint_minus_simple_alt [THEN iffD1])
  moreover have "uint v \<le> 0xFFFF" using uint_bounded [of v] by simp
  ultimately show "per_read_integer16 s mn = Ok v (Stream_Seek s (length (be16 (v - mn))))"
    using swf a by (simp add: per_read_integer16_def read_known)
qed

interpretation per_enum: codec "\<lambda>s. per_read_enumerated s count" "\<lambda>v. [v]" "\<lambda>v. v < count" for count
  by unfold_locales (simp add: per_read_enumerated_def read_known word_less_def)

interpretation per_byte: codec per_read_choice "\<lambda>v. [v]" "\<lambda>_. True"
  by unfold_locales (simp add: per_read_choice_def read_known)

subsection \<open>Readers never run past the data\<close>

lemma per_read_length_inb [inb_intros]: "swf s \<Longrightarrow> inb s (per_read_length s)"
  unfolding per_read_length_def by (auto simp: Let_def intro!: inb_intros)

lemma per_read_byte_inb [inb_intros]:
  "swf s \<Longrightarrow> inb s (per_read_choice s)"
  "swf s \<Longrightarrow> inb s (per_read_selection s)"
  "swf s \<Longrightarrow> inb s (per_read_number_of_sets s)"
  by (auto simp: per_read_choice_def per_read_selection_def per_read_number_of_sets_def
      intro!: inb_intros)

lemma per_read_padding_inb [inb_intros]: "swf s \<Longrightarrow> 0 \<le> n \<Longrightarrow> inb s (per_read_padding s n)"
  by (auto simp: per_read_padding_def)

lemma per_read_integer_inb [inb_intros]: "swf s \<Longrightarrow> inb s (per_read_integer s)"
  unfolding per_read_integer_def by (auto intro!: inb_intros)

lemma per_read_integer16_inb [inb_intros]: "swf s \<Longrightarrow> inb s (per_read_integer16 s mn)"
  unfolding per_read_integer16_def by (auto intro!: inb_intros)

lemma per_read_enumerated_inb [inb_intros]: "swf s \<Longrightarrow> inb s (per_read_enumerated s count)"
  unfolding per_read_enumerated_def by (auto intro!: inb_intros)

lemma per_read_object_identifier_inb [inb_intros]:
  "swf s \<Longrightarrow> inb s (per_read_object_identifier s oid)"
  unfolding per_read_object_identifier_def
proof (rule inb_andthen, goal_cases)
  case (2 len t)
  show ?case
  proof (cases "len = 5 \<and> 5 \<le> length (avail t)")
    case True
    with 2 obtain b0 b1 b2 b3 b4 r where "avail t = b0 # b1 # b2 # b3 # b4 # r" "swf t"
      by (auto simp: Suc_le_length_iff numeral_eq_Suc ahead_def)
    with True show ?thesis by (simp add: read_known)
  next
    case False
    with 2 show ?thesis by (auto dest: ahead_swf)
  qed
qed (intro inb_intros)

lemma per_read_octet_string_inb [inb_intros]:
  "swf s \<Longrightarrow> 0 \<le> n \<Longrightarrow> n \<le> int (length str) \<Longrightarrow> inb s (per_read_octet_string s str n mn)"
  unfolding per_read_octet_string_def by (auto simp: Let_def intro!: inb_intros)

lemma per_read_numeric_string_inb [inb_intros]:
  "swf s \<Longrightarrow> 0 \<le> mn \<Longrightarrow> inb s (per_read_numeric_string s mn)"
  unfolding per_read_numeric_string_def by (auto simp: Let_def intro!: inb_intros)

subsection \<open>Properties\<close>

lemma length_per_integer_bytes_le: "length (per_integer_bytes v) \<le> 5"
  using length_per_bytes(2) [of v] by (auto split: if_splits)

lemma put_fits_Ok:
  "length bs \<le> length mem \<Longrightarrow> \<exists>t. put (Stream_New mem) bs x = Ok x t"
  by (simp add: put_new)

text \<open>An INTEGER of at most 16 bits that \<open>per_write_integer\<close> puts into a fresh stream with room
  for it is read back by \<open>per_read_integer\<close>, which consumes exactly what was written.\<close>

theorem per_integer_roundtrip:
  assumes "v \<le> 0xFFFF" "5 \<le> length mem" "length mem < 2 ^ 31"
  shows "\<exists>t. per_write_integer (Stream_New mem) v = Ok () t \<and>
    per_read_integer (Stream_SetPosition (Stream_SealLength t) 0)
    = Ok v (Stream_SetPosition (Stream_SealLength t) (s_pos t))"
proof -
  have "length (per_integer_bytes v) \<le> length mem"
    using assms(2) length_per_integer_bytes_le [of v] by linarith
  then obtain t where t: "put (Stream_New mem) (per_integer_bytes v) () = Ok () t"
    using put_fits_Ok [of "per_integer_bytes v" mem "()"] by auto
  moreover have "s_pos t = length (per_integer_bytes v)"
    using t by (auto simp: put_new split: if_splits)
  ultimately show ?thesis
    using per_int.written_then_read [OF t assms(3,1)] by (simp add: per_write_integer_put)
qed

theorem per_integer_roundtrip_witness:
  "\<exists>t. per_write_integer (Stream_New (replicate 8 0)) 0x1234 = Ok () t \<and>
    per_read_integer (Stream_SetPosition (Stream_SealLength t) 0)
    = Ok 0x1234 (Stream_SetPosition (Stream_SealLength t) (s_pos t))"
  using per_integer_roundtrip [of "0x1234" "replicate 8 0"] by simp

text \<open>The reader refuses every larger INTEGER, although the writer encodes it in four bytes.\<close>

theorem per_integer_large_refused:
  assumes "0xFFFF < v" "5 \<le> length mem" "length mem < 2 ^ 31"
  shows "\<exists>t u. per_write_integer (Stream_New mem) v = Ok () t \<and>
    per_read_integer (Stream_SetPosition (Stream_SealLength t) 0) = Fail u"
proof -
  have "length (per_integer_bytes v) \<le> length mem"
    using assms(2) length_per_integer_bytes_le [of v] by linarith
  then obtain t where t: "put (Stream_New mem) (per_integer_bytes v) () = Ok () t"
    using put_fits_Ok [of "per_integer_bytes v" mem "()"] by auto
  let ?u = "Stream_SetPosition (Stream_SealLength t) 0"
  have "avail ?u = per_integer_bytes v @ []" using put_readback [OF t] by (simp add: Stream_New_def)
  moreover have "swf ?u"
    using t assms(3) by (auto simp: put_new swf_def Stream_SetPosition_def Stream_SealLength_def split: if_splits)
  ultimately have "per_read_integer ?u = Fail (Stream_Seek ?u 1)"
    using assms(1) by (intro per_read_integer_four_bytes)
  with t show ?thesis by (simp add: per_write_integer_put)
qed

theorem per_integer_large_refused_witness:
  "\<exists>t u. per_write_integer (Stream_New (replicate 8 0)) 0x10000 = Ok () t \<and>
    per_read_integer (Stream_SetPosition (Stream_SealLength t) 0) = Fail u"
  using per_integer_large_refused [of "0x10000" "replicate 8 0"] by simp

lemma oid_first_byte: "push_bit 4 (a :: u8) AND (b AND 0x0F) = 0"
proof -
  have "b AND 0x0F = take_bit 4 b" by (simp add: take_bit_eq_mask mask_eq_decr_exp)
  then show ?thesis by (auto intro!: bit_word_eqI simp: bit_simps)
qed

text \<open>the object identifier written by \<open>per_write_object_identifier\<close> is recognised again exactly
  when its first two arcs are zero: the writer combines the two nibbles with AND.\<close>

theorem per_object_identifier_roundtrip_iff:
  assumes "swf s" "per_write_object_identifier (Stream_New mem) oid = Ok () t" "avail s = packet t"
  shows "(\<exists>u. per_read_object_identifier s oid = Ok () u) \<longleftrightarrow> oid0 oid = 0 \<and> oid1 oid = 0"
proof -
  have "packet t = [5, 0, oid2 oid, oid3 oid, oid4 oid, oid5 oid]"
    using assms(2) by (auto simp: per_write_object_identifier_put oid_first_byte dest: packet_put)
  with assms(1,3) show ?thesis
    by (auto simp: per_read_object_identifier_def per_read_small_length read_known)
qed

theorem per_object_identifier_roundtrip_iff_witness:
  "\<not> (\<exists>u. per_read_object_identifier
      (Stream_New [5, 0, 20, 124, 0, 1])
      \<lparr>oid0 = 1, oid1 = 2, oid2 = 20, oid3 = 124, oid4 = 0, oid5 = 1\<rparr> = Ok () u)"
proof -
  let ?oid = "\<lparr>oid0 = 1, oid1 = 2, oid2 = 20, oid3 = 124, oid4 = 0, oid5 = 1\<rparr> :: per_oid"
  obtain t where t: "per_write_object_identifier (Stream_New (replicate 6 0)) ?oid = Ok () t"
    by (simp add: per_write_object_identifier_put put_new)
  then have "packet t = [5, 0, 20, 124, 0, 1]"
    by (auto simp: per_write_object_identifier_put dest: packet_put)
  with per_object_identifier_roundtrip_iff [of "Stream_New [5, 0, 20, 124, 0, 1]" "replicate 6 0" ?oid t] t
  show ?thesis by simp
qed

text \<open>C31: on a well-formed stream no PER reader looks past the end of the data, whatever the data are,
  and it leaves the cursor inside them.\<close>

theorem per_readers_in_bounds:
  assumes "swf s" "0 \<le> n" "0 \<le> m" "m \<le> int (length str)"
  shows "inb s (per_read_length s) \<and> inb s (per_read_choice s) \<and> inb s (per_read_selection s) \<and>
    inb s (per_read_number_of_sets s) \<and> inb s (per_read_padding s n) \<and> inb s (per_read_integer s) \<and>
    inb s (per_read_integer16 s mn) \<and> inb s (per_read_enumerated s count) \<and>
    inb s (per_read_object_identifier s oid) \<and> inb s (per_read_octet_string s str m n) \<and>
    inb s (per_read_numeric_string s n)"
  using assms by (intro conjI inb_intros) simp_all

theorem per_readers_in_bounds_witness:
  "swf (Stream_New [0x81]) \<and> inb (Stream_New [0x81]) (per_read_length (Stream_New [0x81])) \<and>
   inb (Stream_New [0x81]) (per_read_octet_string (Stream_New [0x81]) [0x41, 0x42] 2 1) \<and>
   inb (Stream_New [0x81]) (per_read_numeric_string (Stream_New [0x81]) 1)"
  using per_readers_in_bounds [of "Stream_New [0x81]" 1 2 "[0x41, 0x42]" 0 0
      "\<lparr>oid0 = 0, oid1 = 0, oid2 = 0, oid3 = 0, oid4 = 0, oid5 = 0\<rparr>"]
  by simp

end
