(* ===== verification/Ber.thy ===== *)
theory Ber
  imports WStream
begin

text \<open>
  The BER and DER primitives of libfreerdp/crypto/ber.c and der.c, the encoding of the T.125
  connect PDUs (BER) and of the CredSSP tokens (DER writers). A writer that returns an int
  returns it as the value of its outcome.
\<close>

definition BER_PC :: "bool \<Rightarrow> u8" where
  "BER_PC pc = (if pc then 0x20 else 0x00)"

abbreviation (input) BER_CLASS_UNIV :: u8 where "BER_CLASS_UNIV \<equiv> 0x00"
abbreviation (input) BER_CLASS_APPL :: u8 where "BER_CLASS_APPL \<equiv> 0x40"
abbreviation (input) BER_CLASS_CTXT :: u8 where "BER_CLASS_CTXT \<equiv> 0x80"
abbreviation (input) BER_CONSTRUCT :: u8 where "BER_CONSTRUCT \<equiv> 0x20"
abbreviation (input) BER_TAG_MASK :: u8 where "BER_TAG_MASK \<equiv> 0x1F"
abbreviation (input) BER_TAG_BOOLEAN :: u8 where "BER_TAG_BOOLEAN \<equiv> 0x01"
abbreviation (input) BER_TAG_INTEGER :: u8 where "BER_TAG_INTEGER \<equiv> 0x02"
abbreviation (input) BER_TAG_BIT_STRING :: u8 where "BER_TAG_BIT_STRING \<equiv> 0x03"
abbreviation (input) BER_TAG_OCTET_STRING :: u8 where "BER_TAG_OCTET_STRING \<equiv> 0x04"
abbreviation (input) BER_TAG_ENUMERATED :: u8 where "BER_TAG_ENUMERATED \<equiv> 0x0A"
abbreviation (input) BER_TAG_SEQUENCE :: u8 where "BER_TAG_SEQUENCE \<equiv> 0x10"
abbreviation (input) BER_TAG_SEQUENCE_OF :: u8 where "BER_TAG_SEQUENCE_OF \<equiv> 0x10"

subsection \<open>Lengths and tags\<close>

definition ber_read_length :: "wStream \<Rightarrow> int res" where
  "ber_read_length s =
     (if Stream_GetRemainingLength s < 1 then Fail s
      else andthen (Stream_Read_UINT8 s) (\<lambda>byte s.
        if byte AND 0x80 \<noteq> 0 then
          (let byte = byte AND NOT 0x80
           in if Stream_GetRemainingLength s < unat byte then Fail s
              else if byte = 1 then andthen (Stream_Read_UINT8 s) (\<lambda>v s. Ok (uint v) s)
              else if byte = 2 then andthen (Stream_Read_UINT16_BE s) (\<lambda>v s. Ok (uint v) s)
              else Fail s)
        else Ok (uint byte) s))"

definition ber_write_length :: "wStream \<Rightarrow> int \<Rightarrow> int res" where
  "ber_write_length s len =
     (if len > 0xFF then
        andthen (Stream_Write_UINT8 s (0x80 XOR 2)) (\<lambda>_ s.
        andthen (Stream_Write_UINT16_BE s (word_of_int len)) (\<lambda>_ s. Ok 3 s))
      else if len > 0x7F then
        andthen (Stream_Write_UINT8 s (0x80 XOR 1)) (\<lambda>_ s.
        andthen (Stream_Write_UINT8 s (word_of_int len)) (\<lambda>_ s. Ok 2 s))
      else andthen (Stream_Write_UINT8 s (word_of_int len)) (\<lambda>_ s. Ok 1 s))"

definition ber_sizeof_length :: "int \<Rightarrow> int" where
  "ber_sizeof_length len = (if len > 0xFF then 3 else if len > 0x7F then 2 else 1)"

definition ber_read_universal_tag :: "wStream \<Rightarrow> u8 \<Rightarrow> bool \<Rightarrow> unit res" where
  "ber_read_universal_tag s tag pc =
     (if Stream_GetRemainingLength s < 1 then Fail s
      else andthen (Stream_Read_UINT8 s) (\<lambda>byte s.
        if byte \<noteq> (BER_CLASS_UNIV OR BER_PC pc OR (BER_TAG_MASK AND tag)) then Fail s
        else Ok () s))"

definition ber_write_universal_tag :: "wStream \<Rightarrow> u8 \<Rightarrow> bool \<Rightarrow> int res" where
  "ber_write_universal_tag s tag pc =
     andthen (Stream_Write_UINT8 s (BER_CLASS_UNIV OR BER_PC pc OR (BER_TAG_MASK AND tag)))
       (\<lambda>_ s. Ok 1 s)"

definition ber_read_application_tag :: "wStream \<Rightarrow> u8 \<Rightarrow> int res" where
  "ber_read_application_tag s tag =
     (if tag > 30 then
        (if Stream_GetRemainingLength s < 1 then Fail s
         else andthen (Stream_Read_UINT8 s) (\<lambda>byte s.
           if byte \<noteq> (BER_CLASS_APPL OR BER_CONSTRUCT OR BER_TAG_MASK) then Fail s
           else if Stream_GetRemainingLength s < 1 then Fail s
           else andthen (Stream_Read_UINT8 s) (\<lambda>byte s.
             if byte \<noteq> tag then Fail s else ber_read_length s)))
      else
        (if Stream_GetRemainingLength s < 1 then Fail s
         else andthen (Stream_Read_UINT8 s) (\<lambda>byte s.
           if byte \<noteq> (BER_CLASS_APPL OR BER_CONSTRUCT OR (BER_TAG_MASK AND tag)) then Fail s
           else ber_read_length s)))"

definition ber_write_application_tag :: "wStream \<Rightarrow> u8 \<Rightarrow> int \<Rightarrow> unit res" where
  "ber_write_application_tag s tag len =
     (if tag > 30 then
        andthen (Stream_Write_UINT8 s (BER_CLASS_APPL OR BER_CONSTRUCT OR BER_TAG_MASK)) (\<lambda>_ s.
        andthen (Stream_Write_UINT8 s tag) (\<lambda>_ s.
        andthen (ber_write_length s len) (\<lambda>_ s. Ok () s)))
      else
        andthen (Stream_Write_UINT8 s (BER_CLASS_APPL OR BER_CONSTRUCT OR (BER_TAG_MASK AND tag))) (\<lambda>_ s.
        andthen (ber_write_length s len) (\<lambda>_ s. Ok () s)))"

definition ber_read_contextual_tag :: "wStream \<Rightarrow> u8 \<Rightarrow> bool \<Rightarrow> int res" where
  "ber_read_contextual_tag s tag pc =
     (if Stream_GetRemainingLength s < 1 then Fail s
      else andthen (Stream_Read_UINT8 s) (\<lambda>byte s.
        if byte \<noteq> (BER_CLASS_CTXT OR BER_PC pc OR (BER_TAG_MASK AND tag))
        then Fail (Stream_Rewind s 1)
        else ber_read_length s))"

definition ber_write_contextual_tag :: "wStream \<Rightarrow> u8 \<Rightarrow> int \<Rightarrow> bool \<Rightarrow> int res" where
  "ber_write_contextual_tag s tag len pc =
     andthen (Stream_Write_UINT8 s (BER_CLASS_CTXT OR BER_PC pc OR (BER_TAG_MASK AND tag))) (\<lambda>_ s.
     andthen (ber_write_length s len) (\<lambda>n s. Ok (1 + n) s))"

definition ber_sizeof_contextual_tag :: "int \<Rightarrow> int" where
  "ber_sizeof_contextual_tag len = 1 + ber_sizeof_length len"

definition ber_read_sequence_tag :: "wStream \<Rightarrow> int res" where
  "ber_read_sequence_tag s =
     (if Stream_GetRemainingLength s < 1 then Fail s
      else andthen (Stream_Read_UINT8 s) (\<lambda>byte s.
        if byte \<noteq> (BER_CLASS_UNIV OR BER_CONSTRUCT OR BER_TAG_SEQUENCE_OF) then Fail s
        else ber_read_length s))"

definition ber_write_sequence_tag :: "wStream \<Rightarrow> int \<Rightarrow> int res" where
  "ber_write_sequence_tag s len =
     andthen (Stream_Write_UINT8 s
                (BER_CLASS_UNIV OR BER_CONSTRUCT OR (BER_TAG_MASK AND BER_TAG_SEQUENCE))) (\<lambda>_ s.
     andthen (ber_write_length s len) (\<lambda>n s. Ok (1 + n) s))"

definition ber_sizeof_sequence :: "int \<Rightarrow> int" where
  "ber_sizeof_sequence len = 1 + ber_sizeof_length len + len"

definition ber_sizeof_sequence_tag :: "int \<Rightarrow> int" where
  "ber_sizeof_sequence_tag len = 1 + ber_sizeof_length len"

subsection \<open>Values\<close>

definition ber_read_enumerated :: "wStream \<Rightarrow> u8 \<Rightarrow> u8 res" where
  "ber_read_enumerated s count =
     andthen (ber_read_universal_tag s BER_TAG_ENUMERATED False) (\<lambda>_ s.
     andthen (ber_read_length s) (\<lambda>len s.
       if len \<noteq> 1 \<or> Stream_GetRemainingLength s < 1 then Fail s
       else andthen (Stream_Read_UINT8 s) (\<lambda>enumerated s.
         if uint enumerated + 1 > uint count then Fail s else Ok enumerated s)))"

definition ber_write_enumerated :: "wStream \<Rightarrow> u8 \<Rightarrow> u8 \<Rightarrow> unit res" where
  "ber_write_enumerated s enumerated count =
     andthen (ber_write_universal_tag s BER_TAG_ENUMERATED False) (\<lambda>_ s.
     andthen (ber_write_length s 1) (\<lambda>_ s.
     Stream_Write_UINT8 s enumerated))"

definition ber_read_bit_string :: "wStream \<Rightarrow> (int \<times> u8) res" where
  "ber_read_bit_string s =
     andthen (ber_read_universal_tag s BER_TAG_BIT_STRING False) (\<lambda>_ s.
     andthen (ber_read_length s) (\<lambda>len s.
       if Stream_GetRemainingLength s < 1 then Fail s
       else andthen (Stream_Read_UINT8 s) (\<lambda>padding s. Ok (len, padding) s)))"

definition ber_write_octet_string :: "wStream \<Rightarrow> bytes \<Rightarrow> int \<Rightarrow> int res" where
  "ber_write_octet_string s oct_str len =
     andthen (ber_write_universal_tag s BER_TAG_OCTET_STRING False) (\<lambda>m s.
     andthen (ber_write_length s len) (\<lambda>n s.
       if int (length oct_str) < len then Overrun
       else andthen (Stream_Write s (take (nat len) oct_str)) (\<lambda>_ s. Ok (m + n + len) s)))"

definition ber_read_octet_string_tag :: "wStream \<Rightarrow> int res" where
  "ber_read_octet_string_tag s =
     andthen (ber_read_universal_tag s BER_TAG_OCTET_STRING False) (\<lambda>_ s. ber_read_length s)"

definition ber_write_octet_string_tag :: "wStream \<Rightarrow> int \<Rightarrow> int res" where
  "ber_write_octet_string_tag s len =
     andthen (ber_write_universal_tag s BER_TAG_OCTET_STRING False) (\<lambda>_ s.
     andthen (ber_write_length s len) (\<lambda>_ s. Ok (1 + ber_sizeof_length len) s))"

definition ber_sizeof_octet_string :: "int \<Rightarrow> int" where
  "ber_sizeof_octet_string len = 1 + ber_sizeof_length len + len"

definition ber_read_BOOL :: "wStream \<Rightarrow> bool res" where
  "ber_read_BOOL s =
     andthen (ber_read_universal_tag s BER_TAG_BOOLEAN False) (\<lambda>_ s.
     andthen (ber_read_length s) (\<lambda>len s.
       if len \<noteq> 1 \<or> Stream_GetRemainingLength s < 1 then Fail s
       else andthen (Stream_Read_UINT8 s) (\<lambda>v s. Ok (v \<noteq> 0) s)))"

definition ber_write_BOOL :: "wStream \<Rightarrow> bool \<Rightarrow> unit res" where
  "ber_write_BOOL s b =
     andthen (ber_write_universal_tag s BER_TAG_BOOLEAN False) (\<lambda>_ s.
     andthen (ber_write_length s 1) (\<lambda>_ s.
     Stream_Write_UINT8 s (if b then 0xFF else 0)))"

definition ber_read_integer :: "wStream \<Rightarrow> bool \<Rightarrow> u32 res" where
  \<comment> \<open>The flag is \<open>value != NULL\<close>; with NULL the value is skipped and 0 stands for nothing stored.\<close>
  "ber_read_integer s want =
     andthen (ber_read_universal_tag s BER_TAG_INTEGER False) (\<lambda>_ s.
     andthen (ber_read_length s) (\<lambda>len s.
       if c_int (Stream_GetRemainingLength s) < len then Fail s
       else if \<not> want then andthen (Stream_SafeSeek s (nat len)) (\<lambda>_ s. Ok 0 s)
       else if len = 1 then andthen (Stream_Read_UINT8 s) (\<lambda>v s. Ok (ucast v) s)
       else if len = 2 then andthen (Stream_Read_UINT16_BE s) (\<lambda>v s. Ok (ucast v) s)
       else if len = 3 then
         andthen (Stream_Read_UINT8 s) (\<lambda>byte s.
         andthen (Stream_Read_UINT16_BE s) (\<lambda>v s.
           Ok (ucast v + push_bit 16 (ucast byte)) s))
       else if len = 4 then Stream_Read_UINT32_BE s
       else Fail s))"

definition ber_write_integer :: "wStream \<Rightarrow> u32 \<Rightarrow> int res" where
  "ber_write_integer s v =
     (if v < 0x80 then
        andthen (ber_write_universal_tag s BER_TAG_INTEGER False) (\<lambda>_ s.
        andthen (ber_write_length s 1) (\<lambda>_ s.
        andthen (Stream_Write_UINT8 s (ucast v)) (\<lambda>_ s. Ok 3 s)))
      else if v < 0x8000 then
        andthen (ber_write_universal_tag s BER_TAG_INTEGER False) (\<lambda>_ s.
        andthen (ber_write_length s 2) (\<lambda>_ s.
        andthen (Stream_Write_UINT16_BE s (ucast v)) (\<lambda>_ s. Ok 4 s)))
      else if v < 0x800000 then
        andthen (ber_write_universal_tag s BER_TAG_INTEGER False) (\<lambda>_ s.
        andthen (ber_write_length s 3) (\<lambda>_ s.
        andthen (Stream_Write_UINT8 s (ucast (drop_bit 16 v))) (\<lambda>_ s.
        andthen (Stream_Write_UINT16_BE s (ucast (v AND 0xFFFF))) (\<lambda>_ s. Ok 5 s))))
      else if v < 0x80000000 then
        andthen (ber_write_universal_tag s BER_TAG_INTEGER False) (\<lambda>_ s.
        andthen (ber_write_length s 4) (\<lambda>_ s.
        andthen (Stream_Write_UINT32_BE s v) (\<lambda>_ s. Ok 6 s)))
      else Ok 0 s)"

definition ber_sizeof_integer :: "u32 \<Rightarrow> int" where
  "ber_sizeof_integer v =
     (if v < 0x80 then 3 else if v < 0x8000 then 4 else if v < 0x800000 then 5
      else if v < 0x80000000 then 6 else 0)"

definition ber_read_integer_length :: "wStream \<Rightarrow> int res" where
  "ber_read_integer_length s =
     andthen (ber_read_universal_tag s BER_TAG_INTEGER False) (\<lambda>_ s. ber_read_length s)"

subsection \<open>DER\<close>

definition der_skip_length :: "int \<Rightarrow> int" where
  "der_skip_length len = (if len > 0x7F \<and> len \<le> 0xFF then 2 else if len > 0xFF then 3 else 1)"

definition der_write_length :: "wStream \<Rightarrow> int \<Rightarrow> int res" where
  "der_write_length s len =
     (if len > 0x7F \<and> len \<le> 0xFF then
        andthen (Stream_Write_UINT8 s 0x81) (\<lambda>_ s.
        andthen (Stream_Write_UINT8 s (word_of_int len)) (\<lambda>_ s. Ok 2 s))
      else if len > 0xFF then
        andthen (Stream_Write_UINT8 s 0x82) (\<lambda>_ s.
        andthen (Stream_Write_UINT16_BE s (word_of_int len)) (\<lambda>_ s. Ok 3 s))
      else andthen (Stream_Write_UINT8 s (word_of_int len)) (\<lambda>_ s. Ok 1 s))"

definition der_get_content_length :: "int \<Rightarrow> int" where
  "der_get_content_length len =
     (if len > 0x81 \<and> len \<le> 0x102 then len - 3 else if len > 0x102 then len - 4 else len - 2)"

definition der_skip_contextual_tag :: "int \<Rightarrow> int" where
  "der_skip_contextual_tag len = der_skip_length len + 1"

definition der_write_contextual_tag :: "wStream \<Rightarrow> u8 \<Rightarrow> int \<Rightarrow> bool \<Rightarrow> int res" where
  "der_write_contextual_tag s tag len pc =
     andthen (Stream_Write_UINT8 s (BER_CLASS_CTXT OR BER_PC pc OR (BER_TAG_MASK AND tag))) (\<lambda>_ s.
     andthen (der_write_length s len) (\<lambda>n s. Ok (n + 1) s))"

definition der_write_universal_tag :: "wStream \<Rightarrow> u8 \<Rightarrow> bool \<Rightarrow> unit res" where
  "der_write_universal_tag s tag pc =
     Stream_Write_UINT8 s (BER_CLASS_UNIV OR BER_PC pc OR (BER_TAG_MASK AND tag))"

definition der_skip_octet_string :: "int \<Rightarrow> int" where
  "der_skip_octet_string len = 1 + der_skip_length len + len"

definition der_write_octet_string :: "wStream \<Rightarrow> bytes \<Rightarrow> int \<Rightarrow> unit res" where
  "der_write_octet_string s oct_str len =
     andthen (der_write_universal_tag s BER_TAG_OCTET_STRING False) (\<lambda>_ s.
     andthen (der_write_length s len) (\<lambda>_ s.
       if int (length oct_str) < len then Overrun else Stream_Write s (take (nat len) oct_str)))"

definition der_skip_sequence_tag :: "int \<Rightarrow> int" where
  "der_skip_sequence_tag len = 1 + der_skip_length len"

definition der_write_sequence_tag :: "wStream \<Rightarrow> int \<Rightarrow> int res" where
  "der_write_sequence_tag s len =
     andthen (Stream_Write_UINT8 s
                (BER_CLASS_UNIV OR BER_CONSTRUCT OR (BER_TAG_MASK AND BER_TAG_SEQUENCE))) (\<lambda>_ s.
     andthen (der_write_length s len) (\<lambda>n s. Ok (n + 1) s))"

subsection \<open>What the writers put on the wire\<close>

definition ber_length_bytes :: "int \<Rightarrow> bytes" where
  "ber_length_bytes len =
     (if len > 0xFF then 0x82 # be16 (word_of_int len)
      else if len > 0x7F then [0x81, word_of_int len]
      else [word_of_int len])"

definition ber_integer_bytes :: "u32 \<Rightarrow> bytes" where
  "ber_integer_bytes v =
     (if v < 0x80 then [2, 1, ucast v]
      else if v < 0x8000 then [2, 2] @ be16 (ucast v)
      else if v < 0x800000 then [2, 3, ucast (drop_bit 16 v)] @ be16 (ucast (v AND 0xFFFF))
      else if v < 0x80000000 then [2, 4] @ be32 v
      else [])"

lemma ber_write_length_put [wr_simps]:
  "ber_write_length s len = put s (ber_length_bytes len) (ber_sizeof_length len)"
  by (simp add: ber_write_length_def ber_length_bytes_def ber_sizeof_length_def wr_simps)

lemma der_write_length_put [wr_simps]: "der_write_length s len = ber_write_length s len"
  by (simp add: der_write_length_def ber_length_bytes_def ber_sizeof_length_def wr_simps)

lemma der_skip_length_eq: "der_skip_length len = ber_sizeof_length len"
  by (simp add: der_skip_length_def ber_sizeof_length_def)

lemma length_ber_length_bytes: "int (length (ber_length_bytes len)) = ber_sizeof_length len"
  by (simp add: ber_length_bytes_def ber_sizeof_length_def)

lemma length_ber_integer_bytes: "int (length (ber_integer_bytes v)) = ber_sizeof_integer v"
  by (simp add: ber_integer_bytes_def ber_sizeof_integer_def)

lemma ber_length_bytes_small [simp]: "0 \<le> len \<Longrightarrow> len \<le> 0x7F \<Longrightarrow> ber_length_bytes len = [word_of_int len]"
  by (simp add: ber_length_bytes_def)

lemma ber_write_integer_put [wr_simps]:
  "ber_write_integer s v = put s (ber_integer_bytes v) (ber_sizeof_integer v)"
proof (cases "v < 0x80000000")
  case True
  then show ?thesis
    by (simp add: ber_write_integer_def ber_integer_bytes_def ber_sizeof_integer_def
        ber_write_universal_tag_def BER_PC_def wr_simps)
next
  case False
  then have "\<not> v < 0x80" "\<not> v < 0x8000" "\<not> v < 0x800000"
    by (simp_all add: word_less_nat_alt)
  with False show ?thesis
    by (simp add: ber_write_integer_def ber_integer_bytes_def ber_sizeof_integer_def put_def
        Stream_Write_def)
qed

text \<open>A tag followed by a length, and the writers built from them.\<close>

lemma ber_write_universal_tag_put [wr_simps]:
  "ber_write_universal_tag s tag pc = put s [BER_PC pc OR (BER_TAG_MASK AND tag)] 1"
  by (simp add: ber_write_universal_tag_def wr_simps)

definition ber_application_bytes :: "u8 \<Rightarrow> int \<Rightarrow> bytes" where
  "ber_application_bytes tag len =
     (if tag > 30 then [0x7F, tag] else [BER_CLASS_APPL OR BER_CONSTRUCT OR (BER_TAG_MASK AND tag)]) @ ber_length_bytes len"

lemma ber_write_application_tag_put [wr_simps]:
  "ber_write_application_tag s tag len = put s (ber_application_bytes tag len) ()"
  by (simp add: ber_write_application_tag_def ber_application_bytes_def wr_simps)

lemma ber_write_contextual_tag_put [wr_simps]:
  "ber_write_contextual_tag s tag len pc =
     put s ((0x80 OR BER_PC pc OR (BER_TAG_MASK AND tag)) # ber_length_bytes len)
       (ber_sizeof_contextual_tag len)"
  by (simp add: ber_write_contextual_tag_def ber_sizeof_contextual_tag_def wr_simps)

lemma ber_write_sequence_tag_put [wr_simps]:
  "ber_write_sequence_tag s len = put s (0x30 # ber_length_bytes len) (ber_sizeof_sequence_tag len)"
  by (simp add: ber_write_sequence_tag_def ber_sizeof_sequence_tag_def wr_simps)

lemma ber_write_octet_string_put [wr_simps]:
  "ber_write_octet_string s str (int (length str)) =
     put s (4 # ber_length_bytes (int (length str)) @ str) (ber_sizeof_octet_string (int (length str)))"
  by (simp add: ber_write_octet_string_def ber_sizeof_octet_string_def BER_PC_def wr_simps ac_simps)

lemma ber_write_octet_string_tag_put [wr_simps]:
  "ber_write_octet_string_tag s len = put s (4 # ber_length_bytes len) (1 + ber_sizeof_length len)"
  by (simp add: ber_write_octet_string_tag_def BER_PC_def wr_simps)

lemma ber_write_enumerated_put [wr_simps]:
  "ber_write_enumerated s e count = put s [0x0A, 1, e] ()"
  by (simp add: ber_write_enumerated_def BER_PC_def wr_simps)

lemma ber_write_BOOL_put [wr_simps]:
  "ber_write_BOOL s b = put s [1, 1, if b then 0xFF else 0] ()"
  by (simp add: ber_write_BOOL_def BER_PC_def wr_simps)

subsection \<open>Readers on well-formed input\<close>

lemma word_of_int8_no_top:
  "0x7F < a \<Longrightarrow> a \<le> 0xFF \<Longrightarrow> uint (word_of_int a :: u8) = a"
  "0 \<le> a \<Longrightarrow> a \<le> 0xFFFF \<Longrightarrow> uint (word_of_int a :: u16) = a"
  "0 \<le> a \<Longrightarrow> a \<le> 0x7F \<Longrightarrow> uint (word_of_int a :: u8) = a"
  by (simp_all add: uint_word_of_int_eq take_bit_int_eq_self)

interpretation ber_len: codec ber_read_length ber_length_bytes "\<lambda>len. 0 \<le> len \<and> len \<le> 0xFFFF"
proof
  fix s len r
  assume swf: "swf s" and len: "0 \<le> len \<and> len \<le> 0xFFFF"
    and a: "avail s = ber_length_bytes len @ r"
  consider "len \<le> 0x7F" | "0x7F < len" "len \<le> 0xFF" | "0xFF < len" by linarith
  then show "ber_read_length s = Ok len (Stream_Seek s (length (ber_length_bytes len)))"
  proof cases
    case 1
    with swf len a show ?thesis
      by (simp add: ber_read_length_def ber_length_bytes_def read_known top_bit_clear
          word_of_int_no_top word_of_int8_no_top)
  next
    case 2
    with swf len a have "avail (Stream_Seek s 1) = word_of_int len # r" "swf (Stream_Seek s 1)"
      by (simp_all add: ber_length_bytes_def)
    with 2 swf len a show ?thesis
      by (simp add: ber_read_length_def ber_length_bytes_def read_known word_of_int8_no_top)
  next
    case 3
    with swf len a have "avail (Stream_Seek s 1) = be16 (word_of_int len) @ r" "swf (Stream_Seek s 1)"
      by (simp_all add: ber_length_bytes_def)
    with 3 swf len a show ?thesis
      by (simp add: ber_read_length_def ber_length_bytes_def read_known word_of_int8_no_top)
  qed
qed

lemma ber_read_length_small:
  "swf s \<Longrightarrow> avail s = b # r \<Longrightarrow> \<not> bit b 7 \<Longrightarrow> ber_read_length s = Ok (uint b) (Stream_Seek s 1)"
  by (simp add: ber_read_length_def read_known top_bit_clear)

lemma ber_read_universal_tag_known:
  "swf s \<Longrightarrow> avail s = b # r \<Longrightarrow>
   ber_read_universal_tag s tag pc =
     (if b = BER_PC pc OR (BER_TAG_MASK AND tag) then Ok () (Stream_Seek s 1) else Fail (Stream_Seek s 1))"
  by (simp add: ber_read_universal_tag_def read_known)

text \<open>Reading an INTEGER whose header is in the data.\<close>

lemma ber_read_integer_known:
  assumes "swf s" "avail s = 2 # n # r" "\<not> bit n 7"
  shows "ber_read_integer s True =
    (let t = Stream_Seek s 2 in
       if int (length r) < uint n then Fail t
       else if n = 1 then andthen (Stream_Read_UINT8 t) (\<lambda>v s. Ok (ucast v) s)
       else if n = 2 then andthen (Stream_Read_UINT16_BE t) (\<lambda>v s. Ok (ucast v) s)
       else if n = 3 then
         andthen (Stream_Read_UINT8 t) (\<lambda>byte s.
         andthen (Stream_Read_UINT16_BE s) (\<lambda>v s. Ok (ucast v + push_bit 16 (ucast byte)) s))
       else if n = 4 then Stream_Read_UINT32_BE t
       else Fail t)"
proof -
  have t: "swf (Stream_Seek s 1)" "swf (Stream_Seek s 2)" using assms by simp_all
  have "uint n = 1 \<longleftrightarrow> n = 1" "uint n = 2 \<longleftrightarrow> n = 2" "uint n = 3 \<longleftrightarrow> n = 3" "uint n = 4 \<longleftrightarrow> n = 4"
    by (auto simp flip: word_uint_eq_iff simp: word_uint_eq_iff)
  moreover have "c_int (Stream_GetRemainingLength (Stream_Seek s 2)) = int (length r)"
    using t assms(2) c_int_remaining [OF t(2)] by simp
  ultimately show ?thesis
    using assms t
    by (simp add: ber_read_integer_def ber_read_universal_tag_known ber_read_length_small BER_PC_def
        Let_def numeral_2_eq_2)
qed

interpretation ber_int: codec "\<lambda>s. ber_read_integer s True" ber_integer_bytes "\<lambda>v. v < 0x80000000"
proof
  fix s and v :: u32 and r
  assume swf: "swf s" and v: "v < 0x80000000" and a: "avail s = ber_integer_bytes v @ r"
  consider "v < 0x80" | "\<not> v < 0x80" "v < 0x8000" | "\<not> v < 0x80" "\<not> v < 0x8000" "v < 0x800000"
    | "\<not> v < 0x80" "\<not> v < 0x8000" "\<not> v < 0x800000" by blast
  then show "ber_read_integer s True = Ok v (Stream_Seek s (length (ber_integer_bytes v)))"
  proof cases
    case 1
    with swf a show ?thesis
      by (simp add: ber_read_integer_known ber_integer_bytes_def read_known ucast_ucast_u8 bit_1_iff)
  next
    case 2
    with swf a have "avail s = 2 # 2 # be16 (ucast v) @ r" by (simp add: ber_integer_bytes_def)
    with 2 swf show ?thesis
      by (simp add: ber_read_integer_known ber_integer_bytes_def read_known ucast_ucast_u16)
  next
    case 3
    with swf a have h: "avail s = 2 # 3 # ucast (drop_bit 16 v) # be16 (ucast (v AND 0xFFFF)) @ r"
      by (simp add: ber_integer_bytes_def)
    with 3 swf show ?thesis
      by (simp add: ber_read_integer_known ber_integer_bytes_def read_known word24_be)
  next
    case 4
    with swf a v have "avail s = 2 # 4 # be32 v @ r" by (simp add: ber_integer_bytes_def)
    with 4 swf v show ?thesis
      by (simp add: ber_read_integer_known ber_integer_bytes_def read_known)
  qed
qed

interpretation ber_app: codec "\<lambda>s. ber_read_application_tag s tag" "ber_application_bytes tag"
  "\<lambda>len. 0 \<le> len \<and> len \<le> 0xFFFF" for tag
proof
  fix s len r
  assume swf: "swf s" and len: "0 \<le> len \<and> len \<le> 0xFFFF"
    and a: "avail s = ber_application_bytes tag len @ r"
  let ?n = "if tag > 30 then 2 else 1 :: nat"
  let ?t = "Stream_Seek s ?n"
  have "avail ?t = ber_length_bytes len @ r" "swf ?t"
    using a swf by (simp_all add: ber_application_bytes_def)
  with len have "ber_read_length ?t = Ok len (Stream_Seek ?t (length (ber_length_bytes len)))"
    by (intro ber_len.rd_enc)
  with a swf show "ber_read_application_tag s tag
      = Ok len (Stream_Seek s (length (ber_application_bytes tag len)))"
    by (cases "tag > 30")
      (simp_all add: ber_read_application_tag_def ber_application_bytes_def read_known
        numeral_2_eq_2)
qed

interpretation ber_seq: codec ber_read_sequence_tag "\<lambda>len. 0x30 # ber_length_bytes len"
  "\<lambda>len. 0 \<le> len \<and> len \<le> 0xFFFF"
proof
  fix s len r
  assume swf: "swf s" and len: "0 \<le> len \<and> len \<le> 0xFFFF"
    and a: "avail s = (0x30 # ber_length_bytes len) @ r"
  with ber_len.rd_enc [of "Stream_Seek s 1" len r] show
    "ber_read_sequence_tag s = Ok len (Stream_Seek s (length (0x30 # ber_length_bytes len)))"
    by (simp add: ber_read_sequence_tag_def read_known)
qed

interpretation ber_octets: codec ber_read_octet_string_tag "\<lambda>len. 4 # ber_length_bytes len"
  "\<lambda>len. 0 \<le> len \<and> len \<le> 0xFFFF"
proof
  fix s len r
  assume swf: "swf s" and len: "0 \<le> len \<and> len \<le> 0xFFFF"
    and a: "avail s = (4 # ber_length_bytes len) @ r"
  with ber_len.rd_enc [of "Stream_Seek s 1" len r] show
    "ber_read_octet_string_tag s = Ok len (Stream_Seek s (length (4 # ber_length_bytes len)))"
    by (simp add: ber_read_octet_string_tag_def ber_read_universal_tag_known BER_PC_def)
qed

interpretation ber_ctx: codec "\<lambda>s. ber_read_contextual_tag s tag pc"
  "\<lambda>len. (0x80 OR BER_PC pc OR (BER_TAG_MASK AND tag)) # ber_length_bytes len"
  "\<lambda>len. 0 \<le> len \<and> len \<le> 0xFFFF" for tag pc
proof
  fix s len r
  assume swf: "swf s" and len: "0 \<le> len \<and> len \<le> 0xFFFF"
    and a: "avail s = ((0x80 OR BER_PC pc OR (BER_TAG_MASK AND tag)) # ber_length_bytes len) @ r"
  with ber_len.rd_enc [of "Stream_Seek s 1" len r] show
    "ber_read_contextual_tag s tag pc
     = Ok len (Stream_Seek s (length ((0x80 OR BER_PC pc OR (BER_TAG_MASK AND tag)) # ber_length_bytes len)))"
    by (simp add: ber_read_contextual_tag_def read_known)
qed

interpretation ber_enum: codec "\<lambda>s. ber_read_enumerated s count" "\<lambda>e. [0x0A, 1, e]" "\<lambda>e. e < count"
  for count
  by unfold_locales
    (simp add: ber_read_enumerated_def ber_read_universal_tag_known ber_read_length_small BER_PC_def
      read_known bit_1_iff word_less_def)

interpretation ber_bool: codec ber_read_BOOL "\<lambda>b. [1, 1, if b then 0xFF else 0]" "\<lambda>_. True"
  by unfold_locales
    (simp add: ber_read_BOOL_def ber_read_universal_tag_known ber_read_length_small BER_PC_def
      read_known bit_1_iff)

subsection \<open>Readers never run past the data\<close>

lemma ber_read_length_inb [inb_intros]: "swf s \<Longrightarrow> inb s (ber_read_length s)"
proof -
  assume s: "swf s"
  have "inb t (if unat (b AND NOT 0x80) > length (avail t) then Fail t
      else if b AND NOT 0x80 = 1 then andthen (Stream_Read_UINT8 t) (\<lambda>v s. Ok (uint v) s)
      else if b AND NOT 0x80 = 2 then andthen (Stream_Read_UINT16_BE t) (\<lambda>v s. Ok (uint v) s)
      else Fail t)" if "swf t" for b :: u8 and t
    using that by (auto intro!: inb_intros)
  with s show ?thesis
    unfolding ber_read_length_def by (auto simp: Let_def intro!: inb_intros)
qed

lemma ber_read_universal_tag_inb [inb_intros]: "swf s \<Longrightarrow> inb s (ber_read_universal_tag s tag pc)"
  unfolding ber_read_universal_tag_def by (auto intro!: inb_intros)

lemma ber_read_application_tag_inb [inb_intros]: "swf s \<Longrightarrow> inb s (ber_read_application_tag s tag)"
  unfolding ber_read_application_tag_def by (auto intro!: inb_intros)

lemma ber_read_sequence_tag_inb [inb_intros]: "swf s \<Longrightarrow> inb s (ber_read_sequence_tag s)"
  unfolding ber_read_sequence_tag_def by (auto intro!: inb_intros)

lemma ber_read_enumerated_inb [inb_intros]: "swf s \<Longrightarrow> inb s (ber_read_enumerated s count)"
  unfolding ber_read_enumerated_def by (auto intro!: inb_intros)

lemma ber_read_octet_string_tag_inb [inb_intros]: "swf s \<Longrightarrow> inb s (ber_read_octet_string_tag s)"
  unfolding ber_read_octet_string_tag_def by (auto intro!: inb_intros)

lemma ber_read_bit_string_inb [inb_intros]: "swf s \<Longrightarrow> inb s (ber_read_bit_string s)"
  unfolding ber_read_bit_string_def by (auto intro!: inb_intros)

lemma ber_read_BOOL_inb [inb_intros]: "swf s \<Longrightarrow> inb s (ber_read_BOOL s)"
  unfolding ber_read_BOOL_def by (auto intro!: inb_intros)

lemma ber_read_contextual_tag_inb [inb_intros]: "swf s \<Longrightarrow> inb s (ber_read_contextual_tag s tag pc)"
proof (cases "avail s")
  case (Cons b r)
  moreover assume "swf s"
  moreover from this Cons have "swf (Stream_Seek s 1)" by simp
  ultimately show ?thesis
    using inb_trans [OF _ ber_read_length_inb, of s "Stream_Seek s 1"]
    by (simp add: ber_read_contextual_tag_def read_known)
qed (simp add: ber_read_contextual_tag_def)

lemma ber_read_integer_inb [inb_intros]: "swf s \<Longrightarrow> inb s (ber_read_integer s want)"
proof -
  have three: "inb t (andthen (Stream_Read_UINT8 t) (\<lambda>byte s.
      andthen (Stream_Read_UINT16_BE s) (\<lambda>v s. Ok (ucast v + push_bit 16 (ucast byte) :: u32) s)))"
    if t: "swf t" "3 \<le> length (avail t)" for t
  proof (rule inb_andthen)
    show "inb t (Stream_Read_UINT8 t)" using t by (auto intro!: inb_intros)
  next
    fix b u assume u: "Stream_Read_UINT8 t = Ok b u" "ahead t u"
    then have "avail u = tl (avail t)"
      by (auto simp: Stream_Read_UINT8_def drop_Suc split: list.splits)
    with t u show "inb u (andthen (Stream_Read_UINT16_BE u)
        (\<lambda>v s. Ok (ucast v + push_bit 16 (ucast b) :: u32) s))"
      by (auto intro!: inb_intros dest: ahead_swf)
  qed
  assume "swf s"
  then show ?thesis
    unfolding ber_read_integer_def by (auto intro!: inb_intros three)
qed

subsection \<open>Properties\<close>

lemma ber_put_Ok:
  "length bs \<le> length mem \<Longrightarrow> \<exists>t. put (Stream_New mem) bs x = Ok x t \<and> s_pos t = length bs"
  by (simp add: put_new)

text \<open>An unsigned integer below 2^31 written by \<open>ber_write_integer\<close> is read back by
  \<open>ber_read_integer\<close>; the number of bytes is the one \<open>ber_sizeof_integer\<close> predicts, which is also
  the value the writer returns.\<close>

theorem ber_integer_roundtrip:
  assumes "v < 0x80000000" "6 \<le> length mem" "length mem < 2 ^ 31"
  shows "\<exists>t. ber_write_integer (Stream_New mem) v = Ok (ber_sizeof_integer v) t \<and>
    int (s_pos t) = ber_sizeof_integer v \<and>
    ber_read_integer (Stream_SetPosition (Stream_SealLength t) 0) True
    = Ok v (Stream_SetPosition (Stream_SealLength t) (s_pos t))"
proof -
  have len: "int (length (ber_integer_bytes v)) = ber_sizeof_integer v" by (rule length_ber_integer_bytes)
  then have "length (ber_integer_bytes v) \<le> length mem"
    using assms(2) by (auto simp: ber_sizeof_integer_def split: if_splits)
  from ber_put_Ok [OF this, of "ber_sizeof_integer v"] obtain t where
    t: "put (Stream_New mem) (ber_integer_bytes v) (ber_sizeof_integer v) = Ok (ber_sizeof_integer v) t"
      "s_pos t = length (ber_integer_bytes v)" by blast
  with ber_int.written_then_read [OF t(1) assms(3,1)] len show ?thesis
    by (simp add: ber_write_integer_put)
qed

theorem ber_integer_roundtrip_witness:
  "\<exists>t. ber_write_integer (Stream_New (replicate 8 0)) 0x7FFFFF = Ok (ber_sizeof_integer 0x7FFFFF) t \<and>
    int (s_pos t) = ber_sizeof_integer 0x7FFFFF \<and>
    ber_read_integer (Stream_SetPosition (Stream_SealLength t) 0) True
    = Ok 0x7FFFFF (Stream_SetPosition (Stream_SealLength t) (s_pos t))"
  using ber_integer_roundtrip [of "0x7FFFFF" "replicate 8 0"] by simp

text \<open>
  A writer that needs \<open>n\<close> bytes of room: with that much left in the stream it succeeds, and it moves
  the cursor by exactly \<open>n\<close>.
\<close>

definition writes_exactly :: "(wStream \<Rightarrow> 'a res) \<Rightarrow> int \<Rightarrow> bool" where
  "writes_exactly w n \<longleftrightarrow>
     (\<forall>s. int (s_pos s) + n \<le> int (Stream_Capacity s) \<longrightarrow>
          (\<exists>x t. w s = Ok x t \<and> int (s_pos t) = int (s_pos s) + n))"

lemma writes_exactly_put:
  assumes "\<And>s. w s = put s bs x" "int (length bs) = n"
  shows "writes_exactly w n"
  using assms by (auto simp: writes_exactly_def put_fits)

lemma der_write_put [wr_simps]:
  "der_write_sequence_tag s len = put s (0x30 # ber_length_bytes len) (ber_sizeof_length len + 1)"
  "der_write_contextual_tag s tag len pc =
     put s ((BER_CLASS_CTXT OR BER_PC pc OR (BER_TAG_MASK AND tag)) # ber_length_bytes len) (ber_sizeof_length len + 1)"
  "der_write_octet_string s str (int (length str)) =
     put s (4 # ber_length_bytes (int (length str)) @ str) ()"
  by (simp_all add: der_write_sequence_tag_def der_write_contextual_tag_def der_write_octet_string_def
      der_write_universal_tag_def BER_PC_def wr_simps)

lemmas ber_size_defs = ber_sizeof_sequence_tag_def ber_sizeof_contextual_tag_def ber_sizeof_octet_string_def
  der_skip_sequence_tag_def der_skip_contextual_tag_def der_skip_octet_string_def der_skip_length_eq
  length_ber_length_bytes length_ber_integer_bytes

text \<open>C40: every BER and DER writer that has a companion size function needs, and uses, exactly as many
  bytes as that function says; so buffers sized with them are neither overrun nor left short.\<close>

theorem ber_sizeof_exact:
  "writes_exactly (\<lambda>s. ber_write_length s len) (ber_sizeof_length len) \<and>
   writes_exactly (\<lambda>s. ber_write_sequence_tag s len) (ber_sizeof_sequence_tag len) \<and>
   writes_exactly (\<lambda>s. ber_write_contextual_tag s tag len pc) (ber_sizeof_contextual_tag len) \<and>
   writes_exactly (\<lambda>s. ber_write_integer s v) (ber_sizeof_integer v) \<and>
   writes_exactly (\<lambda>s. ber_write_octet_string s str (int (length str))) (ber_sizeof_octet_string (int (length str))) \<and>
   writes_exactly (\<lambda>s. der_write_sequence_tag s len) (der_skip_sequence_tag len) \<and>
   writes_exactly (\<lambda>s. der_write_contextual_tag s tag len pc) (der_skip_contextual_tag len) \<and>
   writes_exactly (\<lambda>s. der_write_octet_string s str (int (length str))) (der_skip_octet_string (int (length str)))"
  by (intro conjI; rule writes_exactly_put, simp only: wr_simps) (simp_all add: ber_size_defs)

text \<open>The DER length writer produces the BER encoding, and \<open>der_get_content_length\<close> recovers the
  length of the content from the length of the whole element.\<close>

theorem der_length_inverse:
  assumes "0 \<le> len"
  shows "der_write_length s len = ber_write_length s len \<and>
    der_get_content_length (der_skip_octet_string len) = len"
  using assms by (simp add: der_write_length_put der_get_content_length_def der_skip_octet_string_def der_skip_length_def)

theorem der_length_inverse_witness:
  "der_write_length (Stream_New [0, 0, 0]) 0x100 = ber_write_length (Stream_New [0, 0, 0]) 0x100 \<and>
   der_get_content_length (der_skip_octet_string 0x100) = 0x100"
  using der_length_inverse [of "0x100" "Stream_New [0, 0, 0]"] by simp



end
