(* ===== verification/X224.thy ===== *)
theory X224
  imports WStream
begin

text \<open>
  The two framing layers under every slow-path PDU: the TPKT header (libfreerdp/core/tpkt.c,
  RFC 1006) and the class-0 X.224 TPDU header (libfreerdp/core/tpdu.c).
\<close>

subsection \<open>TPKT\<close>

definition tpkt_verify_header :: "wStream \<Rightarrow> bool res" where
  "tpkt_verify_header s =
     andthen (Stream_Peek_UINT8 s) (\<lambda>version s. Ok (version = 3) s)"

definition tpkt_read_header :: "wStream \<Rightarrow> u16 res" where
  "tpkt_read_header s =
     andthen (Stream_Peek_UINT8 s) (\<lambda>version s.
       if version = 3 then Stream_Read_UINT16_BE (Stream_Seek s 2) else Ok 0 s)"

definition tpkt_write_header :: "wStream \<Rightarrow> u16 \<Rightarrow> unit res" where
  "tpkt_write_header s len =
     andthen (Stream_Write_UINT8 s 3) (\<lambda>_ s.
     andthen (Stream_Write_UINT8 s 0) (\<lambda>_ s.
     Stream_Write_UINT16_BE s len))"

subsection \<open>TPDU\<close>

abbreviation (input) X224_TPDU_CONNECTION_REQUEST :: u8 where "X224_TPDU_CONNECTION_REQUEST \<equiv> 0xE0"
abbreviation (input) X224_TPDU_CONNECTION_CONFIRM :: u8 where "X224_TPDU_CONNECTION_CONFIRM \<equiv> 0xD0"
abbreviation (input) X224_TPDU_DISCONNECT_REQUEST :: u8 where "X224_TPDU_DISCONNECT_REQUEST \<equiv> 0x80"
abbreviation (input) X224_TPDU_DATA :: u8 where "X224_TPDU_DATA \<equiv> 0xF0"

text \<open>The out parameters \<open>code\<close> and \<open>li\<close>, in this order.\<close>

definition tpdu_read_header :: "wStream \<Rightarrow> (u8 \<times> u8) res" where
  "tpdu_read_header s =
     (if Stream_GetRemainingLength s < 3 then Fail s
      else
        andthen (Stream_Read_UINT8 s) (\<lambda>li s.
        andthen (Stream_Read_UINT8 s) (\<lambda>code s.
          if code = X224_TPDU_DATA then Ok (code, li) (Stream_Seek s 1)
          else andthen (Stream_SafeSeek s 5) (\<lambda>_ s. Ok (code, li) s))))"

definition tpdu_write_header :: "wStream \<Rightarrow> u16 \<Rightarrow> u8 \<Rightarrow> unit res" where
  "tpdu_write_header s len code =
     andthen (Stream_Write_UINT8 s (ucast len)) (\<lambda>_ s.
     andthen (Stream_Write_UINT8 s code) (\<lambda>_ s.
       if code = X224_TPDU_DATA then Stream_Write_UINT8 s 0x80
       else
         andthen (Stream_Write_UINT16 s 0) (\<lambda>_ s.
         andthen (Stream_Write_UINT16 s 0) (\<lambda>_ s.
         Stream_Write_UINT8 s 0))))"

definition tpdu_read_connection_request :: "wStream \<Rightarrow> u8 res" where
  "tpdu_read_connection_request s =
     andthen (tpdu_read_header s) (\<lambda>(code, li) s.
       if code \<noteq> X224_TPDU_CONNECTION_REQUEST then Fail s else Ok li s)"

definition tpdu_write_connection_request :: "wStream \<Rightarrow> u16 \<Rightarrow> unit res" where
  "tpdu_write_connection_request s len = tpdu_write_header s len X224_TPDU_CONNECTION_REQUEST"

definition size_of_int :: "int \<Rightarrow> nat" where
  \<comment> \<open>The cast \<open>(size_t) i\<close>: negative values become huge.\<close>
  "size_of_int i = nat (i mod 2 ^ 64)"

definition tpdu_read_connection_confirm :: "wStream \<Rightarrow> u8 res" where
  "tpdu_read_connection_confirm s =
     (let position = int (s_pos s)
      in andthen (tpdu_read_header s) (\<lambda>(code, li) s.
        if code \<noteq> X224_TPDU_CONNECTION_CONFIRM then Fail s
        else
          (let bytes_read = (int (s_pos s) - position) - 1
           in if Stream_GetRemainingLength s \<ge> size_of_int (uint li - bytes_read)
              then Ok li s else Fail s)))"

definition tpdu_write_connection_confirm :: "wStream \<Rightarrow> u16 \<Rightarrow> unit res" where
  "tpdu_write_connection_confirm s len = tpdu_write_header s len X224_TPDU_CONNECTION_CONFIRM"

definition tpdu_write_disconnect_request :: "wStream \<Rightarrow> u16 \<Rightarrow> unit res" where
  "tpdu_write_disconnect_request s len = tpdu_write_header s len X224_TPDU_DISCONNECT_REQUEST"

definition tpdu_write_data :: "wStream \<Rightarrow> unit res" where
  "tpdu_write_data s = tpdu_write_header s 2 X224_TPDU_DATA"

definition tpdu_read_data :: "wStream \<Rightarrow> u16 res" where
  "tpdu_read_data s =
     andthen (tpdu_read_header s) (\<lambda>(code, li) s.
       if code \<noteq> X224_TPDU_DATA then Fail s else Ok (ucast li) s)"

subsection \<open>What the writers put on the wire\<close>

definition tpkt_bytes :: "u16 \<Rightarrow> bytes" where
  "tpkt_bytes len = [3, 0] @ be16 len"

definition tpdu_bytes :: "u8 \<times> u8 \<Rightarrow> bytes" where
  "tpdu_bytes = (\<lambda>(code, li). [li, code] @ (if code = X224_TPDU_DATA then [0x80] else [0, 0, 0, 0, 0]))"

lemma tpkt_write_header_put [wr_simps]: "tpkt_write_header s len = put s (tpkt_bytes len) ()"
  by (simp add: tpkt_write_header_def tpkt_bytes_def wr_simps)

lemma tpdu_write_header_put [wr_simps]:
  "tpdu_write_header s len code = put s (tpdu_bytes (code, ucast len)) ()"
  by (cases "code = X224_TPDU_DATA")
    (simp_all add: tpdu_write_header_def tpdu_bytes_def wr_simps le16_def)

lemmas tpdu_writers_put [wr_simps] =
  tpdu_write_connection_request_def tpdu_write_connection_confirm_def
  tpdu_write_disconnect_request_def tpdu_write_data_def

lemma length_tpkt_bytes [simp]: "length (tpkt_bytes len) = 4"
  by (simp add: tpkt_bytes_def)

lemma length_tpdu_bytes [simp]:
  "length (tpdu_bytes (code, li)) = (if code = X224_TPDU_DATA then 3 else 7)"
  by (simp add: tpdu_bytes_def)

interpretation tpkt: codec tpkt_read_header tpkt_bytes "\<lambda>_. True"
proof
  fix s and len :: u16 and r
  assume "swf s" "avail s = tpkt_bytes len @ r"
  moreover from this have "avail (Stream_Seek s 2) = be16 len @ r" by (simp add: tpkt_bytes_def)
  ultimately show "tpkt_read_header s = Ok len (Stream_Seek s (length (tpkt_bytes len)))"
    by (simp add: tpkt_read_header_def read_known) (simp add: tpkt_bytes_def read_known)
qed

interpretation tpdu: codec tpdu_read_header tpdu_bytes "\<lambda>_. True"
proof
  fix s and v :: "u8 \<times> u8" and r
  assume "swf s" "avail s = tpdu_bytes v @ r"
  then show "tpdu_read_header s = Ok v (Stream_Seek s (length (tpdu_bytes v)))"
    by (cases v) (auto simp: tpdu_read_header_def tpdu_bytes_def read_known)
qed

interpretation tpdu_data: codec tpdu_read_data "\<lambda>li. tpdu_bytes (X224_TPDU_DATA, ucast li)" "\<lambda>li. li \<le> 0xFF"
proof
  fix s and li :: u16 and r
  assume "swf s" and li: "li \<le> 0xFF" and "avail s = tpdu_bytes (X224_TPDU_DATA, ucast li) @ r"
  then have "tpdu_read_header s = Ok (X224_TPDU_DATA, ucast li) (Stream_Seek s 3)"
    by (simp add: tpdu.rd_enc)
  moreover have "ucast (ucast li :: u8) = li"
    using li by (simp only: word_unat_eq_iff word_le_nat_alt)
      (simp add: unsigned_ucast_eq unsigned_take_bit_eq take_bit_nat_eq_self)
  ultimately show "tpdu_read_data s = Ok li (Stream_Seek s (length (tpdu_bytes (X224_TPDU_DATA, ucast li))))"
    by (simp add: tpdu_read_data_def)
qed

subsection \<open>Readers and the end of the data\<close>

text \<open>
  The TPDU readers check what they read. The TPKT reader does not: it is safe on a stream that
  holds the four bytes of the header, which is what the transport reads first.
\<close>

lemma tpdu_read_header_inb [inb_intros]: "swf s \<Longrightarrow> inb s (tpdu_read_header s)"
proof (cases "length (avail s) < 3")
  case False
  then obtain a b c r where a: "avail s = a # b # c # r"
    by (auto simp: not_less Suc_le_length_iff numeral_eq_Suc)
  moreover assume "swf s"
  ultimately show ?thesis by (auto simp: tpdu_read_header_def read_known)
qed (simp add: tpdu_read_header_def)

lemma tpdu_readers_inb [inb_intros]:
  "swf s \<Longrightarrow> inb s (tpdu_read_connection_request s)"
  "swf s \<Longrightarrow> inb s (tpdu_read_connection_confirm s)"
  "swf s \<Longrightarrow> inb s (tpdu_read_data s)"
  unfolding tpdu_read_connection_request_def tpdu_read_connection_confirm_def tpdu_read_data_def Let_def
  by (auto simp: Let_def intro!: inb_intros split: prod.split)

lemma tpkt_read_header_inb [inb_intros]:
  assumes "swf s" "4 \<le> length (avail s)"
  shows "inb s (tpkt_read_header s)"
proof -
  obtain a b c d r where a: "avail s = a # b # c # d # r"
    using assms(2) by (auto simp: Suc_le_length_iff numeral_eq_Suc)
  with assms show ?thesis
    by (auto simp: tpkt_read_header_def read_known Stream_Read_UINT16_BE_def)
qed

lemma tpkt_read_header_Overrun_iff:
  assumes "swf s"
  shows "tpkt_read_header s = Overrun \<longleftrightarrow>
           avail s = [] \<or> hd (avail s) = 3 \<and> length (avail s) < 4"
  using assms
  by (auto simp: tpkt_read_header_def Stream_Peek_UINT8_def Stream_Read_UINT16_BE_def
      split: list.split) (drule arg_cong [of _ _ length], simp)+

end
