(* ===== verification/Mcs.thy ===== *)
theory Mcs
  imports Per Ber X224
begin

text \<open>
  The T.125 multipoint communication service of libfreerdp/core/mcs.c: the domain parameters and
  how a server merges them, the domain PDUs that erect the domain, attach the user and join the
  channels, and the disconnect ultimatum; and the channel-join step of libfreerdp/core/connection.c.

  A send routine allocates a stream of the exact size of the PDU, fills it and hands it to the
  transport. The allocator and the transport are the fields of \<open>env\<close>: \<open>malloc n\<close> is the memory it
  returns, or None; \<open>transport_write\<close> the status it reports for a packet.
\<close>

subsection \<open>Environment\<close>

record env =
  malloc :: "nat \<Rightarrow> bytes option"
  transport_write :: "bytes \<Rightarrow> int"

definition malloc_ok :: "env \<Rightarrow> bool" where
  "malloc_ok env \<longleftrightarrow> (\<forall>n mem. malloc env n = Some mem \<longrightarrow> length mem = n)"

text \<open>
  A send routine: the BOOL it returns with the packets it handed to the transport, or a crash (a
  write past the allocation).
\<close>

datatype sent = Crashed | Returned bool "bytes list"

definition send_stream :: "env \<Rightarrow> u16 \<Rightarrow> (wStream \<Rightarrow> unit res) \<Rightarrow> sent" where
  \<comment> \<open>The frame of every send routine: \<open>Stream_New\<close>, the writes, \<open>Stream_SealLength\<close>, \<open>transport_write\<close>.\<close>
  "send_stream env len write =
     (case malloc env (unat len) of
        None \<Rightarrow> Returned False []
      | Some mem \<Rightarrow>
          (case write (Stream_New mem) of
             Ok _ s \<Rightarrow>
               (let s = Stream_SealLength s; status = transport_write env (packet s)
                in Returned (\<not> status < 0) [packet s])
           | _ \<Rightarrow> Crashed))"

fun within :: "wStream \<Rightarrow> unit res \<Rightarrow> (wStream \<Rightarrow> 'a res) \<Rightarrow> 'a res" where
  \<comment> \<open>Writes to a temporary stream: a FALSE among them is a FALSE of the caller, whose stream is \<open>s\<close>.\<close>
  "within s (Ok _ tmps) k = k tmps"
| "within s (Fail _) k = Fail s"
| "within s Overrun k = Overrun"

subsection \<open>State\<close>

abbreviation (input) MCS_BASE_CHANNEL_ID :: u16 where "MCS_BASE_CHANNEL_ID \<equiv> 1001"
abbreviation (input) MCS_GLOBAL_CHANNEL_ID :: u16 where "MCS_GLOBAL_CHANNEL_ID \<equiv> 1003"
abbreviation (input) MCS_Result_enum_length :: u8 where "MCS_Result_enum_length \<equiv> 16"
abbreviation (input) MCS_TYPE_CONNECT_INITIAL :: u8 where "MCS_TYPE_CONNECT_INITIAL \<equiv> 0x65"
abbreviation (input) MCS_TYPE_CONNECT_RESPONSE :: u8 where "MCS_TYPE_CONNECT_RESPONSE \<equiv> 0x66"
abbreviation (input) DomainMCSPDU_ErectDomainRequest :: u8 where "DomainMCSPDU_ErectDomainRequest \<equiv> 1"
abbreviation (input) DomainMCSPDU_DisconnectProviderUltimatum :: u8 where "DomainMCSPDU_DisconnectProviderUltimatum \<equiv> 8"
abbreviation (input) DomainMCSPDU_AttachUserRequest :: u8 where "DomainMCSPDU_AttachUserRequest \<equiv> 10"
abbreviation (input) DomainMCSPDU_AttachUserConfirm :: u8 where "DomainMCSPDU_AttachUserConfirm \<equiv> 11"
abbreviation (input) DomainMCSPDU_ChannelJoinRequest :: u8 where "DomainMCSPDU_ChannelJoinRequest \<equiv> 14"
abbreviation (input) DomainMCSPDU_ChannelJoinConfirm :: u8 where "DomainMCSPDU_ChannelJoinConfirm \<equiv> 15"

record DomainParameters =
  maxChannelIds :: u32
  maxUserIds :: u32
  maxTokenIds :: u32
  numPriorities :: u32
  minThroughput :: u32
  maxHeight :: u32
  maxMCSPDUsize :: u32
  protocolVersion :: u32

record rdpMcsChannel =
  ch_Name :: bytes
  ch_options :: u32
  ChannelId :: int
  ch_joined :: bool

record rdpMcs =
  userId :: u16
  baseChannelId :: u16
  messageChannelId :: u16
  domainParameters :: DomainParameters
  targetParameters :: DomainParameters
  minimumParameters :: DomainParameters
  maximumParameters :: DomainParameters
  userChannelJoined :: bool
  globalChannelJoined :: bool
  messageChannelJoined :: bool
  channelCount :: u32
  channelMaxCount :: u32
  channels :: "rdpMcsChannel list"

definition mcs_init_domain_parameters :: "u32 \<Rightarrow> u32 \<Rightarrow> u32 \<Rightarrow> u32 \<Rightarrow> DomainParameters" where
  "mcs_init_domain_parameters channelIds userIds tokenIds pduSize =
     \<lparr>maxChannelIds = channelIds, maxUserIds = userIds, maxTokenIds = tokenIds,
      numPriorities = 1, minThroughput = 0, maxHeight = 1,
      maxMCSPDUsize = pduSize, protocolVersion = 2\<rparr>"

definition zero_channel :: rdpMcsChannel where
  "zero_channel = \<lparr>ch_Name = replicate 8 0, ch_options = 0, ChannelId = 0, ch_joined = False\<rparr>"

definition mcs_new :: "bool \<Rightarrow> bool \<Rightarrow> rdpMcs option" where
  \<comment> \<open>The arguments: whether the two \<open>calloc\<close> calls succeed.\<close>
  "mcs_new calloc_mcs calloc_channels =
     (if \<not> calloc_mcs then None
      else if \<not> calloc_channels then None
      else Some
        \<lparr>userId = 0, baseChannelId = MCS_GLOBAL_CHANNEL_ID + 1, messageChannelId = 0,
         domainParameters = mcs_init_domain_parameters 0 0 0 0xFFFF,
         targetParameters = mcs_init_domain_parameters 34 2 0 0xFFFF,
         minimumParameters = mcs_init_domain_parameters 1 1 1 0x420,
         maximumParameters = mcs_init_domain_parameters 0xFFFF 0xFC17 0xFFFF 0xFFFF,
         userChannelJoined = False, globalChannelJoined = False, messageChannelJoined = False,
         channelCount = 0, channelMaxCount = 30, channels = replicate 30 zero_channel\<rparr>)"

text \<open>
  The channels the client asks for: \<open>ChannelDefArray\<close> of the settings, as pairs of name and options.
  None is an access past one of the two arrays.
\<close>

definition mcs_initialize_client_channels :: "u32 \<Rightarrow> (bytes \<times> u32) list \<Rightarrow> rdpMcs \<Rightarrow> rdpMcs option" where
  "mcs_initialize_client_channels ChannelCount ChannelDefArray mcs =
     (let count = (if ChannelCount > channelMaxCount mcs then channelMaxCount mcs else ChannelCount);
          zeroed = replicate (unat (channelMaxCount mcs)) zero_channel
      in if length (channels mcs) < unat (channelMaxCount mcs) \<or> length ChannelDefArray < unat count
         then None
         else Some (mcs\<lparr>channelCount := count,
                channels :=
                  map (\<lambda>(name, opts). zero_channel\<lparr>ch_Name := take 8 name, ch_options := opts\<rparr>)
                    (take (unat count) ChannelDefArray)
                  @ drop (unat count) zeroed
                  @ drop (unat (channelMaxCount mcs)) (channels mcs)\<rparr>))"

subsection \<open>Domain parameters\<close>

definition mcs_read_domain_parameters :: "wStream \<Rightarrow> DomainParameters res" where
  "mcs_read_domain_parameters s =
     andthen (ber_read_sequence_tag s) (\<lambda>_ s.
     andthen (ber_read_integer s True) (\<lambda>a s.
     andthen (ber_read_integer s True) (\<lambda>b s.
     andthen (ber_read_integer s True) (\<lambda>c s.
     andthen (ber_read_integer s True) (\<lambda>d s.
     andthen (ber_read_integer s True) (\<lambda>e s.
     andthen (ber_read_integer s True) (\<lambda>f s.
     andthen (ber_read_integer s True) (\<lambda>g s.
     andthen (ber_read_integer s True) (\<lambda>h s.
       Ok \<lparr>maxChannelIds = a, maxUserIds = b, maxTokenIds = c, numPriorities = d,
           minThroughput = e, maxHeight = f, maxMCSPDUsize = g, protocolVersion = h\<rparr> s)))))))))"

definition mcs_write_domain_parameters :: "env \<Rightarrow> wStream \<Rightarrow> DomainParameters \<Rightarrow> unit res" where
  "mcs_write_domain_parameters env s dp =
     (case malloc env (Stream_Capacity s) of
        None \<Rightarrow> Fail s
      | Some mem \<Rightarrow>
          within s
            (andthen (ber_write_integer (Stream_New mem) (maxChannelIds dp)) (\<lambda>_ tmps.
             andthen (ber_write_integer tmps (maxUserIds dp)) (\<lambda>_ tmps.
             andthen (ber_write_integer tmps (maxTokenIds dp)) (\<lambda>_ tmps.
             andthen (ber_write_integer tmps (numPriorities dp)) (\<lambda>_ tmps.
             andthen (ber_write_integer tmps (minThroughput dp)) (\<lambda>_ tmps.
             andthen (ber_write_integer tmps (maxHeight dp)) (\<lambda>_ tmps.
             andthen (ber_write_integer tmps (maxMCSPDUsize dp)) (\<lambda>_ tmps.
             andthen (ber_write_integer tmps (protocolVersion dp)) (\<lambda>_ tmps.
             Ok () tmps)))))))))
            (\<lambda>tmps.
               let len = int (s_pos tmps)
               in andthen (ber_write_sequence_tag s len) (\<lambda>_ s.
                  Stream_Write s (take (nat len) (s_buffer tmps)))))"

text \<open>
  The merge writes its result field by field and may return FALSE with some fields already written.
\<close>

definition mcs_merge_domain_parameters ::
    "DomainParameters \<Rightarrow> DomainParameters \<Rightarrow> DomainParameters \<Rightarrow> DomainParameters
     \<Rightarrow> DomainParameters + DomainParameters" where
  "mcs_merge_domain_parameters target mn mx out =
     bindS (if maxChannelIds target \<ge> 4 then Inr (out\<lparr>maxChannelIds := maxChannelIds target\<rparr>)
            else if maxChannelIds mx \<ge> 4 then Inr (out\<lparr>maxChannelIds := 4\<rparr>)
            else Inl out) (\<lambda>out.
     bindS (if maxUserIds target \<ge> 3 then Inr (out\<lparr>maxUserIds := maxUserIds target\<rparr>)
            else if maxUserIds mx \<ge> 3 then Inr (out\<lparr>maxUserIds := 3\<rparr>)
            else Inl out) (\<lambda>out.
     let out = out\<lparr>maxTokenIds := maxTokenIds target\<rparr> in
     bindS (if numPriorities mn \<le> 1 then Inr (out\<lparr>numPriorities := 1\<rparr>) else Inl out) (\<lambda>out.
     let out = out\<lparr>minThroughput := minThroughput target\<rparr> in
     bindS (if maxHeight target = 1 \<or> maxHeight mn \<le> 1 then Inr (out\<lparr>maxHeight := 1\<rparr>)
            else Inl out) (\<lambda>out.
     bindS (if maxMCSPDUsize target \<ge> 1024 then
              (if maxMCSPDUsize target \<le> 65528
               then Inr (out\<lparr>maxMCSPDUsize := maxMCSPDUsize target\<rparr>)
               else if maxMCSPDUsize mn \<ge> 124 \<and> maxMCSPDUsize mn \<le> 65528
               then Inr (out\<lparr>maxMCSPDUsize := 65528\<rparr>)
               else Inl out)
            else if maxMCSPDUsize mx \<ge> 124 then Inr (out\<lparr>maxMCSPDUsize := maxMCSPDUsize mx\<rparr>)
            else Inl out) (\<lambda>out.
     if protocolVersion target = 2 \<or> (protocolVersion mn \<le> 2 \<and> protocolVersion mx \<ge> 2)
     then Inr (out\<lparr>protocolVersion := 2\<rparr>) else Inl out)))))"

subsection \<open>Domain PDUs\<close>

definition mcs_read_domain_mcspdu_header :: "wStream \<Rightarrow> u8 \<Rightarrow> u16 res" where
  \<comment> \<open>The expected PDU goes in by \<open>domainMCSPDU\<close>; the out parameter is the TPKT length.\<close>
  "mcs_read_domain_mcspdu_header s MCSPDU =
     andthen (tpkt_read_header s) (\<lambda>len s.
     andthen (tpdu_read_data s) (\<lambda>li s.
     andthen (per_read_choice s) (\<lambda>choice s.
       if drop_bit 2 choice \<noteq> MCSPDU then Fail s else Ok len s)))"

definition mcs_write_domain_mcspdu_header :: "wStream \<Rightarrow> u8 \<Rightarrow> u16 \<Rightarrow> u8 \<Rightarrow> unit res" where
  "mcs_write_domain_mcspdu_header s domainMCSPDU len opts =
     andthen (tpkt_write_header s len) (\<lambda>_ s.
     andthen (tpdu_write_data s) (\<lambda>_ s.
     per_write_choice s (push_bit 2 domainMCSPDU OR opts)))"

definition mcs_recv_erect_domain_request :: "wStream \<Rightarrow> unit res" where
  "mcs_recv_erect_domain_request s =
     andthen (mcs_read_domain_mcspdu_header s DomainMCSPDU_ErectDomainRequest) (\<lambda>_ s.
     andthen (per_read_integer s) (\<lambda>_ s.
     andthen (per_read_integer s) (\<lambda>_ s. Ok () s)))"

definition mcs_send_erect_domain_request :: "env \<Rightarrow> sent" where
  "mcs_send_erect_domain_request env =
     (let len = 12
      in send_stream env len (\<lambda>s.
           andthen (mcs_write_domain_mcspdu_header s DomainMCSPDU_ErectDomainRequest len 0) (\<lambda>_ s.
           andthen (per_write_integer s 0) (\<lambda>_ s.
           per_write_integer s 0))))"

definition mcs_recv_attach_user_request :: "wStream \<Rightarrow> unit res" where
  "mcs_recv_attach_user_request s =
     andthen (mcs_read_domain_mcspdu_header s DomainMCSPDU_AttachUserRequest) (\<lambda>_ s. Ok () s)"

definition mcs_send_attach_user_request :: "env \<Rightarrow> sent" where
  "mcs_send_attach_user_request env =
     (let len = 8
      in send_stream env len (\<lambda>s.
           mcs_write_domain_mcspdu_header s DomainMCSPDU_AttachUserRequest len 0))"

text \<open>
  The server assigns user ids counting up from \<open>baseChannelId\<close>; the client stores what the confirm
  says. (When the last read of the confirm fails, \<open>userId\<close> holds the rejected value; the connection
  is dropped then, and the model does not return that state.)
\<close>

definition mcs_recv_attach_user_confirm :: "rdpMcs \<Rightarrow> wStream \<Rightarrow> rdpMcs res" where
  "mcs_recv_attach_user_confirm mcs s =
     andthen (mcs_read_domain_mcspdu_header s DomainMCSPDU_AttachUserConfirm) (\<lambda>_ s.
     andthen (per_read_enumerated s MCS_Result_enum_length) (\<lambda>result s.
     andthen (per_read_integer16 s MCS_BASE_CHANNEL_ID) (\<lambda>uid s.
       Ok (mcs\<lparr>userId := uid\<rparr>) s)))"

definition mcs_send_attach_user_confirm :: "env \<Rightarrow> rdpMcs \<Rightarrow> sent \<times> rdpMcs" where
  "mcs_send_attach_user_confirm env mcs =
     (let len = 11;
          mcs' = mcs\<lparr>userId := baseChannelId mcs, baseChannelId := baseChannelId mcs + 1\<rparr>
      in (send_stream env len (\<lambda>s.
            andthen (mcs_write_domain_mcspdu_header s DomainMCSPDU_AttachUserConfirm len 2) (\<lambda>_ s.
            andthen (per_write_enumerated s 0 MCS_Result_enum_length) (\<lambda>_ s.
            per_write_integer16 s (userId mcs') MCS_BASE_CHANNEL_ID))),
          if malloc env (unat len) = None then mcs else mcs'))"

definition mcs_recv_channel_join_request :: "rdpMcs \<Rightarrow> wStream \<Rightarrow> u16 res" where
  "mcs_recv_channel_join_request mcs s =
     andthen (mcs_read_domain_mcspdu_header s DomainMCSPDU_ChannelJoinRequest) (\<lambda>_ s.
     andthen (per_read_integer16 s MCS_BASE_CHANNEL_ID) (\<lambda>uid s.
       if uid = userId mcs then per_read_integer16 s 0 else Fail s))"

definition mcs_send_channel_join_request :: "env \<Rightarrow> rdpMcs \<Rightarrow> u16 \<Rightarrow> sent" where
  "mcs_send_channel_join_request env mcs channelId =
     (let len = 12
      in send_stream env len (\<lambda>s.
           andthen (mcs_write_domain_mcspdu_header s DomainMCSPDU_ChannelJoinRequest len 0) (\<lambda>_ s.
           andthen (per_write_integer16 s (userId mcs) MCS_BASE_CHANNEL_ID) (\<lambda>_ s.
           per_write_integer16 s channelId 0))))"

fun regardless :: "'a res \<Rightarrow> 'a option res" where
  \<comment> \<open>\<open>status &= read(...)\<close>: a failed read clears the status and the routine reads on.\<close>
  "regardless (Ok a s) = Ok (Some a) s"
| "regardless (Fail s) = Ok None s"
| "regardless Overrun = Overrun"

definition mcs_recv_channel_join_confirm :: "wStream \<Rightarrow> u16 res" where
  "mcs_recv_channel_join_confirm s =
     andthen (regardless (mcs_read_domain_mcspdu_header s DomainMCSPDU_ChannelJoinConfirm)) (\<lambda>hdr s.
     andthen (regardless (per_read_enumerated s MCS_Result_enum_length)) (\<lambda>result s.
     andthen (regardless (per_read_integer16 s MCS_BASE_CHANNEL_ID)) (\<lambda>initiator s.
     andthen (regardless (per_read_integer16 s 0)) (\<lambda>requested s.
     andthen (regardless (per_read_integer16 s 0)) (\<lambda>channelId s.
       case channelId of
         Some c \<Rightarrow>
           (if hdr \<noteq> None \<and> result \<noteq> None \<and> initiator \<noteq> None \<and> requested \<noteq> None
            then Ok c s else Fail s)
       | None \<Rightarrow> Fail s)))))"

definition mcs_send_channel_join_confirm :: "env \<Rightarrow> rdpMcs \<Rightarrow> u16 \<Rightarrow> sent" where
  "mcs_send_channel_join_confirm env mcs channelId =
     (let len = 15
      in send_stream env len (\<lambda>s.
           andthen (mcs_write_domain_mcspdu_header s DomainMCSPDU_ChannelJoinConfirm len 2) (\<lambda>_ s.
           andthen (per_write_enumerated s 0 MCS_Result_enum_length) (\<lambda>_ s.
           andthen (per_write_integer16 s (userId mcs) MCS_BASE_CHANNEL_ID) (\<lambda>_ s.
           andthen (per_write_integer16 s channelId 0) (\<lambda>_ s.
           per_write_integer16 s channelId 0))))))"

definition mcs_recv_disconnect_provider_ultimatum :: "wStream \<Rightarrow> int res" where
  \<comment> \<open>Called with the choice byte already consumed: it steps back over it.\<close>
  "mcs_recv_disconnect_provider_ultimatum s =
     (if Stream_GetRemainingLength s < 1 then Fail s
      else if s_pos s < 1 then Overrun
      else
        andthen (Stream_Read_UINT8 (Stream_Rewind s 1)) (\<lambda>b1 s.
        andthen (Stream_Read_UINT8 s) (\<lambda>b2 s.
          Ok (push_bit 1 (uint (b1 AND 0x01)) OR uint (drop_bit 7 b2)) s)))"

definition mcs_send_disconnect_provider_ultimatum :: "env \<Rightarrow> sent" where
  "mcs_send_disconnect_provider_ultimatum env =
     (let len = 9
      in send_stream env len (\<lambda>s.
           andthen (mcs_write_domain_mcspdu_header s DomainMCSPDU_DisconnectProviderUltimatum len 1) (\<lambda>_ s.
           per_write_enumerated s 0x80 0)))"

subsection \<open>Connect-Initial and Connect-Response\<close>

text \<open>
  The two connect PDUs around the GCC user data. \<open>userData\<close> is the stream the conference request or
  response was written to.
\<close>

definition mcs_write_connect_initial :: "env \<Rightarrow> wStream \<Rightarrow> rdpMcs \<Rightarrow> wStream \<Rightarrow> unit res" where
  "mcs_write_connect_initial env s mcs userData =
     (case malloc env (Stream_Capacity s) of
        None \<Rightarrow> Fail s
      | Some mem \<Rightarrow>
          within s
            (andthen (ber_write_octet_string (Stream_New mem) [1] 1) (\<lambda>_ tmps.
             andthen (ber_write_octet_string tmps [1] 1) (\<lambda>_ tmps.
             andthen (ber_write_BOOL tmps True) (\<lambda>_ tmps.
             andthen (mcs_write_domain_parameters env tmps (targetParameters mcs)) (\<lambda>_ tmps.
             andthen (mcs_write_domain_parameters env tmps (minimumParameters mcs)) (\<lambda>_ tmps.
             andthen (mcs_write_domain_parameters env tmps (maximumParameters mcs)) (\<lambda>_ tmps.
             andthen (ber_write_octet_string tmps (s_buffer userData) (int (s_pos userData))) (\<lambda>_ tmps.
             Ok () tmps))))))))
            (\<lambda>tmps.
               let len = int (s_pos tmps)
               in andthen (ber_write_application_tag s MCS_TYPE_CONNECT_INITIAL len) (\<lambda>_ s.
                  Stream_Write s (take (nat len) (s_buffer tmps)))))"

definition mcs_write_connect_response :: "env \<Rightarrow> wStream \<Rightarrow> rdpMcs \<Rightarrow> wStream \<Rightarrow> unit res" where
  "mcs_write_connect_response env s mcs userData =
     (case malloc env (Stream_Capacity s) of
        None \<Rightarrow> Fail s
      | Some mem \<Rightarrow>
          within s
            (andthen (ber_write_enumerated (Stream_New mem) 0 MCS_Result_enum_length) (\<lambda>_ tmps.
             andthen (ber_write_integer tmps 0) (\<lambda>_ tmps.
             andthen (mcs_write_domain_parameters env tmps (domainParameters mcs)) (\<lambda>_ tmps.
             andthen (ber_write_octet_string tmps (s_buffer userData) (int (s_pos userData))) (\<lambda>_ tmps.
             Ok () tmps)))))
            (\<lambda>tmps.
               let len = int (s_pos tmps)
               in andthen (ber_write_application_tag s MCS_TYPE_CONNECT_RESPONSE len) (\<lambda>_ s.
                  Stream_Write s (take (nat len) (s_buffer tmps)))))"

subsection \<open>Joining the channels\<close>

text \<open>
  \<open>rdp_client_connect_mcs_channel_join_confirm\<close> of libfreerdp/core/connection.c, up to the point
  where all channels are joined: \<open>Join_All\<close> is where the code goes on to establish the keys, to send
  the client info and to enter the licensing state.
\<close>

datatype join_result =
    Join_Crash
  | Join_False rdpMcs "bytes list"
  | Join_More rdpMcs "bytes list"
  | Join_All rdpMcs "bytes list"

definition request_join :: "env \<Rightarrow> rdpMcs \<Rightarrow> int \<Rightarrow> join_result" where
  \<comment> \<open>\<open>if (!mcs_send_channel_join_request(mcs, channelId)) return FALSE;\<close>, then return TRUE.\<close>
  "request_join env mcs channelId =
     (case mcs_send_channel_join_request env mcs (word_of_int channelId) of
        Crashed \<Rightarrow> Join_Crash
      | Returned True ps \<Rightarrow> Join_More mcs ps
      | Returned False ps \<Rightarrow> Join_False mcs ps)"

definition request_channel :: "env \<Rightarrow> rdpMcs \<Rightarrow> nat \<Rightarrow> join_result" where
  \<comment> \<open>The same with \<open>mcs->channels[i].ChannelId\<close>.\<close>
  "request_channel env mcs i =
     (if length (channels mcs) \<le> i then Join_Crash else request_join env mcs (ChannelId (channels mcs ! i)))"

fun first_unjoined :: "rdpMcsChannel list \<Rightarrow> nat \<Rightarrow> nat \<Rightarrow> nat" where
  \<comment> \<open>The index the \<open>for\<close> loop stops at: the first channel from \<open>i\<close> on that is not joined, or the count.\<close>
  "first_unjoined (c # cs) i (Suc n) = (if ch_joined c then first_unjoined cs (i + 1) n else i)"
| "first_unjoined _ i _ = i"

definition rdp_client_connect_mcs_channel_join_confirm :: "env \<Rightarrow> rdpMcs \<Rightarrow> wStream \<Rightarrow> join_result" where
  "rdp_client_connect_mcs_channel_join_confirm env mcs s =
     (case mcs_recv_channel_join_confirm s of
        Overrun \<Rightarrow> Join_Crash
      | Fail _ \<Rightarrow> Join_False mcs []
      | Ok channelId _ \<Rightarrow>
          if \<not> userChannelJoined mcs then
            (if channelId \<noteq> userId mcs then Join_False mcs []
             else (let mcs = mcs\<lparr>userChannelJoined := True\<rparr>
                   in case request_join env mcs (uint MCS_GLOBAL_CHANNEL_ID) of
                        Join_More mcs ps \<Rightarrow>
                          (if globalChannelJoined mcs then Join_All mcs ps else Join_More mcs ps)
                      | r \<Rightarrow> r))
          else if \<not> globalChannelJoined mcs then
            (if channelId \<noteq> MCS_GLOBAL_CHANNEL_ID then Join_False mcs []
             else (let mcs = mcs\<lparr>globalChannelJoined := True\<rparr>
                   in if messageChannelId mcs \<noteq> 0 then request_join env mcs (uint (messageChannelId mcs))
                      else if channelCount mcs > 0 then request_channel env mcs 0
                      else Join_All mcs []))
          else if messageChannelId mcs \<noteq> 0 \<and> \<not> messageChannelJoined mcs then
            (if channelId \<noteq> messageChannelId mcs then Join_False mcs []
             else (let mcs = mcs\<lparr>messageChannelJoined := True\<rparr>
                   in if channelCount mcs > 0 then request_channel env mcs 0
                      else Join_All mcs []))
          else
            (let n = unat (channelCount mcs);
                 i = first_unjoined (channels mcs) 0 n
             in if i < n \<and> length (channels mcs) \<le> i then Join_Crash
                else if i < n \<and> ChannelId (channels mcs ! i) \<noteq> uint channelId then Join_False mcs []
                else
                  (let mcs = (if i < n
                              then mcs\<lparr>channels := (channels mcs)[i := (channels mcs ! i)\<lparr>ch_joined := True\<rparr>]\<rparr>
                              else mcs)
                   in if i + 1 < n then request_channel env mcs (i + 1)
                      else Join_All mcs [])))"

subsection \<open>Sending\<close>

definition mcs_header_bytes :: "u8 \<Rightarrow> u8 \<Rightarrow> u16 \<Rightarrow> bytes" where
  "mcs_header_bytes pdu opts len = tpkt_bytes len @ tpdu_bytes (0xF0, 2) @ [push_bit 2 pdu OR opts]"

lemma mcs_write_domain_mcspdu_header_put [wr_simps]:
  "mcs_write_domain_mcspdu_header s pdu len opts = put s (mcs_header_bytes pdu opts len) ()"
  by (simp add: mcs_write_domain_mcspdu_header_def mcs_header_bytes_def wr_simps)

lemma length_mcs_header_bytes [simp]: "length (mcs_header_bytes pdu opts len) = 8"
  by (simp add: mcs_header_bytes_def)

text \<open>A packet of a given length, through the allocator and the transport.\<close>

definition transmit :: "env \<Rightarrow> bytes \<Rightarrow> sent" where
  "transmit env bs =
     (if malloc env (length bs) = None then Returned False []
      else Returned (0 \<le> transport_write env bs) [bs])"

lemma send_stream_put:
  assumes "malloc_ok env" "length bs = unat len"
  shows "send_stream env len (\<lambda>s. put s bs ()) = transmit env bs"
  using assms
  by (auto simp: send_stream_def transmit_def malloc_ok_def put_new packet_def Let_def
      Stream_SealLength_def split: option.split)

text \<open>The domain PDUs the routines exchange, and their encoding.\<close>

datatype domain_pdu =
    ErectDomainRequest
  | AttachUserRequest
  | AttachUserConfirm u16
  | ChannelJoinRequest u16 u16
  | ChannelJoinConfirm u16 u16
  | DisconnectProviderUltimatum

fun pdu_bytes :: "domain_pdu \<Rightarrow> bytes" where
  "pdu_bytes ErectDomainRequest = mcs_header_bytes 1 0 12 @ [1, 0, 1, 0]"
| "pdu_bytes AttachUserRequest = mcs_header_bytes 10 0 8"
| "pdu_bytes (AttachUserConfirm uid) = mcs_header_bytes 11 2 11 @ [0] @ be16 (uid - 1001)"
| "pdu_bytes (ChannelJoinRequest uid c) = mcs_header_bytes 14 0 12 @ be16 (uid - 1001) @ be16 c"
| "pdu_bytes (ChannelJoinConfirm uid c) =
     mcs_header_bytes 15 2 15 @ [0] @ be16 (uid - 1001) @ be16 c @ be16 c"
| "pdu_bytes DisconnectProviderUltimatum = mcs_header_bytes 8 1 9 @ [0x80]"

lemma mcs_sends:
  assumes "malloc_ok env"
  shows "mcs_send_erect_domain_request env = transmit env (pdu_bytes ErectDomainRequest)"
    and "mcs_send_attach_user_request env = transmit env (pdu_bytes AttachUserRequest)"
    and "fst (mcs_send_attach_user_confirm env mcs)
         = transmit env (pdu_bytes (AttachUserConfirm (baseChannelId mcs)))"
    and "mcs_send_channel_join_request env mcs c
         = transmit env (pdu_bytes (ChannelJoinRequest (userId mcs) c))"
    and "mcs_send_channel_join_confirm env mcs c
         = transmit env (pdu_bytes (ChannelJoinConfirm (userId mcs) c))"
    and "mcs_send_disconnect_provider_ultimatum env = transmit env (pdu_bytes DisconnectProviderUltimatum)"
  using assms
  by (simp_all add: mcs_send_erect_domain_request_def mcs_send_attach_user_request_def
      mcs_send_attach_user_confirm_def mcs_send_channel_join_request_def
      mcs_send_channel_join_confirm_def mcs_send_disconnect_provider_ultimatum_def
      wr_simps send_stream_put per_integer_bytes_def)

subsection \<open>Receiving\<close>

lemma drop_bit_choice:
  assumes "pdu < 64" "opts < 4"
  shows "drop_bit 2 (push_bit 2 pdu OR opts) = (pdu :: u8)"
proof -
  have "\<not> bit pdu n" if "6 \<le> n" for n
    using small_word_bit [of pdu 6 n] assms(1) that by simp
  moreover have "\<not> bit opts n" if "2 \<le> n" for n
    using small_word_bit [of opts 2 n] assms(2) that by simp
  ultimately show ?thesis
    by (intro bit_word_eqI) (auto simp: bit_simps leI intro: ccontr)
qed

interpretation mcs_hdr: codec "\<lambda>s. mcs_read_domain_mcspdu_header s pdu" "mcs_header_bytes pdu opts"
  "\<lambda>_. pdu < 64 \<and> opts < 4" for pdu opts
proof
  fix s len r
  assume s: "swf s" and ok: "pdu < 64 \<and> opts < 4" and a: "avail s = mcs_header_bytes pdu opts len @ r"
  from a have 1: "tpkt_read_header s = Ok len (Stream_Seek s 4)"
    using s by (subst tpkt.rd_enc [of s len]) (simp_all add: mcs_header_bytes_def)
  have 2: "tpdu_read_data (Stream_Seek s 4) = Ok 2 (Stream_Seek s 7)"
    using s a by (subst tpdu_data.rd_enc [of _ 2]) (simp_all add: mcs_header_bytes_def)
  have 3: "per_read_choice (Stream_Seek s 7) = Ok (push_bit 2 pdu OR opts) (Stream_Seek s 8)"
    using s a by (subst per_byte.rd_enc) (simp_all add: mcs_header_bytes_def tpdu_bytes_def)
  from ok have "drop_bit 2 (push_bit 2 pdu OR opts) = pdu" by (intro drop_bit_choice) auto
  with 1 2 3 show "mcs_read_domain_mcspdu_header s pdu
      = Ok len (Stream_Seek s (length (mcs_header_bytes pdu opts len)))"
    by (simp add: mcs_read_domain_mcspdu_header_def del: drop_bit_or)
qed

lemma mcs_header_known:
  assumes "swf s" "avail s = mcs_header_bytes pdu opts len @ r" "pdu < 64" "opts < 4"
  shows "mcs_read_domain_mcspdu_header s pdu = Ok len (Stream_Seek s 8)"
  using mcs_hdr.rd_enc [OF assms(1) _ assms(2)] assms(3,4) by simp

lemma per_read_integer16_known:
  "swf s \<Longrightarrow> avail s = be16 (v - mn) @ r \<Longrightarrow> mn \<le> v \<Longrightarrow> per_read_integer16 s mn = Ok v (Stream_Seek s 2)"
  using per_int16.rd_enc [of s mn v r] by simp

lemma per_read_integer16_0_known:
  "swf s \<Longrightarrow> avail s = be16 v @ r \<Longrightarrow> per_read_integer16 s 0 = Ok v (Stream_Seek s 2)"
  using per_int16.rd_enc [of s 0 v r] by simp

lemmas mcs_known = mcs_header_known per_read_integer16_known per_read_integer16_0_known
  per_enum.known

lemma mcs_recvs:
  assumes "swf s"
  shows "avail s = pdu_bytes ErectDomainRequest @ r \<Longrightarrow>
           mcs_recv_erect_domain_request s = Ok () (Stream_Seek s 12)"
    and "avail s = pdu_bytes AttachUserRequest @ r \<Longrightarrow>
           mcs_recv_attach_user_request s = Ok () (Stream_Seek s 8)"
    and "avail s = pdu_bytes (AttachUserConfirm uid) @ r \<Longrightarrow> 1001 \<le> uid \<Longrightarrow>
           mcs_recv_attach_user_confirm mcs s = Ok (mcs\<lparr>userId := uid\<rparr>) (Stream_Seek s 11)"
    and "avail s = pdu_bytes (ChannelJoinRequest uid c) @ r \<Longrightarrow> 1001 \<le> uid \<Longrightarrow>
           mcs_recv_channel_join_request mcs s
           = (if uid = userId mcs then Ok c (Stream_Seek s 12) else Fail (Stream_Seek s 10))"
    and "avail s = pdu_bytes (ChannelJoinConfirm uid c) @ r \<Longrightarrow> 1001 \<le> uid \<Longrightarrow>
           mcs_recv_channel_join_confirm s = Ok c (Stream_Seek s 15)"
proof -
  show "avail s = pdu_bytes ErectDomainRequest @ r \<Longrightarrow>
           mcs_recv_erect_domain_request s = Ok () (Stream_Seek s 12)"
    using assms by (simp add: mcs_recv_erect_domain_request_def mcs_header_known
        per_read_integer_def per_read_small_length read_known)
  show "avail s = pdu_bytes AttachUserRequest @ r \<Longrightarrow>
           mcs_recv_attach_user_request s = Ok () (Stream_Seek s 8)"
    using assms by (simp add: mcs_recv_attach_user_request_def mcs_header_known)
  show "avail s = pdu_bytes (AttachUserConfirm uid) @ r \<Longrightarrow> 1001 \<le> uid \<Longrightarrow>
           mcs_recv_attach_user_confirm mcs s = Ok (mcs\<lparr>userId := uid\<rparr>) (Stream_Seek s 11)"
    using assms by (simp add: mcs_recv_attach_user_confirm_def mcs_known)
  show "avail s = pdu_bytes (ChannelJoinRequest uid c) @ r \<Longrightarrow> 1001 \<le> uid \<Longrightarrow>
           mcs_recv_channel_join_request mcs s
           = (if uid = userId mcs then Ok c (Stream_Seek s 12) else Fail (Stream_Seek s 10))"
    using assms by (simp add: mcs_recv_channel_join_request_def mcs_known)
  show "avail s = pdu_bytes (ChannelJoinConfirm uid c) @ r \<Longrightarrow> 1001 \<le> uid \<Longrightarrow>
           mcs_recv_channel_join_confirm s = Ok c (Stream_Seek s 15)"
    using assms by (simp add: mcs_recv_channel_join_confirm_def mcs_known)
qed

lemma mcs_read_domain_mcspdu_header_inb [inb_intros]:
  "swf s \<Longrightarrow> 4 \<le> length (avail s) \<Longrightarrow> inb s (mcs_read_domain_mcspdu_header s pdu)"
  unfolding mcs_read_domain_mcspdu_header_def by (auto intro!: inb_intros)

lemma inb_regardless [inb_intros]: "inb s r \<Longrightarrow> inb s (regardless r)"
  by (cases r) simp_all

text \<open>Every receive routine is safe on a stream that holds the TPKT header the transport has read.\<close>

lemma mcs_recvs_inb:
  assumes "swf s" "4 \<le> length (avail s)"
  shows "inb s (mcs_recv_erect_domain_request s)"
    and "inb s (mcs_recv_attach_user_request s)"
    and "inb s (mcs_recv_attach_user_confirm mcs s)"
    and "inb s (mcs_recv_channel_join_request mcs s)"
    and "inb s (mcs_recv_channel_join_confirm s)"
  using assms
  unfolding mcs_recv_erect_domain_request_def mcs_recv_attach_user_request_def
    mcs_recv_attach_user_confirm_def mcs_recv_channel_join_request_def mcs_recv_channel_join_confirm_def
  by (auto intro!: inb_intros split: option.split)

subsection \<open>Domain parameters on the wire\<close>

definition domain_parameters_body :: "DomainParameters \<Rightarrow> bytes" where
  "domain_parameters_body dp =
     ber_integer_bytes (maxChannelIds dp) @ ber_integer_bytes (maxUserIds dp) @
     ber_integer_bytes (maxTokenIds dp) @ ber_integer_bytes (numPriorities dp) @
     ber_integer_bytes (minThroughput dp) @ ber_integer_bytes (maxHeight dp) @
     ber_integer_bytes (maxMCSPDUsize dp) @ ber_integer_bytes (protocolVersion dp)"

definition domain_parameters_bytes :: "DomainParameters \<Rightarrow> bytes" where
  "domain_parameters_bytes dp =
     0x30 # ber_length_bytes (int (length (domain_parameters_body dp))) @ domain_parameters_body dp"

definition domain_parameters_small :: "DomainParameters \<Rightarrow> bool" where
  "domain_parameters_small dp \<longleftrightarrow>
     maxChannelIds dp < 0x80000000 \<and> maxUserIds dp < 0x80000000 \<and> maxTokenIds dp < 0x80000000 \<and>
     numPriorities dp < 0x80000000 \<and> minThroughput dp < 0x80000000 \<and> maxHeight dp < 0x80000000 \<and>
     maxMCSPDUsize dp < 0x80000000 \<and> protocolVersion dp < 0x80000000"

lemma length_ber_integer_bytes_le: "length (ber_integer_bytes v) \<le> 6"
  using length_ber_integer_bytes [of v] by (auto simp: ber_sizeof_integer_def split: if_splits)

lemma length_domain_parameters_body: "length (domain_parameters_body dp) \<le> 48"
  unfolding domain_parameters_body_def length_append
  using length_ber_integer_bytes_le [of "maxChannelIds dp"] length_ber_integer_bytes_le [of "maxUserIds dp"]
    length_ber_integer_bytes_le [of "maxTokenIds dp"] length_ber_integer_bytes_le [of "numPriorities dp"]
    length_ber_integer_bytes_le [of "minThroughput dp"] length_ber_integer_bytes_le [of "maxHeight dp"]
    length_ber_integer_bytes_le [of "maxMCSPDUsize dp"] length_ber_integer_bytes_le [of "protocolVersion dp"]
  by linarith

lemma within_put:
  assumes "length mem = Stream_Capacity s"
    and "\<And>t. \<lbrakk>s_pos t = length body; take (length body) (s_buffer t) = body\<rbrakk>
           \<Longrightarrow> k t = put s (pre @ body) x"
  shows "within s (put (Stream_New mem) body u) k = put s (pre @ body) x"
  using assms by (auto simp: put_new) (auto simp: put_def Stream_Write_def)

lemma mcs_write_domain_parameters_put:
  assumes "malloc_ok env" "malloc env (Stream_Capacity s) \<noteq> None"
  shows "mcs_write_domain_parameters env s dp = put s (domain_parameters_bytes dp) ()"
proof -
  let ?body = "domain_parameters_body dp"
  from assms obtain mem where mem: "malloc env (Stream_Capacity s) = Some mem" "length mem = Stream_Capacity s"
    by (auto simp: malloc_ok_def)
  have "mcs_write_domain_parameters env s dp
      = within s (put (Stream_New mem) ?body ()) (\<lambda>tmps.
          put s ((0x30 # ber_length_bytes (int (s_pos tmps))) @ take (s_pos tmps) (s_buffer tmps)) ())"
    by (simp add: mcs_write_domain_parameters_def mem wr_simps Let_def domain_parameters_body_def)
  also have "\<dots> = put s ((0x30 # ber_length_bytes (int (length ?body))) @ ?body) ()"
    by (rule within_put) (simp_all add: mem)
  finally show ?thesis by (simp add: domain_parameters_bytes_def)
qed

interpretation mcs_dp: codec mcs_read_domain_parameters domain_parameters_bytes domain_parameters_small
proof
  fix s dp r
  assume s: "swf s" and ok: "domain_parameters_small dp" and a: "avail s = domain_parameters_bytes dp @ r"
  have "ber_read_sequence_tag s
      = Ok (int (length (domain_parameters_body dp)))
          (Stream_Seek s (length (0x30 # ber_length_bytes (int (length (domain_parameters_body dp))))))"
    using s a length_domain_parameters_body [of dp]
    by (intro ber_seq.rd_enc) (simp_all add: domain_parameters_bytes_def)
  with s a ok show "mcs_read_domain_parameters s = Ok dp (Stream_Seek s (length (domain_parameters_bytes dp)))"
    by (simp add: mcs_read_domain_parameters_def ber_int.known domain_parameters_small_def
        domain_parameters_bytes_def domain_parameters_body_def del: length_Cons)
qed

lemma mcs_read_domain_parameters_inb [inb_intros]:
  "swf s \<Longrightarrow> inb s (mcs_read_domain_parameters s)"
  unfolding mcs_read_domain_parameters_def by (auto intro!: inb_intros)

subsection \<open>Connect PDUs on the wire\<close>

definition malloc_total :: "env \<Rightarrow> bool" where
  "malloc_total env \<longleftrightarrow> malloc_ok env \<and> (\<forall>n. malloc env n \<noteq> None)"

definition octet_string_bytes :: "bytes \<Rightarrow> bytes" where
  "octet_string_bytes bs = 4 # ber_length_bytes (int (length bs)) @ bs"

definition connect_initial_bytes :: "rdpMcs \<Rightarrow> bytes \<Rightarrow> bytes" where
  "connect_initial_bytes mcs userData =
     (let body = octet_string_bytes [1] @ octet_string_bytes [1] @ [1, 1, 0xFF] @
                 domain_parameters_bytes (targetParameters mcs) @
                 domain_parameters_bytes (minimumParameters mcs) @
                 domain_parameters_bytes (maximumParameters mcs) @ octet_string_bytes userData
      in ber_application_bytes 0x65 (int (length body)) @ body)"

definition connect_response_bytes :: "rdpMcs \<Rightarrow> bytes \<Rightarrow> bytes" where
  "connect_response_bytes mcs userData =
     (let body = [0x0A, 1, 0] @ ber_integer_bytes 0 @
                 domain_parameters_bytes (domainParameters mcs) @ octet_string_bytes userData
      in ber_application_bytes 0x66 (int (length body)) @ body)"

lemma malloc_total_obtains:
  assumes "malloc_total env"
  obtains mem where "malloc env n = Some mem" "length mem = n"
  using assms by (fastforce simp: malloc_total_def malloc_ok_def)

lemma mcs_write_domain_parameters_total:
  "malloc_total env \<Longrightarrow> mcs_write_domain_parameters env s dp = put s (domain_parameters_bytes dp) ()"
  by (rule mcs_write_domain_parameters_put) (auto simp: malloc_total_def)

lemma ber_write_octet_string_prefix:
  assumes "s_pos u \<le> length (s_buffer u)"
  shows "ber_write_octet_string s (s_buffer u) (int (s_pos u))
    = put s (octet_string_bytes (packet u)) (ber_sizeof_octet_string (int (s_pos u)))"
  using assms
  by (simp add: ber_write_octet_string_def ber_sizeof_octet_string_def BER_PC_def wr_simps
      octet_string_bytes_def packet_def ac_simps)

lemma ber_write_octet_string_one [simp]:
  "ber_write_octet_string s [1] 1 = put s (octet_string_bytes [1]) 3"
  using ber_write_octet_string_put [of s "[1]"]
  by (simp add: octet_string_bytes_def ber_sizeof_octet_string_def ber_sizeof_length_def)

lemma mcs_write_connect_put:
  assumes "malloc_total env" "s_pos u \<le> length (s_buffer u)"
  shows "mcs_write_connect_initial env s mcs u = put s (connect_initial_bytes mcs (packet u)) ()"
    and "mcs_write_connect_response env s mcs u = put s (connect_response_bytes mcs (packet u)) ()"
proof -
  obtain mem where mem: "malloc env (Stream_Capacity s) = Some mem" "length mem = Stream_Capacity s"
    using assms(1) by (rule malloc_total_obtains)
  note w = mem wr_simps Let_def mcs_write_domain_parameters_total [OF assms(1)]
    ber_write_octet_string_prefix [OF assms(2)]
  let ?body = "octet_string_bytes [1] @ octet_string_bytes [1] @ [1, 1, 0xFF] @
                 domain_parameters_bytes (targetParameters mcs) @
                 domain_parameters_bytes (minimumParameters mcs) @
                 domain_parameters_bytes (maximumParameters mcs) @ octet_string_bytes (packet u)"
  have "mcs_write_connect_initial env s mcs u = within s (put (Stream_New mem) ?body ())
      (\<lambda>tmps. put s (ber_application_bytes 0x65 (int (s_pos tmps)) @ take (s_pos tmps) (s_buffer tmps)) ())"
    by (simp add: mcs_write_connect_initial_def w)
  also have "\<dots> = put s (ber_application_bytes 0x65 (int (length ?body)) @ ?body) ()"
    by (rule within_put) (simp_all only: mem)
  finally show "mcs_write_connect_initial env s mcs u = put s (connect_initial_bytes mcs (packet u)) ()"
    by (simp only: connect_initial_bytes_def Let_def)
  let ?body = "[0x0A, 1, 0] @ ber_integer_bytes 0 @
                 domain_parameters_bytes (domainParameters mcs) @ octet_string_bytes (packet u)"
  have "mcs_write_connect_response env s mcs u = within s (put (Stream_New mem) ?body ())
      (\<lambda>tmps. put s (ber_application_bytes 0x66 (int (s_pos tmps)) @ take (s_pos tmps) (s_buffer tmps)) ())"
    by (simp add: mcs_write_connect_response_def w)
  also have "\<dots> = put s (ber_application_bytes 0x66 (int (length ?body)) @ ?body) ()"
    by (rule within_put) (simp_all only: mem)
  finally show "mcs_write_connect_response env s mcs u = put s (connect_response_bytes mcs (packet u)) ()"
    by (simp only: connect_response_bytes_def Let_def)
qed

lemma length_ber_length_bytes_le: "length (ber_length_bytes len) \<le> 3"
  by (simp add: ber_length_bytes_def)

lemma length_domain_parameters_bytes: "length (domain_parameters_bytes dp) \<le> 52"
  using length_domain_parameters_body [of dp]
    length_ber_length_bytes_le [of "int (length (domain_parameters_body dp))"]
  by (simp add: domain_parameters_bytes_def)

lemma length_octet_string_bytes: "length (octet_string_bytes bs) \<le> length bs + 4"
  using length_ber_length_bytes_le [of "int (length bs)"] by (simp add: octet_string_bytes_def)

lemma length_ber_application_bytes: "length (ber_application_bytes tag len) \<le> 5"
  using length_ber_length_bytes_le [of len] by (simp add: ber_application_bytes_def)

lemma length_tagged:
  "length b \<le> m \<Longrightarrow> length (ber_application_bytes tag len @ b) \<le> m + 5"
  using length_ber_application_bytes [of tag len] by simp

lemma length_connect_bytes:
  "length (connect_initial_bytes mcs ud) \<le> (length ud + 173) + 5"
  "length (connect_response_bytes mcs ud) \<le> (length ud + 65) + 5"
  unfolding connect_initial_bytes_def connect_response_bytes_def Let_def
  using length_octet_string_bytes [of "[1]"] length_octet_string_bytes [of ud]
    length_domain_parameters_bytes [of "targetParameters mcs"]
    length_domain_parameters_bytes [of "minimumParameters mcs"]
    length_domain_parameters_bytes [of "maximumParameters mcs"]
    length_domain_parameters_bytes [of "domainParameters mcs"] length_ber_integer_bytes_le [of 0]
  by (intro length_tagged; simp)+

subsection \<open>Merging domain parameters\<close>

definition mergeable :: "DomainParameters \<Rightarrow> DomainParameters \<Rightarrow> DomainParameters \<Rightarrow> bool" where
  "mergeable target mn mx \<longleftrightarrow>
     (4 \<le> maxChannelIds target \<or> 4 \<le> maxChannelIds mx) \<and>
     (3 \<le> maxUserIds target \<or> 3 \<le> maxUserIds mx) \<and>
     numPriorities mn \<le> 1 \<and>
     (maxHeight target = 1 \<or> maxHeight mn \<le> 1) \<and>
     (if 1024 \<le> maxMCSPDUsize target
      then maxMCSPDUsize target \<le> 65528 \<or> 124 \<le> maxMCSPDUsize mn \<and> maxMCSPDUsize mn \<le> 65528
      else 124 \<le> maxMCSPDUsize mx) \<and>
     (protocolVersion target = 2 \<or> protocolVersion mn \<le> 2 \<and> 2 \<le> protocolVersion mx)"

definition merged :: "DomainParameters \<Rightarrow> DomainParameters \<Rightarrow> DomainParameters" where
  "merged target mx =
     \<lparr>maxChannelIds = (if 4 \<le> maxChannelIds target then maxChannelIds target else 4),
      maxUserIds = (if 3 \<le> maxUserIds target then maxUserIds target else 3),
      maxTokenIds = maxTokenIds target, numPriorities = 1,
      minThroughput = minThroughput target, maxHeight = 1,
      maxMCSPDUsize = (if 1024 \<le> maxMCSPDUsize target
                       then if maxMCSPDUsize target \<le> 65528 then maxMCSPDUsize target else 65528
                       else maxMCSPDUsize mx),
      protocolVersion = 2\<rparr>"

lemma choose_field:
  "(if c then out\<lparr>maxChannelIds := a\<rparr> else out\<lparr>maxChannelIds := b\<rparr>) = out\<lparr>maxChannelIds := if c then a else b\<rparr>"
  "(if c then out\<lparr>maxUserIds := a\<rparr> else out\<lparr>maxUserIds := b\<rparr>) = out\<lparr>maxUserIds := if c then a else b\<rparr>"
  "(if c then out\<lparr>maxMCSPDUsize := a\<rparr> else out\<lparr>maxMCSPDUsize := b\<rparr>) = out\<lparr>maxMCSPDUsize := if c then a else b\<rparr>"
  by simp_all

lemma choose_Inr:
  "(if c then Inr x else Inl z) = Inr v \<longleftrightarrow> c \<and> v = x"
  "(if c then Inr x else if d then Inr y else Inl z) = Inr v \<longleftrightarrow> (c \<or> d) \<and> v = (if c then x else y)"
  "(if b then if c then Inr x else if d then Inr y else Inl z else if e then Inr w else Inl z) = Inr v
   \<longleftrightarrow> (if b then c \<or> d else e) \<and> v = (if b then if c then x else y else w)"
  by auto

lemma choose_step: "(\<exists>a. (c \<and> a = t) \<and> P a) \<longleftrightarrow> c \<and> P t"
  by blast

lemma mcs_merge_iff:
  "mcs_merge_domain_parameters target mn mx out = Inr p \<longleftrightarrow>
     mergeable target mn mx \<and> p = merged target mx"
proof -
  have out: "out\<lparr>maxChannelIds := a, maxUserIds := b, maxTokenIds := c, numPriorities := d,
      minThroughput := e, maxHeight := f, maxMCSPDUsize := g, protocolVersion := h\<rparr>
    = \<lparr>maxChannelIds = a, maxUserIds = b, maxTokenIds = c, numPriorities = d,
      minThroughput = e, maxHeight = f, maxMCSPDUsize = g, protocolVersion = h\<rparr>"
    for a b c d e f g h by (cases out) simp
  show ?thesis
    unfolding mcs_merge_domain_parameters_def Let_def bindS_Inr_iff choose_Inr choose_field choose_step
      mergeable_def merged_def out
    by (simp only: conj_assoc)
qed

subsection \<open>The order in which channels are joined\<close>

text \<open>
  The specification of the join phase: the list of channels to join, and how many of its members
  have been confirmed. Each confirm must be for the next member, and asks for the one after it.
\<close>

definition join_base :: "rdpMcs \<Rightarrow> nat" where
  "join_base mcs = (if messageChannelId mcs = 0 then 2 else 3)"

definition join_plan :: "rdpMcs \<Rightarrow> int list" where
  "join_plan mcs =
     [uint (userId mcs), 1003] @ (if messageChannelId mcs = 0 then [] else [uint (messageChannelId mcs)]) @
     map ChannelId (take (unat (channelCount mcs)) (channels mcs))"

definition joined_upto :: "rdpMcs \<Rightarrow> nat \<Rightarrow> bool" where
  "joined_upto mcs k \<longleftrightarrow>
     unat (channelCount mcs) \<le> length (channels mcs) \<and>
     (userChannelJoined mcs \<longleftrightarrow> 1 \<le> k) \<and> (globalChannelJoined mcs \<longleftrightarrow> 2 \<le> k) \<and>
     (messageChannelId mcs \<noteq> 0 \<longrightarrow> (messageChannelJoined mcs \<longleftrightarrow> 3 \<le> k)) \<and>
     (\<forall>j < unat (channelCount mcs). ch_joined (channels mcs ! j) \<longleftrightarrow> join_base mcs + j < k)"

lemma first_unjoined_eq:
  assumes "n \<le> length cs" "m \<le> n" "\<forall>j < n. ch_joined (cs ! j) \<longleftrightarrow> j < m"
  shows "first_unjoined cs i n = i + m"
  using assms
proof (induction cs i n arbitrary: m rule: first_unjoined.induct)
  case (1 c cs i n)
  show ?case
  proof (cases m)
    case 0
    with "1.prems"(3) show ?thesis by auto
  next
    case (Suc m')
    moreover from Suc "1.prems"(3) have "ch_joined c" by force
    moreover have "\<forall>j < n. ch_joined (cs ! j) \<longleftrightarrow> j < m'"
    proof (intro allI impI)
      fix j assume "j < n"
      then show "ch_joined (cs ! j) \<longleftrightarrow> j < m'"
        using "1.prems"(3) [rule_format, of "Suc j"] Suc by simp
    qed
    ultimately show ?thesis using 1 by simp
  qed
qed auto

lemma length_join_plan:
  "joined_upto mcs k \<Longrightarrow> length (join_plan mcs) = join_base mcs + unat (channelCount mcs)"
  by (simp add: join_plan_def join_base_def joined_upto_def)

lemma join_plan_nth:
  assumes "joined_upto mcs k"
  shows "join_plan mcs ! 0 = uint (userId mcs)" "join_plan mcs ! Suc 0 = 1003"
    and "messageChannelId mcs \<noteq> 0 \<Longrightarrow> join_plan mcs ! 2 = uint (messageChannelId mcs)"
    and "j < unat (channelCount mcs) \<Longrightarrow> join_plan mcs ! (join_base mcs + j) = ChannelId (channels mcs ! j)"
  using assms by (simp_all add: join_plan_def join_base_def joined_upto_def nth_append numeral_2_eq_2 numeral_3_eq_3)

text \<open>What a confirm for the next channel does to the state.\<close>

definition confirm_next :: "rdpMcs \<Rightarrow> nat \<Rightarrow> rdpMcs" where
  "confirm_next mcs k =
     (if k = 0 then mcs\<lparr>userChannelJoined := True\<rparr>
      else if k = 1 then mcs\<lparr>globalChannelJoined := True\<rparr>
      else if k = 2 \<and> messageChannelId mcs \<noteq> 0 then mcs\<lparr>messageChannelJoined := True\<rparr>
      else (let i = k - join_base mcs
            in mcs\<lparr>channels := (channels mcs)[i := (channels mcs ! i)\<lparr>ch_joined := True\<rparr>]\<rparr>))"

lemma map_ChannelId_join:
  "map ChannelId (take n (cs[i := (cs ! i)\<lparr>ch_joined := b\<rparr>])) = map ChannelId (take n cs)"
proof (rule nth_equalityI)
  fix j assume "j < length (map ChannelId (take n (cs[i := (cs ! i)\<lparr>ch_joined := b\<rparr>])))"
  then show "map ChannelId (take n (cs[i := (cs ! i)\<lparr>ch_joined := b\<rparr>])) ! j = map ChannelId (take n cs) ! j"
    by (cases "j = i") simp_all
qed simp

lemma confirm_next:
  assumes "joined_upto mcs k" "k < length (join_plan mcs)"
  shows "joined_upto (confirm_next mcs k) (Suc k)"
    and "join_plan (confirm_next mcs k) = join_plan mcs"
    and "userId (confirm_next mcs k) = userId mcs"
proof -
  show "join_plan (confirm_next mcs k) = join_plan mcs"
    by (simp add: confirm_next_def join_plan_def Let_def map_ChannelId_join)
  show "userId (confirm_next mcs k) = userId mcs"
    by (simp add: confirm_next_def Let_def)
  have k: "k < join_base mcs + unat (channelCount mcs)"
    using assms(2) by (simp only: length_join_plan [OF assms(1)])
  consider "k = 0" | "k = 1" | "k = 2" "messageChannelId mcs \<noteq> 0" | "join_base mcs \<le> k" "2 \<le> k"
    by (cases "messageChannelId mcs = 0") (force simp: join_base_def)+
  then show "joined_upto (confirm_next mcs k) (Suc k)"
  proof cases
    case 4
    then obtain i where i: "k = join_base mcs + i" "i < unat (channelCount mcs)"
      using k by (metis add_less_cancel_left le_add_diff_inverse)
    from 4 have "\<not> (k = 2 \<and> messageChannelId mcs \<noteq> 0)" "k \<noteq> 0" "k \<noteq> 1"
      by (auto simp: join_base_def split: if_splits)
    then have "confirm_next mcs k = mcs\<lparr>channels := (channels mcs)
        [k - join_base mcs := (channels mcs ! (k - join_base mcs))\<lparr>ch_joined := True\<rparr>]\<rparr>"
      unfolding confirm_next_def Let_def by argo
    with i have next_i: "confirm_next mcs k
        = mcs\<lparr>channels := (channels mcs)[i := (channels mcs ! i)\<lparr>ch_joined := True\<rparr>]\<rparr>"
      by simp
    have upd: "ch_joined ((channels mcs)[i := (channels mcs ! i)\<lparr>ch_joined := True\<rparr>] ! j) \<longleftrightarrow> j < Suc i"
      if "j < unat (channelCount mcs)" for j
      using assms(1) i that by (cases "j = i") (auto simp: joined_upto_def)
    show ?thesis
      unfolding next_i using assms(1) i 4 upd
      by (cases "messageChannelId mcs = 0") (simp_all add: joined_upto_def join_base_def)
  qed (use assms(1) in \<open>auto simp: confirm_next_def joined_upto_def join_base_def Let_def\<close>)
qed

lemma request_join_result:
  "request_join env mcs c = Join_Crash \<or> (\<exists>ps. request_join env mcs c = Join_More mcs ps) \<or>
   (\<exists>ps. request_join env mcs c = Join_False mcs ps)"
  by (auto simp: request_join_def split: sent.split bool.split)

lemma join_channel_index:
  assumes "joined_upto mcs k" "k = join_base mcs + i" "i < unat (channelCount mcs)"
  shows "first_unjoined (channels mcs) 0 (unat (channelCount mcs)) = i"
  using first_unjoined_eq [of "unat (channelCount mcs)" "channels mcs" i 0] assms
  by (auto simp: joined_upto_def)

lemma confirm_next_channel:
  "confirm_next mcs (join_base mcs + i)
   = mcs\<lparr>channels := (channels mcs)[i := (channels mcs ! i)\<lparr>ch_joined := True\<rparr>]\<rparr>"
  by (cases "messageChannelId mcs = 0") (simp_all add: confirm_next_def join_base_def)

lemma join_step:
  assumes up: "joined_upto mcs k" "k < length (join_plan mcs)"
    and recv: "mcs_recv_channel_join_confirm s = Ok c t"
  shows "rdp_client_connect_mcs_channel_join_confirm env mcs s =
    (if uint c \<noteq> join_plan mcs ! k then Join_False mcs []
     else if Suc k < length (join_plan mcs) then request_join env (confirm_next mcs k) (join_plan mcs ! Suc k)
     else Join_All (confirm_next mcs k) [])"
proof -
  note nth = join_plan_nth [OF up(1)] and len = length_join_plan [OF up(1)]
  note first = join_plan_nth(4) [OF up(1), of 0]
  have k: "k < join_base mcs + unat (channelCount mcs)" using up(2) len by simp
  have le: "i < unat (channelCount mcs) \<Longrightarrow> \<not> length (channels mcs) \<le> i"
    "0 < unat (channelCount mcs) \<Longrightarrow> channels mcs \<noteq> []" for i
    using up(1) by (auto simp: joined_upto_def)
  have eq: "uint c = uint w \<longleftrightarrow> c = w" "uint c = 1003 \<longleftrightarrow> c = 1003" for w
    by (simp_all add: word_uint_eq_iff)
  note step = eq rdp_client_connect_mcs_channel_join_confirm_def recv le request_channel_def
  have zero: "channelCount mcs = 0 \<and> unat (channelCount mcs) = 0 \<or>
      0 < channelCount mcs \<and> 0 < unat (channelCount mcs)"
    by (cases "channelCount mcs = 0") (simp_all add: word_neq_0_conv unat_gt_0)
  consider "k = 0" | "k = 1" | "k = 2" "messageChannelId mcs \<noteq> 0"
    | i where "k = join_base mcs + i" "i < unat (channelCount mcs)" "2 \<le> k" "k = 2 \<longrightarrow> messageChannelId mcs = 0"
  proof (cases "join_base mcs \<le> k")
    case True
    then obtain i where i: "k = join_base mcs + i" by (auto simp: le_iff_add)
    moreover from i k have "i < unat (channelCount mcs)" by simp
    moreover from True have "2 \<le> k" "k = 2 \<longrightarrow> messageChannelId mcs = 0"
      by (auto simp: join_base_def split: if_splits)
    ultimately show ?thesis by (rule that(4))
  next
    case False
    then have "k = 0 \<or> k = 1 \<or> k = 2 \<and> messageChannelId mcs \<noteq> 0"
      by (auto simp: join_base_def split: if_splits)
    with that(1-3) show ?thesis by blast
  qed
  then show ?thesis
  proof cases
    case 1
    with up(1) have "\<not> userChannelJoined mcs" "\<not> globalChannelJoined mcs" by (simp_all add: joined_upto_def)
    with 1 nth(1,2) len request_join_result [of env "confirm_next mcs 0" 1003] show ?thesis
      by (auto simp: step confirm_next_def join_base_def)
  next
    case 2
    with up(1) have "userChannelJoined mcs" "\<not> globalChannelJoined mcs" by (simp_all add: joined_upto_def)
    with 2 nth(1-3) len first zero show ?thesis
      by (cases "messageChannelId mcs = 0"; elim disjE conjE)
        (simp_all add: step confirm_next_def join_base_def numeral_2_eq_2 Let_def)
  next
    case 3
    with up(1) have "userChannelJoined mcs" "globalChannelJoined mcs" "\<not> messageChannelJoined mcs"
      by (simp_all add: joined_upto_def)
    moreover have "join_base mcs = 3" using 3 by (simp add: join_base_def)
    with first len have "0 < unat (channelCount mcs) \<Longrightarrow> join_plan mcs ! 3 = ChannelId (channels mcs ! 0)"
      "length (join_plan mcs) = 3 + unat (channelCount mcs)" by simp_all
    ultimately show ?thesis
      using 3 nth(3) zero by (elim disjE conjE) (simp_all add: step confirm_next_def Let_def)
  next
    case 4
    have "userChannelJoined mcs" "globalChannelJoined mcs" "\<not> (messageChannelId mcs \<noteq> 0 \<and> \<not> messageChannelJoined mcs)"
      using up(1) 4(1,3) by (auto simp: joined_upto_def join_base_def)
    moreover have "confirm_next mcs k
        = mcs\<lparr>channels := (channels mcs)[i := (channels mcs ! i)\<lparr>ch_joined := True\<rparr>]\<rparr>"
      using 4(1) by (simp add: confirm_next_channel)
    moreover have "join_plan mcs ! k = ChannelId (channels mcs ! i)"
      "Suc i < unat (channelCount mcs) \<Longrightarrow> join_plan mcs ! Suc k = ChannelId (channels mcs ! Suc i)"
      using nth(4) [of i] nth(4) [of "Suc i"] 4 by simp_all
    ultimately show ?thesis
      using 4 join_channel_index [OF up(1) 4(1,2)] len
      by (auto simp: step Let_def)
  qed
qed

text \<open>The join phase as a whole: the confirms one after the other, with the requests sent so far.\<close>

fun join_run :: "env \<Rightarrow> rdpMcs \<Rightarrow> wStream list \<Rightarrow> bytes list \<Rightarrow> join_result" where
  "join_run env mcs [] ps = Join_More mcs ps"
| "join_run env mcs (s # ss) ps =
     (case rdp_client_connect_mcs_channel_join_confirm env mcs s of
        Join_Crash \<Rightarrow> Join_Crash
      | Join_False mcs qs \<Rightarrow> Join_False mcs (ps @ qs)
      | Join_More mcs qs \<Rightarrow> join_run env mcs ss (ps @ qs)
      | Join_All mcs qs \<Rightarrow> Join_All mcs (ps @ qs))"

definition join_confirm :: "u16 \<Rightarrow> int \<Rightarrow> wStream" where
  "join_confirm uid c = Stream_New (pdu_bytes (ChannelJoinConfirm uid (word_of_int c)))"

definition join_request :: "u16 \<Rightarrow> int \<Rightarrow> bytes" where
  "join_request uid c = pdu_bytes (ChannelJoinRequest uid (word_of_int c))"

lemma recv_join_confirm:
  assumes "1001 \<le> uid"
  shows "\<exists>t. mcs_recv_channel_join_confirm (join_confirm uid c) = Ok (word_of_int c) t"
  using mcs_recvs(5) [of "join_confirm uid c" uid "word_of_int c" "[]"] assms
  by (simp add: join_confirm_def)

lemma request_join_sent:
  assumes "malloc_total env" "\<forall>bs. 0 \<le> transport_write env bs"
  shows "request_join env mcs c = Join_More mcs [join_request (userId mcs) c]"
  using assms mcs_sends(4) [of env mcs "word_of_int c"]
  by (simp add: request_join_def malloc_total_def join_request_def transmit_def del: pdu_bytes.simps)

lemma join_run_all:
  assumes "malloc_total env" "\<forall>bs. 0 \<le> transport_write env bs" "1001 \<le> uid"
    and "joined_upto mcs k" "k < length (join_plan mcs)" "\<forall>c \<in> set (join_plan mcs). 0 \<le> c \<and> c < 0x10000"
  shows "\<exists>mcs'. join_run env mcs (map (join_confirm uid) (drop k (join_plan mcs))) ps
           = Join_All mcs' (ps @ map (join_request (userId mcs)) (drop (Suc k) (join_plan mcs)))
         \<and> joined_upto mcs' (length (join_plan mcs)) \<and> join_plan mcs' = join_plan mcs"
  using assms(4-)
proof (induction "length (join_plan mcs) - k" arbitrary: mcs k ps)
  case 0
  then show ?case by simp
next
  case (Suc n)
  let ?c = "join_plan mcs ! k" and ?mcs = "confirm_next mcs k"
  from Suc.prems have "0 \<le> ?c" "?c < 0x10000" by simp_all
  then have c: "uint (word_of_int ?c :: u16) = ?c"
    by (simp add: uint_word_of_int_eq take_bit_int_eq_self)
  obtain t where "mcs_recv_channel_join_confirm (join_confirm uid ?c) = Ok (word_of_int ?c) t"
    using recv_join_confirm [OF assms(3)] by blast
  from join_step [OF Suc.prems(1,2) this, of env] c
  have step: "rdp_client_connect_mcs_channel_join_confirm env mcs (join_confirm uid ?c) =
    (if Suc k < length (join_plan mcs)
     then Join_More ?mcs [join_request (userId mcs) (join_plan mcs ! Suc k)] else Join_All ?mcs [])"
    by (simp add: request_join_sent [OF assms(1,2)] confirm_next(3) [OF Suc.prems(1,2)])
  have d: "drop k (join_plan mcs) = ?c # drop (Suc k) (join_plan mcs)"
    using Suc.prems(2) by (simp add: Cons_nth_drop_Suc)
  note up = confirm_next [OF Suc.prems(1,2)]
  show ?case
  proof (cases "Suc k < length (join_plan mcs)")
    case True
    have n: "n = length (join_plan mcs) - Suc k" using Suc.hyps(2) by simp
    from Suc.hyps(1) [of ?mcs "Suc k" "ps @ [join_request (userId mcs) (join_plan mcs ! Suc k)]"] True
      n Suc.prems(3) up
    obtain mcs' where "join_run env ?mcs (map (join_confirm uid) (drop (Suc k) (join_plan mcs)))
        (ps @ [join_request (userId mcs) (join_plan mcs ! Suc k)])
      = Join_All mcs' ((ps @ [join_request (userId mcs) (join_plan mcs ! Suc k)])
          @ map (join_request (userId mcs)) (drop (Suc (Suc k)) (join_plan mcs)))"
      "joined_upto mcs' (length (join_plan mcs))" "join_plan mcs' = join_plan mcs"
      by auto
    moreover have "drop (Suc k) (join_plan mcs)
        = join_plan mcs ! Suc k # drop (Suc (Suc k)) (join_plan mcs)"
      using True by (simp add: Cons_nth_drop_Suc)
    ultimately show ?thesis using True by (simp add: d step)
  next
    case False
    with Suc.prems(2) have "Suc k = length (join_plan mcs)" by simp
    with up show ?thesis by (simp add: d step)
  qed
qed

subsection \<open>Properties\<close>

text \<open>An environment where every allocation and every write succeeds, for concrete instances.\<close>

definition good_env :: env where
  "good_env = \<lparr>malloc = (\<lambda>n. Some (replicate n 0)), transport_write = (\<lambda>bs. int (length bs))\<rparr>"

lemma good_env [simp]: "malloc_total good_env" "malloc_ok good_env" "0 \<le> transport_write good_env bs"
  by (auto simp: good_env_def malloc_total_def malloc_ok_def)

lemma transmit_good [simp]: "transmit good_env bs = Returned True [bs]"
  by (simp add: transmit_def good_env_def)

definition fresh_mcs :: rdpMcs where
  "fresh_mcs = the (mcs_new True True)"



text \<open>The user id a server assigns in its Attach User Confirm is the one the client stores; the
  server takes it from its counter, which moves on by one.\<close>

theorem mcs_attach_user_roundtrip:
  assumes "malloc_total env" "1001 \<le> baseChannelId srv"
    and "mcs_send_attach_user_confirm env srv = (Returned ok [pkt], srv')"
  shows "\<exists>t. mcs_recv_attach_user_confirm cl (Stream_New pkt) = Ok (cl\<lparr>userId := userId srv'\<rparr>) t \<and>
    userId srv' = baseChannelId srv \<and> baseChannelId srv' = baseChannelId srv + 1"
proof -
  have "malloc_ok env" using assms(1) by (simp add: malloc_total_def)
  from mcs_sends(3) [OF this, of srv] assms(3)
  have pkt: "pkt = pdu_bytes (AttachUserConfirm (baseChannelId srv))"
    by (auto simp: transmit_def split: if_splits)
  have srv': "srv' = srv\<lparr>userId := baseChannelId srv, baseChannelId := baseChannelId srv + 1\<rparr>"
    using assms(3) malloc_total_obtains [OF assms(1), of 11]
    by (auto simp: mcs_send_attach_user_confirm_def Let_def split: if_splits)
  show ?thesis
    using mcs_recvs(3) [of "Stream_New pkt" "baseChannelId srv" "[]" cl] assms(2)
    by (simp add: pkt srv')
qed

theorem mcs_attach_user_roundtrip_witness:
  "\<exists>pkt srv' t. mcs_send_attach_user_confirm good_env fresh_mcs = (Returned True [pkt], srv') \<and>
    mcs_recv_attach_user_confirm fresh_mcs (Stream_New pkt) = Ok (fresh_mcs\<lparr>userId := 1004\<rparr>) t"
proof -
  obtain pkt srv' where s: "mcs_send_attach_user_confirm good_env fresh_mcs = (Returned True [pkt], srv')"
    using mcs_sends(3) [of good_env fresh_mcs]
    by (cases "mcs_send_attach_user_confirm good_env fresh_mcs") simp
  have "baseChannelId fresh_mcs = 1004" by (simp add: fresh_mcs_def mcs_new_def)
  with mcs_attach_user_roundtrip [OF _ _ s, of fresh_mcs] s show ?thesis by auto
qed

text \<open>A server reads a client's Channel Join Request as the channel asked for when the user id is
  its own, and refuses it otherwise.\<close>

theorem mcs_channel_join_request_roundtrip:
  assumes "malloc_ok env" "1001 \<le> userId cl"
    and "mcs_send_channel_join_request env cl c = Returned ok [pkt]"
  shows "\<exists>t. mcs_recv_channel_join_request srv (Stream_New pkt)
    = (if userId cl = userId srv then Ok c t else Fail t)"
proof -
  have pkt: "pkt = pdu_bytes (ChannelJoinRequest (userId cl) c)"
    using mcs_sends(4) [OF assms(1), of cl c] assms(3) by (auto simp: transmit_def split: if_splits)
  show ?thesis
    using mcs_recvs(4) [of "Stream_New pkt" "userId cl" c "[]" srv] assms(2)
    by (auto simp: pkt)
qed

theorem mcs_channel_join_request_roundtrip_witness:
  "\<exists>pkt t. mcs_send_channel_join_request good_env (fresh_mcs\<lparr>userId := 1005\<rparr>) 1003 = Returned True [pkt] \<and>
    mcs_recv_channel_join_request (fresh_mcs\<lparr>userId := 1005\<rparr>) (Stream_New pkt) = Ok 1003 t"
proof -
  obtain pkt where s: "mcs_send_channel_join_request good_env (fresh_mcs\<lparr>userId := 1005\<rparr>) 1003 = Returned True [pkt]"
    using mcs_sends(4) [of good_env "fresh_mcs\<lparr>userId := 1005\<rparr>" 1003] by simp
  with mcs_channel_join_request_roundtrip [OF _ _ s, of "fresh_mcs\<lparr>userId := 1005\<rparr>"] show ?thesis by simp
qed

text \<open>The disconnect ultimatum the client sends carries the reason rn-user-requested: a peer that
  has consumed the header reads reason 3.\<close>

theorem mcs_disconnect_reason:
  assumes "malloc_ok env" "mcs_send_disconnect_provider_ultimatum env = Returned ok [pkt]"
  shows "mcs_recv_disconnect_provider_ultimatum (Stream_Seek (Stream_New pkt) 8)
    = Ok 3 (Stream_Seek (Stream_New pkt) 9)"
proof -
  have "pkt = pdu_bytes DisconnectProviderUltimatum"
    using mcs_sends(6) [OF assms(1)] assms(2) by (auto simp: transmit_def split: if_splits)
  moreover have "pdu_bytes DisconnectProviderUltimatum = [3, 0, 0, 9, 2, 0xF0, 0x80, 0x21, 0x80]" by code_simp
  ultimately have "pkt = [3, 0, 0, 9, 2, 0xF0, 0x80, 0x21, 0x80]" by simp
  then show ?thesis by simp code_simp
qed

theorem mcs_disconnect_reason_witness:
  "\<exists>pkt. mcs_send_disconnect_provider_ultimatum good_env = Returned True [pkt] \<and>
    mcs_recv_disconnect_provider_ultimatum (Stream_Seek (Stream_New pkt) 8) = Ok 3 (Stream_Seek (Stream_New pkt) 9)"
proof -
  obtain pkt where s: "mcs_send_disconnect_provider_ultimatum good_env = Returned True [pkt]"
    using mcs_sends(6) [of good_env] by simp
  with mcs_disconnect_reason [OF _ s] show ?thesis by simp
qed


text \<open>A server that merges the parameters of this client's Connect-Initial always succeeds, with 34
  channels, 3 users and PDUs of at most 65528 bytes.\<close>

theorem mcs_client_parameters_merge:
  "mcs_merge_domain_parameters (targetParameters fresh_mcs) (minimumParameters fresh_mcs)
     (maximumParameters fresh_mcs) out
   = Inr \<lparr>maxChannelIds = 34, maxUserIds = 3, maxTokenIds = 0, numPriorities = 1, minThroughput = 0,
          maxHeight = 1, maxMCSPDUsize = 65528, protocolVersion = 2\<rparr>"
  unfolding mcs_merge_iff
  by (simp add: fresh_mcs_def mcs_new_def mcs_init_domain_parameters_def mergeable_def merged_def)

text \<open>Domain parameters below 2^31 survive the wire: what \<open>mcs_write_domain_parameters\<close> writes to
  a stream with room is what \<open>mcs_read_domain_parameters\<close> returns.\<close>

theorem mcs_domain_parameters_roundtrip:
  assumes "malloc_total env" "domain_parameters_small dp" "52 \<le> length mem" "length mem < 2 ^ 31"
  shows "\<exists>t. mcs_write_domain_parameters env (Stream_New mem) dp = Ok () t \<and>
    mcs_read_domain_parameters (Stream_SetPosition (Stream_SealLength t) 0)
    = Ok dp (Stream_SetPosition (Stream_SealLength t) (s_pos t))"
proof -
  have "length (domain_parameters_bytes dp) \<le> length mem"
    using length_domain_parameters_bytes [of dp] assms(3) by linarith
  then obtain t where t: "put (Stream_New mem) (domain_parameters_bytes dp) () = Ok () t"
    "s_pos t = length (domain_parameters_bytes dp)"
    using ber_put_Ok [of "domain_parameters_bytes dp" mem "()"] by auto
  with mcs_dp.written_then_read [OF t(1) assms(4,2)] show ?thesis
    by (simp add: mcs_write_domain_parameters_total [OF assms(1)])
qed

theorem mcs_domain_parameters_roundtrip_witness:
  "\<exists>t. mcs_write_domain_parameters good_env (Stream_New (replicate 60 0)) (maximumParameters fresh_mcs) = Ok () t \<and>
    mcs_read_domain_parameters (Stream_SetPosition (Stream_SealLength t) 0)
    = Ok (maximumParameters fresh_mcs) (Stream_SetPosition (Stream_SealLength t) (s_pos t))"
  by (rule mcs_domain_parameters_roundtrip)
    (simp_all add: domain_parameters_small_def fresh_mcs_def mcs_new_def mcs_init_domain_parameters_def)

text \<open>the 1024 bytes that \<open>mcs_send_connect_initial\<close> and \<open>mcs_send_connect_response\<close> add to the size
  of the conference data are enough: neither connect PDU overruns the stream, whatever the domain
  parameters are.\<close>

theorem mcs_write_connect_fits:
  assumes "malloc_total env" "s_pos u \<le> length (s_buffer u)"
    and "s_pos s = 7" "Stream_Capacity s = 1024 + (s_pos u + 7)"
  shows "(\<exists>t. mcs_write_connect_initial env s mcs u = Ok () t) \<and>
    (\<exists>t. mcs_write_connect_response env s mcs u = Ok () t)"
proof -
  have "length (packet u) = s_pos u" using assms(2) by (simp add: packet_def)
  with length_connect_bytes [where mcs = mcs and ud = "packet u"] assms(3,4) show ?thesis
    by (simp add: mcs_write_connect_put [OF assms(1,2)] put_fits)
qed

theorem mcs_write_connect_fits_witness:
  "(\<exists>t. mcs_write_connect_initial good_env (Stream_Seek (Stream_New (replicate 1034 0)) 7) fresh_mcs
       (Stream_Seek (Stream_New [1, 2, 3]) 3) = Ok () t)"
  using mcs_write_connect_fits [of good_env "Stream_Seek (Stream_New [1, 2, 3]) 3"
      "Stream_Seek (Stream_New (replicate 1034 0)) 7" fresh_mcs]
  by (simp add: Stream_Capacity_def Stream_Seek_def Stream_New_def)



text \<open>C10: one step of the join phase refines the join plan (the user channel, the global channel, the
  message channel if there is one, then the static channels in order): a confirm for any other channel
  than the next one fails and changes nothing; the right one is recorded, and the following channel is
  requested, or the phase is over.\<close>

theorem mcs_join_refines_plan:
  assumes "joined_upto mcs k" "k < length (join_plan mcs)" "mcs_recv_channel_join_confirm s = Ok c t"
  shows "rdp_client_connect_mcs_channel_join_confirm env mcs s =
    (if uint c \<noteq> join_plan mcs ! k then Join_False mcs []
     else if Suc k < length (join_plan mcs)
       then request_join env (confirm_next mcs k) (join_plan mcs ! Suc k)
     else Join_All (confirm_next mcs k) []) \<and>
    joined_upto (confirm_next mcs k) (Suc k) \<and> join_plan (confirm_next mcs k) = join_plan mcs"
  using join_step [OF assms] confirm_next(1,2) [OF assms(1,2)] by blast

definition two_channel_mcs :: rdpMcs where
  "two_channel_mcs = fresh_mcs\<lparr>userId := 1004, channelCount := 2,
     channels := [zero_channel\<lparr>ChannelId := 1005\<rparr>, zero_channel\<lparr>ChannelId := 1006\<rparr>]\<rparr>"

lemma two_channel_mcs:
  "joined_upto two_channel_mcs 0" "join_plan two_channel_mcs = [1004, 1003, 1005, 1006]"
  "userId two_channel_mcs = 1004"
  by (auto simp: two_channel_mcs_def fresh_mcs_def mcs_new_def zero_channel_def joined_upto_def
      join_plan_def dest!: less_2_cases)

theorem mcs_join_refines_plan_witness:
  "rdp_client_connect_mcs_channel_join_confirm good_env two_channel_mcs (join_confirm 1004 1005)
   = Join_False two_channel_mcs []"
proof -
  obtain t where "mcs_recv_channel_join_confirm (join_confirm 1004 1005) = Ok (word_of_int 1005) t"
    using recv_join_confirm [of 1004 1005] by auto
  from mcs_join_refines_plan [OF two_channel_mcs(1) _ this, of good_env] show ?thesis
    by (simp add: two_channel_mcs(2))
qed



end
