(* ===== verification/Nego.thy ===== *)
theory Nego
  imports X224
begin

text \<open>
  Protocol security negotiation (libfreerdp/core/nego.c): the X.224 connection request and confirm
  with their RDP negotiation data, on the client and on the server side, and the client's state
  machine that tries extended NLA, NLA, TLS and RDP security in turn.

  The transport is an arbitrary peer: every answer of \<open>net\<close> may depend on everything that happened on
  the connection before, the list of events kept in the \<open>transport\<close> field of the state (the newest
  first). None stands for an access outside the memory the code owns.
\<close>

subsection \<open>State\<close>

datatype event =
    Connect bool nat bool
  | Secure u32 bool
  | Sent bytes
  | Received "bytes option"
  | Disconnect

record net =
  n_malloc :: "nat \<Rightarrow> bytes option"
  n_connect :: "event list \<Rightarrow> bool"
  n_secure :: "event list \<Rightarrow> bool"
  n_write :: "event list \<Rightarrow> bytes \<Rightarrow> int"
  n_read_pdu :: "event list \<Rightarrow> bytes option"
  n_unicode :: "bytes \<Rightarrow> u16 list option"

abbreviation (input) PROTOCOL_RDP :: u32 where "PROTOCOL_RDP \<equiv> 0"
abbreviation (input) PROTOCOL_TLS :: u32 where "PROTOCOL_TLS \<equiv> 1"
abbreviation (input) PROTOCOL_NLA :: u32 where "PROTOCOL_NLA \<equiv> 2"
abbreviation (input) PROTOCOL_EXT :: u32 where "PROTOCOL_EXT \<equiv> 8"
abbreviation (input) PROTOCOL_FAILED_NEGO :: u32 where "PROTOCOL_FAILED_NEGO \<equiv> 0x80000000"
abbreviation (input) TYPE_RDP_NEG_REQ :: u8 where "TYPE_RDP_NEG_REQ \<equiv> 1"
abbreviation (input) TYPE_RDP_NEG_RSP :: u8 where "TYPE_RDP_NEG_RSP \<equiv> 2"
abbreviation (input) TYPE_RDP_NEG_FAILURE :: u8 where "TYPE_RDP_NEG_FAILURE \<equiv> 3"

datatype NEGO_STATE =
    NEGO_STATE_INITIAL
  | NEGO_STATE_EXT
  | NEGO_STATE_NLA
  | NEGO_STATE_TLS
  | NEGO_STATE_RDP
  | NEGO_STATE_FAIL
  | NEGO_STATE_FINAL

text \<open>
  \<open>EnabledProtocols\<close> is an array of 16 bytes indexed by the protocol constants; C strings are byte
  lists without the terminating zero, and a NULL pointer is None.
\<close>

record rdpNego =
  port :: int
  flags :: u32
  hostname :: "bytes option"
  cookie :: "bytes option"
  RoutingToken :: "bytes option"
  SendPreconnectionPdu :: bool
  PreconnectionId :: u32
  PreconnectionBlob :: "bytes option"
  state :: NEGO_STATE
  TcpConnected :: bool
  SecurityConnected :: bool
  CookieMaxLength :: u32
  sendNegoData :: bool
  SelectedProtocol :: u32
  RequestedProtocols :: u32
  NegotiateSecurityLayer :: bool
  EnabledProtocols :: "u32 \<Rightarrow> bool"
  RestrictedAdminModeRequired :: bool
  GatewayEnabled :: bool
  GatewayBypassLocal :: bool
  transport :: "event list"

text \<open>The settings the negotiation reads and writes.\<close>

record rdpSettings =
  set_RequestedProtocols :: u32
  set_SelectedProtocol :: u32
  set_NegotiationFlags :: u32
  UseRdpSecurityLayer :: bool
  EncryptionMethods :: u32
  EncryptionLevel :: u32
  TlsSecurity :: bool
  NlaSecurity :: bool
  RdpSecurity :: bool
  LocalConnection :: bool
  RdpServerRsaKey :: bool
  RdpKeyFile :: bool

definition log_event :: "event \<Rightarrow> rdpNego \<Rightarrow> rdpNego" where
  "log_event e nego = nego\<lparr>transport := e # transport nego\<rparr>"

definition nego_init :: "rdpNego \<Rightarrow> rdpNego" where
  "nego_init nego =
     nego\<lparr>state := NEGO_STATE_INITIAL, RequestedProtocols := PROTOCOL_RDP, CookieMaxLength := 0xFF,
          sendNegoData := False, flags := 0\<rparr>"

definition nego_new :: "bool \<Rightarrow> event list \<Rightarrow> rdpNego option" where
  "nego_new calloc_ok tr =
     (if \<not> calloc_ok then None
      else Some (nego_init
        \<lparr>port = 0, flags = 0, hostname = None, cookie = None, RoutingToken = None,
         SendPreconnectionPdu = False, PreconnectionId = 0, PreconnectionBlob = None,
         state = NEGO_STATE_INITIAL, TcpConnected = False, SecurityConnected = False,
         CookieMaxLength = 0, sendNegoData = False, SelectedProtocol = 0, RequestedProtocols = 0,
         NegotiateSecurityLayer = False, EnabledProtocols = (\<lambda>_. False),
         RestrictedAdminModeRequired = False, GatewayEnabled = False, GatewayBypassLocal = False,
         transport = tr\<rparr>))"

definition nego_set_target :: "rdpNego \<Rightarrow> bytes \<Rightarrow> int \<Rightarrow> rdpNego" where
  "nego_set_target nego host p = nego\<lparr>hostname := Some host, port := p\<rparr>"

definition nego_set_negotiation_enabled :: "rdpNego \<Rightarrow> bool \<Rightarrow> rdpNego" where
  "nego_set_negotiation_enabled nego b = nego\<lparr>NegotiateSecurityLayer := b\<rparr>"

definition nego_set_restricted_admin_mode_required :: "rdpNego \<Rightarrow> bool \<Rightarrow> rdpNego" where
  "nego_set_restricted_admin_mode_required nego b = nego\<lparr>RestrictedAdminModeRequired := b\<rparr>"

definition nego_set_gateway_enabled :: "rdpNego \<Rightarrow> bool \<Rightarrow> rdpNego" where
  "nego_set_gateway_enabled nego b = nego\<lparr>GatewayEnabled := b\<rparr>"

definition nego_set_gateway_bypass_local :: "rdpNego \<Rightarrow> bool \<Rightarrow> rdpNego" where
  "nego_set_gateway_bypass_local nego b = nego\<lparr>GatewayBypassLocal := b\<rparr>"

definition nego_enable :: "u32 \<Rightarrow> rdpNego \<Rightarrow> bool \<Rightarrow> rdpNego" where
  "nego_enable protocol nego b = nego\<lparr>EnabledProtocols := (EnabledProtocols nego)(protocol := b)\<rparr>"

definition nego_enable_rdp :: "rdpNego \<Rightarrow> bool \<Rightarrow> rdpNego" where
  "nego_enable_rdp = nego_enable PROTOCOL_RDP"

definition nego_enable_tls :: "rdpNego \<Rightarrow> bool \<Rightarrow> rdpNego" where
  "nego_enable_tls = nego_enable PROTOCOL_TLS"

definition nego_enable_nla :: "rdpNego \<Rightarrow> bool \<Rightarrow> rdpNego" where
  "nego_enable_nla = nego_enable PROTOCOL_NLA"

definition nego_enable_ext :: "rdpNego \<Rightarrow> bool \<Rightarrow> rdpNego" where
  "nego_enable_ext = nego_enable PROTOCOL_EXT"

text \<open>The two string setters; the boolean argument is whether their allocation succeeds.\<close>

definition nego_set_routing_token :: "bool \<Rightarrow> rdpNego \<Rightarrow> bytes \<Rightarrow> bool \<times> rdpNego" where
  "nego_set_routing_token malloc_ok nego token =
     (if \<not> malloc_ok then (False, nego\<lparr>RoutingToken := None\<rparr>)
      else (True, nego\<lparr>RoutingToken := Some token\<rparr>))"

definition nego_set_cookie :: "bool \<Rightarrow> rdpNego \<Rightarrow> bytes option \<Rightarrow> bool \<times> rdpNego" where
  "nego_set_cookie strdup_ok nego c =
     (case c of
        None \<Rightarrow> (True, nego\<lparr>cookie := None\<rparr>)
      | Some str \<Rightarrow>
          if \<not> strdup_ok then (False, nego\<lparr>cookie := None\<rparr>)
          else (True, nego\<lparr>cookie := Some str\<rparr>))"

definition nego_set_cookie_max_length :: "rdpNego \<Rightarrow> u32 \<Rightarrow> rdpNego" where
  "nego_set_cookie_max_length nego n = nego\<lparr>CookieMaxLength := n\<rparr>"

definition nego_set_send_preconnection_pdu :: "rdpNego \<Rightarrow> bool \<Rightarrow> rdpNego" where
  "nego_set_send_preconnection_pdu nego b = nego\<lparr>SendPreconnectionPdu := b\<rparr>"

definition nego_set_preconnection_id :: "rdpNego \<Rightarrow> u32 \<Rightarrow> rdpNego" where
  "nego_set_preconnection_id nego i = nego\<lparr>PreconnectionId := i\<rparr>"

definition nego_set_preconnection_blob :: "rdpNego \<Rightarrow> bytes option \<Rightarrow> rdpNego" where
  "nego_set_preconnection_blob nego b = nego\<lparr>PreconnectionBlob := b\<rparr>"

subsection \<open>Connecting\<close>

definition nego_dial :: "net \<Rightarrow> bool \<Rightarrow> nat \<Rightarrow> rdpNego \<Rightarrow> rdpNego" where
  \<comment> \<open>\<open>transport_set_gateway_enabled\<close>, then \<open>TcpConnected = transport_connect(..., timeout)\<close>.\<close>
  "nego_dial net gateway timeout nego =
     (let ok = n_connect net (transport nego)
      in log_event (Connect gateway timeout ok) (nego\<lparr>TcpConnected := ok\<rparr>))"

definition nego_tcp_connect :: "net \<Rightarrow> rdpNego \<Rightarrow> bool \<times> rdpNego" where
  "nego_tcp_connect net nego =
     (let nego =
        (if \<not> TcpConnected nego then
           (if GatewayEnabled nego then
              (let nego = (if GatewayBypassLocal nego then nego_dial net False 1 nego else nego)
               in if \<not> TcpConnected nego then nego_dial net True 15 nego else nego)
            else nego_dial net False 15 nego)
         else nego)
      in (TcpConnected nego, nego))"

definition nego_security_connect :: "net \<Rightarrow> rdpNego \<Rightarrow> bool \<times> rdpNego" where
  \<comment> \<open>\<open>transport_connect_rdp\<close> always succeeds; the TLS and NLA handshakes are the transport's.\<close>
  "nego_security_connect net nego =
     (let nego =
        (if \<not> TcpConnected nego then nego\<lparr>SecurityConnected := False\<rparr>
         else if \<not> SecurityConnected nego then
           (if SelectedProtocol nego = PROTOCOL_NLA \<or> SelectedProtocol nego = PROTOCOL_TLS then
              (let ok = n_secure net (transport nego)
               in log_event (Secure (SelectedProtocol nego) ok) (nego\<lparr>SecurityConnected := ok\<rparr>))
            else if SelectedProtocol nego = PROTOCOL_RDP then
              log_event (Secure PROTOCOL_RDP True) (nego\<lparr>SecurityConnected := True\<rparr>)
            else nego)
         else nego)
      in (SecurityConnected nego, nego))"

definition nego_transport_connect :: "net \<Rightarrow> rdpNego \<Rightarrow> bool \<times> rdpNego" where
  "nego_transport_connect net nego =
     (let (_, nego) = nego_tcp_connect net nego
      in if TcpConnected nego \<and> \<not> NegotiateSecurityLayer nego then nego_security_connect net nego
         else (TcpConnected nego, nego))"

definition nego_transport_disconnect :: "rdpNego \<Rightarrow> bool \<times> rdpNego" where
  "nego_transport_disconnect nego =
     (let nego = (if TcpConnected nego then log_event Disconnect nego else nego)
      in (True, nego\<lparr>TcpConnected := False, SecurityConnected := False\<rparr>))"

definition nego_disconnect :: "rdpNego \<Rightarrow> bool \<times> rdpNego" where
  "nego_disconnect nego = nego_transport_disconnect (nego\<lparr>state := NEGO_STATE_INITIAL\<rparr>)"

definition nego_transmit :: "net \<Rightarrow> rdpNego \<Rightarrow> wStream \<Rightarrow> bool \<times> rdpNego" where
  \<comment> \<open>\<open>if (transport_write(nego->transport, s) < 0) return FALSE; ... return TRUE;\<close>\<close>
  "nego_transmit net nego s =
     (\<not> n_write net (transport nego) (packet s) < 0, log_event (Sent (packet s)) nego)"

text \<open>
  The blob is converted to UTF-16 by winpr (\<open>n_unicode\<close>, the characters with their terminating zero;
  None when the conversion fails); the buffer it comes in has one more zero.
\<close>

definition nego_send_preconnection_pdu :: "net \<Rightarrow> rdpNego \<Rightarrow> (bool \<times> rdpNego) option" where
  "nego_send_preconnection_pdu net nego =
     (let (ok, nego) = nego_tcp_connect net nego
      in if \<not> ok then Some (False, nego)
         else
           (let wszPCB = (case PreconnectionBlob nego of None \<Rightarrow> None | Some blob \<Rightarrow> n_unicode net blob);
                cchPCB = (if PreconnectionBlob nego = None then 0
                          else (case wszPCB of None \<Rightarrow> 0 | Some w \<Rightarrow> word_of_nat (length w)) + 1 :: u16);
                cbSize = (18 + 2 * ucast cchPCB :: u32)
            in case n_malloc net (unat cbSize) of
                 None \<Rightarrow> Some (False, nego)
               | Some mem \<Rightarrow>
                   (case andthen (Stream_Write_UINT32 (Stream_New mem) cbSize) (\<lambda>_ s.
                         andthen (Stream_Write_UINT32 s 0) (\<lambda>_ s.
                         andthen (Stream_Write_UINT32 s 2) (\<lambda>_ s.
                         andthen (Stream_Write_UINT32 s (PreconnectionId nego)) (\<lambda>_ s.
                         andthen (Stream_Write_UINT16 s cchPCB) (\<lambda>_ s.
                         (case wszPCB of
                            None \<Rightarrow> Ok () s
                          | Some w \<Rightarrow> Stream_Write s (concat (map le16 (take (unat cchPCB) (w @ [0])))))))))) of
                      Ok _ s \<Rightarrow> Some (nego_transmit net nego (Stream_SealLength s))
                    | _ \<Rightarrow> None)))"

subsection \<open>Negotiation messages\<close>

definition nego_send_negotiation_request :: "net \<Rightarrow> rdpNego \<Rightarrow> (bool \<times> rdpNego) option" where
  "nego_send_negotiation_request net nego =
     (case n_malloc net 512 of
        None \<Rightarrow> Some (False, nego)
      | Some mem \<Rightarrow>
          (let s = Stream_New mem; len = 11; bm = s_pos s; s = Stream_Seek s len;
               written =
                 (case RoutingToken nego of
                    Some token \<Rightarrow>
                      andthen (Stream_Write s token) (\<lambda>_ s.
                        if length token > 2 \<and> token ! (length token - 2) = 0x0D \<and>
                           token ! (length token - 1) = 0x0A
                        then Ok (int len + int (length token)) s
                        else
                          andthen (Stream_Write_UINT8 s 0x0D) (\<lambda>_ s.
                          andthen (Stream_Write_UINT8 s 0x0A) (\<lambda>_ s.
                          Ok (int len + (int (length token) + 2)) s)))
                  | None \<Rightarrow>
                     (case cookie nego of
                        Some c \<Rightarrow>
                          (let cookie_length = int (length c);
                               cookie_length =
                                 (if cookie_length > sint (CookieMaxLength nego)
                                  then sint (CookieMaxLength nego) else cookie_length)
                           in
                          andthen (Stream_Write s
                            [0x43, 0x6F, 0x6F, 0x6B, 0x69, 0x65, 0x3A, 0x20,
                             0x6D, 0x73, 0x74, 0x73, 0x68, 0x61, 0x73, 0x68, 0x3D]) (\<lambda>_ s.
                          if cookie_length < 0 then Overrun
                          else
                          andthen (Stream_Write s (take (nat cookie_length) c)) (\<lambda>_ s.
                          andthen (Stream_Write_UINT8 s 0x0D) (\<lambda>_ s.
                          andthen (Stream_Write_UINT8 s 0x0A) (\<lambda>_ s.
                          Ok (int len + (cookie_length + 19)) s)))))
                      | None \<Rightarrow> Ok (int len) s));
               written =
                 andthen written (\<lambda>len s.
                   if RequestedProtocols nego > PROTOCOL_RDP \<or> sendNegoData nego then
                     (let fl = (if RestrictedAdminModeRequired nego then 1 else 0)
                      in andthen (Stream_Write_UINT8 s TYPE_RDP_NEG_REQ) (\<lambda>_ s.
                         andthen (Stream_Write_UINT8 s fl) (\<lambda>_ s.
                         andthen (Stream_Write_UINT16 s 8) (\<lambda>_ s.
                         andthen (Stream_Write_UINT32 s (RequestedProtocols nego)) (\<lambda>_ s.
                         Ok (len + 8) s)))))
                   else Ok len s)
           in case andthen written (\<lambda>len s.
                let em = s_pos s
                in andthen (tpkt_write_header (Stream_SetPosition s bm) (word_of_int len)) (\<lambda>_ s.
                   andthen (tpdu_write_connection_request s (word_of_int (len - 5))) (\<lambda>_ s.
                   Ok () (Stream_SetPosition s em)))) of
                Ok _ s \<Rightarrow> Some (nego_transmit net nego (Stream_SealLength s))
              | _ \<Rightarrow> None))"

definition nego_process_negotiation_request :: "rdpNego \<Rightarrow> wStream \<Rightarrow> rdpNego res" where
  "nego_process_negotiation_request nego s =
     andthen (Stream_Read_UINT8 s) (\<lambda>fl s.
     andthen (Stream_Read_UINT16 s) (\<lambda>len s.
     andthen (Stream_Read_UINT32 s) (\<lambda>rp s.
       Ok (nego\<lparr>RequestedProtocols := rp, state := NEGO_STATE_FINAL\<rparr>) s)))"

definition nego_process_negotiation_response :: "rdpNego \<Rightarrow> wStream \<Rightarrow> rdpNego res" where
  "nego_process_negotiation_response nego s =
     (if Stream_GetRemainingLength s < 7 then Ok (nego\<lparr>state := NEGO_STATE_FAIL\<rparr>) s
      else
        andthen (Stream_Read_UINT8 s) (\<lambda>fl s.
        andthen (Stream_Read_UINT16 s) (\<lambda>len s.
        andthen (Stream_Read_UINT32 s) (\<lambda>sp s.
          Ok (nego\<lparr>flags := ucast fl, SelectedProtocol := sp, state := NEGO_STATE_FINAL\<rparr>) s))))"

definition nego_process_negotiation_failure :: "rdpNego \<Rightarrow> wStream \<Rightarrow> rdpNego res" where
  "nego_process_negotiation_failure nego s =
     andthen (Stream_Read_UINT8 s) (\<lambda>fl s.
     andthen (Stream_Read_UINT16 s) (\<lambda>len s.
     andthen (Stream_Read_UINT32 s) (\<lambda>failureCode s.
       let nego = (if failureCode = 2 \<or> failureCode = 3 then nego\<lparr>sendNegoData := True\<rparr> else nego)
       in Ok (nego\<lparr>state := NEGO_STATE_FAIL\<rparr>) s)))"

text \<open>\<open>Fail\<close> is the return value -1 and \<open>Ok\<close> the return value 0.\<close>

definition nego_recv :: "rdpNego \<Rightarrow> wStream \<Rightarrow> rdpNego res" where
  "nego_recv nego s =
     andthen (tpkt_read_header s) (\<lambda>len s.
       if len = 0 then Fail s
       else
         andthen (tpdu_read_connection_confirm s) (\<lambda>li s.
           if li > 6 then
             andthen (Stream_Read_UINT8 s) (\<lambda>type s.
               if type = TYPE_RDP_NEG_RSP then
                 andthen (nego_process_negotiation_response nego s) (\<lambda>nego s.
                   if SelectedProtocol nego \<noteq> 0 then
                     (let nego = (if SelectedProtocol nego = PROTOCOL_NLA \<and> \<not> EnabledProtocols nego PROTOCOL_NLA
                                  then nego\<lparr>state := NEGO_STATE_FAIL\<rparr> else nego);
                          nego = (if SelectedProtocol nego = PROTOCOL_TLS \<and> \<not> EnabledProtocols nego PROTOCOL_TLS
                                  then nego\<lparr>state := NEGO_STATE_FAIL\<rparr> else nego)
                      in Ok nego s)
                   else if \<not> EnabledProtocols nego PROTOCOL_RDP then Ok (nego\<lparr>state := NEGO_STATE_FAIL\<rparr>) s
                   else Ok nego s)
               else if type = TYPE_RDP_NEG_FAILURE then nego_process_negotiation_failure nego s
               else Ok nego s)
           else if li = 6 then
             (if \<not> EnabledProtocols nego PROTOCOL_RDP then Ok (nego\<lparr>state := NEGO_STATE_FAIL\<rparr>) s
              else Ok (nego\<lparr>state := NEGO_STATE_FINAL\<rparr>) s)
           else Ok (nego\<lparr>state := NEGO_STATE_FAIL\<rparr>) s))"

definition nego_recv_response :: "net \<Rightarrow> rdpNego \<Rightarrow> (bool \<times> rdpNego) option" where
  "nego_recv_response net nego =
     (case n_malloc net 1024 of
        None \<Rightarrow> Some (False, nego)
      | Some mem \<Rightarrow>
          (let pdu = n_read_pdu net (transport nego); nego = log_event (Received pdu) nego
           in case pdu of
                None \<Rightarrow> Some (False, nego)
              | Some bs \<Rightarrow>
                  (case nego_recv nego (Stream_New bs) of
                     Ok nego s \<Rightarrow> Some (True, nego)
                   | Fail s \<Rightarrow> Some (False, nego)
                   | Overrun \<Rightarrow> None)))"

subsection \<open>The server's side\<close>

fun crlf_at :: "bytes \<Rightarrow> nat option" where
  \<comment> \<open>The scan loop: where the first CR LF starts, None when the remaining bytes have none.\<close>
  "crlf_at (a # b # r) =
     (if a = 0x0D \<and> b = 0x0A then Some 0 else map_option Suc (crlf_at (b # r)))"
| "crlf_at _ = None"

definition nego_read_request_token_or_cookie :: "bool \<Rightarrow> rdpNego \<Rightarrow> wStream \<Rightarrow> (bool \<times> rdpNego \<times> wStream)" where
  \<comment> \<open>The first argument is whether the copy of the string can be allocated.\<close>
  "nego_read_request_token_or_cookie alloc_ok nego s =
     (let str = avail s; pos = s_pos s
      in if Stream_GetRemainingLength s < 15 then (True, nego, s)
         else
           (let isToken = (take 13 str = [0x43, 0x6F, 0x6F, 0x6B, 0x69, 0x65, 0x3A, 0x20,
                                          0x6D, 0x73, 0x74, 0x73, 0x3D])
            in if \<not> isToken \<and> Stream_GetRemainingLength s < 19 then (True, nego, s)
               else if \<not> isToken \<and>
                 take 17 str \<noteq> [0x43, 0x6F, 0x6F, 0x6B, 0x69, 0x65, 0x3A, 0x20,
                                0x6D, 0x73, 0x74, 0x73, 0x68, 0x61, 0x73, 0x68, 0x3D]
               then (True, nego, s)
               else
                 (let skip = (if isToken then 13 else 17)
                  in case crlf_at (drop skip str) of
                       None \<Rightarrow> (False, nego, s)
                     | Some i \<Rightarrow>
                         (let len = skip + i;
                              t = s\<lparr>s_buffer := (s_buffer s)[pos + len := 0, pos + len + 1 := 0],
                                    s_pos := pos + len + 2\<rparr>;
                              c_str = takeWhile (\<lambda>b. b \<noteq> 0) (take len str);
                              (result, nego) =
                                (if length c_str = len
                                 then (if isToken then nego_set_routing_token alloc_ok nego c_str
                                       else nego_set_cookie alloc_ok nego (Some c_str))
                                 else (False, nego))
                          in (result, nego, if result then t else Stream_SetPosition t pos)))))"

definition nego_read_request :: "bool \<Rightarrow> rdpNego \<Rightarrow> wStream \<Rightarrow> rdpNego res" where
  "nego_read_request alloc_ok nego s =
     andthen (tpkt_read_header s) (\<lambda>_ s.
     andthen (tpdu_read_connection_request s) (\<lambda>li s.
       if unat li \<noteq> (Stream_GetRemainingLength s + 6) mod 2 ^ 64 then Fail s
       else
         (let (ok, nego, s) = nego_read_request_token_or_cookie alloc_ok nego s
          in if \<not> ok then Fail s
             else if Stream_GetRemainingLength s \<ge> 8 then
               andthen (Stream_Read_UINT8 s) (\<lambda>type s.
                 if type \<noteq> TYPE_RDP_NEG_REQ then Fail s
                 else nego_process_negotiation_request nego s)
             else Ok nego s)))"

text \<open>
  The server's answer. A selected protocol with the internal failure bit settings is sent as a failure.
\<close>

definition nego_update_settings :: "rdpNego \<Rightarrow> rdpSettings \<Rightarrow> bool \<times> rdpSettings" where
  \<comment> \<open>The last part of \<open>nego_send_negotiation_response\<close>.\<close>
  "nego_update_settings nego settings =
     (let settings = settings\<lparr>set_RequestedProtocols := RequestedProtocols nego,
                    set_SelectedProtocol := SelectedProtocol nego\<rparr>
      in if set_SelectedProtocol settings = PROTOCOL_RDP then
           (let settings = settings\<lparr>TlsSecurity := False, NlaSecurity := False, RdpSecurity := True,
                          UseRdpSecurityLayer := True\<rparr>;
                settings = (if EncryptionLevel settings = 0 then settings\<lparr>EncryptionLevel := 2\<rparr> else settings);
                settings = (if LocalConnection settings
                       then settings\<lparr>UseRdpSecurityLayer := False, EncryptionLevel := 0\<rparr> else settings)
            in if \<not> RdpServerRsaKey settings \<and> \<not> RdpKeyFile settings then (False, settings) else (True, settings))
         else if set_SelectedProtocol settings = PROTOCOL_TLS then
           (True, settings\<lparr>TlsSecurity := True, NlaSecurity := False, RdpSecurity := False,
                      UseRdpSecurityLayer := False, EncryptionLevel := 0\<rparr>)
         else if set_SelectedProtocol settings = PROTOCOL_NLA then
           (True, settings\<lparr>TlsSecurity := True, NlaSecurity := True, RdpSecurity := False,
                      UseRdpSecurityLayer := False, EncryptionLevel := 0\<rparr>)
         else (True, settings))"

definition nego_send_negotiation_response ::
    "net \<Rightarrow> rdpNego \<Rightarrow> rdpSettings \<Rightarrow> (bool \<times> rdpNego \<times> rdpSettings) option" where
  "nego_send_negotiation_response net nego settings =
     (case n_malloc net 512 of
        None \<Rightarrow> Some (False, nego, settings)
      | Some mem \<Rightarrow>
          (let s = Stream_New mem; len = 11; bm = s_pos s; s = Stream_Seek s 11;
               failed = (SelectedProtocol nego AND PROTOCOL_FAILED_NEGO \<noteq> 0)
           in case andthen
                (if failed then
                   andthen (Stream_Write_UINT8 s TYPE_RDP_NEG_FAILURE) (\<lambda>_ s.
                   andthen (Stream_Write_UINT8 s 0) (\<lambda>_ s.
                   andthen (Stream_Write_UINT16 s 8) (\<lambda>_ s.
                   Stream_Write_UINT32 s (SelectedProtocol nego AND NOT PROTOCOL_FAILED_NEGO))))
                 else
                   andthen (Stream_Write_UINT8 s TYPE_RDP_NEG_RSP) (\<lambda>_ s.
                   andthen (Stream_Write_UINT8 s (1 OR 2)) (\<lambda>_ s.
                   andthen (Stream_Write_UINT16 s 8) (\<lambda>_ s.
                   Stream_Write_UINT32 s (SelectedProtocol nego)))))
                (\<lambda>_ s.
                   let len = len + 8; em = s_pos s
                   in andthen (tpkt_write_header (Stream_SetPosition s bm) len) (\<lambda>_ s.
                      andthen (tpdu_write_connection_confirm s (len - 5)) (\<lambda>_ s.
                      Ok () (Stream_SetPosition s em)))) of
                Ok _ s \<Rightarrow>
                  (let (ok, nego) = nego_transmit net nego (Stream_SealLength s)
                   in if \<not> ok then Some (False, nego, settings)
                      else if failed then Some (False, nego, settings)
                      else (let (ok, settings) = nego_update_settings nego settings in Some (ok, nego, settings)))
              | _ \<Rightarrow> None))"

subsection \<open>The client's state machine\<close>

definition nego_exchange :: "net \<Rightarrow> rdpNego \<Rightarrow> (bool \<times> rdpNego) option" where
  \<comment> \<open>What every attempt does first: connect, send the request, receive the response; FALSE is the
    early return, with the state set to fail.\<close>
  "nego_exchange net nego =
     (let (ok, nego) = nego_transport_connect net nego
      in if \<not> ok then Some (False, nego\<lparr>state := NEGO_STATE_FAIL\<rparr>)
         else
           (case nego_send_negotiation_request net nego of
              None \<Rightarrow> None
            | Some (ok, nego) \<Rightarrow>
                if \<not> ok then Some (False, nego\<lparr>state := NEGO_STATE_FAIL\<rparr>)
                else
                  (case nego_recv_response net nego of
                     None \<Rightarrow> None
                   | Some (ok, nego) \<Rightarrow>
                       if \<not> ok then Some (False, nego\<lparr>state := NEGO_STATE_FAIL\<rparr>)
                       else Some (True, nego))))"

definition nego_attempt_ext :: "net \<Rightarrow> rdpNego \<Rightarrow> rdpNego option" where
  "nego_attempt_ext net nego =
     (case nego_exchange net (nego\<lparr>RequestedProtocols := PROTOCOL_NLA OR PROTOCOL_TLS OR PROTOCOL_EXT\<rparr>) of
        None \<Rightarrow> None
      | Some (ok, nego) \<Rightarrow>
          if \<not> ok then Some nego
          else if state nego \<noteq> NEGO_STATE_FINAL then
            (let nego = snd (nego_transport_disconnect nego)
             in Some (if EnabledProtocols nego PROTOCOL_NLA then nego\<lparr>state := NEGO_STATE_NLA\<rparr>
                      else if EnabledProtocols nego PROTOCOL_TLS then nego\<lparr>state := NEGO_STATE_TLS\<rparr>
                      else if EnabledProtocols nego PROTOCOL_RDP then nego\<lparr>state := NEGO_STATE_RDP\<rparr>
                      else nego\<lparr>state := NEGO_STATE_FAIL\<rparr>))
          else Some nego)"

definition nego_attempt_nla :: "net \<Rightarrow> rdpNego \<Rightarrow> rdpNego option" where
  "nego_attempt_nla net nego =
     (case nego_exchange net (nego\<lparr>RequestedProtocols := PROTOCOL_NLA OR PROTOCOL_TLS\<rparr>) of
        None \<Rightarrow> None
      | Some (ok, nego) \<Rightarrow>
          if \<not> ok then Some nego
          else if state nego \<noteq> NEGO_STATE_FINAL then
            (let nego = snd (nego_transport_disconnect nego)
             in Some (if EnabledProtocols nego PROTOCOL_TLS then nego\<lparr>state := NEGO_STATE_TLS\<rparr>
                      else if EnabledProtocols nego PROTOCOL_RDP then nego\<lparr>state := NEGO_STATE_RDP\<rparr>
                      else nego\<lparr>state := NEGO_STATE_FAIL\<rparr>))
          else Some nego)"

definition nego_attempt_tls :: "net \<Rightarrow> rdpNego \<Rightarrow> rdpNego option" where
  "nego_attempt_tls net nego =
     (case nego_exchange net (nego\<lparr>RequestedProtocols := PROTOCOL_TLS\<rparr>) of
        None \<Rightarrow> None
      | Some (ok, nego) \<Rightarrow>
          if \<not> ok then Some nego
          else if state nego \<noteq> NEGO_STATE_FINAL then
            (let nego = snd (nego_transport_disconnect nego)
             in Some (if EnabledProtocols nego PROTOCOL_RDP then nego\<lparr>state := NEGO_STATE_RDP\<rparr>
                      else nego\<lparr>state := NEGO_STATE_FAIL\<rparr>))
          else Some nego)"

definition nego_attempt_rdp :: "net \<Rightarrow> rdpNego \<Rightarrow> rdpNego option" where
  "nego_attempt_rdp net nego =
     map_option snd (nego_exchange net (nego\<lparr>RequestedProtocols := PROTOCOL_RDP\<rparr>))"

definition nego_send :: "net \<Rightarrow> rdpNego \<Rightarrow> rdpNego option" where
  "nego_send net nego =
     (case state nego of
        NEGO_STATE_EXT \<Rightarrow> nego_attempt_ext net nego
      | NEGO_STATE_NLA \<Rightarrow> nego_attempt_nla net nego
      | NEGO_STATE_TLS \<Rightarrow> nego_attempt_tls net nego
      | NEGO_STATE_RDP \<Rightarrow> nego_attempt_rdp net nego
      | _ \<Rightarrow> Some nego)"

datatype 'a loop = Loop_fuel | Loop_crash | Loop_done 'a

fun nego_loop :: "nat \<Rightarrow> net \<Rightarrow> rdpNego \<Rightarrow> (bool \<times> rdpNego) loop" where
  \<comment> \<open>The \<open>do ... while\<close> loop of \<open>nego_connect\<close>: whether it was left by the loop condition.\<close>
  "nego_loop 0 net nego = Loop_fuel"
| "nego_loop (Suc fuel) net nego =
     (case nego_send net nego of
        None \<Rightarrow> Loop_crash
      | Some nego \<Rightarrow>
          if state nego = NEGO_STATE_FAIL then Loop_done (False, nego\<lparr>state := NEGO_STATE_FINAL\<rparr>)
          else if state nego \<noteq> NEGO_STATE_FINAL then nego_loop fuel net nego
          else Loop_done (True, nego))"

definition nego_choose :: "rdpNego \<Rightarrow> rdpNego" where
  \<comment> \<open>The first state, and the single protocol left enabled when negotiation is disabled.\<close>
  "nego_choose nego =
     (let nego = (if EnabledProtocols nego PROTOCOL_EXT then nego\<lparr>state := NEGO_STATE_EXT\<rparr>
                  else if EnabledProtocols nego PROTOCOL_NLA then nego\<lparr>state := NEGO_STATE_NLA\<rparr>
                  else if EnabledProtocols nego PROTOCOL_TLS then nego\<lparr>state := NEGO_STATE_TLS\<rparr>
                  else if EnabledProtocols nego PROTOCOL_RDP then nego\<lparr>state := NEGO_STATE_RDP\<rparr>
                  else nego\<lparr>state := NEGO_STATE_FAIL\<rparr>)
      in if state nego \<noteq> NEGO_STATE_FAIL \<and> \<not> NegotiateSecurityLayer nego then
           (let none = (EnabledProtocols nego)(PROTOCOL_NLA := False, PROTOCOL_TLS := False,
                          PROTOCOL_RDP := False, PROTOCOL_EXT := False)
            in if state nego = NEGO_STATE_EXT then
                 nego\<lparr>EnabledProtocols := none(PROTOCOL_EXT := True, PROTOCOL_NLA := True),
                      SelectedProtocol := PROTOCOL_EXT\<rparr>
               else if state nego = NEGO_STATE_NLA then
                 nego\<lparr>EnabledProtocols := none(PROTOCOL_NLA := True), SelectedProtocol := PROTOCOL_NLA\<rparr>
               else if state nego = NEGO_STATE_TLS then
                 nego\<lparr>EnabledProtocols := none(PROTOCOL_TLS := True), SelectedProtocol := PROTOCOL_TLS\<rparr>
               else
                 nego\<lparr>EnabledProtocols := none(PROTOCOL_RDP := True), SelectedProtocol := PROTOCOL_RDP\<rparr>)
         else nego)"

definition nego_finish :: "net \<Rightarrow> rdpNego \<Rightarrow> rdpSettings \<Rightarrow> bool \<times> rdpNego \<times> rdpSettings" where
  \<comment> \<open>After the loop: the settings, and the security layer if it is not connected yet.\<close>
  "nego_finish net nego settings =
     (let settings = settings\<lparr>set_RequestedProtocols := RequestedProtocols nego,
                set_SelectedProtocol := SelectedProtocol nego, set_NegotiationFlags := flags nego\<rparr>;
          settings = (if SelectedProtocol nego = PROTOCOL_RDP then
                   (let settings = settings\<lparr>UseRdpSecurityLayer := True\<rparr>
                    in if EncryptionMethods settings = 0
                       then settings\<lparr>EncryptionMethods := 0x01 OR 0x08 OR 0x02 OR 0x10\<rparr> else settings)
                 else settings);
          (ok, nego) = nego_security_connect net nego
      in (ok, nego, settings))"

definition nego_connect ::
    "nat \<Rightarrow> net \<Rightarrow> rdpNego \<Rightarrow> rdpSettings \<Rightarrow> (bool \<times> rdpNego \<times> rdpSettings) loop" where
  "nego_connect fuel net nego settings =
     (let start =
        (if state nego = NEGO_STATE_INITIAL then
           (let nego = nego_choose nego
            in if state nego = NEGO_STATE_FAIL then Some (False, nego)
               else if SendPreconnectionPdu nego then
                 (case nego_send_preconnection_pdu net nego of
                    None \<Rightarrow> None
                  | Some (ok, nego) \<Rightarrow>
                      Some (if ok then (True, nego) else (False, nego\<lparr>state := NEGO_STATE_FINAL\<rparr>)))
               else Some (True, nego))
         else Some (True, nego))
      in case start of
           None \<Rightarrow> Loop_crash
         | Some (ok, nego) \<Rightarrow>
             if \<not> ok then Loop_done (False, nego, settings)
             else
               (case nego_loop fuel net nego of
                  Loop_fuel \<Rightarrow> Loop_fuel
                | Loop_crash \<Rightarrow> Loop_crash
                | Loop_done (ok, nego) \<Rightarrow>
                    Loop_done (if ok then nego_finish net nego settings else (False, nego, settings))))"

subsection \<open>The connection request and confirm on the wire\<close>

text \<open>The body of a packet is written first, eleven bytes in; the two headers are filled in last.\<close>

lemma put_after_seek:
  assumes "k + length body \<le> length mem"
  shows "put (Stream_Seek (Stream_New mem) k) body x
    = Ok x \<lparr>s_buffer = take k mem @ body @ drop (k + length body) mem,
            s_pos = k + length body, s_length = length mem\<rparr>"
  using assms
  by (simp add: put_def Stream_Write_def Stream_Seek_def Stream_New_def Stream_Capacity_def)

lemma put_after_seek_Overrun:
  assumes "length mem < k + length body" "body \<noteq> []"
  shows "put (Stream_Seek (Stream_New mem) k) body x = Overrun"
  using assms by (simp add: put_Overrun_iff Stream_Capacity_def Stream_New_def)

lemma put_at_front:
  assumes "length hdr \<le> length buf"
  shows "put \<lparr>s_buffer = buf, s_pos = 0, s_length = n\<rparr> hdr x
    = Ok x \<lparr>s_buffer = hdr @ drop (length hdr) buf, s_pos = length hdr, s_length = n\<rparr>"
  using assms by (simp add: put_def Stream_Write_def Stream_Capacity_def)

definition x224_packet :: "u8 \<Rightarrow> bytes \<Rightarrow> bytes" where
  "x224_packet code body =
     tpkt_bytes (word_of_nat (11 + length body)) @
     tpdu_bytes (code, word_of_nat (6 + length body)) @ body"

definition nego_data :: "u8 \<Rightarrow> u8 \<Rightarrow> u32 \<Rightarrow> bytes" where
  "nego_data type fl value = [type, fl] @ le16 8 @ le32 value"

lemma length_nego_data [simp]: "length (nego_data type fl value) = 8"
  by (simp add: nego_data_def)

text \<open>What the client puts before the negotiation data: the routing token, or the cookie cut to its limit.\<close>

definition cookie_prefix :: bytes where
  "cookie_prefix = [0x43, 0x6F, 0x6F, 0x6B, 0x69, 0x65, 0x3A, 0x20,
                    0x6D, 0x73, 0x74, 0x73, 0x68, 0x61, 0x73, 0x68, 0x3D]"

definition crlf_terminated :: "bytes \<Rightarrow> bool" where
  "crlf_terminated t \<longleftrightarrow> length t > 2 \<and> t ! (length t - 2) = 0x0D \<and> t ! (length t - 1) = 0x0A"

definition request_token :: "rdpNego \<Rightarrow> bytes" where
  "request_token nego =
     (case RoutingToken nego of
        Some t \<Rightarrow> if crlf_terminated t then t else t @ [0x0D, 0x0A]
      | None \<Rightarrow>
          (case cookie nego of
             Some c \<Rightarrow> cookie_prefix @ take (nat (sint (CookieMaxLength nego))) c @ [0x0D, 0x0A]
           | None \<Rightarrow> []))"

definition request_data :: "rdpNego \<Rightarrow> bytes" where
  "request_data nego =
     (if RequestedProtocols nego > 0 \<or> sendNegoData nego
      then nego_data 1 (if RestrictedAdminModeRequired nego then 1 else 0) (RequestedProtocols nego)
      else [])"

definition nego_request_bytes :: "rdpNego \<Rightarrow> bytes" where
  "nego_request_bytes nego = x224_packet 0xE0 (request_token nego @ request_data nego)"

lemma s_pos_New [simp]: "s_pos (Stream_New mem) = 0"
  by (simp add: Stream_New_def)

definition net_ok :: "net \<Rightarrow> bool" where
  "net_ok net \<longleftrightarrow> (\<forall>n. \<exists>mem. n_malloc net n = Some mem \<and> length mem = n)"

definition nego_transmitted :: "net \<Rightarrow> rdpNego \<Rightarrow> bytes \<Rightarrow> bool \<times> rdpNego" where
  "nego_transmitted net nego bs = (0 \<le> n_write net (transport nego) bs, log_event (Sent bs) nego)"

lemma of_int_len: "word_of_int (11 + int n - 5) = (word_of_nat (6 + n) :: 'a::len word)"
  "word_of_int (11 + int n) = (word_of_nat (11 + n) :: 'a::len word)"
proof -
  have "11 + int n - 5 = int (6 + n)" "11 + int n = int (11 + n)" by simp_all
  then show "word_of_int (11 + int n - 5) = (word_of_nat (6 + n) :: 'a::len word)"
    "word_of_int (11 + int n) = (word_of_nat (11 + n) :: 'a::len word)"
    by (simp_all only: of_int_of_nat_eq)
qed

lemma nego_send_negotiation_request_put:
  assumes mem: "n_malloc net 512 = Some mem" and max: "0 \<le> sint (CookieMaxLength nego)"
  defines "body \<equiv> request_token nego @ request_data nego"
  shows "nego_send_negotiation_request net nego =
    (case andthen (put (Stream_Seek (Stream_New mem) 11) body (11 + int (length body))) (\<lambda>len s.
           andthen (put (Stream_SetPosition s 0)
             (tpkt_bytes (word_of_int len) @ tpdu_bytes (0xE0, ucast (word_of_int (len - 5) :: u16))) ())
             (\<lambda>_ t. Ok () (Stream_SetPosition t (s_pos s)))) of
       Ok _ s \<Rightarrow> Some (nego_transmit net nego (Stream_SealLength s)) | _ \<Rightarrow> None)"
proof -
  let ?nd = "RequestedProtocols nego > 0 \<or> sendNegoData nego"
  note w = mem Let_def wr_simps body_def request_token_def request_data_def nego_data_def s_pos_New
  note start = nego_send_negotiation_request_def crlf_terminated_def [symmetric]
  show ?thesis
  proof (cases "RoutingToken nego")
    case (Some t)
    then show ?thesis
      unfolding start
      by (cases ?nd; cases "crlf_terminated t") (simp_all add: w)
  next
    case None
    show ?thesis
    proof (cases "cookie nego")
      case (Some c)
      define cl where "cl = (if int (length c) > sint (CookieMaxLength nego)
        then sint (CookieMaxLength nego) else int (length c))"
      have cl: "\<not> cl < 0" "take (nat (sint (CookieMaxLength nego))) c = take (nat cl) c"
        "int (length (take (nat cl) c)) = cl"
        using max by (auto simp: cl_def)
      with Some None show ?thesis
        unfolding start
        by (cases ?nd) (simp_all add: w cookie_prefix_def flip: cl_def)
    next
      case None
      with \<open>RoutingToken nego = None\<close> show ?thesis
        unfolding start by (cases ?nd) (simp_all add: w)
    qed
  qed
qed

lemma nego_transmit_eq: "nego_transmit net nego s = nego_transmitted net nego (packet s)"
  by (simp add: nego_transmit_def nego_transmitted_def not_less)

lemma backfill_sent:
  assumes mem: "length mem = 512" and hdr: "\<And>n. length (hdr n) = 11"
  shows "(case andthen (put (Stream_Seek (Stream_New mem) 11) body len) (\<lambda>len s.
           andthen (put (Stream_SetPosition s 0) (hdr len) ())
             (\<lambda>_ t. Ok () (Stream_SetPosition t (s_pos s)))) of
       Ok _ s \<Rightarrow> Some (nego_transmit net nego (Stream_SealLength s)) | _ \<Rightarrow> None)
    = (if 512 < 11 + length body then None
       else Some (nego_transmitted net nego (hdr len @ body)))"
proof (cases "512 < 11 + length body")
  case True
  then have "body \<noteq> []" by auto
  with True show ?thesis by (simp add: put_after_seek_Overrun mem)
next
  case False
  then show ?thesis
    by (simp add: put_after_seek put_at_front mem hdr nego_transmit_eq packet_def Stream_SetPosition_def Stream_SealLength_def)
qed

lemma ucast_of_nat_u8: "ucast (word_of_nat n :: u16) = (word_of_nat n :: u8)"
  by (rule bit_word_eqI) (auto simp: bit_simps)

lemma x224_packet_eq:
  "tpkt_bytes (word_of_int (11 + int (length body))) @
     tpdu_bytes (code, ucast (word_of_int (11 + int (length body) - 5) :: u16)) @ body
   = x224_packet code body"
  unfolding of_int_len x224_packet_def ucast_of_nat_u8 by simp

lemma nego_send_negotiation_request_eq:
  assumes net: "net_ok net" and max: "0 \<le> sint (CookieMaxLength nego)"
  shows "nego_send_negotiation_request net nego =
    (if 512 < 11 + length (request_token nego @ request_data nego) then None
     else Some (nego_transmitted net nego (nego_request_bytes nego)))"
proof -
  obtain mem where mem: "n_malloc net 512 = Some mem" "length mem = 512"
    using net unfolding net_ok_def by blast
  show ?thesis
    unfolding nego_send_negotiation_request_put [OF mem(1) max]
    by (subst backfill_sent) (simp_all add: mem nego_request_bytes_def x224_packet_eq [symmetric])
qed

definition nego_response_bytes :: "u32 \<Rightarrow> bytes" where
  "nego_response_bytes sp =
     x224_packet 0xD0
       (if sp AND 0x80000000 \<noteq> 0 then nego_data 3 0 (sp AND NOT 0x80000000) else nego_data 2 3 sp)"

lemma nego_send_negotiation_response_eq:
  assumes net: "net_ok net"
  shows "nego_send_negotiation_response net nego settings =
    (let (ok, nego') = nego_transmitted net nego (nego_response_bytes (SelectedProtocol nego))
     in if \<not> ok \<or> SelectedProtocol nego AND 0x80000000 \<noteq> 0 then Some (False, nego', settings)
        else (let (ok, settings') = nego_update_settings nego' settings in Some (ok, nego', settings')))"
proof -
  obtain mem where mem: "n_malloc net 512 = Some mem" "length mem = 512"
    using net unfolding net_ok_def by blast
  have 11: "11 + 8 \<le> length mem" using mem by simp
  let ?sp = "SelectedProtocol nego"
  show ?thesis
  proof (cases "?sp AND 0x80000000 \<noteq> 0")
    case True
    then show ?thesis
      using put_after_seek [of 11 "nego_data 3 0 (?sp AND NOT 0x80000000)" mem "()"]
      by (simp add: nego_send_negotiation_response_def mem Let_def wr_simps nego_data_def le16_def le32_def
          put_at_front nego_response_bytes_def x224_packet_def nego_transmit_eq packet_def
          Stream_SetPosition_def Stream_SealLength_def case_prod_unfold)
  next
    case False
    then show ?thesis
      using put_after_seek [of 11 "nego_data 2 3 ?sp" mem "()"]
      by (simp add: nego_send_negotiation_response_def mem Let_def wr_simps nego_data_def le16_def le32_def
          put_at_front nego_response_bytes_def x224_packet_def nego_transmit_eq packet_def
          Stream_SetPosition_def Stream_SealLength_def case_prod_unfold)
  qed
qed

subsection \<open>Reading the request and the confirm\<close>

lemma x224_code_known:
  assumes "swf s" "avail s = x224_packet code body @ r" "code \<noteq> 0xF0" "length body \<le> 249"
  shows "tpkt_read_header s = Ok (word_of_nat (11 + length body)) (Stream_Seek s 4)"
    and "tpdu_read_header (Stream_Seek s 4) = Ok (code, word_of_nat (6 + length body)) (Stream_Seek s 11)"
    and "avail (Stream_Seek s 11) = body @ r"
    and "unat (word_of_nat (6 + length body) :: u8) = 6 + length body"
proof -
  note a = assms(2) [unfolded x224_packet_def]
  show "tpkt_read_header s = Ok (word_of_nat (11 + length body)) (Stream_Seek s 4)"
    using assms(1) a by (simp add: tpkt.known)
  have "avail (Stream_Seek s 4) = tpdu_bytes (code, word_of_nat (6 + length body)) @ body @ r" "swf (Stream_Seek s 4)"
    using assms(1) a by simp_all
  then show "tpdu_read_header (Stream_Seek s 4) = Ok (code, word_of_nat (6 + length body)) (Stream_Seek s 11)"
    using assms(3) by (simp add: tpdu.known del: avail_Stream_Seek)
  show "avail (Stream_Seek s 11) = body @ r"
    using a assms(3) by simp
  show "unat (word_of_nat (6 + length body) :: u8) = 6 + length body"
    using assms(4) by (simp only: unat_of_nat) simp
qed

lemma crlf_at_first:
  "0x0A \<notin> set c \<Longrightarrow> crlf_at (c @ 0x0D # 0x0A # r) = Some (length c)"
proof (induction c)
  case (Cons a c)
  then show ?case by (cases c) auto
qed simp

definition clean_cookie :: "bytes \<Rightarrow> bool" where
  "clean_cookie c \<longleftrightarrow> 0 \<notin> set c \<and> 0x0A \<notin> set c"

lemma avail_blanked:
  "avail (s\<lparr>s_buffer := (s_buffer s)[s_pos s + n := a, s_pos s + n + 1 := b], s_pos := s_pos s + n + 2\<rparr>)
   = drop (n + 2) (avail s)"
  by (simp add: avail_def take_update_swap add.commute add.left_commute)

lemma read_cookie:
  assumes "swf s" "avail s = cookie_prefix @ c @ 0x0D # 0x0A # r" "clean_cookie c"
  shows "\<exists>t. nego_read_request_token_or_cookie True nego s
             = (True, nego\<lparr>cookie := Some (cookie_prefix @ c)\<rparr>, t)
           \<and> swf t \<and> avail t = r \<and> s_pos t = s_pos s + length c + 19"
proof -
  let ?n = "17 + length c"
  let ?t = "s\<lparr>s_buffer := (s_buffer s)[s_pos s + ?n := 0, s_pos s + ?n + 1 := 0], s_pos := s_pos s + ?n + 2\<rparr>"
  have len: "length cookie_prefix = 17" by (simp add: cookie_prefix_def)
  have at: "crlf_at (drop 17 (avail s)) = Some (length c)"
    using assms(2,3) by (simp add: len crlf_at_first clean_cookie_def)
  have pre: "take 17 (avail s) = cookie_prefix" "take 13 (avail s) = take 13 cookie_prefix"
    using assms(2) by (simp_all add: len)
  have c_str: "takeWhile (\<lambda>b. b \<noteq> 0) (take ?n (avail s)) = cookie_prefix @ c"
  proof -
    have "take ?n (avail s) = cookie_prefix @ c" using assms(2) by (simp add: len)
    moreover have "0 \<notin> set (cookie_prefix @ c)"
      using assms(3) by (simp add: clean_cookie_def cookie_prefix_def)
    ultimately show ?thesis by (simp only: takeWhile_eq_all_conv) blast
  qed
  have "nego_read_request_token_or_cookie True nego s
      = (True, nego\<lparr>cookie := Some (cookie_prefix @ c)\<rparr>, ?t)"
  proof -
    have "length (avail s) \<ge> 19" using assms(2) by (simp add: len)
    moreover have "take 13 (avail s) \<noteq> [0x43, 0x6F, 0x6F, 0x6B, 0x69, 0x65, 0x3A, 0x20,
        0x6D, 0x73, 0x74, 0x73, 0x3D]" using pre(2) by (simp add: cookie_prefix_def)
    moreover note pre(1) [unfolded cookie_prefix_def]
    moreover have "length (cookie_prefix @ c) = ?n" by (simp add: len)
    ultimately show ?thesis
      using assms(1) unfolding nego_read_request_token_or_cookie_def Let_def
      by (simp only: remaining at c_str if_False if_True not_False_eq_True option.case
          nego_set_cookie_def simp_thms linorder_not_less) simp
  qed
  moreover have "avail ?t = r"
    using assms(2) unfolding avail_blanked by (simp add: len)
  moreover have "swf ?t"
  proof -
    have "length (avail s) \<ge> ?n + 2" using assms(2) by (simp add: len)
    with assms(1) show ?thesis by (auto simp: swf_def avail_def)
  qed
  ultimately show ?thesis by (intro exI [of _ ?t]) simp
qed

lemma read_no_cookie:
  "swf s \<Longrightarrow> length (avail s) < 15 \<Longrightarrow> nego_read_request_token_or_cookie ok nego s = (True, nego, s)"
  by (simp add: nego_read_request_token_or_cookie_def)

lemma process_request_known:
  assumes "swf s" "avail s = nego_data 1 fl v @ r"
  shows "\<exists>t. nego_process_negotiation_request nego (Stream_Seek s 1)
     = Ok (nego\<lparr>RequestedProtocols := v, state := NEGO_STATE_FINAL\<rparr>) t"
  using assms
  by (simp add: nego_process_negotiation_request_def nego_data_def read_known)

lemma swf_avail_seek: "swf s \<Longrightarrow> avail (Stream_Seek s n) = b # r \<Longrightarrow> swf (Stream_Seek s n)"
  by (metis avail_Stream_Seek drop_all linorder_not_le list.distinct(1) nat_less_le swf_Stream_Seek)

lemma nego_read_request_known:
  assumes "swf s" "avail s = x224_packet 0xE0 body" "length body \<le> 249"
  shows "nego_read_request ok nego s =
    (let (ok, nego, s) = nego_read_request_token_or_cookie ok nego (Stream_Seek s 11)
     in if \<not> ok then Fail s
        else if Stream_GetRemainingLength s \<ge> 8 then
          andthen (Stream_Read_UINT8 s) (\<lambda>type s.
            if type \<noteq> 1 then Fail s else nego_process_negotiation_request nego s)
        else Ok nego s)"
proof -
  have a: "avail s = x224_packet 0xE0 body @ []" using assms(2) by simp
  note k = x224_code_known [OF assms(1) a _ assms(3), simplified]
  have "swf (Stream_Seek s 11)" "avail (Stream_Seek s 11) = body"
    using assms(1,2) by (simp_all add: x224_packet_def)
  then have r: "Stream_GetRemainingLength (Stream_Seek s 11) = length body"
    by (simp only: remaining)
  have "tpdu_read_connection_request (Stream_Seek s 4)
      = Ok (word_of_nat (6 + length body)) (Stream_Seek s 11)"
    using k(2) by (simp add: tpdu_read_connection_request_def)
  moreover have "unat (word_of_nat (6 + length body) :: u8) = (length body + 6) mod 2 ^ 64"
    using x224_code_known(4) [OF assms(1) a _ assms(3)] assms(3) by simp
  ultimately show ?thesis
    unfolding nego_read_request_def k(1) andthen.simps
    by (simp only: r andthen.simps simp_thms if_False)
qed

definition with_cookie :: "bytes option \<Rightarrow> rdpNego \<Rightarrow> rdpNego" where
  "with_cookie c nego = (case c of None \<Rightarrow> nego | Some c \<Rightarrow> nego\<lparr>cookie := Some (cookie_prefix @ c)\<rparr>)"

text \<open>The server reads back the protocols the client asks for, and its cookie with the prefix.\<close>

lemma request_roundtrip:
  assumes "RoutingToken cl = None" "\<And>c. cookie cl = Some c \<Longrightarrow> clean_cookie c"
    and "length (request_token cl @ request_data cl) \<le> 249"
  shows "\<exists>t. nego_read_request True srv (Stream_New (nego_request_bytes cl)) =
    Ok (let srv = with_cookie (map_option (take (nat (sint (CookieMaxLength cl)))) (cookie cl)) srv
        in if RequestedProtocols cl > 0 \<or> sendNegoData cl
           then srv\<lparr>RequestedProtocols := RequestedProtocols cl, state := NEGO_STATE_FINAL\<rparr> else srv) t"
proof -
  let ?body = "request_token cl @ request_data cl"
  let ?s = "Stream_New (nego_request_bytes cl)"
  have a: "avail ?s = x224_packet 0xE0 ?body" by (simp add: nego_request_bytes_def)
  have "length (x224_packet 0xE0 ?body) < 2 ^ 31" using assms(3) by (simp add: x224_packet_def)
  then have s: "swf ?s" by (simp add: nego_request_bytes_def)
  have s11: "swf (Stream_Seek ?s 11)" "avail (Stream_Seek ?s 11) = ?body"
    using s a by (simp_all add: x224_packet_def)
  have fin: "\<exists>u. (if Stream_GetRemainingLength t \<ge> 8 then
          andthen (Stream_Read_UINT8 t) (\<lambda>type s.
            if type \<noteq> 1 then Fail s else nego_process_negotiation_request n s)
        else Ok n t) = Ok (if RequestedProtocols cl > 0 \<or> sendNegoData cl
           then n\<lparr>RequestedProtocols := RequestedProtocols cl, state := NEGO_STATE_FINAL\<rparr> else n) u"
    if "swf t" "avail t = request_data cl" for t n
  proof (cases "RequestedProtocols cl > 0 \<or> sendNegoData cl")
    case True
    with that(2) have *: "avail t = nego_data 1 (if RestrictedAdminModeRequired cl then 1 else 0) (RequestedProtocols cl) @ []"
      by (simp add: request_data_def)
    then have "Stream_Read_UINT8 t = Ok 1 (Stream_Seek t 1)" by (simp add: nego_data_def read_known)
    moreover have "8 \<le> Stream_GetRemainingLength t" using that(1) * by simp
    ultimately show ?thesis
      using process_request_known [OF that(1) *, of n] True by simp
  next
    case False
    with that show ?thesis by (simp add: request_data_def)
  qed
  show ?thesis
  proof (cases "cookie cl")
    case None
    then have "avail (Stream_Seek ?s 11) = request_data cl"
      using s11(2) assms(1) by (simp add: request_token_def)
    moreover from this have "length (avail (Stream_Seek ?s 11)) < 15"
      by (simp add: request_data_def)
    ultimately show ?thesis
      using fin [of "Stream_Seek ?s 11" srv] s11(1) None
      by (simp add: nego_read_request_known [OF s a assms(3)] read_no_cookie with_cookie_def
          del: avail_Stream_Seek)
  next
    case (Some c)
    let ?c = "take (nat (sint (CookieMaxLength cl))) c"
    have "clean_cookie ?c"
      using assms(2) [OF Some] by (auto simp: clean_cookie_def dest: in_set_takeD)
    moreover have "avail (Stream_Seek ?s 11) = cookie_prefix @ ?c @ 0x0D # 0x0A # request_data cl"
      unfolding s11(2) using assms(1) Some by (simp add: request_token_def)
    ultimately obtain t where "nego_read_request_token_or_cookie True srv (Stream_Seek ?s 11)
        = (True, srv\<lparr>cookie := Some (cookie_prefix @ ?c)\<rparr>, t)" "swf t" "avail t = request_data cl"
      using read_cookie [OF s11(1)] by blast
    moreover from fin [OF this(2,3), of "srv\<lparr>cookie := Some (cookie_prefix @ ?c)\<rparr>"]
    obtain u where "(if Stream_GetRemainingLength t \<ge> 8 then
          andthen (Stream_Read_UINT8 t) (\<lambda>type s.
            if type \<noteq> 1 then Fail s
            else nego_process_negotiation_request (srv\<lparr>cookie := Some (cookie_prefix @ ?c)\<rparr>) s)
        else Ok (srv\<lparr>cookie := Some (cookie_prefix @ ?c)\<rparr>) t)
      = Ok (if RequestedProtocols cl > 0 \<or> sendNegoData cl
           then srv\<lparr>cookie := Some (cookie_prefix @ ?c), RequestedProtocols := RequestedProtocols cl,
                    state := NEGO_STATE_FINAL\<rparr>
           else srv\<lparr>cookie := Some (cookie_prefix @ ?c)\<rparr>) u" by blast
    ultimately show ?thesis
      unfolding nego_read_request_known [OF s a assms(3)]
      by (simp only: Let_def prod.case simp_thms if_False with_cookie_def Some option.map option.case) blast
  qed
qed

text \<open>The client on the server's response.\<close>

lemma tpdu_confirm_known:
  assumes "swf s" "avail s = x224_packet 0xD0 body" "length body \<le> 249"
  shows "tpdu_read_connection_confirm (Stream_Seek s 4)
      = Ok (word_of_nat (6 + length body)) (Stream_Seek s 11)"
proof -
  define li where "li = (word_of_nat (6 + length body) :: u8)"
  have a: "avail s = x224_packet 0xD0 body @ []" using assms(2) by simp
  have "tpdu_read_header (Stream_Seek s 4) = Ok (0xD0, li) (Stream_Seek s 11)"
    unfolding li_def by (rule x224_code_known(2) [OF assms(1) a _ assms(3)]) simp
  moreover have "uint li = 6 + int (length body)"
    unfolding uint_nat li_def by (subst x224_code_known(4) [OF assms(1) a _ assms(3)]) simp_all
  moreover have "swf (Stream_Seek s 11)" "avail (Stream_Seek s 11) = body"
    using assms(1,2) by (simp_all add: x224_packet_def)
  then have "Stream_GetRemainingLength (Stream_Seek s 11) = length body"
    by (simp only: remaining)
  ultimately show ?thesis
    using assms(3) unfolding li_def [symmetric]
    by (simp add: tpdu_read_connection_confirm_def size_of_int_def Let_def)
qed

definition accepts :: "rdpNego \<Rightarrow> u32 \<Rightarrow> bool" where
  "accepts nego sp \<longleftrightarrow>
     (sp = PROTOCOL_RDP \<longrightarrow> EnabledProtocols nego PROTOCOL_RDP) \<and>
     (sp = PROTOCOL_TLS \<longrightarrow> EnabledProtocols nego PROTOCOL_TLS) \<and>
     (sp = PROTOCOL_NLA \<longrightarrow> EnabledProtocols nego PROTOCOL_NLA)"

lemma process_response_known:
  assumes "swf s" "avail s = fl # le16 8 @ le32 sp @ r"
  shows "nego_process_negotiation_response nego s
    = Ok (nego\<lparr>flags := ucast fl, SelectedProtocol := sp, state := NEGO_STATE_FINAL\<rparr>) (Stream_Seek s 7)"
  using assms by (simp add: nego_process_negotiation_response_def read_known)

lemma nego_recv_response_known:
  assumes "sp AND 0x80000000 = 0"
  shows "\<exists>t. nego_recv nego (Stream_New (nego_response_bytes sp)) =
    Ok (nego\<lparr>flags := 3, SelectedProtocol := sp,
            state := (if accepts nego sp then NEGO_STATE_FINAL else NEGO_STATE_FAIL)\<rparr>) t"
proof -
  let ?s = "Stream_New (nego_response_bytes sp)"
  let ?body = "nego_data 2 3 sp"
  have a: "avail ?s = x224_packet 0xD0 ?body" using assms by (simp add: nego_response_bytes_def)
  have s: "swf ?s" using assms by (simp add: nego_response_bytes_def x224_packet_def)
  have b: "length ?body \<le> 249" by simp
  have "tpkt_read_header ?s = Ok 19 (Stream_Seek ?s 4)"
    using x224_code_known(1) [OF s, where code = "0xD0" and body = ?body and r = "[]"] a by simp
  moreover have "tpdu_read_connection_confirm (Stream_Seek ?s 4) = Ok 14 (Stream_Seek ?s 11)"
    using tpdu_confirm_known [OF s a b] by simp
  moreover have d: "avail (Stream_Seek ?s 11) = 2 # 3 # le16 8 @ le32 sp @ []"
    unfolding avail_Stream_Seek a by (simp add: x224_packet_def nego_data_def)
  moreover have "Stream_Read_UINT8 (Stream_Seek ?s 11) = Ok 2 (Stream_Seek ?s 12)"
    using read_known(2) [OF d] by simp
  moreover have "swf (Stream_Seek ?s 12)"
    "avail (Stream_Seek ?s 12) = 3 # le16 8 @ le32 sp @ []"
    using s assms by (simp_all add: nego_response_bytes_def x224_packet_def nego_data_def)
  note process_response_known [OF this, of nego]
  ultimately show ?thesis
    by (auto simp: nego_recv_def accepts_def Let_def simp del: avail_Stream_Seek)
qed

subsection \<open>Memory safety of the negotiation readers\<close>

lemma tpdu_confirm_Ok:
  assumes "swf s" "tpdu_read_connection_confirm s = Ok li t"
  shows "t = Stream_Seek s 7 \<and> (6 < li \<longrightarrow> unat li \<le> 6 + length (avail t)) \<and> 7 \<le> length (avail s)"
proof -
  from assms obtain a b r where "avail s = a # b # r" and t: "t = Stream_Seek s 7" and 7: "7 \<le> length (avail s)"
    and sz: "Stream_GetRemainingLength t \<ge> size_of_int (uint li - 6)"
    by (auto simp: tpdu_read_connection_confirm_def tpdu_read_header_def andthen_Ok_iff Let_def
        Stream_Read_UINT8_def Stream_SafeSeek_def split: if_splits list.splits)
  have "unat li \<le> 6 + length (avail t)" if "6 < li"
  proof -
    have l: "6 < uint li" "uint li < 256"
      using that uint_bounded [of li] by (simp_all add: word_less_def)
    then have "size_of_int (uint li - 6) = nat (uint li - 6)"
      by (simp add: size_of_int_def)
    moreover have "swf t" using t 7 assms(1) by simp
    ultimately have "nat (uint li - 6) \<le> length (avail t)" using sz by (simp only: remaining)
    with l show ?thesis unfolding unat_eq_nat_uint by arith
  qed
  with t 7 show ?thesis by simp
qed

text \<open>
  The client's reader is safe on every confirm but one: a negotiation failure, whose seven further
  bytes nobody has checked.
\<close>

definition short_failure :: "bytes \<Rightarrow> bool" where
  "short_failure bs \<longleftrightarrow> 12 \<le> length bs \<and> length bs < 19 \<and> bs ! 11 = 3"

lemma read_seven:
  assumes "swf s" "7 \<le> length (avail s)"
  obtains a v w where "Stream_Read_UINT8 s = Ok a (Stream_Seek s 1)"
    "Stream_Read_UINT16 (Stream_Seek s 1) = Ok v (Stream_Seek s 3)"
    "Stream_Read_UINT32 (Stream_Seek s 3) = Ok w (Stream_Seek s 7)"
proof -
  obtain b0 b1 b2 b3 b4 b5 b6 r where "avail s = b0 # b1 # b2 # b3 # b4 # b5 # b6 # r"
    using assms(2) by (auto simp: Suc_le_length_iff numeral_eq_Suc)
  then show thesis
    by (intro that) (simp_all add: Stream_Read_UINT8_def Stream_Read_UINT16_def Stream_Read_UINT32_def
        numeral_3_eq_3 [symmetric])
qed

lemma process_failure_inb:
  assumes "swf s" "7 \<le> length (avail s)"
  shows "inb s (nego_process_negotiation_failure nego s)"
  using assms by (rule read_seven) (simp add: nego_process_negotiation_failure_def assms Let_def)

lemma process_request_inb:
  assumes "swf s" "7 \<le> length (avail s)"
  shows "inb s (nego_process_negotiation_request nego s)"
  using assms by (rule read_seven) (simp add: nego_process_negotiation_request_def assms)

lemma process_response_inb:
  assumes "swf s"
  shows "inb s (nego_process_negotiation_response nego s)"
proof (cases "7 \<le> length (avail s)")
  case True
  with assms show ?thesis
    by (rule read_seven) (use assms True in \<open>simp add: nego_process_negotiation_response_def\<close>)
qed (use assms in \<open>simp add: nego_process_negotiation_response_def\<close>)

lemma tpkt_read_header_nonzero:
  "tpkt_read_header s = Ok n t \<Longrightarrow> n \<noteq> 0 \<Longrightarrow> t = Stream_Seek s 4"
  by (auto simp: tpkt_read_header_def andthen_Ok_iff Stream_Peek_UINT8_def Stream_Read_UINT16_BE_def
      split: if_splits list.splits)

lemma nego_recv_inb:
  assumes len: "length bs < 2 ^ 31" "4 \<le> length bs" and ok: "\<not> short_failure bs"
  shows "inb (Stream_New bs) (nego_recv nego (Stream_New bs))"
proof -
  let ?s = "Stream_New bs"
  have swf: "swf ?s" using len by simp
  have h: "inb ?s (tpkt_read_header ?s)" using len swf by (intro inb_intros) simp_all
  show ?thesis
  proof (cases "tpkt_read_header ?s")
    case (Ok n t)
    with h have t: "ahead ?s t" by simp
    have h2: "inb t (tpdu_read_connection_confirm t)" using ahead_swf [OF t] by (rule tpdu_readers_inb)
    show ?thesis
    proof (cases "n = 0 \<or> (\<forall>li u. tpdu_read_connection_confirm t \<noteq> Ok li u)")
      case True
      with t h2 Ok show ?thesis
        by (cases "tpdu_read_connection_confirm t")
          (auto simp: nego_recv_def inb_Fail ahead_swf intro: ahead_trans)
    next
      case False
      then obtain li u where n: "n \<noteq> 0" and u: "tpdu_read_connection_confirm t = Ok li u" by blast
      from tpkt_read_header_nonzero [OF Ok n] tpdu_confirm_Ok [OF ahead_swf [OF t] u] h2 u
      have pos: "u = Stream_Seek ?s 11" and more: "6 < li \<Longrightarrow> 12 \<le> length bs" and su: "ahead t u"
        by (auto simp: word_less_nat_alt)
      have au: "ahead ?s u" using t su by (rule ahead_trans)
      note red = nego_recv_def Ok u n
      show ?thesis
      proof (cases "6 < li")
        case True
        then have 12: "12 \<le> length bs" by (rule more)
        then have "drop 11 bs = bs ! 11 # drop 12 bs" using Cons_nth_drop_Suc [of 11 bs] by simp
        then have ty: "Stream_Read_UINT8 u = Ok (bs ! 11) (Stream_Seek ?s 12)"
          by (simp add: pos read_known)
        have s12: "swf (Stream_Seek ?s 12)" using swf 12 by simp
        have "inb (Stream_Seek ?s 12) (nego_process_negotiation_failure nego (Stream_Seek ?s 12))"
          if "bs ! 11 = 3"
          using ok 12 that s12 by (intro process_failure_inb) (auto simp: short_failure_def)
        moreover note process_response_inb [OF s12, of nego]
        moreover have "ahead ?s (Stream_Seek ?s 12)" using swf 12 by simp
        ultimately show ?thesis
          using True by (auto simp: red ty Let_def s12 ahead_swf intro!: inb_andthen
              intro: inb_trans elim!: inb_trans)
      next
        case False
        with au show ?thesis by (auto simp: red)
      qed
    qed
  qed (use h in \<open>auto simp: nego_recv_def\<close>)
qed

lemma crlf_at_bound: "crlf_at xs = Some i \<Longrightarrow> i + 2 \<le> length xs"
  by (induction xs arbitrary: i rule: crlf_at.induct) (auto split: if_splits)

lemma read_token_swf:
  assumes "swf s" "nego_read_request_token_or_cookie ok nego s = (b, nego', t)"
  shows "swf t"
proof -
  have "s_pos s + (k + i + 2) \<le> s_length s" if "crlf_at (drop k (avail s)) = Some i" for k i
    using crlf_at_bound [OF that] length_avail [OF assms(1)] by simp
  from this [of 13] this [of 17] assms show ?thesis
    by (fastforce simp: nego_read_request_token_or_cookie_def Let_def Stream_SetPosition_def swf_def
        split: if_splits option.splits prod.splits)
qed

lemma nego_read_request_safe:
  assumes "swf s" "4 \<le> length (avail s)"
  shows "nego_read_request ok nego s \<noteq> Overrun"
proof -
  have tail: "(if Stream_GetRemainingLength t \<ge> 8 then
               andthen (Stream_Read_UINT8 t) (\<lambda>type s.
                 if type \<noteq> TYPE_RDP_NEG_REQ then Fail s
                 else nego_process_negotiation_request n s)
             else Ok n t) \<noteq> Overrun" if "swf t" for t n
  proof (cases "length (avail t) \<ge> 8")
    case True
    then obtain a r where "avail t = a # r" by (cases "avail t") auto
    moreover have "swf (Stream_Seek t 1)" "7 \<le> length (avail (Stream_Seek t 1))" using that True by simp_all
    ultimately show ?thesis
      using process_request_inb [of "Stream_Seek t 1" n] that True by (auto simp: read_known)
  qed (use that in simp)
  consider n t where "tpkt_read_header s = Ok n t" "swf t" | t where "tpkt_read_header s = Fail t"
    using tpkt_read_header_inb [OF assms] by (cases "tpkt_read_header s") (auto dest: ahead_swf)
  then show ?thesis
  proof cases
    case 1
    from tpdu_readers_inb(1) [OF 1(2)] show ?thesis
    proof (cases "tpdu_read_connection_request t")
      case (Ok li u)
      with tpdu_readers_inb(1) [OF 1(2)] have "swf u" by (auto dest: ahead_swf)
      then show ?thesis
        using 1 Ok tail read_token_swf [OF \<open>swf u\<close>]
        by (auto simp: nego_read_request_def split: prod.splits)
    qed (auto simp: 1 nego_read_request_def)
  qed (simp add: nego_read_request_def)
qed

subsection \<open>What an attempt can change\<close>

definition same_config :: "rdpNego \<Rightarrow> rdpNego \<Rightarrow> bool" where
  "same_config n n' \<longleftrightarrow>
     EnabledProtocols n' = EnabledProtocols n \<and> NegotiateSecurityLayer n' = NegotiateSecurityLayer n \<and>
     RoutingToken n' = RoutingToken n \<and> cookie n' = cookie n \<and> CookieMaxLength n' = CookieMaxLength n"

text \<open>The protocol in force when a negotiation ends is one the client enabled, or RDP is enabled.\<close>

definition chosen :: "rdpNego \<Rightarrow> bool" where
  "chosen n \<longleftrightarrow>
     EnabledProtocols n PROTOCOL_RDP \<or>
     SelectedProtocol n \<noteq> PROTOCOL_RDP \<and>
     (SelectedProtocol n = PROTOCOL_TLS \<longrightarrow> EnabledProtocols n PROTOCOL_TLS) \<and>
     (SelectedProtocol n = PROTOCOL_NLA \<longrightarrow> EnabledProtocols n PROTOCOL_NLA)"

lemma same_config_refl [simp]: "same_config n n"
  and same_config_trans: "same_config n n' \<Longrightarrow> same_config n' n'' \<Longrightarrow> same_config n n''"
  by (simp_all add: same_config_def)

definition outcome_of :: "rdpNego \<Rightarrow> rdpNego \<Rightarrow> bool" where
  \<comment> \<open>What processing a confirm may do to the state.\<close>
  "outcome_of n n' \<longleftrightarrow>
     n' = n \<or> n' = n\<lparr>state := NEGO_STATE_FAIL\<rparr> \<or> n' = n\<lparr>sendNegoData := True, state := NEGO_STATE_FAIL\<rparr> \<or>
     n' = n\<lparr>state := NEGO_STATE_FINAL\<rparr> \<and> EnabledProtocols n PROTOCOL_RDP \<or>
     (\<exists>fl sp. n' = n\<lparr>flags := fl, SelectedProtocol := sp,
        state := (if accepts n sp then NEGO_STATE_FINAL else NEGO_STATE_FAIL)\<rparr>)"

lemma process_failure_Ok:
  "nego_process_negotiation_failure n s = Ok n' t \<Longrightarrow>
   n' = n\<lparr>state := NEGO_STATE_FAIL\<rparr> \<or> n' = n\<lparr>sendNegoData := True, state := NEGO_STATE_FAIL\<rparr>"
  by (auto simp: nego_process_negotiation_failure_def andthen_Ok_iff Let_def)

lemma process_response_Ok:
  "nego_process_negotiation_response n s = Ok n' t \<Longrightarrow>
   n' = n\<lparr>state := NEGO_STATE_FAIL\<rparr> \<or>
   (\<exists>fl sp. n' = n\<lparr>flags := fl, SelectedProtocol := sp, state := NEGO_STATE_FINAL\<rparr>)"
  by (auto simp: nego_process_negotiation_response_def andthen_Ok_iff split: if_splits)

definition checked :: "rdpNego \<Rightarrow> rdpNego" where
  \<comment> \<open>The checks of \<open>nego_recv\<close> after a response.\<close>
  "checked n = (if accepts n (SelectedProtocol n) then n else n\<lparr>state := NEGO_STATE_FAIL\<rparr>)"

lemma checked_code:
  "(if SelectedProtocol n \<noteq> 0 then
      (let n = (if SelectedProtocol n = 2 \<and> \<not> EnabledProtocols n 2 then n\<lparr>state := NEGO_STATE_FAIL\<rparr> else n);
           n = (if SelectedProtocol n = 1 \<and> \<not> EnabledProtocols n 1 then n\<lparr>state := NEGO_STATE_FAIL\<rparr> else n)
       in Ok n s)
    else if \<not> EnabledProtocols n 0 then Ok (n\<lparr>state := NEGO_STATE_FAIL\<rparr>) s else Ok n s) = Ok (checked n) s"
  by (auto simp: checked_def accepts_def Let_def)

lemma if_Ok: "(if c then a else b) = Ok x t \<longleftrightarrow> c \<and> a = Ok x t \<or> \<not> c \<and> b = Ok x t"
  by simp

lemma nego_recv_outcome:
  assumes "nego_recv n s = Ok n' t"
  shows "outcome_of n n'"
proof -
  have resp: "outcome_of n (checked m)" if "nego_process_negotiation_response n u = Ok m v" for m u v
    using process_response_Ok [OF that]
  proof (elim disjE exE)
    fix fl sp assume "m = n\<lparr>flags := fl, SelectedProtocol := sp, state := NEGO_STATE_FINAL\<rparr>"
    then have "checked m = n\<lparr>flags := fl, SelectedProtocol := sp,
        state := (if accepts n sp then NEGO_STATE_FINAL else NEGO_STATE_FAIL)\<rparr>"
      by (simp add: checked_def accepts_def)
    then show ?thesis unfolding outcome_of_def by blast
  qed (simp add: checked_def outcome_of_def)
  have fail: "outcome_of n m" if "nego_process_negotiation_failure n u = Ok m v" for m u v
    using process_failure_Ok [OF that] by (auto simp: outcome_of_def)
  have rest: "outcome_of m m" "outcome_of n (n\<lparr>state := NEGO_STATE_FAIL\<rparr>)"
    "EnabledProtocols n 0 \<Longrightarrow> outcome_of n (n\<lparr>state := NEGO_STATE_FINAL\<rparr>)" for m
    by (simp_all add: outcome_of_def)
  show ?thesis
    using assms unfolding nego_recv_def checked_code if_Ok andthen_Ok_iff res.inject res.distinct simp_thms
    by - (elim exE conjE disjE; auto dest: resp fail simp: rest)
qed

lemma nego_recv_result:
  assumes "nego_recv n s = Ok n' t"
  shows "same_config n n' \<and> SecurityConnected n' = SecurityConnected n \<and> TcpConnected n' = TcpConnected n
    \<and> (state n' = NEGO_STATE_FINAL \<and> state n \<noteq> NEGO_STATE_FINAL \<longrightarrow> chosen n')
    \<and> state n' \<in> {state n, NEGO_STATE_FAIL, NEGO_STATE_FINAL}"
  using nego_recv_outcome [OF assms] unfolding outcome_of_def
  by (elim disjE conjE exE) (auto simp: same_config_def chosen_def accepts_def)

lemma nego_transmit_result:
  "nego_transmit net n s = (ok, n') \<Longrightarrow>
   same_config n n' \<and> SecurityConnected n' = SecurityConnected n \<and> TcpConnected n' = TcpConnected n \<and> state n' = state n"
  by (auto simp: nego_transmit_def log_event_def same_config_def)

lemma nego_tcp_connect_result:
  assumes "nego_tcp_connect net n = (ok, n')"
  shows "same_config n n' \<and> SecurityConnected n' = SecurityConnected n \<and> state n' = state n \<and>
    (ok \<longleftrightarrow> TcpConnected n')"
  using assms by (auto simp: nego_tcp_connect_def nego_dial_def log_event_def same_config_def Let_def split: if_splits)

lemma case_res_Some:
  "(case r of Ok a s \<Rightarrow> Some (f s) | Fail u \<Rightarrow> None | Overrun \<Rightarrow> None) = Some y \<longleftrightarrow> (\<exists>a s. r = Ok a s \<and> y = f s)"
  by (cases r) auto

lemma nego_send_negotiation_request_result:
  assumes "nego_send_negotiation_request net n = Some (ok, n')"
  shows "same_config n n' \<and> SecurityConnected n' = SecurityConnected n \<and> TcpConnected n' = TcpConnected n \<and> state n' = state n"
proof (cases "n_malloc net 512")
  case None
  with assms show ?thesis by (simp add: nego_send_negotiation_request_def)
next
  case (Some mem)
  with assms obtain s where "(ok, n') = nego_transmit net n s"
    unfolding nego_send_negotiation_request_def Let_def by (simp only: option.case case_res_Some) blast
  then show ?thesis by (rule nego_transmit_result [OF sym])
qed

lemma nego_recv_response_result:
  assumes "nego_recv_response net n = Some (ok, n')"
  shows "same_config n n' \<and> SecurityConnected n' = SecurityConnected n \<and> TcpConnected n' = TcpConnected n
    \<and> (ok \<and> state n' = NEGO_STATE_FINAL \<and> state n \<noteq> NEGO_STATE_FINAL \<longrightarrow> chosen n')
    \<and> state n' \<in> {state n, NEGO_STATE_FAIL, NEGO_STATE_FINAL}
    \<and> (ok \<longrightarrow> (\<exists>bs m t. n_read_pdu net (transport n) = Some bs \<and> nego_recv m (Stream_New bs) = Ok n' t))"
proof -
  have log: "same_config n (log_event e n)" "SecurityConnected (log_event e n) = SecurityConnected n"
    "TcpConnected (log_event e n) = TcpConnected n" "state (log_event e n) = state n" for e
    by (simp_all add: log_event_def same_config_def)
  let ?n = "log_event (Received (n_read_pdu net (transport n))) n"
  consider "\<not> ok" "n' = n" | "\<not> ok" "n' = ?n"
    | bs t where "ok" "n_read_pdu net (transport n) = Some bs" "nego_recv ?n (Stream_New bs) = Ok n' t"
    using assms by (auto simp: nego_recv_response_def Let_def split: option.splits res.splits)
  then show ?thesis
  proof cases
    case 3
    with nego_recv_result [OF 3(3)] show ?thesis
      unfolding log using same_config_trans [OF log(1)] by blast
  qed (simp_all add: log)
qed

lemma nego_exchange_result:
  assumes "nego_exchange net n = Some (ok, n')" "NegotiateSecurityLayer n"
  shows "same_config n n' \<and> SecurityConnected n' = SecurityConnected n
    \<and> (ok \<and> state n' = NEGO_STATE_FINAL \<and> state n \<noteq> NEGO_STATE_FINAL \<longrightarrow> chosen n')
    \<and> (\<not> ok \<longrightarrow> state n' = NEGO_STATE_FAIL)
    \<and> state n' \<in> {state n, NEGO_STATE_FAIL, NEGO_STATE_FINAL}
    \<and> (ok \<longrightarrow> (\<exists>tr bs m t. n_read_pdu net tr = Some bs \<and> nego_recv m (Stream_New bs) = Ok n' t))"
proof -
  obtain ok1 n1 where 1: "nego_tcp_connect net n = (ok1, n1)" by fastforce
  note r1 = nego_tcp_connect_result [OF 1]
  then have t: "nego_transport_connect net n = (ok1, n1)"
    using assms(2) by (simp add: nego_transport_connect_def 1 same_config_def)
  show ?thesis
  proof (cases ok1)
    case True
    then obtain ok2 n2 where 2: "nego_send_negotiation_request net n1 = Some (ok2, n2)"
      using assms(1) t by (auto simp: nego_exchange_def split: option.splits)
    note r2 = nego_send_negotiation_request_result [OF 2]
    show ?thesis
    proof (cases ok2)
      case True
      then obtain ok3 n3 where 3: "nego_recv_response net n2 = Some (ok3, n3)"
        using assms(1) t 2 \<open>ok1\<close> by (auto simp: nego_exchange_def split: option.splits)
      with nego_recv_response_result [OF 3] r1 r2 True \<open>ok1\<close> assms(1) t 2 show ?thesis
        by (cases ok3) (auto simp: nego_exchange_def same_config_def)
    next
      case False
      with r1 r2 \<open>ok1\<close> assms(1) t 2 show ?thesis
        by (auto simp: nego_exchange_def same_config_def)
    qed
  next
    case False
    with r1 assms(1) t show ?thesis by (auto simp: nego_exchange_def same_config_def)
  qed
qed

subsection \<open>The loop: what it chooses, and that it ends\<close>

definition secured_later :: "rdpNego \<Rightarrow> bool" where
  "secured_later n \<longleftrightarrow> NegotiateSecurityLayer n \<and> \<not> SecurityConnected n"

fun attempts_left :: "NEGO_STATE \<Rightarrow> nat" where
  "attempts_left NEGO_STATE_EXT = 4"
| "attempts_left NEGO_STATE_NLA = 3"
| "attempts_left NEGO_STATE_TLS = 2"
| "attempts_left NEGO_STATE_RDP = 1"
| "attempts_left _ = 0"

lemma disconnect_simps [simp]:
  "EnabledProtocols (snd (nego_transport_disconnect n)) = EnabledProtocols n"
  "NegotiateSecurityLayer (snd (nego_transport_disconnect n)) = NegotiateSecurityLayer n"
  "RoutingToken (snd (nego_transport_disconnect n)) = RoutingToken n"
  "cookie (snd (nego_transport_disconnect n)) = cookie n"
  "CookieMaxLength (snd (nego_transport_disconnect n)) = CookieMaxLength n"
  "\<not> SecurityConnected (snd (nego_transport_disconnect n))"
  by (simp_all add: nego_transport_disconnect_def Let_def log_event_def)

lemmas attempt_defs = nego_attempt_ext_def nego_attempt_nla_def nego_attempt_tls_def nego_attempt_rdp_def

lemma nego_send_exchange:
  assumes "nego_send net n = Some n'" "0 < attempts_left (state n)"
  obtains rp ok m where "nego_exchange net (n\<lparr>RequestedProtocols := rp\<rparr>) = Some (ok, m)"
    "n' = m \<or> ok \<and> state m \<noteq> NEGO_STATE_FINAL \<and>
      (\<exists>st. n' = (snd (nego_transport_disconnect m))\<lparr>state := st\<rparr> \<and> st \<notin> {NEGO_STATE_FINAL, NEGO_STATE_INITIAL} \<and>
            attempts_left st < attempts_left (state n))"
    "state n \<noteq> NEGO_STATE_RDP \<Longrightarrow> ok \<Longrightarrow> state n' \<noteq> state n"
    "\<not> ok \<Longrightarrow> n' = m"
proof (cases "state n")
  case NEGO_STATE_EXT
  with assms(1) that show ?thesis
    by (simp add: nego_send_def nego_attempt_ext_def Let_def split: option.splits if_splits prod.splits) fastforce+
next
  case NEGO_STATE_NLA
  with assms(1) that show ?thesis
    by (simp add: nego_send_def nego_attempt_nla_def Let_def split: option.splits if_splits prod.splits) fastforce+
next
  case NEGO_STATE_TLS
  with assms(1) that show ?thesis
    by (simp add: nego_send_def nego_attempt_tls_def Let_def split: option.splits if_splits prod.splits) fastforce+
next
  case NEGO_STATE_RDP
  with assms(1) that show ?thesis
    by (auto simp: nego_send_def nego_attempt_rdp_def)
qed (use assms(2) in simp_all)

lemma nego_send_result:
  assumes "nego_send net n = Some n'" "0 < attempts_left (state n)" "secured_later n"
  shows "same_config n n' \<and> secured_later n' \<and> (state n' = NEGO_STATE_FINAL \<longrightarrow> chosen n')
    \<and> (state n' = state n \<longrightarrow> state n = NEGO_STATE_RDP) \<and> state n' \<noteq> NEGO_STATE_INITIAL
    \<and> (attempts_left (state n') < attempts_left (state n) \<or> state n' = state n)"
proof -
  obtain rp ok m where ex: "nego_exchange net (n\<lparr>RequestedProtocols := rp\<rparr>) = Some (ok, m)"
    and n': "n' = m \<or> ok \<and> state m \<noteq> NEGO_STATE_FINAL \<and>
      (\<exists>st. n' = (snd (nego_transport_disconnect m))\<lparr>state := st\<rparr> \<and> st \<notin> {NEGO_STATE_FINAL, NEGO_STATE_INITIAL} \<and>
            attempts_left st < attempts_left (state n))"
    and moved: "state n \<noteq> NEGO_STATE_RDP \<Longrightarrow> ok \<Longrightarrow> state n' \<noteq> state n" "\<not> ok \<Longrightarrow> n' = m"
    using nego_send_exchange [OF assms(1,2)] by metis
  have ns: "state n \<noteq> NEGO_STATE_INITIAL" "state n \<noteq> NEGO_STATE_FINAL" "state n \<noteq> NEGO_STATE_FAIL" using assms(2) by auto
  have r: "same_config n m \<and> SecurityConnected m = SecurityConnected n
    \<and> (ok \<and> state m = NEGO_STATE_FINAL \<longrightarrow> chosen m) \<and> (\<not> ok \<longrightarrow> state m = NEGO_STATE_FAIL)
    \<and> state m \<in> {state n, NEGO_STATE_FAIL, NEGO_STATE_FINAL}"
    using nego_exchange_result [OF ex] assms(3) ns by (auto simp: same_config_def secured_later_def)
  from n' show ?thesis
  proof (elim disjE conjE exE)
    assume "n' = m"
    with r assms(2,3) moved ns show ?thesis
      by (cases ok) (auto simp: same_config_def secured_later_def)
  next
    fix st assume *: "n' = (snd (nego_transport_disconnect m))\<lparr>state := st\<rparr>"
      "st \<notin> {NEGO_STATE_FINAL, NEGO_STATE_INITIAL}" "attempts_left st < attempts_left (state n)"
    with r assms(3) have "same_config n n'" "secured_later n'"
      by (simp_all add: same_config_def secured_later_def)
    with * show ?thesis by auto
  qed
qed

text \<open>
  An answer the client understands: it carries no negotiation data, or a response, or a failure.
\<close>

definition known_answer :: "bytes \<Rightarrow> bool" where
  "known_answer bs \<longleftrightarrow> \<not> (12 \<le> length bs \<and> 6 < bs ! 4 \<and> bs ! 11 \<noteq> 2 \<and> bs ! 11 \<noteq> 3)"

lemma tpdu_confirm_li:
  assumes "tpdu_read_connection_confirm s = Ok li t"
  shows "avail s \<noteq> [] \<and> li = hd (avail s) \<and> t = Stream_Seek s 7"
  using assms
  by (auto simp: tpdu_read_connection_confirm_def tpdu_read_header_def andthen_Ok_iff Let_def
      Stream_Read_UINT8_def Stream_SafeSeek_def split: if_splits list.splits)

lemma checked_state: "state n \<in> {NEGO_STATE_FAIL, NEGO_STATE_FINAL} \<Longrightarrow> state (checked n) \<in> {NEGO_STATE_FAIL, NEGO_STATE_FINAL}"
  by (auto simp: checked_def)

lemma nego_recv_known_answer:
  assumes "nego_recv n (Stream_New bs) = Ok n' t" "known_answer bs"
  shows "state n' \<in> {NEGO_STATE_FAIL, NEGO_STATE_FINAL}"
proof -
  let ?s = "Stream_New bs"
  have resp: "state (checked m) \<in> {NEGO_STATE_FAIL, NEGO_STATE_FINAL}"
    if "nego_process_negotiation_response n u = Ok m v" for m u v
    using process_response_Ok [OF that] by (intro checked_state) auto
  have fail: "state m = NEGO_STATE_FAIL" if "nego_process_negotiation_failure n u = Ok m v" for m u v
    using process_failure_Ok [OF that] by auto
  obtain len u li v where u: "tpkt_read_header ?s = Ok len u" "len \<noteq> 0"
    "tpdu_read_connection_confirm u = Ok li v"
    using assms(1) unfolding nego_recv_def if_Ok andthen_Ok_iff by auto
  have "u = Stream_Seek ?s 4" using tpkt_read_header_nonzero [OF u(1,2)] .
  with tpdu_confirm_li [OF u(3)] have li: "4 < length bs" "li = bs ! 4" and v: "v = Stream_Seek u 7"
    by (auto simp: hd_drop_conv_nth not_le)
  show ?thesis
  proof (cases "6 < li")
    case True
    then obtain ty w where ty: "Stream_Read_UINT8 v = Ok ty w"
      using assms(1) u unfolding nego_recv_def checked_code if_Ok andthen_Ok_iff by auto
    have "v = Stream_Seek ?s 11" using v \<open>u = Stream_Seek ?s 4\<close> by simp
    with ty obtain r where "drop 11 bs = ty # r"
      by (auto simp: Stream_Read_UINT8_def split: list.splits)
    moreover from this have "\<not> length bs \<le> 11" by auto
    ultimately have "12 \<le> length bs" "ty = bs ! 11"
      using nth_via_drop [of 11 bs ty r] by simp_all
    with True li assms(2) have "ty = 2 \<or> ty = 3" by (auto simp: known_answer_def)
    with assms(1) u True ty show ?thesis
      unfolding nego_recv_def checked_code
      by (auto simp: andthen_Ok_iff dest: resp fail)
  next
    case False
    with assms(1) u show ?thesis
      unfolding nego_recv_def checked_code by (auto split: if_splits)
  qed
qed


definition answers_known :: "net \<Rightarrow> bool" where
  "answers_known net \<longleftrightarrow> (\<forall>tr bs. n_read_pdu net tr = Some bs \<longrightarrow> known_answer bs)"

lemma nego_send_progress:
  assumes "nego_send net n = Some n'" "0 < attempts_left (state n)" "NegotiateSecurityLayer n" "\<not> SecurityConnected n"
    and known: "answers_known net"
  shows "attempts_left (state n') < attempts_left (state n)"
proof -
  have sl: "secured_later n" using assms(3,4) by (simp add: secured_later_def)
  show ?thesis
  proof (rule ccontr)
    assume "\<not> ?thesis"
    with nego_send_result [OF assms(1,2) sl] have rdp: "state n' = NEGO_STATE_RDP" "state n = NEGO_STATE_RDP"
      by auto
    then obtain ok where "nego_exchange net (n\<lparr>RequestedProtocols := PROTOCOL_RDP\<rparr>) = Some (ok, n')"
      using assms(1) by (auto simp: nego_send_def nego_attempt_rdp_def)
    with nego_exchange_result [OF this] rdp assms(3)
    obtain tr bs m t where "n_read_pdu net tr = Some bs" "nego_recv m (Stream_New bs) = Ok n' t"
      by auto
    with nego_recv_known_answer known rdp(1) show False
      by (fastforce simp: answers_known_def)
  qed
qed

lemma nego_loop_ends:
  assumes "0 < attempts_left (state n)" "attempts_left (state n) \<le> fuel" "secured_later n" "answers_known net"
  shows "nego_loop fuel net n \<noteq> Loop_fuel"
  using assms(1-3)
proof (induction fuel arbitrary: n)
  case (Suc fuel)
  show ?case
  proof (cases "nego_send net n")
    case (Some n')
    note r = nego_send_result [OF Some Suc.prems(1,3)]
    have less: "attempts_left (state n') < attempts_left (state n)"
      using nego_send_progress [OF Some Suc.prems(1)] Suc.prems(3) assms(4) by (simp add: secured_later_def)
    show ?thesis
    proof (cases "attempts_left (state n') = 0")
      case True
      with r Some show ?thesis by (cases "state n'") auto
    next
      case False
      with Suc.IH [of n'] r less Suc.prems(2) Some show ?thesis by (cases "state n'") auto
    qed
  qed simp
qed simp

lemma nego_loop_chosen:
  assumes "nego_loop fuel net n = Loop_done (True, n')" "0 < attempts_left (state n)" "secured_later n"
  shows "same_config n n' \<and> secured_later n' \<and> chosen n' \<and> state n' = NEGO_STATE_FINAL"
  using assms
proof (induction fuel arbitrary: n)
  case (Suc fuel)
  then obtain m where m: "nego_send net n = Some m" by (auto split: option.splits)
  note r = nego_send_result [OF m Suc.prems(2,3)]
  show ?case
  proof (cases "state m \<in> {NEGO_STATE_FAIL, NEGO_STATE_FINAL}")
    case True
    with r m Suc.prems(1) show ?thesis by auto
  next
    case False
    then have "0 < attempts_left (state m)" "nego_loop fuel net m = Loop_done (True, n')"
      using r m Suc.prems(1) by (cases "state m"; auto)+
    with Suc.IH [of m] r show ?thesis by (auto intro: same_config_trans)
  qed
qed simp

definition nego_start :: "net \<Rightarrow> rdpNego \<Rightarrow> (bool \<times> rdpNego) option" where
  \<comment> \<open>\<open>nego_connect\<close> before its loop.\<close>
  "nego_start net nego =
     (if state nego = NEGO_STATE_INITIAL then
           (let nego = nego_choose nego
            in if state nego = NEGO_STATE_FAIL then Some (False, nego)
               else if SendPreconnectionPdu nego then
                 (case nego_send_preconnection_pdu net nego of
                    None \<Rightarrow> None
                  | Some (ok, nego) \<Rightarrow>
                      Some (if ok then (True, nego) else (False, nego\<lparr>state := NEGO_STATE_FINAL\<rparr>)))
               else Some (True, nego))
         else Some (True, nego))"

lemma nego_connect_start:
  "nego_connect fuel net nego settings =
     (case nego_start net nego of
        None \<Rightarrow> Loop_crash
      | Some (ok, nego) \<Rightarrow>
          if \<not> ok then Loop_done (False, nego, settings)
          else
            (case nego_loop fuel net nego of
               Loop_fuel \<Rightarrow> Loop_fuel
             | Loop_crash \<Rightarrow> Loop_crash
             | Loop_done (ok, nego) \<Rightarrow>
                 Loop_done (if ok then nego_finish net nego settings else (False, nego, settings))))"
  by (simp only: nego_connect_def nego_start_def Let_def)

lemma nego_choose_result:
  assumes "NegotiateSecurityLayer n" "state (nego_choose n) \<noteq> NEGO_STATE_FAIL"
  shows "same_config n (nego_choose n) \<and> 0 < attempts_left (state (nego_choose n)) \<and>
    attempts_left (state (nego_choose n)) \<le> 4 \<and> SecurityConnected (nego_choose n) = SecurityConnected n"
  using assms by (auto simp: nego_choose_def Let_def same_config_def split: if_splits)

lemma nego_send_preconnection_pdu_result:
  assumes "nego_send_preconnection_pdu net n = Some (ok, n')"
  shows "same_config n n' \<and> SecurityConnected n' = SecurityConnected n \<and> state n' = state n"
proof -
  obtain b m where m: "nego_tcp_connect net n = (b, m)" by fastforce
  note r = nego_tcp_connect_result [OF m]
  have "n' = m \<or> (\<exists>s. nego_transmit net m s = (ok, n'))"
    using assms by (auto simp: nego_send_preconnection_pdu_def m Let_def split: if_splits option.splits res.splits)
  with r show ?thesis by (auto dest!: nego_transmit_result intro: same_config_trans)
qed

lemma nego_start_result:
  assumes "nego_start net n = Some (True, n')" "state n = NEGO_STATE_INITIAL" "secured_later n"
  shows "same_config n n' \<and> secured_later n' \<and> 0 < attempts_left (state n') \<and> attempts_left (state n') \<le> 4"
proof -
  have ns: "NegotiateSecurityLayer n" "\<not> SecurityConnected n" using assms(3) by (simp_all add: secured_later_def)
  have nf: "state (nego_choose n) \<noteq> NEGO_STATE_FAIL"
    using assms(1,2) by (auto simp: nego_start_def Let_def)
  note r = nego_choose_result [OF ns(1) nf]
  have "n' = nego_choose n \<or> nego_send_preconnection_pdu net (nego_choose n) = Some (True, n')"
    using assms(1,2) nf by (auto simp: nego_start_def Let_def split: if_splits option.splits)
  then show ?thesis
  proof
    assume "nego_send_preconnection_pdu net (nego_choose n) = Some (True, n')"
    from nego_send_preconnection_pdu_result [OF this] r ns show ?thesis
      by (auto simp: same_config_def secured_later_def)
  qed (use r ns in \<open>auto simp: same_config_def secured_later_def\<close>)
qed

lemma nego_finish_secured:
  assumes "nego_finish net n settings = (True, n', settings')" "\<not> SecurityConnected n"
  shows "SelectedProtocol n' \<in> {PROTOCOL_RDP, PROTOCOL_TLS, PROTOCOL_NLA} \<and>
    EnabledProtocols n' = EnabledProtocols n \<and> SelectedProtocol n' = SelectedProtocol n \<and>
    hd (transport n') = Secure (SelectedProtocol n') True \<and>
    set_SelectedProtocol settings' = SelectedProtocol n'"
  using assms
  by (auto simp: nego_finish_def nego_security_connect_def Let_def log_event_def split: if_splits)

lemma nego_connect_chosen:
  assumes "nego_connect fuel net n settings = Loop_done (True, n', settings')"
    and "state n = NEGO_STATE_INITIAL" "secured_later n"
  shows "EnabledProtocols n' = EnabledProtocols n \<and> chosen n'
    \<and> SelectedProtocol n' \<in> {PROTOCOL_RDP, PROTOCOL_TLS, PROTOCOL_NLA}
    \<and> hd (transport n') = Secure (SelectedProtocol n') True
    \<and> set_SelectedProtocol settings' = SelectedProtocol n'"
proof -
  from assms(1) obtain m l where s: "nego_start net n = Some (True, m)"
    and l: "nego_loop fuel net m = Loop_done (True, l)"
    and f: "nego_finish net l settings = (True, n', settings')"
    by (auto simp: nego_connect_start split: option.splits if_splits loop.splits)
  note 1 = nego_start_result [OF s assms(2,3)]
  with nego_loop_chosen [OF l] have 2: "same_config n l" "secured_later l" "chosen l"
    by (auto intro: same_config_trans)
  with nego_finish_secured [OF f] show ?thesis
    by (auto simp: same_config_def secured_later_def chosen_def)
qed

lemma nego_connect_ends:
  assumes "state n = NEGO_STATE_INITIAL" "secured_later n" "answers_known net" "4 \<le> fuel"
  shows "nego_connect fuel net n settings \<noteq> Loop_fuel"
proof (cases "nego_start net n")
  case (Some p)
  show ?thesis
  proof (cases "fst p")
    case True
    with Some obtain m where s: "nego_start net n = Some (True, m)" by (cases p) auto
    from nego_start_result [OF s assms(1,2)] nego_loop_ends [of m fuel net] assms(3,4)
    show ?thesis by (auto simp: nego_connect_start s split: loop.splits)
  qed (use Some in \<open>cases p; simp add: nego_connect_start\<close>)
qed (simp add: nego_connect_start)

subsection \<open>A server that never says what it means\<close>

text \<open>
  In the RDP state an answer with an unknown type leaves the client where it is: it sends the same
  request again, on the same connection, as long as the server keeps answering like this.
\<close>

definition puzzled :: "rdpNego \<Rightarrow> bool" where
  "puzzled n \<longleftrightarrow> state n = NEGO_STATE_RDP \<and> NegotiateSecurityLayer n \<and> TcpConnected n \<and>
     0 \<le> sint (CookieMaxLength n) \<and> length (request_token n) \<le> 493"

definition puzzling :: "net \<Rightarrow> bool" where
  "puzzling net \<longleftrightarrow> net_ok net \<and> (\<forall>tr bs. 0 \<le> n_write net tr bs) \<and>
     (\<forall>tr. n_read_pdu net tr = Some (x224_packet 0xD0 (nego_data 4 0 0)))"

lemma nego_recv_unknown:
  "\<exists>t. nego_recv n (Stream_New (x224_packet 0xD0 (nego_data 4 0 0))) = Ok n t"
proof -
  let ?body = "nego_data 4 0 0" and ?bs = "x224_packet 0xD0 (nego_data 4 0 0)"
  let ?s = "Stream_New ?bs"
  have s: "swf ?s" by (simp add: x224_packet_def)
  have "tpkt_read_header ?s = Ok 19 (Stream_Seek ?s 4)"
    using x224_code_known(1) [OF s, where code = "0xD0" and body = ?body and r = "[]"] by simp
  moreover have "tpdu_read_connection_confirm (Stream_Seek ?s 4) = Ok 14 (Stream_Seek ?s 11)"
    using tpdu_confirm_known [OF s] by simp
  moreover have "avail (Stream_Seek ?s 11) = 4 # tl ?body"
    by (simp add: x224_packet_def nego_data_def)
  then have "Stream_Read_UINT8 (Stream_Seek ?s 11) = Ok 4 (Stream_Seek ?s 12)"
    using read_known(2) by fastforce
  ultimately show ?thesis by (simp add: nego_recv_def)
qed

lemma request_token_cong:
  "RoutingToken n' = RoutingToken n \<Longrightarrow> cookie n' = cookie n \<Longrightarrow> CookieMaxLength n' = CookieMaxLength n \<Longrightarrow>
   request_token n' = request_token n"
  by (simp add: request_token_def cong: option.case_cong)

lemma puzzled_send:
  assumes "puzzled n" "puzzling net"
  shows "\<exists>n'. nego_send net n = Some n' \<and> puzzled n'"
proof -
  let ?n = "n\<lparr>RequestedProtocols := PROTOCOL_RDP\<rparr>"
  have tok: "request_token ?n = request_token n" by (rule request_token_cong) simp_all
  have "length (request_data ?n) \<le> 8" by (simp add: request_data_def)
  then have fits: "\<not> 512 < 11 + length (request_token ?n @ request_data ?n)"
    using assms(1) unfolding tok by (simp add: puzzled_def)
  let ?n1 = "log_event (Sent (nego_request_bytes ?n)) ?n"
  have conn: "nego_transport_connect net ?n = (True, ?n)"
    using assms(1) by (simp add: nego_transport_connect_def nego_tcp_connect_def puzzled_def)
  have send: "nego_send_negotiation_request net ?n = Some (True, ?n1)"
    using assms fits nego_send_negotiation_request_eq [of net ?n]
    by (simp add: puzzled_def puzzling_def nego_transmitted_def)
  obtain mem where "n_malloc net 1024 = Some mem"
    using assms(2) unfolding puzzling_def net_ok_def by blast
  moreover obtain t where "nego_recv (log_event (Received (Some (x224_packet 0xD0 (nego_data 4 0 0)))) ?n1)
      (Stream_New (x224_packet 0xD0 (nego_data 4 0 0)))
      = Ok (log_event (Received (Some (x224_packet 0xD0 (nego_data 4 0 0)))) ?n1) t"
    using nego_recv_unknown by blast
  ultimately have recv: "nego_recv_response net ?n1
      = Some (True, log_event (Received (Some (x224_packet 0xD0 (nego_data 4 0 0)))) ?n1)"
    using assms(2) by (simp add: nego_recv_response_def puzzling_def)
  have "nego_send net n = Some (log_event (Received (Some (x224_packet 0xD0 (nego_data 4 0 0)))) ?n1)"
    using assms(1) conn send recv
    by (simp add: nego_send_def nego_attempt_rdp_def nego_exchange_def puzzled_def)
  moreover have "puzzled (log_event (Received (Some (x224_packet 0xD0 (nego_data 4 0 0)))) ?n1)"
    using assms(1) request_token_cong [of "log_event e (log_event f ?n)" n for e f]
    by (simp add: puzzled_def log_event_def)
  ultimately show ?thesis by blast
qed

lemma puzzled_loop: "puzzling net \<Longrightarrow> puzzled n \<Longrightarrow> nego_loop fuel net n = Loop_fuel"
proof (induction fuel arbitrary: n)
  case (Suc fuel)
  from puzzled_send [OF Suc.prems(2,1)] obtain n' where "nego_send net n = Some n'" "puzzled n'" by blast
  with Suc.IH [OF Suc.prems(1), of n'] show ?case by (simp add: puzzled_def)
qed simp

text \<open>
  A server that first selects TLS, which the client has not enabled, and on the second connection
  confirms without negotiation data.
\<close>

definition sly_net :: net where
  "sly_net = \<lparr>n_malloc = (\<lambda>n. Some (replicate n 0)), n_connect = (\<lambda>_. True), n_secure = (\<lambda>_. True),
     n_write = (\<lambda>_ _. 0),
     n_read_pdu = (\<lambda>tr. Some (if Disconnect \<in> set tr then x224_packet 0xD0 []
                              else x224_packet 0xD0 (nego_data 2 3 PROTOCOL_TLS))),
     n_unicode = (\<lambda>_. None)\<rparr>"

definition default_settings :: rdpSettings where
  "default_settings = \<lparr>set_RequestedProtocols = 0, set_SelectedProtocol = 0, set_NegotiationFlags = 0,
     UseRdpSecurityLayer = False, EncryptionMethods = 0, EncryptionLevel = 0, TlsSecurity = False,
     NlaSecurity = False, RdpSecurity = False, LocalConnection = False, RdpServerRsaKey = False, RdpKeyFile = False\<rparr>"

definition client_enabling :: "u32 list \<Rightarrow> rdpNego" where
  "client_enabling ps =
     fold (\<lambda>p n. nego_enable p n True) ps (nego_set_negotiation_enabled (the (nego_new True [])) True)"

subsection \<open>Properties\<close>

lemma client_enabling_simps:
  "state (client_enabling ps) = NEGO_STATE_INITIAL" "secured_later (client_enabling ps)"
  "EnabledProtocols (client_enabling ps) = (\<lambda>p. p \<in> set ps)"
proof -
  have "state (fold (\<lambda>p n. nego_enable p n True) ps n) = state n \<and>
    NegotiateSecurityLayer (fold (\<lambda>p n. nego_enable p n True) ps n) = NegotiateSecurityLayer n \<and>
    SecurityConnected (fold (\<lambda>p n. nego_enable p n True) ps n) = SecurityConnected n \<and>
    EnabledProtocols (fold (\<lambda>p n. nego_enable p n True) ps n) = (\<lambda>p. p \<in> set ps \<or> EnabledProtocols n p)" for n
    by (induction ps arbitrary: n) (auto simp: nego_enable_def fun_eq_iff)
  then show "state (client_enabling ps) = NEGO_STATE_INITIAL" "secured_later (client_enabling ps)"
    "EnabledProtocols (client_enabling ps) = (\<lambda>p. p \<in> set ps)"
    by (simp_all add: client_enabling_def nego_new_def nego_init_def nego_set_negotiation_enabled_def
        secured_later_def)
qed

text \<open>C1: no downgrade to RDP security. Whatever the server answers, a negotiated connection that
  succeeds uses RDP, TLS or NLA security as its last step on the transport; it is RDP security only if
  the client enabled that, and when the client did not enable RDP security it is a protocol the client
  enabled.\<close>

theorem nego_no_downgrade:
  assumes "nego_connect fuel net n settings = Loop_done (True, n', settings')"
    and "state n = NEGO_STATE_INITIAL" "NegotiateSecurityLayer n" "\<not> SecurityConnected n"
  shows "hd (transport n') = Secure (SelectedProtocol n') True \<and>
    SelectedProtocol n' \<in> {PROTOCOL_RDP, PROTOCOL_TLS, PROTOCOL_NLA} \<and>
    set_SelectedProtocol settings' = SelectedProtocol n' \<and>
    (EnabledProtocols n PROTOCOL_RDP \<or>
     SelectedProtocol n' \<noteq> PROTOCOL_RDP \<and> EnabledProtocols n (SelectedProtocol n'))"
  using nego_connect_chosen [OF assms(1,2)] assms(3,4) by (auto simp: secured_later_def chosen_def)

definition honest_net :: "u32 \<Rightarrow> net" where
  "honest_net sp = \<lparr>n_malloc = (\<lambda>n. Some (replicate n 0)), n_connect = (\<lambda>_. True), n_secure = (\<lambda>_. True),
     n_write = (\<lambda>_ _. 0), n_read_pdu = (\<lambda>_. Some (nego_response_bytes sp)), n_unicode = (\<lambda>_. None)\<rparr>"

theorem nego_no_downgrade_witness:
  "\<exists>n' settings'. nego_connect 4 (honest_net PROTOCOL_TLS) (client_enabling [PROTOCOL_TLS, PROTOCOL_NLA]) default_settings
      = Loop_done (True, n', settings') \<and> SelectedProtocol n' \<noteq> PROTOCOL_RDP"
proof -
  have "case nego_connect 4 (honest_net PROTOCOL_TLS) (client_enabling [PROTOCOL_TLS, PROTOCOL_NLA]) default_settings of
      Loop_done (True, _) \<Rightarrow> True | _ \<Rightarrow> False" by code_simp
  then obtain n' settings' where
    c: "nego_connect 4 (honest_net PROTOCOL_TLS) (client_enabling [PROTOCOL_TLS, PROTOCOL_NLA]) default_settings
      = Loop_done (True, n', settings')" by (auto split: loop.splits bool.splits prod.splits)
  with nego_no_downgrade [OF c] show ?thesis
    using client_enabling_simps [of "[PROTOCOL_TLS, PROTOCOL_NLA]"] by (auto simp: secured_later_def)
qed

text \<open>C26: the negotiation ends. When every answer of the server carries a negotiation response, a
  failure or no negotiation data, four rounds of the loop of \<open>nego_connect\<close> are enough, one for each
  protocol.\<close>

theorem nego_connect_terminates:
  assumes "state n = NEGO_STATE_INITIAL" "NegotiateSecurityLayer n" "\<not> SecurityConnected n"
    and "\<forall>tr bs. n_read_pdu net tr = Some bs \<longrightarrow> known_answer bs" "4 \<le> fuel"
  shows "nego_connect fuel net n settings \<noteq> Loop_fuel"
  using assms by (intro nego_connect_ends) (simp_all add: secured_later_def answers_known_def)

theorem nego_connect_terminates_witness:
  "nego_connect 4 (honest_net PROTOCOL_NLA) (client_enabling [PROTOCOL_EXT, PROTOCOL_RDP]) default_settings \<noteq> Loop_fuel"
proof (rule nego_connect_terminates)
  have "known_answer (nego_response_bytes PROTOCOL_NLA)" by code_simp
  then show "\<forall>tr bs. n_read_pdu (honest_net PROTOCOL_NLA) tr = Some bs \<longrightarrow> known_answer bs"
    by (simp add: honest_net_def)
qed (use client_enabling_simps [of "[PROTOCOL_EXT, PROTOCOL_RDP]"] in \<open>simp_all add: secured_later_def\<close>)

text \<open>Otherwise it need not end. A server that keeps answering with an unknown type of negotiation
  data holds a client that tries RDP security in the loop for ever: no number of rounds is enough.\<close>

theorem nego_loop_diverges:
  assumes "puzzling net" "puzzled n"
  shows "nego_loop fuel net n = Loop_fuel"
  using assms by (rule puzzled_loop)

definition puzzling_net :: net where
  "puzzling_net = (honest_net 0)\<lparr>n_read_pdu := (\<lambda>_. Some (x224_packet 0xD0 (nego_data 4 0 0)))\<rparr>"

theorem nego_loop_diverges_witness:
  "nego_loop 1000000 puzzling_net ((client_enabling [PROTOCOL_RDP])\<lparr>state := NEGO_STATE_RDP, TcpConnected := True\<rparr>)
   = Loop_fuel"
proof (rule nego_loop_diverges)
  show "puzzling puzzling_net" by (simp add: puzzling_def puzzling_net_def net_ok_def honest_net_def)
  show "puzzled ((client_enabling [PROTOCOL_RDP])\<lparr>state := NEGO_STATE_RDP, TcpConnected := True\<rparr>)"
    by (simp add: puzzled_def client_enabling_def nego_new_def nego_init_def nego_set_negotiation_enabled_def
        nego_enable_def request_token_def)
qed

text \<open>A protocol the client did not enable can be used all the same: the selection of an earlier,
  rejected answer survives a later confirm without negotiation data. Here the client enabled NLA and
  RDP security only, and ends up connecting TLS security.\<close>

theorem nego_stale_selection:
  "case nego_connect 4 sly_net (client_enabling [PROTOCOL_NLA, PROTOCOL_RDP]) default_settings of
     Loop_done (ok, n, settings) \<Rightarrow>
       ok \<and> hd (transport n) = Secure PROTOCOL_TLS True \<and> \<not> EnabledProtocols n PROTOCOL_TLS \<and>
       set_SelectedProtocol settings = PROTOCOL_TLS
   | _ \<Rightarrow> False"
  by code_simp


definition cookie_client :: "bytes \<Rightarrow> rdpNego" where
  "cookie_client c = (snd (nego_set_cookie True (the (nego_new True [])) (Some c)))\<lparr>RequestedProtocols := 3\<rparr>"


lemma nego_read_request_long:
  assumes "249 < length body" "length body < 2 ^ 30"
  shows "\<exists>t. nego_read_request ok srv (Stream_New (x224_packet 0xE0 body)) = Fail t"
proof -
  let ?s = "Stream_New (x224_packet 0xE0 body)"
  define li where "li = (word_of_nat (6 + length body) :: u8)"
  have s: "swf ?s" using assms(2) by (simp add: x224_packet_def)
  have 1: "tpkt_read_header ?s = Ok (word_of_nat (11 + length body)) (Stream_Seek ?s 4)"
    using s by (intro tpkt.known [where r = "tpdu_bytes (0xE0, li) @ body", simplified]) (simp_all add: x224_packet_def li_def)
  have s4: "avail (Stream_Seek ?s 4) = tpdu_bytes (0xE0, li) @ body" "swf (Stream_Seek ?s 4)"
    using s by (simp_all add: x224_packet_def li_def)
  have 2: "tpdu_read_connection_request (Stream_Seek ?s 4) = Ok li (Stream_Seek ?s 11)"
    using tpdu.known [OF s4(2,1)] by (simp add: tpdu_read_connection_request_def)
  have "swf (Stream_Seek ?s 11)" "avail (Stream_Seek ?s 11) = body"
    using s by (simp_all add: x224_packet_def)
  then have r: "Stream_GetRemainingLength (Stream_Seek ?s 11) = length body" by (simp only: remaining)
  have "unat li < 2 ^ 8" using unsigned_less [of li] by simp
  moreover have "(length body + 6) mod 2 ^ 64 = length body + 6" using assms(2) by simp
  ultimately have "unat li \<noteq> (length body + 6) mod 2 ^ 64" using assms(1) by simp
  then show ?thesis
    unfolding nego_read_request_def 1 andthen.simps 2 r by simp
qed

text \<open>A longer request is never accepted: the length indicator is cut to one byte, and the server
  compares it with the real length. With the default limit of 255 bytes for the cookie, a cookie of 223
  bytes is already too long.\<close>

theorem nego_long_request_refused:
  assumes "249 < length (request_token cl @ request_data cl)" "length (request_token cl @ request_data cl) \<le> 501"
  shows "\<exists>t. nego_read_request ok srv (Stream_New (nego_request_bytes cl)) = Fail t"
  unfolding nego_request_bytes_def using assms by (intro nego_read_request_long) simp_all

theorem nego_long_request_refused_witness:
  "CookieMaxLength (cookie_client (replicate 223 0x61)) = 255 \<and>
   (\<exists>t. nego_read_request True (the (nego_new True [])) (Stream_New (nego_request_bytes (cookie_client (replicate 223 0x61)))) = Fail t)"
proof -
  have "CookieMaxLength (cookie_client (replicate 223 0x61)) = 255"
    "cookie (cookie_client (replicate 223 0x61)) = Some (replicate 223 0x61)"
    "RoutingToken (cookie_client (replicate 223 0x61)) = None"
    "RequestedProtocols (cookie_client (replicate 223 0x61)) = 3"
    by (simp_all add: cookie_client_def nego_set_cookie_def nego_new_def nego_init_def)
  with nego_long_request_refused [of "cookie_client (replicate 223 0x61)" True "the (nego_new True [])"]
  show ?thesis by (simp add: request_token_def request_data_def cookie_prefix_def)
qed

text \<open>Sending the request is safe exactly when token or cookie and negotiation data fit the fixed
  buffer of 512 bytes; the routing token is copied without any check of its length, so a longer one
  overruns the heap buffer.\<close>

theorem nego_request_overruns_iff:
  assumes "net_ok net" "0 \<le> sint (CookieMaxLength nego)"
  shows "nego_send_negotiation_request net nego = None \<longleftrightarrow>
    501 < length (request_token nego @ request_data nego)"
  using nego_send_negotiation_request_eq [OF assms] by auto

theorem nego_request_overruns_iff_witness:
  "nego_send_negotiation_request (honest_net 0)
     (snd (nego_set_routing_token True (the (nego_new True [])) (replicate 500 0x61))) = None"
  using nego_request_overruns_iff [of "honest_net 0"
      "snd (nego_set_routing_token True (the (nego_new True [])) (replicate 500 0x61))"]
  by (simp add: net_ok_def honest_net_def nego_set_routing_token_def nego_new_def nego_init_def
      request_token_def request_data_def crlf_terminated_def)

text \<open>C35: a client that receives the server's negotiation response stores the server's flags and
  selection, and goes to the final state exactly when it accepts the selected protocol.\<close>

theorem nego_response_roundtrip:
  assumes "SelectedProtocol srv AND PROTOCOL_FAILED_NEGO = 0" "net_ok net"
    and "nego_send_negotiation_response net srv settings = Some (ok, srv', settings')"
  shows "\<exists>pkt t. hd (transport srv') = Sent pkt \<and>
    nego_recv cl (Stream_New pkt) =
      Ok (cl\<lparr>flags := 3, SelectedProtocol := SelectedProtocol srv,
             state := (if accepts cl (SelectedProtocol srv) then NEGO_STATE_FINAL else NEGO_STATE_FAIL)\<rparr>) t"
proof -
  have "hd (transport srv') = Sent (nego_response_bytes (SelectedProtocol srv))"
    using assms(3) unfolding nego_send_negotiation_response_eq [OF assms(2)]
    by (auto simp: nego_transmitted_def log_event_def Let_def split: if_splits prod.splits)
  with nego_recv_response_known [OF assms(1), of cl] show ?thesis by blast
qed

theorem nego_response_roundtrip_witness:
  "\<exists>pkt t. nego_recv (client_enabling [PROTOCOL_NLA]) (Stream_New pkt) =
      Ok ((client_enabling [PROTOCOL_NLA])\<lparr>flags := 3, SelectedProtocol := PROTOCOL_NLA, state := NEGO_STATE_FINAL\<rparr>) t"
proof -
  let ?srv = "(client_enabling [])\<lparr>SelectedProtocol := PROTOCOL_NLA\<rparr>"
  have n: "net_ok (honest_net 0)" by (simp add: net_ok_def honest_net_def)
  have z: "(2 :: u32) AND 0x80000000 = 0" by code_simp
  have "nego_send_negotiation_response (honest_net 0) ?srv default_settings \<noteq> None"
    unfolding nego_send_negotiation_response_eq [OF n] Let_def by (simp split: prod.split)
  then obtain b srv' settings' where "nego_send_negotiation_response (honest_net 0) ?srv default_settings = Some (b, srv', settings')"
    by auto
  from nego_response_roundtrip [OF _ n this, of "client_enabling [PROTOCOL_NLA]"]
  show ?thesis using z client_enabling_simps(3) [of "[PROTOCOL_NLA]"] by (auto simp: accepts_def)
qed

text \<open>C29: the negotiation readers are memory safe on any PDU of at least four bytes: the server's
  always, the client's on everything but a truncated failure message.\<close>

theorem nego_readers_in_bounds:
  assumes "length bs < 2 ^ 31" "4 \<le> length bs"
  shows "nego_read_request ok nego (Stream_New bs) \<noteq> Overrun \<and>
    (short_failure bs \<or> nego_recv nego (Stream_New bs) \<noteq> Overrun)"
  using nego_read_request_safe [of "Stream_New bs" ok nego] nego_recv_inb [OF assms, of nego] assms by auto

theorem nego_readers_in_bounds_witness:
  "nego_read_request True (the (nego_new True [])) (Stream_New [3, 0, 0, 4]) \<noteq> Overrun"
  using nego_readers_in_bounds [of "[3, 0, 0, 4]" True "the (nego_new True [])"] by simp

text \<open>On a truncated failure message the client reads past the end of the PDU.\<close>

theorem nego_short_failure_overruns:
  "nego_recv nego (Stream_New [3, 0, 0, 12, 7, 0xD0, 0, 0, 0, 0, 0, 3]) = Overrun"
  by code_simp

end
