(* ===== verification/Gcc.thy ===== *)
theory Gcc
  imports Mcs Nego
begin

text \<open>
  The generic conference control of libfreerdp/core/gcc.c: the Conference Create Request and
  Response that MCS Connect-Initial and Connect-Response carry, with the client and server data
  blocks inside; and the routines of libfreerdp/core/mcs.c that send and receive these two PDUs.

  The settings extend the ones of the negotiation. \<open>ServerRandom\<close> and \<open>ServerCertificate\<close> are byte lists,
  whose lengths are the two length fields. When a reader fails, the settings it has changed so far are
  dropped with the connection, and the model does not return them. The library calls (conversion from
  and to UTF-16, random numbers, MD5, RSA, the certificate parser of certificate.c) are the fields of
  \<open>library\<close>.
\<close>

subsection \<open>State\<close>

record MONITOR_ATTRIBUTES =
  physicalWidth :: u32
  physicalHeight :: u32
  orientation :: u32
  desktopScaleFactor :: u32
  deviceScaleFactor :: u32

record rdpMonitor =
  mon_x :: u32
  mon_y :: u32
  mon_width :: u32
  mon_height :: u32
  is_primary :: u32
  attributes :: MONITOR_ATTRIBUTES

record gccSettings = rdpSettings +
  RdpVersion :: u32
  DesktopWidth :: u32
  DesktopHeight :: u32
  ColorDepth :: u32
  ConnectionType :: u32
  ClientBuild :: u32
  ClientHostname :: bytes
  ClientProductId :: bytes
  EarlyCapabilityFlags :: u32
  NetworkAutoDetect :: bool
  SupportErrorInfoPdu :: bool
  SupportGraphicsPipeline :: bool
  SupportDynamicTimeZone :: bool
  SupportHeartbeatPdu :: bool
  DesktopPhysicalWidth :: u32
  DesktopPhysicalHeight :: u32
  DesktopOrientation :: u16
  DesktopScaleFactor :: u32
  DeviceScaleFactor :: u32
  KeyboardLayout :: u32
  KeyboardType :: u32
  KeyboardSubType :: u32
  KeyboardFunctionKey :: u32
  ServerMode :: bool
  RemoteFxCodec :: bool
  ServerRandom :: bytes
  ServerCertificate :: bytes
  RsaExponent :: bytes
  RsaModulus :: bytes
  RedirectedSessionId :: u32
  ConsoleSession :: bool
  MonitorCount :: int
  MonitorDefArray :: "rdpMonitor list"
  SpanMonitors :: bool
  UseMultimon :: bool
  ForceMultimon :: bool
  HasMonitorAttributes :: bool
  MultitransportFlags :: u32
  SupportMultitransport :: bool
  ChannelCount :: u32
  ChannelDefArray :: "(bytes \<times> u32) list"

record library =
  ConvertFromUnicode :: "bytes \<Rightarrow> bytes"
  ConvertToUnicode :: "bytes \<Rightarrow> u16 list"
  crypto_nonce :: bytes
  crypto_md5 :: "bytes \<Rightarrow> bytes option"
  crypto_rsa_private_encrypt :: "bytes \<Rightarrow> bytes"
  certificate_read_server_certificate :: "bytes \<Rightarrow> bool"

type_synonym gcc = "rdpMcs \<times> gccSettings"

abbreviation (input) CS_CORE :: u16 where "CS_CORE \<equiv> 0xC001"
abbreviation (input) CS_SECURITY :: u16 where "CS_SECURITY \<equiv> 0xC002"
abbreviation (input) CS_NET :: u16 where "CS_NET \<equiv> 0xC003"
abbreviation (input) CS_CLUSTER :: u16 where "CS_CLUSTER \<equiv> 0xC004"
abbreviation (input) CS_MONITOR :: u16 where "CS_MONITOR \<equiv> 0xC005"
abbreviation (input) CS_MCS_MSGCHANNEL :: u16 where "CS_MCS_MSGCHANNEL \<equiv> 0xC006"
abbreviation (input) CS_MONITOR_EX :: u16 where "CS_MONITOR_EX \<equiv> 0xC008"
abbreviation (input) CS_MULTITRANSPORT :: u16 where "CS_MULTITRANSPORT \<equiv> 0xC00A"
abbreviation (input) SC_CORE :: u16 where "SC_CORE \<equiv> 0x0C01"
abbreviation (input) SC_SECURITY :: u16 where "SC_SECURITY \<equiv> 0x0C02"
abbreviation (input) SC_NET :: u16 where "SC_NET \<equiv> 0x0C03"
abbreviation (input) SC_MCS_MSGCHANNEL :: u16 where "SC_MCS_MSGCHANNEL \<equiv> 0x0C04"
abbreviation (input) SC_MULTITRANSPORT :: u16 where "SC_MULTITRANSPORT \<equiv> 0x0C08"
abbreviation (input) RDP_VERSION_4 :: u32 where "RDP_VERSION_4 \<equiv> 0x00080001"
abbreviation (input) RDP_VERSION_5_PLUS :: u32 where "RDP_VERSION_5_PLUS \<equiv> 0x00080004"
abbreviation (input) ENCRYPTION_METHOD_NONE :: u32 where "ENCRYPTION_METHOD_NONE \<equiv> 0"
abbreviation (input) ENCRYPTION_METHOD_40BIT :: u32 where "ENCRYPTION_METHOD_40BIT \<equiv> 1"
abbreviation (input) ENCRYPTION_METHOD_128BIT :: u32 where "ENCRYPTION_METHOD_128BIT \<equiv> 2"
abbreviation (input) ENCRYPTION_METHOD_56BIT :: u32 where "ENCRYPTION_METHOD_56BIT \<equiv> 8"
abbreviation (input) ENCRYPTION_METHOD_FIPS :: u32 where "ENCRYPTION_METHOD_FIPS \<equiv> 0x10"
abbreviation (input) ENCRYPTION_LEVEL_NONE :: u32 where "ENCRYPTION_LEVEL_NONE \<equiv> 0"
abbreviation (input) ENCRYPTION_LEVEL_LOW :: u32 where "ENCRYPTION_LEVEL_LOW \<equiv> 1"
abbreviation (input) ENCRYPTION_LEVEL_CLIENT_COMPATIBLE :: u32 where "ENCRYPTION_LEVEL_CLIENT_COMPATIBLE \<equiv> 2"
abbreviation (input) ENCRYPTION_LEVEL_HIGH :: u32 where "ENCRYPTION_LEVEL_HIGH \<equiv> 3"
abbreviation (input) ENCRYPTION_LEVEL_FIPS :: u32 where "ENCRYPTION_LEVEL_FIPS \<equiv> 4"

subsection \<open>Data block headers\<close>

definition gcc_read_user_data_header :: "wStream \<Rightarrow> (u16 \<times> u16) res" where
  "gcc_read_user_data_header s =
     (if Stream_GetRemainingLength s < 4 then Fail s
      else
        andthen (Stream_Read_UINT16 s) (\<lambda>type s.
        andthen (Stream_Read_UINT16 s) (\<lambda>len s.
          if Stream_GetRemainingLength s < size_of_int (uint len - 4) then Fail s
          else Ok (type, len) s)))"

definition gcc_write_user_data_header :: "wStream \<Rightarrow> u16 \<Rightarrow> u16 \<Rightarrow> unit res" where
  "gcc_write_user_data_header s type len =
     andthen (Stream_Write_UINT16 s type) (\<lambda>_ s. Stream_Write_UINT16 s len)"

subsection \<open>Client data blocks, read by the server\<close>

text \<open>
  A reader gets the length of its block without the header, which the caller has compared with the
  rest of the stream. The optional fields of the core data are kept in a record until the end of the
  block is reached.
\<close>

record core_fields =
  cf_settings :: gccSettings
  cf_postBeta2ColorDepth :: u16
  cf_highColorDepth :: u16
  cf_earlyCapabilityFlags :: u16
  cf_connectionType :: u8

definition gcc_read_client_core_optional :: "library \<Rightarrow> wStream \<Rightarrow> gccSettings \<Rightarrow> nat \<Rightarrow> core_fields res" where
  \<comment> \<open>The body of \<open>do ... while (0)\<close> in \<open>gcc_read_client_core_data\<close>.\<close>
  "gcc_read_client_core_optional lib s settings n =
     (let f = \<lparr>cf_settings = settings, cf_postBeta2ColorDepth = 0, cf_highColorDepth = 0,
               cf_earlyCapabilityFlags = 0, cf_connectionType = 0\<rparr>
      in if n < 2 then Ok f s else
      andthen (Stream_Read_UINT16 s) (\<lambda>v s.
      let f = f\<lparr>cf_postBeta2ColorDepth := v\<rparr>; n = n - 2
      in if n < 2 then Ok f s else
      andthen (Ok () (Stream_Seek s 2)) (\<lambda>_ s.
      let n = n - 2
      in if n < 4 then Ok f s else
      andthen (Ok () (Stream_Seek s 4)) (\<lambda>_ s.
      let n = n - 4
      in if n < 2 then Ok f s else
      andthen (Stream_Read_UINT16 s) (\<lambda>v s.
      let f = f\<lparr>cf_highColorDepth := v\<rparr>; n = n - 2
      in if n < 2 then Ok f s else
      andthen (Stream_Read_UINT16 s) (\<lambda>_ s.
      let n = n - 2
      in if n < 2 then Ok f s else
      andthen (Stream_Read_UINT16 s) (\<lambda>v s.
      let f = f\<lparr>cf_earlyCapabilityFlags := v,
                cf_settings := (cf_settings f)\<lparr>EarlyCapabilityFlags := ucast v\<rparr>\<rparr>;
          n = n - 2
      in if n < 64 then Ok f s else
      andthen (Stream_Read s 64) (\<lambda>name s.
      let f = f\<lparr>cf_settings := (cf_settings f)\<lparr>ClientProductId := take 31 (ConvertFromUnicode lib name)\<rparr>\<rparr>;
          n = n - 64
      in if n < 1 then Ok f s else
      andthen (Stream_Read_UINT8 s) (\<lambda>v s.
      let f = f\<lparr>cf_connectionType := v\<rparr>; n = n - 1
      in if n < 1 then Ok f s else
      andthen (Ok () (Stream_Seek s 1)) (\<lambda>_ s.
      let n = n - 1
      in if n < 4 then Ok f s else
      andthen (Stream_Read_UINT32 s) (\<lambda>serverSelectedProtocol s.
      let n = n - 4
      in if n < 4 then Ok f s else
      andthen (Stream_Read_UINT32 s) (\<lambda>v s.
      let f = f\<lparr>cf_settings := (cf_settings f)\<lparr>DesktopPhysicalWidth := v\<rparr>\<rparr>; n = n - 4
      in if n < 4 then Ok f s else
      andthen (Stream_Read_UINT32 s) (\<lambda>v s.
      let f = f\<lparr>cf_settings := (cf_settings f)\<lparr>DesktopPhysicalHeight := v\<rparr>\<rparr>; n = n - 4
      in if n < 2 then Ok f s else
      andthen (Stream_Read_UINT16 s) (\<lambda>v s.
      let f = f\<lparr>cf_settings := (cf_settings f)\<lparr>DesktopOrientation := v\<rparr>\<rparr>; n = n - 2
      in if n < 4 then Ok f s else
      andthen (Stream_Read_UINT32 s) (\<lambda>v s.
      let f = f\<lparr>cf_settings := (cf_settings f)\<lparr>DesktopScaleFactor := v\<rparr>\<rparr>; n = n - 4
      in if n < 4 then Ok f s else
      andthen (Stream_Read_UINT32 s) (\<lambda>v s.
      let f = f\<lparr>cf_settings := (cf_settings f)\<lparr>DeviceScaleFactor := v\<rparr>\<rparr>
      in if set_SelectedProtocol (cf_settings f) \<noteq> serverSelectedProtocol then Fail s
         else Ok f s))))))))))))))))"

definition gcc_client_color_depth :: "u16 \<Rightarrow> core_fields \<Rightarrow> u32 option" where
  \<comment> \<open>None is the \<open>return FALSE\<close> of the two \<open>switch\<close> statements.\<close>
  "gcc_client_color_depth colorDepth f =
     (if cf_highColorDepth f > 0 then
        Some (if cf_earlyCapabilityFlags f AND 0x0002 \<noteq> 0 then 32 else ucast (cf_highColorDepth f))
      else if cf_postBeta2ColorDepth f > 0 then
        (if cf_postBeta2ColorDepth f = 0xCA00 then Some 4
         else if cf_postBeta2ColorDepth f = 0xCA01 then Some 8
         else if cf_postBeta2ColorDepth f = 0xCA02 then Some 15
         else if cf_postBeta2ColorDepth f = 0xCA03 then Some 16
         else if cf_postBeta2ColorDepth f = 0xCA04 then Some 24
         else None)
      else if colorDepth = 0xCA00 then Some 4
      else if colorDepth = 0xCA01 then Some 8
      else None)"

definition gcc_client_core_apply :: "core_fields \<Rightarrow> u32 \<Rightarrow> gccSettings" where
  \<comment> \<open>The last part of \<open>gcc_read_client_core_data\<close>.\<close>
  "gcc_client_core_apply f clientColorDepth =
     (let settings = cf_settings f; early = cf_earlyCapabilityFlags f;
          settings = (if clientColorDepth < ColorDepth settings \<or> \<not> ServerMode settings
                      then settings\<lparr>ColorDepth := clientColorDepth\<rparr> else settings);
          settings = (if NetworkAutoDetect settings
                      then settings\<lparr>NetworkAutoDetect := (early AND 0x0080 \<noteq> 0)\<rparr> else settings);
          settings = (if SupportHeartbeatPdu settings
                      then settings\<lparr>SupportHeartbeatPdu := (early AND 0x0400 \<noteq> 0)\<rparr> else settings);
          settings = (if SupportGraphicsPipeline settings
                      then settings\<lparr>SupportGraphicsPipeline := (early AND 0x0100 \<noteq> 0)\<rparr> else settings);
          settings = (if SupportDynamicTimeZone settings
                      then settings\<lparr>SupportDynamicTimeZone := (early AND 0x0200 \<noteq> 0)\<rparr> else settings);
          connectionType = (if early AND 0x0020 = 0 then 0 else cf_connectionType f)
      in settings\<lparr>SupportErrorInfoPdu := (early AND 0x0001 \<noteq> 0), ConnectionType := ucast connectionType\<rparr>)"

definition gcc_read_client_core_data :: "library \<Rightarrow> wStream \<Rightarrow> gccSettings \<Rightarrow> nat \<Rightarrow> gccSettings res" where
  "gcc_read_client_core_data lib s settings blockLength =
     (if blockLength < 128 then Fail s
      else
        andthen (Stream_Read_UINT32 s) (\<lambda>version s.
        andthen (Stream_Read_UINT16 s) (\<lambda>width s.
        andthen (Stream_Read_UINT16 s) (\<lambda>height s.
        andthen (Stream_Read_UINT16 s) (\<lambda>colorDepth s.
        andthen (Stream_Read_UINT32 (Stream_Seek s 2)) (\<lambda>layout s.
        andthen (Stream_Read_UINT32 s) (\<lambda>build s.
        andthen (Stream_Read s 32) (\<lambda>name s.
        andthen (Stream_Read_UINT32 s) (\<lambda>ktype s.
        andthen (Stream_Read_UINT32 s) (\<lambda>ksub s.
        andthen (Stream_Read_UINT32 s) (\<lambda>kfun s.
          let settings = settings\<lparr>RdpVersion := (if version = RDP_VERSION_4 then 4 else 7),
                 DesktopWidth := ucast width, DesktopHeight := ucast height,
                 KeyboardLayout := layout, ClientBuild := build,
                 ClientHostname := take 30 (ConvertFromUnicode lib name),
                 KeyboardType := ktype, KeyboardSubType := ksub, KeyboardFunctionKey := kfun\<rparr>
          in andthen (gcc_read_client_core_optional lib (Stream_Seek s 64) settings (blockLength - 128)) (\<lambda>f s.
               case gcc_client_color_depth colorDepth f of
                 None \<Rightarrow> Fail s
               | Some depth \<Rightarrow> Ok (gcc_client_core_apply f depth) s))))))))))))"

definition gcc_read_client_security_data :: "wStream \<Rightarrow> gccSettings \<Rightarrow> nat \<Rightarrow> gccSettings res" where
  "gcc_read_client_security_data s settings blockLength =
     (if blockLength < 8 then Fail s
      else if UseRdpSecurityLayer settings then
        andthen (Stream_Read_UINT32 s) (\<lambda>methods s.
          if methods = 0 then
            andthen (Stream_Read_UINT32 s) (\<lambda>methods s. Ok (settings\<lparr>EncryptionMethods := methods\<rparr>) s)
          else Ok (settings\<lparr>EncryptionMethods := methods\<rparr>) (Stream_Seek s 4))
      else Ok settings (Stream_Seek s 8))"

fun read_channel_defs :: "nat \<Rightarrow> nat \<Rightarrow> rdpMcs \<Rightarrow> wStream \<Rightarrow> rdpMcs res" where
  \<comment> \<open>The loop over \<open>channelDefArray\<close>, with the rounds left and the index.\<close>
  "read_channel_defs 0 i mcs s = Ok mcs s"
| "read_channel_defs (Suc n) i mcs s =
     (if length (channels mcs) \<le> i then Overrun
      else
        andthen (Stream_Read s 8) (\<lambda>name s.
        andthen (Stream_Read_UINT32 s) (\<lambda>opts s.
          read_channel_defs n (i + 1)
            (mcs\<lparr>channels := (channels mcs)[i := (channels mcs ! i)
                    \<lparr>ch_Name := name, ch_options := opts, ChannelId := uint (baseChannelId mcs)\<rparr>],
                 baseChannelId := baseChannelId mcs + 1\<rparr>) s)))"

definition gcc_read_client_network_data :: "wStream \<Rightarrow> rdpMcs \<Rightarrow> nat \<Rightarrow> rdpMcs res" where
  \<comment> \<open>The product is a UINT32 and wraps; the count is bounded only afterwards.\<close>
  "gcc_read_client_network_data s mcs blockLength =
     (if blockLength < 4 then Fail s
      else
        andthen (Stream_Read_UINT32 s) (\<lambda>count s.
          let mcs = mcs\<lparr>channelCount := count\<rparr>
          in if blockLength < unat (4 + count * 12) then Fail s
             else if count > 16 then Fail s
             else read_channel_defs (unat count) 0 mcs s))"

definition gcc_read_client_cluster_data :: "wStream \<Rightarrow> gccSettings \<Rightarrow> nat \<Rightarrow> gccSettings res" where
  "gcc_read_client_cluster_data s settings blockLength =
     (if blockLength < 8 then Fail s
      else
        andthen (Stream_Read_UINT32 s) (\<lambda>fl s.
        andthen (Stream_Read_UINT32 s) (\<lambda>redirectedSessionId s.
          let settings = (if fl AND 2 \<noteq> 0 then settings\<lparr>RedirectedSessionId := redirectedSessionId\<rparr> else settings);
              s = (if blockLength \<noteq> 8 \<and> Stream_GetRemainingLength s \<ge> blockLength - 8
                   then Stream_Seek s (blockLength - 8) else s)
          in Ok settings s)))"

fun read_monitor_defs :: "nat \<Rightarrow> nat \<Rightarrow> rdpMonitor list \<Rightarrow> wStream \<Rightarrow> rdpMonitor list res" where
  "read_monitor_defs 0 i ms s = Ok ms s"
| "read_monitor_defs (Suc n) i ms s =
     andthen (Stream_Read_UINT32 s) (\<lambda>left s.
     andthen (Stream_Read_UINT32 s) (\<lambda>top s.
     andthen (Stream_Read_UINT32 s) (\<lambda>right s.
     andthen (Stream_Read_UINT32 s) (\<lambda>bottom s.
     andthen (Stream_Read_UINT32 s) (\<lambda>fl s.
       if length ms \<le> i then Overrun
       else read_monitor_defs n (i + 1)
              (ms[i := (ms ! i)\<lparr>mon_x := left, mon_y := top, mon_width := right - left + 1,
                                mon_height := bottom - top + 1, is_primary := fl AND 1\<rparr>]) s)))))"

definition gcc_read_client_monitor_data :: "wStream \<Rightarrow> gccSettings \<Rightarrow> nat \<Rightarrow> gccSettings res" where
  "gcc_read_client_monitor_data s settings blockLength =
     (if blockLength < 8 then Fail s
      else
        andthen (Stream_Read_UINT32 s) (\<lambda>_ s.
        andthen (Stream_Read_UINT32 s) (\<lambda>monitorCount s.
          if (blockLength - 8) div 20 < unat monitorCount then Fail s
          else
            andthen (read_monitor_defs (unat monitorCount) 0 (MonitorDefArray settings) s) (\<lambda>ms s.
              Ok (settings\<lparr>MonitorCount := sint monitorCount, MonitorDefArray := ms\<rparr>) s))))"

fun read_monitor_attributes :: "nat \<Rightarrow> nat \<Rightarrow> rdpMonitor list \<Rightarrow> wStream \<Rightarrow> rdpMonitor list res" where
  "read_monitor_attributes 0 i ms s = Ok ms s"
| "read_monitor_attributes (Suc n) i ms s =
     andthen (Stream_Read_UINT32 s) (\<lambda>w s.
     andthen (Stream_Read_UINT32 s) (\<lambda>h s.
     andthen (Stream_Read_UINT32 s) (\<lambda>orient s.
     andthen (Stream_Read_UINT32 s) (\<lambda>desk s.
     andthen (Stream_Read_UINT32 s) (\<lambda>dev s.
       if length ms \<le> i then Overrun
       else read_monitor_attributes n (i + 1)
              (ms[i := (ms ! i)\<lparr>attributes := \<lparr>physicalWidth = w, physicalHeight = h, orientation = orient,
                                              desktopScaleFactor = desk, deviceScaleFactor = dev\<rparr>\<rparr>]) s)))))"

definition gcc_read_client_monitor_extended_data :: "wStream \<Rightarrow> gccSettings \<Rightarrow> nat \<Rightarrow> gccSettings res" where
  "gcc_read_client_monitor_extended_data s settings blockLength =
     (if blockLength < 12 then Fail s
      else
        andthen (Stream_Read_UINT32 s) (\<lambda>_ s.
        andthen (Stream_Read_UINT32 s) (\<lambda>monitorAttributeSize s.
        andthen (Stream_Read_UINT32 s) (\<lambda>monitorCount s.
          if monitorAttributeSize \<noteq> 20 then Fail s
          else if (blockLength - 12) div unat monitorAttributeSize < unat monitorCount then Fail s
          else if word_of_int (MonitorCount settings) \<noteq> monitorCount then Fail s
          else
            andthen (read_monitor_attributes (unat monitorCount) 0 (MonitorDefArray settings) s) (\<lambda>ms s.
              Ok (settings\<lparr>MonitorDefArray := ms, HasMonitorAttributes := True\<rparr>) s)))))"

definition gcc_read_client_message_channel_data :: "wStream \<Rightarrow> rdpMcs \<Rightarrow> nat \<Rightarrow> rdpMcs res" where
  "gcc_read_client_message_channel_data s mcs blockLength =
     (if blockLength < 4 then Fail s
      else
        andthen (Stream_Read_UINT32 s) (\<lambda>_ s.
          Ok (mcs\<lparr>messageChannelId := baseChannelId mcs, baseChannelId := baseChannelId mcs + 1\<rparr>) s))"

definition gcc_read_client_multitransport_channel_data :: "wStream \<Rightarrow> nat \<Rightarrow> unit res" where
  "gcc_read_client_multitransport_channel_data s blockLength =
     (if blockLength < 4 then Fail s
      else andthen (Stream_Read_UINT32 s) (\<lambda>_ s. Ok () s))"

definition gcc_read_client_block :: "library \<Rightarrow> u16 \<Rightarrow> wStream \<Rightarrow> gcc \<Rightarrow> nat \<Rightarrow> gcc res" where
  \<comment> \<open>The \<open>switch\<close> of \<open>gcc_read_client_data_blocks\<close>.\<close>
  "gcc_read_client_block lib type s st n =
     (let (mcs, settings) = st;
          on_settings = (\<lambda>r. andthen r (\<lambda>settings s. Ok (mcs, settings) s));
          on_mcs = (\<lambda>r. andthen r (\<lambda>mcs s. Ok (mcs, settings) s))
      in if type = CS_CORE then on_settings (gcc_read_client_core_data lib s settings n)
         else if type = CS_SECURITY then on_settings (gcc_read_client_security_data s settings n)
         else if type = CS_NET then on_mcs (gcc_read_client_network_data s mcs n)
         else if type = CS_CLUSTER then on_settings (gcc_read_client_cluster_data s settings n)
         else if type = CS_MONITOR then on_settings (gcc_read_client_monitor_data s settings n)
         else if type = CS_MCS_MSGCHANNEL then on_mcs (gcc_read_client_message_channel_data s mcs n)
         else if type = CS_MONITOR_EX then on_settings (gcc_read_client_monitor_extended_data s settings n)
         else if type = 0xC009 \<or> type = CS_MULTITRANSPORT then
           andthen (gcc_read_client_multitransport_channel_data s n) (\<lambda>_ s. Ok st s)
         else Ok st (Stream_Seek s n))"

text \<open>
  The two loops over data blocks get fuel; None is running out of it. A block is at least as long as
  its header (a shorter length fails the size check), so the length of the data is enough fuel.
\<close>

fun client_blocks :: "nat \<Rightarrow> library \<Rightarrow> wStream \<Rightarrow> gcc \<Rightarrow> int \<Rightarrow> gcc res option" where
  "client_blocks fuel lib s st len =
     (if \<not> len > 0 then Some (Ok st s)
      else case fuel of
        0 \<Rightarrow> None
      | Suc fuel \<Rightarrow>
          (case gcc_read_user_data_header s of
             Overrun \<Rightarrow> Some Overrun
           | Fail t \<Rightarrow> Some (Fail t)
           | Ok (type, blockLength) t \<Rightarrow>
               if Stream_GetRemainingLength t < size_of_int (uint blockLength - 4) then Some (Fail t)
               else
                 (case gcc_read_client_block lib type t st (unat blockLength - 4) of
                    Overrun \<Rightarrow> Some Overrun
                  | Fail u \<Rightarrow> Some (Fail u)
                  | Ok st u \<Rightarrow>
                      client_blocks fuel lib (Stream_SetPosition u (s_pos s + unat blockLength)) st
                        (len - uint blockLength))))"

declare client_blocks.simps [simp del]

definition gcc_read_client_data_blocks :: "library \<Rightarrow> wStream \<Rightarrow> gcc \<Rightarrow> int \<Rightarrow> gcc res option" where
  "gcc_read_client_data_blocks lib s st len = client_blocks (nat len) lib s st len"

subsection \<open>Server data blocks, read by the client\<close>

definition gcc_read_server_core_data :: "wStream \<Rightarrow> gccSettings \<Rightarrow> gccSettings res" where
  "gcc_read_server_core_data s settings =
     (if Stream_GetRemainingLength s < 4 then Fail s
      else
        andthen (Stream_Read_UINT32 s) (\<lambda>version s.
          let settings =
            (if version = RDP_VERSION_4 \<and> RdpVersion settings > 4 then settings\<lparr>RdpVersion := 4\<rparr>
             else if version = RDP_VERSION_5_PLUS \<and> RdpVersion settings < 5 then settings\<lparr>RdpVersion := 7\<rparr>
             else settings)
          in andthen (if Stream_GetRemainingLength s \<ge> 4 then Stream_Read_UINT32 s else Ok 0 s) (\<lambda>_ s.
             andthen (if Stream_GetRemainingLength s \<ge> 4 then Stream_Read_UINT32 s else Ok 0 s) (\<lambda>_ s.
             Ok settings s))))"

definition valid_crypto_config :: "u32 \<Rightarrow> u32 \<Rightarrow> bool" where
  \<comment> \<open>The \<open>switch\<close> over the encryption level.\<close>
  "valid_crypto_config level method \<longleftrightarrow>
     (if level = ENCRYPTION_LEVEL_NONE then method = ENCRYPTION_METHOD_NONE
      else if level = ENCRYPTION_LEVEL_FIPS then method = ENCRYPTION_METHOD_FIPS
      else if level = ENCRYPTION_LEVEL_LOW \<or> level = ENCRYPTION_LEVEL_HIGH \<or>
              level = ENCRYPTION_LEVEL_CLIENT_COMPATIBLE then
        method = ENCRYPTION_METHOD_40BIT \<or> method = ENCRYPTION_METHOD_56BIT \<or>
        method = ENCRYPTION_METHOD_128BIT \<or> method = ENCRYPTION_METHOD_FIPS
      else False)"

definition known_encryption_method :: "u32 \<Rightarrow> bool" where
  "known_encryption_method method \<longleftrightarrow>
     method = ENCRYPTION_METHOD_NONE \<or> method = ENCRYPTION_METHOD_40BIT \<or> method = ENCRYPTION_METHOD_56BIT \<or>
     method = ENCRYPTION_METHOD_128BIT \<or> method = ENCRYPTION_METHOD_FIPS"

definition gcc_read_server_security_data :: "env \<Rightarrow> library \<Rightarrow> wStream \<Rightarrow> gccSettings \<Rightarrow> gccSettings res" where
  \<comment> \<open>The two lengths are added as UINT32.\<close>
  "gcc_read_server_security_data env lib s settings =
     (if Stream_GetRemainingLength s < 8 then Fail s
      else
        andthen (Stream_Read_UINT32 s) (\<lambda>method s.
        andthen (Stream_Read_UINT32 s) (\<lambda>level s.
          if \<not> known_encryption_method method then Fail s
          else
            (let settings = settings\<lparr>EncryptionLevel := level, EncryptionMethods := method\<rparr>
             in if \<not> valid_crypto_config level method then Fail s
                else if level = ENCRYPTION_LEVEL_NONE then Ok (settings\<lparr>UseRdpSecurityLayer := False\<rparr>) s
                else if Stream_GetRemainingLength s < 8 then Fail s
                else
                  andthen (Stream_Read_UINT32 s) (\<lambda>randomLen s.
                  andthen (Stream_Read_UINT32 s) (\<lambda>certLen s.
                    if Stream_GetRemainingLength s < unat (randomLen + certLen) then Fail s
                    else if randomLen = 0 \<or> certLen = 0 then Fail s
                    else if malloc env (unat randomLen) = None then Fail s
                    else
                      andthen (Stream_Read s (unat randomLen)) (\<lambda>random s.
                        if malloc env (unat certLen) = None then Fail s
                        else
                          andthen (Stream_Read s (unat certLen)) (\<lambda>cert s.
                            if certificate_read_server_certificate lib cert
                            then Ok (settings\<lparr>ServerRandom := random, ServerCertificate := cert\<rparr>) s
                            else Fail s))))))))"

fun read_channel_ids :: "nat \<Rightarrow> nat \<Rightarrow> rdpMcs \<Rightarrow> wStream \<Rightarrow> rdpMcs res" where
  "read_channel_ids 0 i mcs s = Ok mcs s"
| "read_channel_ids (Suc n) i mcs s =
     andthen (Stream_Read_UINT16 s) (\<lambda>channelId s.
       if length (channels mcs) \<le> i then Overrun
       else read_channel_ids n (i + 1)
              (mcs\<lparr>channels := (channels mcs)[i := (channels mcs ! i)\<lparr>ChannelId := uint channelId\<rparr>]\<rparr>) s)"

definition gcc_read_server_network_data :: "wStream \<Rightarrow> rdpMcs \<Rightarrow> rdpMcs res" where
  "gcc_read_server_network_data s mcs =
     (if Stream_GetRemainingLength s < 4 then Fail s
      else
        andthen (Stream_Read_UINT16 s) (\<lambda>_ s.
        andthen (Stream_Read_UINT16 s) (\<lambda>count s.
          let parsed = (if ucast count > channelCount mcs then ucast (channelCount mcs) else count)
          in if Stream_GetRemainingLength s < unat count * 2 then Fail s
             else
               andthen (read_channel_ids (unat parsed) 0 mcs s) (\<lambda>mcs s.
                 if unat count mod 2 = 1 then andthen (Stream_SafeSeek s 2) (\<lambda>_ s. Ok mcs s)
                 else Ok mcs s))))"

definition gcc_read_server_message_channel_data :: "wStream \<Rightarrow> rdpMcs \<Rightarrow> rdpMcs res" where
  "gcc_read_server_message_channel_data s mcs =
     (if Stream_GetRemainingLength s < 2 then Fail s
      else andthen (Stream_Read_UINT16 s) (\<lambda>c s. Ok (mcs\<lparr>messageChannelId := c\<rparr>) s))"

definition gcc_read_server_multitransport_channel_data :: "wStream \<Rightarrow> unit res" where
  "gcc_read_server_multitransport_channel_data s =
     (if Stream_GetRemainingLength s < 4 then Fail s
      else andthen (Stream_Read_UINT32 s) (\<lambda>_ s. Ok () s))"

definition gcc_read_server_block :: "env \<Rightarrow> library \<Rightarrow> u16 \<Rightarrow> wStream \<Rightarrow> gcc \<Rightarrow> gcc res" where
  \<comment> \<open>The \<open>switch\<close> of \<open>gcc_read_server_data_blocks\<close>.\<close>
  "gcc_read_server_block env lib type s st =
     (let (mcs, settings) = st;
          on_settings = (\<lambda>r. andthen r (\<lambda>settings s. Ok (mcs, settings) s));
          on_mcs = (\<lambda>r. andthen r (\<lambda>mcs s. Ok (mcs, settings) s))
      in if type = SC_CORE then on_settings (gcc_read_server_core_data s settings)
         else if type = SC_SECURITY then on_settings (gcc_read_server_security_data env lib s settings)
         else if type = SC_NET then on_mcs (gcc_read_server_network_data s mcs)
         else if type = SC_MCS_MSGCHANNEL then on_mcs (gcc_read_server_message_channel_data s mcs)
         else if type = SC_MULTITRANSPORT then
           andthen (gcc_read_server_multitransport_channel_data s) (\<lambda>_ s. Ok st s)
         else Ok st s)"

fun server_blocks :: "nat \<Rightarrow> env \<Rightarrow> library \<Rightarrow> wStream \<Rightarrow> gcc \<Rightarrow> u16 \<Rightarrow> u16 \<Rightarrow> gcc res option" where
  \<comment> \<open>\<open>offset\<close> is a UINT16 and wraps.\<close>
  "server_blocks fuel env lib s st offset len =
     (if \<not> offset < len then Some (Ok st s)
      else case fuel of
        0 \<Rightarrow> None
      | Suc fuel \<Rightarrow>
          (case gcc_read_user_data_header s of
             Overrun \<Rightarrow> Some Overrun
           | Fail t \<Rightarrow> Some (Fail t)
           | Ok (type, blockLength) t \<Rightarrow>
               (case gcc_read_server_block env lib type t st of
                  Overrun \<Rightarrow> Some Overrun
                | Fail u \<Rightarrow> Some (Fail u)
                | Ok st u \<Rightarrow>
                    server_blocks fuel env lib (Stream_SetPosition u (s_pos s + unat blockLength)) st
                      (offset + blockLength) len)))"

declare server_blocks.simps [simp del]

definition gcc_read_server_data_blocks :: "env \<Rightarrow> library \<Rightarrow> wStream \<Rightarrow> gcc \<Rightarrow> u16 \<Rightarrow> gcc res option" where
  \<comment> \<open>A round consumes a header at least, or fails: the number of bytes left and one are enough fuel.\<close>
  "gcc_read_server_data_blocks env lib s st len =
     server_blocks (Stream_GetRemainingLength s + 1) env lib s st 0 len"

subsection \<open>The conference PDUs, read\<close>

definition t124_02_98_oid :: per_oid where
  "t124_02_98_oid = \<lparr>oid0 = 0, oid1 = 0, oid2 = 20, oid3 = 124, oid4 = 0, oid5 = 1\<rparr>"

definition h221_cs_key :: bytes where
  "h221_cs_key = [0x44, 0x75, 0x63, 0x61]"

definition h221_sc_key :: bytes where
  "h221_sc_key = [0x4D, 0x63, 0x44, 0x6E]"

fun continue :: "'a res \<Rightarrow> ('a \<Rightarrow> wStream \<Rightarrow> 'b res option) \<Rightarrow> 'b res option" where
  "continue (Ok a s) k = k a s"
| "continue (Fail s) k = Some (Fail s)"
| "continue Overrun k = Some Overrun"

definition gcc_read_conference_create_request :: "library \<Rightarrow> wStream \<Rightarrow> gcc \<Rightarrow> gcc res option" where
  "gcc_read_conference_create_request lib s st =
     continue
       (andthen (per_read_choice s) (\<lambda>_ s.
        andthen (per_read_object_identifier s t124_02_98_oid) (\<lambda>_ s.
        andthen (per_read_length s) (\<lambda>_ s.
        andthen (per_read_choice s) (\<lambda>_ s.
        andthen (per_read_selection s) (\<lambda>_ s.
        andthen (per_read_numeric_string s 1) (\<lambda>_ s.
        andthen (per_read_padding s 1) (\<lambda>_ s.
        andthen (per_read_number_of_sets s) (\<lambda>number s.
          if number \<noteq> 1 then Fail s
          else
            andthen (per_read_choice s) (\<lambda>choice s.
              if choice \<noteq> 0xC0 then Fail s
              else
                andthen (per_read_octet_string s h221_cs_key 4 4) (\<lambda>_ s.
                andthen (per_read_length s) (\<lambda>len s.
                  if Stream_GetRemainingLength s < unat len then Fail s else Ok len s))))))))))))
       (\<lambda>len s. gcc_read_client_data_blocks lib s st (uint len))"

definition gcc_read_conference_create_response :: "env \<Rightarrow> library \<Rightarrow> wStream \<Rightarrow> gcc \<Rightarrow> gcc res option" where
  "gcc_read_conference_create_response env lib s st =
     continue
       (andthen (per_read_choice s) (\<lambda>_ s.
        andthen (per_read_object_identifier s t124_02_98_oid) (\<lambda>_ s.
        andthen (per_read_length s) (\<lambda>_ s.
        andthen (per_read_choice s) (\<lambda>_ s.
        andthen (per_read_integer16 s 1001) (\<lambda>_ s.
        andthen (per_read_integer s) (\<lambda>_ s.
        andthen (per_read_enumerated s MCS_Result_enum_length) (\<lambda>_ s.
        andthen (per_read_number_of_sets s) (\<lambda>_ s.
        andthen (per_read_choice s) (\<lambda>_ s.
        andthen (per_read_octet_string s h221_sc_key 4 4) (\<lambda>_ s.
        per_read_length s)))))))))))
       (\<lambda>len s. gcc_read_server_data_blocks env lib s st len)"

subsection \<open>Client data blocks, written by the client\<close>

definition wide_field :: "library \<Rightarrow> bytes \<Rightarrow> nat \<Rightarrow> bytes" where
  \<comment> \<open>A string as UTF-16 in a field of \<open>k\<close> characters, the last one zero.\<close>
  "wide_field lib str k =
     (let w = ConvertToUnicode lib str;
          w = (if length w \<ge> k then take (k - 1) w @ [0] else w)
      in concat (map le16 w) @ replicate (2 * k - 2 * length w) 0)"

definition gcc_connection_type :: "gccSettings \<Rightarrow> gccSettings" where
  "gcc_connection_type settings =
     (let settings = (if NetworkAutoDetect settings then settings\<lparr>ConnectionType := 7\<rparr> else settings)
      in if RemoteFxCodec settings \<and> \<not> NetworkAutoDetect settings
         then settings\<lparr>ConnectionType := 6\<rparr> else settings)"

definition gcc_early_capability_flags :: "gccSettings \<Rightarrow> u16" where
  "gcc_early_capability_flags settings =
     0x0001
     OR (if (ucast (ConnectionType settings) :: u8) \<noteq> 0 then 0x0020 else 0)
     OR (if ColorDepth settings = 32 then 0x0002 else 0)
     OR (if NetworkAutoDetect settings then 0x0080 else 0)
     OR (if SupportHeartbeatPdu settings then 0x0400 else 0)
     OR 0x0100
     OR (if SupportDynamicTimeZone settings then 0x0200 else 0)"

definition gcc_write_client_core_data :: "library \<Rightarrow> wStream \<Rightarrow> gccSettings \<Rightarrow> gccSettings res" where
  "gcc_write_client_core_data lib s settings =
     andthen (gcc_write_user_data_header s CS_CORE 234) (\<lambda>_ s.
     andthen (Stream_Write_UINT32 s (if RdpVersion settings \<ge> 5 then RDP_VERSION_5_PLUS else RDP_VERSION_4)) (\<lambda>_ s.
     andthen (Stream_Write_UINT16 s (ucast (DesktopWidth settings))) (\<lambda>_ s.
     andthen (Stream_Write_UINT16 s (ucast (DesktopHeight settings))) (\<lambda>_ s.
     andthen (Stream_Write_UINT16 s 0xCA01) (\<lambda>_ s.
     andthen (Stream_Write_UINT16 s 0xAA03) (\<lambda>_ s.
     andthen (Stream_Write_UINT32 s (KeyboardLayout settings)) (\<lambda>_ s.
     andthen (Stream_Write_UINT32 s (ClientBuild settings)) (\<lambda>_ s.
     andthen (Stream_Write s (wide_field lib (ClientHostname settings) 16)) (\<lambda>_ s.
     andthen (Stream_Write_UINT32 s (KeyboardType settings)) (\<lambda>_ s.
     andthen (Stream_Write_UINT32 s (KeyboardSubType settings)) (\<lambda>_ s.
     andthen (Stream_Write_UINT32 s (KeyboardFunctionKey settings)) (\<lambda>_ s.
     andthen (Stream_Write s (replicate 64 0)) (\<lambda>_ s.
     andthen (Stream_Write_UINT16 s 0xCA01) (\<lambda>_ s.
     andthen (Stream_Write_UINT16 s 1) (\<lambda>_ s.
     andthen (Stream_Write_UINT32 s 0) (\<lambda>_ s.
     let settings = gcc_connection_type settings
     in
     andthen (Stream_Write_UINT16 s (ucast (min (ColorDepth settings) 24))) (\<lambda>_ s.
     andthen (Stream_Write_UINT16 s (0x0001 OR 0x0002 OR 0x0004 OR
                (if ColorDepth settings = 32 then 0x0008 else 0))) (\<lambda>_ s.
     andthen (Stream_Write_UINT16 s (gcc_early_capability_flags settings)) (\<lambda>_ s.
     andthen (Stream_Write s (wide_field lib (ClientProductId settings) 32)) (\<lambda>_ s.
     andthen (Stream_Write_UINT8 s (ucast (ConnectionType settings))) (\<lambda>_ s.
     andthen (Stream_Write_UINT8 s 0) (\<lambda>_ s.
     andthen (Stream_Write_UINT32 s (set_SelectedProtocol settings)) (\<lambda>_ s.
     andthen (Stream_Write_UINT32 s (DesktopPhysicalWidth settings)) (\<lambda>_ s.
     andthen (Stream_Write_UINT32 s (DesktopPhysicalHeight settings)) (\<lambda>_ s.
     andthen (Stream_Write_UINT16 s (DesktopOrientation settings)) (\<lambda>_ s.
     andthen (Stream_Write_UINT32 s (DesktopScaleFactor settings)) (\<lambda>_ s.
     andthen (Stream_Write_UINT32 s (DeviceScaleFactor settings)) (\<lambda>_ s.
     Ok settings s))))))))))))))))))))))))))))"

definition gcc_write_client_security_data :: "wStream \<Rightarrow> gccSettings \<Rightarrow> unit res" where
  "gcc_write_client_security_data s settings =
     andthen (gcc_write_user_data_header s CS_SECURITY 12) (\<lambda>_ s.
       if UseRdpSecurityLayer settings then
         andthen (Stream_Write_UINT32 s (EncryptionMethods settings)) (\<lambda>_ s. Stream_Write_UINT32 s 0)
       else
         andthen (Stream_Write_UINT32 s 0) (\<lambda>_ s. Stream_Write_UINT32 s (EncryptionMethods settings)))"

fun write_channel_defs :: "nat \<Rightarrow> nat \<Rightarrow> rdpMcs \<Rightarrow> wStream \<Rightarrow> unit res" where
  "write_channel_defs 0 i mcs s = Ok () s"
| "write_channel_defs (Suc n) i mcs s =
     (if length (channels mcs) \<le> i then Overrun
      else
        andthen (Stream_Write s (ch_Name (channels mcs ! i))) (\<lambda>_ s.
        andthen (Stream_Write_UINT32 s (ch_options (channels mcs ! i))) (\<lambda>_ s.
        write_channel_defs n (i + 1) mcs s)))"

definition gcc_write_client_network_data :: "wStream \<Rightarrow> rdpMcs \<Rightarrow> unit res" where
  "gcc_write_client_network_data s mcs =
     (if channelCount mcs > 0 then
        andthen (gcc_write_user_data_header s CS_NET (ucast (channelCount mcs * 12 + 8))) (\<lambda>_ s.
        andthen (Stream_Write_UINT32 s (channelCount mcs)) (\<lambda>_ s.
        write_channel_defs (unat (channelCount mcs)) 0 mcs s))
      else Ok () s)"

definition gcc_write_client_cluster_data :: "wStream \<Rightarrow> gccSettings \<Rightarrow> unit res" where
  "gcc_write_client_cluster_data s settings =
     andthen (gcc_write_user_data_header s CS_CLUSTER 12) (\<lambda>_ s.
     andthen (Stream_Write_UINT32 s (1 OR push_bit 2 3 OR
         (if ConsoleSession settings \<or> RedirectedSessionId settings \<noteq> 0 then 2 else 0))) (\<lambda>_ s.
     Stream_Write_UINT32 s (RedirectedSessionId settings)))"

fun write_monitor_defs :: "nat \<Rightarrow> nat \<Rightarrow> rdpMonitor list \<Rightarrow> wStream \<Rightarrow> unit res" where
  "write_monitor_defs 0 i ms s = Ok () s"
| "write_monitor_defs (Suc n) i ms s =
     (if length ms \<le> i then Overrun
      else
        (let m = ms ! i
         in andthen (Stream_Write_UINT32 s (mon_x m)) (\<lambda>_ s.
            andthen (Stream_Write_UINT32 s (mon_y m)) (\<lambda>_ s.
            andthen (Stream_Write_UINT32 s (mon_x m + mon_width m - 1)) (\<lambda>_ s.
            andthen (Stream_Write_UINT32 s (mon_y m + mon_height m - 1)) (\<lambda>_ s.
            andthen (Stream_Write_UINT32 s (if is_primary m \<noteq> 0 then 1 else 0)) (\<lambda>_ s.
            write_monitor_defs n (i + 1) ms s)))))))"

definition gcc_write_client_monitor_data :: "wStream \<Rightarrow> gccSettings \<Rightarrow> unit res" where
  "gcc_write_client_monitor_data s settings =
     (if MonitorCount settings > 1 then
        andthen (gcc_write_user_data_header s CS_MONITOR (word_of_int (20 * MonitorCount settings + 12))) (\<lambda>_ s.
        andthen (Stream_Write_UINT32 s 0) (\<lambda>_ s.
        andthen (Stream_Write_UINT32 s (word_of_int (MonitorCount settings))) (\<lambda>_ s.
        write_monitor_defs (nat (MonitorCount settings)) 0 (MonitorDefArray settings) s)))
      else Ok () s)"

fun write_monitor_attributes :: "nat \<Rightarrow> nat \<Rightarrow> rdpMonitor list \<Rightarrow> wStream \<Rightarrow> unit res" where
  "write_monitor_attributes 0 i ms s = Ok () s"
| "write_monitor_attributes (Suc n) i ms s =
     (if length ms \<le> i then Overrun
      else
        (let a = attributes (ms ! i)
         in andthen (Stream_Write_UINT32 s (physicalWidth a)) (\<lambda>_ s.
            andthen (Stream_Write_UINT32 s (physicalHeight a)) (\<lambda>_ s.
            andthen (Stream_Write_UINT32 s (orientation a)) (\<lambda>_ s.
            andthen (Stream_Write_UINT32 s (desktopScaleFactor a)) (\<lambda>_ s.
            andthen (Stream_Write_UINT32 s (deviceScaleFactor a)) (\<lambda>_ s.
            write_monitor_attributes n (i + 1) ms s)))))))"

definition gcc_write_client_monitor_extended_data :: "wStream \<Rightarrow> gccSettings \<Rightarrow> unit res" where
  "gcc_write_client_monitor_extended_data s settings =
     (if HasMonitorAttributes settings then
        andthen (gcc_write_user_data_header s CS_MONITOR_EX (word_of_int (20 * MonitorCount settings + 16))) (\<lambda>_ s.
        andthen (Stream_Write_UINT32 s 0) (\<lambda>_ s.
        andthen (Stream_Write_UINT32 s 20) (\<lambda>_ s.
        andthen (Stream_Write_UINT32 s (word_of_int (MonitorCount settings))) (\<lambda>_ s.
        write_monitor_attributes (nat (MonitorCount settings)) 0 (MonitorDefArray settings) s))))
      else Ok () s)"

definition gcc_write_client_message_channel_data :: "wStream \<Rightarrow> gccSettings \<Rightarrow> unit res" where
  "gcc_write_client_message_channel_data s settings =
     (if NetworkAutoDetect settings \<or> SupportHeartbeatPdu settings \<or> SupportMultitransport settings then
        andthen (gcc_write_user_data_header s CS_MCS_MSGCHANNEL 8) (\<lambda>_ s. Stream_Write_UINT32 s 0)
      else Ok () s)"

definition gcc_write_client_multitransport_channel_data :: "wStream \<Rightarrow> gccSettings \<Rightarrow> unit res" where
  "gcc_write_client_multitransport_channel_data s settings =
     (if MultitransportFlags settings \<noteq> 0 then
        andthen (gcc_write_user_data_header s CS_MULTITRANSPORT 8) (\<lambda>_ s.
        Stream_Write_UINT32 s (MultitransportFlags settings))
      else Ok () s)"

definition gcc_write_client_data_blocks :: "library \<Rightarrow> wStream \<Rightarrow> gcc \<Rightarrow> gcc res" where
  "gcc_write_client_data_blocks lib s st =
     (let (mcs, settings) = st
      in andthen (gcc_write_client_core_data lib s settings) (\<lambda>settings s.
         andthen (gcc_write_client_cluster_data s settings) (\<lambda>_ s.
         andthen (gcc_write_client_security_data s settings) (\<lambda>_ s.
         andthen (gcc_write_client_network_data s mcs) (\<lambda>_ s.
         let multimon = UseMultimon settings \<and> \<not> SpanMonitors settings;
             monitors = (\<lambda>s. andthen (gcc_write_client_monitor_data s settings) (\<lambda>_ s.
                             gcc_write_client_monitor_extended_data s settings))
         in andthen
              (if set_NegotiationFlags settings AND 1 \<noteq> 0 then
                 andthen (if multimon then monitors s else Ok () s) (\<lambda>_ s.
                 andthen (gcc_write_client_message_channel_data s settings) (\<lambda>_ s.
                 gcc_write_client_multitransport_channel_data s settings))
               else if multimon \<and> ForceMultimon settings then monitors s
               else Ok () s)
              (\<lambda>_ s. Ok (mcs, settings) s))))))"

subsection \<open>Server data blocks, written by the server\<close>

text \<open>
  The stream grows as needed; the boolean argument is whether \<open>realloc\<close> succeeds, None the divergence
  of \<open>Stream_EnsureCapacity\<close>.
\<close>

definition reserve :: "bool \<Rightarrow> wStream \<Rightarrow> nat \<Rightarrow> (wStream \<Rightarrow> 'a res option) \<Rightarrow> 'a res option" where
  \<comment> \<open>\<open>if (!Stream_EnsureRemainingCapacity(s, n)) return FALSE;\<close>\<close>
  "reserve realloc_ok s n k =
     (case Stream_EnsureRemainingCapacity 64 realloc_ok s n of
        None \<Rightarrow> None
      | Some r \<Rightarrow> continue r (\<lambda>_ s. k s))"

definition gcc_write_server_core_data :: "bool \<Rightarrow> wStream \<Rightarrow> gccSettings \<Rightarrow> unit res option" where
  "gcc_write_server_core_data realloc_ok s settings =
     reserve realloc_ok s 20 (\<lambda>s. Some (
       andthen (gcc_write_user_data_header s SC_CORE 16) (\<lambda>_ s.
       andthen (Stream_Write_UINT32 s (if RdpVersion settings = 4 then RDP_VERSION_4 else RDP_VERSION_5_PLUS)) (\<lambda>_ s.
       andthen (Stream_Write_UINT32 s (set_RequestedProtocols settings)) (\<lambda>_ s.
       Stream_Write_UINT32 s (if SupportDynamicTimeZone settings then 2 else 0))))))"

definition gcc_encryption_level :: "gccSettings \<Rightarrow> u32" where
  \<comment> \<open>The level in force: none without the RDP security layer, client compatible for an unknown value.\<close>
  "gcc_encryption_level settings =
     (if \<not> UseRdpSecurityLayer settings then ENCRYPTION_LEVEL_NONE
      else if EncryptionLevel settings \<in> {ENCRYPTION_LEVEL_NONE, ENCRYPTION_LEVEL_FIPS, ENCRYPTION_LEVEL_HIGH,
                ENCRYPTION_LEVEL_LOW, ENCRYPTION_LEVEL_CLIENT_COMPATIBLE}
      then EncryptionLevel settings else ENCRYPTION_LEVEL_CLIENT_COMPATIBLE)"

definition gcc_encryption_method :: "u32 \<Rightarrow> u32 \<Rightarrow> u32" where
  \<comment> \<open>The method for the level of the server and the methods of the client.\<close>
  "gcc_encryption_method level methods =
     (if level = ENCRYPTION_LEVEL_NONE then ENCRYPTION_METHOD_NONE
      else if level = ENCRYPTION_LEVEL_FIPS then ENCRYPTION_METHOD_FIPS
      else if level = ENCRYPTION_LEVEL_HIGH then ENCRYPTION_METHOD_128BIT
      else if methods AND ENCRYPTION_METHOD_128BIT \<noteq> 0 then ENCRYPTION_METHOD_128BIT
      else if methods AND ENCRYPTION_METHOD_56BIT \<noteq> 0 then ENCRYPTION_METHOD_56BIT
      else if methods AND ENCRYPTION_METHOD_40BIT \<noteq> 0 then ENCRYPTION_METHOD_40BIT
      else if methods AND ENCRYPTION_METHOD_FIPS \<noteq> 0 then ENCRYPTION_METHOD_FIPS
      else ENCRYPTION_METHOD_128BIT)"

definition initial_signature :: bytes where
  "initial_signature = replicate 16 0xFF @ [0x00] @ replicate 45 0xFF @ [0x01]"

definition gcc_public_key_blob :: "gccSettings \<Rightarrow> bytes" where
  \<comment> \<open>The bytes from \<open>sigData\<close> on that are signed: the proprietary certificate without its signature.\<close>
  "gcc_public_key_blob settings =
     (let keyLen = word_of_nat (length (RsaModulus settings)) :: u32;
          blobLen = 4 + 4 + 4 + 4 + 4 + keyLen + 8
      in le32 1 @ le32 1 @ le32 1 @ le16 6 @ le16 (ucast blobLen) @
         [0x52, 0x53, 0x41, 0x31] @ le32 (keyLen + 8) @ le32 (keyLen * 8) @ le32 (keyLen - 1) @
         RsaExponent settings @ RsaModulus settings @ replicate 8 0)"

definition gcc_write_server_security_data ::
    "env \<Rightarrow> library \<Rightarrow> bool \<Rightarrow> wStream \<Rightarrow> gccSettings \<Rightarrow> gccSettings res option" where
  \<comment> \<open>The random numbers are written without a check of their allocation.\<close>
  "gcc_write_server_security_data env lib realloc_ok s settings =
     (let level = gcc_encryption_level settings;
          method = gcc_encryption_method level (EncryptionMethods settings);
          settings = settings\<lparr>EncryptionLevel := level, EncryptionMethods := method\<rparr>;
          keyLen = word_of_nat (length (RsaModulus settings)) :: u32;
          certLen = 4 + 4 + 4 + 2 + 2 + (4 + 4 + 4 + 4 + 4 + keyLen + 8) + 2 + 2 + 64 + 8;
          headerLen = (if method \<noteq> ENCRYPTION_METHOD_NONE then 12 + 4 + 4 + 32 + certLen else 12)
      in reserve realloc_ok s (unat (headerLen + 4)) (\<lambda>s. Some (
           andthen (gcc_write_user_data_header s SC_SECURITY (ucast headerLen)) (\<lambda>_ s.
           andthen (Stream_Write_UINT32 s method) (\<lambda>_ s.
           andthen (Stream_Write_UINT32 s level) (\<lambda>_ s.
             if method = ENCRYPTION_METHOD_NONE then Ok settings s
             else
               andthen (Stream_Write_UINT32 s 32) (\<lambda>_ s.
               andthen (Stream_Write_UINT32 s certLen) (\<lambda>_ s.
                 if malloc env 32 = None then Overrun
                 else
                   (let settings = settings\<lparr>ServerRandom := crypto_nonce lib\<rparr>; sigData = gcc_public_key_blob settings
                    in andthen (Stream_Write s (crypto_nonce lib)) (\<lambda>_ s.
                       andthen (Stream_Write s sigData) (\<lambda>_ s.
                       andthen (Stream_Write_UINT16 s 8) (\<lambda>_ s.
                       andthen (Stream_Write_UINT16 s (64 + 8)) (\<lambda>_ s.
                         case crypto_md5 lib sigData of
                           None \<Rightarrow> Fail s
                         | Some digest \<Rightarrow>
                             andthen (Stream_Write s (crypto_rsa_private_encrypt lib
                                        (digest @ drop 16 initial_signature))) (\<lambda>_ s.
                             andthen (Stream_Write s (replicate 8 0)) (\<lambda>_ s.
                             Ok settings s)))))))))))))))"

fun write_channel_ids :: "nat \<Rightarrow> nat \<Rightarrow> rdpMcs \<Rightarrow> wStream \<Rightarrow> unit res" where
  "write_channel_ids 0 i mcs s = Ok () s"
| "write_channel_ids (Suc n) i mcs s =
     (if length (channels mcs) \<le> i then Overrun
      else
        andthen (Stream_Write_UINT16 s (word_of_int (ChannelId (channels mcs ! i)))) (\<lambda>_ s.
        write_channel_ids n (i + 1) mcs s))"

definition gcc_write_server_network_data :: "bool \<Rightarrow> wStream \<Rightarrow> rdpMcs \<Rightarrow> unit res option" where
  "gcc_write_server_network_data realloc_ok s mcs =
     (let odd = (channelCount mcs mod 2 = 1);
          payloadLen = 8 + channelCount mcs * 2 + (if odd then 2 else 0)
      in reserve realloc_ok s (size_of_int (sint (payloadLen + 4))) (\<lambda>s. Some (
           andthen (gcc_write_user_data_header s SC_NET (ucast payloadLen)) (\<lambda>_ s.
           andthen (Stream_Write_UINT16 s MCS_GLOBAL_CHANNEL_ID) (\<lambda>_ s.
           andthen (Stream_Write_UINT16 s (ucast (channelCount mcs))) (\<lambda>_ s.
           andthen (write_channel_ids (unat (channelCount mcs)) 0 mcs s) (\<lambda>_ s.
             if odd then Stream_Write_UINT16 s 0 else Ok () s))))))) "

definition gcc_write_server_message_channel_data :: "bool \<Rightarrow> wStream \<Rightarrow> rdpMcs \<Rightarrow> unit res option" where
  "gcc_write_server_message_channel_data realloc_ok s mcs =
     (if messageChannelId mcs = 0 then Some (Ok () s)
      else reserve realloc_ok s (2 + 4) (\<lambda>s. Some (
        andthen (gcc_write_user_data_header s SC_MCS_MSGCHANNEL 6) (\<lambda>_ s.
        Stream_Write_UINT16 s (messageChannelId mcs)))))"

definition gcc_write_server_multitransport_channel_data :: "wStream \<Rightarrow> unit res" where
  \<comment> \<open>Nothing calls it yet.\<close>
  "gcc_write_server_multitransport_channel_data s =
     andthen (gcc_write_user_data_header s SC_MULTITRANSPORT 8) (\<lambda>_ s. Stream_Write_UINT32 s 0)"

fun continues :: "'a res option \<Rightarrow> ('a \<Rightarrow> wStream \<Rightarrow> 'b res option) \<Rightarrow> 'b res option" where
  "continues None k = None"
| "continues (Some r) k = continue r k"

definition gcc_write_server_data_blocks ::
    "env \<Rightarrow> library \<Rightarrow> bool \<Rightarrow> wStream \<Rightarrow> gcc \<Rightarrow> gccSettings res option" where
  "gcc_write_server_data_blocks env lib realloc_ok s st =
     (let (mcs, settings) = st
      in continues (gcc_write_server_core_data realloc_ok s settings) (\<lambda>_ s.
         continues (gcc_write_server_network_data realloc_ok s mcs) (\<lambda>_ s.
         continues (gcc_write_server_security_data env lib realloc_ok s settings) (\<lambda>settings s.
         continues (gcc_write_server_message_channel_data realloc_ok s mcs) (\<lambda>_ s.
         Some (Ok settings s))))))"

subsection \<open>The conference PDUs, written\<close>

definition gcc_write_conference_create_request :: "wStream \<Rightarrow> wStream \<Rightarrow> unit res" where
  "gcc_write_conference_create_request s userData =
     andthen (per_write_choice s 0) (\<lambda>_ s.
     andthen (per_write_object_identifier s t124_02_98_oid) (\<lambda>_ s.
     andthen (per_write_length s (int (s_pos userData) + 14)) (\<lambda>_ s.
     andthen (per_write_choice s 0) (\<lambda>_ s.
     andthen (per_write_selection s 0x08) (\<lambda>_ s.
     andthen (per_write_numeric_string s [0x31] 1 1) (\<lambda>_ s.
     andthen (per_write_padding s 1) (\<lambda>_ s.
     andthen (per_write_number_of_sets s 1) (\<lambda>_ s.
     andthen (per_write_choice s 0xC0) (\<lambda>_ s.
     andthen (per_write_octet_string s h221_cs_key 4 4) (\<lambda>_ s.
     per_write_octet_string s (s_buffer userData) (int (s_pos userData)) 0))))))))))"

definition gcc_write_conference_create_response :: "wStream \<Rightarrow> wStream \<Rightarrow> unit res" where
  "gcc_write_conference_create_response s userData =
     andthen (per_write_choice s 0) (\<lambda>_ s.
     andthen (per_write_object_identifier s t124_02_98_oid) (\<lambda>_ s.
     andthen (per_write_length s 0x2A) (\<lambda>_ s.
     andthen (per_write_choice s 0x14) (\<lambda>_ s.
     andthen (per_write_integer16 s 0x79F3 1001) (\<lambda>_ s.
     andthen (per_write_integer s 1) (\<lambda>_ s.
     andthen (per_write_enumerated s 0 MCS_Result_enum_length) (\<lambda>_ s.
     andthen (per_write_number_of_sets s 1) (\<lambda>_ s.
     andthen (per_write_choice s 0xC0) (\<lambda>_ s.
     andthen (per_write_octet_string s h221_sc_key 4 4) (\<lambda>_ s.
     per_write_octet_string s (s_buffer userData) (int (s_pos userData)) 0))))))))))"

subsection \<open>The MCS connect PDUs\<close>

definition mcs_recv_connect_initial :: "library \<Rightarrow> wStream \<Rightarrow> gcc \<Rightarrow> gcc res option" where
  \<comment> \<open>The result of \<open>tpkt_read_header\<close> is ignored.\<close>
  "mcs_recv_connect_initial lib s st =
     (let selector = (\<lambda>s. andthen (ber_read_octet_string_tag s) (\<lambda>len s.
                        if c_int (Stream_GetRemainingLength s) < len then Fail s else Ok len s));
          (mcs, settings) = st
      in continues
        (continue
          (andthen (tpkt_read_header s) (\<lambda>_ s.
           andthen (tpdu_read_data s) (\<lambda>_ s.
           andthen (ber_read_application_tag s MCS_TYPE_CONNECT_INITIAL) (\<lambda>_ s.
           andthen (selector s) (\<lambda>len s.
           andthen (selector (Stream_Seek_int s len)) (\<lambda>len s.
           andthen (ber_read_BOOL (Stream_Seek_int s len)) (\<lambda>_ s.
           andthen (mcs_read_domain_parameters s) (\<lambda>target s.
           andthen (mcs_read_domain_parameters s) (\<lambda>minimum s.
           andthen (mcs_read_domain_parameters s) (\<lambda>maximum s.
           andthen (selector s) (\<lambda>_ s.
           Ok (mcs\<lparr>targetParameters := target, minimumParameters := minimum, maximumParameters := maximum\<rparr>) s)))))))))))
          (\<lambda>mcs s. gcc_read_conference_create_request lib s (mcs, settings)))
        (\<lambda>(mcs, settings) s. Some
           (case mcs_merge_domain_parameters (targetParameters mcs) (minimumParameters mcs)
                   (maximumParameters mcs) (domainParameters mcs) of
              Inl _ \<Rightarrow> Fail s
            | Inr dp \<Rightarrow> Ok (mcs\<lparr>domainParameters := dp\<rparr>, settings) s)))"

definition mcs_recv_connect_response :: "env \<Rightarrow> library \<Rightarrow> wStream \<Rightarrow> gcc \<Rightarrow> gcc res option" where
  "mcs_recv_connect_response env lib s st =
     (let (mcs, settings) = st
      in continue
        (andthen (tpkt_read_header s) (\<lambda>_ s.
         andthen (tpdu_read_data s) (\<lambda>_ s.
         andthen (ber_read_application_tag s MCS_TYPE_CONNECT_RESPONSE) (\<lambda>_ s.
         andthen (ber_read_enumerated s MCS_Result_enum_length) (\<lambda>_ s.
         andthen (ber_read_integer s True) (\<lambda>_ s.
         andthen (mcs_read_domain_parameters s) (\<lambda>dp s.
         andthen (ber_read_octet_string_tag s) (\<lambda>_ s.
         Ok (mcs\<lparr>domainParameters := dp\<rparr>) s))))))))
        (\<lambda>mcs s. gcc_read_conference_create_response env lib s (mcs, settings)))"

definition send_connect :: "env \<Rightarrow> wStream \<Rightarrow> (wStream \<Rightarrow> unit res) \<Rightarrow> sent" where
  \<comment> \<open>The common end of the two send routines: \<open>ccr\<close> is the conference PDU, \<open>write\<close> the MCS PDU around it.\<close>
  "send_connect env ccr write =
     (let len = s_pos ccr + 7
      in case malloc env (1024 + len) of
           None \<Rightarrow> Returned False []
         | Some mem \<Rightarrow>
             (case write (Stream_Seek (Stream_New mem) 7) of
                Overrun \<Rightarrow> Crashed
              | Fail _ \<Rightarrow> Returned False []
              | Ok _ s \<Rightarrow>
                  (let em = s_pos s
                   in case andthen (tpkt_write_header (Stream_SetPosition s 0) (word_of_nat em)) (\<lambda>_ s.
                           andthen (tpdu_write_data s) (\<lambda>_ s. Ok () (Stream_SetPosition s em))) of
                        Ok _ s \<Rightarrow> Returned (\<not> transport_write env (packet s) < 0) [packet s]
                      | _ \<Rightarrow> Crashed)))"

definition mcs_send_connect_initial :: "env \<Rightarrow> library \<Rightarrow> gcc \<Rightarrow> sent \<times> gcc" where
  "mcs_send_connect_initial env lib st =
     (let (mcs, settings) = st
      in case mcs_initialize_client_channels (ChannelCount settings) (ChannelDefArray settings) mcs of
           None \<Rightarrow> (Crashed, st)
         | Some mcs \<Rightarrow>
             (case malloc env 512 of
                None \<Rightarrow> (Returned False [], (mcs, settings))
              | Some mem \<Rightarrow>
                  (case gcc_write_client_data_blocks lib (Stream_New mem) (mcs, settings) of
                     Ok st client_data \<Rightarrow>
                       (case malloc env 1024 of
                          None \<Rightarrow> (Returned False [], st)
                        | Some mem \<Rightarrow>
                            (case gcc_write_conference_create_request (Stream_New mem) client_data of
                               Ok _ ccr \<Rightarrow>
                                 (send_connect env ccr (\<lambda>s. mcs_write_connect_initial env s (fst st) ccr), st)
                             | _ \<Rightarrow> (Crashed, st)))
                   | _ \<Rightarrow> (Crashed, (mcs, settings)))))"

definition mcs_send_connect_response :: "env \<Rightarrow> library \<Rightarrow> bool \<Rightarrow> gcc \<Rightarrow> (sent \<times> gcc) option" where
  "mcs_send_connect_response env lib realloc_ok st =
     (let (mcs, settings) = st
      in case malloc env 512 of
           None \<Rightarrow> Some (Returned False [], st)
         | Some mem \<Rightarrow>
             (case gcc_write_server_data_blocks env lib realloc_ok (Stream_New mem) st of
                None \<Rightarrow> None
              | Some Overrun \<Rightarrow> Some (Crashed, st)
              | Some (Fail _) \<Rightarrow> Some (Returned False [], st)
              | Some (Ok settings server_data) \<Rightarrow>
                  (case malloc env (512 + Stream_Capacity server_data) of
                     None \<Rightarrow> Some (Returned False [], (mcs, settings))
                   | Some mem \<Rightarrow>
                       (case gcc_write_conference_create_response (Stream_New mem) server_data of
                          Ok _ ccr \<Rightarrow>
                            Some (send_connect env ccr (\<lambda>s. mcs_write_connect_response env s mcs ccr), (mcs, settings))
                        | _ \<Rightarrow> Some (Crashed, (mcs, settings))))))"

definition mcs_client_begin :: "env \<Rightarrow> library \<Rightarrow> u32 \<Rightarrow> gcc \<Rightarrow> (sent \<times> u32 \<times> gcc)" where
  \<comment> \<open>With the last error of the context; \<open>Returned True\<close> is where the connection enters the state
    \<open>CONNECTION_STATE_MCS_CONNECT\<close>.\<close>
  "mcs_client_begin env lib last_error st =
     (case mcs_send_connect_initial env lib st of
        (Returned False ps, st) \<Rightarrow> (Returned False ps, if last_error = 0 then 0x20007 else last_error, st)
      | (r, st) \<Rightarrow> (r, last_error, st))"

subsection \<open>Reading what is certainly there\<close>

definition u8_of :: "bytes \<Rightarrow> u8" where
  "u8_of bs = (case bs of b # _ \<Rightarrow> b | _ \<Rightarrow> 0)"

definition u16_of :: "bytes \<Rightarrow> u16" where
  "u16_of bs = (case bs of b0 # b1 # _ \<Rightarrow> ucast b0 + push_bit 8 (ucast b1) | _ \<Rightarrow> 0)"

definition u32_of :: "bytes \<Rightarrow> u32" where
  "u32_of bs =
     (case bs of
        b0 # b1 # b2 # b3 # _ \<Rightarrow>
          ucast b0 + push_bit 8 (ucast b1) + push_bit 16 (ucast b2) + push_bit 24 (ucast b3)
      | _ \<Rightarrow> 0)"

lemma read_now:
  "1 \<le> length (avail s) \<Longrightarrow> Stream_Read_UINT8 s = Ok (u8_of (avail s)) (Stream_Seek s 1)"
  "2 \<le> length (avail s) \<Longrightarrow> Stream_Read_UINT16 s = Ok (u16_of (avail s)) (Stream_Seek s 2)"
  "4 \<le> length (avail s) \<Longrightarrow> Stream_Read_UINT32 s = Ok (u32_of (avail s)) (Stream_Seek s 4)"
  "n \<le> length (avail s) \<Longrightarrow> Stream_Read s n = Ok (take n (avail s)) (Stream_Seek s n)"
  by (auto simp: Stream_Read_UINT8_def Stream_Read_UINT16_def Stream_Read_UINT32_def Stream_Read_def
      u8_of_def u16_of_def u32_of_def split: list.split)

lemma of_encodings [simp]:
  "u8_of (b # r) = b" "u16_of (le16 v @ r) = v" "u32_of (le32 w @ r) = w"
  by (simp_all add: u8_of_def u16_of_def u32_of_def le16_def le32_def word16_le word32_le)

lemma size_of_int_short: "size_of_int (uint (len :: u16) - 4) = (if unat len < 4 then 2 ^ 64 - (4 - unat len) else unat len - 4)"
proof -
  define k where k: "k = unat len"
  have u: "uint len = int k" "k < 65536"
    using unsigned_less [of len, where ?'a = nat] by (simp_all add: k)
  show ?thesis
  proof (cases "k < 4")
    case True
    have "(int k - 4) mod 2 ^ 64 = (int k - 4 + 2 ^ 64) mod 2 ^ 64"
      by (rule mod_add_self2 [symmetric])
    also have "\<dots> = int k - 4 + 2 ^ 64" using True by (intro mod_pos_pos_trivial) auto
    finally show ?thesis using True by (simp add: size_of_int_def u(1) flip: k)
  next
    case False
    then have "(int k - 4) mod 2 ^ 64 = int k - 4"
      using u(2) by (intro mod_pos_pos_trivial) auto
    with False show ?thesis by (simp add: size_of_int_def u(1) nat_diff_distrib flip: k)
  qed
qed

lemma gcc_header_swf:
  assumes "swf s"
  shows "gcc_read_user_data_header s =
    (if length (avail s) < 4 then Fail s
     else if unat (u16_of (drop 2 (avail s))) < 4 \<or> length (avail s) < unat (u16_of (drop 2 (avail s)))
     then Fail (Stream_Seek s 4)
     else Ok (u16_of (avail s), u16_of (drop 2 (avail s))) (Stream_Seek s 4))"
  using assms length_avail_bound [OF assms]
  by (auto simp: gcc_read_user_data_header_def read_now size_of_int_short)

lemma gcc_write_user_data_header_put [wr_simps]:
  "gcc_write_user_data_header s type len = put s (le16 type @ le16 len) ()"
  by (simp add: gcc_write_user_data_header_def wr_simps)

subsection \<open>Readers with a budget\<close>

text \<open>
  Rules for readers that check once and then read many fields: the position is kept relative to the
  stream at the start of the block.
\<close>

lemma inb_if: "(c \<Longrightarrow> inb s a) \<Longrightarrow> (\<not> c \<Longrightarrow> inb s b) \<Longrightarrow> inb s (if c then a else b)"
  by simp

lemma inb_seek_reads:
  assumes "swf s"
  shows "j + 1 \<le> length (avail s) \<Longrightarrow> (\<And>v. inb s (k8 v (Stream_Seek s (j + 1)))) \<Longrightarrow>
      inb s (andthen (Stream_Read_UINT8 (Stream_Seek s j)) k8)"
    and "j + 2 \<le> length (avail s) \<Longrightarrow> (\<And>v. inb s (k16 v (Stream_Seek s (j + 2)))) \<Longrightarrow>
      inb s (andthen (Stream_Read_UINT16 (Stream_Seek s j)) k16)"
    and "j + 4 \<le> length (avail s) \<Longrightarrow> (\<And>v. inb s (k32 v (Stream_Seek s (j + 4)))) \<Longrightarrow>
      inb s (andthen (Stream_Read_UINT32 (Stream_Seek s j)) k32)"
    and "j + n \<le> length (avail s) \<Longrightarrow> (\<And>v. inb s (kn v (Stream_Seek s (j + n)))) \<Longrightarrow>
      inb s (andthen (Stream_Read (Stream_Seek s j) n) kn)"
    and "j \<le> length (avail s) \<Longrightarrow> inb s (Ok a (Stream_Seek s j))"
    and "j \<le> length (avail s) \<Longrightarrow> inb s (Fail (Stream_Seek s j))"
  using assms by (simp_all add: read_now)

lemmas inb_reads_start = inb_seek_reads [where j = 0, simplified]

text \<open>The optional fields: \<open>n\<close> bytes are left from position \<open>j\<close> on.\<close>

definition budget :: "wStream \<Rightarrow> nat \<Rightarrow> nat \<Rightarrow> bool" where
  "budget s j n \<longleftrightarrow> swf s \<and> j + n \<le> length (avail s)"

lemma budget_reads:
  "\<lbrakk>budget s j n; \<not> n < 1; \<And>v. budget s (j + 1) (n - 1) \<Longrightarrow> inb s (k8 v (Stream_Seek s (j + 1)))\<rbrakk>
   \<Longrightarrow> inb s (andthen (Stream_Read_UINT8 (Stream_Seek s j)) k8)"
  "\<lbrakk>budget s j n; \<not> n < 2; \<And>v. budget s (j + 2) (n - 2) \<Longrightarrow> inb s (k16 v (Stream_Seek s (j + 2)))\<rbrakk>
   \<Longrightarrow> inb s (andthen (Stream_Read_UINT16 (Stream_Seek s j)) k16)"
  "\<lbrakk>budget s j n; \<not> n < 4; \<And>v. budget s (j + 4) (n - 4) \<Longrightarrow> inb s (k32 v (Stream_Seek s (j + 4)))\<rbrakk>
   \<Longrightarrow> inb s (andthen (Stream_Read_UINT32 (Stream_Seek s j)) k32)"
  "\<lbrakk>budget s j n; \<not> n < m; \<And>v. budget s (j + m) (n - m) \<Longrightarrow> inb s (km v (Stream_Seek s (j + m)))\<rbrakk>
   \<Longrightarrow> inb s (andthen (Stream_Read (Stream_Seek s j) m) km)"
  "\<lbrakk>budget s j n; \<not> n < m; budget s (j + m) (n - m) \<Longrightarrow> inb s (ku () (Stream_Seek s (j + m)))\<rbrakk>
   \<Longrightarrow> inb s (andthen (Ok () (Stream_Seek (Stream_Seek s j) m)) ku)"
  by (auto simp: budget_def read_now)

lemma budget_end:
  "budget s j n \<Longrightarrow> inb s (Ok a (Stream_Seek s j))" "budget s j n \<Longrightarrow> inb s (Fail (Stream_Seek s j))"
  by (auto simp: budget_def)

lemma inb_Let_budget:
  "inb s (k (a :: nat)) \<Longrightarrow> inb s (Let a k)"
  "(\<And>x. inb s (k' x)) \<Longrightarrow> inb s (Let (f :: core_fields) k')"
  by simp_all

lemma gcc_read_client_core_optional_inb:
  assumes "budget s j n"
  shows "inb s (gcc_read_client_core_optional lib (Stream_Seek s j) settings n)"
  unfolding gcc_read_client_core_optional_def
  using assms
  by - (rule inb_if inb_Let_budget | (rule budget_end, assumption) | (rule budget_reads, assumption, assumption))+

lemma gcc_read_client_core_data_inb:
  assumes "swf s" "n \<le> length (avail s)"
  shows "inb s (gcc_read_client_core_data lib s settings n)"
proof (cases "n < 128")
  case False
  then have "budget s 128 (n - 128)" using assms by (simp add: budget_def)
  note opt = gcc_read_client_core_optional_inb [OF this]
  have fin: "inb t (case d of None \<Rightarrow> Fail t | Some c \<Rightarrow> Ok (h c) t)" if "swf t" for t d and h :: "u32 \<Rightarrow> gccSettings"
    using that by (cases d) simp_all
  from False assms show ?thesis
    by (auto simp: gcc_read_client_core_data_def read_now Let_def intro!: inb_andthen opt fin dest: ahead_swf)
qed (simp add: gcc_read_client_core_data_def assms)

lemma gcc_read_client_security_data_inb:
  "swf s \<Longrightarrow> n \<le> length (avail s) \<Longrightarrow> inb s (gcc_read_client_security_data s settings n)"
  by (auto simp: gcc_read_client_security_data_def read_now)

lemma read_channel_defs_swf:
  assumes "swf s" "n * 12 \<le> length (avail s)" "i + n \<le> length (channels mcs)"
  shows "\<exists>mcs'. read_channel_defs n i mcs s = Ok mcs' (Stream_Seek s (n * 12)) \<and>
    length (channels mcs') = length (channels mcs)"
  using assms
proof (induction n i mcs s rule: read_channel_defs.induct)
  case (2 n i mcs s)
  have r: "Stream_Read s 8 = Ok (take 8 (avail s)) (Stream_Seek s 8)"
    "Stream_Read_UINT32 (Stream_Seek s 8) = Ok (u32_of (drop 8 (avail s))) (Stream_Seek s 12)"
    using "2.prems" by (simp_all add: read_now)
  have i: "\<not> length (channels mcs) \<le> i" using "2.prems" by simp
  from 2(1) [OF i r(1,2)] "2.prems" r i show ?case by simp
qed simp

lemma gcc_read_client_network_data_inb:
  assumes "swf s" "n \<le> length (avail s)" "16 \<le> length (channels mcs)"
  shows "inb s (gcc_read_client_network_data s mcs n)"
proof (cases "n < 4")
  case False
  let ?c = "u32_of (avail s)" and ?t = "Stream_Seek s 4"
  let ?m = "mcs\<lparr>channelCount := ?c\<rparr>"
  have r: "Stream_Read_UINT32 s = Ok ?c ?t" using False assms by (simp add: read_now)
  show ?thesis
  proof (cases "n < unat (4 + ?c * 12) \<or> ?c > 16")
    case True
    then show ?thesis using False assms r by (auto simp: gcc_read_client_network_data_def)
  next
    case fits: False
    then have c: "unat ?c \<le> 16" by (simp add: word_le_nat_alt not_less)
    have "unat (4 + ?c * 12) = 4 + unat ?c * 12"
      using c by (simp add: unat_word_ariths)
    then have n: "4 + unat ?c * 12 \<le> n" using fits by (simp only: not_less de_Morgan_disj)
    with assms c have "unat ?c * 12 \<le> length (avail ?t)" "0 + unat ?c \<le> length (channels ?m)"
      by simp_all
    moreover have "swf ?t" "ahead s (Stream_Seek s (4 + unat ?c * 12))"
      using n assms by simp_all
    ultimately show ?thesis
      using read_channel_defs_swf [of ?t "unat ?c" 0 ?m] False fits r
      by (auto simp: gcc_read_client_network_data_def)
  qed
qed (use assms in \<open>simp add: gcc_read_client_network_data_def\<close>)

lemma gcc_read_client_cluster_data_inb:
  "swf s \<Longrightarrow> n \<le> length (avail s) \<Longrightarrow> inb s (gcc_read_client_cluster_data s settings n)"
  by (auto simp: gcc_read_client_cluster_data_def read_now Let_def)

lemma read_monitor_step:
  assumes "20 \<le> length (avail s)"
  obtains x y where
    "read_monitor_defs (Suc n) i ms s =
      (if length ms \<le> i then Overrun else read_monitor_defs n (i + 1) (ms[i := x]) (Stream_Seek s 20))"
    "read_monitor_attributes (Suc n) i ms s =
      (if length ms \<le> i then Overrun else read_monitor_attributes n (i + 1) (ms[i := y]) (Stream_Seek s 20))"
  by (rule that; use assms in \<open>simp add: read_now\<close>)

lemma read_monitor_fits:
  assumes "n * 20 \<le> length (avail s)" "i + n \<le> length ms"
  shows "\<exists>ms'. read_monitor_defs n i ms s = Ok ms' (Stream_Seek s (n * 20)) \<and> length ms' = length ms"
    and "\<exists>ms'. read_monitor_attributes n i ms s = Ok ms' (Stream_Seek s (n * 20)) \<and> length ms' = length ms"
proof -
  have "(\<exists>ms'. read_monitor_defs n i ms s = Ok ms' (Stream_Seek s (n * 20)) \<and> length ms' = length ms) \<and>
    (\<exists>ms'. read_monitor_attributes n j ms2 s = Ok ms' (Stream_Seek s (n * 20)) \<and> length ms' = length ms2)"
    if "j + n \<le> length ms2" for j ms2
    using assms that
  proof (induction n arbitrary: i j ms ms2 s)
    case (Suc n)
    have "20 \<le> length (avail s)" using Suc.prems by simp
    from read_monitor_step [OF this, of n i ms] read_monitor_step [OF this, of n j ms2]
    obtain x y where "read_monitor_defs (Suc n) i ms s =
        (if length ms \<le> i then Overrun else read_monitor_defs n (i + 1) (ms[i := x]) (Stream_Seek s 20))"
      "read_monitor_attributes (Suc n) j ms2 s =
        (if length ms2 \<le> j then Overrun else read_monitor_attributes n (j + 1) (ms2[j := y]) (Stream_Seek s 20))"
      by metis
    with Suc.IH [of "Stream_Seek s 20" "i + 1" "ms[i := x]" "j + 1" "ms2[j := y]"] Suc.prems show ?case
      by (simp del: read_monitor_defs.simps read_monitor_attributes.simps)
  qed simp
  from this [OF assms(2)] show
    "\<exists>ms'. read_monitor_defs n i ms s = Ok ms' (Stream_Seek s (n * 20)) \<and> length ms' = length ms"
    "\<exists>ms'. read_monitor_attributes n i ms s = Ok ms' (Stream_Seek s (n * 20)) \<and> length ms' = length ms"
    by blast+
qed

lemma read_monitor_overruns:
  assumes "n * 20 \<le> length (avail s)" "i \<le> length ms" "length ms < i + n"
  shows "read_monitor_defs n i ms s = Overrun"
  using assms
proof (induction n arbitrary: i ms s)
  case (Suc n)
  have "20 \<le> length (avail s)" using Suc.prems by simp
  from read_monitor_step [OF this, of n i ms] obtain x where "read_monitor_defs (Suc n) i ms s =
      (if length ms \<le> i then Overrun else read_monitor_defs n (i + 1) (ms[i := x]) (Stream_Seek s 20))" by metis
  with Suc.IH [of "Stream_Seek s 20" "i + 1" "ms[i := x]"] Suc.prems show ?case
    by (simp del: read_monitor_defs.simps)
qed simp

subsection \<open>Fresh settings\<close>

definition calloc_monitor :: rdpMonitor where
  "calloc_monitor = \<lparr>mon_x = 0, mon_y = 0, mon_width = 0, mon_height = 0, is_primary = 0,
     attributes = \<lparr>physicalWidth = 0, physicalHeight = 0, orientation = 0,
                   desktopScaleFactor = 0, deviceScaleFactor = 0\<rparr>\<rparr>"

definition freerdp_settings_new :: "bool \<Rightarrow> bytes \<Rightarrow> gccSettings" where
  \<comment> \<open>The fields modelled here, when every allocation succeeds and the registry has no values; the
    argument is what \<open>gethostname\<close> leaves.\<close>
  "freerdp_settings_new server host =
     \<lparr>set_RequestedProtocols = 0, set_SelectedProtocol = 0, set_NegotiationFlags = 0,
      UseRdpSecurityLayer = False, EncryptionMethods = ENCRYPTION_METHOD_NONE,
      EncryptionLevel = ENCRYPTION_LEVEL_NONE, TlsSecurity = True, NlaSecurity = True, RdpSecurity = True,
      LocalConnection = False, RdpServerRsaKey = False, RdpKeyFile = False,
      RdpVersion = 7, DesktopWidth = 1024, DesktopHeight = 768, ColorDepth = 16, ConnectionType = 6,
      ClientBuild = 2600, ClientHostname = take 31 host, ClientProductId = [], EarlyCapabilityFlags = 0,
      NetworkAutoDetect = False, SupportErrorInfoPdu = False, SupportGraphicsPipeline = False,
      SupportDynamicTimeZone = False, SupportHeartbeatPdu = False, DesktopPhysicalWidth = 0,
      DesktopPhysicalHeight = 0, DesktopOrientation = 0, DesktopScaleFactor = 0, DeviceScaleFactor = 0,
      KeyboardLayout = 0, KeyboardType = 4, KeyboardSubType = 0, KeyboardFunctionKey = 12,
      ServerMode = server, RemoteFxCodec = False, ServerRandom = [], ServerCertificate = [],
      RsaExponent = [], RsaModulus = [], RedirectedSessionId = 0, ConsoleSession = False, MonitorCount = 0,
      MonitorDefArray = replicate 32 calloc_monitor, SpanMonitors = False, UseMultimon = False,
      ForceMultimon = False, HasMonitorAttributes = False, MultitransportFlags = 0,
      SupportMultitransport = False, ChannelCount = 0, ChannelDefArray = replicate 32 ([], 0)\<rparr>"

subsection \<open>The client blocks\<close>


definition monitor_block :: "nat \<Rightarrow> bytes" where
  "monitor_block n = le32 0 @ le32 (word_of_nat n) @ replicate (20 * n) 0"


text \<open>
  Arrays no client can overrun: the channels are bounded by the code, the monitors only by the length of
  a block.
\<close>

definition roomy :: "gcc \<Rightarrow> bool" where
  "roomy st \<longleftrightarrow> 16 \<le> length (channels (fst st)) \<and> 3276 \<le> length (MonitorDefArray (snd st))"

fun inb_roomy :: "wStream \<Rightarrow> gcc res \<Rightarrow> bool" where
  "inb_roomy s (Ok st t) \<longleftrightarrow> ahead s t \<and> roomy st"
| "inb_roomy s r \<longleftrightarrow> inb s r"

lemma inb_roomy_andthen:
  assumes "inb s r" "\<And>a t. r = Ok a t \<Longrightarrow> roomy (f a)"
  shows "inb_roomy s (andthen r (\<lambda>a t. Ok (f a) t))"
  using assms by (cases r) auto

lemma gcc_client_core_apply_monitors:
  "MonitorDefArray (gcc_client_core_apply f d) = MonitorDefArray (cf_settings f)"
  by (simp add: gcc_client_core_apply_def Let_def)

lemma result_rules:
  "(\<And>a t. r = Ok a t \<Longrightarrow> pred_res P (k a t)) \<Longrightarrow> pred_res P (andthen r k)"
  "(c \<Longrightarrow> pred_res P x) \<Longrightarrow> (\<not> c \<Longrightarrow> pred_res P y) \<Longrightarrow> pred_res P (if c then x else y)"
  "pred_res P (Fail s)" "pred_res P Overrun"
  by (cases r; auto)+

definition keeps :: "rdpMonitor list \<Rightarrow> core_fields res \<Rightarrow> bool" where
  "keeps ms r \<longleftrightarrow> pred_res (\<lambda>f. MonitorDefArray (cf_settings f) = ms) r"

lemma keeps_rules:
  "(\<And>a t. keeps ms (k a t)) \<Longrightarrow> keeps ms (andthen r k)"
  "keeps ms x \<Longrightarrow> keeps ms y \<Longrightarrow> keeps ms (if c then x else y)"
  "keeps ms (Fail s)"
  "MonitorDefArray (cf_settings f) = ms \<Longrightarrow> keeps ms (Ok f s)"
  "MonitorDefArray (cf_settings f) = ms \<Longrightarrow> (\<And>f. MonitorDefArray (cf_settings f) = ms \<Longrightarrow> keeps ms (h f)) \<Longrightarrow> keeps ms (Let f h)"
  "keeps ms (l (n :: nat)) \<Longrightarrow> keeps ms (Let n l)"
  by (cases r; simp add: keeps_def)+

lemma gcc_read_client_core_optional_monitors:
  "keeps (MonitorDefArray settings) (gcc_read_client_core_optional lib s settings n)"
  unfolding gcc_read_client_core_optional_def
  by (rule keeps_rules | assumption | simp)+
lemma gcc_read_client_core_data_monitors:
  "pred_res (\<lambda>st. MonitorDefArray st = MonitorDefArray settings)
     (gcc_read_client_core_data lib s settings n)"
proof -
  have fin: "pred_res (\<lambda>st. MonitorDefArray st = ms)
      (case d of None \<Rightarrow> Fail t | Some c \<Rightarrow> Ok (gcc_client_core_apply f c) t)"
    if "MonitorDefArray (cf_settings f) = ms" for ms d f t
    using that by (cases d) (simp_all add: gcc_client_core_apply_monitors)
  have opt: "MonitorDefArray (cf_settings f) = MonitorDefArray st"
    if "gcc_read_client_core_optional lib u st m = Ok f t" for u st m f t
    using gcc_read_client_core_optional_monitors [of st lib u m] that by (simp add: keeps_def)
  show ?thesis
    unfolding gcc_read_client_core_data_def Let_def
    by (rule result_rules fin | drule opt | simp)+
qed

lemma read_channel_defs_channels:
  "pred_res (\<lambda>m. length (channels m) = length (channels mcs)) (read_channel_defs n i mcs s)"
proof (induction n i mcs s rule: read_channel_defs.induct)
  case (2 n i mcs s)
  show ?case
  proof (cases "length (channels mcs) \<le> i")
    case False
    from 2 [OF False] False show ?thesis
      by (fastforce intro!: result_rules)
  qed simp
qed simp

lemma gcc_read_client_monitor_data_eq:
  assumes "n \<le> length (avail s)"
  shows "gcc_read_client_monitor_data s settings n = (if n < 8 then Fail s
      else let c = u32_of (drop 4 (avail s)) in if (n - 8) div 20 < unat c then Fail (Stream_Seek s 8)
      else andthen (read_monitor_defs (unat c) 0 (MonitorDefArray settings) (Stream_Seek s 8))
        (\<lambda>ms u. Ok (settings\<lparr>MonitorCount := sint c, MonitorDefArray := ms\<rparr>) u))"
  using assms by (simp add: gcc_read_client_monitor_data_def read_now Let_def)

lemma gcc_read_client_monitor_extended_data_eq:
  assumes "n \<le> length (avail s)"
  shows "gcc_read_client_monitor_extended_data s settings n = (if n < 12 then Fail s
      else let c = u32_of (drop 8 (avail s)) in
        if u32_of (drop 4 (avail s)) \<noteq> 20 \<or> (n - 12) div 20 < unat c \<or> word_of_int (MonitorCount settings) \<noteq> c
        then Fail (Stream_Seek s 12)
      else andthen (read_monitor_attributes (unat c) 0 (MonitorDefArray settings) (Stream_Seek s 12))
        (\<lambda>ms u. Ok (settings\<lparr>MonitorDefArray := ms, HasMonitorAttributes := True\<rparr>) u))"
  using assms by (auto simp: gcc_read_client_monitor_extended_data_def read_now Let_def)

lemma gcc_read_client_monitor_blocks_roomy:
  assumes "swf s" "n \<le> length (avail s)" "n < 65536" "3276 \<le> length (MonitorDefArray settings)"
  shows "inb s (gcc_read_client_monitor_data s settings n)"
    and "pred_res (\<lambda>st. length (MonitorDefArray st) = length (MonitorDefArray settings))
      (gcc_read_client_monitor_data s settings n)"
    and "inb s (gcc_read_client_monitor_extended_data s settings n)"
    and "pred_res (\<lambda>st. length (MonitorDefArray st) = length (MonitorDefArray settings))
      (gcc_read_client_monitor_extended_data s settings n)"
proof -
  let ?ms = "MonitorDefArray settings"
  have fits: "c * 20 \<le> n - h \<and> c \<le> length ?ms" if "c \<le> (n - h) div 20" "h \<ge> 8" for c h
    using that assms(3,4) by auto
  have defs: "\<exists>ms'. read_monitor_defs c 0 ?ms (Stream_Seek s 8) = Ok ms' (Stream_Seek s (8 + c * 20)) \<and>
      length ms' = length ?ms" if "c \<le> (n - 8) div 20" "8 \<le> n" for c
    using read_monitor_fits(1) [of c "Stream_Seek s 8" 0 ?ms] fits [OF that(1)] that assms(2) by auto
  have attrs: "\<exists>ms'. read_monitor_attributes c 0 ?ms (Stream_Seek s 12) = Ok ms' (Stream_Seek s (12 + c * 20)) \<and>
      length ms' = length ?ms" if "c \<le> (n - 12) div 20" "12 \<le> n" for c
    using read_monitor_fits(2) [of c "Stream_Seek s 12" 0 ?ms] fits [OF that(1)] that assms(2) by auto
  show "inb s (gcc_read_client_monitor_data s settings n)"
    "pred_res (\<lambda>st. length (MonitorDefArray st) = length ?ms) (gcc_read_client_monitor_data s settings n)"
    using defs [of "unat (u32_of (drop 4 (avail s)))"] fits [of "unat (u32_of (drop 4 (avail s)))" 8] assms(1,2)
    by (auto simp: gcc_read_client_monitor_data_eq Let_def not_less)
  show "inb s (gcc_read_client_monitor_extended_data s settings n)"
    "pred_res (\<lambda>st. length (MonitorDefArray st) = length ?ms) (gcc_read_client_monitor_extended_data s settings n)"
    using attrs [of "unat (u32_of (drop 8 (avail s)))"] fits [of "unat (u32_of (drop 8 (avail s)))" 12] assms(1,2)
    by (auto simp: gcc_read_client_monitor_extended_data_eq Let_def not_less)
qed

lemma gcc_read_client_keeps_monitors:
  "pred_res (\<lambda>st. MonitorDefArray st = MonitorDefArray settings) (gcc_read_client_security_data s settings n)"
  "pred_res (\<lambda>st. MonitorDefArray st = MonitorDefArray settings) (gcc_read_client_cluster_data s settings n)"
  unfolding gcc_read_client_security_data_def gcc_read_client_cluster_data_def Let_def
  by (rule result_rules | simp)+

lemma gcc_read_client_keeps_channels:
  "pred_res (\<lambda>m. length (channels m) = length (channels mcs)) (gcc_read_client_network_data s mcs n)"
  "pred_res (\<lambda>m. length (channels m) = length (channels mcs)) (gcc_read_client_message_channel_data s mcs n)"
proof -
  have "pred_res (\<lambda>m. length (channels m) = length (channels mcs)) (read_channel_defs k 0 (mcs\<lparr>channelCount := c\<rparr>) t)" for k c t
    using read_channel_defs_channels [of "mcs\<lparr>channelCount := c\<rparr>"] by simp
  then show "pred_res (\<lambda>m. length (channels m) = length (channels mcs)) (gcc_read_client_network_data s mcs n)"
    unfolding gcc_read_client_network_data_def Let_def by - (rule result_rules | simp)+
  show "pred_res (\<lambda>m. length (channels m) = length (channels mcs)) (gcc_read_client_message_channel_data s mcs n)"
    unfolding gcc_read_client_message_channel_data_def by (rule result_rules | simp)+
qed

lemma gcc_read_client_block_roomy:
  assumes "swf s" "n \<le> length (avail s)" "n < 65536" "roomy st"
  shows "inb_roomy s (gcc_read_client_block lib type s st n)"
proof -
  obtain mcs settings where st: "st = (mcs, settings)" by (cases st)
  have ch: "16 \<le> length (channels mcs)" and mon: "3276 \<le> length (MonitorDefArray settings)"
    using assms(4) by (simp_all add: roomy_def st)
  note monitor = gcc_read_client_monitor_blocks_roomy [OF assms(1-3) mon]
  have settings: "inb_roomy s (andthen r (\<lambda>x t. Ok (mcs, x) t))"
    if "inb s r" "pred_res (\<lambda>x. length (MonitorDefArray x) = length (MonitorDefArray settings)) r" for r
    using that ch mon by (intro inb_roomy_andthen) (auto simp: roomy_def)
  have settings': "inb_roomy s (andthen r (\<lambda>x t. Ok (mcs, x) t))"
    if "inb s r" "pred_res (\<lambda>x. MonitorDefArray x = MonitorDefArray settings) r" for r
    using that by (intro settings) (auto simp: pred_res_def elim: res.set_cases)
  have mcs: "inb_roomy s (andthen r (\<lambda>x t. Ok (x, settings) t))"
    if "inb s r" "pred_res (\<lambda>x. length (channels x) = length (channels mcs)) r" for r
    using that ch mon by (intro inb_roomy_andthen) (auto simp: roomy_def)
  have unit: "inb_roomy s (andthen (gcc_read_client_multitransport_channel_data s n) (\<lambda>_ t. Ok st t))"
    using assms by (intro inb_roomy_andthen) (auto simp: gcc_read_client_multitransport_channel_data_def read_now)
  have msg: "inb s (gcc_read_client_message_channel_data s mcs n)"
    using assms by (auto simp: gcc_read_client_message_channel_data_def read_now)
  show ?thesis
    using assms(1,2,4) unfolding gcc_read_client_block_def st Let_def prod.case
    by (simp add: st settings' settings mcs unit [unfolded st] msg monitor ch gcc_read_client_keeps_monitors
        gcc_read_client_keeps_channels gcc_read_client_core_data_monitors gcc_read_client_core_data_inb
        gcc_read_client_security_data_inb gcc_read_client_cluster_data_inb gcc_read_client_network_data_inb)
qed

lemma Stream_SetPosition_ahead:
  assumes "swf s" "n \<le> length (avail s)" "ahead (Stream_Seek s k) t" "k \<le> n"
  shows "Stream_SetPosition t (s_pos s + n) = Stream_Seek s n"
  using assms by (cases t, cases s) (simp add: ahead_def Stream_SetPosition_def Stream_Seek_def)

lemma client_blocks_inb:
  assumes "swf s" "roomy st" "len \<le> int fuel"
  shows "\<exists>r. client_blocks fuel lib s st len = Some r \<and> inb_roomy s r"
  using assms
proof (induction fuel arbitrary: s st len)
  case 0
  then show ?case by (simp add: client_blocks.simps)
next
  case (Suc fuel)
  let ?type = "u16_of (avail s)" and ?n = "u16_of (drop 2 (avail s))"
  show ?case
  proof (cases "len > 0 \<and> 4 \<le> length (avail s) \<and> 4 \<le> unat ?n \<and> unat ?n \<le> length (avail s)")
    case False
    then show ?thesis using Suc.prems
      by (auto simp: client_blocks.simps [of "Suc fuel"] gcc_header_swf)
  next
    case True
    let ?t = "Stream_Seek s 4"
    have t: "swf ?t" "unat ?n - 4 \<le> length (avail ?t)" using True Suc.prems by auto
    have n: "unat ?n < 65536" using unsigned_less [of ?n, where ?'a = nat] by simp
    then have block: "inb_roomy ?t (gcc_read_client_block lib ?type ?t st (unat ?n - 4))"
      using t Suc.prems by (intro gcc_read_client_block_roomy) auto
    have step: "client_blocks (Suc fuel) lib s st len =
        (case gcc_read_client_block lib ?type ?t st (unat ?n - 4) of
           Overrun \<Rightarrow> Some Overrun | Fail u \<Rightarrow> Some (Fail u)
         | Ok st u \<Rightarrow> client_blocks fuel lib (Stream_SetPosition u (s_pos s + unat ?n)) st (len - uint ?n))"
      using True Suc.prems t
      by (simp add: client_blocks.simps [of "Suc fuel"] gcc_header_swf size_of_int_short)
    show ?thesis
    proof (cases "gcc_read_client_block lib ?type ?t st (unat ?n - 4)")
      case (Ok st' u)
      then have u: "ahead ?t u" "roomy st'" using block by auto
      then have pos: "Stream_SetPosition u (s_pos s + unat ?n) = Stream_Seek s (unat ?n)"
        using True Suc.prems by (intro Stream_SetPosition_ahead [of s _ 4]) auto
      have "uint ?n = int (unat ?n)" by simp
      then have "len - uint ?n \<le> int fuel" using True Suc.prems by linarith
      then obtain r where "client_blocks fuel lib (Stream_Seek s (unat ?n)) st' (len - uint ?n) = Some r"
        "inb_roomy (Stream_Seek s (unat ?n)) r"
        using Suc.IH [of "Stream_Seek s (unat ?n)" st'] u True Suc.prems by auto
      moreover have "ahead s (Stream_Seek s (unat ?n))" using True Suc.prems by simp
      ultimately show ?thesis
        using step Ok pos by (cases r) (auto intro: ahead_trans)
    next
      case (Fail u)
      then show ?thesis using step block True Suc.prems by (auto intro: ahead_trans [of s ?t])
    next
      case Overrun
      then show ?thesis using block by simp
    qed
  qed
qed

lemma inb_roomy_inb: "inb_roomy s r \<Longrightarrow> inb s r"
  by (cases r) auto


definition plain_library :: library where
  \<comment> \<open>A concrete library: every second byte of UTF-16, no cryptography.\<close>
  "plain_library = \<lparr>ConvertFromUnicode = (\<lambda>bs. map (\<lambda>i. bs ! (2 * i)) [0..<length bs div 2]),
     ConvertToUnicode = map ucast, crypto_nonce = replicate 32 7, crypto_md5 = (\<lambda>_. Some (replicate 16 0)),
     crypto_rsa_private_encrypt = (\<lambda>bs. bs), certificate_read_server_certificate = (\<lambda>_. True)\<rparr>"


subsection \<open>The server blocks\<close>

text \<open>
  A security block whose two lengths add up past 32 bits: the bounds check sees the wrapped sum.
\<close>

definition wrapped_lengths :: "wStream \<Rightarrow> bool" where
  "wrapped_lengths s \<longleftrightarrow>
     2 ^ 32 \<le> unat (u32_of (drop 8 (avail s))) + unat (u32_of (drop 12 (avail s)))"

lemma gcc_read_server_security_data_inb:
  assumes "swf s" "\<not> (16 \<le> length (avail s) \<and> wrapped_lengths s)"
  shows "inb s (gcc_read_server_security_data env lib s settings)"
proof (cases "16 \<le> length (avail s)")
  case True
  let ?r = "u32_of (drop 8 (avail s))" and ?c = "u32_of (drop 12 (avail s))"
  from True assms have "unat (?r + ?c) = unat ?r + unat ?c"
    by (simp add: wrapped_lengths_def unat_word_ariths)
  with True assms show ?thesis
    by (simp add: gcc_read_server_security_data_def read_now Let_def)
next
  case False
  with assms show ?thesis
    by (simp add: gcc_read_server_security_data_def read_now Let_def)
qed

lemma gcc_read_server_core_data_inb: "swf s \<Longrightarrow> inb s (gcc_read_server_core_data s settings)"
  by (simp add: gcc_read_server_core_data_def read_now Let_def)

lemma read_channel_ids_swf:
  assumes "swf s" "n * 2 \<le> length (avail s)" "i + n \<le> length (channels mcs)"
  shows "\<exists>mcs'. read_channel_ids n i mcs s = Ok mcs' (Stream_Seek s (n * 2)) \<and>
    length (channels mcs') = length (channels mcs) \<and> channelCount mcs' = channelCount mcs"
  using assms
proof (induction n i mcs s rule: read_channel_ids.induct)
  case (2 n i mcs s)
  have r: "Stream_Read_UINT16 s = Ok (u16_of (avail s)) (Stream_Seek s 2)"
    and i: "\<not> length (channels mcs) \<le> i"
    using "2.prems" by (simp_all add: read_now)
  from 2(1) [OF r i] "2.prems" r i show ?case by simp
qed simp

definition channels_ok :: "rdpMcs \<Rightarrow> bool" where
  "channels_ok mcs \<longleftrightarrow> unat (channelCount mcs) \<le> length (channels mcs)"

lemma gcc_read_server_network_data_inb:
  assumes "swf s" "channels_ok mcs"
  shows "inb s (gcc_read_server_network_data s mcs) \<and> pred_res channels_ok (gcc_read_server_network_data s mcs)"
proof (cases "length (avail s) < 4")
  case False
  let ?c = "u16_of (drop 2 (avail s))" and ?t = "Stream_Seek s 4"
  define p :: u16 where "p = (if ucast ?c > channelCount mcs then ucast (channelCount mcs) else ?c)"
  have up: "unat (ucast ?c :: u32) = unat ?c"
    using unsigned_less [of ?c, where ?'a = nat] by (simp add: unsigned_ucast_eq take_bit_nat_eq_self)
  have down: "unat (ucast (channelCount mcs) :: u16) \<le> unat (channelCount mcs)"
    by (simp add: unsigned_ucast_eq take_bit_nat_less_eq_self)
  have p: "unat p \<le> unat ?c" "unat p \<le> unat (channelCount mcs)"
    using up down by (auto simp: p_def word_less_nat_alt)
  show ?thesis
  proof (cases "length (avail ?t) < unat ?c * 2")
    case True
    with False assms show ?thesis
      by (simp add: gcc_read_server_network_data_def read_now Let_def)
  next
    case room: False
    then have n: "unat p * 2 \<le> length (avail ?t)" using p by linarith
    obtain mcs' where ids: "read_channel_ids (unat p) 0 mcs ?t = Ok mcs' (Stream_Seek ?t (unat p * 2))"
      "length (channels mcs') = length (channels mcs)" "channelCount mcs' = channelCount mcs"
      using read_channel_ids_swf [of ?t "unat p" 0 mcs] n p assms False by (auto simp: channels_ok_def)
    have "gcc_read_server_network_data s mcs =
        (if unat ?c mod 2 = 1 then andthen (Stream_SafeSeek (Stream_Seek ?t (unat p * 2)) 2) (\<lambda>_ s. Ok mcs' s)
         else Ok mcs' (Stream_Seek ?t (unat p * 2)))"
      using False room ids(1) assms
      by (simp add: gcc_read_server_network_data_def read_now Let_def flip: p_def)
    moreover have "swf (Stream_Seek ?t (unat p * 2))" "ahead s (Stream_Seek ?t (unat p * 2))"
      using n assms False by simp_all
    ultimately show ?thesis
      using ids assms False n by (auto simp: channels_ok_def intro: ahead_trans)
  qed
qed (use assms in \<open>simp add: gcc_read_server_network_data_def\<close>)

fun server_ok :: "wStream \<Rightarrow> gcc res \<Rightarrow> bool" where
  "server_ok s (Ok st t) \<longleftrightarrow> ahead s t \<and> channels_ok (fst st)"
| "server_ok s r \<longleftrightarrow> inb s r"

lemma server_ok_andthen:
  assumes "inb s r" "\<And>a t. r = Ok a t \<Longrightarrow> channels_ok (fst (f a))"
  shows "server_ok s (andthen r (\<lambda>a t. Ok (f a) t))"
  using assms by (cases r) auto

lemma gcc_read_server_security_data_not_Overrun:
  assumes "swf s" "gcc_read_server_security_data env lib s settings \<noteq> Overrun"
  shows "inb s (gcc_read_server_security_data env lib s settings)"
  using assms
  by (simp add: gcc_read_server_security_data_def read_now Let_def Stream_Read_def split: if_splits)

lemma gcc_read_server_security_data_cases:
  assumes "swf s"
  obtains "inb s (gcc_read_server_security_data env lib s settings)"
  | "gcc_read_server_security_data env lib s settings = Overrun" "16 \<le> length (avail s)" "wrapped_lengths s"
  using gcc_read_server_security_data_not_Overrun [OF assms, of env lib settings]
    gcc_read_server_security_data_inb [OF assms, of env lib settings] by blast

lemma gcc_read_server_block_ok:
  assumes "swf s" "channels_ok (fst st)"
  shows "server_ok s (gcc_read_server_block env lib type s st) \<or>
    gcc_read_server_block env lib type s st = Overrun \<and>
    type = SC_SECURITY \<and> 16 \<le> length (avail s) \<and> wrapped_lengths s"
proof -
  obtain mcs settings where st: "st = (mcs, settings)" by (cases st)
  with assms have c: "channels_ok mcs" by simp
  have "inb s (gcc_read_server_message_channel_data s mcs)"
    "pred_res channels_ok (gcc_read_server_message_channel_data s mcs)"
    "inb s (gcc_read_server_multitransport_channel_data s)"
    using assms(1) c by (simp_all add: gcc_read_server_message_channel_data_def
        gcc_read_server_multitransport_channel_data_def read_now channels_ok_def)
  note readers = this gcc_read_server_core_data_inb [OF assms(1)] gcc_read_server_network_data_inb [OF assms(1) c]
  show ?thesis
    using gcc_read_server_security_data_cases [OF assms(1), of env lib settings]
  proof cases
    case 1
    with readers assms(1) c have "server_ok s (gcc_read_server_block env lib type s st)"
      unfolding gcc_read_server_block_def st Let_def prod.case
      by (auto intro!: server_ok_andthen)
    then show ?thesis ..
  next
    case 2
    with readers assms(1) c show ?thesis
      unfolding gcc_read_server_block_def st Let_def prod.case
      by (auto intro!: server_ok_andthen)
  qed
qed

definition wrapped_block :: "wStream \<Rightarrow> bool" where
  \<comment> \<open>Somewhere in the data a security block has such lengths.\<close>
  "wrapped_block s \<longleftrightarrow> (\<exists>p. p + 20 \<le> length (avail s) \<and> u16_of (drop p (avail s)) = SC_SECURITY \<and>
     wrapped_lengths (Stream_Seek s (p + 4)))"

lemma wrapped_block_ahead: "wrapped_block (Stream_Seek s n) \<Longrightarrow> wrapped_block s"
proof -
  assume "wrapped_block (Stream_Seek s n)"
  then obtain p where "p + 20 \<le> length (avail s) - n" "u16_of (drop (p + n) (avail s)) = SC_SECURITY"
    "wrapped_lengths (Stream_Seek s ((p + n) + 4))"
    by (auto simp: wrapped_block_def ac_simps)
  then show ?thesis
    unfolding wrapped_block_def by (intro exI [where x = "p + n"]) auto
qed

lemma server_blocks_ok:
  assumes "swf s" "channels_ok (fst st)" "length (avail s) < fuel"
  shows "\<exists>r. server_blocks fuel env lib s st offset len = Some r \<and> (server_ok s r \<or> r = Overrun \<and> wrapped_block s)"
  using assms
proof (induction fuel arbitrary: s st offset)
  case (Suc fuel)
  let ?type = "u16_of (avail s)" and ?n = "u16_of (drop 2 (avail s))" and ?t = "Stream_Seek s 4"
  show ?case
  proof (cases "offset < len \<and> 4 \<le> length (avail s) \<and> 4 \<le> unat ?n \<and> unat ?n \<le> length (avail s)")
    case False
    then show ?thesis using Suc.prems
      by (auto simp: server_blocks.simps [of "Suc fuel"] gcc_header_swf)
  next
    case True
    let ?r = "gcc_read_server_block env lib ?type ?t st"
    have t: "swf ?t" "ahead s ?t" using True Suc.prems by auto
    have step: "server_blocks (Suc fuel) env lib s st offset len =
        (case ?r of Overrun \<Rightarrow> Some Overrun | Fail u \<Rightarrow> Some (Fail u)
         | Ok st u \<Rightarrow> server_blocks fuel env lib (Stream_SetPosition u (s_pos s + unat ?n)) st (offset + ?n) len)"
      using True Suc.prems
      by (simp add: server_blocks.simps [of "Suc fuel"] gcc_header_swf)
    have block: "server_ok ?t ?r \<or> ?r = Overrun \<and> wrapped_block s"
    proof (cases "?type = SC_SECURITY \<and> 16 \<le> length (avail ?t) \<and> wrapped_lengths ?t")
      case True
      then have "wrapped_block s" by (auto simp: wrapped_block_def intro!: exI [where x = 0])
      then show ?thesis using gcc_read_server_block_ok [OF t(1), of st env lib ?type] Suc.prems by blast
    qed (use gcc_read_server_block_ok [OF t(1), of st env lib ?type] Suc.prems in auto)
    show ?thesis
    proof (cases ?r)
      case (Ok st' u)
      then have u: "ahead ?t u" "channels_ok (fst st')" using block by auto
      then have pos: "Stream_SetPosition u (s_pos s + unat ?n) = Stream_Seek s (unat ?n)"
        using True Suc.prems by (intro Stream_SetPosition_ahead [of s _ 4]) auto
      have "length (avail (Stream_Seek s (unat ?n))) < fuel" using True Suc.prems(3) by simp linarith
      then obtain r where "server_blocks fuel env lib (Stream_Seek s (unat ?n)) st' (offset + ?n) len = Some r"
        "server_ok (Stream_Seek s (unat ?n)) r \<or> r = Overrun \<and> wrapped_block (Stream_Seek s (unat ?n))"
        using Suc.IH [of "Stream_Seek s (unat ?n)" st' "offset + ?n"] u True Suc.prems by auto
      moreover have "ahead s (Stream_Seek s (unat ?n))" using True Suc.prems by simp
      ultimately show ?thesis
        using step Ok pos by (cases r) (auto intro: ahead_trans wrapped_block_ahead)
    qed (use step block t in \<open>auto intro: ahead_trans\<close>)
  qed
qed simp

text \<open>C21: reading the data blocks of a server ends, on any data. It stays inside the data but for one
  case: a security block whose two lengths, added as 32-bit numbers, wrap around.\<close>

theorem gcc_read_server_data_blocks_total:
  assumes "swf s" "unat (channelCount (fst st)) \<le> length (channels (fst st))"
  shows "\<exists>r. gcc_read_server_data_blocks env lib s st len = Some r \<and>
    (if r = Overrun then wrapped_block s else inb s r)"
proof -
  obtain r where "server_blocks (length (avail s) + 1) env lib s st 0 len = Some r"
    "server_ok s r \<or> r = Overrun \<and> wrapped_block s"
    using server_blocks_ok [of s st "length (avail s) + 1" env lib 0 len] assms by (auto simp: channels_ok_def)
  then show ?thesis
    using assms(1) by (cases r) (auto simp: gcc_read_server_data_blocks_def)
qed

theorem gcc_read_server_data_blocks_total_witness:
  "\<exists>r. gcc_read_server_data_blocks good_env plain_library (Stream_New (le16 0x0C03 @ le16 8 @ le16 1003 @ le16 0))
     (fresh_mcs, freerdp_settings_new False []) 8 = Some r \<and>
     (if r = Overrun then wrapped_block (Stream_New (le16 0x0C03 @ le16 8 @ le16 1003 @ le16 0))
      else inb (Stream_New (le16 0x0C03 @ le16 8 @ le16 1003 @ le16 0)) r)"
  by (rule gcc_read_server_data_blocks_total) (simp_all add: fresh_mcs_def mcs_new_def)

text \<open>C25: that case is real. The check on the security block of the server compares the wrapped sum of the
  two lengths with the rest of the data, and the server random is then copied from past the end of the
  data, whatever the settings of the client are.\<close>

theorem gcc_read_server_security_data_overrun:
  assumes "swf s" "avail s = le32 2 @ le32 3 @ le32 random @ le32 cert @ data"
    "2 ^ 32 \<le> unat random + unat cert" "unat random + unat cert - 2 ^ 32 \<le> length data"
    "length data < unat random" "malloc env (unat random) \<noteq> None"
  shows "gcc_read_server_security_data env lib s settings = Overrun"
proof -
  have "unat random < 2 ^ 32" "unat cert < 2 ^ 32"
    using unsigned_less [of random, where ?'a = nat] unsigned_less [of cert, where ?'a = nat] by simp_all
  then have "unat (random + cert) = unat random + unat cert - 2 ^ 32" "random \<noteq> 0" "cert \<noteq> 0"
    using assms(3) by (auto simp: unat_word_ariths mod_nat_eqI)
  then show ?thesis
    using assms by (simp add: gcc_read_server_security_data_def read_now known_encryption_method_def
        valid_crypto_config_def Stream_Read_def Let_def)
qed

theorem gcc_read_server_security_data_overrun_witness:
  "gcc_read_server_security_data good_env plain_library
     (Stream_New (le32 2 @ le32 3 @ le32 0x10000 @ le32 0xFFFF0000)) (freerdp_settings_new False []) = Overrun"
  by (rule gcc_read_server_security_data_overrun [where random = "0x10000" and cert = "0xFFFF0000" and data = "[]"])
    (simp_all add: good_env_def)

subsection \<open>Receiving the connect PDUs\<close>

text \<open>
  \<open>ends W s ro\<close>: the routine ends, inside the data of \<open>s\<close> or, if the data have the defect \<open>W\<close>, possibly
  past them.
\<close>

definition ends :: "(wStream \<Rightarrow> bool) \<Rightarrow> wStream \<Rightarrow> 'a res option \<Rightarrow> bool" where
  "ends W s ro \<longleftrightarrow> (\<exists>r. ro = Some r \<and> (if r = Overrun then W s else inb s r))"

lemma ends_ahead:
  "ends W t ro \<Longrightarrow> ahead s t \<Longrightarrow> (W t \<Longrightarrow> W s) \<Longrightarrow> ends W s ro"
  by (auto simp: ends_def split: if_splits intro: inb_trans)

lemma ends_continue:
  assumes "inb s r" "\<And>a t. \<lbrakk>r = Ok a t; ahead s t\<rbrakk> \<Longrightarrow> ends W s (k a t)"
  shows "ends W s (continue r k)"
  using assms by (cases r) (auto simp: ends_def)

lemma ends_continues:
  assumes "ends W s ro" "\<And>a t. \<lbrakk>ro = Some (Ok a t); ahead s t\<rbrakk> \<Longrightarrow> ends W s (k a t)"
  shows "ends W s (continues ro k)"
proof -
  from assms(1) obtain r where "ro = Some r" "if r = Overrun then W s else inb s r" by (auto simp: ends_def)
  with assms(2) show ?thesis by (cases r) (auto simp: ends_def)
qed

lemma ahead_is_Seek: "ahead s t \<Longrightarrow> t = Stream_Seek s (s_pos t - s_pos s)"
  by (cases s; cases t) (simp add: ahead_def Stream_Seek_def)

lemma wrapped_block_mono: "wrapped_block t \<Longrightarrow> ahead s t \<Longrightarrow> wrapped_block s"
  using wrapped_block_ahead ahead_is_Seek by metis

lemma ber_read_octet_string_tag_nonneg: "ber_read_octet_string_tag s = Ok len t \<Longrightarrow> 0 \<le> len"
  by (auto simp: ber_read_octet_string_tag_def ber_read_length_def andthen_Ok_iff Let_def split: if_splits)

text \<open>The selectors of a Connect-Initial: a length that has been compared with the rest of the data is skipped.\<close>

lemma selector_inb:
  assumes "swf s" "\<And>t. swf t \<Longrightarrow> inb t (k t)"
  shows "inb s (andthen (andthen (ber_read_octet_string_tag s) (\<lambda>len s.
      if c_int (Stream_GetRemainingLength s) < len then Fail s else Ok len s)) (\<lambda>len s. k (Stream_Seek_int s len)))"
  unfolding andthen_assoc
proof (rule inb_andthen)
  show "inb s (ber_read_octet_string_tag s)" using assms(1) by (rule inb_intros)
  fix len t assume t: "ber_read_octet_string_tag s = Ok len t" "ahead s t"
  have "0 \<le> len" "swf t" using t by (auto dest: ber_read_octet_string_tag_nonneg ahead_swf)
  then show "inb t (andthen (if c_int (Stream_GetRemainingLength t) < len then Fail t else Ok len t)
      (\<lambda>len s. k (Stream_Seek_int s len)))"
    using assms(2) [of "Stream_Seek t (nat len)"] by (auto intro: inb_trans [of t "Stream_Seek t (nat len)"])
qed

lemma per_readers_inb_more [inb_intros]:
  "swf s \<Longrightarrow> inb s (per_read_octet_string s h221_cs_key 4 4)"
  "swf s \<Longrightarrow> inb s (per_read_octet_string s h221_sc_key 4 4)"
  by (auto intro!: inb_intros simp: h221_cs_key_def h221_sc_key_def)

lemma inb_if_swf [inb_intros]: "inb s a \<Longrightarrow> inb s b \<Longrightarrow> inb s (if c then a else b)"
  by simp

lemma gcc_read_conference_create_request_ends:
  assumes "swf s" "roomy st"
  shows "ends (\<lambda>_. False) s (gcc_read_conference_create_request lib s st)"
  unfolding gcc_read_conference_create_request_def
proof (rule ends_continue)
  fix len t assume t: "ahead s t"
  obtain r where "gcc_read_client_data_blocks lib t st (uint (len :: u16)) = Some r" "inb t r"
    using client_blocks_inb [of t st "uint len" "nat (uint len)" lib] assms(2) ahead_swf [OF t]
    by (auto simp: gcc_read_client_data_blocks_def dest: inb_roomy_inb)
  with t show "ends (\<lambda>_. False) s (gcc_read_client_data_blocks lib t st (uint len))"
    by (auto simp: ends_def intro: inb_trans)
qed (use assms in \<open>auto intro!: inb_intros\<close>)

lemma gcc_read_conference_create_response_ends:
  assumes "swf s" "channels_ok (fst st)"
  shows "ends wrapped_block s (gcc_read_conference_create_response env lib s st)"
  unfolding gcc_read_conference_create_response_def
proof (rule ends_continue)
  fix len t assume t: "ahead s t"
  obtain r where "gcc_read_server_data_blocks env lib t st len = Some r"
    "server_ok t r \<or> r = Overrun \<and> wrapped_block t"
    using server_blocks_ok [of t st "length (avail t) + 1" env lib 0 len] assms(2) ahead_swf [OF t]
    by (auto simp: gcc_read_server_data_blocks_def)
  with t show "ends wrapped_block s (gcc_read_server_data_blocks env lib t st len)"
    by (cases r) (auto simp: ends_def intro: ahead_trans wrapped_block_mono)
qed (use assms in \<open>auto intro!: inb_intros\<close>)



text \<open>C23: receiving a Connect-Response ends, on any data that hold a TPKT header, and stays inside the data
  unless they contain a security block whose lengths wrap around.\<close>

theorem mcs_recv_connect_response_total:
  assumes "swf s" "4 \<le> length (avail s)" "unat (channelCount (fst st)) \<le> length (channels (fst st))"
  shows "\<exists>r. mcs_recv_connect_response env lib s st = Some r \<and> (if r = Overrun then wrapped_block s else inb s r)"
proof -
  obtain mcs settings where st: "st = (mcs, settings)" by (cases st)
  have "ends wrapped_block s (mcs_recv_connect_response env lib s st)"
    unfolding mcs_recv_connect_response_def st Let_def prod.case
  proof (rule ends_continue, goal_cases)
    case 1
    then show ?case using assms(1,2) by (auto intro!: inb_intros)
  next
    case (2 m t)
    then have "channels m = channels mcs" "channelCount m = channelCount mcs"
      by (auto simp: andthen_Ok_iff)
    then have "channels_ok (fst (m, settings))" using assms(3) by (simp add: st channels_ok_def)
    then show ?case
      by (rule ends_ahead [OF gcc_read_conference_create_response_ends [OF ahead_swf [OF 2(2)]] 2(2)])
        (rule wrapped_block_mono [OF _ 2(2)])
  qed
  then show ?thesis by (simp add: ends_def)
qed

theorem mcs_recv_connect_response_total_witness:
  "\<exists>r. mcs_recv_connect_response good_env plain_library (Stream_New [3, 0, 0, 7, 2, 0xF0, 0x80])
     (fresh_mcs, freerdp_settings_new False []) = Some r \<and>
     (if r = Overrun then wrapped_block (Stream_New [3, 0, 0, 7, 2, 0xF0, 0x80])
      else inb (Stream_New [3, 0, 0, 7, 2, 0xF0, 0x80]) r)"
  by (rule mcs_recv_connect_response_total) (simp_all add: fresh_mcs_def mcs_new_def)

end
