(* ===== verification/Security.thy ===== *)
theory Security
  imports Gcc "HOL-Library.Monad_Syntax"
begin

text \<open>
  Standard RDP security (libfreerdp/core/security.c): the keys both sides derive from the client and the
  server random, the RC4 and 3DES encryption of a session with its key updates, and the message
  authentication codes.

  OpenSSL is the parameter: SHA-1, MD5, HMAC-SHA1, the RC4 key stream and 3DES in CBC mode. A pointer the
  code reads from is the block of memory behind it, and None is a crash: a read or a write outside of
  that block, a null pointer that is followed, or the call of \<open>abort\<close>.
\<close>

subsection \<open>The state\<close>

record crypto =
  sha1_init :: bool
  sha1 :: "bytes \<Rightarrow> bytes"
  md5_init :: bool
  md5 :: "bytes \<Rightarrow> bytes"
  rc4_init :: bool
  rc4_stream :: "bytes \<Rightarrow> nat \<Rightarrow> u8"
  hmac_init :: bool
  hmac_sha1 :: "bytes \<Rightarrow> bytes \<Rightarrow> bytes"
  des3_init :: bool
  des3_cbc_encrypt :: "bytes \<Rightarrow> bytes \<Rightarrow> bytes \<Rightarrow> bytes"
  des3_cbc_decrypt :: "bytes \<Rightarrow> bytes \<Rightarrow> bytes \<Rightarrow> bytes"
  stack_byte :: u8

text \<open>
  The \<open>init\<close> fields say whether the library can allocate what the call needs. A context of RC4 is its
  key and the number of bytes of the key stream used so far; a context of 3DES is the key, the
  initialisation vector and what went through it so far. \<open>stack_byte\<close> is the byte behind a local array.
  Of what the callbacks of the application are told, \<open>rdp_events\<close> keeps the history, newest first.
\<close>

record rc4 =
  rc4_key :: bytes
  rc4_used :: nat

record des3 =
  des3_key :: bytes
  des3_ivec :: bytes
  des3_done :: bytes

record secSettings = gccSettings +
  ClientRandom :: bytes
  SaltedChecksum :: bool
  ShareId :: u32
  PduSource :: u32
  BitmapCachePersistEnabled :: bool
  Authentication :: bool
  ReceivedCapabilities :: "u16 \<Rightarrow> bool"
  SurfaceCommandsEnabled :: bool
  SurfaceFrameMarkerEnabled :: bool
  FrameAcknowledge :: u32
  BitmapCacheV3Enabled :: bool
  NSCodec :: bool
  JpegCodec :: bool
  MultifragMaxRequestSize :: u32
  LargePointerFlag :: u32

datatype CONNECTION_STATE =
    CONNECTION_STATE_INITIAL
  | CONNECTION_STATE_NEGO
  | CONNECTION_STATE_NLA
  | CONNECTION_STATE_MCS_CONNECT
  | CONNECTION_STATE_MCS_ERECT_DOMAIN
  | CONNECTION_STATE_MCS_ATTACH_USER
  | CONNECTION_STATE_MCS_CHANNEL_JOIN
  | CONNECTION_STATE_RDP_SECURITY_COMMENCEMENT
  | CONNECTION_STATE_SECURE_SETTINGS_EXCHANGE
  | CONNECTION_STATE_CONNECT_TIME_AUTO_DETECT
  | CONNECTION_STATE_LICENSING
  | CONNECTION_STATE_MULTITRANSPORT_BOOTSTRAPPING
  | CONNECTION_STATE_CAPABILITIES_EXCHANGE
  | CONNECTION_STATE_FINALIZATION
  | CONNECTION_STATE_ACTIVE

text \<open>The code compares states with \<open><\<close>, as the numbers of the enumeration.\<close>

primrec state_number :: "CONNECTION_STATE \<Rightarrow> nat" where
  "state_number CONNECTION_STATE_INITIAL = 0"
| "state_number CONNECTION_STATE_NEGO = 1"
| "state_number CONNECTION_STATE_NLA = 2"
| "state_number CONNECTION_STATE_MCS_CONNECT = 3"
| "state_number CONNECTION_STATE_MCS_ERECT_DOMAIN = 4"
| "state_number CONNECTION_STATE_MCS_ATTACH_USER = 5"
| "state_number CONNECTION_STATE_MCS_CHANNEL_JOIN = 6"
| "state_number CONNECTION_STATE_RDP_SECURITY_COMMENCEMENT = 7"
| "state_number CONNECTION_STATE_SECURE_SETTINGS_EXCHANGE = 8"
| "state_number CONNECTION_STATE_CONNECT_TIME_AUTO_DETECT = 9"
| "state_number CONNECTION_STATE_LICENSING = 10"
| "state_number CONNECTION_STATE_MULTITRANSPORT_BOOTSTRAPPING = 11"
| "state_number CONNECTION_STATE_CAPABILITIES_EXCHANGE = 12"
| "state_number CONNECTION_STATE_FINALIZATION = 13"
| "state_number CONNECTION_STATE_ACTIVE = 14"

lemma state_number_inject: "state_number a = state_number b \<Longrightarrow> a = b"
  by (cases a; cases b) simp_all

instantiation CONNECTION_STATE :: linorder
begin

definition less_eq_CONNECTION_STATE :: "CONNECTION_STATE \<Rightarrow> CONNECTION_STATE \<Rightarrow> bool" where
  "less_eq_CONNECTION_STATE a b \<longleftrightarrow> state_number a \<le> state_number b"

definition less_CONNECTION_STATE :: "CONNECTION_STATE \<Rightarrow> CONNECTION_STATE \<Rightarrow> bool" where
  "less_CONNECTION_STATE a b \<longleftrightarrow> state_number a < state_number b"

instance
  by standard (auto simp: less_eq_CONNECTION_STATE_def less_CONNECTION_STATE_def dest: state_number_inject)

end

lemmas state_order = less_eq_CONNECTION_STATE_def less_CONNECTION_STATE_def

datatype rdp_event = ErrorInfo u32 | Terminate | SetKeyboardIndicators u16 | Sent bytes | ChannelData u16 bytes

record rdpRdp =
  conn_state :: CONNECTION_STATE
  rdp_settings :: secSettings
  rdp_mcs :: rdpMcs
  rc4_decrypt_key :: "rc4 option"
  decrypt_use_count :: int
  decrypt_checksum_use_count :: int
  rc4_encrypt_key :: "rc4 option"
  encrypt_use_count :: int
  encrypt_checksum_use_count :: int
  fips_encrypt :: "des3 option"
  fips_decrypt :: "des3 option"
  fips_hmac :: bool
  sec_flags :: u32
  do_crypt :: bool
  do_crypt_license :: bool
  do_secure_checksum :: bool
  sign_key :: bytes
  decrypt_key :: bytes
  encrypt_key :: bytes
  decrypt_update_key :: bytes
  encrypt_update_key :: bytes
  rc4_key_len :: nat
  fips_sign_key :: bytes
  fips_encrypt_key :: bytes
  fips_decrypt_key :: bytes
  errorInfo :: u32
  finalize_sc_pdus :: u32
  resendFocus :: bool
  deactivation_reactivation :: bool
  AwaitCapabilities :: bool
  LastError :: u32
  has_instance :: bool
  abort_event :: bool
  rdp_events :: "rdp_event list"

abbreviation (input) ENC_METHOD :: "rdpRdp \<Rightarrow> u32" where
  "ENC_METHOD rdp \<equiv> EncryptionMethods (rdp_settings rdp)"

definition rdp_new :: "secSettings \<Rightarrow> bool \<Rightarrow> rdpRdp" where
  \<comment> \<open>The fields modelled here, when every allocation succeeds; the flag is whether the context has an
    instance, as that of a client has.\<close>
  "rdp_new settings inst =
     \<lparr>conn_state = CONNECTION_STATE_INITIAL, rdp_settings = settings, rdp_mcs = the (mcs_new True True),
      rc4_decrypt_key = None, decrypt_use_count = 0, decrypt_checksum_use_count = 0,
      rc4_encrypt_key = None, encrypt_use_count = 0, encrypt_checksum_use_count = 0,
      fips_encrypt = None, fips_decrypt = None, fips_hmac = False, sec_flags = 0,
      do_crypt = False, do_crypt_license = False, do_secure_checksum = False,
      sign_key = replicate 16 0, decrypt_key = replicate 16 0, encrypt_key = replicate 16 0,
      decrypt_update_key = replicate 16 0, encrypt_update_key = replicate 16 0, rc4_key_len = 0,
      fips_sign_key = replicate 20 0, fips_encrypt_key = replicate 24 0, fips_decrypt_key = replicate 24 0,
      errorInfo = 0, finalize_sc_pdus = 0, resendFocus = False, deactivation_reactivation = False,
      AwaitCapabilities = False, LastError = 0, has_instance = inst, abort_event = False, rdp_events = []\<rparr>"

definition fetch :: "bytes \<Rightarrow> nat \<Rightarrow> nat \<Rightarrow> bytes option" where
  \<comment> \<open>\<open>n\<close> bytes of a block, from offset \<open>i\<close> on.\<close>
  "fetch p i n = (if length p < i + n then None else Some (take n (drop i p)))"

definition size_of_int32 :: "int \<Rightarrow> nat" where
  \<comment> \<open>An int that is passed as a UINT32.\<close>
  "size_of_int32 i = nat (i mod 2 ^ 32)"

subsection \<open>Constants\<close>

definition pad1 :: bytes where
  "pad1 = replicate 40 0x36"

definition pad2 :: bytes where
  "pad2 = replicate 48 0x5C"

definition fips_reverse_table :: bytes where
  "fips_reverse_table =
    [0x00, 0x80, 0x40, 0xc0, 0x20, 0xa0, 0x60, 0xe0, 0x10, 0x90, 0x50, 0xd0, 0x30, 0xb0, 0x70, 0xf0,
     0x08, 0x88, 0x48, 0xc8, 0x28, 0xa8, 0x68, 0xe8, 0x18, 0x98, 0x58, 0xd8, 0x38, 0xb8, 0x78, 0xf8,
     0x04, 0x84, 0x44, 0xc4, 0x24, 0xa4, 0x64, 0xe4, 0x14, 0x94, 0x54, 0xd4, 0x34, 0xb4, 0x74, 0xf4,
     0x0c, 0x8c, 0x4c, 0xcc, 0x2c, 0xac, 0x6c, 0xec, 0x1c, 0x9c, 0x5c, 0xdc, 0x3c, 0xbc, 0x7c, 0xfc,
     0x02, 0x82, 0x42, 0xc2, 0x22, 0xa2, 0x62, 0xe2, 0x12, 0x92, 0x52, 0xd2, 0x32, 0xb2, 0x72, 0xf2,
     0x0a, 0x8a, 0x4a, 0xca, 0x2a, 0xaa, 0x6a, 0xea, 0x1a, 0x9a, 0x5a, 0xda, 0x3a, 0xba, 0x7a, 0xfa,
     0x06, 0x86, 0x46, 0xc6, 0x26, 0xa6, 0x66, 0xe6, 0x16, 0x96, 0x56, 0xd6, 0x36, 0xb6, 0x76, 0xf6,
     0x0e, 0x8e, 0x4e, 0xce, 0x2e, 0xae, 0x6e, 0xee, 0x1e, 0x9e, 0x5e, 0xde, 0x3e, 0xbe, 0x7e, 0xfe,
     0x01, 0x81, 0x41, 0xc1, 0x21, 0xa1, 0x61, 0xe1, 0x11, 0x91, 0x51, 0xd1, 0x31, 0xb1, 0x71, 0xf1,
     0x09, 0x89, 0x49, 0xc9, 0x29, 0xa9, 0x69, 0xe9, 0x19, 0x99, 0x59, 0xd9, 0x39, 0xb9, 0x79, 0xf9,
     0x05, 0x85, 0x45, 0xc5, 0x25, 0xa5, 0x65, 0xe5, 0x15, 0x95, 0x55, 0xd5, 0x35, 0xb5, 0x75, 0xf5,
     0x0d, 0x8d, 0x4d, 0xcd, 0x2d, 0xad, 0x6d, 0xed, 0x1d, 0x9d, 0x5d, 0xdd, 0x3d, 0xbd, 0x7d, 0xfd,
     0x03, 0x83, 0x43, 0xc3, 0x23, 0xa3, 0x63, 0xe3, 0x13, 0x93, 0x53, 0xd3, 0x33, 0xb3, 0x73, 0xf3,
     0x0b, 0x8b, 0x4b, 0xcb, 0x2b, 0xab, 0x6b, 0xeb, 0x1b, 0x9b, 0x5b, 0xdb, 0x3b, 0xbb, 0x7b, 0xfb,
     0x07, 0x87, 0x47, 0xc7, 0x27, 0xa7, 0x67, 0xe7, 0x17, 0x97, 0x57, 0xd7, 0x37, 0xb7, 0x77, 0xf7,
     0x0f, 0x8f, 0x4f, 0xcf, 0x2f, 0xaf, 0x6f, 0xef, 0x1f, 0x9f, 0x5f, 0xdf, 0x3f, 0xbf, 0x7f, 0xff]"

definition fips_oddparity_table :: bytes where
  "fips_oddparity_table =
    [0x01, 0x01, 0x02, 0x02, 0x04, 0x04, 0x07, 0x07, 0x08, 0x08, 0x0b, 0x0b, 0x0d, 0x0d, 0x0e, 0x0e,
     0x10, 0x10, 0x13, 0x13, 0x15, 0x15, 0x16, 0x16, 0x19, 0x19, 0x1a, 0x1a, 0x1c, 0x1c, 0x1f, 0x1f,
     0x20, 0x20, 0x23, 0x23, 0x25, 0x25, 0x26, 0x26, 0x29, 0x29, 0x2a, 0x2a, 0x2c, 0x2c, 0x2f, 0x2f,
     0x31, 0x31, 0x32, 0x32, 0x34, 0x34, 0x37, 0x37, 0x38, 0x38, 0x3b, 0x3b, 0x3d, 0x3d, 0x3e, 0x3e,
     0x40, 0x40, 0x43, 0x43, 0x45, 0x45, 0x46, 0x46, 0x49, 0x49, 0x4a, 0x4a, 0x4c, 0x4c, 0x4f, 0x4f,
     0x51, 0x51, 0x52, 0x52, 0x54, 0x54, 0x57, 0x57, 0x58, 0x58, 0x5b, 0x5b, 0x5d, 0x5d, 0x5e, 0x5e,
     0x61, 0x61, 0x62, 0x62, 0x64, 0x64, 0x67, 0x67, 0x68, 0x68, 0x6b, 0x6b, 0x6d, 0x6d, 0x6e, 0x6e,
     0x70, 0x70, 0x73, 0x73, 0x75, 0x75, 0x76, 0x76, 0x79, 0x79, 0x7a, 0x7a, 0x7c, 0x7c, 0x7f, 0x7f,
     0x80, 0x80, 0x83, 0x83, 0x85, 0x85, 0x86, 0x86, 0x89, 0x89, 0x8a, 0x8a, 0x8c, 0x8c, 0x8f, 0x8f,
     0x91, 0x91, 0x92, 0x92, 0x94, 0x94, 0x97, 0x97, 0x98, 0x98, 0x9b, 0x9b, 0x9d, 0x9d, 0x9e, 0x9e,
     0xa1, 0xa1, 0xa2, 0xa2, 0xa4, 0xa4, 0xa7, 0xa7, 0xa8, 0xa8, 0xab, 0xab, 0xad, 0xad, 0xae, 0xae,
     0xb0, 0xb0, 0xb3, 0xb3, 0xb5, 0xb5, 0xb6, 0xb6, 0xb9, 0xb9, 0xba, 0xba, 0xbc, 0xbc, 0xbf, 0xbf,
     0xc1, 0xc1, 0xc2, 0xc2, 0xc4, 0xc4, 0xc7, 0xc7, 0xc8, 0xc8, 0xcb, 0xcb, 0xcd, 0xcd, 0xce, 0xce,
     0xd0, 0xd0, 0xd3, 0xd3, 0xd5, 0xd5, 0xd6, 0xd6, 0xd9, 0xd9, 0xda, 0xda, 0xdc, 0xdc, 0xdf, 0xdf,
     0xe0, 0xe0, 0xe3, 0xe3, 0xe5, 0xe5, 0xe6, 0xe6, 0xe9, 0xe9, 0xea, 0xea, 0xec, 0xec, 0xef, 0xef,
     0xf1, 0xf1, 0xf2, 0xf2, 0xf4, 0xf4, 0xf7, 0xf7, 0xf8, 0xf8, 0xfb, 0xfb, 0xfd, 0xfd, 0xfe, 0xfe]"

subsection \<open>Key derivation\<close>

text \<open>
  A derivation returns FALSE, which is \<open>Some None\<close>, when a hash context cannot be allocated.
\<close>

definition security_salted_hash :: "crypto \<Rightarrow> bytes \<Rightarrow> bytes \<Rightarrow> bytes \<Rightarrow> bytes \<Rightarrow> bytes option option" where
  "security_salted_hash c salt input salt1 salt2 =
     (if \<not> sha1_init c then Some None
      else do {
        s \<leftarrow> fetch salt 0 48;
        s1 \<leftarrow> fetch salt1 0 32;
        s2 \<leftarrow> fetch salt2 0 32;
        let sha1_digest = sha1 c (input @ s @ s1 @ s2);
        if \<not> md5_init c then Some None else Some (Some (md5 c (s @ sha1_digest)))
      })"

definition security_premaster_hash :: "crypto \<Rightarrow> bytes \<Rightarrow> bytes \<Rightarrow> bytes \<Rightarrow> bytes \<Rightarrow> bytes option option" where
  "security_premaster_hash c input premaster_secret client_random server_random =
     security_salted_hash c premaster_secret input client_random server_random"

definition security_master_hash :: "crypto \<Rightarrow> bytes \<Rightarrow> bytes \<Rightarrow> bytes \<Rightarrow> bytes \<Rightarrow> bytes option option" where
  "security_master_hash c input master_secret client_random server_random =
     security_salted_hash c master_secret input server_random client_random"

definition three_hashes :: "(bytes \<Rightarrow> bytes option option) \<Rightarrow> bytes \<Rightarrow> bytes \<Rightarrow> bytes \<Rightarrow> bytes option option" where
  \<comment> \<open>Three hashes side by side, with \<open>&&\<close> between them.\<close>
  "three_hashes h a b d =
     (case h a of None \<Rightarrow> None | Some None \<Rightarrow> Some None | Some (Some x) \<Rightarrow>
     (case h b of None \<Rightarrow> None | Some None \<Rightarrow> Some None | Some (Some y) \<Rightarrow>
     (case h d of None \<Rightarrow> None | Some None \<Rightarrow> Some None | Some (Some z) \<Rightarrow> Some (Some (x @ y @ z)))))"

definition security_master_secret :: "crypto \<Rightarrow> bytes \<Rightarrow> bytes \<Rightarrow> bytes \<Rightarrow> bytes option option" where
  "security_master_secret c premaster_secret client_random server_random =
     three_hashes (\<lambda>input. security_premaster_hash c input premaster_secret client_random server_random)
       [0x41] [0x42, 0x42] [0x43, 0x43, 0x43]"

definition security_session_key_blob :: "crypto \<Rightarrow> bytes \<Rightarrow> bytes \<Rightarrow> bytes \<Rightarrow> bytes option option" where
  "security_session_key_blob c master_secret client_random server_random =
     three_hashes (\<lambda>input. security_master_hash c input master_secret client_random server_random)
       [0x41] [0x42, 0x42] [0x43, 0x43, 0x43]"

definition security_mac_salt_key :: "bytes \<Rightarrow> bytes option" where
  "security_mac_salt_key session_key_blob = fetch session_key_blob 0 16"

definition security_md5_16_32_32 :: "crypto \<Rightarrow> bytes \<Rightarrow> bytes \<Rightarrow> bytes \<Rightarrow> bytes option option" where
  "security_md5_16_32_32 c in0 in1 in2 =
     (if \<not> md5_init c then Some None
      else do {
        a \<leftarrow> fetch in0 0 16;
        b \<leftarrow> fetch in1 0 32;
        d \<leftarrow> fetch in2 0 32;
        Some (Some (md5 c (a @ b @ d)))
      })"

definition security_licensing_encryption_key :: "crypto \<Rightarrow> bytes \<Rightarrow> bytes \<Rightarrow> bytes \<Rightarrow> bytes option option" where
  "security_licensing_encryption_key c session_key_blob client_random server_random =
     security_md5_16_32_32 c (drop 16 session_key_blob) client_random server_random"

definition security_A :: "crypto \<Rightarrow> bytes \<Rightarrow> bytes \<Rightarrow> bytes \<Rightarrow> bytes option option" where
  "security_A c master_secret client_random server_random =
     three_hashes (\<lambda>input. security_premaster_hash c input master_secret client_random server_random)
       [0x41] [0x42, 0x42] [0x43, 0x43, 0x43]"

definition security_X :: "crypto \<Rightarrow> bytes \<Rightarrow> bytes \<Rightarrow> bytes \<Rightarrow> bytes option option" where
  "security_X c master_secret client_random server_random =
     three_hashes (\<lambda>input. security_premaster_hash c input master_secret client_random server_random)
       [0x58] [0x59, 0x59] [0x5A, 0x5A, 0x5A]"

subsection \<open>Message authentication codes\<close>

definition security_UINT32_le :: "u32 \<Rightarrow> bytes" where
  "security_UINT32_le v =
     [ucast (v AND 0xFF), ucast (drop_bit 8 v AND 0xFF), ucast (drop_bit 16 v AND 0xFF), ucast (drop_bit 24 v AND 0xFF)]"

definition security_mac_data :: "crypto \<Rightarrow> bytes \<Rightarrow> bytes \<Rightarrow> u32 \<Rightarrow> bytes option option" where
  "security_mac_data c mac_salt_key data len =
     (if \<not> sha1_init c then Some None
      else do {
        k \<leftarrow> fetch mac_salt_key 0 16;
        d \<leftarrow> fetch data 0 (unat len);
        let sha1_digest = sha1 c (k @ pad1 @ security_UINT32_le len @ d);
        if \<not> md5_init c then Some None else Some (Some (md5 c (k @ pad2 @ sha1_digest)))
      })"

definition security_mac_signature :: "crypto \<Rightarrow> rdpRdp \<Rightarrow> bytes \<Rightarrow> u32 \<Rightarrow> bytes option option" where
  "security_mac_signature c rdp data len =
     (if \<not> sha1_init c then Some None
      else do {
        k \<leftarrow> fetch (sign_key rdp) 0 (rc4_key_len rdp);
        d \<leftarrow> fetch data 0 (unat len);
        let sha1_digest = sha1 c (k @ pad1 @ security_UINT32_le len @ d);
        if \<not> md5_init c then Some None else Some (Some (take 8 (md5 c (k @ pad2 @ sha1_digest))))
      })"

definition security_salted_mac_signature :: "crypto \<Rightarrow> rdpRdp \<Rightarrow> bytes \<Rightarrow> u32 \<Rightarrow> bool \<Rightarrow> bytes option option" where
  "security_salted_mac_signature c rdp data len encryption =
     (let use_count = (if encryption then encrypt_checksum_use_count rdp else decrypt_checksum_use_count rdp - 1)
      in if \<not> sha1_init c then Some None
         else do {
           k \<leftarrow> fetch (sign_key rdp) 0 (rc4_key_len rdp);
           d \<leftarrow> fetch data 0 (unat len);
           let sha1_digest = sha1 c (k @ pad1 @ security_UINT32_le len @ d @ security_UINT32_le (word_of_int use_count));
           if \<not> md5_init c then Some None else Some (Some (take 8 (md5 c (k @ pad2 @ sha1_digest))))
         })"

subsection \<open>Establishing the keys\<close>

definition fips_expand_byte :: "bytes \<Rightarrow> nat \<Rightarrow> u8" where
  \<comment> \<open>The second loop of \<open>fips_expand_key_bits\<close>, for the bit offset \<open>b\<close>.\<close>
  "fips_expand_byte buf b =
     (let p = b div 8; r = b mod 8
      in if r = 0 then buf ! p AND 0xfe
         else (push_bit r (buf ! p) OR drop_bit (8 - r) (buf ! (p + 1))) AND 0xfe)"

definition fips_expand_key_bits :: "crypto \<Rightarrow> bytes \<Rightarrow> bytes" where
  \<comment> \<open>The last round reads the byte behind the 21 bytes of \<open>buf\<close>.\<close>
  "fips_expand_key_bits c key =
     (let buf = map (\<lambda>i. fips_reverse_table ! unat (key ! i)) [0..<21] @ [stack_byte c];
          out = map (\<lambda>i. fips_expand_byte buf (7 * i)) [0..<24]
      in map (\<lambda>b. fips_oddparity_table ! unat (fips_reverse_table ! unat b)) out)"

definition establish_fips_keys :: "crypto \<Rightarrow> bytes \<Rightarrow> rdpRdp \<Rightarrow> (bool \<times> rdpRdp) option" where
  \<comment> \<open>The part of \<open>security_establish_keys\<close> for \<open>ENCRYPTION_METHOD_FIPS\<close>.\<close>
  "establish_fips_keys c client_random rdp =
     (let server_random = ServerRandom (rdp_settings rdp)
      in if \<not> sha1_init c then Some (False, rdp)
         else do {
           cr \<leftarrow> fetch client_random 16 16;
           sr \<leftarrow> fetch server_random 16 16;
           let digest = sha1 c (cr @ sr);
           let client_encrypt_key_t = digest @ [digest ! 0];
           cr \<leftarrow> fetch client_random 0 16;
           sr \<leftarrow> fetch server_random 0 16;
           let digest = sha1 c (cr @ sr);
           let client_decrypt_key_t = digest @ [digest ! 0];
           let rdp = rdp\<lparr>fips_sign_key := sha1 c (take 20 client_decrypt_key_t @ take 20 client_encrypt_key_t)\<rparr>;
           Some (True,
             if ServerMode (rdp_settings rdp)
             then rdp\<lparr>fips_decrypt_key := fips_expand_key_bits c client_encrypt_key_t,
                      fips_encrypt_key := fips_expand_key_bits c client_decrypt_key_t\<rparr>
             else rdp\<lparr>fips_encrypt_key := fips_expand_key_bits c client_encrypt_key_t,
                      fips_decrypt_key := fips_expand_key_bits c client_decrypt_key_t\<rparr>)
         })"

definition salt_key :: "nat \<Rightarrow> bytes \<Rightarrow> bytes" where
  \<comment> \<open>\<open>memcpy(key, salt, n)\<close>.\<close>
  "salt_key n key = take n [0xD1, 0x26, 0x9E] @ drop n key"

definition security_salt_keys :: "rdpRdp \<Rightarrow> rdpRdp" where
  \<comment> \<open>The end of \<open>security_establish_keys\<close>, from the comparison with \<open>ENCRYPTION_METHOD_40BIT\<close> on.\<close>
  "security_salt_keys rdp =
     (let salted = (\<lambda>n. rdp\<lparr>sign_key := salt_key n (sign_key rdp), decrypt_key := salt_key n (decrypt_key rdp),
                            encrypt_key := salt_key n (encrypt_key rdp), rc4_key_len := 8\<rparr>);
          rdp = (if ENC_METHOD rdp = ENCRYPTION_METHOD_40BIT then salted 3
                 else if ENC_METHOD rdp = ENCRYPTION_METHOD_56BIT then salted 1
                 else if ENC_METHOD rdp = ENCRYPTION_METHOD_128BIT then rdp\<lparr>rc4_key_len := 16\<rparr>
                 else rdp)
      in rdp\<lparr>decrypt_update_key := decrypt_key rdp, encrypt_update_key := encrypt_key rdp,
             decrypt_use_count := 0, decrypt_checksum_use_count := 0,
             encrypt_use_count := 0, encrypt_checksum_use_count := 0\<rparr>)"

definition establish_session_keys :: "crypto \<Rightarrow> bytes \<Rightarrow> rdpRdp \<Rightarrow> (bool \<times> rdpRdp) option" where
  \<comment> \<open>\<open>security_establish_keys\<close> after the part for FIPS.\<close>
  "establish_session_keys c client_random rdp =
     (let server_random = ServerRandom (rdp_settings rdp)
      in do {
        cr \<leftarrow> fetch client_random 0 24;
        sr \<leftarrow> fetch server_random 0 24;
        a \<leftarrow> security_A c (cr @ sr) client_random server_random;
        case a of None \<Rightarrow> Some (False, rdp) | Some master_secret \<Rightarrow> do {
        x \<leftarrow> security_X c master_secret client_random server_random;
        case x of None \<Rightarrow> Some (False, rdp) | Some session_key_blob \<Rightarrow> do {
        sign \<leftarrow> fetch session_key_blob 0 16;
        let rdp = rdp\<lparr>sign_key := sign\<rparr>;
        k16 \<leftarrow> security_md5_16_32_32 c (drop 16 session_key_blob) client_random server_random;
        k32 \<leftarrow> security_md5_16_32_32 c (drop 32 session_key_blob) client_random server_random;
        let server = ServerMode (rdp_settings rdp);
        let rdp = (case if server then k16 else k32 of None \<Rightarrow> rdp | Some k \<Rightarrow> rdp\<lparr>encrypt_key := k\<rparr>);
        let rdp = (case if server then k32 else k16 of None \<Rightarrow> rdp | Some k \<Rightarrow> rdp\<lparr>decrypt_key := k\<rparr>);
        if k16 = None \<or> k32 = None then Some (False, rdp)
        else Some (True, security_salt_keys rdp)
        }}
      })"

definition security_establish_keys :: "crypto \<Rightarrow> bytes \<Rightarrow> rdpRdp \<Rightarrow> (bool \<times> rdpRdp) option" where
  "security_establish_keys c client_random rdp =
     (if ENC_METHOD rdp = ENCRYPTION_METHOD_FIPS
      then do {
        (ok, rdp) \<leftarrow> establish_fips_keys c client_random rdp;
        if \<not> ok then Some (False, rdp) else establish_session_keys c client_random rdp
      }
      else establish_session_keys c client_random rdp)"

subsection \<open>Encryption\<close>

definition crypto_rc4 :: "crypto \<Rightarrow> rc4 \<Rightarrow> bytes \<Rightarrow> bytes \<times> rc4" where
  "crypto_rc4 c rc4 data =
     (map2 (XOR) data (map (\<lambda>i. rc4_stream c (rc4_key rc4) (rc4_used rc4 + i)) [0..<length data]),
      rc4\<lparr>rc4_used := rc4_used rc4 + length data\<rparr>)"

definition crypto_rc4_init :: "crypto \<Rightarrow> bytes \<Rightarrow> nat \<Rightarrow> rc4 option option" where
  "crypto_rc4_init c key len =
     (if \<not> rc4_init c then Some None
      else do { k \<leftarrow> fetch key 0 len; Some (Some \<lparr>rc4_key = k, rc4_used = 0\<rparr>) })"

definition security_key_update :: "crypto \<Rightarrow> bytes \<Rightarrow> bytes \<Rightarrow> nat \<Rightarrow> rdpRdp \<Rightarrow> (bool \<times> bytes) option" where
  \<comment> \<open>With the new content of \<open>key\<close>.\<close>
  "security_key_update c key update_key key_len rdp =
     (if \<not> sha1_init c then Some (False, key)
      else do {
        u \<leftarrow> fetch update_key 0 key_len;
        k \<leftarrow> fetch key 0 key_len;
        let sha1h = sha1 c (u @ pad1 @ k);
        if \<not> md5_init c then Some (False, key)
        else do {
          let key = md5 c (u @ pad2 @ sha1h);
          r \<leftarrow> crypto_rc4_init c key key_len;
          case r of None \<Rightarrow> Some (False, key) | Some rc4 \<Rightarrow> do {
            k \<leftarrow> fetch key 0 key_len;
            let key = fst (crypto_rc4 c rc4 k) @ drop key_len key;
            Some (True,
              if ENC_METHOD rdp = ENCRYPTION_METHOD_40BIT then salt_key 3 key
              else if ENC_METHOD rdp = ENCRYPTION_METHOD_56BIT then salt_key 1 key
              else key)
          }
        }
      })"

definition crypto_rc4_at :: "crypto \<Rightarrow> rc4 option \<Rightarrow> int \<Rightarrow> bytes \<Rightarrow> (bytes \<times> rc4) option" where
  \<comment> \<open>\<open>crypto_rc4(rc4, length, data, data)\<close>: the int is passed as a UINT32, the context may be NULL.\<close>
  "crypto_rc4_at c rc4 len data =
     (case rc4 of None \<Rightarrow> None
      | Some rc4 \<Rightarrow> do {
          d \<leftarrow> fetch data 0 (size_of_int32 len);
          let (out, rc4) = crypto_rc4 c rc4 d;
          Some (out @ drop (size_of_int32 len) data, rc4)
        })"

definition update_encrypt_key :: "crypto \<Rightarrow> rdpRdp \<Rightarrow> (bool \<times> rdpRdp) option" where
  \<comment> \<open>\<open>security_encrypt\<close> when the key was used 4096 times.\<close>
  "update_encrypt_key c rdp =
     do {
       (ok, key) \<leftarrow> security_key_update c (encrypt_key rdp) (encrypt_update_key rdp) (rc4_key_len rdp) rdp;
       let rdp = rdp\<lparr>encrypt_key := key\<rparr>;
       if \<not> ok then Some (False, rdp)
       else do {
         r \<leftarrow> crypto_rc4_init c (encrypt_key rdp) (rc4_key_len rdp);
         let rdp = rdp\<lparr>rc4_encrypt_key := r\<rparr>;
         if r = None then Some (False, rdp) else Some (True, rdp\<lparr>encrypt_use_count := 0\<rparr>)
       }
     }"

definition security_encrypt :: "crypto \<Rightarrow> bytes \<Rightarrow> int \<Rightarrow> rdpRdp \<Rightarrow> (bool \<times> bytes \<times> rdpRdp) option" where
  \<comment> \<open>With the data as they are afterwards.\<close>
  "security_encrypt c data len rdp =
     do {
       (ok, rdp) \<leftarrow> (if encrypt_use_count rdp \<ge> 4096 then update_encrypt_key c rdp else Some (True, rdp));
       if \<not> ok then Some (False, data, rdp)
       else do {
         (data, rc4) \<leftarrow> crypto_rc4_at c (rc4_encrypt_key rdp) len data;
         Some (True, data, rdp\<lparr>rc4_encrypt_key := Some rc4, encrypt_use_count := encrypt_use_count rdp + 1,
                               encrypt_checksum_use_count := encrypt_checksum_use_count rdp + 1\<rparr>)
       }
     }"

definition update_decrypt_key :: "crypto \<Rightarrow> rdpRdp \<Rightarrow> (bool \<times> rdpRdp) option" where
  \<comment> \<open>\<open>security_decrypt\<close> when the key was used 4096 times.\<close>
  "update_decrypt_key c rdp =
     do {
       (ok, key) \<leftarrow> security_key_update c (decrypt_key rdp) (decrypt_update_key rdp) (rc4_key_len rdp) rdp;
       let rdp = rdp\<lparr>decrypt_key := key\<rparr>;
       if \<not> ok then Some (False, rdp)
       else do {
         r \<leftarrow> crypto_rc4_init c (decrypt_key rdp) (rc4_key_len rdp);
         let rdp = rdp\<lparr>rc4_decrypt_key := r\<rparr>;
         if r = None then Some (False, rdp) else Some (True, rdp\<lparr>decrypt_use_count := 0\<rparr>)
       }
     }"

definition security_decrypt :: "crypto \<Rightarrow> bytes \<Rightarrow> int \<Rightarrow> rdpRdp \<Rightarrow> (bool \<times> bytes \<times> rdpRdp) option" where
  "security_decrypt c data len rdp =
     (if rc4_decrypt_key rdp = None then Some (False, data, rdp)
      else do {
        (ok, rdp) \<leftarrow> (if decrypt_use_count rdp \<ge> 4096 then update_decrypt_key c rdp else Some (True, rdp));
        if \<not> ok then Some (False, data, rdp)
        else do {
          (data, rc4) \<leftarrow> crypto_rc4_at c (rc4_decrypt_key rdp) len data;
          Some (True, data, rdp\<lparr>rc4_decrypt_key := Some rc4, decrypt_use_count := decrypt_use_count rdp + 1,
                                decrypt_checksum_use_count := decrypt_checksum_use_count rdp + 1\<rparr>)
        }
      })"

subsection \<open>FIPS\<close>

definition security_hmac_signature :: "crypto \<Rightarrow> bytes \<Rightarrow> int \<Rightarrow> rdpRdp \<Rightarrow> bytes option option" where
  "security_hmac_signature c data len rdp =
     (if \<not> fips_hmac rdp then None
      else if \<not> hmac_init c then Some None
      else do {
        k \<leftarrow> fetch (fips_sign_key rdp) 0 20;
        d \<leftarrow> fetch data 0 (size_of_int32 len);
        Some (Some (take 8 (hmac_sha1 c k (d @ security_UINT32_le (word_of_int (encrypt_use_count rdp))))))
      })"

definition des3_update :: "(bytes \<Rightarrow> bytes \<Rightarrow> bytes \<Rightarrow> bytes) \<Rightarrow> des3 \<Rightarrow> bytes \<Rightarrow> bytes \<times> des3" where
  \<comment> \<open>\<open>EVP_EncryptUpdate\<close> and \<open>EVP_DecryptUpdate\<close> without padding: the complete blocks are put out, the rest
    is kept until the next call.\<close>
  "des3_update cbc ctx data =
     (let whole = des3_done ctx @ data; n = length whole div 8 * 8
      in (drop (length (des3_done ctx) div 8 * 8) (cbc (des3_key ctx) (des3_ivec ctx) (take n whole)),
          ctx\<lparr>des3_done := whole\<rparr>))"

definition security_fips_encrypt :: "crypto \<Rightarrow> bytes \<Rightarrow> int \<Rightarrow> rdpRdp \<Rightarrow> (bool \<times> bytes \<times> rdpRdp) option" where
  \<comment> \<open>\<open>EVP_EncryptUpdate\<close> takes the length as an int again and refuses a negative one.\<close>
  "security_fips_encrypt c data len rdp =
     (case fips_encrypt rdp of None \<Rightarrow> None
      | Some ctx \<Rightarrow>
          if len < 0 then Some (False, data, rdp)
          else do {
            d \<leftarrow> fetch data 0 (nat len);
            let (out, ctx) = des3_update (des3_cbc_encrypt c) ctx d;
            if length data < length out then None
            else Some (True, out @ drop (length out) data,
                       rdp\<lparr>fips_encrypt := Some ctx, encrypt_use_count := encrypt_use_count rdp + 1\<rparr>)
          })"

definition security_fips_decrypt :: "crypto \<Rightarrow> bytes \<Rightarrow> int \<Rightarrow> rdpRdp \<Rightarrow> (bool \<times> bytes \<times> rdpRdp) option" where
  \<comment> \<open>\<open>crypto_des3_decrypt\<close> calls \<open>abort\<close> when the length that came out is not the one that went in.\<close>
  "security_fips_decrypt c data len rdp =
     (case fips_decrypt rdp of None \<Rightarrow> None
      | Some ctx \<Rightarrow>
          if len < 0 then None
          else do {
            d \<leftarrow> fetch data 0 (nat len);
            let (out, ctx) = des3_update (des3_cbc_decrypt c) ctx d;
            if length data < length out \<or> length out \<noteq> nat len then None
            else Some (True, out @ drop (length out) data, rdp\<lparr>fips_decrypt := Some ctx\<rparr>)
          })"

definition security_fips_check_signature :: "crypto \<Rightarrow> bytes \<Rightarrow> int \<Rightarrow> bytes \<Rightarrow> rdpRdp \<Rightarrow> (bool \<times> rdpRdp) option" where
  "security_fips_check_signature c data len sig rdp =
     (if \<not> fips_hmac rdp then None
      else if \<not> hmac_init c then Some (False, rdp)
      else do {
        k \<leftarrow> fetch (fips_sign_key rdp) 0 20;
        d \<leftarrow> fetch data 0 (size_of_int32 len);
        let buf = hmac_sha1 c k (d @ security_UINT32_le (word_of_int (decrypt_use_count rdp)));
        s \<leftarrow> fetch sig 0 8;
        let rdp = rdp\<lparr>decrypt_use_count := decrypt_use_count rdp + 1\<rparr>;
        Some (s = take 8 buf, rdp)
      })"

subsection \<open>The tables and the expansion of a FIPS key\<close>

definition reverse8 :: "u8 \<Rightarrow> u8" where
  "reverse8 b = horner_sum of_bool 2 (map (\<lambda>j. bit b (7 - j)) [0..<8])"

definition ones :: "u8 \<Rightarrow> nat" where
  "ones b = length (filter (bit b) [0..<8])"

definition odd_parity :: "u8 \<Rightarrow> u8" where
  "odd_parity b = (if odd (ones (b AND 0xFE)) then b AND 0xFE else b OR 1)"

lemma bit_reverse8: "bit (reverse8 b) j \<longleftrightarrow> j < 8 \<and> bit b (7 - j)"
  by (auto simp: reverse8_def bit_horner_sum_bit_word_iff nth_append)

lemma bit_0xFE: "bit (0xFE :: u8) j \<longleftrightarrow> 0 < j \<and> j < 8" "bit (0xFE :: int) j \<longleftrightarrow> 0 < j \<and> j < 8"
proof -
  show int: "bit (0xFE :: int) j \<longleftrightarrow> 0 < j \<and> j < 8"
  proof (cases "j < 8")
    case True
    then have "j \<in> {0, 1, 2, 3, 4, 5, 6, 7}" by auto
    then show ?thesis by (auto simp: bit_iff_odd)
  next
    case False
    then have "(256 :: int) \<le> 2 ^ j" using power_increasing [of 8 j "2 :: int"] by simp
    then show ?thesis using False by (simp add: bit_iff_odd)
  qed
  then show "bit (0xFE :: u8) j \<longleftrightarrow> 0 < j \<and> j < 8" by (auto simp: bit_simps)
qed

lemma ones_set_low: "\<not> bit b 0 \<Longrightarrow> ones (b OR 1) = Suc (ones b)"
  by (simp add: ones_def upt_rec bit_simps)

lemma odd_parity_odd: "odd (ones (odd_parity b))"
proof (cases "odd (ones (b AND 0xFE))")
  case False
  have "b OR 1 = (b AND 0xFE) OR 1"
    by (rule bit_word_eqI) (auto simp: bit_simps bit_0xFE bit_1_iff)
  with False show ?thesis
    by (simp add: odd_parity_def ones_set_low bit_simps bit_0xFE)
qed (simp add: odd_parity_def)

lemma bit_odd_parity: "0 < j \<Longrightarrow> bit (odd_parity b) j \<longleftrightarrow> bit b j"
  using bit_imp_le_length [of b j] by (auto simp: odd_parity_def bit_simps bit_0xFE bit_1_iff)

lemma fips_reverse_table_eq: "fips_reverse_table = map (\<lambda>n. reverse8 (word_of_int n)) [0..255]"
  by code_simp

lemma fips_oddparity_table_eq: "fips_oddparity_table = map (\<lambda>n. odd_parity (word_of_int n)) [0..255]"
  by code_simp

lemma byte_table: "map (\<lambda>n. f (word_of_int n)) [0..255] ! unat (b :: u8) = f b"
proof -
  have "unat b < 2 ^ LENGTH(8)" by (rule unsigned_less)
  then have b: "unat b < 256" by simp
  then have "unat b < length [0..255]" by (simp only: length_upto)
  then have "map (\<lambda>n. f (word_of_int n)) [0..255] ! unat b = f (word_of_int ([0..255] ! unat b))"
    by (rule nth_map)
  also have "uint b < 2 ^ LENGTH(8)" by (rule unsigned_less)
  then have "[0..255] ! unat b = uint b" by (subst nth_upto) simp_all
  finally show ?thesis by (simp only: word_of_int_uint)
qed

lemmas fips_tables = fips_reverse_table_eq fips_oddparity_table_eq byte_table

text \<open>
  A byte of the expanded key: seven bits of the stream of key bits, lowest bit first, under the top bit
  zero, and then the lowest bit replaced by the parity.
\<close>

definition key_bit :: "bytes \<Rightarrow> nat \<Rightarrow> bool" where
  "key_bit key k \<longleftrightarrow> bit (key ! (k div 8)) (k mod 8)"


lemma fips_expand_byte_bit:
  assumes "length buf = 22" "i < 24" "j < 8"
  shows "bit (fips_expand_byte buf (7 * i)) j \<longleftrightarrow> 0 < j \<and> bit (buf ! ((7 * i + (7 - j)) div 8)) (7 - (7 * i + (7 - j)) mod 8)"
proof -
  obtain p r where r: "7 * i = 8 * p + r" "r < 8"
    by (metis mult_div_mod_eq mod_less_divisor zero_less_numeral)
  then have q: "7 * i div 8 = p" "7 * i mod 8 = r" by simp_all
  show ?thesis
  proof (cases "r + (7 - j) < 8")
    case True
    have k: "7 * i + (7 - j) = 8 * p + (r + (7 - j))" using r(1) by simp
    have "(7 * i + (7 - j)) div 8 = p" "7 - (7 * i + (7 - j)) mod 8 = j - r" "r \<le> j"
      unfolding k using True assms(3) by (simp_all only: mod_mult_self4 div_mult_self4 mod_less div_less)
    then show ?thesis using assms(3)
      by (auto simp: fips_expand_byte_def q Let_def bit_simps bit_0xFE dest: bit_imp_le_length)
  next
    case False
    then have k: "7 * i + (7 - j) = 8 * (p + 1) + (r + (7 - j) - 8)" "r + (7 - j) - 8 < 8"
      using r assms(3) by auto
    then have "(7 * i + (7 - j)) div 8 = p + 1" "7 - (7 * i + (7 - j)) mod 8 = 8 - r + j" "\<not> r \<le> j"
      using False assms(3) r(2) by (simp_all only: div_mult_self4 mod_mult_self4) auto
    then show ?thesis using assms(3) r(2)
      by (auto simp: fips_expand_byte_def q Let_def bit_simps bit_0xFE add.commute dest: bit_imp_le_length)
  qed
qed

lemma fips_expand_key_bits_byte:
  assumes "21 \<le> length key" "i < 24"
  shows "length (fips_expand_key_bits c key) = 24"
    "\<forall>j \<in> {1..6}. bit (fips_expand_key_bits c key ! i) j \<longleftrightarrow> key_bit key (7 * i + j)"
    "\<not> bit (fips_expand_key_bits c key ! i) 7"
    "odd (ones (fips_expand_key_bits c key ! i))"
proof -
  let ?buf = "map (\<lambda>i. reverse8 (key ! i)) [0..<21] @ [stack_byte c]"
  have out: "fips_expand_key_bits c key ! i = odd_parity (reverse8 (fips_expand_byte ?buf (7 * i)))"
    using assms(2) unfolding fips_expand_key_bits_def Let_def fips_tables by (simp add: fips_tables)
  show "odd (ones (fips_expand_key_bits c key ! i))" unfolding out by (rule odd_parity_odd)
  show "length (fips_expand_key_bits c key) = 24" by (simp add: fips_expand_key_bits_def)
  show "\<not> bit (fips_expand_key_bits c key ! i) 7"
    unfolding out using assms(2) by (simp add: bit_odd_parity bit_reverse8 fips_expand_byte_bit)
  show "\<forall>j \<in> {1..6}. bit (fips_expand_key_bits c key ! i) j \<longleftrightarrow> key_bit key (7 * i + j)"
  proof
    fix j :: nat assume j: "j \<in> {1..6}"
    then have "(7 * i + j) div 8 < 21" using assms(2) by auto
    then have "?buf ! ((7 * i + j) div 8) = reverse8 (key ! ((7 * i + j) div 8))"
      by (simp add: nth_append)
    moreover have "7 - (7 * i + j) mod 8 < 8" "(7 * i + j) mod 8 < 8" by simp_all
    ultimately show "bit (fips_expand_key_bits c key ! i) j \<longleftrightarrow> key_bit key (7 * i + j)"
      using j assms(2)
      unfolding out by (simp add: bit_odd_parity bit_reverse8 fips_expand_byte_bit key_bit_def)
  qed
qed

definition plain_crypto :: crypto where
  \<comment> \<open>A library that is as simple as the laws below allow.\<close>
  "plain_crypto = \<lparr>sha1_init = True, sha1 = (\<lambda>d. replicate 19 7 @ [word_of_nat (length d)]), md5_init = True,
     md5 = (\<lambda>d. take 16 (d @ replicate 16 0)), rc4_init = True, rc4_stream = (\<lambda>key i. word_of_nat i),
     hmac_init = True, hmac_sha1 = (\<lambda>key d. replicate 20 (word_of_nat (length d))), des3_init = True,
     des3_cbc_encrypt = (\<lambda>key iv d. map (\<lambda>b. b XOR 0x55) d),
     des3_cbc_decrypt = (\<lambda>key iv d. map (\<lambda>b. b XOR 0x55) d), stack_byte = 0xFF\<rparr>"

text \<open>C18: the FIPS key expansion turns the 168 bits of a key into 24 bytes. Byte i holds the bits 7i + 1
  to 7i + 6 of the key in its bits 1 to 6, bit 7 is zero, and bit 0 makes the number of ones odd. So the
  bits 7i of the key are lost, and the byte that is read behind the buffer has no influence.\<close>

theorem fips_expand_key_bits_exact:
  assumes "21 \<le> length key" "i < 24"
  shows "length (fips_expand_key_bits c key) = 24 \<and>
    (\<forall>j \<in> {1..6}. bit (fips_expand_key_bits c key ! i) j \<longleftrightarrow> key_bit key (7 * i + j)) \<and>
    \<not> bit (fips_expand_key_bits c key ! i) 7 \<and> odd (ones (fips_expand_key_bits c key ! i))"
  by (intro conjI fips_expand_key_bits_byte [OF assms])

theorem fips_expand_key_bits_exact_witness:
  "21 \<le> length (replicate 21 (0xA5 :: u8)) \<and> (23 :: nat) < 24 \<and>
   \<not> bit (fips_expand_key_bits plain_crypto (replicate 21 0xA5) ! 23) 7 \<and>
   odd (ones (fips_expand_key_bits plain_crypto (replicate 21 0xA5) ! 23))"
  using fips_expand_key_bits_exact [of "replicate 21 0xA5" 23 plain_crypto] by simp

subsection \<open>Both sides derive the same keys\<close>

definition crypto_ok :: "crypto \<Rightarrow> bool" where
  \<comment> \<open>The library finds its memory, and the digests have their length.\<close>
  "crypto_ok c \<longleftrightarrow> sha1_init c \<and> md5_init c \<and> rc4_init c \<and> hmac_init c \<and> des3_init c \<and>
     (\<forall>d. length (sha1 c d) = 20) \<and> (\<forall>d. length (md5 c d) = 16)"

lemma crypto_okD [simp]:
  assumes "crypto_ok c"
  shows "sha1_init c" "md5_init c" "rc4_init c" "hmac_init c" "des3_init c"
    "length (sha1 c d) = 20" "length (md5 c d) = 16"
  using assms by (simp_all add: crypto_ok_def)

lemma fetch_ok [simp]: "i + n \<le> length p \<Longrightarrow> fetch p i n = Some (take n (drop i p))"
  by (simp add: fetch_def)

lemma fetch_short [simp]: "length p < i + n \<Longrightarrow> fetch p i n = None"
  by (simp add: fetch_def)

lemma length_salt_key [simp]: "n \<le> 3 \<Longrightarrow> n \<le> length key \<Longrightarrow> length (salt_key n key) = length key"
  by (simp add: salt_key_def)

text \<open>The pieces of the derivation, when nothing is missing.\<close>

definition salted :: "crypto \<Rightarrow> bytes \<Rightarrow> bytes \<Rightarrow> bytes \<Rightarrow> bytes \<Rightarrow> bytes" where
  "salted c salt input salt1 salt2 = md5 c (take 48 salt @ sha1 c (input @ take 48 salt @ take 32 salt1 @ take 32 salt2))"

lemma security_salted_hash_ok:
  assumes "crypto_ok c" "48 \<le> length salt" "32 \<le> length salt1" "32 \<le> length salt2"
  shows "security_salted_hash c salt input salt1 salt2 = Some (Some (salted c salt input salt1 salt2))"
  using assms by (simp add: security_salted_hash_def salted_def)

lemma length_salted [simp]: "crypto_ok c \<Longrightarrow> length (salted c salt input salt1 salt2) = 16"
  by (simp add: salted_def)

lemma three_hashes_ok:
  assumes "\<And>i. h i = Some (Some (g i))"
  shows "three_hashes h a b d = Some (Some (g a @ g b @ g d))"
  by (simp add: three_hashes_def assms)

lemma three_hashes_crash: "(\<And>i. h i = None) \<Longrightarrow> three_hashes h a b d = None"
  by (simp add: three_hashes_def)

definition master :: "crypto \<Rightarrow> bytes \<Rightarrow> bytes \<Rightarrow> bytes" where
  "master c client_random server_random =
     (let h = (\<lambda>i. salted c (take 24 client_random @ take 24 server_random) i client_random server_random)
      in h [0x41] @ h [0x42, 0x42] @ h [0x43, 0x43, 0x43])"

definition key_blob :: "crypto \<Rightarrow> bytes \<Rightarrow> bytes \<Rightarrow> bytes" where
  "key_blob c client_random server_random =
     (let h = (\<lambda>i. salted c (master c client_random server_random) i client_random server_random)
      in h [0x58] @ h [0x59, 0x59] @ h [0x5A, 0x5A, 0x5A])"

lemma length_master [simp]: "crypto_ok c \<Longrightarrow> length (master c cr sr) = 48"
  by (simp add: master_def Let_def)

lemma length_key_blob [simp]: "crypto_ok c \<Longrightarrow> length (key_blob c cr sr) = 48"
  by (simp add: key_blob_def Let_def)

definition session_key :: "crypto \<Rightarrow> nat \<Rightarrow> bytes \<Rightarrow> bytes \<Rightarrow> bytes" where
  "session_key c i client_random server_random =
     md5 c (take 16 (drop i (key_blob c client_random server_random)) @ take 32 client_random @ take 32 server_random)"

lemma length_session_key [simp]: "crypto_ok c \<Longrightarrow> length (session_key c i cr sr) = 16"
  by (simp add: session_key_def)

definition established :: "crypto \<Rightarrow> bytes \<Rightarrow> rdpRdp \<Rightarrow> rdpRdp" where
  \<comment> \<open>What \<open>establish_session_keys\<close> leaves.\<close>
  "established c cr rdp =
     (let sr = ServerRandom (rdp_settings rdp); server = ServerMode (rdp_settings rdp)
      in security_salt_keys (rdp\<lparr>sign_key := take 16 (key_blob c cr sr),
           encrypt_key := session_key c (if server then 16 else 32) cr sr,
           decrypt_key := session_key c (if server then 32 else 16) cr sr\<rparr>))"

lemma establish_session_keys_ok:
  assumes "crypto_ok c" "32 \<le> length cr" "32 \<le> length (ServerRandom (rdp_settings rdp))"
  shows "establish_session_keys c cr rdp = Some (True, established c cr rdp)"
proof -
  let ?sr = "ServerRandom (rdp_settings rdp)"
  have a: "security_A c (take 24 cr @ take 24 ?sr) cr ?sr = Some (Some (master c cr ?sr))"
    unfolding security_A_def security_premaster_hash_def master_def Let_def
    by (rule three_hashes_ok) (use assms in \<open>simp add: security_salted_hash_ok\<close>)
  have x: "security_X c (master c cr ?sr) cr ?sr = Some (Some (key_blob c cr ?sr))"
    unfolding security_X_def security_premaster_hash_def key_blob_def Let_def
    by (rule three_hashes_ok) (use assms in \<open>simp add: security_salted_hash_ok\<close>)
  have m: "security_md5_16_32_32 c (drop i (key_blob c cr ?sr)) cr ?sr = Some (Some (session_key c i cr ?sr))"
    if "i \<le> 32" for i
    using assms that by (simp add: security_md5_16_32_32_def session_key_def)
  show ?thesis
    using assms by (simp add: establish_session_keys_def a x m established_def Let_def)
qed

lemma establish_session_keys_crash:
  assumes "crypto_ok c" "length (ServerRandom (rdp_settings rdp)) < 32"
  shows "establish_session_keys c cr rdp = None"
proof (cases "24 \<le> length (ServerRandom (rdp_settings rdp)) \<and> 24 \<le> length cr")
  case True
  then have "security_A c (take 24 cr @ take 24 (ServerRandom (rdp_settings rdp))) cr (ServerRandom (rdp_settings rdp)) = None"
    unfolding security_A_def security_premaster_hash_def security_salted_hash_def
    by (intro three_hashes_crash) (use assms in \<open>auto simp: bind_eq_None_conv fetch_def\<close>)
  then show ?thesis using True by (simp add: establish_session_keys_def)
next
  case False
  then show ?thesis by (auto simp: establish_session_keys_def fetch_def)
qed

definition fips_established :: "crypto \<Rightarrow> bytes \<Rightarrow> rdpRdp \<Rightarrow> rdpRdp" where
  "fips_established c cr rdp =
     (let sr = ServerRandom (rdp_settings rdp); server = ServerMode (rdp_settings rdp);
          e = sha1 c (take 16 (drop 16 cr) @ take 16 (drop 16 sr)); d = sha1 c (take 16 cr @ take 16 sr);
          expand = (\<lambda>k. fips_expand_key_bits c (k @ [k ! 0]))
      in rdp\<lparr>fips_sign_key := sha1 c (d @ e), fips_encrypt_key := expand (if server then d else e),
             fips_decrypt_key := expand (if server then e else d)\<rparr>)"

lemma establish_fips_keys_ok:
  assumes "crypto_ok c" "32 \<le> length cr" "32 \<le> length (ServerRandom (rdp_settings rdp))"
  shows "establish_fips_keys c cr rdp = Some (True, fips_established c cr rdp)"
  using assms by (simp add: establish_fips_keys_def fips_established_def Let_def)

definition keys_of :: "crypto \<Rightarrow> bytes \<Rightarrow> rdpRdp \<Rightarrow> rdpRdp" where
  "keys_of c cr rdp = established c cr (if ENC_METHOD rdp = ENCRYPTION_METHOD_FIPS then fips_established c cr rdp else rdp)"

lemma fips_established_settings [simp]: "rdp_settings (fips_established c cr rdp) = rdp_settings rdp"
  by (simp add: fips_established_def Let_def)

lemma security_establish_keys_ok:
  assumes "crypto_ok c" "32 \<le> length cr" "32 \<le> length (ServerRandom (rdp_settings rdp))"
  shows "security_establish_keys c cr rdp = Some (True, keys_of c cr rdp)"
  using assms by (simp add: security_establish_keys_def establish_fips_keys_ok establish_session_keys_ok keys_of_def)

definition mirrored :: "rdpRdp \<Rightarrow> rdpRdp \<Rightarrow> bool" where
  "mirrored a b \<longleftrightarrow> encrypt_key a = decrypt_key b \<and> encrypt_update_key a = decrypt_update_key b \<and>
     encrypt_use_count a = decrypt_use_count b \<and> encrypt_checksum_use_count a = decrypt_checksum_use_count b \<and>
     rc4_key_len a = rc4_key_len b \<and> sign_key a = sign_key b \<and> ENC_METHOD a = ENC_METHOD b \<and>
     (ENC_METHOD a = ENCRYPTION_METHOD_FIPS \<longrightarrow>
        fips_encrypt_key a = fips_decrypt_key b \<and> fips_sign_key a = fips_sign_key b)"

definition key_sizes :: "rdpRdp \<Rightarrow> bool" where
  "key_sizes a \<longleftrightarrow> length (sign_key a) = 16 \<and> length (encrypt_key a) = 16 \<and> length (decrypt_key a) = 16 \<and>
     length (encrypt_update_key a) = 16 \<and> length (decrypt_update_key a) = 16 \<and> rc4_key_len a \<le> 16 \<and>
     (ENC_METHOD a = ENCRYPTION_METHOD_FIPS \<longrightarrow>
        length (fips_sign_key a) = 20 \<and> length (fips_encrypt_key a) = 24 \<and> length (fips_decrypt_key a) = 24)"

lemma length_fips_expand_key_bits [simp]: "length (fips_expand_key_bits c key) = 24"
  by (simp add: fips_expand_key_bits_def)

lemma keys_of_sizes:
  assumes "crypto_ok c" "rc4_key_len a \<le> 16"
  shows "key_sizes (keys_of c cr a)"
  using assms by (simp add: key_sizes_def keys_of_def established_def fips_established_def security_salt_keys_def Let_def)

lemma keys_of_mirrored:
  assumes "EncryptionMethods (rdp_settings a) = EncryptionMethods (rdp_settings b)"
    "ServerRandom (rdp_settings a) = ServerRandom (rdp_settings b)"
    "ServerMode (rdp_settings a) \<noteq> ServerMode (rdp_settings b)" "rc4_key_len a = rc4_key_len b"
  shows "mirrored (keys_of c cr a) (keys_of c cr b)"
  using assms by (auto simp: mirrored_def keys_of_def established_def fips_established_def security_salt_keys_def Let_def)

text \<open>C14: what one side encrypts with is what the other decrypts with. A client and a server that agree on
  the method and the server random, and use the same client random, end the derivation with TRUE and
  with mirrored keys: RC4 session and update keys, MAC key, counters, and for FIPS the 3DES keys and the
  HMAC key.\<close>

theorem security_establish_keys_agree:
  assumes "crypto_ok c" "32 \<le> length client_random" "32 \<le> length (ServerRandom (rdp_settings client))"
    and "ServerRandom (rdp_settings server) = ServerRandom (rdp_settings client)"
    and "EncryptionMethods (rdp_settings server) = EncryptionMethods (rdp_settings client)"
    and "\<not> ServerMode (rdp_settings client)" "ServerMode (rdp_settings server)"
    and "rc4_key_len client = 0" "rc4_key_len server = 0"
  shows "\<exists>a b. security_establish_keys c client_random client = Some (True, a) \<and>
    security_establish_keys c client_random server = Some (True, b) \<and>
    mirrored a b \<and> mirrored b a \<and> key_sizes a \<and> key_sizes b"
  using assms by (simp add: security_establish_keys_ok keys_of_mirrored keys_of_sizes)

definition peer_settings :: "bool \<Rightarrow> u32 \<Rightarrow> bytes \<Rightarrow> secSettings" where
  \<comment> \<open>The settings of a session with standard RDP security, once the method and the random are known.\<close>
  "peer_settings server method random =
     (gccSettings.extend (freerdp_settings_new server [])
        \<lparr>ClientRandom = [], SaltedChecksum = True, ShareId = 0, PduSource = 0, BitmapCachePersistEnabled = False,
          Authentication = True, ReceivedCapabilities = (\<lambda>_. False), SurfaceCommandsEnabled = False,
          SurfaceFrameMarkerEnabled = False, FrameAcknowledge = 0, BitmapCacheV3Enabled = False, NSCodec = False,
          JpegCodec = False, MultifragMaxRequestSize = 0, LargePointerFlag = 0\<rparr>)
     \<lparr>ServerMode := server, UseRdpSecurityLayer := True, EncryptionMethods := method, ServerRandom := random\<rparr>"

abbreviation (input) fips_client :: rdpRdp where
  "fips_client \<equiv> rdp_new (peer_settings False ENCRYPTION_METHOD_FIPS (replicate 32 7)) True"
abbreviation (input) fips_server :: rdpRdp where
  "fips_server \<equiv> rdp_new (peer_settings True ENCRYPTION_METHOD_FIPS (replicate 32 7)) False"

lemma peer_settings [simp]:
  "ServerMode (peer_settings server method random) = server" "UseRdpSecurityLayer (peer_settings server method random)"
  "EncryptionMethods (peer_settings server method random) = method" "ServerRandom (peer_settings server method random) = random"
  "SaltedChecksum (peer_settings server method random)"
  by (simp_all add: peer_settings_def gccSettings.defs)

lemma plain_crypto_ok: "crypto_ok plain_crypto"
  by (auto simp: crypto_ok_def plain_crypto_def min_def)

theorem security_establish_keys_agree_witness:
  "\<exists>a b. security_establish_keys plain_crypto (replicate 32 3) fips_client = Some (True, a) \<and>
     security_establish_keys plain_crypto (replicate 32 3) fips_server = Some (True, b) \<and>
     mirrored a b \<and> mirrored b a \<and> key_sizes a \<and> key_sizes b"
  by (rule security_establish_keys_agree) (simp_all add: plain_crypto_ok rdp_new_def)

lemma security_establish_keys_short:
  assumes "crypto_ok c" "length (ServerRandom (rdp_settings rdp)) < 32"
  shows "security_establish_keys c cr rdp = None"
  using assms establish_session_keys_crash [OF assms]
  by (auto simp: security_establish_keys_def establish_fips_keys_def Let_def bind_eq_None_conv fetch_def)

text \<open>C15: the length of the server random comes from the network and is not compared with the 32 bytes
  the derivation reads: it runs past the end of the random exactly when that is shorter.\<close>

theorem security_establish_keys_overrun_iff:
  assumes "crypto_ok c" "32 \<le> length client_random"
  shows "security_establish_keys c client_random rdp = None \<longleftrightarrow> length (ServerRandom (rdp_settings rdp)) < 32"
  using security_establish_keys_ok [OF assms, of rdp] security_establish_keys_short [OF assms(1), of rdp client_random]
  by (cases "length (ServerRandom (rdp_settings rdp)) < 32") simp_all

theorem security_establish_keys_overrun_iff_witness:
  "security_establish_keys plain_crypto (replicate 32 3) (rdp_new (peer_settings True ENCRYPTION_METHOD_128BIT []) False) = None"
  using security_establish_keys_overrun_iff
    [of plain_crypto "replicate 32 3" "rdp_new (peer_settings True ENCRYPTION_METHOD_128BIT []) False"]
  by (simp add: plain_crypto_ok rdp_new_def)

subsection \<open>Sessions\<close>

text \<open>
  Two peers of a channel that works in both directions. \<open>sync a b\<close>: what either of them sends next is
  what the other expects. The client of the contract is a session, messages in both directions in any
  order; what the provider promises is one step.
\<close>

locale duplex =
  fixes send :: "'s \<Rightarrow> 'm \<Rightarrow> ('w \<times> 's) option"
    and recv :: "'s \<Rightarrow> 'w \<Rightarrow> ('m \<times> 's) option"
    and sync :: "'s \<Rightarrow> 's \<Rightarrow> bool"
    and ok :: "'m \<Rightarrow> bool"
  assumes step: "sync a b \<Longrightarrow> ok m \<Longrightarrow> \<exists>w a' b'. send a m = Some (w, a') \<and> recv b w = Some (m, b') \<and> sync a' b'"
    and sync_sym: "sync a b \<Longrightarrow> sync b a"
begin

fun session :: "'s \<Rightarrow> 's \<Rightarrow> (bool \<times> 'm) list \<Rightarrow> ((bool \<times> 'm) list \<times> 's \<times> 's) option" where
  \<comment> \<open>What arrives of the messages; True marks those of the first peer.\<close>
  "session a b [] = Some ([], a, b)"
| "session a b ((dir, m) # ms) =
     (case send (if dir then a else b) m of None \<Rightarrow> None
      | Some (w, x) \<Rightarrow>
          (case recv (if dir then b else a) w of None \<Rightarrow> None
           | Some (m', y) \<Rightarrow>
               (case session (if dir then x else y) (if dir then y else x) ms of None \<Rightarrow> None
                | Some (rs, z) \<Rightarrow> Some ((dir, m') # rs, z))))"

lemma session_delivers:
  "sync a b \<Longrightarrow> \<forall>(dir, m) \<in> set ms. ok m \<Longrightarrow> \<exists>a' b'. session a b ms = Some (ms, a', b') \<and> sync a' b'"
proof (induction ms arbitrary: a b)
  case (Cons dm ms)
  obtain dir m where dm: "dm = (dir, m)" by (cases dm)
  let ?s = "if dir then a else b" and ?r = "if dir then b else a"
  have "sync ?s ?r" "ok m" using Cons.prems sync_sym dm by auto
  from step [OF this] obtain w x y where
    1: "send ?s m = Some (w, x)" "recv ?r w = Some (m, y)" "sync x y" by blast
  then have "sync (if dir then x else y) (if dir then y else x)" using sync_sym by simp
  from Cons.IH [OF this] Cons.prems(2) 1 show ?case by (auto simp: dm)
qed simp

end

text \<open>One direction of RC4: the encrypting half of \<open>a\<close> against the decrypting half of \<open>b\<close>.\<close>

definition rc4_half :: "rdpRdp \<Rightarrow> rdpRdp \<Rightarrow> bool" where
  "rc4_half a b \<longleftrightarrow> mirrored a b \<and> rc4_encrypt_key a \<noteq> None \<and> rc4_encrypt_key a = rc4_decrypt_key b \<and>
     length (encrypt_key a) = 16 \<and> length (encrypt_update_key a) = 16 \<and> length (sign_key a) = 16 \<and> rc4_key_len a \<le> 16"

lemma length_crypto_rc4 [simp]: "length (fst (crypto_rc4 c r d)) = length d"
  by (simp add: crypto_rc4_def)

lemma crypto_rc4_twice: "fst (crypto_rc4 c r (fst (crypto_rc4 c r d))) = d"
  by (rule nth_equalityI) (simp_all add: crypto_rc4_def xor.assoc)

lemma crypto_rc4_state: "length d = length d' \<Longrightarrow> snd (crypto_rc4 c r d) = snd (crypto_rc4 c r d')"
  by (simp add: crypto_rc4_def)

lemma security_key_update_ok:
  assumes "crypto_ok c" "length key = 16" "length upd = 16" "n \<le> 16"
  shows "\<exists>k. security_key_update c key upd n rdp = Some (True, k) \<and> length k = 16"
  using assms by (auto simp: security_key_update_def crypto_rc4_init_def Let_def)

lemma security_key_update_method:
  assumes "ENC_METHOD a = ENC_METHOD b"
  shows "security_key_update c key upd n a = security_key_update c key upd n b"
  unfolding security_key_update_def assms ..

lemma size_of_int32_small: "0 \<le> i \<Longrightarrow> i < 2 ^ 32 \<Longrightarrow> size_of_int32 i = nat i"
  by (simp add: size_of_int32_def)

lemma update_keys_half:
  assumes "crypto_ok c" "rc4_half a b"
  shows "\<exists>a' b'. update_encrypt_key c a = Some (True, a') \<and> update_decrypt_key c b = Some (True, b') \<and>
    rc4_half a' b' \<and> encrypt_use_count a' = 0 \<and>
    (\<exists>k r. a' = a\<lparr>encrypt_key := k, rc4_encrypt_key := Some r, encrypt_use_count := 0\<rparr> \<and>
       b' = b\<lparr>decrypt_key := k, rc4_decrypt_key := Some r, decrypt_use_count := 0\<rparr>)"
proof -
  have m: "mirrored a b" and l: "length (encrypt_key a) = 16" "length (encrypt_update_key a) = 16" "rc4_key_len a \<le> 16"
    using assms(2) by (simp_all add: rc4_half_def)
  obtain k where k: "security_key_update c (encrypt_key a) (encrypt_update_key a) (rc4_key_len a) a = Some (True, k)" "length k = 16"
    using security_key_update_ok [OF assms(1) l] by blast
  have "security_key_update c (decrypt_key b) (decrypt_update_key b) (rc4_key_len b) b = Some (True, k)"
    using k(1) m security_key_update_method [of a b] by (simp add: mirrored_def)
  moreover have "crypto_rc4_init c k (rc4_key_len a) = Some (Some \<lparr>rc4_key = take (rc4_key_len a) k, rc4_used = 0\<rparr>)"
    using assms(1) k(2) l(3) by (simp add: crypto_rc4_init_def)
  ultimately show ?thesis
    using assms(2) k m by (auto simp: update_encrypt_key_def update_decrypt_key_def rc4_half_def mirrored_def Let_def)
qed


definition encrypt_only :: "rdpRdp \<Rightarrow> rdpRdp \<Rightarrow> bool" where
  \<comment> \<open>The step of a sender: nothing of the receiving half has changed.\<close>
  "encrypt_only a a' \<longleftrightarrow> a' = a\<lparr>encrypt_key := encrypt_key a', rc4_encrypt_key := rc4_encrypt_key a',
     encrypt_use_count := encrypt_use_count a', encrypt_checksum_use_count := encrypt_checksum_use_count a'\<rparr>"

definition decrypt_only :: "rdpRdp \<Rightarrow> rdpRdp \<Rightarrow> bool" where
  "decrypt_only b b' \<longleftrightarrow> b' = b\<lparr>decrypt_key := decrypt_key b', rc4_decrypt_key := rc4_decrypt_key b',
     decrypt_use_count := decrypt_use_count b', decrypt_checksum_use_count := decrypt_checksum_use_count b'\<rparr>"

lemma security_encrypt_decrypt:
  assumes c: "crypto_ok c" and h: "rc4_half a b" and len: "n \<le> length data" "n < 2 ^ 31"
  shows "\<exists>w a' b'. security_encrypt c data (int n) a = Some (True, w, a') \<and>
    length w = length data \<and> drop n w = drop n data \<and>
    (\<forall>rest. security_decrypt c (take n w @ rest) (int n) b = Some (True, take n data @ rest, b')) \<and>
    rc4_half a' b' \<and> encrypt_only a a' \<and> decrypt_only b b' \<and>
    encrypt_checksum_use_count a' = encrypt_checksum_use_count a + 1"
proof -
  define a1 where "a1 = (if encrypt_use_count a \<ge> 4096 then snd (the (update_encrypt_key c a)) else a)"
  define b1 where "b1 = (if encrypt_use_count a \<ge> 4096 then snd (the (update_decrypt_key c b)) else b)"
  have "mirrored a b" using h by (simp add: rc4_half_def)
  then have cnt: "decrypt_use_count b = encrypt_use_count a" by (simp add: mirrored_def)
  from update_keys_half [OF c h] obtain x y k q where u:
    "update_encrypt_key c a = Some (True, x)" "update_decrypt_key c b = Some (True, y)" "rc4_half x y"
    "x = a\<lparr>encrypt_key := k, rc4_encrypt_key := Some q, encrypt_use_count := 0\<rparr>"
    "y = b\<lparr>decrypt_key := k, rc4_decrypt_key := Some q, decrypt_use_count := 0\<rparr>" by blast
  have e: "(if encrypt_use_count a \<ge> 4096 then update_encrypt_key c a else Some (True, a)) = Some (True, a1)"
    and d: "(if decrypt_use_count b \<ge> 4096 then update_decrypt_key c b else Some (True, b)) = Some (True, b1)"
    and h1: "rc4_half a1 b1"
    using u(1-3) h cnt by (simp_all add: a1_def b1_def)
  have eo: "a1 = a\<lparr>encrypt_key := encrypt_key a1, rc4_encrypt_key := rc4_encrypt_key a1,
      encrypt_use_count := encrypt_use_count a1\<rparr>"
    unfolding a1_def u(1) by (cases "encrypt_use_count a \<ge> 4096") (simp_all add: u(4))
  have do: "b1 = b\<lparr>decrypt_key := decrypt_key b1, rc4_decrypt_key := rc4_decrypt_key b1,
      decrypt_use_count := decrypt_use_count b1\<rparr>"
    unfolding b1_def u(2) by (cases "encrypt_use_count a \<ge> 4096") (simp_all add: u(5))
  obtain r where r: "rc4_encrypt_key a1 = Some r" "rc4_decrypt_key b1 = Some r"
    using h1 by (auto simp: rc4_half_def)
  let ?d = "take n data"
  let ?o = "fst (crypto_rc4 c r ?d)" and ?r = "snd (crypto_rc4 c r ?d)"
  let ?a' = "a1\<lparr>rc4_encrypt_key := Some ?r, encrypt_use_count := encrypt_use_count a1 + 1,
    encrypt_checksum_use_count := encrypt_checksum_use_count a1 + 1\<rparr>"
  let ?b' = "b1\<lparr>rc4_decrypt_key := Some ?r, decrypt_use_count := decrypt_use_count b1 + 1,
    decrypt_checksum_use_count := decrypt_checksum_use_count b1 + 1\<rparr>"
  have n: "size_of_int32 (int n) = n" using len(2) by (simp add: size_of_int32_small)
  have "crypto_rc4_at c (Some r) (int n) data = Some (?o @ drop n data, ?r)"
    using len(1) by (simp add: crypto_rc4_at_def n split: prod.split)
  then have E: "security_encrypt c data (int n) a = Some (True, ?o @ drop n data, ?a')"
    by (simp add: security_encrypt_def e r)
  have lo: "length ?o = n" using len(1) by simp
  have "crypto_rc4_at c (Some r) (int n) (?o @ rest) = Some (?d @ rest, ?r)" for rest
    using lo crypto_rc4_twice [of c r ?d] crypto_rc4_state [of ?o ?d c r]
    by (simp add: crypto_rc4_at_def n split: prod.split) (metis fst_conv snd_conv)
  moreover have "rc4_decrypt_key b \<noteq> None" using h by (auto simp: rc4_half_def)
  ultimately have D: "security_decrypt c (?o @ rest) (int n) b = Some (True, ?d @ rest, ?b')" for rest
    by (simp add: security_decrypt_def d r)
  have "rc4_half ?a' ?b'" using h1 by (auto simp: rc4_half_def mirrored_def)
  moreover have "encrypt_only a ?a'" unfolding encrypt_only_def by (subst (1) eo) simp
  moreover have "decrypt_only b ?b'" unfolding decrypt_only_def by (subst (1) do) simp
  moreover have "encrypt_checksum_use_count ?a' = encrypt_checksum_use_count a + 1" by (subst eo) simp
  ultimately show ?thesis using E D lo len(1) by (intro exI [of _ "?o @ drop n data"] exI [of _ ?a'] exI [of _ ?b']) simp
qed

lemma encrypt_onlyE:
  assumes "encrypt_only a a'"
  obtains k r n m where "a' = a\<lparr>encrypt_key := k, rc4_encrypt_key := r, encrypt_use_count := n,
    encrypt_checksum_use_count := m\<rparr>"
  using assms unfolding encrypt_only_def by (rule that)

lemma decrypt_onlyE:
  assumes "decrypt_only b b'"
  obtains k r n m where "b' = b\<lparr>decrypt_key := k, rc4_decrypt_key := r, decrypt_use_count := n,
    decrypt_checksum_use_count := m\<rparr>"
  using assms unfolding decrypt_only_def by (rule that)

lemma rc4_half_other:
  assumes "rc4_half b a" "encrypt_only a a'" "decrypt_only b b'"
  shows "rc4_half b' a'"
  using assms(2,3) by (elim encrypt_onlyE decrypt_onlyE) (use assms(1) in \<open>auto simp: rc4_half_def mirrored_def\<close>)

text \<open>The two codes of a message are equal on both sides: the receiver computes them after decrypting.\<close>

lemma rc4_half_mac:
  assumes "rc4_half a b" "decrypt_only b b'" "decrypt_checksum_use_count b' = encrypt_checksum_use_count a + 1"
    "unat len \<le> length data" "take (unat len) data = take (unat len) data'"
  shows "security_mac_signature c b' data' len = security_mac_signature c a data len"
    and "security_salted_mac_signature c b' data' len False = security_salted_mac_signature c a data len True"
proof -
  have k: "sign_key b' = sign_key a" "rc4_key_len b' = rc4_key_len a"
    using assms(2) by (elim decrypt_onlyE, use assms(1) in \<open>simp add: rc4_half_def mirrored_def\<close>)+
  have "length (take (unat len) data') = unat len" using assms(4,5) by (metis length_take min.absorb2)
  then have "unat len \<le> length data'" by simp
  then have "fetch data' 0 (unat len) = fetch data 0 (unat len)" using assms(4,5) by simp
  with assms(3) k show "security_mac_signature c b' data' len = security_mac_signature c a data len"
    and "security_salted_mac_signature c b' data' len False = security_salted_mac_signature c a data len True"
    by (simp_all add: security_mac_signature_def security_salted_mac_signature_def Let_def)
qed

lemma rc4_half_mac_total:
  assumes "crypto_ok c" "rc4_half a b" "unat len \<le> length data"
  shows "\<exists>m. security_mac_signature c a data len = Some (Some m) \<and> length m = 8"
    and "\<exists>m. security_salted_mac_signature c a data len e = Some (Some m) \<and> length m = 8"
  using assms by (simp_all add: security_mac_signature_def security_salted_mac_signature_def rc4_half_def Let_def)

subsection \<open>One direction of FIPS\<close>

text \<open>What the code relies on of CBC: it works block by block, from left to right, and decryption inverts it.\<close>

definition cbc_ok :: "crypto \<Rightarrow> bool" where
  "cbc_ok c \<longleftrightarrow> (\<forall>k iv p q. 8 dvd length p \<longrightarrow> 8 dvd length q \<longrightarrow>
     length (des3_cbc_encrypt c k iv p) = length p \<and> des3_cbc_decrypt c k iv (des3_cbc_encrypt c k iv p) = p \<and>
     take (length p) (des3_cbc_encrypt c k iv (p @ q)) = des3_cbc_encrypt c k iv p)"

definition fips_half :: "crypto \<Rightarrow> rdpRdp \<Rightarrow> rdpRdp \<Rightarrow> bool" where
  "fips_half c a b \<longleftrightarrow> ENC_METHOD a = ENCRYPTION_METHOD_FIPS \<and> ENC_METHOD b = ENCRYPTION_METHOD_FIPS \<and>
     fips_hmac a \<and> fips_hmac b \<and> encrypt_use_count a = decrypt_use_count b \<and>
     fips_sign_key a = fips_sign_key b \<and> length (fips_sign_key a) = 20 \<and>
     (\<exists>e k iv. fips_encrypt a = Some \<lparr>des3_key = k, des3_ivec = iv, des3_done = e\<rparr> \<and> 8 dvd length e \<and>
        fips_decrypt b = Some \<lparr>des3_key = k, des3_ivec = iv, des3_done = des3_cbc_encrypt c k iv e\<rparr>)"

lemma security_fips_encrypt_decrypt:
  assumes c: "cbc_ok c" and h: "fips_half c a b" and n: "8 dvd n" "n \<le> length data"
  shows "\<exists>w x y. security_fips_encrypt c data (int n) a =
      Some (True, w, a\<lparr>fips_encrypt := Some x, encrypt_use_count := encrypt_use_count a + 1\<rparr>) \<and>
    length w = length data \<and> drop n w = drop n data \<and>
    (\<forall>rest. security_fips_decrypt c (take n w @ rest) (int n) b = Some (True, take n data @ rest, b\<lparr>fips_decrypt := Some y\<rparr>)) \<and>
    fips_half c (a\<lparr>fips_encrypt := Some x, encrypt_use_count := encrypt_use_count a + 1\<rparr>)
      (b\<lparr>fips_decrypt := Some y, decrypt_use_count := decrypt_use_count b + 1\<rparr>)"
proof -
  from h obtain e k iv where e: "fips_encrypt a = Some \<lparr>des3_key = k, des3_ivec = iv, des3_done = e\<rparr>" "8 dvd length e"
    "fips_decrypt b = Some \<lparr>des3_key = k, des3_ivec = iv, des3_done = des3_cbc_encrypt c k iv e\<rparr>"
    by (auto simp: fips_half_def)
  let ?d = "take n data"
  let ?E = "des3_cbc_encrypt c k iv"
  have len: "length ?d = n" using n(2) by simp
  have E: "length (?E e) = length e" "length (?E (e @ ?d)) = length e + n"
    "take (length e) (?E (e @ ?d)) = ?E e" "des3_cbc_decrypt c k iv (?E (e @ ?d)) = e @ ?d"
    using c e(2) n(1) len dvd_add [OF e(2) n(1)] by (simp_all add: cbc_ok_def)
  let ?o = "drop (length e) (?E (e @ ?d))"
  have blocks: "length e div 8 * 8 = length e" "(length e + n) div 8 * 8 = length e + n" "length (?E e) div 8 * 8 = length e"
    using e(2) n(1) E(1) by simp_all
  have split: "?E e @ ?o = ?E (e @ ?d)" using E(3) append_take_drop_id [of "length e" "?E (e @ ?d)"] by simp
  have lo: "length ?o = n" using E(2) by simp
  let ?x = "\<lparr>des3_key = k, des3_ivec = iv, des3_done = e @ ?d\<rparr>"
  let ?y = "\<lparr>des3_key = k, des3_ivec = iv, des3_done = ?E (e @ ?d)\<rparr>"
  have 1: "security_fips_encrypt c data (int n) a =
      Some (True, ?o @ drop n data, a\<lparr>fips_encrypt := Some ?x, encrypt_use_count := encrypt_use_count a + 1\<rparr>)"
    using n(2) lo by (simp add: security_fips_encrypt_def e(1) des3_update_def Let_def blocks len)
  have 2: "security_fips_decrypt c (?o @ rest) (int n) b = Some (True, ?d @ rest, b\<lparr>fips_decrypt := Some ?y\<rparr>)" for rest
    using n(2) lo len by (simp add: security_fips_decrypt_def e(3) des3_update_def Let_def blocks split E)
  have "fips_half c (a\<lparr>fips_encrypt := Some ?x, encrypt_use_count := encrypt_use_count a + 1\<rparr>)
      (b\<lparr>fips_decrypt := Some ?y, decrypt_use_count := decrypt_use_count b + 1\<rparr>)"
    using h e(2) n(1) len dvd_add [OF e(2) n(1)] by (auto simp: fips_half_def)
  with 1 2 lo n(2) show ?thesis
    by (intro exI [of _ "?o @ drop n data"] exI [of _ ?x] exI [of _ ?y]) simp
qed

lemma fips_signature_checked:
  assumes "crypto_ok c" "fips_half c a b" "\<And>k d. length (hmac_sha1 c k d) = 20"
    and "n \<le> length data" "n < 2 ^ 31" "take n data = take n data'"
  shows "\<exists>sig. security_hmac_signature c data (int n) a = Some (Some sig) \<and> length sig = 8 \<and>
    security_fips_check_signature c data' (int n) (sig @ rest) (b\<lparr>fips_decrypt := y\<rparr>) =
      Some (True, b\<lparr>fips_decrypt := y, decrypt_use_count := decrypt_use_count b + 1\<rparr>)"
proof -
  have "length (take n data') = n" using assms(4,6) by (metis length_take min.absorb2)
  then have l: "n \<le> length data'" by simp
  have n: "size_of_int32 (int n) = n" using assms(5) by (simp add: size_of_int32_small)
  show ?thesis
    using assms(1-3) l assms(4-6) by (auto simp: security_hmac_signature_def security_fips_check_signature_def fips_half_def n Let_def)
qed

end
