(* ===== verification/Rdp.thy ===== *)
theory Rdp
  imports Security
begin

text \<open>
  The slow path of a session (libfreerdp/core/rdp.c): the headers of a PDU, sending with encryption and
  message authentication code, receiving with decryption, and the dispatch of what was received.

  A routine that changes the state of the connection returns it, with its BOOL or its int, as the value
  of \<open>Ok\<close>; \<open>Overrun\<close> is a crash. Routines that only read or write the stream are as in \<open>WStream\<close>.
\<close>

abbreviation (input) SEC_EXCHANGE_PKT :: u32 where "SEC_EXCHANGE_PKT \<equiv> 0x0001"
abbreviation (input) SEC_TRANSPORT_REQ :: u16 where "SEC_TRANSPORT_REQ \<equiv> 0x0002"
abbreviation (input) SEC_ENCRYPT :: u32 where "SEC_ENCRYPT \<equiv> 0x0008"
abbreviation (input) SEC_LICENSE_PKT :: u32 where "SEC_LICENSE_PKT \<equiv> 0x0080"
abbreviation (input) SEC_LICENSE_ENCRYPT_SC :: u32 where "SEC_LICENSE_ENCRYPT_SC \<equiv> 0x0200"
abbreviation (input) SEC_REDIRECTION_PKT :: u32 where "SEC_REDIRECTION_PKT \<equiv> 0x0400"
abbreviation (input) SEC_SECURE_CHECKSUM :: u32 where "SEC_SECURE_CHECKSUM \<equiv> 0x0800"
abbreviation (input) SEC_AUTODETECT_REQ :: u16 where "SEC_AUTODETECT_REQ \<equiv> 0x1000"
abbreviation (input) SEC_AUTODETECT_RSP :: u16 where "SEC_AUTODETECT_RSP \<equiv> 0x2000"
abbreviation (input) SEC_HEARTBEAT :: u16 where "SEC_HEARTBEAT \<equiv> 0x4000"
abbreviation (input) PDU_TYPE_DATA :: u16 where "PDU_TYPE_DATA \<equiv> 7"
abbreviation (input) PDU_TYPE_DEACTIVATE_ALL :: u16 where "PDU_TYPE_DEACTIVATE_ALL \<equiv> 6"
abbreviation (input) PDU_TYPE_SERVER_REDIRECTION :: u16 where "PDU_TYPE_SERVER_REDIRECTION \<equiv> 0xA"
abbreviation (input) PDU_TYPE_FLOW_TEST :: u16 where "PDU_TYPE_FLOW_TEST \<equiv> 0x41"
abbreviation (input) PDU_TYPE_FLOW_RESPONSE :: u16 where "PDU_TYPE_FLOW_RESPONSE \<equiv> 0x42"
abbreviation (input) PDU_TYPE_FLOW_STOP :: u16 where "PDU_TYPE_FLOW_STOP \<equiv> 0x43"
abbreviation (input) DomainMCSPDU_SendDataRequest :: u8 where "DomainMCSPDU_SendDataRequest \<equiv> 25"
abbreviation (input) DomainMCSPDU_SendDataIndication :: u8 where "DomainMCSPDU_SendDataIndication \<equiv> 26"
abbreviation (input) RDP_PACKET_HEADER_MAX_LENGTH :: nat where "RDP_PACKET_HEADER_MAX_LENGTH \<equiv> 15"
abbreviation (input) RDP_SHARE_CONTROL_HEADER_LENGTH :: nat where "RDP_SHARE_CONTROL_HEADER_LENGTH \<equiv> 6"
abbreviation (input) RDP_SHARE_DATA_HEADER_LENGTH :: nat where "RDP_SHARE_DATA_HEADER_LENGTH \<equiv> 12"

fun failing :: "'a res \<Rightarrow> 'b \<Rightarrow> ('a \<Rightarrow> wStream \<Rightarrow> 'b res) \<Rightarrow> 'b res" where
  \<comment> \<open>A call whose FALSE makes the caller return \<open>x\<close>.\<close>
  "failing (Ok v s) x k = k v s"
| "failing (Fail s) x k = Ok x s"
| "failing Overrun x k = Overrun"

subsection \<open>Headers\<close>

definition rdp_read_security_header :: "wStream \<Rightarrow> u16 res" where
  "rdp_read_security_header s =
     (if Stream_GetRemainingLength s < 4 then Fail s
      else andthen (Stream_Read_UINT16 s) (\<lambda>fl s. Ok fl (Stream_Seek s 2)))"

definition rdp_write_security_header :: "wStream \<Rightarrow> u16 \<Rightarrow> unit res" where
  "rdp_write_security_header s fl =
     andthen (Stream_Write_UINT16 s fl) (\<lambda>_ s. Stream_Write_UINT16 s 0)"

definition rdp_read_flow_control_pdu :: "wStream \<Rightarrow> u16 res" where
  \<comment> \<open>The bytes that are skipped are not touched.\<close>
  "rdp_read_flow_control_pdu s =
     andthen (Stream_Read_UINT8 s) (\<lambda>pduType s. Ok (ucast pduType) (Stream_Seek s 5))"

definition rdp_read_share_control_header :: "wStream \<Rightarrow> (u16 \<times> u16 \<times> u16) res" where
  \<comment> \<open>The out parameters \<open>length\<close>, \<open>type\<close> and \<open>channel_id\<close>.\<close>
  "rdp_read_share_control_header s =
     (if Stream_GetRemainingLength s < 2 then Fail s
      else
        andthen (Stream_Read_UINT16 s) (\<lambda>len s.
          if len = 0x8000 then andthen (rdp_read_flow_control_pdu s) (\<lambda>type s. Ok (8, type, 0) s)
          else if size_of_int (uint len - 2) > Stream_GetRemainingLength s then Fail s
          else
            andthen (Stream_Read_UINT16 s) (\<lambda>type s.
              let type = type AND 0x0F
              in if len > 4 then andthen (Stream_Read_UINT16 s) (\<lambda>channel_id s. Ok (len, type, channel_id) s)
                 else Ok (len, type, 0) s)))"

definition rdp_write_share_control_header :: "wStream \<Rightarrow> u16 \<Rightarrow> u16 \<Rightarrow> u16 \<Rightarrow> unit res" where
  "rdp_write_share_control_header s len type channel_id =
     (let len = len - 15
      in andthen (Stream_Write_UINT16 s len) (\<lambda>_ s.
         andthen (Stream_Write_UINT16 s (type OR 0x10)) (\<lambda>_ s.
         Stream_Write_UINT16 s channel_id)))"

record share_data_header =
  sd_length :: u16
  sd_type :: u8
  sd_shareId :: u32
  sd_compressedType :: u8
  sd_compressedLength :: u16

definition rdp_read_share_data_header :: "wStream \<Rightarrow> share_data_header res" where
  "rdp_read_share_data_header s =
     (if Stream_GetRemainingLength s < 12 then Fail s
      else
        andthen (Stream_Read_UINT32 s) (\<lambda>shareId s.
        let s = Stream_Seek (Stream_Seek s 1) 1
        in andthen (Stream_Read_UINT16 s) (\<lambda>len s.
        andthen (Stream_Read_UINT8 s) (\<lambda>type s.
        andthen (Stream_Read_UINT8 s) (\<lambda>compressedType s.
        andthen (Stream_Read_UINT16 s) (\<lambda>compressedLength s.
          Ok \<lparr>sd_length = len, sd_type = type, sd_shareId = shareId, sd_compressedType = compressedType,
              sd_compressedLength = compressedLength\<rparr> s))))))"

definition rdp_write_share_data_header :: "wStream \<Rightarrow> u16 \<Rightarrow> u8 \<Rightarrow> u32 \<Rightarrow> unit res" where
  "rdp_write_share_data_header s len type share_id =
     (let len = len - 15; len = len - 6; len = len - 12
      in andthen (Stream_Write_UINT32 s share_id) (\<lambda>_ s.
         andthen (Stream_Write_UINT8 s 0) (\<lambda>_ s.
         andthen (Stream_Write_UINT8 s 1) (\<lambda>_ s.
         andthen (Stream_Write_UINT16 s len) (\<lambda>_ s.
         andthen (Stream_Write_UINT8 s type) (\<lambda>_ s.
         andthen (Stream_Write_UINT8 s 0) (\<lambda>_ s.
         Stream_Write_UINT16 s 0)))))))"

subsection \<open>Room for the headers\<close>

definition rdp_security_stream_init :: "rdpRdp \<Rightarrow> wStream \<Rightarrow> bool \<Rightarrow> rdpRdp \<times> wStream" where
  "rdp_security_stream_init rdp s sec_header =
     (if do_crypt rdp then
        (let s = Stream_Seek s 12;
             s = (if ENC_METHOD rdp = ENCRYPTION_METHOD_FIPS then Stream_Seek s 4 else s);
             rdp = rdp\<lparr>sec_flags := sec_flags rdp OR SEC_ENCRYPT\<rparr>
         in (if do_secure_checksum rdp then rdp\<lparr>sec_flags := sec_flags rdp OR SEC_SECURE_CHECKSUM\<rparr> else rdp, s))
      else if sec_flags rdp \<noteq> 0 \<or> sec_header then (rdp, Stream_Seek s 4)
      else (rdp, s))"

definition rdp_init_stream :: "rdpRdp \<Rightarrow> wStream \<Rightarrow> rdpRdp \<times> wStream" where
  "rdp_init_stream rdp s = rdp_security_stream_init rdp (Stream_Seek s RDP_PACKET_HEADER_MAX_LENGTH) False"

definition rdp_init_stream_pdu :: "rdpRdp \<Rightarrow> wStream \<Rightarrow> rdpRdp \<times> wStream" where
  "rdp_init_stream_pdu rdp s =
     (case rdp_security_stream_init rdp (Stream_Seek s RDP_PACKET_HEADER_MAX_LENGTH) False of
        (rdp, s) \<Rightarrow> (rdp, Stream_Seek s RDP_SHARE_CONTROL_HEADER_LENGTH))"

definition rdp_init_stream_data_pdu :: "rdpRdp \<Rightarrow> wStream \<Rightarrow> rdpRdp \<times> wStream" where
  "rdp_init_stream_data_pdu rdp s =
     (case rdp_security_stream_init rdp (Stream_Seek s RDP_PACKET_HEADER_MAX_LENGTH) False of
        (rdp, s) \<Rightarrow> (rdp, Stream_Seek (Stream_Seek s RDP_SHARE_CONTROL_HEADER_LENGTH) RDP_SHARE_DATA_HEADER_LENGTH))"

text \<open>The argument \<open>taken\<close> is what \<open>transport_send_stream_init\<close> returns: a stream of 2048 bytes at
  least with the cursor at 0, or NULL.\<close>

definition rdp_send_stream_init :: "rdpRdp \<Rightarrow> wStream option \<Rightarrow> (rdpRdp \<times> wStream) option" where
  \<comment> \<open>The stream is used without a check.\<close>
  "rdp_send_stream_init rdp taken = map_option (rdp_init_stream rdp) taken"

definition rdp_data_pdu_init :: "rdpRdp \<Rightarrow> wStream option \<Rightarrow> rdpRdp \<times> wStream option" where
  "rdp_data_pdu_init rdp taken =
     (case taken of None \<Rightarrow> (rdp, None)
      | Some s \<Rightarrow> (case rdp_init_stream_data_pdu rdp s of (rdp, s) \<Rightarrow> (rdp, Some s)))"

definition rdp_message_channel_pdu_init :: "rdpRdp \<Rightarrow> wStream option \<Rightarrow> rdpRdp \<times> wStream option" where
  "rdp_message_channel_pdu_init rdp taken =
     (case taken of None \<Rightarrow> (rdp, None)
      | Some s \<Rightarrow>
          (case rdp_security_stream_init rdp (Stream_Seek s RDP_PACKET_HEADER_MAX_LENGTH) True of
             (rdp, s) \<Rightarrow> (rdp, Some s)))"

subsection \<open>Starting again\<close>

definition rdp_reset :: "rdpRdp \<Rightarrow> rdpRdp" where
  \<comment> \<open>The fields modelled here, when every allocation succeeds. \<open>do_crypt\<close> and the key length stay as they are.\<close>
  "rdp_reset rdp =
     rdp\<lparr>rc4_decrypt_key := None, rc4_encrypt_key := None, fips_encrypt := None, fips_decrypt := None, fips_hmac := False,
         rdp_settings := (rdp_settings rdp)\<lparr>ServerRandom := [], ServerCertificate := []\<rparr>,
         rdp_mcs := the (mcs_new True True), errorInfo := 0, deactivation_reactivation := False, finalize_sc_pdus := 0\<rparr>"

subsection \<open>Error info\<close>

definition rdp_set_error_info :: "rdpRdp \<Rightarrow> u32 \<Rightarrow> rdpRdp option" where
  \<comment> \<open>None: \<open>rdp->instance\<close> is followed although it is NULL, as it is on the side of the server.\<close>
  "rdp_set_error_info rdp info =
     (let rdp = rdp\<lparr>errorInfo := info\<rparr>
      in if info \<noteq> 0 then
           (if \<not> has_instance rdp then None
            else Some (rdp\<lparr>LastError := push_bit 16 1 OR info, rdp_events := ErrorInfo info # rdp_events rdp\<rparr>))
         else Some (rdp\<lparr>LastError := 0\<rparr>))"

definition freerdp_abort_connect :: "rdpRdp \<Rightarrow> rdpRdp" where
  "freerdp_abort_connect rdp = (if has_instance rdp then rdp\<lparr>abort_event := True\<rparr> else rdp)"

definition freerdp_shall_disconnect :: "rdpRdp \<Rightarrow> bool" where
  "freerdp_shall_disconnect rdp \<longleftrightarrow> has_instance rdp \<and> abort_event rdp"

subsection \<open>The packet header\<close>

definition recv_ultimatum :: "rdpRdp \<Rightarrow> wStream \<Rightarrow> rdpRdp res" where
  \<comment> \<open>The part of \<open>rdp_read_header\<close> for \<open>DomainMCSPDU_DisconnectProviderUltimatum\<close>.\<close>
  "recv_ultimatum rdp s =
     andthen (mcs_recv_disconnect_provider_ultimatum s) (\<lambda>reason s.
       if \<not> has_instance rdp then Fail s
       else
         (case (if errorInfo rdp = 0 then rdp_set_error_info rdp (if reason = 1 then 1 else if reason = 3 then 0xC else 1)
                else Some rdp) of
            None \<Rightarrow> Overrun
          | Some rdp \<Rightarrow>
              (let rdp = freerdp_abort_connect rdp
               in Ok (rdp\<lparr>rdp_events := Terminate # rdp_events rdp\<rparr>) s)))"

definition rdp_read_header :: "rdpRdp \<Rightarrow> wStream \<Rightarrow> u16 \<Rightarrow> (u16 \<times> u16 \<times> rdpRdp) res" where
  \<comment> \<open>The last argument is \<open>*channelId\<close> before the call; the result \<open>*length\<close> and \<open>*channelId\<close> afterwards.\<close>
  "rdp_read_header rdp s channelId =
     (let MCSPDU = (if ServerMode (rdp_settings rdp) then DomainMCSPDU_SendDataRequest
                    else DomainMCSPDU_SendDataIndication)
      in andthen (tpkt_read_header s) (\<lambda>len s.
         andthen (tpdu_read_header s) (\<lambda>(code, li) s.
           if code \<noteq> X224_TPDU_DATA then
             (if code = X224_TPDU_DISCONNECT_REQUEST then Ok (len, channelId, freerdp_abort_connect rdp) s
              else Fail s)
           else
             andthen (per_read_choice s) (\<lambda>choice s.
               let domainMCSPDU = drop_bit 2 choice
               in if domainMCSPDU \<noteq> MCSPDU \<and> domainMCSPDU \<noteq> DomainMCSPDU_DisconnectProviderUltimatum then Fail s
                  else if size_of_int (uint len - 8) > Stream_GetRemainingLength s then Fail s
                  else if domainMCSPDU = DomainMCSPDU_DisconnectProviderUltimatum then
                    andthen (recv_ultimatum rdp s) (\<lambda>rdp s. Ok (len, channelId, rdp) s)
                  else if Stream_GetRemainingLength s < 5 then Fail s
                  else
                    andthen (regardless (per_read_integer16 s MCS_BASE_CHANNEL_ID)) (\<lambda>_ s.
                    andthen (regardless (per_read_integer16 s 0)) (\<lambda>c s.
                    let channelId = (case c of None \<Rightarrow> channelId | Some c \<Rightarrow> c)
                    in andthen (Stream_Read_UINT8 s) (\<lambda>_ s.
                       andthen (per_read_length s) (\<lambda>len s.
                         if unat len > Stream_GetRemainingLength s then Fail s
                         else Ok (len, channelId, rdp) s))))))))"

definition rdp_write_header :: "rdpRdp \<Rightarrow> wStream \<Rightarrow> u16 \<Rightarrow> u16 \<Rightarrow> unit res" where
  "rdp_write_header rdp s len channelId =
     (let MCSPDU = (if ServerMode (rdp_settings rdp) then DomainMCSPDU_SendDataIndication
                    else DomainMCSPDU_SendDataRequest);
          len = (if sec_flags rdp AND SEC_ENCRYPT \<noteq> 0 \<and> ENC_METHOD rdp = ENCRYPTION_METHOD_FIPS
                 then (let body_length = uint len - 15 - 16; pad = 8 - c_mod body_length 8
                       in if pad \<noteq> 8 then len + word_of_int pad else len)
                 else len)
      in andthen (mcs_write_domain_mcspdu_header s MCSPDU len 0) (\<lambda>_ s.
         andthen (per_write_integer16 s (userId (rdp_mcs rdp)) MCS_BASE_CHANNEL_ID) (\<lambda>_ s.
         andthen (per_write_integer16 s channelId 0) (\<lambda>_ s.
         andthen (Stream_Write_UINT8 s 0x70) (\<lambda>_ s.
         Stream_Write_UINT16_BE s ((len - 15) OR 0x8000))))))"

subsection \<open>Sending\<close>

definition poke :: "wStream \<Rightarrow> nat \<Rightarrow> bytes \<Rightarrow> wStream option" where
  \<comment> \<open>A write through a pointer into the buffer; the cursor stays.\<close>
  "poke s i bs =
     (if bs \<noteq> [] \<and> Stream_Capacity s < i + length bs then None
      else Some (s\<lparr>s_buffer := take i (s_buffer s) @ bs @ drop (i + length bs) (s_buffer s)\<rparr>))"

definition overwrite :: "wStream \<Rightarrow> nat \<Rightarrow> bytes \<Rightarrow> wStream" where
  \<comment> \<open>The memory from offset \<open>i\<close> on after a call that worked on it in place.\<close>
  "overwrite s i mem = s\<lparr>s_buffer := take i (s_buffer s) @ mem\<rparr>"

definition fips_stream_out :: "crypto \<Rightarrow> rdpRdp \<Rightarrow> wStream \<Rightarrow> int \<Rightarrow> (bool \<times> u32 \<times> rdpRdp) res" where
  \<comment> \<open>The part of \<open>rdp_security_stream_out\<close> for FIPS, after the security header. The second component is \<open>*pad\<close>.\<close>
  "fips_stream_out c rdp s len =
     (let data = s_pos s + 12; len = len - int data
      in andthen (Stream_Write_UINT16 s 0x10) (\<lambda>_ s.
         andthen (Stream_Write_UINT8 s 0x1) (\<lambda>_ s.
         let pad = 8 - c_mod len 8; pad = (if pad = 8 then 0 else pad)
         in case (if pad = 0 then Some s
                  else if int data + len < 0 then None
                  else poke s (nat (int data + len)) (replicate (nat pad) 0)) of
              None \<Rightarrow> Overrun
            | Some s \<Rightarrow>
                andthen (Stream_Write_UINT8 s (word_of_int pad)) (\<lambda>_ s.
                  case security_hmac_signature c (drop data (s_buffer s)) len rdp of
                    None \<Rightarrow> Overrun
                  | Some None \<Rightarrow> Ok (False, word_of_int pad, rdp) s
                  | Some (Some sig) \<Rightarrow>
                      (case poke s (s_pos s) sig of
                         None \<Rightarrow> Overrun
                       | Some s \<Rightarrow>
                           let s = Stream_Seek s 8
                           in case security_fips_encrypt c (drop data (s_buffer s)) (len + pad) rdp of
                                None \<Rightarrow> Overrun
                              | Some (_, mem, rdp) \<Rightarrow> Ok (True, word_of_int pad, rdp) (overwrite s data mem))))))"

definition rc4_stream_out :: "crypto \<Rightarrow> rdpRdp \<Rightarrow> wStream \<Rightarrow> int \<Rightarrow> u32 \<Rightarrow> (bool \<times> u32 \<times> rdpRdp) res" where
  \<comment> \<open>The part for RC4.\<close>
  "rc4_stream_out c rdp s len fl =
     (let data = s_pos s + 8; len = len - int data; mem = drop data (s_buffer s)
      in case (if fl AND SEC_SECURE_CHECKSUM \<noteq> 0
               then security_salted_mac_signature c rdp mem (word_of_int len) True
               else security_mac_signature c rdp mem (word_of_int len)) of
           None \<Rightarrow> Overrun
         | Some None \<Rightarrow> Ok (False, 0, rdp) s
         | Some (Some mac) \<Rightarrow>
             (case poke s (s_pos s) mac of
                None \<Rightarrow> Overrun
              | Some s \<Rightarrow>
                  let s = Stream_Seek s 8
                  in case security_encrypt c (drop (s_pos s) (s_buffer s)) len rdp of
                       None \<Rightarrow> Overrun
                     | Some (ok, mem, rdp) \<Rightarrow> Ok (ok, 0, rdp) (overwrite s (s_pos s) mem)))"

definition rdp_security_stream_out :: "crypto \<Rightarrow> rdpRdp \<Rightarrow> wStream \<Rightarrow> int \<Rightarrow> u32 \<Rightarrow> (bool \<times> u32 \<times> rdpRdp) res" where
  "rdp_security_stream_out c rdp s len fl =
     (let fl = fl OR sec_flags rdp
      in if fl = 0 then Ok (True, 0, rdp) s
         else
           andthen (rdp_write_security_header s (ucast fl)) (\<lambda>_ s.
             if fl AND SEC_ENCRYPT = 0 then Ok (True, 0, rdp\<lparr>sec_flags := 0\<rparr>) s
             else
               andthen (if ENC_METHOD rdp = ENCRYPTION_METHOD_FIPS then fips_stream_out c rdp s len
                        else rc4_stream_out c rdp s len fl) (\<lambda>(ok, pad, rdp) s.
                 Ok (ok, pad, if ok then rdp\<lparr>sec_flags := 0\<rparr> else rdp) s)))"

definition rdp_get_sec_bytes :: "rdpRdp \<Rightarrow> u16 \<Rightarrow> nat" where
  "rdp_get_sec_bytes rdp fl =
     (if sec_flags rdp AND SEC_ENCRYPT \<noteq> 0 then
        (if ENC_METHOD rdp = ENCRYPTION_METHOD_FIPS then 12 + 4 else 12)
      else if sec_flags rdp \<noteq> 0 \<or> fl \<noteq> 0 then 4
      else 0)"

text \<open>What a send routine does: the BOOL it returns and the packets it handed to the transport, where
  \<open>write\<close> stands for \<open>transport_write\<close>.\<close>

definition send_out :: "crypto \<Rightarrow> (bytes \<Rightarrow> int) \<Rightarrow> rdpRdp \<Rightarrow> wStream \<Rightarrow> u16 \<Rightarrow> u32 \<Rightarrow> (bool \<times> bytes list \<times> rdpRdp) res" where
  \<comment> \<open>The common end of the send routines, from \<open>rdp_security_stream_out\<close> on.\<close>
  "send_out c write rdp s len fl =
     andthen (rdp_security_stream_out c rdp s (uint len) fl) (\<lambda>(ok, pad, rdp) s.
       if \<not> ok then Ok (False, [], rdp) s
       else
         (let len = len + ucast pad;
              s = Stream_SealLength (Stream_SetPosition s (unat len))
          in if Stream_Capacity s < unat len then Overrun
             else Ok (\<not> write (packet s) < 0, [packet s], rdp) s))"

definition rdp_send :: "crypto \<Rightarrow> (bytes \<Rightarrow> int) \<Rightarrow> rdpRdp \<Rightarrow> wStream \<Rightarrow> u16 \<Rightarrow> (bool \<times> bytes list \<times> rdpRdp) res" where
  "rdp_send c write rdp s channel_id =
     (let len = word_of_nat (s_pos s); s = Stream_SetPosition s 0
      in andthen (rdp_write_header rdp s len channel_id) (\<lambda>_ s. send_out c write rdp s len 0))"

definition rdp_send_pdu :: "crypto \<Rightarrow> (bytes \<Rightarrow> int) \<Rightarrow> rdpRdp \<Rightarrow> wStream \<Rightarrow> u16 \<Rightarrow> u16 \<Rightarrow> (bool \<times> bytes list \<times> rdpRdp) res" where
  "rdp_send_pdu c write rdp s type channel_id =
     (let len = word_of_nat (s_pos s); s = Stream_SetPosition s 0
      in andthen (rdp_write_header rdp s len MCS_GLOBAL_CHANNEL_ID) (\<lambda>_ s.
         let sec_bytes = rdp_get_sec_bytes rdp 0; sec_hold = s_pos s
         in andthen (rdp_write_share_control_header (Stream_Seek s sec_bytes) (len - word_of_nat sec_bytes) type channel_id) (\<lambda>_ s.
            send_out c write rdp (Stream_SetPosition s sec_hold) len 0)))"

definition rdp_send_data_pdu :: "crypto \<Rightarrow> (bytes \<Rightarrow> int) \<Rightarrow> rdpRdp \<Rightarrow> wStream \<Rightarrow> u8 \<Rightarrow> u16 \<Rightarrow> (bool \<times> bytes list \<times> rdpRdp) res" where
  "rdp_send_data_pdu c write rdp s type channel_id =
     (let len = word_of_nat (s_pos s); s = Stream_SetPosition s 0
      in andthen (rdp_write_header rdp s len MCS_GLOBAL_CHANNEL_ID) (\<lambda>_ s.
         let sec_bytes = rdp_get_sec_bytes rdp 0; sec_hold = s_pos s; rest = len - word_of_nat sec_bytes
         in andthen (rdp_write_share_control_header (Stream_Seek s sec_bytes) rest PDU_TYPE_DATA channel_id) (\<lambda>_ s.
            andthen (rdp_write_share_data_header s rest type (ShareId (rdp_settings rdp))) (\<lambda>_ s.
            send_out c write rdp (Stream_SetPosition s sec_hold) len 0))))"

definition rdp_send_message_channel_pdu :: "crypto \<Rightarrow> (bytes \<Rightarrow> int) \<Rightarrow> rdpRdp \<Rightarrow> wStream \<Rightarrow> u16 \<Rightarrow> (bool \<times> bytes list \<times> rdpRdp) res" where
  "rdp_send_message_channel_pdu c write rdp s fl =
     (let len = word_of_nat (s_pos s); s = Stream_SetPosition s 0
      in andthen (rdp_write_header rdp s len (messageChannelId (rdp_mcs rdp))) (\<lambda>_ s.
         let sec_bytes = rdp_get_sec_bytes rdp fl; sec_hold = s_pos s;
             s = Stream_SetPosition (Stream_Seek s sec_bytes) sec_hold
         in send_out c write rdp s len (ucast fl)))"

definition rdp_send_error_info :: "crypto \<Rightarrow> (bytes \<Rightarrow> int) \<Rightarrow> rdpRdp \<Rightarrow> wStream option \<Rightarrow> (bool \<times> bytes list \<times> rdpRdp) res" where
  \<comment> \<open>Without an error it returns TRUE at once, where no stream is taken.\<close>
  "rdp_send_error_info c write rdp taken =
     (if errorInfo rdp = 0 then Ok (True, [], rdp) (Stream_New [])
      else
        (case rdp_data_pdu_init rdp taken of
           (rdp, None) \<Rightarrow> Overrun
         | (rdp, Some s) \<Rightarrow>
             andthen (Stream_Write_UINT32 s (errorInfo rdp)) (\<lambda>_ s. rdp_send_data_pdu c write rdp s 0x2F 0)))"

subsection \<open>Decryption\<close>

definition fips_decrypt_pdu :: "crypto \<Rightarrow> rdpRdp \<Rightarrow> wStream \<Rightarrow> int \<Rightarrow> (bool \<times> rdpRdp) res" where
  "fips_decrypt_pdu c rdp s len =
     (if Stream_GetRemainingLength s < 12 then Ok (False, rdp) s
      else
        andthen (Stream_Read_UINT16 s) (\<lambda>_ s.
        andthen (Stream_Read_UINT8 s) (\<lambda>version s.
        andthen (Stream_Read_UINT8 s) (\<lambda>pad s.
        let sig = drop (s_pos s) (s_buffer s); s = Stream_Seek s 8; len = len - 12
        in case security_fips_decrypt c (drop (s_pos s) (s_buffer s)) len rdp of
             None \<Rightarrow> Overrun
           | Some (ok, mem, rdp) \<Rightarrow>
               let s = overwrite s (s_pos s) mem
               in if \<not> ok then Ok (False, rdp) s
                  else
                    (case security_fips_check_signature c mem (len - uint pad) sig rdp of
                       None \<Rightarrow> Overrun
                     | Some (ok, rdp) \<Rightarrow>
                         if \<not> ok then Ok (False, rdp) s
                         else Ok (True, rdp) (s\<lparr>s_length := s_length s - unat pad\<rparr>))))))"

definition rc4_decrypt_pdu :: "crypto \<Rightarrow> rdpRdp \<Rightarrow> wStream \<Rightarrow> int \<Rightarrow> u16 \<Rightarrow> (bool \<times> rdpRdp) res" where
  \<comment> \<open>The code that was received is compared with the one that was computed, without a consequence.\<close>
  "rc4_decrypt_pdu c rdp s len fl =
     (if Stream_GetRemainingLength s < 8 then Ok (False, rdp) s
      else
        andthen (Stream_Read s 8) (\<lambda>wmac s.
        let len = len - 8
        in case security_decrypt c (drop (s_pos s) (s_buffer s)) len rdp of
             None \<Rightarrow> Overrun
           | Some (ok, mem, rdp) \<Rightarrow>
               let s = overwrite s (s_pos s) mem
               in if \<not> ok then Ok (False, rdp) s
                  else
                    (case (if fl AND ucast SEC_SECURE_CHECKSUM \<noteq> 0
                           then security_salted_mac_signature c rdp mem (word_of_int len) False
                           else security_mac_signature c rdp mem (word_of_int len)) of
                       None \<Rightarrow> Overrun
                     | Some None \<Rightarrow> Ok (False, rdp) s
                     | Some (Some cmac) \<Rightarrow> Ok (True, rdp) s)))"

definition rdp_decrypt :: "crypto \<Rightarrow> rdpRdp \<Rightarrow> wStream \<Rightarrow> int \<Rightarrow> u16 \<Rightarrow> (bool \<times> rdpRdp) res" where
  "rdp_decrypt c rdp s len fl =
     (if ENC_METHOD rdp = ENCRYPTION_METHOD_FIPS then fips_decrypt_pdu c rdp s len
      else rc4_decrypt_pdu c rdp s len fl)"

subsection \<open>A packet on its way\<close>

definition rdp_header_bytes :: "rdpRdp \<Rightarrow> u16 \<Rightarrow> u16 \<Rightarrow> bytes" where
  "rdp_header_bytes rdp len channelId =
     mcs_header_bytes (if ServerMode (rdp_settings rdp) then DomainMCSPDU_SendDataIndication else DomainMCSPDU_SendDataRequest) 0 len
     @ be16 (userId (rdp_mcs rdp) - MCS_BASE_CHANNEL_ID) @ be16 channelId @ [0x70] @ be16 ((len - 15) OR 0x8000)"

definition padded_length :: "rdpRdp \<Rightarrow> u16 \<Rightarrow> u16" where
  "padded_length rdp len =
     (if sec_flags rdp AND SEC_ENCRYPT \<noteq> 0 \<and> ENC_METHOD rdp = ENCRYPTION_METHOD_FIPS
      then (let pad = 8 - c_mod (uint len - 31) 8 in if pad \<noteq> 8 then len + word_of_int pad else len)
      else len)"

lemma length_rdp_header_bytes [simp]: "length (rdp_header_bytes rdp len c) = 15"
  by (simp add: rdp_header_bytes_def)

lemma rdp_write_header_put [wr_simps]:
  "rdp_write_header rdp s len channelId = put s (rdp_header_bytes rdp (padded_length rdp len) channelId) ()"
  by (simp add: rdp_write_header_def rdp_header_bytes_def padded_length_def wr_simps Let_def)

lemma unat16: "n < 65536 \<Longrightarrow> unat (word_of_nat n :: u16) = n"
  by (simp only: unat_of_nat) simp

lemma u16_bound: "uint (v :: u16) < 65536"
proof -
  have "uint v < 2 ^ LENGTH(16)" by (rule unsigned_less)
  then show ?thesis by simp
qed

lemma not_bit15: "unat (len :: u16) < 2 ^ 15 \<Longrightarrow> \<not> bit len 15"
  using small_word_bit [of len 15 15] by (simp add: word_less_nat_alt)

lemma per_read_length_marked:
  assumes "swf s" "avail s = be16 (len OR 0x8000) @ r" "unat len < 2 ^ 15"
  shows "per_read_length s = Ok len (Stream_Seek s 2)"
proof -
  have a: "avail s = ucast (drop_bit 8 (len OR 0x8000)) # ucast (len OR 0x8000) # r"
    using assms(2) by (simp add: be16_def)
  have "swf (Stream_Seek s 1)" using assms(1) a by simp
  with a assms(1) show ?thesis
    using top_bit_set [of len] top_bit_dropped [OF not_bit15 [OF assms(3)]]
    by (simp add: per_read_length_def read_known)
qed

lemma rdp_read_header_own:
  assumes mode: "ServerMode (rdp_settings b) \<noteq> ServerMode (rdp_settings a)"
    and "length body < 2 ^ 15 - 15" "len = word_of_nat (15 + length body)" 
  shows "rdp_read_header b (Stream_New (rdp_header_bytes a len channelId @ body)) c =
    Ok (len - 15, channelId, b) (Stream_Seek (Stream_New (rdp_header_bytes a len channelId @ body)) 15)"
proof -
  let ?s = "Stream_New (rdp_header_bytes a len channelId @ body)"
  let ?pdu = "if ServerMode (rdp_settings a) then DomainMCSPDU_SendDataIndication else DomainMCSPDU_SendDataRequest"
  let ?uid = "userId (rdp_mcs a) - MCS_BASE_CHANNEL_ID"
  have len: "unat len = 15 + length body" "unat (len - 15) = length body"
  proof -
    show 1: "unat len = 15 + length body" unfolding assms(3) using assms(2) by (intro unat16) simp
    have "15 \<le> len" using 1 by (simp add: word_le_nat_alt)
    then show "unat (len - 15) = length body" using 1 by (simp add: unat_sub)
  qed
  have size: "size_of_int (uint len - 8) = 7 + length body"
  proof -
    have "uint len = int (unat len)" by simp
    then show ?thesis using len(1) assms(2) by (simp only: size_of_int_def) simp
  qed
  have swf: "swf (Stream_Seek ?s n)" if "n \<le> 15 + length body" for n
    using that assms(2) by (intro swf_Stream_Seek) simp_all
  have av: "avail (Stream_Seek ?s 7) = push_bit 2 ?pdu # be16 ?uid @ be16 channelId @ 0x70 # be16 ((len - 15) OR 0x8000) @ body"
    by (simp add: rdp_header_bytes_def mcs_header_bytes_def)
  note at = av [THEN arg_cong, of "drop 1"] av [THEN arg_cong, of "drop 3"] av [THEN arg_cong, of "drop 5"] av [THEN arg_cong, of "drop 6"]
  have 1: "tpkt_read_header ?s = Ok len (Stream_Seek ?s 4)"
    using swf [of 0] by (subst tpkt.rd_enc [where v = len]) (simp_all add: rdp_header_bytes_def mcs_header_bytes_def)
  have 2: "tpdu_read_header (Stream_Seek ?s 4) = Ok (X224_TPDU_DATA, 2) (Stream_Seek ?s 7)"
    using swf [of 4] by (subst tpdu.rd_enc [where v = "(X224_TPDU_DATA, 2)"]) (simp_all add: rdp_header_bytes_def mcs_header_bytes_def)
  have 3: "per_read_choice (Stream_Seek ?s 7) = Ok (push_bit 2 ?pdu) (Stream_Seek ?s 8)"
    using swf [of 7] av by (simp add: per_read_choice_def read_known)
  have 4: "\<exists>x. regardless (per_read_integer16 (Stream_Seek ?s 8) MCS_BASE_CHANNEL_ID) = Ok x (Stream_Seek ?s 10)"
    using swf [of 8] at(1) by (auto simp: per_read_integer16_def read_known)
  have 5: "regardless (per_read_integer16 (Stream_Seek ?s 10) 0) = Ok (Some channelId) (Stream_Seek ?s 12)"
    using swf [of 10] at(2) u16_bound [of channelId] by (simp add: per_read_integer16_def read_known)
  have 6: "Stream_Read_UINT8 (Stream_Seek ?s 12) = Ok 0x70 (Stream_Seek ?s 13)"
    using at(3) by (simp add: read_known)
  have 7: "per_read_length (Stream_Seek ?s 13) = Ok (len - 15) (Stream_Seek ?s 15)"
    using swf [of 13] at(4) assms(2) len(2) by (subst per_read_length_marked [where len = "len - 15" and r = body]) simp_all
  have pdu: "drop_bit 2 (push_bit 2 ?pdu) = ?pdu" "?pdu \<noteq> DomainMCSPDU_DisconnectProviderUltimatum"
    "(if ServerMode (rdp_settings b) then DomainMCSPDU_SendDataRequest else DomainMCSPDU_SendDataIndication) = ?pdu"
    using mode by (auto split: if_splits)
  have rem: "Stream_GetRemainingLength (Stream_Seek ?s 8) = 7 + length body" "Stream_GetRemainingLength (Stream_Seek ?s 15) = length body"
    using swf [of 8] swf [of 15] by simp_all
  from 4 obtain x where "regardless (per_read_integer16 (Stream_Seek ?s 8) MCS_BASE_CHANNEL_ID) = Ok x (Stream_Seek ?s 10)" ..
  then show ?thesis
    by (simp only: rdp_read_header_def Let_def 1 2 3 5 6 7 pdu size rem len andthen.simps prod.case) simp
qed

text \<open>RC4: what is put out, and what the other side makes of it.\<close>

definition rc4_mac :: "crypto \<Rightarrow> rdpRdp \<Rightarrow> bool \<Rightarrow> bytes \<Rightarrow> u32 \<Rightarrow> bool \<Rightarrow> bytes option option" where
  "rc4_mac c rdp is_salted data len encryption =
     (if is_salted then security_salted_mac_signature c rdp data len encryption else security_mac_signature c rdp data len)"

lemma rc4_mac_own:
  assumes "crypto_ok c" "rc4_half a b" "decrypt_only b b'" "decrypt_checksum_use_count b' = encrypt_checksum_use_count a + 1"
    "unat len \<le> length data" "take (unat len) data = take (unat len) data'"
  shows "\<exists>mac. rc4_mac c a e data len True = Some (Some mac) \<and> rc4_mac c b' e data' len False = Some (Some mac) \<and> length mac = 8"
  using rc4_half_mac [OF assms(2-6), of c] rc4_half_mac_total [OF assms(1,2,5)]
  by (cases e) (auto simp: rc4_mac_def)

lemma rc4_stream_out_own:
  assumes c: "crypto_ok c" and h: "rc4_half a b"
    and fits: "s_pos s + 8 + m \<le> length (s_buffer s)" and m: "m < 2 ^ 31"
    and p: "p = take m (drop (s_pos s + 8) (s_buffer s))"
  shows "\<exists>mac w a' b'. rc4_stream_out c a s (int (s_pos s + 8 + m)) fl =
      Ok (True, 0, a') (s\<lparr>s_buffer := take (s_pos s) (s_buffer s) @ mac @ w @ drop (s_pos s + 8 + m) (s_buffer s), s_pos := s_pos s + 8\<rparr>) \<and>
    length mac = 8 \<and> length w = m \<and>
    (\<forall>rest. security_decrypt c (w @ rest) (int m) b = Some (True, p @ rest, b') \<and>
       rc4_mac c b' (fl AND SEC_SECURE_CHECKSUM \<noteq> 0) (p @ rest) (word_of_nat m) False = Some (Some mac)) \<and>
    rc4_half a' b' \<and> encrypt_only a a' \<and> decrypt_only b b'"
proof -
  let ?i = "s_pos s" and ?buf = "s_buffer s"
  let ?mem = "drop (?i + 8) ?buf"
  have lm: "m \<le> length ?mem" using fits by simp
  from security_encrypt_decrypt [OF c h lm m] obtain w a' b' where w:
    "security_encrypt c ?mem (int m) a = Some (True, w, a')" "length w = length ?mem" "drop m w = drop m ?mem"
    "\<And>rest. security_decrypt c (take m w @ rest) (int m) b = Some (True, take m ?mem @ rest, b')"
    "rc4_half a' b'" "encrypt_only a a'" "decrypt_only b b'" "encrypt_checksum_use_count a' = encrypt_checksum_use_count a + 1"
    by blast
  let ?e = "fl AND SEC_SECURE_CHECKSUM \<noteq> 0" and ?len = "word_of_nat m :: u32"
  have len: "unat ?len = m" using m by (simp add: unat_of_nat)
  have "decrypt_checksum_use_count b' = encrypt_checksum_use_count a + 1"
    using w(5,8) by (simp add: rc4_half_def mirrored_def)
  note mac = rc4_mac_own [OF c h w(7) this, of ?len ?mem]
  obtain mac where M: "rc4_mac c a ?e ?mem ?len True = Some (Some mac)" "length mac = 8"
    using mac [of ?mem ?e] lm len by auto
  have M': "rc4_mac c b' ?e (p @ rest) ?len False = Some (Some mac)" for rest
    using mac [of "p @ rest" ?e] lm len M(1) by (simp add: p)
  let ?s = "s\<lparr>s_buffer := take ?i ?buf @ mac @ drop (?i + 8) ?buf\<rparr>"
  have poke: "poke s ?i mac = Some ?s"
    using M(2) fits by (simp add: poke_def Stream_Capacity_def add.commute)
  have i: "min (length ?buf) ?i = ?i" using fits by simp
  have "drop (?i + 8) (s_buffer ?s) = ?mem" "take (?i + 8) (s_buffer ?s) = take ?i ?buf @ mac"
    using M(2) i by (simp_all add: min.commute)
  moreover have "w = take m w @ drop (?i + 8 + m) ?buf"
    using append_take_drop_id [of m w] w(3) by (simp add: add.commute add.left_commute)
  ultimately have "rc4_stream_out c a s (int (?i + 8 + m)) fl =
      Ok (True, 0, a') (s\<lparr>s_buffer := take ?i ?buf @ mac @ take m w @ drop (?i + 8 + m) ?buf, s_pos := ?i + 8\<rparr>)"
    using M(1) w(1) by (simp add: rc4_stream_out_def rc4_mac_def Let_def poke overwrite_def Stream_Seek_def split: if_splits)
  then show ?thesis
    using M(2) M' w(4-7) lm w(2) p by (intro exI [of _ mac] exI [of _ "take m w"] exI [of _ a'] exI [of _ b']) simp
qed

lemma swf_overwrite:
  assumes "swf s" "s_length s = length (s_buffer s)" "length mem = length (s_buffer s) - s_pos s"
  shows "swf (overwrite s (s_pos s) mem)" "avail (overwrite s (s_pos s) mem) = mem"
    "s_length (overwrite s (s_pos s) mem) = length (s_buffer (overwrite s (s_pos s) mem))"
  using assms by (simp_all add: swf_def overwrite_def avail_def)

lemma whole_avail: "s_length s = length (s_buffer s) \<Longrightarrow> avail s = drop (s_pos s) (s_buffer s)"
  by (simp add: avail_def)

lemma secure_checksum_flag: "(ucast (fl :: u32) :: u16) AND ucast SEC_SECURE_CHECKSUM \<noteq> 0 \<longleftrightarrow> fl AND SEC_SECURE_CHECKSUM \<noteq> 0"
  and encrypt_flag: "(ucast (fl :: u32) :: u16) AND ucast SEC_ENCRYPT \<noteq> 0 \<longleftrightarrow> fl AND SEC_ENCRYPT \<noteq> 0"
proof -
  have "(ucast fl :: u16) AND ucast (2 ^ k :: u32) = (if bit fl k then 2 ^ k else 0)" "fl AND 2 ^ k = (if bit fl k then 2 ^ k else 0)"
    if "k < 16" for k
    using that by (auto intro!: bit_word_eqI simp: bit_simps bit_pow2_word)
  from this [of 11] this [of 3] show "(ucast (fl :: u32) :: u16) AND ucast SEC_SECURE_CHECKSUM \<noteq> 0 \<longleftrightarrow> fl AND SEC_SECURE_CHECKSUM \<noteq> 0"
    "(ucast (fl :: u32) :: u16) AND ucast SEC_ENCRYPT \<noteq> 0 \<longleftrightarrow> fl AND SEC_ENCRYPT \<noteq> 0"
    by simp_all
qed

lemma rc4_decrypt_pdu_own:
  assumes s: "swf s" "s_length s = length (s_buffer s)" "avail s = mac @ w" "length mac = 8" "length w = m" "length p = m"
    and d: "security_decrypt c w (int m) b = Some (True, p, b')"
    and k: "rc4_mac c b' (fl AND ucast SEC_SECURE_CHECKSUM \<noteq> 0) p (word_of_nat m) False = Some (Some mac)"
  shows "\<exists>t. rc4_decrypt_pdu c b s (int (8 + m)) fl = Ok (True, b') t \<and> avail t = p \<and> swf t"
proof -
  let ?s = "Stream_Seek s 8"
  have rd: "Stream_Read s 8 = Ok mac ?s" using s(3,4) by (simp add: Stream_Read_def)
  have s8: "swf ?s" "s_length ?s = length (s_buffer ?s)" using s(1-4) by simp_all
  have "drop (s_pos ?s) (s_buffer ?s) = w"
    using whole_avail [OF s8(2)] s(3,4) by simp
  moreover have "length (s_buffer ?s) - s_pos ?s = m"
    using length_avail [OF s8(1)] s8(2) s(3-5) by simp
  moreover from this s(6) have "swf (overwrite ?s (s_pos ?s) p)" "avail (overwrite ?s (s_pos ?s) p) = p"
    by (intro swf_overwrite [OF s8]; simp)+
  ultimately show ?thesis
    using s(1,3,4) d k by (simp add: rc4_decrypt_pdu_def rd rc4_mac_def split: if_splits)
qed

text \<open>FIPS.\<close>

definition fips_pad :: "nat \<Rightarrow> nat" where
  "fips_pad m = (8 - m mod 8) mod 8"

lemma fips_pad_cases:
  obtains "m mod 8 = 0" "fips_pad m = 0" | q r where "m = 8 * q + r" "0 < r" "r < 8" "m mod 8 = r" "fips_pad m = 8 - r"
proof (cases "m mod 8 = 0")
  case False
  then have "m = 8 * (m div 8) + m mod 8" "0 < m mod 8" "m mod 8 < 8" by simp_all
  moreover from this have "fips_pad m = 8 - m mod 8" by (simp add: fips_pad_def)
  ultimately show ?thesis using that(2) by blast
qed (simp add: fips_pad_def that(1))

lemma fips_pad: "8 dvd m + fips_pad m" "fips_pad m < 8"
proof -
  show "8 dvd m + fips_pad m"
  proof (cases m rule: fips_pad_cases)
    case (2 q r)
    then have "m + fips_pad m = 8 * (q + 1)" by simp
    then show ?thesis by (rule dvdI)
  qed auto
qed (simp add: fips_pad_def)

lemma fips_pad_code: "8 - c_mod (int m) 8 = int (8 - m mod 8)" "(8 :: int) - c_mod (int m) 8 = 8 \<longleftrightarrow> fips_pad m = 0"
  "fips_pad m \<noteq> 0 \<Longrightarrow> 8 - m mod 8 = fips_pad m"
proof -
  show c: "8 - c_mod (int m) 8 = int (8 - m mod 8)" by (simp add: zmod_int of_nat_diff)
  show "(8 :: int) - c_mod (int m) 8 = 8 \<longleftrightarrow> fips_pad m = 0"
    unfolding c by (cases m rule: fips_pad_cases) auto
  show "fips_pad m \<noteq> 0 \<Longrightarrow> 8 - m mod 8 = fips_pad m" by (cases m rule: fips_pad_cases) auto
qed

lemma chop: "length xs = a + b \<Longrightarrow> \<exists>ys zs. xs = ys @ zs \<and> length ys = a \<and> length zs = b"
  by (intro exI [of _ "take a xs"] exI [of _ "drop a xs"]) simp

lemma poke_append:
  assumes "length old = length new" "j = length A"
    and "s = \<lparr>s_buffer = A @ old @ B, s_pos = i, s_length = l\<rparr>" "t = \<lparr>s_buffer = A @ new @ B, s_pos = i, s_length = l\<rparr>"
  shows "poke s j new = Some t"
  using assms by (simp add: poke_def Stream_Capacity_def)

lemma put_append:
  assumes "length old = length new" "i = length A" "j = length A + length new"
    and "s = \<lparr>s_buffer = A @ old @ B, s_pos = i, s_length = l\<rparr>" "t = \<lparr>s_buffer = A @ new @ B, s_pos = j, s_length = l\<rparr>"
  shows "put s new x = Ok x t"
  using assms by (simp add: put_def Stream_Write_def Stream_Capacity_def)

lemma fips_stream_out_own:
  assumes c: "crypto_ok c" "cbc_ok c" "\<And>k d. length (hmac_sha1 c k d) = 20" and h: "fips_half c a b"
    and l: "length room = 12" "length p = m" "length z = fips_pad m" and m: "m < 2 ^ 30"
  shows "\<exists>sig w x y.
    fips_stream_out c a \<lparr>s_buffer = A @ room @ p @ z @ tail, s_pos = length A, s_length = n\<rparr> (int (length A + 12 + m)) =
      Ok (True, word_of_nat (fips_pad m), a\<lparr>fips_encrypt := Some x, encrypt_use_count := encrypt_use_count a + 1\<rparr>)
        \<lparr>s_buffer = A @ [0x10, 0, 1, word_of_nat (fips_pad m)] @ sig @ w @ tail, s_pos = length A + 12, s_length = n\<rparr> \<and>
    length sig = 8 \<and> length w = m + fips_pad m \<and>
    security_fips_decrypt c w (int (m + fips_pad m)) b =
      Some (True, p @ replicate (fips_pad m) 0, b\<lparr>fips_decrypt := Some y\<rparr>) \<and>
    (\<forall>rest. security_fips_check_signature c (p @ replicate (fips_pad m) 0) (int m) (sig @ rest) (b\<lparr>fips_decrypt := Some y\<rparr>) =
      Some (True, b\<lparr>fips_decrypt := Some y, decrypt_use_count := decrypt_use_count b + 1\<rparr>)) \<and>
    fips_half c (a\<lparr>fips_encrypt := Some x, encrypt_use_count := encrypt_use_count a + 1\<rparr>)
      (b\<lparr>fips_decrypt := Some y, decrypt_use_count := decrypt_use_count b + 1\<rparr>)"
proof -
  let ?pad = "fips_pad m"
  let ?plain = "p @ replicate ?pad 0"
  obtain h2 h1 hp hs where room: "room = h2 @ h1 @ hp @ hs" "length h2 = 2" "length h1 = 1" "length hp = 1" "length hs = 8"
    using l(1) chop [of room 2 10] chop [of _ 1 9] chop [of _ 1 8] by fastforce
  define S where "S = (\<lambda>X i. \<lparr>s_buffer = A @ X, s_pos = length A + i, s_length = n\<rparr>)"
  have 1: "Stream_Write_UINT16 (S (room @ p @ z @ tail) 0) 0x10 = Ok () (S ([0x10, 0] @ h1 @ hp @ hs @ p @ z @ tail) 2)"
    unfolding stream_put Stream_Write_put
    by (rule put_append [where A = A and old = h2]) (use room in \<open>simp_all add: S_def le16_def\<close>)
  have 2: "Stream_Write_UINT8 (S ([0x10, 0] @ h1 @ hp @ hs @ p @ z @ tail) 2) 1 = Ok () (S ([0x10, 0, 1] @ hp @ hs @ p @ z @ tail) 3)"
    unfolding stream_put Stream_Write_put
    by (rule put_append [where A = "A @ [0x10, 0]" and old = h1]) (use room in \<open>simp_all add: S_def\<close>)
  have 3: "poke (S ([0x10, 0, 1] @ hp @ hs @ p @ z @ tail) 3) (length A + (12 + m)) (replicate ?pad 0)
      = Some (S ([0x10, 0, 1] @ hp @ hs @ ?plain @ tail) 3)"
    by (rule poke_append [where A = "A @ [0x10, 0, 1] @ hp @ hs @ p" and old = z]) (use room l in \<open>simp_all add: S_def\<close>)
  have 4: "Stream_Write_UINT8 (S ([0x10, 0, 1] @ hp @ hs @ ?plain @ tail) 3) x = Ok () (S ([0x10, 0, 1, x] @ hs @ ?plain @ tail) 4)" for x
    unfolding stream_put Stream_Write_put
    by (rule put_append [where A = "A @ [0x10, 0, 1]" and old = hp]) (use room in \<open>simp_all add: S_def\<close>)
  have 5: "length sig = 8 \<Longrightarrow> poke (S ([0x10, 0, 1, x] @ hs @ ?plain @ tail) 4) (length A + 4) sig = Some (S ([0x10, 0, 1, x] @ sig @ ?plain @ tail) 4)" for x sig
    by (rule poke_append [where A = "A @ [0x10, 0, 1, x]" and old = hs]) (use room in \<open>simp_all add: S_def\<close>)
  have mem: "drop (length A + 12) (s_buffer (S ([0x10, 0, 1, x] @ hs' @ ?plain @ tail) i)) = ?plain @ tail" if "length hs' = 8" for x hs' i
    using that by (simp add: S_def)
  obtain sig where sig: "security_hmac_signature c (?plain @ tail) (int m) a = Some (Some sig)" "length sig = 8"
    using fips_signature_checked [OF c(1) h c(3), of m "?plain @ tail" "?plain @ tail"] l(2) m by auto
  have pm: "8 dvd m + ?pad" "m + ?pad \<le> length (?plain @ tail)" "take (m + ?pad) (?plain @ tail) = ?plain"
    "drop (m + ?pad) (?plain @ tail) = tail"
    using l(2) fips_pad(1) [of m] by simp_all
  from security_fips_encrypt_decrypt [OF c(2) h pm(1,2)] obtain w x y where w:
    "security_fips_encrypt c (?plain @ tail) (int (m + ?pad)) a =
      Some (True, w, a\<lparr>fips_encrypt := Some x, encrypt_use_count := encrypt_use_count a + 1\<rparr>)"
    "length w = length (?plain @ tail)" "drop (m + ?pad) w = tail"
    "\<And>rest. security_fips_decrypt c (take (m + ?pad) w @ rest) (int (m + ?pad)) b = Some (True, ?plain @ rest, b\<lparr>fips_decrypt := Some y\<rparr>)"
    "fips_half c (a\<lparr>fips_encrypt := Some x, encrypt_use_count := encrypt_use_count a + 1\<rparr>)
      (b\<lparr>fips_decrypt := Some y, decrypt_use_count := decrypt_use_count b + 1\<rparr>)"
    unfolding pm(3,4) by blast
  have check: "security_fips_check_signature c ?plain (int m) (sig @ rest) (b\<lparr>fips_decrypt := Some y\<rparr>) =
      Some (True, b\<lparr>fips_decrypt := Some y, decrypt_use_count := decrypt_use_count b + 1\<rparr>)" for rest
    using fips_signature_checked [OF c(1) h c(3), of m "?plain @ tail" ?plain rest "Some y"] sig l(2) m by auto
  have "fips_stream_out c a (S (room @ p @ z @ tail) 0) (int (length A + 12 + m)) =
      Ok (True, word_of_nat ?pad, a\<lparr>fips_encrypt := Some x, encrypt_use_count := encrypt_use_count a + 1\<rparr>)
        (S ([0x10, 0, 1, word_of_nat ?pad] @ sig @ take (m + ?pad) w @ tail) 12)"
  proof -
    let ?p = "int (fips_pad m)"
    have pos: "s_pos (S X i) = length A + i" for X i by (simp add: S_def)
    have len: "int (length A + 12 + m) - int (length A + 0 + 12) = int m" "int (length A + 0 + 12) + int m = int (length A + (12 + m))"
      by simp_all
    have pad: "(if 8 - c_mod (int m) 8 = 8 then 0 else 8 - c_mod (int m) 8) = ?p"
      using fips_pad_code [of m] by (cases "fips_pad m = 0") simp_all
    have S0: "(if ?p = 0 then Some (S ([0x10, 0, 1] @ hp @ hs @ p @ z @ tail) 3)
        else if int (length A + (12 + m)) < 0 then None
        else poke (S ([0x10, 0, 1] @ hp @ hs @ p @ z @ tail) 3) (nat (int (length A + (12 + m)))) (replicate (nat ?p) 0))
      = Some (S ([0x10, 0, 1] @ hp @ hs @ ?plain @ tail) 3)"
      using 3 l(3) by (cases "fips_pad m = 0") (simp_all only: nat_int of_nat_0_less_iff of_nat_eq_0_iff simp_thms if_True if_False
          not_less of_nat_0_le_iff, simp_all)
    have S8: "Stream_Seek (S X 4) 8 = S X 12" for X by (simp add: S_def Stream_Seek_def)
    have ov: "overwrite (S ([0x10, 0, 1, x] @ sig @ ?plain @ tail) 12) (length A + 0 + 12) w = S ([0x10, 0, 1, x] @ sig @ w) 12" for x
      using sig(2) by (simp add: overwrite_def S_def)
    have w': "take (m + ?pad) w @ tail = w" using append_take_drop_id [of "m + ?pad" w] w(3) by simp
    have mem0: "drop (length A + 0 + 12) (s_buffer (S ([0x10, 0, 1, x] @ hs' @ ?plain @ tail) i)) = ?plain @ tail" if "length hs' = 8" for x hs' i
      using mem [OF that] by simp
    have l8: "length sig = 8" "length hs = 8" using sig(2) room by simp_all
    have e: "int m + ?p = int (m + ?pad)" by simp
    show ?thesis
      unfolding fips_stream_out_def Let_def pos len pad 1 andthen.simps 2 S0 option.case 4 mem0 [OF l8(2)] sig(1)
        5 [OF sig(2)] S8 mem0 [OF l8(1)] e w(1) prod.case ov
      by (simp add: w')
  qed
  then show ?thesis
    using sig(2) w(2,5) w(4) [of "[]"] check l(2)
    by (intro exI [of _ sig] exI [of _ "take (m + ?pad) w"] exI [of _ x] exI [of _ y]) (simp add: S_def)
qed

lemma fips_decrypt_pdu_own:
  assumes s: "swf s" "s_length s = length (s_buffer s)" "avail s = [0x10, 0, 1, word_of_nat pad] @ sig @ w"
    "length sig = 8" "length w = m + pad" "length p = m" "pad < 8"
    and d: "security_fips_decrypt c w (int (m + pad)) b = Some (True, p @ replicate pad 0, b1)"
    and k: "\<And>rest. security_fips_check_signature c (p @ replicate pad 0) (int m) (sig @ rest) b1 = Some (True, b')"
  shows "\<exists>t. fips_decrypt_pdu c b s (int (12 + m + pad)) = Ok (True, b') t \<and> avail t = p \<and> swf t"
proof -
  let ?plain = "p @ replicate pad 0"
  have swf: "swf (Stream_Seek s n)" if "n \<le> 12" for n using s(1,3-5) that by simp
  have av: "avail (Stream_Seek s 2) = 1 # word_of_nat pad # sig @ w" "avail (Stream_Seek s 3) = word_of_nat pad # sig @ w"
    "avail (Stream_Seek s 4) = sig @ w" "avail (Stream_Seek s 12) = w" using s(3,4) by simp_all
  have 1: "Stream_Read_UINT16 s = Ok 0x10 (Stream_Seek s 2)"
    using s(3) by (simp add: Stream_Read_UINT16_def)
  have 2: "Stream_Read_UINT8 (Stream_Seek s 2) = Ok 1 (Stream_Seek s 3)" "Stream_Read_UINT8 (Stream_Seek s 3) = Ok (word_of_nat pad) (Stream_Seek s 4)"
    using av(1,2) by (simp_all add: read_known)
  have whole: "s_length (Stream_Seek s n) = length (s_buffer (Stream_Seek s n))" for n using s(2) by simp
  have mem: "drop (s_pos (Stream_Seek s 12)) (s_buffer (Stream_Seek s 12)) = w" "drop (s_pos (Stream_Seek s 4)) (s_buffer (Stream_Seek s 4)) = sig @ w"
    using whole_avail [OF whole, of 12] whole_avail [OF whole, of 4] av by simp_all
  have len: "int (12 + m + pad) - 12 = int (m + pad)" by simp
  have pad: "uint (word_of_nat pad :: u8) = int pad" "unat (word_of_nat pad :: u8) = pad"
    using s(7) by (simp_all add: unsigned_of_nat take_bit_nat_eq_self)
  have lenpad: "int (m + pad) - int pad = int m" by simp
  let ?t = "overwrite (Stream_Seek s 12) (s_pos (Stream_Seek s 12)) ?plain"
  have "length ?plain = length (s_buffer (Stream_Seek s 12)) - s_pos (Stream_Seek s 12)"
    using mem(1) s(5,6) by (metis length_append length_drop length_replicate)
  from swf_overwrite [OF swf [of 12] whole this] have t: "swf ?t" "avail ?t = ?plain" "s_length ?t = length (s_buffer ?t)"
    by simp_all
  have "s_length ?t - s_pos ?t = m + pad" using length_avail [OF t(1)] t(2) s(6) by simp
  then have "avail (?t\<lparr>s_length := s_length ?t - pad\<rparr>) = p \<and> swf (?t\<lparr>s_length := s_length ?t - pad\<rparr>)"
    using t s(6) by (auto simp: avail_def swf_def drop_take)
  moreover have rem: "\<not> Stream_GetRemainingLength s < 12" using s(1,3,4) by simp
  have add: "(4 :: nat) + 8 = 12" by simp
  have "fips_decrypt_pdu c b s (int (12 + m + pad)) = Ok (True, b') (?t\<lparr>s_length := s_length ?t - pad\<rparr>)"
    unfolding fips_decrypt_pdu_def Let_def if_not_P [OF rem] 1 2 andthen.simps Stream_Seek_Stream_Seek add len mem d
      option.case prod.case pad lenpad k
    by simp
  ultimately show ?thesis by blast
qed

subsection \<open>Receiving a packet\<close>

definition recv_packet :: "crypto \<Rightarrow> u16 \<Rightarrow> rdpRdp \<Rightarrow> wStream \<Rightarrow> u16 \<Rightarrow> ((int \<times> rdpRdp) + (u16 \<times> u16 \<times> rdpRdp)) res" where
  \<comment> \<open>The beginning of \<open>rdp_recv_tpkt_pdu\<close> and of \<open>peer_recv_tpkt_pdu\<close>, up to the dispatch on the channel;
    \<open>Inl\<close> is a return. \<open>encrypted\<close> are the flags of a packet that is decrypted; the last argument is what
    \<open>channelId\<close> holds. The channel and the security flags go on. The number of bytes a bandwidth measurement
    counts (autodetect.c) is not part of the state.\<close>
  "recv_packet c encrypted rdp s channelId =
     (case rdp_read_header rdp s channelId of
        Overrun \<Rightarrow> Overrun
      | Fail s \<Rightarrow> Ok (Inl (-1, rdp)) s
      | Ok (len, channelId, rdp) s \<Rightarrow>
          if freerdp_shall_disconnect rdp then Ok (Inl (0, rdp)) s
          else if \<not> UseRdpSecurityLayer (rdp_settings rdp) then Ok (Inr (channelId, 0, rdp)) s
          else
            (case rdp_read_security_header s of
               Overrun \<Rightarrow> Overrun
             | Fail s \<Rightarrow> Ok (Inl (-1, rdp)) s
             | Ok securityFlags s \<Rightarrow>
                 if securityFlags AND encrypted = 0 then Ok (Inr (channelId, securityFlags, rdp)) s
                 else
                   andthen (rdp_decrypt c rdp s (uint len - 4) securityFlags) (\<lambda>(ok, rdp) s.
                     Ok (if ok then Inr (channelId, securityFlags, rdp) else Inl (-1, rdp)) s)))"

abbreviation (input) client_encrypted :: u16 where "client_encrypted \<equiv> ucast (SEC_ENCRYPT OR SEC_REDIRECTION_PKT)"
abbreviation (input) server_encrypted :: u16 where "server_encrypted \<equiv> ucast SEC_ENCRYPT"

end
