(* ===== verification/Rdp_Session.thy ===== *)
theory Rdp_Session
  imports Rdp
begin

text \<open>
  Two peers past the establishment of the keys: what one sends with the send routines of
  libfreerdp/core/rdp.c, the other one receives, whatever the security layer makes of it in between, and
  both stay in step.
\<close>

subsection \<open>A session\<close>

text \<open>
  A message on a channel, sent the way the code does (\<open>rdp_send_stream_init\<close>, the data, \<open>rdp_send\<close>; \<open>mem\<close> is
  what the stream of the pool holds) and received up to the dispatch.
\<close>

definition send_message :: "crypto \<Rightarrow> bytes \<Rightarrow> rdpRdp \<Rightarrow> u16 \<times> bytes \<Rightarrow> (bytes \<times> rdpRdp) option" where
  "send_message c mem rdp m =
     (case rdp_send_stream_init rdp (Some (Stream_New mem)) of None \<Rightarrow> None
      | Some (rdp, s) \<Rightarrow>
          (case andthen (Stream_Write s (snd m)) (\<lambda>_ s. rdp_send c (\<lambda>w. int (length w)) rdp s (fst m)) of
             Ok (True, [w], rdp) t \<Rightarrow> Some (w, rdp)
           | _ \<Rightarrow> None))"

definition recv_message :: "crypto \<Rightarrow> rdpRdp \<Rightarrow> bytes \<Rightarrow> ((u16 \<times> bytes) \<times> rdpRdp) option" where
  "recv_message c rdp w =
     (case recv_packet c (if ServerMode (rdp_settings rdp) then server_encrypted else client_encrypted) rdp (Stream_New w) 0 of
        Ok (Inr (channelId, fl, rdp)) t \<Rightarrow> Some ((channelId, avail t), rdp)
      | _ \<Rightarrow> None)"

definition in_session :: "crypto \<Rightarrow> rdpRdp \<Rightarrow> rdpRdp \<Rightarrow> bool" where
  \<comment> \<open>Both are past the establishment of the keys and in step.\<close>
  "in_session c a b \<longleftrightarrow> crypto_ok c \<and> cbc_ok c \<and> (\<forall>k d. length (hmac_sha1 c k d) = 20) \<and>
     ServerMode (rdp_settings a) \<noteq> ServerMode (rdp_settings b) \<and>
     \<not> freerdp_shall_disconnect a \<and> \<not> freerdp_shall_disconnect b \<and> sec_flags a = 0 \<and> sec_flags b = 0 \<and>
     UseRdpSecurityLayer (rdp_settings a) = UseRdpSecurityLayer (rdp_settings b) \<and>
     do_crypt a = UseRdpSecurityLayer (rdp_settings a) \<and> do_crypt b = UseRdpSecurityLayer (rdp_settings b) \<and>
     ENC_METHOD a = ENC_METHOD b \<and>
     (do_crypt a \<longrightarrow>
        (if ENC_METHOD a = ENCRYPTION_METHOD_FIPS then fips_half c a b \<and> fips_half c b a
         else rc4_half a b \<and> rc4_half b a))"

lemma in_session_sym: "in_session c a b \<Longrightarrow> in_session c b a"
  by (auto simp: in_session_def)

definition talks :: "crypto \<Rightarrow> rdpRdp \<Rightarrow> rdpRdp \<Rightarrow> bool" where
  \<comment> \<open>One direction of a session: \<open>b\<close> is in step with what \<open>a\<close> sends.\<close>
  "talks c a b \<longleftrightarrow> crypto_ok c \<and> cbc_ok c \<and> (\<forall>k d. length (hmac_sha1 c k d) = 20) \<and>
     ServerMode (rdp_settings a) \<noteq> ServerMode (rdp_settings b) \<and>
     \<not> freerdp_shall_disconnect a \<and> \<not> freerdp_shall_disconnect b \<and> sec_flags a = 0 \<and>
     UseRdpSecurityLayer (rdp_settings a) = UseRdpSecurityLayer (rdp_settings b) \<and>
     do_crypt a = UseRdpSecurityLayer (rdp_settings a) \<and> ENC_METHOD a = ENC_METHOD b \<and>
     (do_crypt a \<longrightarrow> (if ENC_METHOD a = ENCRYPTION_METHOD_FIPS then fips_half c a b else rc4_half a b))"

lemma in_session_talks: "in_session c a b \<longleftrightarrow> talks c a b \<and> talks c b a"
  unfolding in_session_def talks_def by (cases "ENC_METHOD a = ENCRYPTION_METHOD_FIPS") auto

text \<open>The packet \<open>rdp_send\<close> makes: a header, and behind it what the security layer makes of the message.\<close>

lemma send_message_plain:
  assumes h: "sec_flags a = 0" "\<not> do_crypt a" and l: "length p \<le> 2000" "2048 \<le> length mem"
  shows "send_message c mem a (channelId, p) =
    Some (rdp_header_bytes a (word_of_nat (15 + length p)) channelId @ p, a)"
proof -
  note a = h(1)
  let ?s = "Stream_Seek (Stream_New mem) 15"
  have init: "rdp_send_stream_init a (Some (Stream_New mem)) = Some (a, ?s)"
    using h(2) a by (simp add: rdp_send_stream_init_def rdp_init_stream_def rdp_security_stream_init_def)
  let ?t = "\<lparr>s_buffer = take 15 mem @ p @ drop (15 + length p) mem, s_pos = 15 + length p, s_length = length mem\<rparr>"
  have w: "Stream_Write ?s p = Ok () ?t"
    using l by (simp add: Stream_Write_def Stream_Seek_def Stream_New_def Stream_Capacity_def)
  let ?len = "word_of_nat (15 + length p) :: u16"
  have len: "unat ?len = 15 + length p" using l(1) by (intro unat16) simp
  have pad: "padded_length a ?len = ?len" using a by (simp add: padded_length_def)
  let ?H = "rdp_header_bytes a ?len channelId"
  have "put (Stream_SetPosition ?t 0) ?H () = Ok () \<lparr>s_buffer = ?H @ p @ drop (15 + length p) mem, s_pos = 15, s_length = length mem\<rparr>"
    by (rule put_append [where A = "[]" and old = "take 15 mem"]) (use l in \<open>simp_all add: Stream_SetPosition_def\<close>)
  then have "rdp_send c (\<lambda>w. int (length w)) a ?t channelId = send_out c (\<lambda>w. int (length w)) a
      \<lparr>s_buffer = ?H @ p @ drop (15 + length p) mem, s_pos = 15, s_length = length mem\<rparr> ?len 0"
    by (simp add: rdp_send_def Let_def rdp_write_header_put pad del: of_nat_add of_nat_Suc of_nat_numeral)
  also have "\<dots> = Ok (True, [?H @ p], a) \<lparr>s_buffer = ?H @ p @ drop (15 + length p) mem, s_pos = 15 + length p, s_length = 15 + length p\<rparr>"
    using a l by (simp add: send_out_def rdp_security_stream_out_def Let_def len packet_def Stream_SealLength_def Stream_SetPosition_def
        Stream_Capacity_def del: of_nat_add of_nat_Suc of_nat_numeral)
  finally show ?thesis by (simp add: send_message_def init w)
qed


lemma recv_packet_own:
  assumes "ServerMode (rdp_settings b) \<noteq> ServerMode (rdp_settings a)" "\<not> freerdp_shall_disconnect b"
    and body: "body = le16 (ucast (fl :: u32)) @ le16 0 @ rest" "length rest < 2 ^ 15 - 19" and len: "len = word_of_nat (15 + length body)"
    and sec: "UseRdpSecurityLayer (rdp_settings b)" "fl AND SEC_ENCRYPT \<noteq> 0" "encrypted \<in> {client_encrypted, server_encrypted}"
  shows "recv_packet c encrypted b (Stream_New (rdp_header_bytes a len channelId @ body)) c0 =
    andthen (rdp_decrypt c b (Stream_Seek (Stream_New (rdp_header_bytes a len channelId @ body)) 19) (int (length rest)) (ucast fl))
      (\<lambda>(ok, rdp) s. Ok (if ok then Inr (channelId, ucast fl, rdp) else Inl (-1, rdp)) s)"
proof -
  let ?s = "Stream_New (rdp_header_bytes a len channelId @ body)"
  have lb: "length body = 4 + length rest" using body(1) by simp
  have unat: "unat len = 15 + length body" unfolding len using lb body(2) by (intro unat16) simp
  then have "15 \<le> len" by (simp add: word_le_nat_alt)
  then have "unat (len - 15) = length body" using unat by (simp add: unat_sub)
  then have l15: "uint (len - 15) - 4 = int (length rest)" using lb by (metis add_diff_cancel_left' int_plus of_nat_numeral uint_nat)
  have 1: "rdp_read_header b ?s c0 = Ok (len - 15, channelId, b) (Stream_Seek ?s 15)"
    using rdp_read_header_own [OF assms(1) _ len] lb body(2) by simp
  have "swf (Stream_Seek ?s 15)" using lb body(2) by (intro swf_Stream_Seek) simp_all
  moreover have "avail (Stream_Seek ?s 15) = body" by simp
  ultimately have 2: "rdp_read_security_header (Stream_Seek ?s 15) = Ok (ucast fl) (Stream_Seek ?s 19)"
    using body(1) read_known(4) [of "Stream_Seek ?s 15" "ucast fl"] by (simp add: rdp_read_security_header_def)
  have "(ucast fl :: u16) AND server_encrypted \<noteq> 0" using encrypt_flag [of fl] sec(2) by simp
  moreover have "(ucast fl :: u16) AND client_encrypted \<noteq> 0"
  proof
    assume "(ucast fl :: u16) AND client_encrypted = 0"
    then have "((ucast fl :: u16) AND client_encrypted) AND server_encrypted = 0" by simp
    moreover have "(client_encrypted :: u16) AND server_encrypted = server_encrypted" by simp
    ultimately show False using \<open>(ucast fl :: u16) AND server_encrypted \<noteq> 0\<close> by (simp add: and.assoc)
  qed
  ultimately have "(ucast fl :: u16) AND encrypted \<noteq> 0" using sec(3) by auto
  then show ?thesis using assms(2) sec(1) by (simp add: recv_packet_def 1 2 l15)
qed

lemma half_sec_flags [simp]:
  "rc4_half (a\<lparr>sec_flags := f\<rparr>) b = rc4_half a b" "rc4_half a (b\<lparr>sec_flags := f\<rparr>) = rc4_half a b"
  "fips_half c (a\<lparr>sec_flags := f\<rparr>) b = fips_half c a b" "fips_half c a (b\<lparr>sec_flags := f\<rparr>) = fips_half c a b"
  by (simp_all add: rc4_half_def fips_half_def mirrored_def)

definition out_flags :: "rdpRdp \<Rightarrow> u32" where
  \<comment> \<open>The security flags of an encrypted packet.\<close>
  "out_flags a = (if do_secure_checksum a then SEC_ENCRYPT OR SEC_SECURE_CHECKSUM else SEC_ENCRYPT)"

lemma out_flags: "out_flags a \<noteq> 0" "out_flags a AND SEC_ENCRYPT \<noteq> 0"
  by (simp_all add: out_flags_def)

lemma out_flags_redirection: "(ucast (out_flags a) :: u16) AND ucast SEC_REDIRECTION_PKT = 0"
  by (simp add: out_flags_def)

lemma out_flags_init:
  assumes "do_crypt a" "sec_flags a = 0"
  shows "rdp_init_stream a s = (a\<lparr>sec_flags := out_flags a\<rparr>,
    Stream_Seek s (if ENC_METHOD a = ENCRYPTION_METHOD_FIPS then 31 else 27))"
  using assms by (simp add: rdp_init_stream_def rdp_security_stream_init_def out_flags_def)

definition security_out :: "crypto \<Rightarrow> rdpRdp \<Rightarrow> wStream \<Rightarrow> int \<Rightarrow> u32 \<Rightarrow> (bool \<times> u32 \<times> rdpRdp) res" where
  \<comment> \<open>The two ways to encrypt.\<close>
  "security_out c rdp s len fl =
     (if ENC_METHOD rdp = ENCRYPTION_METHOD_FIPS then fips_stream_out c rdp s len else rc4_stream_out c rdp s len fl)"

lemma send_message_start:
  assumes h: "do_crypt a" "sec_flags a = 0" and l: "length p \<le> 2000" "2048 \<le> length mem"
    and n: "n = (if ENC_METHOD a = ENCRYPTION_METHOD_FIPS then 31 else 27)"
    and H: "H = rdp_header_bytes a (padded_length (a\<lparr>sec_flags := out_flags a\<rparr>) (word_of_nat (n + length p))) channelId"
  shows "\<exists>room tail. length room = n - 19 \<and> length tail = length mem - n - length p \<and>
    (\<forall>a' s' pad. security_out c (a\<lparr>sec_flags := out_flags a\<rparr>)
        \<lparr>s_buffer = H @ le16 (ucast (out_flags a)) @ le16 0 @ room @ p @ tail, s_pos = 19, s_length = length mem\<rparr>
        (int (n + length p)) (out_flags a) = Ok (True, word_of_nat pad, a') s' \<longrightarrow> length (s_buffer s') = length mem \<longrightarrow> pad < 8 \<longrightarrow>
      send_message c mem a (channelId, p) = Some (take (n + length p + pad) (s_buffer s'), a'\<lparr>sec_flags := 0\<rparr>))"
proof -
  let ?a = "a\<lparr>sec_flags := out_flags a\<rparr>"
  let ?tail = "drop (n + length p) mem" and ?room = "drop 19 (take n mem)"
  have nb: "19 \<le> n" "n \<le> 31" using n by simp_all
  have init: "rdp_send_stream_init a (Some (Stream_New mem)) = Some (?a, Stream_Seek (Stream_New mem) n)"
    using out_flags_init [OF h] n by (simp add: rdp_send_stream_init_def)
  let ?t = "\<lparr>s_buffer = take n mem @ p @ ?tail, s_pos = n + length p, s_length = length mem\<rparr>"
  have w: "Stream_Write (Stream_Seek (Stream_New mem) n) p = Ok () ?t"
    using l nb by (simp add: Stream_Write_def Stream_Seek_def Stream_New_def Stream_Capacity_def)
  let ?len = "word_of_nat (n + length p) :: u16"
  have len: "unat ?len = n + length p" using l(1) nb by (intro unat16) simp
  have uint: "uint ?len = int (n + length p)" using len by (metis uint_nat)
  let ?f = "out_flags a" and ?wr = "\<lambda>w :: bytes. int (length w)"
  let ?sec = "le16 (ucast ?f) @ le16 0"
  have split: "take n mem = take 15 mem @ drop 15 (take 19 mem) @ ?room"
  proof -
    have "take n mem = take (15 + (4 + (n - 19))) mem" using nb by simp
    also have "\<dots> = take 15 mem @ take 4 (drop 15 mem) @ take (n - 19) (drop 19 mem)"
      by (simp only: take_add drop_drop) simp
    moreover have "take 4 (drop 15 mem) = drop 15 (take 19 mem)" "take (n - 19) (drop 19 mem) = ?room" by (simp_all add: drop_take)
    ultimately show ?thesis by simp
  qed
  have s1: "put (Stream_SetPosition ?t 0) H () =
      Ok () \<lparr>s_buffer = H @ drop 15 (take 19 mem) @ ?room @ p @ ?tail, s_pos = 15, s_length = length mem\<rparr>"
    by (rule put_append [where A = "[]" and old = "take 15 mem"]) (use l split in \<open>simp_all add: Stream_SetPosition_def H\<close>)
  let ?s1 = "\<lparr>s_buffer = H @ drop 15 (take 19 mem) @ ?room @ p @ ?tail, s_pos = 15, s_length = length mem\<rparr>"
  let ?s2 = "\<lparr>s_buffer = H @ ?sec @ ?room @ p @ ?tail, s_pos = 19, s_length = length mem\<rparr>"
  have s2: "rdp_write_security_header ?s1 (ucast ?f) = Ok () ?s2"
    unfolding rdp_write_security_header_def stream_put Stream_Write_put put_put
    by (rule put_append [where A = H and old = "drop 15 (take 19 mem)"]) (use l H in simp_all)
  have send: "rdp_send c ?wr ?a ?t channelId = send_out c ?wr ?a ?s1 ?len 0"
    using s1 H by (simp add: rdp_send_def Let_def rdp_write_header_put rdp_header_bytes_def del: of_nat_add)
  have sec: "rdp_security_stream_out c ?a ?s1 (uint ?len) 0 =
      andthen (security_out c ?a ?s2 (int (n + length p)) ?f) (\<lambda>(ok, pad, rdp) s. Ok (ok, pad, if ok then rdp\<lparr>sec_flags := 0\<rparr> else rdp) s)"
  proof -
    have f: "sec_flags ?a = ?f" "0 OR ?f = ?f" by simp_all
    have ne: "?f \<noteq> 0" "?f AND SEC_ENCRYPT \<noteq> 0" by (rule out_flags)+
    show ?thesis
      unfolding rdp_security_stream_out_def Let_def f uint if_not_P [OF ne(1)] s2 andthen.simps if_not_P [OF ne(2)] security_out_def
      by simp
  qed
  show ?thesis
  proof (rule exI [of _ ?room], rule exI [of _ ?tail], intro conjI allI impI)
    show "length ?room = n - 19" "length ?tail = length mem - n - length p" using l nb by simp_all
    fix a' s' pad
    assume 1: "security_out c ?a \<lparr>s_buffer = H @ le16 (ucast ?f) @ le16 0 @ ?room @ p @ ?tail, s_pos = 19, s_length = length mem\<rparr>
        (int (n + length p)) ?f = Ok (True, word_of_nat pad, a') s'" "length (s_buffer s') = length mem" "pad < 8"
    have lp: "unat (?len + ucast (word_of_nat pad :: u32)) = n + length p + pad"
    proof -
      have "(ucast (word_of_nat pad :: u32) :: u16) = word_of_nat pad" by (rule bit_word_eqI) (simp add: bit_simps)
      then have "?len + ucast (word_of_nat pad :: u32) = word_of_nat (n + length p + pad)" by simp
      moreover have "unat (word_of_nat (n + length p + pad) :: u16) = n + length p + pad"
        using l(1) nb 1(3) by (intro unat16) simp
      ultimately show ?thesis by metis
    qed
    have "send_out c ?wr ?a ?s1 ?len 0 = Ok (True, [take (n + length p + pad) (s_buffer s')], a'\<lparr>sec_flags := 0\<rparr>)
        (Stream_SealLength (Stream_SetPosition s' (n + length p + pad)))"
      unfolding send_out_def sec append_assoc 1(1) andthen.simps prod.case Let_def if_True not_True_eq_False if_False lp
      using 1(2,3) l nb by (simp add: packet_def Stream_SetPosition_def Stream_SealLength_def Stream_Capacity_def)
    then show "send_message c mem a (channelId, p) = Some (take (n + length p + pad) (s_buffer s'), a'\<lparr>sec_flags := 0\<rparr>)"
      by (simp add: send_message_def init w send)
  qed
qed

definition sent_only :: "rdpRdp \<Rightarrow> rdpRdp \<Rightarrow> bool" where
  \<comment> \<open>Only what sending of a packet changes has changed.\<close>
  "sent_only a a' \<longleftrightarrow> a' = a\<lparr>encrypt_key := encrypt_key a', rc4_encrypt_key := rc4_encrypt_key a',
     encrypt_use_count := encrypt_use_count a', encrypt_checksum_use_count := encrypt_checksum_use_count a',
     fips_encrypt := fips_encrypt a'\<rparr>"

definition received_only :: "rdpRdp \<Rightarrow> rdpRdp \<Rightarrow> bool" where
  \<comment> \<open>Only what receiving of a packet changes has changed.\<close>
  "received_only b b' \<longleftrightarrow> b' = b\<lparr>decrypt_key := decrypt_key b', rc4_decrypt_key := rc4_decrypt_key b',
     decrypt_use_count := decrypt_use_count b', decrypt_checksum_use_count := decrypt_checksum_use_count b',
     fips_decrypt := fips_decrypt b'\<rparr>"

lemma sent_onlyE:
  assumes "sent_only a a'"
  obtains k r i j f where "a' = a\<lparr>encrypt_key := k, rc4_encrypt_key := r, encrypt_use_count := i, encrypt_checksum_use_count := j,
    fips_encrypt := f\<rparr>"
  using assms unfolding sent_only_def by (rule that)

lemma received_onlyE:
  assumes "received_only b b'"
  obtains k r i j f where "b' = b\<lparr>decrypt_key := k, rc4_decrypt_key := r, decrypt_use_count := i, decrypt_checksum_use_count := j,
    fips_decrypt := f\<rparr>"
  using assms unfolding received_only_def by (rule that)

lemma only_refl [simp]: "sent_only a a" "received_only a a"
  by (simp_all add: sent_only_def received_only_def)

lemma only_rest:
  "sent_only a a' \<or> received_only a a' \<Longrightarrow> rdp_settings a' = rdp_settings a \<and> do_crypt a' = do_crypt a \<and>
    sec_flags a' = sec_flags a \<and> rdp_mcs a' = rdp_mcs a \<and> rdp_events a' = rdp_events a \<and> conn_state a' = conn_state a \<and>
    finalize_sc_pdus a' = finalize_sc_pdus a \<and> has_instance a' = has_instance a \<and> abort_event a' = abort_event a \<and>
    deactivation_reactivation a' = deactivation_reactivation a \<and> freerdp_shall_disconnect a' = freerdp_shall_disconnect a"
  by (elim disjE sent_onlyE received_onlyE) (simp_all add: freerdp_shall_disconnect_def)

lemma only_encrypt: "encrypt_only (a\<lparr>sec_flags := f\<rparr>) a' \<Longrightarrow> sec_flags a = 0 \<Longrightarrow> sent_only a (a'\<lparr>sec_flags := 0\<rparr>)"
  by (elim encrypt_onlyE) (simp add: sent_only_def)

lemma only_decrypt: "decrypt_only b b' \<Longrightarrow> received_only b b'"
  by (elim decrypt_onlyE) (simp add: received_only_def)

lemma talks_back:
  assumes "talks c b a" "sent_only a a'" "received_only b b'"
  shows "talks c b' a'"
  using assms(2,3)
  by (elim sent_onlyE received_onlyE)
    (use assms(1) in \<open>auto simp: talks_def freerdp_shall_disconnect_def rc4_half_def fips_half_def mirrored_def\<close>)

definition arrives :: "crypto \<Rightarrow> rdpRdp \<Rightarrow> bytes \<Rightarrow> u16 \<times> bytes \<Rightarrow> rdpRdp \<Rightarrow> bool" where
  \<comment> \<open>The packet \<open>w\<close> is the message \<open>m\<close> for \<open>b\<close>, which is \<open>b'\<close> afterwards.\<close>
  "arrives c b w m b' \<longleftrightarrow> received_only b b' \<and> tpkt_verify_header (Stream_New w) = Ok True (Stream_New w) \<and>
     (\<forall>c0. \<exists>fl t. recv_packet c (if ServerMode (rdp_settings b) then server_encrypted else client_encrypted) b (Stream_New w) c0 =
          Ok (Inr (fst m, fl, b')) t \<and> avail t = snd m \<and> swf t \<and> fl AND ucast SEC_REDIRECTION_PKT = 0) \<and>
     (\<forall>c0. \<exists>n. rdp_read_header b (Stream_New w) c0 = Ok (n, fst m, b) (Stream_Seek (Stream_New w) 15))"

definition delivers :: "crypto \<Rightarrow> bytes \<Rightarrow> rdpRdp \<Rightarrow> rdpRdp \<Rightarrow> u16 \<times> bytes \<Rightarrow> bool" where
  \<comment> \<open>What \<open>a\<close> sends, \<open>b\<close> receives, and both are in step afterwards.\<close>
  "delivers c mem a b m \<longleftrightarrow> (\<exists>w a' b'. send_message c mem a m = Some (w, a') \<and> talks c a' b' \<and>
     sent_only a a' \<and> arrives c b w m b')"

lemma own_tpkt: "tpkt_verify_header (Stream_New (rdp_header_bytes a n ch @ body)) = Ok True (Stream_New (rdp_header_bytes a n ch @ body))"
  by (simp add: tpkt_verify_header_def Stream_Peek_UINT8_def rdp_header_bytes_def mcs_header_bytes_def tpkt_bytes_def)

lemma talks_step:
  assumes h: "talks c a b" "sent_only a a'" "received_only b b'"
    and r: "do_crypt a \<Longrightarrow> if ENC_METHOD a = ENCRYPTION_METHOD_FIPS then fips_half c a' b' else rc4_half a' b'"
  shows "talks c a' b'"
  using h(1) r only_rest [of a a'] only_rest [of b b'] h(2,3) unfolding talks_def by simp

lemma session_step_rc4:
  assumes h: "talks c a b" "do_crypt a" "ENC_METHOD a \<noteq> ENCRYPTION_METHOD_FIPS"
    and l: "length p \<le> 2000" "2048 \<le> length mem"
  shows "delivers c mem a b (ch, p)"
proof -
  let ?a = "a\<lparr>sec_flags := out_flags a\<rparr>" and ?f = "out_flags a" and ?m = "length p"
  let ?len = "word_of_nat (27 + ?m) :: u16"
  let ?H = "rdp_header_bytes a ?len ch" and ?sec = "le16 (ucast ?f) @ le16 0"
  have s0: "sec_flags a = 0" using h(1) by (simp add: talks_def)
  have n: "27 = (if ENC_METHOD a = ENCRYPTION_METHOD_FIPS then 31 else 27)" using h(3) by simp
  have pad: "padded_length ?a ?len = ?len" using h(3) by (simp add: padded_length_def)
  obtain room tail where r: "length room = 8" "length tail = length mem - 27 - ?m"
    and send: "\<And>a' s' pad. security_out c ?a \<lparr>s_buffer = ?H @ le16 (ucast ?f) @ le16 0 @ room @ p @ tail, s_pos = 19, s_length = length mem\<rparr>
        (int (27 + ?m)) ?f = Ok (True, word_of_nat pad, a') s' \<Longrightarrow> length (s_buffer s') = length mem \<Longrightarrow> pad < 8 \<Longrightarrow>
      send_message c mem a (ch, p) = Some (take (27 + ?m + pad) (s_buffer s'), a'\<lparr>sec_flags := 0\<rparr>)"
    using send_message_start [OF h(2) s0 l n refl, of c ch] unfolding pad by auto
  let ?s = "\<lparr>s_buffer = ?H @ le16 (ucast ?f) @ le16 0 @ room @ p @ tail, s_pos = 19, s_length = length mem\<rparr>"
  have half: "rc4_half ?a b" using h by (simp add: talks_def)
  have "crypto_ok c" using h(1) by (simp add: talks_def)
  have pos: "s_pos ?s = 19" "s_pos ?s + 8 = 27" "(19 :: nat) + 8 = 27" by simp_all
  have fits: "s_pos ?s + 8 + ?m \<le> length (s_buffer ?s)" "?m < 2 ^ 31" "p = take ?m (drop (s_pos ?s + 8) (s_buffer ?s))"
    using l r by simp_all
  from rc4_stream_out_own [OF \<open>crypto_ok c\<close> half fits, of ?f, unfolded pos] obtain mac w a' b' where o:
    "rc4_stream_out c ?a ?s (int (27 + ?m)) ?f = Ok (True, 0, a') (?s\<lparr>s_buffer := take 19 (s_buffer ?s) @ mac @ w @ drop (27 + ?m) (s_buffer ?s), s_pos := 27\<rparr>)"
    "length mac = 8" "length w = ?m"
    "\<And>rest. security_decrypt c (w @ rest) (int ?m) b = Some (True, p @ rest, b')"
    "\<And>rest. rc4_mac c b' (?f AND SEC_SECURE_CHECKSUM \<noteq> 0) (p @ rest) (word_of_nat ?m) False = Some (Some mac)"
    "rc4_half a' b'" "encrypt_only ?a a'" "decrypt_only b b'"
    by blast
  let ?W = "?H @ ?sec @ mac @ w"
  have "send_message c mem a (ch, p) = Some (take (27 + ?m + 0) (take 19 (s_buffer ?s) @ mac @ w @ drop (27 + ?m) (s_buffer ?s)), a'\<lparr>sec_flags := 0\<rparr>)"
    using send [of 0 a' "?s\<lparr>s_buffer := take 19 (s_buffer ?s) @ mac @ w @ drop (27 + ?m) (s_buffer ?s), s_pos := 27\<rparr>"] o(1-3) h(3) r l
    by (simp add: security_out_def del: of_nat_add)
  also have "take (27 + ?m + 0) (take 19 (s_buffer ?s) @ mac @ w @ drop (27 + ?m) (s_buffer ?s)) = ?W"
    using o(2,3) by simp
  finally have s: "send_message c mem a (ch, p) = Some (?W, a'\<lparr>sec_flags := 0\<rparr>)" .
  let ?enc = "if ServerMode (rdp_settings b) then server_encrypted else client_encrypted"
  have rp: "recv_packet c ?enc b (Stream_New ?W) c0 =
    andthen (rdp_decrypt c b (Stream_Seek (Stream_New ?W) 19) (int (length (mac @ w))) (ucast ?f))
      (\<lambda>(ok, rdp) s. Ok (if ok then Inr (ch, ucast ?f, rdp) else Inl (-1, rdp)) s)" for c0
    using o(2,3) l h out_flags(2) [of a]
    by (intro recv_packet_own) (auto simp: talks_def)
  let ?r = "Stream_Seek (Stream_New ?W) 19"
  have swf: "swf ?r" by (rule swf_Stream_Seek) (use o(2,3) l in simp_all)
  have whole: "s_length ?r = length (s_buffer ?r)" by (simp add: Stream_New_def)
  have av: "avail ?r = mac @ w" by simp
  have mac: "rc4_mac c b' ((ucast ?f :: u16) AND ucast SEC_SECURE_CHECKSUM \<noteq> 0) p (word_of_nat ?m) False = Some (Some mac)"
    using o(5) [of "[]"] unfolding secure_checksum_flag by simp
  have dec: "security_decrypt c w (int ?m) b = Some (True, p, b')" using o(4) [of "[]"] by simp
  obtain t where t: "rc4_decrypt_pdu c b ?r (int (8 + ?m)) (ucast ?f) = Ok (True, b') t" "avail t = p" "swf t"
    using rc4_decrypt_pdu_own [OF swf whole av o(2,3) refl dec mac] by blast
  have e: "ENC_METHOD b \<noteq> ENCRYPTION_METHOD_FIPS" using h by (simp add: talks_def)
  have "recv_packet c ?enc b (Stream_New ?W) c0 = Ok (Inr (ch, ucast ?f, b')) t" for c0
    using t(1) o(2,3) e unfolding rp by (simp add: rdp_decrypt_def)
  moreover have only: "sent_only a (a'\<lparr>sec_flags := 0\<rparr>)" "received_only b b'"
    using only_encrypt [OF o(7) s0] only_decrypt [OF o(8)] by blast+
  moreover have "talks c (a'\<lparr>sec_flags := 0\<rparr>) b'"
    by (rule talks_step [OF h(1) only]) (use h(3) o(6) in simp)
  moreover have "rdp_read_header b (Stream_New ?W) c0 = Ok (?len - 15, ch, b) (Stream_Seek (Stream_New ?W) 15)" for c0
    by (rule rdp_read_header_own) (use o(2,3) l h in \<open>auto simp: talks_def\<close>)
  ultimately show ?thesis
    unfolding delivers_def arrives_def fst_conv snd_conv using s t(2,3) out_flags_redirection own_tpkt by blast
qed

lemma take_own: "length xs = n \<Longrightarrow> take n (xs @ ys) = xs"
  by simp

lemma padded_length_fips:
  assumes "do_crypt a" "ENC_METHOD a = ENCRYPTION_METHOD_FIPS" "m \<le> 2000"
  shows "padded_length (a\<lparr>sec_flags := out_flags a\<rparr>) (word_of_nat (31 + m)) = word_of_nat (31 + m + fips_pad m)"
proof -
  have "unat (word_of_nat (31 + m) :: u16) = 31 + m" using assms(3) by (intro unat16) simp
  then have "uint (word_of_nat (31 + m) :: u16) - 31 = int m" by (metis add_diff_cancel_left' of_nat_add of_nat_numeral uint_nat)
  moreover have "(word_of_int (int m mod 8) :: u16) = word_of_nat (m mod 8)"
    by (metis of_int_of_nat_eq of_nat_numeral zmod_int)
  ultimately have "padded_length (a\<lparr>sec_flags := out_flags a\<rparr>) (word_of_nat (31 + m)) =
      (if fips_pad m \<noteq> 0 then word_of_nat (31 + m) + word_of_int (int (8 - m mod 8)) else word_of_nat (31 + m))"
    using out_flags(2) [of a] assms(2) fips_pad_code(2) [of m] by (simp add: padded_length_def Let_def fips_pad_code(1) del: of_nat_add)
  also have "\<dots> = word_of_nat (31 + m + fips_pad m)" using fips_pad_code(3) [of m] by simp
  finally show ?thesis .
qed

lemma session_step_fips:
  assumes h: "talks c a b" "do_crypt a" "ENC_METHOD a = ENCRYPTION_METHOD_FIPS"
    and l: "length p \<le> 2000" "2048 \<le> length mem"
  shows "delivers c mem a b (ch, p)"
proof -
  let ?a = "a\<lparr>sec_flags := out_flags a\<rparr>" and ?f = "out_flags a" and ?m = "length p"
  let ?pad = "fips_pad ?m"
  have padl: "?pad < 8" by (rule fips_pad)
  let ?len = "word_of_nat (31 + ?m + ?pad) :: u16"
  let ?H = "rdp_header_bytes a ?len ch" and ?sec = "le16 (ucast ?f) @ le16 0"
  have s0: "sec_flags a = 0" using h(1) by (simp add: talks_def)
  have n: "31 = (if ENC_METHOD a = ENCRYPTION_METHOD_FIPS then 31 else 27)" using h(3) by simp
  obtain room tail0 where r: "length room = 12" "length tail0 = length mem - 31 - ?m"
    and send: "\<And>a' s' pad. security_out c ?a \<lparr>s_buffer = ?H @ le16 (ucast ?f) @ le16 0 @ room @ p @ tail0, s_pos = 19, s_length = length mem\<rparr>
        (int (31 + ?m)) ?f = Ok (True, word_of_nat pad, a') s' \<Longrightarrow> length (s_buffer s') = length mem \<Longrightarrow> pad < 8 \<Longrightarrow>
      send_message c mem a (ch, p) = Some (take (31 + ?m + pad) (s_buffer s'), a'\<lparr>sec_flags := 0\<rparr>)"
    using send_message_start [OF h(2) s0 l n refl, of c ch] unfolding padded_length_fips [OF h(2,3) l(1)] by auto
  obtain z tail where z: "tail0 = z @ tail" "length z = ?pad" "length tail = length mem - 31 - ?m - ?pad"
    using chop [of tail0 ?pad "length mem - 31 - ?m - ?pad"] r(2) l padl by auto
  have ok: "crypto_ok c" "cbc_ok c" "\<And>k d. length (hmac_sha1 c k d) = 20" and half: "fips_half c ?a b"
    using h by (simp_all add: talks_def)
  have m: "?m < 2 ^ 30" using l by simp
  have lA: "length (?H @ ?sec) = 19" "(19 :: nat) + 12 = 31" by simp_all
  from fips_stream_out_own [OF ok half r(1) refl z(2) m, of "?H @ ?sec" tail "length mem", unfolded lA append_assoc]
  obtain sig w x y where o:
    "fips_stream_out c ?a \<lparr>s_buffer = ?H @ le16 (ucast ?f) @ le16 0 @ room @ p @ z @ tail, s_pos = 19, s_length = length mem\<rparr> (int (31 + ?m)) =
      Ok (True, word_of_nat ?pad, ?a\<lparr>fips_encrypt := Some x, encrypt_use_count := encrypt_use_count ?a + 1\<rparr>)
        \<lparr>s_buffer = ?H @ le16 (ucast ?f) @ le16 0 @ [0x10, 0, 1, word_of_nat ?pad] @ sig @ w @ tail, s_pos = 31, s_length = length mem\<rparr>"
    "length sig = 8" "length w = ?m + ?pad"
    "security_fips_decrypt c w (int (?m + ?pad)) b = Some (True, p @ replicate ?pad 0, b\<lparr>fips_decrypt := Some y\<rparr>)"
    "\<And>rest. security_fips_check_signature c (p @ replicate ?pad 0) (int ?m) (sig @ rest) (b\<lparr>fips_decrypt := Some y\<rparr>) =
      Some (True, b\<lparr>fips_decrypt := Some y, decrypt_use_count := decrypt_use_count b + 1\<rparr>)"
    "fips_half c (?a\<lparr>fips_encrypt := Some x, encrypt_use_count := encrypt_use_count ?a + 1\<rparr>)
      (b\<lparr>fips_decrypt := Some y, decrypt_use_count := decrypt_use_count b + 1\<rparr>)"
    by blast
  let ?b = "b\<lparr>fips_decrypt := Some y, decrypt_use_count := decrypt_use_count b + 1\<rparr>"
  let ?a' = "a\<lparr>fips_encrypt := Some x, encrypt_use_count := encrypt_use_count a + 1, sec_flags := 0\<rparr>"
  let ?rest = "[0x10, 0, 1, word_of_nat ?pad] @ sig @ w"
  let ?W = "?H @ ?sec @ ?rest"
  have "send_message c mem a (ch, p) = Some (take (31 + ?m + ?pad) (?W @ tail), ?a')"
  proof -
    let ?s' = "\<lparr>s_buffer = ?H @ le16 (ucast ?f) @ le16 0 @ [0x10, 0, 1, word_of_nat ?pad] @ sig @ w @ tail, s_pos = 31, s_length = length mem\<rparr>"
    have lb: "length (s_buffer ?s') = length mem" using z(3) o(2,3) l padl by simp
    have so: "security_out c ?a \<lparr>s_buffer = ?H @ le16 (ucast ?f) @ le16 0 @ room @ p @ tail0, s_pos = 19, s_length = length mem\<rparr>
        (int (31 + ?m)) ?f = Ok (True, word_of_nat ?pad, ?a\<lparr>fips_encrypt := Some x, encrypt_use_count := encrypt_use_count ?a + 1\<rparr>) ?s'"
      using h(3) o(1) unfolding security_out_def z(1) by simp
    from send [OF so lb padl] show ?thesis by simp
  qed
  also have "take (31 + ?m + ?pad) (?W @ tail) = ?W"
    by (rule take_own) (use o(2,3) in simp)
  finally have s: "send_message c mem a (ch, p) = Some (?W, ?a')" .
  let ?enc = "if ServerMode (rdp_settings b) then server_encrypted else client_encrypted"
  have rp: "recv_packet c ?enc b (Stream_New ?W) c0 =
    andthen (rdp_decrypt c b (Stream_Seek (Stream_New ?W) 19) (int (length ?rest)) (ucast ?f))
      (\<lambda>(ok, rdp) s. Ok (if ok then Inr (ch, ucast ?f, rdp) else Inl (-1, rdp)) s)" for c0
  proof (rule recv_packet_own)
    show "ServerMode (rdp_settings b) \<noteq> ServerMode (rdp_settings a)" "\<not> freerdp_shall_disconnect b"
      "UseRdpSecurityLayer (rdp_settings b)" using h(1,2) unfolding talks_def by auto
    show "?sec @ ?rest = le16 (ucast ?f) @ le16 0 @ ?rest" by simp
    show "length ?rest < 2 ^ 15 - 19" using o(2,3) l padl by simp
    show "?len = word_of_nat (15 + length (?sec @ ?rest))"
      by (rule arg_cong [of _ _ word_of_nat]) (use o(2,3) in simp)
    show "?f AND SEC_ENCRYPT \<noteq> 0" by (rule out_flags)
    show "?enc \<in> {client_encrypted, server_encrypted}" by simp
  qed
  let ?r = "Stream_Seek (Stream_New ?W) 19"
  have swf: "swf ?r" by (rule swf_Stream_Seek) (use o(2,3) l padl in simp_all)
  have whole: "s_length ?r = length (s_buffer ?r)" by (simp add: Stream_New_def)
  have av: "avail ?r = ?rest" by simp
  obtain t where t: "fips_decrypt_pdu c b ?r (int (12 + ?m + ?pad)) = Ok (True, ?b) t" "avail t = p" "swf t"
    using fips_decrypt_pdu_own [OF swf whole av o(2,3) refl padl o(4,5)] by blast
  have e: "ENC_METHOD b = ENCRYPTION_METHOD_FIPS" using h by (simp add: talks_def)
  have lr: "length ?rest = 12 + ?m + ?pad" using o(2,3) by simp
  have "recv_packet c ?enc b (Stream_New ?W) c0 = Ok (Inr (ch, ucast ?f, ?b)) t" for c0
    unfolding rp lr rdp_decrypt_def if_P [OF e] t(1) by simp
  moreover have only: "sent_only a ?a'" "received_only b ?b" using s0 by (simp_all add: sent_only_def received_only_def)
  moreover have "talks c ?a' ?b"
  proof (rule talks_step [OF h(1) only])
    have "fips_half c ?a' ?b" using o(6) unfolding fips_half_def by (elim conjE) simp
    then show "if ENC_METHOD a = ENCRYPTION_METHOD_FIPS then fips_half c ?a' ?b else rc4_half ?a' ?b" using h(3) by simp
  qed
  moreover have "rdp_read_header b (Stream_New ?W) c0 = Ok (?len - 15, ch, b) (Stream_Seek (Stream_New ?W) 15)" for c0
  proof (rule rdp_read_header_own)
    show "ServerMode (rdp_settings b) \<noteq> ServerMode (rdp_settings a)" using h(1) by (simp add: talks_def)
    show "length (?sec @ ?rest) < 2 ^ 15 - 15" using o(2,3) l padl by simp
    show "?len = word_of_nat (15 + length (?sec @ ?rest))"
      by (rule arg_cong [of _ _ word_of_nat]) (use o(2,3) in simp)
  qed
  ultimately show ?thesis
    unfolding delivers_def arrives_def fst_conv snd_conv using s t(2,3) out_flags_redirection own_tpkt [of a ?len ch "?sec @ ?rest"] by blast
qed

lemma peers_deliver:
  assumes "talks c a b" "length (snd m) \<le> 2000" "2048 \<le> length mem"
  shows "delivers c mem a b m"
proof (cases "do_crypt a")
  case True
  with assms session_step_rc4 [of c a b "snd m" mem "fst m"] session_step_fips [of c a b "snd m" mem "fst m"]
  show ?thesis by (cases "ENC_METHOD a = ENCRYPTION_METHOD_FIPS") simp_all
next
  case False
  let ?len = "word_of_nat (15 + length (snd m)) :: u16"
  let ?w = "rdp_header_bytes a ?len (fst m) @ snd m"
  let ?enc = "if ServerMode (rdp_settings b) then server_encrypted else client_encrypted"
  have mode: "ServerMode (rdp_settings b) \<noteq> ServerMode (rdp_settings a)" "\<not> freerdp_shall_disconnect b"
    "\<not> UseRdpSecurityLayer (rdp_settings b)"
    using assms(1) False unfolding talks_def by auto
  have "rdp_read_header b (Stream_New ?w) c0 = Ok (?len - 15, fst m, b) (Stream_Seek (Stream_New ?w) 15)" for c0
    by (rule rdp_read_header_own [OF mode(1) _ refl]) (use assms(2) in simp)
  note rh = this
  then have r: "recv_packet c ?enc b (Stream_New ?w) c0 = Ok (Inr (fst m, 0, b)) (Stream_Seek (Stream_New ?w) 15)" for c0
    using mode(2,3) by (simp add: recv_packet_def del: of_nat_add)
  have av: "avail (Stream_Seek (Stream_New ?w) 15) = snd m" by simp
  have swf: "swf (Stream_Seek (Stream_New ?w) 15)" by (rule swf_Stream_Seek) (use assms(2) in simp_all)
  have "send_message c mem a m = Some (?w, a)"
    using send_message_plain [OF _ False assms(2,3), of c "fst m"] assms(1) by (simp add: talks_def)
  moreover have "(0 :: u16) AND ucast SEC_REDIRECTION_PKT = 0" by simp
  ultimately show ?thesis unfolding delivers_def arrives_def using assms(1) r rh av swf only_refl own_tpkt by blast
qed

lemma session_step:
  assumes "in_session c a b" "length (snd m) \<le> 2000" "2048 \<le> length mem"
  shows "\<exists>w a' b'. send_message c mem a m = Some (w, a') \<and> recv_message c b w = Some (m, b') \<and> in_session c a' b'"
proof -
  have t: "talks c a b" "talks c b a" using assms(1) by (simp_all add: in_session_talks)
  obtain w a' b' fl u where "send_message c mem a m = Some (w, a')" "talks c a' b'" "sent_only a a'" "received_only b b'"
    "recv_packet c (if ServerMode (rdp_settings b) then server_encrypted else client_encrypted) b (Stream_New w) 0 =
      Ok (Inr (fst m, fl, b')) u" "avail u = snd m"
    using peers_deliver [OF t(1) assms(2,3)] unfolding delivers_def arrives_def by blast
  with talks_back [OF t(2)] show ?thesis
    unfolding recv_message_def in_session_talks by (intro exI [of _ w] exI [of _ a'] exI [of _ b']) simp
qed

interpretation rdp_session: duplex "send_message c mem" "recv_message c"
  "\<lambda>a b. 2048 \<le> length mem \<and> in_session c a b" "\<lambda>m. length (snd m) \<le> 2000"
proof unfold_locales
  fix a b and m :: "u16 \<times> bytes" assume "2048 \<le> length mem \<and> in_session c a b" "length (snd m) \<le> 2000"
  then show "\<exists>w a' b'. send_message c mem a m = Some (w, a') \<and> recv_message c b w = Some (m, b') \<and>
      2048 \<le> length mem \<and> in_session c a' b'"
    using session_step [of c a b m mem] by simp
qed (simp add: in_session_sym)

fun exchange :: "crypto \<Rightarrow> bytes \<Rightarrow> rdpRdp \<Rightarrow> rdpRdp \<Rightarrow> (bool \<times> u16 \<times> bytes) list \<Rightarrow> ((bool \<times> u16 \<times> bytes) list \<times> rdpRdp \<times> rdpRdp) option" where
  \<comment> \<open>What arrives of the messages of two peers; True marks those of the first one.\<close>
  "exchange c mem a b [] = Some ([], a, b)"
| "exchange c mem a b ((dir, m) # ms) =
     (case send_message c mem (if dir then a else b) m of None \<Rightarrow> None
      | Some (w, x) \<Rightarrow>
          (case recv_message c (if dir then b else a) w of None \<Rightarrow> None
           | Some (m', y) \<Rightarrow>
               (case exchange c mem (if dir then x else y) (if dir then y else x) ms of None \<Rightarrow> None
                | Some (rs, z) \<Rightarrow> Some ((dir, m') # rs, z))))"

lemma exchange_session: "exchange c mem a b ms = rdp_session.session c mem a b ms"
  by (induction ms arbitrary: a b) (auto split: option.split)

text \<open>C2: a session. Two peers whose keys are in step (no encryption, RC4 with either code and any key
  length, or FIPS) exchange messages on any channels, in both directions and any order, also across the
  renewal of the RC4 keys after 4096 packets: every message arrives at the other side with its channel
  and its bytes, the code or signature of each is accepted, and the peers are in step afterwards.\<close>

theorem rdp_session_delivers:
  assumes "in_session c a b" "2048 \<le> length mem" "\<forall>(dir, channelId, p) \<in> set ms. length p \<le> 2000"
  shows "\<exists>a' b'. exchange c mem a b ms = Some (ms, a', b') \<and> in_session c a' b'"
proof -
  have "\<forall>(dir, m) \<in> set ms. length (snd m) \<le> 2000" using assms(3) by auto
  from rdp_session.session_delivers [OF _ this, of mem c a b] assms(1,2) show ?thesis
    by (auto simp: exchange_session)
qed

lemma plain_cbc_ok: "cbc_ok plain_crypto" "length (hmac_sha1 plain_crypto k d) = 20"
  by (simp_all add: cbc_ok_def plain_crypto_def comp_def xor.assoc)

definition fips_peer :: "bool \<Rightarrow> rdpRdp" where
  \<comment> \<open>Right after the keys are established.\<close>
  "fips_peer server = (rdp_new (peer_settings server ENCRYPTION_METHOD_FIPS (replicate 32 7)) (\<not> server))
     \<lparr>do_crypt := True, fips_hmac := True, fips_encrypt := Some \<lparr>des3_key = [], des3_ivec = [], des3_done = []\<rparr>,
      fips_decrypt := Some \<lparr>des3_key = [], des3_ivec = [], des3_done = []\<rparr>\<rparr>"

theorem rdp_session_delivers_witness:
  "\<exists>a' b'. exchange plain_crypto (replicate 2048 0xEE) (fips_peer False) (fips_peer True)
      [(True, 1003, [1, 2, 3]), (False, 1004, replicate 9 5), (True, 1003, [])] =
    Some ([(True, 1003, [1, 2, 3]), (False, 1004, replicate 9 5), (True, 1003, [])], a', b') \<and> in_session plain_crypto a' b'"
proof (rule rdp_session_delivers)
  show "in_session plain_crypto (fips_peer False) (fips_peer True)"
    unfolding in_session_def
    by (simp add: plain_crypto_ok plain_cbc_ok fips_peer_def rdp_new_def freerdp_shall_disconnect_def fips_half_def)
      (simp add: plain_crypto_def)
qed auto

end
