(* ===== verification/Key_Exchange.thy ===== *)
theory Key_Exchange
  imports Rdp_Session
begin

text \<open>
  The exchange of the client random, which ends with both sides in a session: RSA over the numbers of
  OpenSSL (\<open>crypto_rsa_common\<close> and its callers in libfreerdp/crypto/crypto.c), \<open>rdp_client_establish_keys\<close> and
  \<open>rdp_server_establish_keys\<close> of libfreerdp/core/connection.c.
\<close>

subsection \<open>RSA\<close>

record bignum =
  BN_bin2bn :: "bytes \<Rightarrow> nat"
  BN_bn2bin :: "nat \<Rightarrow> bytes"
  BN_mod_exp :: "nat \<Rightarrow> nat \<Rightarrow> nat \<Rightarrow> nat"

abbreviation (input) EXPONENT_MAX_SIZE :: nat where "EXPONENT_MAX_SIZE \<equiv> 4"
abbreviation (input) CLIENT_RANDOM_LENGTH :: nat where "CLIENT_RANDOM_LENGTH \<equiv> 32"

definition crypto_reverse :: "bytes \<Rightarrow> bytes" where
  "crypto_reverse data = rev data"

definition crypto_rsa_common :: "env \<Rightarrow> bignum \<Rightarrow> bytes \<Rightarrow> nat \<Rightarrow> u32 \<Rightarrow> bytes \<Rightarrow> bytes \<Rightarrow> nat \<Rightarrow> bytes \<Rightarrow> (int \<times> bytes) option" where
  \<comment> \<open>One block holds the input, the modulus and the exponent, in this order, and the input is copied last.
    The result is the returned length with the new content of \<open>output\<close>; None is an access outside a block.
    What the first part of the block held before is not read.\<close>
  "crypto_rsa_common env bn input len key_length modulus exponent exponent_size output =
     (let n = unat key_length
      in case malloc env (unat (2 * key_length + word_of_nat exponent_size)) of None \<Rightarrow> Some (-1, output)
         | Some block \<Rightarrow> do {
             m \<leftarrow> fetch modulus 0 n;
             e \<leftarrow> fetch exponent 0 exponent_size;
             i \<leftarrow> fetch input 0 len;
             if length block < 2 * n + exponent_size \<or> length block < len then None
             else do {
               let block = take n block @ crypto_reverse m @ crypto_reverse e;
               let block = crypto_reverse i @ drop len block;
               let md = BN_bin2bn bn (take n (drop n block));
               let ex = BN_bin2bn bn (take exponent_size (drop (2 * n) block));
               let x = BN_bin2bn bn (take len block);
               let out = BN_bn2bin bn (BN_mod_exp bn x ex md);
               if length output < length out \<or> (length out < n \<and> length output < n) then None
               else Some (int (length out),
                 crypto_reverse out @ replicate (n - length out) 0 @ drop (max n (length out)) output)
             }
           })"

definition crypto_rsa_public_encrypt :: "env \<Rightarrow> bignum \<Rightarrow> bytes \<Rightarrow> nat \<Rightarrow> u32 \<Rightarrow> bytes \<Rightarrow> bytes \<Rightarrow> bytes \<Rightarrow> (int \<times> bytes) option" where
  "crypto_rsa_public_encrypt env bn input len key_length modulus exponent output =
     crypto_rsa_common env bn input len key_length modulus exponent EXPONENT_MAX_SIZE output"

definition crypto_rsa_private_decrypt :: "env \<Rightarrow> bignum \<Rightarrow> bytes \<Rightarrow> nat \<Rightarrow> u32 \<Rightarrow> bytes \<Rightarrow> bytes \<Rightarrow> bytes \<Rightarrow> (int \<times> bytes) option" where
  "crypto_rsa_private_decrypt env bn input len key_length modulus private_exponent output =
     crypto_rsa_common env bn input len key_length modulus private_exponent (unat key_length) output"

subsection \<open>Both sides\<close>

definition fips_ivec :: bytes where
  "fips_ivec = [0x12, 0x34, 0x56, 0x78, 0x90, 0xAB, 0xCD, 0xEF]"

definition install_ciphers :: "crypto \<Rightarrow> rdpRdp \<Rightarrow> (bool \<times> rdpRdp) option" where
  \<comment> \<open>The common end of the two routines, from the comparison with \<open>ENCRYPTION_METHOD_FIPS\<close> on.\<close>
  "install_ciphers c rdp =
     (if ENC_METHOD rdp = ENCRYPTION_METHOD_FIPS then
        (if \<not> des3_init c then Some (False, rdp\<lparr>fips_encrypt := None\<rparr>)
         else
           (let rdp = rdp\<lparr>fips_encrypt := Some \<lparr>des3_key = fips_encrypt_key rdp, des3_ivec = fips_ivec, des3_done = []\<rparr>,
                        fips_decrypt := Some \<lparr>des3_key = fips_decrypt_key rdp, des3_ivec = fips_ivec, des3_done = []\<rparr>\<rparr>
            in if \<not> hmac_init c then Some (False, rdp\<lparr>fips_hmac := False\<rparr>)
               else Some (True, rdp\<lparr>fips_hmac := True\<rparr>)))
      else do {
        d \<leftarrow> crypto_rc4_init c (decrypt_key rdp) (rc4_key_len rdp);
        let rdp = rdp\<lparr>rc4_decrypt_key := d\<rparr>;
        if d = None then Some (False, rdp)
        else do {
          e \<leftarrow> crypto_rc4_init c (encrypt_key rdp) (rc4_key_len rdp);
          let rdp = rdp\<lparr>rc4_encrypt_key := e\<rparr>;
          Some (e \<noteq> None, rdp)
        }
      })"

definition rdp_client_establish_keys :: "crypto \<Rightarrow> bignum \<Rightarrow> env \<Rightarrow> bytes \<Rightarrow> bytes \<times> bytes \<Rightarrow> rdpRdp \<Rightarrow> (bool \<times> bytes list \<times> rdpRdp) option" where
  \<comment> \<open>\<open>nonce\<close> is what \<open>crypto_nonce\<close> draws, the pair are modulus and exponent of the server's certificate. With the
    packets that are sent.\<close>
  "rdp_client_establish_keys c bn env nonce cert_info rdp =
     (if \<not> UseRdpSecurityLayer (rdp_settings rdp) then Some (True, [], rdp)
      else
        (case malloc env CLIENT_RANDOM_LENGTH of
           None \<Rightarrow> Some (False, [], rdp\<lparr>rdp_settings := (rdp_settings rdp)\<lparr>ClientRandom := []\<rparr>\<rparr>)
         | Some _ \<Rightarrow>
             (let rdp = rdp\<lparr>rdp_settings := (rdp_settings rdp)\<lparr>ClientRandom := nonce\<rparr>\<rparr>;
                  (md, ex) = cert_info;
                  key_len = word_of_nat (length md) :: u32
              in case malloc env (unat (key_len + 8)) of None \<Rightarrow> Some (False, [], rdp)
                 | Some block \<Rightarrow> do {
                     (_, crypt_client_random) \<leftarrow> crypto_rsa_public_encrypt env bn nonce CLIENT_RANDOM_LENGTH key_len md ex
                       (replicate (length block) 0);
                     let len = 15 + 4 + 4 + key_len + 8;
                     case malloc env (unat len) of None \<Rightarrow> Some (False, [], rdp)
                     | Some mem \<Rightarrow>
                         (case
                            andthen (rdp_write_header rdp (Stream_New mem) (ucast len) MCS_GLOBAL_CHANNEL_ID) (\<lambda>_ s.
                            andthen (rdp_write_security_header s (ucast (SEC_EXCHANGE_PKT OR SEC_LICENSE_ENCRYPT_SC))) (\<lambda>_ s.
                            andthen (Stream_Write_UINT32 s (key_len + 8)) (\<lambda>_ s.
                            if length crypt_client_random < unat (key_len + 8) then Overrun
                            else Stream_Write s (take (unat (key_len + 8)) crypt_client_random)))) of
                            Ok _ s \<Rightarrow>
                              (let w = packet (Stream_SealLength s)
                               in if transport_write env w < 0 then Some (False, [w], rdp)
                                  else do {
                                    let rdp = rdp\<lparr>do_crypt_license := True\<rparr>;
                                    (ok, rdp) \<leftarrow> security_establish_keys c nonce rdp;
                                    if \<not> ok then Some (False, [w], rdp)
                                    else do {
                                      let rdp = rdp\<lparr>do_crypt := True\<rparr>;
                                      let rdp = (if SaltedChecksum (rdp_settings rdp) then rdp\<lparr>do_secure_checksum := True\<rparr> else rdp);
                                      (ok, rdp) \<leftarrow> install_ciphers c rdp;
                                      Some (ok, [w], rdp)
                                    }
                                  })
                          | _ \<Rightarrow> None)
                   })))"

definition rdp_server_establish_keys :: "crypto \<Rightarrow> bignum \<Rightarrow> env \<Rightarrow> bytes \<Rightarrow> u16 \<Rightarrow> rdpRdp \<Rightarrow> wStream \<Rightarrow> (bool \<times> rdpRdp) res" where
  \<comment> \<open>The fourth argument is the private exponent of the server's key, the fifth what \<open>channel_id\<close> holds.\<close>
  "rdp_server_establish_keys c bn env priv_exp channel_id rdp s =
     (if \<not> UseRdpSecurityLayer (rdp_settings rdp) then Ok (True, rdp) s
      else
        failing (rdp_read_header rdp s channel_id) (False, rdp) (\<lambda>(len, channel_id, rdp) s.
        failing (rdp_read_security_header s) (False, rdp) (\<lambda>fl s.
          if fl AND ucast SEC_EXCHANGE_PKT = 0 then Ok (False, rdp) s
          else
            (let rdp = rdp\<lparr>do_crypt_license := (fl AND ucast SEC_LICENSE_ENCRYPT_SC \<noteq> 0)\<rparr>
             in if Stream_GetRemainingLength s < 4 then Ok (False, rdp) s
                else
                  andthen (Stream_Read_UINT32 s) (\<lambda>rand_len s.
                    if Stream_GetRemainingLength s < unat rand_len then Ok (False, rdp) s
                    else
                      (let md = RsaModulus (rdp_settings rdp); key_len = word_of_nat (length md) :: u32
                       in case malloc env (unat key_len) of None \<Rightarrow> Ok (False, rdp) s
                          | Some client_random \<Rightarrow>
                              if rand_len \<noteq> key_len + 8 then Ok (False, rdp) s
                              else if malloc env (unat rand_len) = None then Ok (False, rdp) s
                              else
                                andthen (Stream_Read s (unat rand_len)) (\<lambda>crypt_client_random s.
                                  case do {
                                    (_, client_random) \<leftarrow> crypto_rsa_private_decrypt env bn crypt_client_random (unat (rand_len - 8))
                                      key_len md priv_exp client_random;
                                    (ok, rdp) \<leftarrow> security_establish_keys c client_random rdp;
                                    if \<not> ok then Some (False, rdp)
                                    else install_ciphers c (rdp\<lparr>do_crypt := True\<rparr>)
                                  } of
                                    None \<Rightarrow> Overrun
                                  | Some (ok, rdp) \<Rightarrow> Ok (ok, rdp) s)))))))"

subsection \<open>Numbers as bytes\<close>

primrec le_value :: "bytes \<Rightarrow> nat" where
  \<comment> \<open>The number of a little-endian string.\<close>
  "le_value [] = 0"
| "le_value (b # bs) = unat b + 256 * le_value bs"

lemma le_value_bound: "le_value bs < 256 ^ length bs"
proof (induction bs)
  case (Cons b bs)
  have "unat b < 256" using unsigned_less [of b] by simp
  with Cons show ?case by simp
qed simp

lemma le_value_zeros [simp]: "le_value (bs @ replicate k 0) = le_value bs"
proof (induction bs)
  case Nil
  show ?case by (induction k) simp_all
qed simp

lemma le_value_inj: "length as = length bs \<Longrightarrow> le_value as = le_value bs \<Longrightarrow> as = bs"
proof (induction as bs rule: list_induct2)
  case (Cons a as b bs)
  have "unat a < 256" "unat b < 256" using unsigned_less [of a] unsigned_less [of b] by simp_all
  then have "unat a = (unat a + 256 * le_value as) mod 256" "unat b = (unat b + 256 * le_value bs) mod 256" by simp_all
  then have "unat a = unat b" using Cons.prems by (metis le_value.simps(2))
  with Cons show ?case by (simp add: word_unat_eq_iff)
qed simp

definition bn_ok :: "bignum \<Rightarrow> bool" where
  \<comment> \<open>The numbers of the library are big-endian strings without leading zeros.\<close>
  "bn_ok bn \<longleftrightarrow> (\<forall>bs. BN_bin2bn bn bs = le_value (rev bs)) \<and> (\<forall>n. le_value (rev (BN_bn2bin bn n)) = n) \<and>
     (\<forall>n k. n < 256 ^ k \<longrightarrow> length (BN_bn2bin bn n) \<le> k) \<and>
     (\<forall>x e m. 0 < m \<longrightarrow> BN_mod_exp bn x e m = x ^ e mod m)"

definition rsa_env :: "env \<Rightarrow> bool" where
  \<comment> \<open>Memory is found and has the size that was asked for.\<close>
  "rsa_env env \<longleftrightarrow> (\<forall>n. \<exists>mem. malloc env n = Some mem \<and> length mem = n)"

lemma crypto_rsa_common_ok:
  assumes bn: "bn_ok bn" and env: "rsa_env env"
    and n: "n = unat key_length" "length modulus = n" "2 * n + es < 2 ^ 32"
    and l: "es \<le> length exponent" "len \<le> n" "len \<le> length input" "n \<le> length output"
    and m: "0 < le_value modulus"
    and y: "y = le_value (take len input) ^ le_value (take es exponent) mod le_value modulus"
  shows "\<exists>k out. crypto_rsa_common env bn input len key_length modulus exponent es output = Some (k, out @ drop n output) \<and>
    length out = n \<and> le_value out = y"
proof -
  have size: "unat (2 * key_length + word_of_nat es) = 2 * n + es"
  proof -
    have "2 * key_length + word_of_nat es = word_of_nat (2 * n + es)" using n(1) by simp
    also have "unat \<dots> = 2 * n + es" using n(3) by (simp add: unat_of_nat del: of_nat_add of_nat_mult)
    finally show ?thesis .
  qed
  obtain block where block: "malloc env (2 * n + es) = Some block" "length block = 2 * n + es"
    using env unfolding rsa_env_def by blast
  have "y < le_value modulus" using m y by simp
  then have yb: "y < 256 ^ n" using le_value_bound [of modulus] n(2) by simp
  let ?out = "BN_bn2bin bn y"
  have out: "length ?out \<le> n" "le_value (rev ?out) = y" using bn yb by (simp_all add: bn_ok_def)
  let ?i = "take len input" and ?e = "take es exponent"
  let ?b = "rev ?i @ drop len (take n block @ rev modulus @ rev ?e)"
  have "take len ?b = rev ?i" using l by simp
  moreover have d: "drop n ?b = rev modulus @ rev ?e" using l(2,3) block(2) by (simp add: min_def)
  have "drop (2 * n) ?b = rev ?e" unfolding mult_2 drop_drop [symmetric] d using n(2) by simp
  then have "take n (drop n ?b) = rev modulus" "take es (drop (2 * n) ?b) = rev ?e"
    unfolding d using n(2) l(1) by simp_all
  ultimately have "crypto_rsa_common env bn input len key_length modulus exponent es output =
      Some (int (length ?out), (rev ?out @ replicate (n - length ?out) 0) @ drop n output)"
    using l n(1,2) bn out(1) m block y
    by (simp add: crypto_rsa_common_def size Let_def crypto_reverse_def bn_ok_def max_def)
  moreover have "length (rev ?out @ replicate (n - length ?out) 0) = n" using out(1) by simp
  ultimately show ?thesis using out(2) by (metis le_value_zeros)
qed

subsection \<open>The session the exchange leads to\<close>

lemma keys_of_take:
  assumes r: "32 \<le> length r"
  shows "keys_of c (r @ z) rdp = keys_of c r rdp"
proof -
  have s: "salted c salt i (r @ z) sr = salted c salt i r sr" for salt i sr using r by (simp add: salted_def)
  have "take 24 (r @ z) = take 24 r" using r by simp
  then have m: "master c (r @ z) sr = master c r sr" for sr by (simp only: master_def s)
  have k: "key_blob c (r @ z) sr = key_blob c r sr" for sr by (simp only: key_blob_def m s)
  have "take 32 (r @ z) = take 32 r" using r by simp
  then have "session_key c i (r @ z) sr = session_key c i r sr" for i sr by (simp only: session_key_def k)
  then have e: "established c (r @ z) a = established c r a" for a by (simp only: established_def k)
  have "take 16 (r @ z) = take 16 r" "take 16 (drop 16 (r @ z)) = take 16 (drop 16 r)" using r by simp_all
  then have "fips_established c (r @ z) a = fips_established c r a" for a by (simp only: fips_established_def)
  then show ?thesis by (simp only: keys_of_def e)
qed

lemma keys_of_rest [simp]:
  "rdp_settings (keys_of c cr a) = rdp_settings a" "sec_flags (keys_of c cr a) = sec_flags a"
  "freerdp_shall_disconnect (keys_of c cr a) = freerdp_shall_disconnect a"
  by (simp_all add: keys_of_def established_def fips_established_def security_salt_keys_def Let_def freerdp_shall_disconnect_def)

definition installed :: "rdpRdp \<Rightarrow> rdpRdp" where
  "installed a =
     (if ENC_METHOD a = ENCRYPTION_METHOD_FIPS
      then a\<lparr>fips_encrypt := Some \<lparr>des3_key = fips_encrypt_key a, des3_ivec = fips_ivec, des3_done = []\<rparr>,
             fips_decrypt := Some \<lparr>des3_key = fips_decrypt_key a, des3_ivec = fips_ivec, des3_done = []\<rparr>, fips_hmac := True\<rparr>
      else a\<lparr>rc4_decrypt_key := Some \<lparr>rc4_key = take (rc4_key_len a) (decrypt_key a), rc4_used = 0\<rparr>,
             rc4_encrypt_key := Some \<lparr>rc4_key = take (rc4_key_len a) (encrypt_key a), rc4_used = 0\<rparr>\<rparr>)"

lemma install_ciphers_ok:
  assumes "crypto_ok c" "key_sizes a"
  shows "install_ciphers c a = Some (True, installed a)"
  using assms by (simp add: install_ciphers_def installed_def crypto_rc4_init_def key_sizes_def Let_def)

lemma installed_rest [simp]:
  "rdp_settings (installed a) = rdp_settings a" "sec_flags (installed a) = sec_flags a" "do_crypt (installed a) = do_crypt a"
  "freerdp_shall_disconnect (installed a) = freerdp_shall_disconnect a"
  by (simp_all add: installed_def freerdp_shall_disconnect_def)

lemma installed_half:
  assumes m: "mirrored a b" and k: "key_sizes a" "key_sizes b" and c: "cbc_ok c"
  shows "if ENC_METHOD a = ENCRYPTION_METHOD_FIPS then fips_half c (installed a) (installed b) else rc4_half (installed a) (installed b)"
proof (cases "ENC_METHOD a = ENCRYPTION_METHOD_FIPS")
  case True
  have "des3_cbc_encrypt c k iv [] = []" for k iv
    using c [unfolded cbc_ok_def, rule_format, of "[]" "[]" k iv] by simp
  with True m k show ?thesis by (auto simp: fips_half_def installed_def mirrored_def key_sizes_def)
next
  case False
  with m k show ?thesis by (auto simp: rc4_half_def installed_def mirrored_def key_sizes_def)
qed

lemma mirrored_flags [simp]:
  "mirrored (a\<lparr>do_crypt := x\<rparr>) b = mirrored a b" "mirrored a (b\<lparr>do_crypt := x\<rparr>) = mirrored a b"
  "mirrored (a\<lparr>do_secure_checksum := x\<rparr>) b = mirrored a b" "mirrored a (b\<lparr>do_secure_checksum := x\<rparr>) = mirrored a b"
  "key_sizes (a\<lparr>do_crypt := x\<rparr>) = key_sizes a" "key_sizes (a\<lparr>do_secure_checksum := x\<rparr>) = key_sizes a"
  "freerdp_shall_disconnect (a\<lparr>do_crypt := x\<rparr>) = freerdp_shall_disconnect a"
  "freerdp_shall_disconnect (a\<lparr>do_secure_checksum := x\<rparr>) = freerdp_shall_disconnect a"
  "freerdp_shall_disconnect (a\<lparr>do_crypt_license := x\<rparr>) = freerdp_shall_disconnect a"
  "freerdp_shall_disconnect (a\<lparr>rdp_settings := st\<rparr>) = freerdp_shall_disconnect a"
  by (simp_all add: mirrored_def key_sizes_def freerdp_shall_disconnect_def)

lemma installed_in_session:
  assumes "crypto_ok c" "cbc_ok c" "\<And>k d. length (hmac_sha1 c k d) = 20" "mirrored a b" "mirrored b a" "key_sizes a" "key_sizes b"
    and "ServerMode (rdp_settings a) \<noteq> ServerMode (rdp_settings b)" "\<not> freerdp_shall_disconnect a" "\<not> freerdp_shall_disconnect b"
    "sec_flags a = 0" "sec_flags b = 0" "UseRdpSecurityLayer (rdp_settings a)" "UseRdpSecurityLayer (rdp_settings b)"
    "do_crypt a" "do_crypt b"
  shows "in_session c (installed a) (installed b)"
proof -
  have e: "ENC_METHOD a = ENC_METHOD b" using assms(4) by (simp add: mirrored_def)
  show ?thesis
    using assms installed_half [OF assms(4,6,7,2)] installed_half [OF assms(5,7,6,2)] e unfolding in_session_def by simp
qed

definition rsa_key :: "bytes \<Rightarrow> bytes \<Rightarrow> bytes \<Rightarrow> bool" where
  \<comment> \<open>A key pair: the private exponent inverts the public one on the numbers below the modulus.\<close>
  "rsa_key modulus exponent priv_exp \<longleftrightarrow> 32 \<le> length modulus \<and> length modulus \<le> 32000 \<and>
     length exponent = 4 \<and> length priv_exp = length modulus \<and> 0 < le_value modulus \<and>
     (\<forall>x < le_value modulus. (x ^ le_value exponent mod le_value modulus) ^ le_value priv_exp mod le_value modulus = x)"

definition exchange_packet :: "rdpRdp \<Rightarrow> bytes \<Rightarrow> bytes" where
  "exchange_packet rdp crypt = rdp_header_bytes rdp (word_of_nat (23 + length crypt)) MCS_GLOBAL_CHANNEL_ID @
     le16 (ucast (SEC_EXCHANGE_PKT OR SEC_LICENSE_ENCRYPT_SC)) @ le16 0 @ le32 (word_of_nat (length crypt)) @ crypt"

lemma client_establish_ok:
  assumes c: "crypto_ok c" and bn: "bn_ok bn" and env: "rsa_env env" "\<And>w. 0 \<le> transport_write env w"
    and key: "rsa_key modulus exponent priv_exp" and r: "length nonce = 32" "32 \<le> length (ServerRandom (rdp_settings a))"
    and a: "UseRdpSecurityLayer (rdp_settings a)" "sec_flags a = 0" "rc4_key_len a = 0"
    and a': "a' = a\<lparr>rdp_settings := (rdp_settings a)\<lparr>ClientRandom := nonce\<rparr>, do_crypt_license := True\<rparr>"
    and f: "f = (\<lambda>rdp. if SaltedChecksum (rdp_settings rdp) then rdp\<lparr>do_secure_checksum := True\<rparr> else rdp)"
  shows "\<exists>out. length out = length modulus \<and>
    le_value out = le_value nonce ^ le_value exponent mod le_value modulus \<and>
    rdp_client_establish_keys c bn env nonce (modulus, exponent) a =
      Some (True, [exchange_packet a (out @ replicate 8 0)], installed (f ((keys_of c nonce a')\<lparr>do_crypt := True\<rparr>)))"
proof -
  let ?n = "length modulus" and ?rdp = "a\<lparr>rdp_settings := (rdp_settings a)\<lparr>ClientRandom := nonce\<rparr>\<rparr>"
  let ?k = "word_of_nat ?n :: u32"
  have n: "32 \<le> ?n" "?n \<le> 32000" "length exponent = 4" "0 < le_value modulus" using key by (simp_all add: rsa_key_def)
  have word: "unat (word_of_nat m :: u32) = m" if "m < 2 ^ 32" for m using that by (simp add: unat_of_nat)
  have k: "unat ?k = ?n" using n by (intro word) simp
  have k8: "unat (?k + 8) = ?n + 8" using word [of "?n + 8"] n by simp
  have k31: "unat (15 + 4 + 4 + ?k + 8) = 31 + ?n" using word [of "31 + ?n"] n by (simp add: add.commute)
  have u31: "(ucast (15 + 4 + 4 + ?k + 8) :: u16) = word_of_nat (31 + ?n)"
  proof -
    have "15 + 4 + 4 + ?k + 8 = word_of_nat (31 + ?n)" by simp
    moreover have "ucast (word_of_nat (31 + ?n) :: u32) = (word_of_nat (31 + ?n) :: u16)"
      by (rule bit_word_eqI) (simp add: bit_simps del: of_nat_add)
    ultimately show ?thesis by metis
  qed
  have mal: "\<exists>mem. malloc env i = Some mem \<and> length mem = i" for i using env(1) by (simp add: rsa_env_def)
  obtain m1 where m1: "malloc env 32 = Some m1" using mal by blast
  obtain m2 where m2: "malloc env (?n + 8) = Some m2" "length m2 = ?n + 8" using mal by blast
  obtain m3 where m3: "malloc env (31 + ?n) = Some m3" "length m3 = 31 + ?n" using mal by blast
  obtain i out where out: "crypto_rsa_common env bn nonce 32 ?k modulus exponent 4 (replicate (?n + 8) 0) = Some (i, out @ drop ?n (replicate (?n + 8) 0))"
    "length out = ?n" "le_value out = le_value nonce ^ le_value exponent mod le_value modulus"
    using crypto_rsa_common_ok [OF bn env(1) _ refl _ _ _ _ _ n(4) refl, of ?k 4 exponent 32 nonce "replicate (?n + 8) 0"] n r(1) k by auto
  let ?crypt = "out @ replicate 8 0"
  have crypt: "crypto_rsa_public_encrypt env bn nonce 32 ?k modulus exponent (replicate (?n + 8) 0) = Some (i, ?crypt)" "length ?crypt = ?n + 8"
    using out by (simp_all add: crypto_rsa_public_encrypt_def)
  let ?H = "rdp_header_bytes a (word_of_nat (31 + ?n)) MCS_GLOBAL_CHANNEL_ID"
  let ?sec = "le16 (ucast (SEC_EXCHANGE_PKT OR SEC_LICENSE_ENCRYPT_SC)) @ le16 0 @ le32 (?k + 8)"
  have H: "rdp_header_bytes ?rdp (padded_length ?rdp l) ch = rdp_header_bytes a l ch" for l ch
    using a(2) by (simp add: rdp_header_bytes_def padded_length_def)
  have w: "andthen (rdp_write_header ?rdp (Stream_New m3) (ucast (15 + 4 + 4 + ?k + 8)) MCS_GLOBAL_CHANNEL_ID) (\<lambda>_ s.
      andthen (rdp_write_security_header s (ucast (SEC_EXCHANGE_PKT OR SEC_LICENSE_ENCRYPT_SC))) (\<lambda>_ s.
      andthen (Stream_Write_UINT32 s (?k + 8)) (\<lambda>_ s.
      if length ?crypt < ?n + 8 then Overrun else Stream_Write s (take (?n + 8) ?crypt)))) =
      put (Stream_New m3) (?H @ ?sec @ ?crypt) ()"
    unfolding u31 crypt(2) rdp_write_header_put H
    using crypt(2) by (simp add: rdp_write_security_header_def wr_simps del: of_nat_add)
  have p: "put (Stream_New m3) (?H @ ?sec @ ?crypt) () = Ok () \<lparr>s_buffer = ?H @ ?sec @ ?crypt, s_pos = 31 + ?n, s_length = 31 + ?n\<rparr>"
    by (rule put_append [where A = "[]" and old = m3 and B = "[]"]) (use m3 out(2) in \<open>simp_all add: Stream_New_def\<close>)
  have pk: "?H @ ?sec @ ?crypt = exchange_packet a ?crypt"
  proof -
    have e1: "23 + length ?crypt = 31 + ?n" using crypt(2) by simp
    have e2: "word_of_nat (length ?crypt) = ?k + 8" unfolding crypt(2) by simp
    show ?thesis unfolding exchange_packet_def e1 e2 by (simp only: append_assoc)
  qed
  have est: "security_establish_keys c nonce (?rdp\<lparr>do_crypt_license := True\<rparr>) = Some (True, keys_of c nonce a')"
    unfolding a' using c r by (intro security_establish_keys_ok) simp_all
  have sizes: "key_sizes (keys_of c nonce a')" using c a(3) by (intro keys_of_sizes) (simp_all add: a')
  let ?K = "(keys_of c nonce a')\<lparr>do_crypt := True\<rparr>"
  have inst: "install_ciphers c (f ?K) = Some (True, installed (f ?K))"
    by (rule install_ciphers_ok [OF c]) (use sizes in \<open>simp add: f\<close>)
  let ?s = "\<lparr>s_buffer = ?H @ ?sec @ ?crypt, s_pos = 31 + ?n, s_length = 31 + ?n\<rparr>"
  have lw: "length (?H @ ?sec @ ?crypt) = 31 + ?n" using out(2) by simp
  have pkt: "packet (Stream_SealLength ?s) = exchange_packet a ?crypt"
    unfolding packet_SealLength pk [symmetric] by (simp only: packet_def wStream.select_convs take_all [OF eq_refl [OF lw]])
  have neg: "\<not> transport_write env x < 0" for x using env(2) by (simp add: not_less)
  have "rdp_client_establish_keys c bn env nonce (modulus, exponent) a = Some (True, [exchange_packet a ?crypt], installed (f ?K))"
    unfolding rdp_client_establish_keys_def Let_def prod.case if_not_P [OF not_not [THEN iffD2, OF a(1)]] m1 option.case k8 m2 crypt(1)
      bind.bind_lunit k31 m3(1) w p res.case pkt if_not_P [OF neg] est if_False not_True_eq_False inst [unfolded f]
    by (simp add: f)
  then show ?thesis using out by blast
qed

lemma server_establish_ok:
  assumes c: "crypto_ok c" and bn: "bn_ok bn" and env: "rsa_env env"
    and key: "rsa_key (RsaModulus (rdp_settings b)) exponent priv_exp"
    and r: "length nonce = 32" "32 \<le> length (ServerRandom (rdp_settings b))" "le_value nonce < le_value (RsaModulus (rdp_settings b))"
    and b: "UseRdpSecurityLayer (rdp_settings b)" "rc4_key_len b = 0" "ServerMode (rdp_settings b) \<noteq> ServerMode (rdp_settings a)"
    and out: "length out = length (RsaModulus (rdp_settings b))"
      "le_value out = le_value nonce ^ le_value exponent mod le_value (RsaModulus (rdp_settings b))"
    and b': "b' = b\<lparr>do_crypt_license := True\<rparr>"
  shows "\<exists>t. rdp_server_establish_keys c bn env priv_exp ch b (Stream_New (exchange_packet a (out @ replicate 8 0))) =
    Ok (True, installed ((keys_of c nonce b')\<lparr>do_crypt := True\<rparr>)) t"
proof -
  let ?mod = "RsaModulus (rdp_settings b)" and ?crypt = "out @ replicate 8 0"
  let ?n = "length ?mod"
  let ?k = "word_of_nat ?n :: u32"
  have n: "32 \<le> ?n" "?n \<le> 32000" "length priv_exp = ?n" "0 < le_value ?mod"
    "(le_value nonce ^ le_value exponent mod le_value ?mod) ^ le_value priv_exp mod le_value ?mod = le_value nonce"
    using key r(3) by (simp_all add: rsa_key_def)
  have word: "unat (word_of_nat m :: u32) = m" if "m < 2 ^ 32" for m using that by (simp add: unat_of_nat)
  have k: "unat ?k = ?n" "unat (?k + 8) = ?n + 8" using word [of ?n] word [of "?n + 8"] n by simp_all
  let ?s = "Stream_New (exchange_packet a ?crypt)"
  let ?body = "le16 513 @ le16 0 @ le32 (?k + 8) @ ?crypt"
  have e2: "word_of_nat (length ?crypt) = ?k + 8" using out(1) by simp
  have pk: "exchange_packet a ?crypt = rdp_header_bytes a (word_of_nat (15 + length ?body)) MCS_GLOBAL_CHANNEL_ID @ ?body"
  proof -
    have "23 + length ?crypt = 15 + length ?body" by simp
    then show ?thesis unfolding exchange_packet_def e2 by simp
  qed
  have 1: "rdp_read_header b ?s ch = Ok (word_of_nat (15 + length ?body) - 15, MCS_GLOBAL_CHANNEL_ID, b) (Stream_Seek ?s 15)"
    unfolding pk by (rule rdp_read_header_own [OF b(3) _ refl]) (use n out(1) in simp)
  have swf: "swf (Stream_Seek ?s i)" if "i \<le> 23" for i
    using that n out(1) by (intro swf_Stream_Seek) (simp_all add: pk)
  have av: "avail (Stream_Seek ?s 15) = ?body" "avail (Stream_Seek ?s 19) = le32 (?k + 8) @ ?crypt" "avail (Stream_Seek ?s 23) = ?crypt"
    by (simp_all add: pk)
  have 2: "rdp_read_security_header (Stream_Seek ?s 15) = Ok 513 (Stream_Seek ?s 19)"
    using swf [of 15] av(1) read_known(4) [of "Stream_Seek ?s 15" 513] by (simp add: rdp_read_security_header_def)
  have 3: "Stream_Read_UINT32 (Stream_Seek ?s 19) = Ok (?k + 8) (Stream_Seek ?s 23)"
    using av(2) by (simp add: read_known)
  have rem: "\<not> Stream_GetRemainingLength (Stream_Seek ?s 19) < 4" "\<not> Stream_GetRemainingLength (Stream_Seek ?s 23) < ?n + 8"
    using swf [of 19] swf [of 23] av out(1) by simp_all
  have 4: "Stream_Read (Stream_Seek ?s 23) (?n + 8) = Ok ?crypt (Stream_Seek ?s (31 + ?n))"
    using av(3) out(1) by (simp add: Stream_Read_def)
  have mal: "\<exists>mem. malloc env i = Some mem \<and> length mem = i" for i using env by (simp add: rsa_env_def)
  obtain m1 where m1: "malloc env ?n = Some m1" "length m1 = ?n" using mal by blast
  obtain m2 where m2: "malloc env (?n + 8) = Some m2" using mal by blast
  obtain i out2 where o2: "crypto_rsa_common env bn ?crypt ?n ?k ?mod priv_exp ?n m1 = Some (i, out2 @ drop ?n m1)"
    "length out2 = ?n" "le_value out2 = le_value (take ?n ?crypt) ^ le_value (take ?n priv_exp) mod le_value ?mod"
    using crypto_rsa_common_ok [OF bn env _ refl _ _ _ _ _ n(4) refl, of ?k ?n priv_exp ?n ?crypt m1] n k(1) out(1) m1(2) by auto
  have "le_value out2 = le_value (nonce @ replicate (?n - 32) 0)" using o2(3) out n(3,5) by simp
  then have o3: "out2 = nonce @ replicate (?n - 32) 0" by (rule le_value_inj [rotated]) (use o2(2) r(1) n(1) in simp)
  have dec: "crypto_rsa_private_decrypt env bn ?crypt ?n ?k ?mod priv_exp m1 = Some (i, nonce @ replicate (?n - 32) 0)"
    using o2(1) o3 m1(2) k(1) by (simp add: crypto_rsa_private_decrypt_def)
  have est: "security_establish_keys c (nonce @ replicate (?n - 32) 0) b' = Some (True, keys_of c nonce b')"
    using security_establish_keys_ok [OF c, of "nonce @ replicate (?n - 32) 0" b'] r keys_of_take [of nonce c _ b'] by (simp add: b')
  have sizes: "key_sizes ((keys_of c nonce b')\<lparr>do_crypt := True\<rparr>)" using c b(2) keys_of_sizes [of c b' nonce] by (simp add: b')
  have sb: "rdp_settings b' = rdp_settings b" by (simp add: b')
  have k8: "?k + 8 - 8 = ?k" by simp
  have fl: "(513 :: u16) AND ucast SEC_EXCHANGE_PKT \<noteq> 0" "((513 :: u16) AND ucast SEC_LICENSE_ENCRYPT_SC \<noteq> 0) = True" by simp_all
  show ?thesis
    unfolding rdp_server_establish_keys_def if_not_P [OF not_not [THEN iffD2, OF b(1)]] 1 2 failing.simps prod.case if_not_P [OF fl(1)] fl(2)
      Let_def if_not_P [OF rem(1)] 3 andthen.simps k if_not_P [OF rem(2)] b' [symmetric] sb m1(1) option.case m2 4 k8
    using dec est install_ciphers_ok [OF c sizes] by simp
qed

definition keyless :: "rdpRdp \<Rightarrow> rdpRdp \<Rightarrow> bool" where
  \<comment> \<open>A client and a server after the connect phase: they agree on method and random.\<close>
  "keyless a b \<longleftrightarrow> \<not> ServerMode (rdp_settings a) \<and> ServerMode (rdp_settings b) \<and>
     UseRdpSecurityLayer (rdp_settings a) \<and> UseRdpSecurityLayer (rdp_settings b) \<and> ENC_METHOD a = ENC_METHOD b \<and>
     ServerRandom (rdp_settings a) = ServerRandom (rdp_settings b) \<and> 32 \<le> length (ServerRandom (rdp_settings b)) \<and>
     sec_flags a = 0 \<and> sec_flags b = 0 \<and> rc4_key_len a = 0 \<and> rc4_key_len b = 0 \<and>
     \<not> freerdp_shall_disconnect a \<and> \<not> freerdp_shall_disconnect b"

text \<open>C3: the exchange of the client random. A client that has the server's certificate sends one packet;
  the server that receives it decrypts the random with its private key, and both routines return TRUE
  with the peers in a session: what either sends from then on, the other one can decrypt.\<close>

theorem rdp_key_exchange:
  assumes "crypto_ok c" "cbc_ok c" "\<And>k d. length (hmac_sha1 c k d) = 20" "bn_ok bn"
    and "rsa_env env" "\<And>w. 0 \<le> transport_write env w" "rsa_env env'"
    and "rsa_key (RsaModulus (rdp_settings b)) exponent priv_exp"
    and "length nonce = 32" "le_value nonce < le_value (RsaModulus (rdp_settings b))" "keyless a b"
  shows "\<exists>w a' b' t. rdp_client_establish_keys c bn env nonce (RsaModulus (rdp_settings b), exponent) a = Some (True, [w], a') \<and>
    rdp_server_establish_keys c bn env' priv_exp ch b (Stream_New w) = Ok (True, b') t \<and> in_session c a' b'"
proof -
  let ?a = "a\<lparr>rdp_settings := (rdp_settings a)\<lparr>ClientRandom := nonce\<rparr>, do_crypt_license := True\<rparr>" and ?b = "b\<lparr>do_crypt_license := True\<rparr>"
  let ?f = "\<lambda>rdp :: rdpRdp. if SaltedChecksum (rdp_settings rdp) then rdp\<lparr>do_secure_checksum := True\<rparr> else rdp"
  let ?A = "?f ((keys_of c nonce ?a)\<lparr>do_crypt := True\<rparr>)" and ?B = "(keys_of c nonce ?b)\<lparr>do_crypt := True\<rparr>"
  obtain out where out: "length out = length (RsaModulus (rdp_settings b))"
    "le_value out = le_value nonce ^ le_value exponent mod le_value (RsaModulus (rdp_settings b))"
    "rdp_client_establish_keys c bn env nonce (RsaModulus (rdp_settings b), exponent) a =
      Some (True, [exchange_packet a (out @ replicate 8 0)], installed ?A)"
    using client_establish_ok [OF assms(1,4-6,8,9) _ _ _ _ refl refl, of a] assms(11) unfolding keyless_def by auto
  obtain t where t: "rdp_server_establish_keys c bn env' priv_exp ch b (Stream_New (exchange_packet a (out @ replicate 8 0))) =
      Ok (True, installed ?B) t"
    using server_establish_ok [OF assms(1,4,7,8,9) _ assms(10) _ _ _ out(1,2) refl, of a ch] assms(11) unfolding keyless_def by auto
  have m: "mirrored (keys_of c nonce ?a) (keys_of c nonce ?b)" "mirrored (keys_of c nonce ?b) (keys_of c nonce ?a)"
    using assms(11) unfolding keyless_def by (intro keys_of_mirrored; simp)+
  have k: "key_sizes (keys_of c nonce ?a)" "key_sizes (keys_of c nonce ?b)"
    using assms(1,11) unfolding keyless_def by (intro keys_of_sizes; simp)+
  have "in_session c (installed ?A) (installed ?B)"
    by (rule installed_in_session [OF assms(1-3)]) (use m k assms(11) in \<open>simp_all add: keyless_def\<close>)
  then show ?thesis using out(3) t by blast
qed

lemma le_value_append: "le_value (as @ bs) = le_value as + 256 ^ length as * le_value bs"
  by (induction as) (simp_all add: algebra_simps)

fun be_bytes :: "nat \<Rightarrow> bytes" where
  "be_bytes n = (if n = 0 then [] else be_bytes (n div 256) @ [word_of_nat (n mod 256)])"

declare be_bytes.simps [simp del]

definition plain_bn :: bignum where
  "plain_bn = \<lparr>BN_bin2bn = (\<lambda>bs. le_value (rev bs)), BN_bn2bin = be_bytes, BN_mod_exp = (\<lambda>x e m. x ^ e mod m)\<rparr>"

lemma be_bytes_value: "le_value (rev (be_bytes n)) = n"
proof (induction n rule: be_bytes.induct)
  case (1 n)
  have "unat (word_of_nat (n mod 256) :: u8) = n mod 256" by (simp add: unat_of_nat)
  with 1 show ?case by (subst be_bytes.simps) simp
qed

lemma be_bytes_length: "n < 256 ^ k \<Longrightarrow> length (be_bytes n) \<le> k"
proof (induction k arbitrary: n)
  case (Suc k)
  then have "n div 256 < 256 ^ k" by (simp add: less_mult_imp_div_less mult.commute)
  from Suc.IH [OF this] show ?case by (subst be_bytes.simps) simp
qed (simp add: be_bytes.simps)

lemma plain_bn_ok: "bn_ok plain_bn"
  by (simp add: bn_ok_def plain_bn_def be_bytes_value be_bytes_length)

lemma good_env_rsa: "rsa_env good_env"
  by (simp add: rsa_env_def good_env_def)

abbreviation (input) exchange_server :: rdpRdp where
  "exchange_server \<equiv> rdp_new ((peer_settings True ENCRYPTION_METHOD_128BIT (replicate 32 7))\<lparr>RsaModulus := replicate 40 0xFF\<rparr>) False"

theorem rdp_key_exchange_witness:
  "\<exists>w a' b' t. rdp_client_establish_keys plain_crypto plain_bn good_env (replicate 32 5) (replicate 40 0xFF, [1, 0, 0, 0])
      (rdp_new (peer_settings False ENCRYPTION_METHOD_128BIT (replicate 32 7)) True) = Some (True, [w], a') \<and>
    rdp_server_establish_keys plain_crypto plain_bn good_env (1 # replicate 39 0) 0 exchange_server (Stream_New w) = Ok (True, b') t \<and>
    in_session plain_crypto a' b'"
proof -
  have m: "RsaModulus (rdp_settings exchange_server) = replicate 40 0xFF" by (simp add: rdp_new_def)
  have one: "le_value [1, 0, 0, 0] = 1" "le_value (1 # replicate 39 0) = 1"
    using le_value_zeros [of "[1]" 39] by (simp_all add: numeral_eq_Suc)
  have big: "le_value (replicate 32 5) < le_value (replicate 40 0xFF)"
  proof -
    have "replicate 40 (0xFF :: u8) = replicate 32 0xFF @ replicate 8 0xFF" by (simp flip: replicate_add)
    then have "le_value (replicate 40 0xFF) = le_value (replicate 32 0xFF) + 256 ^ 32 * le_value (replicate (Suc 7) 0xFF)"
      by (simp add: le_value_append)
    moreover have "0 < le_value (replicate (Suc 7) 0xFF)" by (simp only: replicate_Suc le_value.simps) simp
    ultimately have "256 ^ 32 \<le> le_value (replicate 40 0xFF)" by simp
    with le_value_bound [of "replicate 32 5"] show ?thesis by simp
  qed
  have key: "rsa_key (replicate 40 0xFF) [1, 0, 0, 0] (1 # replicate 39 0)"
    unfolding rsa_key_def one using big by simp
  show ?thesis
    using rdp_key_exchange [of plain_crypto plain_bn good_env good_env exchange_server "[1, 0, 0, 0]" "1 # replicate 39 0" "replicate 32 5"
        "rdp_new (peer_settings False ENCRYPTION_METHOD_128BIT (replicate 32 7)) True" 0, unfolded m]
      plain_crypto_ok plain_cbc_ok plain_bn_ok good_env_rsa key big
    by (simp add: keyless_def rdp_new_def freerdp_shall_disconnect_def)
qed

text \<open>C16: the modulus of the client random's encryption comes from the server's certificate and its length
  is not checked. With a modulus of fewer than 14 bytes the 32 bytes of the random do not fit the block
  that \<open>crypto_rsa_common\<close> allocates, and the client writes past its end.\<close>

theorem rdp_client_establish_keys_short_modulus:
  assumes "UseRdpSecurityLayer (rdp_settings a)" "rsa_env env" "length modulus < 14" "length exponent = 4" "length nonce = 32"
  shows "rdp_client_establish_keys c bn env nonce (modulus, exponent) a = None"
proof -
  let ?k = "word_of_nat (length modulus) :: u32"
  have mal: "\<exists>mem. malloc env i = Some mem \<and> length mem = i" for i using assms(2) by (simp add: rsa_env_def)
  obtain m1 m2 where m: "malloc env 32 = Some m1" "malloc env (unat (?k + 8)) = Some m2" using mal by meson
  obtain m3 where m3: "malloc env (unat (2 * ?k + 4)) = Some m3" "length m3 = unat (2 * ?k + 4)" using mal by blast
  have "2 * ?k + 4 = word_of_nat (2 * length modulus + 4)" by simp
  moreover have "unat (word_of_nat (2 * length modulus + 4) :: u32) = 2 * length modulus + 4"
    using assms(3) by (simp add: unat_of_nat del: of_nat_add of_nat_mult)
  ultimately have "length m3 < 32" using m3(2) assms(3) by simp
  moreover have "unat ?k = length modulus" using assms(3) by (simp add: unat_of_nat)
  ultimately have "crypto_rsa_public_encrypt env bn nonce 32 ?k modulus exponent (replicate (length m2) 0) = None"
    using assms(4,5) m3(1) by (simp add: crypto_rsa_public_encrypt_def crypto_rsa_common_def Let_def)
  then show ?thesis using assms(1) m by (simp add: rdp_client_establish_keys_def Let_def)
qed

theorem rdp_client_establish_keys_short_modulus_witness:
  "rdp_client_establish_keys plain_crypto plain_bn good_env (replicate 32 5) ([7], [1, 0, 0, 0])
      (rdp_new (peer_settings False ENCRYPTION_METHOD_128BIT (replicate 32 7)) True) = None"
  by (rule rdp_client_establish_keys_short_modulus) (simp_all add: rdp_new_def good_env_rsa)

end
