(* ===== verification/Activation.thy ===== *)
theory Activation
  imports Key_Exchange
begin

text \<open>
  The activation sequence (libfreerdp/core/activation.c) and the data PDUs of a session
  (\<open>rdp_recv_data_pdu\<close> and the routines it calls, libfreerdp/core/rdp.c), on both sides.

  A send routine returns its BOOL with the state, in which \<open>rdp_events\<close> has the packet; None is a crash. The
  parts of the program that are not modelled are fields of \<open>handlers\<close>: they read the stream and the
  state, and change neither the modelled fields of the connection nor the memory of the stream.
\<close>

abbreviation (input) SYNCMSGTYPE_SYNC :: u16 where "SYNCMSGTYPE_SYNC \<equiv> 1"
abbreviation (input) CTRLACTION_REQUEST_CONTROL :: u16 where "CTRLACTION_REQUEST_CONTROL \<equiv> 1"
abbreviation (input) CTRLACTION_GRANTED_CONTROL :: u16 where "CTRLACTION_GRANTED_CONTROL \<equiv> 2"
abbreviation (input) CTRLACTION_COOPERATE :: u16 where "CTRLACTION_COOPERATE \<equiv> 4"
abbreviation (input) FINALIZE_SC_SYNCHRONIZE_PDU :: u32 where "FINALIZE_SC_SYNCHRONIZE_PDU \<equiv> 1"
abbreviation (input) FINALIZE_SC_CONTROL_COOPERATE_PDU :: u32 where "FINALIZE_SC_CONTROL_COOPERATE_PDU \<equiv> 2"
abbreviation (input) FINALIZE_SC_CONTROL_GRANTED_PDU :: u32 where "FINALIZE_SC_CONTROL_GRANTED_PDU \<equiv> 4"
abbreviation (input) FINALIZE_SC_FONT_MAP_PDU :: u32 where "FINALIZE_SC_FONT_MAP_PDU \<equiv> 8"
abbreviation (input) FINALIZE_SC_COMPLETE :: u32 where "FINALIZE_SC_COMPLETE \<equiv> 0xF"
abbreviation (input) FONTLIST_FIRST :: u16 where "FONTLIST_FIRST \<equiv> 1"
abbreviation (input) FONTLIST_LAST :: u16 where "FONTLIST_LAST \<equiv> 2"
abbreviation (input) DATA_PDU_TYPE_UPDATE :: u8 where "DATA_PDU_TYPE_UPDATE \<equiv> 0x02"
abbreviation (input) DATA_PDU_TYPE_CONTROL :: u8 where "DATA_PDU_TYPE_CONTROL \<equiv> 0x14"
abbreviation (input) DATA_PDU_TYPE_POINTER :: u8 where "DATA_PDU_TYPE_POINTER \<equiv> 0x1B"
abbreviation (input) DATA_PDU_TYPE_SYNCHRONIZE :: u8 where "DATA_PDU_TYPE_SYNCHRONIZE \<equiv> 0x1F"
abbreviation (input) DATA_PDU_TYPE_PLAY_SOUND :: u8 where "DATA_PDU_TYPE_PLAY_SOUND \<equiv> 0x22"
abbreviation (input) DATA_PDU_TYPE_SHUTDOWN_DENIED :: u8 where "DATA_PDU_TYPE_SHUTDOWN_DENIED \<equiv> 0x25"
abbreviation (input) DATA_PDU_TYPE_SAVE_SESSION_INFO :: u8 where "DATA_PDU_TYPE_SAVE_SESSION_INFO \<equiv> 0x26"
abbreviation (input) DATA_PDU_TYPE_FONT_LIST :: u8 where "DATA_PDU_TYPE_FONT_LIST \<equiv> 0x27"
abbreviation (input) DATA_PDU_TYPE_FONT_MAP :: u8 where "DATA_PDU_TYPE_FONT_MAP \<equiv> 0x28"
abbreviation (input) DATA_PDU_TYPE_SET_KEYBOARD_INDICATORS :: u8 where "DATA_PDU_TYPE_SET_KEYBOARD_INDICATORS \<equiv> 0x29"
abbreviation (input) DATA_PDU_TYPE_BITMAP_CACHE_PERSISTENT_LIST :: u8 where "DATA_PDU_TYPE_BITMAP_CACHE_PERSISTENT_LIST \<equiv> 0x2B"
abbreviation (input) DATA_PDU_TYPE_SET_KEYBOARD_IME_STATUS :: u8 where "DATA_PDU_TYPE_SET_KEYBOARD_IME_STATUS \<equiv> 0x2D"
abbreviation (input) DATA_PDU_TYPE_SET_ERROR_INFO :: u8 where "DATA_PDU_TYPE_SET_ERROR_INFO \<equiv> 0x2F"
abbreviation (input) DATA_PDU_TYPE_ARC_STATUS :: u8 where "DATA_PDU_TYPE_ARC_STATUS \<equiv> 0x32"
abbreviation (input) DATA_PDU_TYPE_STATUS_INFO :: u8 where "DATA_PDU_TYPE_STATUS_INFO \<equiv> 0x36"
abbreviation (input) DATA_PDU_TYPE_MONITOR_LAYOUT :: u8 where "DATA_PDU_TYPE_MONITOR_LAYOUT \<equiv> 0x37"
abbreviation (input) PACKET_COMPRESSED :: u8 where "PACKET_COMPRESSED \<equiv> 0x20"

subsection \<open>Sending data PDUs\<close>

record session_env =
  s_crypto :: crypto
  s_write :: "bytes \<Rightarrow> int"
  s_pool :: "bytes option"
  s_new :: "nat \<Rightarrow> bytes option"

text \<open>\<open>s_write\<close> is \<open>transport_write\<close>, \<open>s_pool\<close> the memory of the stream \<open>transport_send_stream_init\<close> takes from its
  pool, 2048 bytes at least, \<open>s_new\<close> is \<open>malloc\<close>.\<close>

definition sending :: "(bool \<times> bytes list \<times> rdpRdp) res \<Rightarrow> (bool \<times> rdpRdp) option" where
  \<comment> \<open>The packets a send routine has handed over become events.\<close>
  "sending r =
     (case r of
        Ok (ok, ws, rdp) _ \<Rightarrow> Some (ok, rdp\<lparr>rdp_events := map Sent (rev ws) @ rdp_events rdp\<rparr>)
      | _ \<Rightarrow> None)"

definition send_data_pdu :: "session_env \<Rightarrow> rdpRdp \<Rightarrow> (wStream \<Rightarrow> unit res) \<Rightarrow> u8 \<Rightarrow> (bool \<times> rdpRdp) option" where
  \<comment> \<open>The frame of the send routines: \<open>rdp_data_pdu_init\<close>, whose result is used without a check, the writes, and
    \<open>rdp_send_data_pdu\<close> with the user id as the channel.\<close>
  "send_data_pdu env rdp write type =
     (case rdp_data_pdu_init rdp (map_option Stream_New (s_pool env)) of
        (_, None) \<Rightarrow> None
      | (rdp, Some s) \<Rightarrow>
          sending (andthen (write s) (\<lambda>_ s.
            rdp_send_data_pdu (s_crypto env) (s_write env) rdp s type (userId (rdp_mcs rdp)))))"

definition rdp_write_synchronize_pdu :: "wStream \<Rightarrow> secSettings \<Rightarrow> unit res" where
  "rdp_write_synchronize_pdu s settings =
     andthen (Stream_Write_UINT16 s SYNCMSGTYPE_SYNC) (\<lambda>_ s. Stream_Write_UINT16 s (ucast (PduSource settings)))"

definition rdp_send_server_synchronize_pdu :: "session_env \<Rightarrow> rdpRdp \<Rightarrow> (bool \<times> rdpRdp) option" where
  "rdp_send_server_synchronize_pdu env rdp =
     send_data_pdu env rdp (\<lambda>s. rdp_write_synchronize_pdu s (rdp_settings rdp)) DATA_PDU_TYPE_SYNCHRONIZE"

definition rdp_send_client_synchronize_pdu :: "session_env \<Rightarrow> rdpRdp \<Rightarrow> (bool \<times> rdpRdp) option" where
  "rdp_send_client_synchronize_pdu env rdp =
     send_data_pdu env rdp (\<lambda>s. rdp_write_synchronize_pdu s (rdp_settings rdp)) DATA_PDU_TYPE_SYNCHRONIZE"

definition rdp_write_client_control_pdu :: "wStream \<Rightarrow> u16 \<Rightarrow> unit res" where
  "rdp_write_client_control_pdu s action =
     andthen (Stream_Write_UINT16 s action) (\<lambda>_ s.
     andthen (Stream_Write_UINT16 s 0) (\<lambda>_ s. Stream_Write_UINT32 s 0))"

definition rdp_send_server_control_cooperate_pdu :: "session_env \<Rightarrow> rdpRdp \<Rightarrow> (bool \<times> rdpRdp) option" where
  "rdp_send_server_control_cooperate_pdu env rdp =
     send_data_pdu env rdp (\<lambda>s.
       andthen (Stream_Write_UINT16 s CTRLACTION_COOPERATE) (\<lambda>_ s.
       andthen (Stream_Write_UINT16 s 0) (\<lambda>_ s. Stream_Write_UINT32 s 0))) DATA_PDU_TYPE_CONTROL"

definition rdp_send_server_control_granted_pdu :: "session_env \<Rightarrow> rdpRdp \<Rightarrow> (bool \<times> rdpRdp) option" where
  "rdp_send_server_control_granted_pdu env rdp =
     send_data_pdu env rdp (\<lambda>s.
       andthen (Stream_Write_UINT16 s CTRLACTION_GRANTED_CONTROL) (\<lambda>_ s.
       andthen (Stream_Write_UINT16 s (userId (rdp_mcs rdp))) (\<lambda>_ s. Stream_Write_UINT32 s 0x03EA))) DATA_PDU_TYPE_CONTROL"

definition rdp_send_client_control_pdu :: "session_env \<Rightarrow> rdpRdp \<Rightarrow> u16 \<Rightarrow> (bool \<times> rdpRdp) option" where
  "rdp_send_client_control_pdu env rdp action =
     send_data_pdu env rdp (\<lambda>s. rdp_write_client_control_pdu s action) DATA_PDU_TYPE_CONTROL"

definition rdp_write_persistent_list_entry :: "wStream \<Rightarrow> u32 \<Rightarrow> u32 \<Rightarrow> unit res" where
  "rdp_write_persistent_list_entry s key1 key2 =
     andthen (Stream_Write_UINT32 s key1) (\<lambda>_ s. Stream_Write_UINT32 s key2)"

definition rdp_write_client_persistent_key_list_pdu :: "wStream \<Rightarrow> unit res" where
  "rdp_write_client_persistent_key_list_pdu s =
     andthen (Stream_Write_UINT16 s 0) (\<lambda>_ s.
     andthen (Stream_Write_UINT16 s 0) (\<lambda>_ s.
     andthen (Stream_Write_UINT16 s 0) (\<lambda>_ s.
     andthen (Stream_Write_UINT16 s 0) (\<lambda>_ s.
     andthen (Stream_Write_UINT16 s 0) (\<lambda>_ s.
     andthen (Stream_Write_UINT16 s 0) (\<lambda>_ s.
     andthen (Stream_Write_UINT16 s 0) (\<lambda>_ s.
     andthen (Stream_Write_UINT16 s 0) (\<lambda>_ s.
     andthen (Stream_Write_UINT16 s 0) (\<lambda>_ s.
     andthen (Stream_Write_UINT16 s 0) (\<lambda>_ s.
     andthen (Stream_Write_UINT8 s (0x01 OR 0x02)) (\<lambda>_ s.
     andthen (Stream_Write_UINT8 s 0) (\<lambda>_ s.
     Stream_Write_UINT16 s 0))))))))))))"

definition rdp_send_client_persistent_key_list_pdu :: "session_env \<Rightarrow> rdpRdp \<Rightarrow> (bool \<times> rdpRdp) option" where
  "rdp_send_client_persistent_key_list_pdu env rdp =
     send_data_pdu env rdp rdp_write_client_persistent_key_list_pdu DATA_PDU_TYPE_BITMAP_CACHE_PERSISTENT_LIST"

definition rdp_write_client_font_list_pdu :: "wStream \<Rightarrow> u16 \<Rightarrow> unit res" where
  "rdp_write_client_font_list_pdu s fl =
     andthen (Stream_Write_UINT16 s 0) (\<lambda>_ s.
     andthen (Stream_Write_UINT16 s 0) (\<lambda>_ s.
     andthen (Stream_Write_UINT16 s fl) (\<lambda>_ s. Stream_Write_UINT16 s 50)))"

definition rdp_send_client_font_list_pdu :: "session_env \<Rightarrow> rdpRdp \<Rightarrow> u16 \<Rightarrow> (bool \<times> rdpRdp) option" where
  "rdp_send_client_font_list_pdu env rdp fl =
     send_data_pdu env rdp (\<lambda>s. rdp_write_client_font_list_pdu s fl) DATA_PDU_TYPE_FONT_LIST"

definition rdp_send_server_font_map_pdu :: "session_env \<Rightarrow> rdpRdp \<Rightarrow> (bool \<times> rdpRdp) option" where
  "rdp_send_server_font_map_pdu env rdp =
     send_data_pdu env rdp (\<lambda>s.
       andthen (Stream_Write_UINT16 s 0) (\<lambda>_ s.
       andthen (Stream_Write_UINT16 s 0) (\<lambda>_ s.
       andthen (Stream_Write_UINT16 s (FONTLIST_FIRST OR FONTLIST_LAST)) (\<lambda>_ s. Stream_Write_UINT16 s 4)))) DATA_PDU_TYPE_FONT_MAP"

definition rdp_send_deactivate_all :: "session_env \<Rightarrow> rdpRdp \<Rightarrow> (bool \<times> rdpRdp) option" where
  "rdp_send_deactivate_all env rdp =
     (case s_new env 1024 of None \<Rightarrow> Some (False, rdp)
      | Some mem \<Rightarrow>
          (case rdp_init_stream_pdu rdp (Stream_New mem) of (rdp, s) \<Rightarrow>
             sending
               (andthen (Stream_Write_UINT32 s (ShareId (rdp_settings rdp))) (\<lambda>_ s.
                andthen (Stream_Write_UINT16 s 1) (\<lambda>_ s.
                andthen (Stream_Write_UINT8 s 0) (\<lambda>_ s.
                rdp_send_pdu (s_crypto env) (s_write env) rdp s PDU_TYPE_DEACTIVATE_ALL (userId (rdp_mcs rdp))))))))"

subsection \<open>Receiving\<close>

definition rdp_recv_server_synchronize_pdu :: "rdpRdp \<Rightarrow> wStream \<Rightarrow> (bool \<times> rdpRdp) res" where
  "rdp_recv_server_synchronize_pdu rdp s =
     Ok (True, rdp\<lparr>finalize_sc_pdus := finalize_sc_pdus rdp OR FINALIZE_SC_SYNCHRONIZE_PDU\<rparr>) s"

definition rdp_recv_client_synchronize_pdu :: "rdpRdp \<Rightarrow> wStream \<Rightarrow> (bool \<times> rdpRdp) res" where
  "rdp_recv_client_synchronize_pdu rdp s =
     (let rdp = rdp\<lparr>finalize_sc_pdus := finalize_sc_pdus rdp OR FINALIZE_SC_SYNCHRONIZE_PDU\<rparr>
      in if Stream_GetRemainingLength s < 4 then Ok (False, rdp) s
         else
           andthen (Stream_Read_UINT16 s) (\<lambda>messageType s.
             if messageType \<noteq> SYNCMSGTYPE_SYNC then Ok (False, rdp) s else Ok (True, rdp) (Stream_Seek s 2)))"

definition rdp_recv_synchronize_pdu :: "rdpRdp \<Rightarrow> wStream \<Rightarrow> (bool \<times> rdpRdp) res" where
  "rdp_recv_synchronize_pdu rdp s =
     (if ServerMode (rdp_settings rdp) then rdp_recv_server_synchronize_pdu rdp s
      else rdp_recv_client_synchronize_pdu rdp s)"

definition rdp_recv_control_pdu :: "wStream \<Rightarrow> u16 res" where
  "rdp_recv_control_pdu s =
     (if Stream_GetRemainingLength s < 8 then Fail s
      else andthen (Stream_Read_UINT16 s) (\<lambda>action s. Ok action (Stream_Seek (Stream_Seek s 2) 4)))"

definition rdp_recv_server_control_pdu :: "rdpRdp \<Rightarrow> wStream \<Rightarrow> (bool \<times> rdpRdp) res" where
  "rdp_recv_server_control_pdu rdp s =
     failing (rdp_recv_control_pdu s) (False, rdp) (\<lambda>action s.
       Ok (True,
         if action = CTRLACTION_COOPERATE
         then rdp\<lparr>finalize_sc_pdus := finalize_sc_pdus rdp OR FINALIZE_SC_CONTROL_COOPERATE_PDU\<rparr>
         else if action = CTRLACTION_GRANTED_CONTROL
         then rdp\<lparr>finalize_sc_pdus := finalize_sc_pdus rdp OR FINALIZE_SC_CONTROL_GRANTED_PDU, resendFocus := True\<rparr>
         else rdp) s)"

definition rdp_recv_client_font_list_pdu :: "wStream \<Rightarrow> unit res" where
  "rdp_recv_client_font_list_pdu s = (if Stream_GetRemainingLength s < 8 then Fail s else Ok () s)"

definition rdp_recv_server_font_map_pdu :: "rdpRdp \<Rightarrow> wStream \<Rightarrow> (bool \<times> rdpRdp) res" where
  "rdp_recv_server_font_map_pdu rdp s =
     Ok (True, rdp\<lparr>finalize_sc_pdus := finalize_sc_pdus rdp OR FINALIZE_SC_FONT_MAP_PDU\<rparr>) s"

definition rdp_recv_client_font_map_pdu :: "rdpRdp \<Rightarrow> wStream \<Rightarrow> (bool \<times> rdpRdp) res" where
  "rdp_recv_client_font_map_pdu rdp s =
     Ok (True, rdp\<lparr>finalize_sc_pdus := finalize_sc_pdus rdp OR FINALIZE_SC_FONT_MAP_PDU\<rparr>)
       (if Stream_GetRemainingLength s \<ge> 8 then Stream_Seek s 8 else s)"

definition rdp_recv_font_map_pdu :: "rdpRdp \<Rightarrow> wStream \<Rightarrow> (bool \<times> rdpRdp) res" where
  "rdp_recv_font_map_pdu rdp s =
     (if ServerMode (rdp_settings rdp) then rdp_recv_server_font_map_pdu rdp s
      else rdp_recv_client_font_map_pdu rdp s)"

definition rdp_recv_server_shutdown_denied_pdu :: "wStream \<Rightarrow> unit res" where
  "rdp_recv_server_shutdown_denied_pdu s = Ok () s"

definition rdp_recv_server_set_keyboard_indicators_pdu :: "rdpRdp \<Rightarrow> wStream \<Rightarrow> (bool \<times> rdpRdp) res" where
  \<comment> \<open>\<open>rdp->instance->context\<close> is followed first. The callback is told the flags.\<close>
  "rdp_recv_server_set_keyboard_indicators_pdu rdp s =
     (if \<not> has_instance rdp then Overrun
      else if Stream_GetRemainingLength s < 4 then Ok (False, rdp) s
      else
        andthen (Stream_Read_UINT16 s) (\<lambda>_ s.
        andthen (Stream_Read_UINT16 s) (\<lambda>ledFlags s.
          Ok (True, rdp\<lparr>rdp_events := SetKeyboardIndicators ledFlags # rdp_events rdp\<rparr>) s)))"

definition rdp_recv_server_set_keyboard_ime_status_pdu :: "wStream \<Rightarrow> unit res" where
  "rdp_recv_server_set_keyboard_ime_status_pdu s =
     (if Stream_GetRemainingLength s < 10 then Fail s
      else
        andthen (Stream_Read_UINT16 s) (\<lambda>_ s.
        andthen (Stream_Read_UINT32 s) (\<lambda>_ s.
        andthen (Stream_Read_UINT32 s) (\<lambda>_ s. Ok () s))))"

definition rdp_recv_set_error_info_data_pdu :: "rdpRdp \<Rightarrow> wStream \<Rightarrow> (bool \<times> rdpRdp) res" where
  "rdp_recv_set_error_info_data_pdu rdp s =
     (if Stream_GetRemainingLength s < 4 then Ok (False, rdp) s
      else
        andthen (Stream_Read_UINT32 s) (\<lambda>info s.
          case rdp_set_error_info rdp info of None \<Rightarrow> Overrun | Some rdp \<Rightarrow> Ok (True, rdp) s))"

definition rdp_recv_server_auto_reconnect_status_pdu :: "wStream \<Rightarrow> unit res" where
  "rdp_recv_server_auto_reconnect_status_pdu s =
     (if Stream_GetRemainingLength s < 4 then Fail s else andthen (Stream_Read_UINT32 s) (\<lambda>_ s. Ok () s))"

definition rdp_recv_server_status_info_pdu :: "wStream \<Rightarrow> unit res" where
  "rdp_recv_server_status_info_pdu s =
     (if Stream_GetRemainingLength s < 4 then Fail s else andthen (Stream_Read_UINT32 s) (\<lambda>_ s. Ok () s))"

record MONITOR_DEF =
  md_left :: u32
  md_top :: u32
  md_right :: u32
  md_bottom :: u32
  md_flags :: u32

fun read_monitor_layout :: "nat \<Rightarrow> wStream \<Rightarrow> MONITOR_DEF list res" where
  \<comment> \<open>The loop of \<open>rdp_recv_monitor_layout_pdu\<close>, with the array it fills.\<close>
  "read_monitor_layout 0 s = Ok [] s"
| "read_monitor_layout (Suc n) s =
     andthen (Stream_Read_UINT32 s) (\<lambda>l s.
     andthen (Stream_Read_UINT32 s) (\<lambda>t s.
     andthen (Stream_Read_UINT32 s) (\<lambda>r s.
     andthen (Stream_Read_UINT32 s) (\<lambda>b s.
     andthen (Stream_Read_UINT32 s) (\<lambda>f s.
     andthen (read_monitor_layout n s) (\<lambda>ms s.
       Ok (\<lparr>md_left = l, md_top = t, md_right = r, md_bottom = b, md_flags = f\<rparr> # ms) s))))))"

definition rdp_recv_monitor_layout_pdu :: "(nat \<Rightarrow> bool) \<Rightarrow> wStream \<Rightarrow> unit res" where
  \<comment> \<open>The product is taken in 32 bits. The first argument: whether \<open>calloc\<close> finds room for so many monitors. The
    array is released at once.\<close>
  "rdp_recv_monitor_layout_pdu calloc_ok s =
     (if Stream_GetRemainingLength s < 4 then Fail s
      else
        andthen (Stream_Read_UINT32 s) (\<lambda>monitorCount s.
          if Stream_GetRemainingLength s < unat (monitorCount * 20) then Fail s
          else if \<not> calloc_ok (unat monitorCount) then Fail s
          else andthen (read_monitor_layout (unat monitorCount) s) (\<lambda>_ s. Ok () s)))"

fun write_monitor_layout :: "MONITOR_DEF list \<Rightarrow> wStream \<Rightarrow> unit res" where
  \<comment> \<open>The loop of \<open>rdp_write_monitor_layout_pdu\<close>.\<close>
  "write_monitor_layout [] s = Ok () s"
| "write_monitor_layout (m # ms) s =
     andthen (Stream_Write_UINT32 s (md_left m)) (\<lambda>_ s.
     andthen (Stream_Write_UINT32 s (md_top m)) (\<lambda>_ s.
     andthen (Stream_Write_UINT32 s (md_right m)) (\<lambda>_ s.
     andthen (Stream_Write_UINT32 s (md_bottom m)) (\<lambda>_ s.
     andthen (Stream_Write_UINT32 s (md_flags m)) (\<lambda>_ s. write_monitor_layout ms s)))))"

definition rdp_write_monitor_layout_pdu :: "bool \<Rightarrow> wStream \<Rightarrow> MONITOR_DEF list \<Rightarrow> unit res option" where
  \<comment> \<open>The array has \<open>monitorCount\<close> elements. None: the stream never gets large enough.\<close>
  "rdp_write_monitor_layout_pdu realloc_ok s monitorDefArray =
     (let monitorCount = word_of_nat (length monitorDefArray) :: u32
      in map_option (\<lambda>r. andthen r (\<lambda>_ s.
           andthen (Stream_Write_UINT32 s monitorCount) (\<lambda>_ s. write_monitor_layout monitorDefArray s)))
         (Stream_EnsureRemainingCapacity 64 realloc_ok s (unat (4 + monitorCount * 20))))"

subsection \<open>Dispatch\<close>

record handlers =
  h_update_recv :: "rdpRdp \<Rightarrow> wStream \<Rightarrow> unit res"
  h_update_recv_pointer :: "rdpRdp \<Rightarrow> wStream \<Rightarrow> unit res"
  h_update_recv_play_sound :: "rdpRdp \<Rightarrow> wStream \<Rightarrow> unit res"
  h_save_session_info :: "rdpRdp \<Rightarrow> wStream \<Rightarrow> unit res"
  h_bulk_decompress :: "rdpRdp \<Rightarrow> bytes \<Rightarrow> u8 \<Rightarrow> bytes option"
  h_autodetect_request :: "rdpRdp \<Rightarrow> wStream \<Rightarrow> int res"
  h_autodetect_response :: "rdpRdp \<Rightarrow> wStream \<Rightarrow> int res"
  h_heartbeat :: "rdpRdp \<Rightarrow> wStream \<Rightarrow> int res"
  h_multitransport :: "rdpRdp \<Rightarrow> wStream \<Rightarrow> int res"
  h_redirection :: "rdpRdp \<Rightarrow> wStream \<Rightarrow> int res"
  h_calloc :: "nat \<Rightarrow> bool"

text \<open>
  In this order: update.c (three routines), info.c, bulk.c with the stream the result is copied to, autodetect.c
  (two routines), heartbeat.c, multitransport.c, redirection.c, and \<open>calloc\<close>.
\<close>

abbreviation (input) bool_of :: "rdpRdp \<Rightarrow> unit res \<Rightarrow> (bool \<times> rdpRdp) res" where
  "bool_of rdp r \<equiv> failing r (False, rdp) (\<lambda>_ s. Ok (True, rdp) s)"

definition dispatch_data_pdu :: "handlers \<Rightarrow> rdpRdp \<Rightarrow> u8 \<Rightarrow> wStream \<Rightarrow> (bool \<times> rdpRdp) res" where
  \<comment> \<open>The \<open>switch\<close> of \<open>rdp_recv_data_pdu\<close>.\<close>
  "dispatch_data_pdu h rdp type cs =
     (if type = DATA_PDU_TYPE_UPDATE then bool_of rdp (h_update_recv h rdp cs)
      else if type = DATA_PDU_TYPE_CONTROL then rdp_recv_server_control_pdu rdp cs
      else if type = DATA_PDU_TYPE_POINTER then bool_of rdp (h_update_recv_pointer h rdp cs)
      else if type = DATA_PDU_TYPE_SYNCHRONIZE then rdp_recv_synchronize_pdu rdp cs
      else if type = DATA_PDU_TYPE_PLAY_SOUND then bool_of rdp (h_update_recv_play_sound h rdp cs)
      else if type = DATA_PDU_TYPE_SHUTDOWN_DENIED then bool_of rdp (rdp_recv_server_shutdown_denied_pdu cs)
      else if type = DATA_PDU_TYPE_SAVE_SESSION_INFO then bool_of rdp (h_save_session_info h rdp cs)
      else if type = DATA_PDU_TYPE_FONT_MAP then rdp_recv_font_map_pdu rdp cs
      else if type = DATA_PDU_TYPE_SET_KEYBOARD_INDICATORS then rdp_recv_server_set_keyboard_indicators_pdu rdp cs
      else if type = DATA_PDU_TYPE_SET_KEYBOARD_IME_STATUS then bool_of rdp (rdp_recv_server_set_keyboard_ime_status_pdu cs)
      else if type = DATA_PDU_TYPE_SET_ERROR_INFO then rdp_recv_set_error_info_data_pdu rdp cs
      else if type = DATA_PDU_TYPE_ARC_STATUS then bool_of rdp (rdp_recv_server_auto_reconnect_status_pdu cs)
      else if type = DATA_PDU_TYPE_STATUS_INFO then bool_of rdp (rdp_recv_server_status_info_pdu cs)
      else if type = DATA_PDU_TYPE_MONITOR_LAYOUT then bool_of rdp (rdp_recv_monitor_layout_pdu (h_calloc h) cs)
      else Ok (True, rdp) cs)"

definition rdp_recv_data_pdu :: "handlers \<Rightarrow> rdpRdp \<Rightarrow> wStream \<Rightarrow> (int \<times> rdpRdp) res" where
  "rdp_recv_data_pdu h rdp s =
     failing (rdp_read_share_data_header s) (-1, rdp) (\<lambda>hdr s.
       if sd_compressedType hdr AND PACKET_COMPRESSED \<noteq> 0 then
         (let SrcSize = ucast (sd_compressedLength hdr) - 18 :: u32
          in if Stream_GetRemainingLength s < unat SrcSize then Ok (-1, rdp) s
             else
               (case h_bulk_decompress h rdp (take (unat SrcSize) (avail s)) (sd_compressedType hdr) of
                  None \<Rightarrow> Ok (-1, rdp) s
                | Some data \<Rightarrow>
                    (case dispatch_data_pdu h rdp (sd_type hdr) (Stream_New data) of
                       Ok (ok, rdp) _ \<Rightarrow> Ok (if ok then 0 else -1, rdp) (Stream_Seek s (unat SrcSize))
                     | Fail _ \<Rightarrow> Ok (-1, rdp) (Stream_Seek s (unat SrcSize))
                     | Overrun \<Rightarrow> Overrun)))
       else andthen (dispatch_data_pdu h rdp (sd_type hdr) s) (\<lambda>(ok, rdp) s. Ok (if ok then 0 else -1, rdp) s))"

abbreviation (input) int_of :: "rdpRdp \<Rightarrow> int res \<Rightarrow> (int \<times> rdpRdp) res" where
  "int_of rdp r \<equiv> failing r (-1, rdp) (\<lambda>i s. Ok (i, rdp) s)"

definition rdp_recv_message_channel_pdu :: "handlers \<Rightarrow> rdpRdp \<Rightarrow> wStream \<Rightarrow> u16 \<Rightarrow> (int \<times> rdpRdp) res" where
  "rdp_recv_message_channel_pdu h rdp s securityFlags =
     (if securityFlags AND SEC_AUTODETECT_REQ \<noteq> 0 then int_of rdp (h_autodetect_request h rdp s)
      else if securityFlags AND SEC_AUTODETECT_RSP \<noteq> 0 then int_of rdp (h_autodetect_response h rdp s)
      else if securityFlags AND SEC_HEARTBEAT \<noteq> 0 then int_of rdp (h_heartbeat h rdp s)
      else if securityFlags AND SEC_TRANSPORT_REQ \<noteq> 0 then int_of rdp (h_multitransport h rdp s)
      else Ok (-1, rdp) s)"

definition rdp_recv_out_of_sequence_pdu :: "handlers \<Rightarrow> rdpRdp \<Rightarrow> wStream \<Rightarrow> (int \<times> rdpRdp) res" where
  "rdp_recv_out_of_sequence_pdu h rdp s =
     failing (rdp_read_share_control_header s) (-1, rdp) (\<lambda>(len, type, channelId) s.
       if type = PDU_TYPE_DATA then rdp_recv_data_pdu h rdp s
       else if type = PDU_TYPE_SERVER_REDIRECTION then int_of rdp (h_redirection h rdp s)
       else if type = PDU_TYPE_FLOW_RESPONSE \<or> type = PDU_TYPE_FLOW_STOP \<or> type = PDU_TYPE_FLOW_TEST then Ok (0, rdp) s
       else Ok (-1, rdp) s)"

subsection \<open>Monitor layouts\<close>

definition u32_at :: "wStream \<Rightarrow> u32" where
  "u32_at s = (case Stream_Read_UINT32 s of Ok v _ \<Rightarrow> v | _ \<Rightarrow> 0)"

lemma read_u32_then:
  "andthen (Stream_Read_UINT32 s) k = (if 4 \<le> length (avail s) then k (u32_at s) (Stream_Seek s 4) else Overrun)"
  by (auto simp: u32_at_def Stream_Read_UINT32_def split: list.split)

lemma read_monitor_layout_outcome:
  "if 20 * n \<le> length (avail s) then \<exists>ms. read_monitor_layout n s = Ok ms (Stream_Seek s (20 * n)) \<and> length ms = n
   else read_monitor_layout n s = Overrun"
proof (induction n arbitrary: s)
  case (Suc n)
  let ?t = "Stream_Seek s 20"
  have "read_monitor_layout (Suc n) s =
      (if 20 \<le> length (avail s) then andthen (read_monitor_layout n ?t) (\<lambda>ms u.
         Ok (\<lparr>md_left = u32_at s, md_top = u32_at (Stream_Seek s 4), md_right = u32_at (Stream_Seek s 8),
             md_bottom = u32_at (Stream_Seek s 12), md_flags = u32_at (Stream_Seek s 16)\<rparr> # ms) u) else Overrun)"
  proof -
    have le: "4 \<le> m - k \<longleftrightarrow> 4 + k \<le> m" for m k :: nat by auto
    show ?thesis by (auto simp: read_u32_then le)
  qed
  with Suc.IH [of ?t] show ?case
    by (auto simp: le_diff_conv2 split: if_splits)
qed simp

text \<open>C17: the number of monitors of a layout PDU is multiplied by 20 in 32 bits before it is compared with the
  bytes that are there. The reader accepts, refuses, or reads past the data exactly as stated: past the
  data when the product wraps around and memory for that many monitors is found.\<close>

theorem rdp_recv_monitor_layout_pdu_outcome:
  assumes "swf s" "avail s = le32 count @ rest"
  shows "rdp_recv_monitor_layout_pdu calloc_ok s =
    (if length rest < (20 * unat count) mod 2 ^ 32 \<or> \<not> calloc_ok (unat count) then Fail (Stream_Seek s 4)
     else if length rest < 20 * unat count then Overrun
     else Ok () (Stream_Seek s (4 + 20 * unat count)))"
proof -
  let ?t = "Stream_Seek s 4"
  have t: "swf ?t" "avail ?t = rest" using assms by simp_all
  have "unat (count * 20) = (20 * unat count) mod 2 ^ 32"
    by (simp add: unat_word_ariths mult.commute)
  then have "rdp_recv_monitor_layout_pdu calloc_ok s =
      (if length rest < (20 * unat count) mod 2 ^ 32 \<or> \<not> calloc_ok (unat count) then Fail ?t
       else andthen (read_monitor_layout (unat count) ?t) (\<lambda>_ s. Ok () s))"
    using assms t read_known(6) [OF assms(2)] by (simp add: rdp_recv_monitor_layout_pdu_def)
  then show ?thesis using read_monitor_layout_outcome [of "unat count" ?t] t by auto
qed

theorem rdp_recv_monitor_layout_pdu_outcome_witness:
  "rdp_recv_monitor_layout_pdu (\<lambda>n. True) (Stream_New (le32 0x0CCCCCCD @ [1, 2, 3, 4])) = Overrun"
  by (subst rdp_recv_monitor_layout_pdu_outcome [where count = "0x0CCCCCCD" and rest = "[1, 2, 3, 4]"]) simp_all

subsection \<open>A data PDU as a message\<close>

definition data_message :: "rdpRdp \<Rightarrow> u8 \<Rightarrow> bytes \<Rightarrow> bytes" where
  "data_message rdp type p =
     (le16 (word_of_nat (18 + length p)) @ le16 0x17 @ le16 (userId (rdp_mcs rdp))) @
     (le32 (ShareId (rdp_settings rdp)) @ [0, 1] @ le16 (word_of_nat (length p)) @ [type, 0] @ le16 0) @ p"

lemma length_data_message [simp]: "length (data_message rdp type p) = 18 + length p"
  by (simp add: data_message_def)

lemma share_headers_put [wr_simps]:
  "rdp_write_share_control_header s len type ch = put s (le16 (len - 15) @ le16 (type OR 0x10) @ le16 ch) ()"
  "rdp_write_share_data_header s len8 type8 sid = put s (le32 sid @ [0, 1] @ le16 (len8 - 15 - 6 - 12) @ [type8, 0] @ le16 0) ()"
  by (simp_all add: rdp_write_share_control_header_def rdp_write_share_data_header_def wr_simps Let_def)

lemma send_out_write:
  assumes "\<And>x. 0 \<le> write x" "\<And>x. 0 \<le> write' x"
  shows "send_out c write rdp s len fl = send_out c write' rdp s len fl"
proof -
  have "(\<not> write x < 0) = (\<not> write' x < 0)" for x using assms by (simp add: not_less)
  then show ?thesis by (simp only: send_out_def)
qed

lemma init_stream_data:
  assumes "sec_flags a = 0" "rdp_init_stream a (Stream_New mem) = (a', s)"
  shows "rdp_init_stream_data_pdu a (Stream_New mem) = (a', Stream_Seek s 18)" "s_pos s = 15 + rdp_get_sec_bytes a' 0"
    "s_buffer s = mem" "s_length s = length mem" "rdp_get_sec_bytes a' 0 \<le> 16" "rdp_settings a' = rdp_settings a" "rdp_mcs a' = rdp_mcs a"
  using assms
  by (auto simp: rdp_init_stream_def rdp_init_stream_data_pdu_def rdp_security_stream_init_def rdp_get_sec_bytes_def
      Stream_Seek_def Stream_New_def Let_def split: if_splits)

lemma data_pdu_is_message:
  assumes s0: "sec_flags a = 0" and l: "length p \<le> 1900" "2048 \<le> length mem"
    and env: "\<And>x. 0 \<le> s_write env x" "s_pool env = Some mem" "s_crypto env = c"
    and w: "\<And>s. write s = put s p ()"
  shows "send_data_pdu env a write type =
    (case rdp_init_stream a (Stream_New mem) of (a', s) \<Rightarrow>
       sending (andthen (Stream_Write s (data_message a type p)) (\<lambda>_ s. rdp_send c (\<lambda>w. int (length w)) a' s MCS_GLOBAL_CHANNEL_ID)))"
proof -
  obtain a' s where i: "rdp_init_stream a (Stream_New mem) = (a', s)" by fastforce
  note init = init_stream_data [OF s0 i]
  let ?n = "rdp_get_sec_bytes a' 0" and ?m = "length p"
  let ?N = "15 + ?n"
  have s: "s = \<lparr>s_buffer = mem, s_pos = ?N, s_length = length mem\<rparr>" using init by (cases s) simp
  let ?C = "le16 (word_of_nat (18 + ?m)) @ le16 0x17 @ le16 (userId (rdp_mcs a))"
  let ?D = "le32 (ShareId (rdp_settings a)) @ [0, 1] @ le16 (word_of_nat ?m) @ [type, 0] @ le16 0"
  have fit: "?N + 18 + ?m \<le> length mem" using l init(5) by simp
  obtain A R B C T where mem: "mem = A @ R @ B @ C @ T" "length A = 15" "length R = ?n" "length B = 18" "length C = ?m"
  proof -
    obtain A Y where 1: "mem = A @ Y" "length A = 15" "length Y = length mem - 15" using chop [of mem 15 "length mem - 15"] fit by auto
    obtain R Z where 2: "Y = R @ Z" "length R = ?n" "length Z = length mem - ?N" using chop [of Y ?n "length mem - ?N"] 1(3) fit by auto
    obtain B X where 3: "Z = B @ X" "length B = 18" "length X = length mem - ?N - 18" using chop [of Z 18 "length mem - ?N - 18"] 2(3) fit by auto
    obtain C T where 4: "X = C @ T" "length C = ?m" using chop [of X ?m "length mem - ?N - 18 - ?m"] 3(3) fit by auto
    show thesis by (rule that [of A R B C T]) (use 1 2 3 4 in simp_all)
  qed
  let ?st = "\<lambda>X i. \<lparr>s_buffer = X, s_pos = i, s_length = length mem\<rparr>"
  have w1: "put (Stream_Seek s 18) p () = Ok () (?st (A @ R @ B @ p @ T) (?N + 18 + ?m))"
    by (rule put_append [where A = "A @ R @ B" and old = C]) (use mem in \<open>simp_all add: s Stream_Seek_def\<close>)
  have w2: "Stream_Write s (data_message a type p) = Ok () (?st (A @ R @ data_message a type p @ T) (?N + 18 + ?m))"
    unfolding Stream_Write_put
    by (rule put_append [where A = "A @ R" and old = "B @ C"]) (use mem in \<open>simp_all add: s\<close>)
  let ?len = "word_of_nat (?N + 18 + ?m) :: u16"
  define H where "H = rdp_header_bytes a' (padded_length a' ?len) MCS_GLOBAL_CHANNEL_ID"
  have lH: "length H = 15" by (simp add: H_def)
  have h: "put (?st (A @ Y) 0) H () = Ok () (?st (H @ Y) 15)" for Y
    by (rule put_append [where A = "[]" and old = A]) (use mem lH in simp_all)
  have c1: "put (?st (H @ R @ B @ p @ T) ?N) (?C @ ?D) () = Ok () (?st (H @ R @ (?C @ ?D) @ p @ T) (?N + 18))"
    by (rule put_append [where A = "H @ R" and old = B]) (use mem lH in simp_all)
  have rest: "?len - word_of_nat ?n - 15 = word_of_nat (18 + ?m)" "(word_of_nat (18 + ?m) :: u16) - 6 - 12 = word_of_nat ?m"
    by (simp_all add: algebra_simps)
  have sk: "Stream_Seek (?st Y 15) ?n = ?st Y ?N" for Y by (simp add: Stream_Seek_def)
  have t: "(PDU_TYPE_DATA OR 0x10 :: u16) = 0x17" by simp
  have "rdp_send_data_pdu c (s_write env) a' (?st (A @ R @ B @ p @ T) (?N + 18 + ?m)) type (userId (rdp_mcs a')) =
      send_out c (s_write env) a' (?st (H @ R @ (?C @ ?D) @ p @ T) 15) ?len 0"
    unfolding rdp_send_data_pdu_def Let_def wStream.select_convs Stream_SetPosition_def rdp_write_header_put H_def [symmetric]
      wStream.update_convs h andthen.simps share_headers_put rest t sk init(6,7) put_put_andthen c1
    by (simp only: append_assoc)
  also have "\<dots> = send_out c (\<lambda>w. int (length w)) a' (?st (H @ R @ (?C @ ?D) @ p @ T) 15) ?len 0"
    by (rule send_out_write) (use env(1) in simp_all)
  also have "\<dots> = rdp_send c (\<lambda>w. int (length w)) a' (?st (A @ R @ data_message a type p @ T) (?N + 18 + ?m)) MCS_GLOBAL_CHANNEL_ID"
    unfolding rdp_send_def Let_def wStream.select_convs Stream_SetPosition_def rdp_write_header_put H_def [symmetric]
      wStream.update_convs h andthen.simps data_message_def by (simp only: append_assoc)
  finally have "rdp_send_data_pdu c (s_write env) a' (?st (A @ R @ B @ p @ T) (?N + 18 + ?m)) type (userId (rdp_mcs a')) = \<dots>" .
  then show ?thesis
    unfolding send_data_pdu_def rdp_data_pdu_init_def env(2,3) option.map option.case init(1) prod.case w w1 andthen.simps i w2 by simp
qed

lemma sending_events:
  assumes "sending r = Some (ok, a)"
  shows "\<exists>ws a' t. r = Ok (ok, ws, a') t \<and> a = a'\<lparr>rdp_events := map Sent (rev ws) @ rdp_events a'\<rparr>"
  using assms by (auto simp: sending_def split: res.splits)

text \<open>The packet of a data PDU does not depend on the peer that is to receive it: it arrives at any that is in step.\<close>

lemma data_pdu_travels:
  assumes i: "talks c a b" and l: "length p \<le> 1900" "2048 \<le> length mem"
    and env: "\<And>x. 0 \<le> s_write env x" "s_pool env = Some mem" "s_crypto env = c"
    and w: "\<And>s. write s = put s p ()"
  shows "\<exists>w a'. send_data_pdu env a write type = Some (True, a'\<lparr>rdp_events := Sent w # rdp_events a'\<rparr>) \<and> sent_only a a' \<and>
    (\<forall>x. talks c a x \<longrightarrow> (\<exists>x'. talks c a' x' \<and> arrives c x w (MCS_GLOBAL_CHANNEL_ID, data_message a type p) x'))"
proof -
  have s0: "sec_flags a = 0" using i by (simp add: talks_def)
  let ?m = "(MCS_GLOBAL_CHANNEL_ID :: u16, data_message a type p)"
  have d: "\<exists>w a' x'. send_message c mem a ?m = Some (w, a') \<and> talks c a' x' \<and> sent_only a a' \<and> arrives c x w ?m x'" if "talks c a x" for x
    using peers_deliver [OF that, of ?m mem] l unfolding delivers_def by simp
  from d [OF i] obtain w a' where w: "send_message c mem a ?m = Some (w, a')" "sent_only a a'" by blast
  have x: "talks c a x \<longrightarrow> (\<exists>x'. talks c a' x' \<and> arrives c x w ?m x')" for x using d [of x] w(1) by auto
  obtain a1 s where si: "rdp_init_stream a (Stream_New mem) = (a1, s)" by fastforce
  have "\<exists>t. andthen (Stream_Write s (data_message a type p)) (\<lambda>_ s. rdp_send c (\<lambda>w. int (length w)) a1 s MCS_GLOBAL_CHANNEL_ID) = Ok (True, [w], a') t"
    using w(1) si by (auto simp: send_message_def rdp_send_stream_init_def split: res.splits bool.splits list.splits)
  then have "send_data_pdu env a write type = Some (True, a'\<lparr>rdp_events := Sent w # rdp_events a'\<rparr>)"
    unfolding data_pdu_is_message [OF s0 l env assms(7)] si prod.case by (auto simp: sending_def)
  then show ?thesis using w(2) x by blast
qed

end
