(* ===== verification/Frame.thy ===== *)
theory Frame
  imports Activation
begin

text \<open>
  What sending and receiving leave alone: the state of the connection, its settings, its channels, and
  whether it encrypts. One lemma per routine of \<open>Security\<close>, \<open>Rdp\<close> and \<open>Activation\<close>, in the collection
  \<open>frame\<close>; the state machines of client and server rest on them.
\<close>

definition framed :: "rdpRdp \<Rightarrow> rdpRdp \<Rightarrow> bool" where
  "framed a b \<longleftrightarrow> conn_state b = conn_state a \<and> rdp_settings b = rdp_settings a \<and> rdp_mcs b = rdp_mcs a \<and>
     do_crypt b = do_crypt a \<and> AwaitCapabilities b = AwaitCapabilities a \<and> finalize_sc_pdus b = finalize_sc_pdus a \<and>
     has_instance b = has_instance a"

lemma framed_refl [simp, intro!]: "framed a a"
  by (simp add: framed_def)

lemma framed_trans [trans]: "framed a b \<Longrightarrow> framed b c \<Longrightarrow> framed a c"
  by (simp add: framed_def)

named_theorems frame

subsection \<open>What a result gives\<close>

definition gives :: "'a res \<Rightarrow> ('a \<Rightarrow> bool) \<Rightarrow> bool" where
  \<comment> \<open>If the routine returns, its value has the property.\<close>
  "gives r P \<longleftrightarrow> (\<forall>v s. r = Ok v s \<longrightarrow> P v)"

lemma gives_simps [simp]:
  "gives (Ok v s) P \<longleftrightarrow> P v" "gives (Fail s) P" "gives Overrun P"
  by (simp_all add: gives_def)

lemma gives_andthen: "gives r Q \<Longrightarrow> (\<And>v s. Q v \<Longrightarrow> gives (k v s) P) \<Longrightarrow> gives (andthen r k) P"
  by (cases r) simp_all

lemma gives_failing: "gives r Q \<Longrightarrow> P x \<Longrightarrow> (\<And>v s. Q v \<Longrightarrow> gives (k v s) P) \<Longrightarrow> gives (failing r x k) P"
  by (cases r) simp_all

lemma gives_true: "gives r (\<lambda>_. True)"
  by (simp add: gives_def)

lemmas gives_any = gives_andthen [OF gives_true] gives_failing [OF gives_true]

lemma givesD: "gives r P \<Longrightarrow> r = Ok v s \<Longrightarrow> P v"
  by (simp add: gives_def)

lemma gives_mono: "gives r Q \<Longrightarrow> (\<And>v. Q v \<Longrightarrow> P v) \<Longrightarrow> gives r P"
  by (simp add: gives_def)

lemma gives_if: "(b \<Longrightarrow> gives x P) \<Longrightarrow> (\<not> b \<Longrightarrow> gives y P) \<Longrightarrow> gives (if b then x else y) P"
  by simp

subsection \<open>Encryption\<close>

lemma security_frames [frame]:
  "update_encrypt_key c a = Some (ok, b) \<Longrightarrow> framed a b"
  "update_decrypt_key c a = Some (ok, b) \<Longrightarrow> framed a b"
  by (auto simp: update_encrypt_key_def update_decrypt_key_def framed_def Let_def split: bind_splits if_splits)

lemma security_crypt_frames [frame]:
  "security_encrypt c d n a = Some (ok, m, b) \<Longrightarrow> framed a b"
  "security_decrypt c d n a = Some (ok, m, b) \<Longrightarrow> framed a b"
  "security_fips_encrypt c d n a = Some (ok, m, b) \<Longrightarrow> framed a b"
  "security_fips_decrypt c d n a = Some (ok, m, b) \<Longrightarrow> framed a b"
  "security_fips_check_signature c d n sig a = Some (ok, b) \<Longrightarrow> framed a b"
  by (auto simp: security_encrypt_def security_decrypt_def security_fips_encrypt_def security_fips_decrypt_def
      security_fips_check_signature_def framed_def Let_def split: bind_splits if_splits option.splits prod.splits
      dest!: security_frames)

lemma stream_out_frames [frame]:
  "gives (fips_stream_out c a s n) (\<lambda>(ok, pad, b). framed a b)"
  "gives (rc4_stream_out c a s n fl) (\<lambda>(ok, pad, b). framed a b)"
  by (auto simp: fips_stream_out_def rc4_stream_out_def Let_def split: option.split intro!: gives_any dest!: security_crypt_frames)

lemma rdp_security_stream_out_frame [frame]: "gives (rdp_security_stream_out c a s n fl) (\<lambda>(ok, pad, b). framed a b)"
  unfolding rdp_security_stream_out_def Let_def
  by (intro gives_if gives_any gives_andthen [where Q = "\<lambda>(ok, pad, b). framed a b"])
    (auto simp: framed_def stream_out_frames [unfolded framed_def])

lemma send_out_frame [frame]: "gives (send_out c w a s n fl) (\<lambda>(ok, ws, b). framed a b)"
  unfolding send_out_def Let_def
  by (rule gives_andthen [OF rdp_security_stream_out_frame]) auto

lemma send_frames [frame]:
  "gives (rdp_send c w a s ch) (\<lambda>(ok, ws, b). framed a b)"
  "gives (rdp_send_pdu c w a s t ch) (\<lambda>(ok, ws, b). framed a b)"
  "gives (rdp_send_data_pdu c w a s t8 ch) (\<lambda>(ok, ws, b). framed a b)"
  unfolding rdp_send_def rdp_send_pdu_def rdp_send_data_pdu_def Let_def
  by (intro gives_any send_out_frame)+

lemma decrypt_frames [frame]:
  "gives (rdp_decrypt c a s n fl) (\<lambda>(ok, b). framed a b)"
  by (auto simp: rdp_decrypt_def fips_decrypt_pdu_def rc4_decrypt_pdu_def Let_def split: option.split
      intro!: gives_any dest!: security_crypt_frames intro: framed_trans)

lemma init_frames [frame]:
  "rdp_security_stream_init a s h = (b, t) \<Longrightarrow> framed a b"
  "rdp_init_stream a s = (b, t) \<Longrightarrow> framed a b"
  "rdp_init_stream_pdu a s = (b, t) \<Longrightarrow> framed a b"
  "rdp_init_stream_data_pdu a s = (b, t) \<Longrightarrow> framed a b"
  "rdp_data_pdu_init a so = (b, to) \<Longrightarrow> framed a b"
  by (auto simp: rdp_security_stream_init_def rdp_init_stream_def rdp_init_stream_pdu_def rdp_init_stream_data_pdu_def
      rdp_data_pdu_init_def framed_def Let_def split: if_splits option.splits prod.splits)

subsection \<open>Packets\<close>

lemma rdp_read_header_frame [frame]: "gives (rdp_read_header a s ch) (\<lambda>(n, ch, b). framed a b)"
proof -
  have u: "gives (recv_ultimatum a s) (framed a)" for s
    by (auto simp: recv_ultimatum_def rdp_set_error_info_def freerdp_abort_connect_def framed_def Let_def
        split: option.split intro!: gives_any)
  show ?thesis
    unfolding rdp_read_header_def Let_def
    by (auto simp: framed_def freerdp_abort_connect_def intro!: gives_any gives_andthen [OF u] split: option.split)
qed

lemma recv_packet_frame [frame]:
  "gives (recv_packet c e a s ch) (\<lambda>r. case r of Inl (i, b) \<Rightarrow> framed a b | Inr (ch, fl, b) \<Rightarrow> framed a b)"
proof -
  have h: "rdp_read_header a s ch = Ok (n, ch', b) t \<Longrightarrow> framed a b" for n ch' b t
    using givesD [OF rdp_read_header_frame] by fastforce
  have d: "rdp_decrypt c b t n fl = Ok (ok, d) u \<Longrightarrow> framed b d" for b t n fl ok d u
    using givesD [OF decrypt_frames] by fastforce
  show ?thesis
    unfolding recv_packet_def
    by (auto split: res.split intro!: gives_andthen [OF decrypt_frames] dest!: h intro: framed_trans)
qed

lemma sending_frame:
  "gives r (\<lambda>(ok, ws, b). framed a b) \<Longrightarrow> sending r = Some (ok, b) \<Longrightarrow> framed a b"
  by (auto simp: sending_def gives_def framed_def split: res.splits)

lemma send_data_pdu_frame: "send_data_pdu env a wr t = Some (ok, b) \<Longrightarrow> framed a b"
proof -
  assume h: "send_data_pdu env a wr t = Some (ok, b)"
  obtain a' so where i: "rdp_data_pdu_init a (map_option Stream_New (s_pool env)) = (a', so)" by fastforce
  with h obtain s where "so = Some s" "sending (andthen (wr s) (\<lambda>_ s.
      rdp_send_data_pdu (s_crypto env) (s_write env) a' s t (userId (rdp_mcs a')))) = Some (ok, b)"
    by (auto simp: send_data_pdu_def split: option.splits)
  then have "framed a' b" by (intro sending_frame) (auto intro!: gives_any send_frames)
  with init_frames(5) [OF i] show ?thesis by (rule framed_trans)
qed

lemma activation_send_frames [frame]:
  "rdp_send_server_synchronize_pdu env a = Some (ok, b) \<Longrightarrow> framed a b"
  "rdp_send_client_synchronize_pdu env a = Some (ok, b) \<Longrightarrow> framed a b"
  "rdp_send_server_control_cooperate_pdu env a = Some (ok, b) \<Longrightarrow> framed a b"
  "rdp_send_server_control_granted_pdu env a = Some (ok, b) \<Longrightarrow> framed a b"
  "rdp_send_client_control_pdu env a act = Some (ok, b) \<Longrightarrow> framed a b"
  "rdp_send_client_persistent_key_list_pdu env a = Some (ok, b) \<Longrightarrow> framed a b"
  "rdp_send_client_font_list_pdu env a fl = Some (ok, b) \<Longrightarrow> framed a b"
  "rdp_send_server_font_map_pdu env a = Some (ok, b) \<Longrightarrow> framed a b"
  unfolding rdp_send_server_synchronize_pdu_def rdp_send_client_synchronize_pdu_def rdp_send_server_control_cooperate_pdu_def
    rdp_send_server_control_granted_pdu_def rdp_send_client_control_pdu_def rdp_send_client_persistent_key_list_pdu_def
    rdp_send_client_font_list_pdu_def rdp_send_server_font_map_pdu_def
  by (rule send_data_pdu_frame, assumption)+

lemma rdp_send_deactivate_all_frame [frame]: "rdp_send_deactivate_all env a = Some (ok, b) \<Longrightarrow> framed a b"
proof -
  assume h: "rdp_send_deactivate_all env a = Some (ok, b)"
  show ?thesis
  proof (cases "s_new env 1024")
    case None
    with h show ?thesis by (simp add: rdp_send_deactivate_all_def)
  next
    case (Some mem)
    obtain a' s where i: "rdp_init_stream_pdu a (Stream_New mem) = (a', s)" by fastforce
    with h Some have "sending (andthen (Stream_Write_UINT32 s (ShareId (rdp_settings a'))) (\<lambda>_ s.
        andthen (Stream_Write_UINT16 s 1) (\<lambda>_ s. andthen (Stream_Write_UINT8 s 0) (\<lambda>_ s.
        rdp_send_pdu (s_crypto env) (s_write env) a' s PDU_TYPE_DEACTIVATE_ALL (userId (rdp_mcs a')))))) = Some (ok, b)"
      by (simp add: rdp_send_deactivate_all_def)
    then have "framed a' b" by (intro sending_frame) (auto intro!: gives_any send_frames)
    with init_frames(3) [OF i] show ?thesis by (rule framed_trans)
  qed
qed

lemma message_channel_frame [frame]: "gives (rdp_recv_message_channel_pdu h a s fl) (\<lambda>(i, b). b = a)"
  unfolding rdp_recv_message_channel_pdu_def by (auto intro!: gives_any)

subsection \<open>Settings\<close>

definition same_protocol :: "gccSettings \<Rightarrow> gccSettings \<Rightarrow> bool" where
  \<comment> \<open>The exchange of the conference data does not touch what was negotiated.\<close>
  "same_protocol a b \<longleftrightarrow> UseRdpSecurityLayer b = UseRdpSecurityLayer a \<and> set_SelectedProtocol b = set_SelectedProtocol a \<and>
     LocalConnection b = LocalConnection a \<and> ServerMode b = ServerMode a"

lemma same_protocol_refl [simp]: "same_protocol a a"
  by (simp add: same_protocol_def)

lemma same_protocol_trans [trans]: "same_protocol a b \<Longrightarrow> same_protocol b d \<Longrightarrow> same_protocol a d"
  by (simp add: same_protocol_def)

lemma gives_Let: "Q x \<Longrightarrow> (\<And>x. Q x \<Longrightarrow> gives (f x) P) \<Longrightarrow> gives (Let x f) P"
  by simp

lemma gives_Let_any: "(\<And>x. gives (f x) P) \<Longrightarrow> gives (Let (x :: nat) f) P"
  by simp

lemma gcc_read_client_core_optional_protocol:
  "gives (gcc_read_client_core_optional lib s settings n) (\<lambda>f. same_protocol settings (cf_settings f))"
  unfolding gcc_read_client_core_optional_def
  by (rule gives_any(1) gives_if gives_Let_any gives_simps(2,3) gives_simps(1) [THEN iffD2]
      gives_Let [where Q = "\<lambda>f. same_protocol settings (cf_settings f)"] | assumption | simp add: same_protocol_def)+

lemma gcc_read_client_core_data_protocol: "gives (gcc_read_client_core_data lib s a n) (same_protocol a)"
proof -
  have ap: "same_protocol (cf_settings f) (gcc_client_core_apply f d)" for f d
    by (simp add: gcc_client_core_apply_def same_protocol_def Let_def)
  have "gives (gcc_read_client_core_optional lib u st m) (\<lambda>f. same_protocol a (cf_settings f))"
    if "same_protocol a st" for u st m
    by (rule gives_mono [OF gcc_read_client_core_optional_protocol]) (use that in \<open>rule same_protocol_trans\<close>)
  note opt = gives_andthen [OF this]
  have fin: "gives (case d of None \<Rightarrow> Fail t | Some d \<Rightarrow> Ok (gcc_client_core_apply f d) t) (same_protocol a)"
    if "same_protocol a (cf_settings f)" for d f t
    using that same_protocol_trans [OF _ ap] by (cases d) simp_all
  show ?thesis
    unfolding gcc_read_client_core_data_def Let_def
    by (rule gives_if gives_simps opt fin gives_any(1) | assumption | simp add: same_protocol_def)+
qed

lemma gcc_read_client_block_protocol: "gives (gcc_read_client_block lib t s (mcs, a) n) (\<lambda>(_, b). same_protocol a b)"
proof -
  have 1: "gives (gcc_read_client_security_data s a n) (same_protocol a)"
    "gives (gcc_read_client_cluster_data s a n) (same_protocol a)"
    "gives (gcc_read_client_monitor_data s a n) (same_protocol a)"
    "gives (gcc_read_client_monitor_extended_data s a n) (same_protocol a)"
    unfolding gcc_read_client_security_data_def gcc_read_client_cluster_data_def gcc_read_client_monitor_data_def
      gcc_read_client_monitor_extended_data_def Let_def
    by (auto intro!: gives_any gives_if simp: same_protocol_def)
  have on: "gives r (same_protocol a) \<Longrightarrow> gives (andthen r (\<lambda>st u. Ok (mcs, st) u)) (\<lambda>(_, b). same_protocol a b)" for r
    by (erule gives_andthen) simp
  show ?thesis
    unfolding gcc_read_client_block_def Let_def prod.case
    by (intro gives_if on 1 gcc_read_client_core_data_protocol) (auto intro!: gives_any)
qed

lemma client_blocks_protocol:
  "client_blocks fuel lib s (mcs, a) len = Some (Ok (mcs', b) t) \<Longrightarrow> same_protocol a b"
proof (induction fuel arbitrary: s mcs a len)
  case (Suc fuel)
  show ?case
  proof (cases "len > 0")
    case True
    with Suc.prems obtain type u g v and blk :: u16 where g:
      "gcc_read_client_block lib type u (mcs, a) (unat blk - 4) = Ok g v"
      "client_blocks fuel lib (Stream_SetPosition v (s_pos s + unat blk)) g (len - uint blk) = Some (Ok (mcs', b) t)"
      using Suc.prems [unfolded client_blocks.simps [of "Suc fuel"]]
      by (simp split: res.splits if_splits prod.splits)
    moreover obtain mcs1 a1 where "g = (mcs1, a1)" by fastforce
    ultimately show ?thesis using Suc.IH givesD [OF gcc_read_client_block_protocol] by (fastforce intro: same_protocol_trans)
  qed (use Suc.prems in \<open>subst (asm) client_blocks.simps; simp\<close>)
qed (subst (asm) client_blocks.simps, auto split: if_splits)

lemma mcs_recv_connect_initial_protocol:
  "mcs_recv_connect_initial lib s (mcs, a) = Some (Ok (mcs', b) t) \<Longrightarrow> same_protocol a b"
proof -
  have c: "continue r k = Some (Ok v u) \<Longrightarrow> \<exists>x y. k x y = Some (Ok v u)" for r :: "'x res" and k :: "'x \<Rightarrow> wStream \<Rightarrow> gcc res option" and v u
    by (cases r) auto
  have cs: "continues r k = Some (Ok v u) \<Longrightarrow> \<exists>x y. r = Some (Ok x y) \<and> k x y = Some (Ok v u)" for r :: "gcc res option" and k :: "gcc \<Rightarrow> wStream \<Rightarrow> gcc res option" and v u
    by (cases "(r, k)" rule: continues.cases) (auto elim: continue.elims)
  assume "mcs_recv_connect_initial lib s (mcs, a) = Some (Ok (mcs', b) t)"
  then obtain m u m' st v where 1: "gcc_read_conference_create_request lib u (m, a) = Some (Ok (m', st) v)" "st = b"
    unfolding mcs_recv_connect_initial_def Let_def prod.case
    by (auto dest!: c cs split: sum.splits)
  then show ?thesis
    unfolding gcc_read_conference_create_request_def gcc_read_client_data_blocks_def
    by (auto dest!: c client_blocks_protocol)
qed

lemma mcs_send_connect_response_protocol:
  "mcs_send_connect_response env lib ok (mcs, a) = Some (r, mcs', b) \<Longrightarrow> same_protocol a b"
proof -
  have c: "continues r k = Some (Ok v u) \<Longrightarrow> \<exists>x y. r = Some (Ok x y) \<and> k x y = Some (Ok v u)" for r :: "'x res option" and k :: "'x \<Rightarrow> wStream \<Rightarrow> gccSettings res option" and v u
    by (cases "(r, k)" rule: continues.cases) (auto elim: continue.elims)
  have ce: "continue r k = Some (Ok v u) \<Longrightarrow> \<exists>x y. k x y = Some (Ok v u)" for r :: "'x res" and k :: "'x \<Rightarrow> wStream \<Rightarrow> gccSettings res option" and v u
    by (cases r) auto
  have rs: "reserve ok s n (\<lambda>s. Some (g s)) = Some (Ok b t) \<Longrightarrow> (\<And>s. gives (g s) (same_protocol a)) \<Longrightarrow> same_protocol a b" for s n g b t
    by (auto simp: reserve_def gives_def split: option.splits dest!: ce)
  have s: "gcc_write_server_security_data env lib ok s a = Some (Ok b t) \<Longrightarrow> same_protocol a b" for s b t
    unfolding gcc_write_server_security_data_def Let_def
    by (erule rs) (auto intro!: gives_any gives_if simp: same_protocol_def split: option.split)
  have w: "gcc_write_server_data_blocks env lib ok s (m, a) = Some (Ok b t) \<Longrightarrow> same_protocol a b" for s m b t
    unfolding gcc_write_server_data_blocks_def prod.case by (auto dest!: c s)
  show "mcs_send_connect_response env lib ok (mcs, a) = Some (r, mcs', b) \<Longrightarrow> same_protocol a b"
    unfolding mcs_send_connect_response_def prod.case
    by (auto simp: Let_def split: option.splits res.splits dest!: w)
qed

end
