(* ===== verification/Peer.thy ===== *)
theory Peer
  imports Frame
begin

text \<open>
  The server: the accept routines of libfreerdp/core/connection.c and activation.c, the routines of
  capabilities.c, info.c and license.c around the parsers they call, and libfreerdp/core/peer.c with the
  state machine \<open>peer_recv_callback\<close> that a packet of the client drives.

  A handler returns its BOOL or int with the peer and the stream; \<open>Overrun\<close> is a crash. The application, the
  TLS and NLA layers, the parsers of capability sets, of the info packet and of input are fields of
  \<open>peer_env\<close>; the uninitialised local variables the code can read are its field \<open>pe_garbage\<close>.
\<close>

abbreviation (input) PDU_TYPE_DEMAND_ACTIVE :: u16 where "PDU_TYPE_DEMAND_ACTIVE \<equiv> 1"
abbreviation (input) PDU_TYPE_CONFIRM_ACTIVE :: u16 where "PDU_TYPE_CONFIRM_ACTIVE \<equiv> 3"
abbreviation (input) DATA_PDU_TYPE_INPUT :: u8 where "DATA_PDU_TYPE_INPUT \<equiv> 0x1C"
abbreviation (input) DATA_PDU_TYPE_REFRESH_RECT :: u8 where "DATA_PDU_TYPE_REFRESH_RECT \<equiv> 0x21"
abbreviation (input) DATA_PDU_TYPE_SUPPRESS_OUTPUT :: u8 where "DATA_PDU_TYPE_SUPPRESS_OUTPUT \<equiv> 0x23"
abbreviation (input) DATA_PDU_TYPE_SHUTDOWN_REQUEST :: u8 where "DATA_PDU_TYPE_SHUTDOWN_REQUEST \<equiv> 0x24"
abbreviation (input) DATA_PDU_TYPE_FRAME_ACKNOWLEDGE :: u8 where "DATA_PDU_TYPE_FRAME_ACKNOWLEDGE \<equiv> 0x38"
abbreviation (input) SEC_INFO_PKT :: u16 where "SEC_INFO_PKT \<equiv> 0x0040"
abbreviation (input) SEC_LICENSE_ENCRYPT_CS :: u32 where "SEC_LICENSE_ENCRYPT_CS \<equiv> 0x0200"
abbreviation (input) SSL_REQUIRED_BY_SERVER :: u32 where "SSL_REQUIRED_BY_SERVER \<equiv> 1"
abbreviation (input) SSL_NOT_ALLOWED_BY_SERVER :: u32 where "SSL_NOT_ALLOWED_BY_SERVER \<equiv> 2"
abbreviation (input) HYBRID_REQUIRED_BY_SERVER :: u32 where "HYBRID_REQUIRED_BY_SERVER \<equiv> 5"
abbreviation (input) CAPSET_TYPE_BITMAP_CACHE_V3_CODEC_ID :: u16 where "CAPSET_TYPE_BITMAP_CACHE_V3_CODEC_ID \<equiv> 0x06"
abbreviation (input) CAPSET_TYPE_MULTI_FRAGMENT_UPDATE :: u16 where "CAPSET_TYPE_MULTI_FRAGMENT_UPDATE \<equiv> 0x1A"
abbreviation (input) CAPSET_TYPE_LARGE_POINTER :: u16 where "CAPSET_TYPE_LARGE_POINTER \<equiv> 0x1B"
abbreviation (input) CAPSET_TYPE_SURFACE_COMMANDS :: u16 where "CAPSET_TYPE_SURFACE_COMMANDS \<equiv> 0x1C"
abbreviation (input) CAPSET_TYPE_BITMAP_CODECS :: u16 where "CAPSET_TYPE_BITMAP_CODECS \<equiv> 0x1D"
abbreviation (input) CAPSET_TYPE_FRAME_ACKNOWLEDGE :: u16 where "CAPSET_TYPE_FRAME_ACKNOWLEDGE \<equiv> 0x1E"

subsection \<open>The peer\<close>

record freerdp_peer =
  p_rdp :: rdpRdp
  p_nego :: rdpNego
  p_nla :: bool
  p_connected :: bool
  p_activated :: bool
  p_authenticated :: bool
  ack_frame_id :: u32

text \<open>\<open>p_nla\<close> is whether \<open>transport->nla\<close> is there. \<open>rdp->context->peer\<close> is the peer itself.\<close>

record peer_env =
  pe_session :: session_env
  pe_mcs :: env
  pe_lib :: library
  pe_net :: net
  pe_bn :: bignum
  pe_priv_exp :: bytes
  pe_realloc :: bool
  pe_license_pool :: "bytes option"
  pe_tls_accept :: "freerdp_peer \<Rightarrow> bool"
  pe_nla_authenticate :: "freerdp_peer \<Rightarrow> int"
  pe_Logon :: "(freerdp_peer \<Rightarrow> bool \<Rightarrow> bool) option"
  pe_PostConnect :: "(freerdp_peer \<Rightarrow> bool) option"
  pe_Activate :: "(freerdp_peer \<Rightarrow> bool) option"
  pe_Capabilities :: "secSettings \<Rightarrow> secSettings"
  pe_VirtualChannelRead :: bool
  pe_ReceiveChannelData :: bool
  pe_read_info_packet :: "rdpRdp \<Rightarrow> wStream \<Rightarrow> unit res"
  pe_read_capability_sets :: "secSettings \<Rightarrow> u16 \<Rightarrow> wStream \<Rightarrow> (bool \<times> secSettings) res"
  pe_write_capability_sets :: "secSettings \<Rightarrow> wStream \<Rightarrow> unit res"
  pe_input_recv :: "rdpRdp \<Rightarrow> wStream \<Rightarrow> unit res"
  pe_refresh_rect :: "rdpRdp \<Rightarrow> wStream \<Rightarrow> unit res"
  pe_suppress_output :: "rdpRdp \<Rightarrow> wStream \<Rightarrow> unit res"
  pe_fastpath_recv_inputs :: "rdpRdp \<Rightarrow> wStream \<Rightarrow> int res"
  pe_handlers :: handlers
  pe_garbage :: u16

text \<open>
  \<open>pe_license_pool\<close> is the memory of the stream \<open>license_send_stream_init\<close> takes, 4096 bytes at least; the
  callbacks of the application that return nothing and do not change the settings are flags that say
  whether they are registered. \<open>pe_write_capability_sets\<close> is the sequence of calls in \<open>rdp_write_demand_active\<close>.
\<close>

definition sent_by :: "sent \<Rightarrow> rdpRdp \<Rightarrow> (bool \<times> rdpRdp) option" where
  \<comment> \<open>The packets of an MCS routine become events.\<close>
  "sent_by r rdp =
     (case r of Crashed \<Rightarrow> None
      | Returned ok ws \<Rightarrow> Some (ok, rdp\<lparr>rdp_events := map Sent (rev ws) @ rdp_events rdp\<rparr>))"

fun calling :: "(bool \<times> rdpRdp) option \<Rightarrow> freerdp_peer \<Rightarrow> wStream \<Rightarrow> (freerdp_peer \<Rightarrow> (bool \<times> freerdp_peer) res) \<Rightarrow> (bool \<times> freerdp_peer) res" where
  \<comment> \<open>A call on \<open>rdp\<close> whose FALSE makes the caller return FALSE.\<close>
  "calling None p s k = Overrun"
| "calling (Some (ok, rdp)) p s k = (if ok then k (p\<lparr>p_rdp := rdp\<rparr>) else Ok (False, p\<lparr>p_rdp := rdp\<rparr>) s)"

abbreviation (input) on_rdp :: "freerdp_peer \<Rightarrow> (bool \<times> rdpRdp) res \<Rightarrow> (bool \<times> freerdp_peer) res" where
  "on_rdp p r \<equiv> andthen r (\<lambda>(ok, rdp) s. Ok (ok, p\<lparr>p_rdp := rdp\<rparr>) s)"

definition gcc_of :: "rdpRdp \<Rightarrow> gcc" where
  "gcc_of rdp = (rdp_mcs rdp, gccSettings.truncate (rdp_settings rdp))"

definition with_gcc :: "gcc \<Rightarrow> freerdp_peer \<Rightarrow> freerdp_peer" where
  "with_gcc g p =
     p\<lparr>p_rdp := (p_rdp p)\<lparr>rdp_mcs := fst g,
        rdp_settings := gccSettings.extend (snd g) (gccSettings.more (rdp_settings (p_rdp p)))\<rparr>\<rparr>"

subsection \<open>States\<close>

definition rdp_server_transition_to_state :: "peer_env \<Rightarrow> CONNECTION_STATE \<Rightarrow> freerdp_peer \<Rightarrow> int \<times> freerdp_peer" where
  \<comment> \<open>\<open>client\<close> is not NULL from the security commencement on.\<close>
  "rdp_server_transition_to_state env st p =
     (let client = (CONNECTION_STATE_RDP_SECURITY_COMMENCEMENT \<le> conn_state (p_rdp p));
          p = (if conn_state (p_rdp p) < CONNECTION_STATE_ACTIVE \<and> client then p\<lparr>p_activated := False\<rparr> else p);
          entered = p\<lparr>p_rdp := (p_rdp p)\<lparr>conn_state := st\<rparr>\<rparr>
      in case st of
           CONNECTION_STATE_NLA \<Rightarrow> (-1, p)
         | CONNECTION_STATE_CAPABILITIES_EXCHANGE \<Rightarrow> (0, p\<lparr>p_rdp := (p_rdp p)\<lparr>conn_state := st, AwaitCapabilities := False\<rparr>\<rparr>)
         | CONNECTION_STATE_FINALIZATION \<Rightarrow> (0, p\<lparr>p_rdp := (p_rdp p)\<lparr>conn_state := st, finalize_sc_pdus := 0\<rparr>\<rparr>)
         | CONNECTION_STATE_ACTIVE \<Rightarrow>
             (if \<not> client then (0, entered)
              else
                (let p = (if p_connected entered then entered
                          else entered\<lparr>p_connected := (case pe_PostConnect env of None \<Rightarrow> False | Some f \<Rightarrow> f entered)\<rparr>)
                 in if \<not> p_connected p then (-1, p)
                    else
                      (let p = p\<lparr>p_activated := (case pe_Activate env of None \<Rightarrow> p_activated p | Some f \<Rightarrow> f p)\<rparr>
                       in (if p_activated p then 0 else -1, p))))
         | _ \<Rightarrow> (0, entered))"

abbreviation (input) enter :: "peer_env \<Rightarrow> CONNECTION_STATE \<Rightarrow> freerdp_peer \<Rightarrow> freerdp_peer" where
  \<comment> \<open>The result of the transition is ignored.\<close>
  "enter env st p \<equiv> snd (rdp_server_transition_to_state env st p)"

subsection \<open>Negotiation\<close>

definition transport_accept_tls :: "peer_env \<Rightarrow> freerdp_peer \<Rightarrow> bool" where
  "transport_accept_tls env p = pe_tls_accept env p"

definition transport_accept_nla :: "peer_env \<Rightarrow> freerdp_peer \<Rightarrow> bool \<times> freerdp_peer" where
  "transport_accept_nla env p =
     (if \<not> pe_tls_accept env p then (False, p)
      else if \<not> Authentication (rdp_settings (p_rdp p)) then (True, p)
      else
        (let p = p\<lparr>p_nla := True\<rparr>
         in if pe_nla_authenticate env p < 0 then (False, p\<lparr>p_nla := False\<rparr>) else (True, p)))"

definition server_selection :: "secSettings \<Rightarrow> u32 \<Rightarrow> u32" where
  \<comment> \<open>The protocol \<open>rdp_server_accept_nego\<close> selects, or the reason of the failure.\<close>
  "server_selection settings requested =
     (if NlaSecurity settings \<and> requested AND PROTOCOL_NLA \<noteq> 0 then PROTOCOL_NLA
      else if TlsSecurity settings \<and> requested AND PROTOCOL_TLS \<noteq> 0 then PROTOCOL_TLS
      else if RdpSecurity settings \<and> requested = PROTOCOL_RDP then PROTOCOL_RDP
      else PROTOCOL_FAILED_NEGO OR
        (if RdpSecurity settings then SSL_NOT_ALLOWED_BY_SERVER
         else if NlaSecurity settings \<and> \<not> TlsSecurity settings then HYBRID_REQUIRED_BY_SERVER
         else SSL_REQUIRED_BY_SERVER))"

definition rdp_server_accept_nego :: "peer_env \<Rightarrow> freerdp_peer \<Rightarrow> wStream \<Rightarrow> (bool \<times> freerdp_peer) res" where
  "rdp_server_accept_nego env p s =
     failing (nego_read_request (pe_realloc env) (p_nego p) s) (False, p) (\<lambda>nego s.
       let settings = rdp_settings (p_rdp p);
           nego = nego\<lparr>SelectedProtocol := server_selection settings (RequestedProtocols nego)\<rparr>
       in case nego_send_negotiation_response (pe_net env) nego (rdpSettings.truncate settings) of
            None \<Rightarrow> Overrun
          | Some (ok, nego, updated) \<Rightarrow>
              (let p = p\<lparr>p_nego := nego, p_rdp := (p_rdp p)\<lparr>rdp_settings := rdpSettings.extend updated (rdpSettings.more settings)\<rparr>\<rparr>
               in if \<not> ok then Ok (False, p) s
                  else
                    (let (status, p) =
                       (if SelectedProtocol nego AND PROTOCOL_NLA \<noteq> 0 then transport_accept_nla env p
                        else if SelectedProtocol nego AND PROTOCOL_TLS \<noteq> 0 then (transport_accept_tls env p, p)
                        else (SelectedProtocol nego = PROTOCOL_RDP, p))
                     in if \<not> status then Ok (False, p) s
                        else Ok (True, enter env CONNECTION_STATE_NEGO p) s)))"

subsection \<open>The MCS domain\<close>

definition rdp_server_accept_mcs_connect_initial :: "peer_env \<Rightarrow> freerdp_peer \<Rightarrow> wStream \<Rightarrow> (bool \<times> freerdp_peer) res" where
  \<comment> \<open>A call that does not end counts as a crash.\<close>
  "rdp_server_accept_mcs_connect_initial env p s =
     (case mcs_recv_connect_initial (pe_lib env) s (gcc_of (p_rdp p)) of
        None \<Rightarrow> Overrun
      | Some r \<Rightarrow>
          failing r (False, p) (\<lambda>g s.
            case mcs_send_connect_response (pe_mcs env) (pe_lib env) (pe_realloc env) g of
              None \<Rightarrow> Overrun
            | Some (r, g) \<Rightarrow>
                (let p = with_gcc g p
                 in calling (sent_by r (p_rdp p)) p s (\<lambda>p. Ok (True, enter env CONNECTION_STATE_MCS_CONNECT p) s))))"

definition rdp_server_accept_mcs_erect_domain_request :: "peer_env \<Rightarrow> freerdp_peer \<Rightarrow> wStream \<Rightarrow> (bool \<times> freerdp_peer) res" where
  "rdp_server_accept_mcs_erect_domain_request env p s =
     failing (mcs_recv_erect_domain_request s) (False, p) (\<lambda>_ s.
       Ok (True, enter env CONNECTION_STATE_MCS_ERECT_DOMAIN p) s)"

definition rdp_server_accept_mcs_attach_user_request :: "peer_env \<Rightarrow> freerdp_peer \<Rightarrow> wStream \<Rightarrow> (bool \<times> freerdp_peer) res" where
  "rdp_server_accept_mcs_attach_user_request env p s =
     failing (mcs_recv_attach_user_request s) (False, p) (\<lambda>_ s.
       let (r, mcs) = mcs_send_attach_user_confirm (pe_mcs env) (rdp_mcs (p_rdp p))
       in calling (sent_by r ((p_rdp p)\<lparr>rdp_mcs := mcs\<rparr>)) p s (\<lambda>p.
            Ok (True, enter env CONNECTION_STATE_MCS_ATTACH_USER p) s))"

primrec mark_joined :: "u16 \<Rightarrow> rdpMcsChannel list \<Rightarrow> nat \<Rightarrow> (rdpMcsChannel list \<times> bool) option" where
  \<comment> \<open>The loop of \<open>rdp_server_accept_mcs_channel_join_request\<close> over the first \<open>n\<close> cells, with \<open>allJoined\<close>.\<close>
  "mark_joined channelId [] n = (if n = 0 then Some ([], True) else None)"
| "mark_joined channelId (c # cs) n =
     (if n = 0 then Some (c # cs, True)
      else
        (let c = (if ChannelId c = uint channelId then c\<lparr>ch_joined := True\<rparr> else c)
         in map_option (\<lambda>(cs, allJoined). (c # cs, ch_joined c \<and> allJoined)) (mark_joined channelId cs (n - 1))))"

definition rdp_server_accept_mcs_channel_join_request :: "peer_env \<Rightarrow> freerdp_peer \<Rightarrow> wStream \<Rightarrow> (bool \<times> freerdp_peer) res" where
  "rdp_server_accept_mcs_channel_join_request env p s =
     failing (mcs_recv_channel_join_request (rdp_mcs (p_rdp p)) s) (False, p) (\<lambda>channelId s.
       calling (sent_by (mcs_send_channel_join_confirm (pe_mcs env) (rdp_mcs (p_rdp p)) channelId) (p_rdp p)) p s (\<lambda>p.
         let mcs = rdp_mcs (p_rdp p);
             mcs = (if channelId = userId mcs then mcs\<lparr>userChannelJoined := True\<rparr>
                    else if channelId = MCS_GLOBAL_CHANNEL_ID then mcs\<lparr>globalChannelJoined := True\<rparr>
                    else if channelId = messageChannelId mcs then mcs\<lparr>messageChannelJoined := True\<rparr>
                    else mcs)
         in case mark_joined channelId (channels mcs) (unat (channelCount mcs)) of
              None \<Rightarrow> Overrun
            | Some (cs, allJoined) \<Rightarrow>
                (let p = p\<lparr>p_rdp := (p_rdp p)\<lparr>rdp_mcs := mcs\<lparr>channels := cs\<rparr>\<rparr>\<rparr>
                 in Ok (True,
                     if userChannelJoined mcs \<and> globalChannelJoined mcs \<and>
                        (messageChannelId mcs = 0 \<or> messageChannelJoined mcs) \<and> allJoined
                     then enter env CONNECTION_STATE_RDP_SECURITY_COMMENCEMENT p else p) s)))"

subsection \<open>Client info and license\<close>

definition rdp_recv_client_info :: "peer_env \<Rightarrow> rdpRdp \<Rightarrow> wStream \<Rightarrow> (bool \<times> rdpRdp) res" where
  "rdp_recv_client_info env rdp s =
     failing (rdp_read_header rdp s (pe_garbage env)) (False, rdp) (\<lambda>(len, channelId, rdp) s.
     failing (rdp_read_security_header s) (False, rdp) (\<lambda>securityFlags s.
       if securityFlags AND SEC_INFO_PKT = 0 then Ok (False, rdp) s
       else if UseRdpSecurityLayer (rdp_settings rdp) \<and> securityFlags AND ucast SEC_REDIRECTION_PKT \<noteq> 0 then Ok (False, rdp) s
       else if UseRdpSecurityLayer (rdp_settings rdp) \<and> securityFlags AND ucast SEC_ENCRYPT \<noteq> 0 then
         andthen (rdp_decrypt (s_crypto (pe_session env)) rdp s (uint len - 4) securityFlags) (\<lambda>(ok, rdp) s.
           if \<not> ok then Ok (False, rdp) s
           else failing (pe_read_info_packet env rdp s) (False, rdp) (\<lambda>_ s. Ok (True, rdp) s))
       else failing (pe_read_info_packet env rdp s) (False, rdp) (\<lambda>_ s. Ok (True, rdp) s)))"

definition license_write_preamble :: "wStream \<Rightarrow> u8 \<Rightarrow> u8 \<Rightarrow> u16 \<Rightarrow> unit res" where
  "license_write_preamble s bMsgType fl wMsgSize =
     andthen (Stream_Write_UINT8 s bMsgType) (\<lambda>_ s.
     andthen (Stream_Write_UINT8 s fl) (\<lambda>_ s. Stream_Write_UINT16 s wMsgSize))"

definition license_send_stream_init :: "rdpRdp \<Rightarrow> wStream option \<Rightarrow> rdpRdp \<times> (wStream \<times> nat) option" where
  \<comment> \<open>With \<open>license->PacketHeaderLength\<close>. Without a stream \<open>do_crypt\<close> is not restored.\<close>
  "license_send_stream_init rdp taken =
     (let crypt = do_crypt rdp;
          rdp = rdp\<lparr>sec_flags := SEC_LICENSE_PKT\<rparr>;
          rdp = (if crypt then rdp\<lparr>sec_flags := sec_flags rdp OR SEC_LICENSE_ENCRYPT_CS, do_crypt := do_crypt_license rdp\<rparr> else rdp)
      in case taken of None \<Rightarrow> (rdp, None)
         | Some s \<Rightarrow>
             (case rdp_init_stream rdp s of (rdp, s) \<Rightarrow>
                (rdp\<lparr>do_crypt := crypt\<rparr>, Some (Stream_Seek s 4, s_pos s))))"

definition license_send :: "crypto \<Rightarrow> (bytes \<Rightarrow> int) \<Rightarrow> rdpRdp \<Rightarrow> wStream \<Rightarrow> nat \<Rightarrow> u8 \<Rightarrow> (bool \<times> bytes list \<times> rdpRdp) res" where
  \<comment> \<open>The result of \<open>rdp_send\<close> is ignored. The fifth argument is \<open>PacketHeaderLength\<close>.\<close>
  "license_send c write rdp s header type =
     (let len = s_pos s; wMsgSize = word_of_int (int len - int header);
          fl = (if ServerMode (rdp_settings rdp) then 3 else 3 OR 0x80)
      in andthen (license_write_preamble (Stream_SetPosition s header) type fl wMsgSize) (\<lambda>_ s.
         andthen (rdp_send c write rdp (Stream_SetPosition s len) MCS_GLOBAL_CHANNEL_ID) (\<lambda>(_, ws, rdp) s.
           Ok (True, ws, rdp\<lparr>sec_flags := 0\<rparr>) s)))"

definition license_write_binary_blob :: "bool \<Rightarrow> wStream \<Rightarrow> u16 \<times> bytes \<Rightarrow> unit res" where
  \<comment> \<open>A blob is its type and its data.\<close>
  "license_write_binary_blob realloc_ok s blob =
     (case blob of (type, data) \<Rightarrow>
        (case Stream_EnsureRemainingCapacity 64 realloc_ok s (length data + 4) of
           None \<Rightarrow> Overrun
         | Some r \<Rightarrow>
             andthen r (\<lambda>_ s.
             andthen (Stream_Write_UINT16 s type) (\<lambda>_ s.
             andthen (Stream_Write_UINT16 s (word_of_nat (length data))) (\<lambda>_ s.
               if data \<noteq> [] then Stream_Write s data else Ok () s)))))"

definition license_send_valid_client_error_packet :: "peer_env \<Rightarrow> rdpRdp \<Rightarrow> (bool \<times> rdpRdp) option" where
  \<comment> \<open>\<open>license->ErrorInfo\<close> is empty.\<close>
  "license_send_valid_client_error_packet env rdp =
     (case license_send_stream_init rdp (map_option Stream_New (pe_license_pool env)) of
        (rdp, None) \<Rightarrow> Some (False, rdp)
      | (rdp, Some (s, header)) \<Rightarrow>
          sending
            (andthen (Stream_Write_UINT32 s 7) (\<lambda>_ s.
             andthen (Stream_Write_UINT32 s 2) (\<lambda>_ s.
             failing (license_write_binary_blob (pe_realloc env) s (4, [])) (False, [], rdp) (\<lambda>_ s.
             license_send (s_crypto (pe_session env)) (s_write (pe_session env)) rdp s header 0xFF)))))"

subsection \<open>Capabilities\<close>

definition rdp_write_demand_active :: "peer_env \<Rightarrow> wStream \<Rightarrow> secSettings \<Rightarrow> unit res" where
  \<comment> \<open>A stream that cannot grow is used as it is.\<close>
  "rdp_write_demand_active env s settings =
     (let body = (\<lambda>s.
            andthen (Stream_Write_UINT32 s (ShareId settings)) (\<lambda>_ s.
            andthen (Stream_Write_UINT16 s 4) (\<lambda>_ s.
            let lm = s_pos s
            in andthen (Stream_Write (Stream_Seek s 2) [0x52, 0x44, 0x50, 0]) (\<lambda>_ s.
               let bm = s_pos s
               in andthen (Stream_Write_UINT16 (Stream_Seek s 2) 0) (\<lambda>_ s.
                  andthen (pe_write_capability_sets env settings s) (\<lambda>_ s.
                  let em = s_pos s;
                      numberCapabilities = (if BitmapCachePersistEnabled settings then 15 else 14)
                  in andthen (Stream_Write_UINT16 (Stream_SetPosition s lm) (word_of_int (int em - int bm))) (\<lambda>_ s.
                     andthen (Stream_Write_UINT16 (Stream_SetPosition s bm) numberCapabilities) (\<lambda>_ s.
                     Stream_Write_UINT32 (Stream_SetPosition s em) 0))))))))
      in case Stream_EnsureRemainingCapacity 64 (pe_realloc env) s 64 of
           Some (Ok _ s) \<Rightarrow> body s
         | Some (Fail s) \<Rightarrow> body s
         | _ \<Rightarrow> Overrun)"

definition rdp_send_demand_active :: "peer_env \<Rightarrow> rdpRdp \<Rightarrow> (bool \<times> rdpRdp) option" where
  "rdp_send_demand_active env rdp =
     (case s_new (pe_session env) 4096 of None \<Rightarrow> Some (False, rdp)
      | Some mem \<Rightarrow>
          (case rdp_init_stream_pdu rdp (Stream_New mem) of (rdp, s) \<Rightarrow>
             (let rdp = rdp\<lparr>rdp_settings := (rdp_settings rdp)\<lparr>ShareId := 0x10000 + ucast (userId (rdp_mcs rdp))\<rparr>\<rparr>
              in sending
                   (andthen (rdp_write_demand_active env s (rdp_settings rdp)) (\<lambda>_ s.
                    rdp_send_pdu (s_crypto (pe_session env)) (s_write (pe_session env)) rdp s PDU_TYPE_DEMAND_ACTIVE
                      (userId (rdp_mcs rdp)))))))"

definition without_capabilities :: "secSettings \<Rightarrow> secSettings" where
  \<comment> \<open>The end of \<open>rdp_recv_confirm_active\<close>: what the client did not announce is turned off.\<close>
  "without_capabilities settings =
     (let has = ReceivedCapabilities settings;
          settings = (if has CAPSET_TYPE_SURFACE_COMMANDS then settings
                      else settings\<lparr>SurfaceCommandsEnabled := False, SurfaceFrameMarkerEnabled := False\<rparr>);
          settings = (if has CAPSET_TYPE_FRAME_ACKNOWLEDGE then settings else settings\<lparr>FrameAcknowledge := 0\<rparr>);
          settings = (if has CAPSET_TYPE_BITMAP_CACHE_V3_CODEC_ID then settings else settings\<lparr>BitmapCacheV3Enabled := False\<rparr>);
          settings = (if has CAPSET_TYPE_BITMAP_CODECS then settings
                      else settings\<lparr>RemoteFxCodec := False, NSCodec := False, JpegCodec := False\<rparr>);
          settings = (if has CAPSET_TYPE_MULTI_FRAGMENT_UPDATE then settings else settings\<lparr>MultifragMaxRequestSize := 0x3F80\<rparr>)
      in if has CAPSET_TYPE_LARGE_POINTER then settings else settings\<lparr>LargePointerFlag := 0\<rparr>)"

definition rdp_recv_confirm_active :: "peer_env \<Rightarrow> rdpRdp \<Rightarrow> wStream \<Rightarrow> (bool \<times> rdpRdp) res" where
  "rdp_recv_confirm_active env rdp s =
     (if Stream_GetRemainingLength s < 10 then Ok (False, rdp) s
      else
        andthen (Stream_Read_UINT16 (Stream_Seek (Stream_Seek s 4) 2)) (\<lambda>lengthSourceDescriptor s.
        andthen (Stream_Read_UINT16 s) (\<lambda>lengthCombinedCapabilities s.
          if c_int (Stream_GetRemainingLength s) < uint lengthSourceDescriptor + 4 then Ok (False, rdp) s
          else
            andthen (Stream_Read_UINT16 (Stream_Seek s (unat lengthSourceDescriptor))) (\<lambda>numberCapabilities s.
            andthen (pe_read_capability_sets env (rdp_settings rdp) numberCapabilities (Stream_Seek s 2)) (\<lambda>(status, settings) s.
              Ok (status, rdp\<lparr>rdp_settings := without_capabilities settings\<rparr>) s)))))"

definition rdp_server_accept_confirm_active :: "peer_env \<Rightarrow> freerdp_peer \<Rightarrow> wStream \<Rightarrow> (bool \<times> freerdp_peer) res" where
  "rdp_server_accept_confirm_active env p s =
     (if conn_state (p_rdp p) \<noteq> CONNECTION_STATE_CAPABILITIES_EXCHANGE then Ok (False, p) s
      else
        andthen (rdp_recv_confirm_active env (p_rdp p) s) (\<lambda>(ok, rdp) s.
          if \<not> ok then Ok (False, p\<lparr>p_rdp := rdp\<rparr>) s
          else
            (let rdp = (if SaltedChecksum (rdp_settings rdp) then rdp\<lparr>do_secure_checksum := True\<rparr> else rdp);
                 p = enter env CONNECTION_STATE_FINALIZATION (p\<lparr>p_rdp := rdp\<rparr>)
             in calling (rdp_send_server_synchronize_pdu (pe_session env) (p_rdp p)) p s (\<lambda>p.
                calling (rdp_send_server_control_cooperate_pdu (pe_session env) (p_rdp p)) p s (\<lambda>p. Ok (True, p) s)))))"

definition rdp_server_reactivate :: "peer_env \<Rightarrow> freerdp_peer \<Rightarrow> wStream \<Rightarrow> (bool \<times> freerdp_peer) res" where
  \<comment> \<open>Called by the application; the stream is that of the result only.\<close>
  "rdp_server_reactivate env p s =
     (let p = p\<lparr>p_activated := False\<rparr>
      in calling (rdp_send_deactivate_all (pe_session env) (p_rdp p)) p s (\<lambda>p.
           let p = enter env CONNECTION_STATE_CAPABILITIES_EXCHANGE p
           in calling (rdp_send_demand_active env (p_rdp p)) p s (\<lambda>p.
                Ok (True, p\<lparr>p_rdp := (p_rdp p)\<lparr>AwaitCapabilities := True\<rparr>\<rparr>) s)))"

definition rdp_server_accept_client_control_pdu :: "peer_env \<Rightarrow> freerdp_peer \<Rightarrow> wStream \<Rightarrow> (bool \<times> freerdp_peer) res" where
  "rdp_server_accept_client_control_pdu env p s =
     failing (rdp_recv_control_pdu s) (False, p) (\<lambda>action s.
       if action = CTRLACTION_REQUEST_CONTROL
       then calling (rdp_send_server_control_granted_pdu (pe_session env) (p_rdp p)) p s (\<lambda>p. Ok (True, p) s)
       else Ok (True, p) s)"

definition rdp_server_accept_client_font_list_pdu :: "peer_env \<Rightarrow> freerdp_peer \<Rightarrow> wStream \<Rightarrow> (bool \<times> freerdp_peer) res" where
  "rdp_server_accept_client_font_list_pdu env p s =
     failing (rdp_recv_client_font_list_pdu s) (False, p) (\<lambda>_ s.
       calling (rdp_send_server_font_map_pdu (pe_session env) (p_rdp p)) p s (\<lambda>p.
         case rdp_server_transition_to_state env CONNECTION_STATE_ACTIVE p of (status, p) \<Rightarrow> Ok (\<not> status < 0, p) s))"

subsection \<open>Packets of a session\<close>

definition freerdp_channel_peer_process :: "peer_env \<Rightarrow> freerdp_peer \<Rightarrow> wStream \<Rightarrow> u16 \<Rightarrow> (bool \<times> freerdp_peer) res" where
  \<comment> \<open>What the callback of the application is given is an event.\<close>
  "freerdp_channel_peer_process env p s channelId =
     (if Stream_GetRemainingLength s < 8 then Ok (False, p) s
      else
        andthen (Stream_Read_UINT32 s) (\<lambda>_ s.
        andthen (Stream_Read_UINT32 s) (\<lambda>_ s.
          let mcs = rdp_mcs (p_rdp p);
              told = p\<lparr>p_rdp := (p_rdp p)\<lparr>rdp_events := ChannelData channelId (avail s) # rdp_events (p_rdp p)\<rparr>\<rparr>
          in if pe_VirtualChannelRead env then
               (if \<exists>c \<in> set (take (unat (channelCount mcs)) (channels mcs)). ChannelId c = uint channelId
                then Ok (True, told) s else Ok (False, p) s)
             else if pe_ReceiveChannelData env then Ok (True, told) s
             else Ok (True, p) s)))"

definition peer_recv_data_pdu :: "peer_env \<Rightarrow> freerdp_peer \<Rightarrow> wStream \<Rightarrow> (bool \<times> freerdp_peer) res" where
  "peer_recv_data_pdu env p s =
     failing (rdp_read_share_data_header s) (False, p) (\<lambda>hdr s.
       let type = sd_type hdr
       in if type = DATA_PDU_TYPE_SYNCHRONIZE then on_rdp p (rdp_recv_client_synchronize_pdu (p_rdp p) s)
          else if type = DATA_PDU_TYPE_CONTROL then rdp_server_accept_client_control_pdu env p s
          else if type = DATA_PDU_TYPE_INPUT then failing (pe_input_recv env (p_rdp p) s) (False, p) (\<lambda>_ s. Ok (True, p) s)
          else if type = DATA_PDU_TYPE_BITMAP_CACHE_PERSISTENT_LIST then Ok (True, p) s
          else if type = DATA_PDU_TYPE_FONT_LIST then rdp_server_accept_client_font_list_pdu env p s
          else if type = DATA_PDU_TYPE_SHUTDOWN_REQUEST then
            (case sent_by (mcs_send_disconnect_provider_ultimatum (pe_mcs env)) (p_rdp p) of
               None \<Rightarrow> Overrun
             | Some (_, rdp) \<Rightarrow> Ok (False, p\<lparr>p_rdp := rdp\<rparr>) s)
          else if type = DATA_PDU_TYPE_FRAME_ACKNOWLEDGE then
            (if Stream_GetRemainingLength s < 4 then Ok (False, p) s
             else andthen (Stream_Read_UINT32 s) (\<lambda>fid s. Ok (True, p\<lparr>ack_frame_id := fid\<rparr>) s))
          else if type = DATA_PDU_TYPE_REFRESH_RECT then failing (pe_refresh_rect env (p_rdp p) s) (False, p) (\<lambda>_ s. Ok (True, p) s)
          else if type = DATA_PDU_TYPE_SUPPRESS_OUTPUT then failing (pe_suppress_output env (p_rdp p) s) (False, p) (\<lambda>_ s. Ok (True, p) s)
          else Ok (True, p) s)"

abbreviation (input) as_int :: "(bool \<times> freerdp_peer) res \<Rightarrow> (int \<times> freerdp_peer) res" where
  "as_int r \<equiv> andthen r (\<lambda>(ok, p) s. Ok (if ok then 0 else -1, p) s)"

definition peer_dispatch :: "peer_env \<Rightarrow> freerdp_peer \<Rightarrow> u16 \<Rightarrow> u16 \<Rightarrow> wStream \<Rightarrow> (int \<times> freerdp_peer) res" where
  \<comment> \<open>The end of \<open>peer_recv_tpkt_pdu\<close>, on the channel of the packet. The flow control types are above 15 and
    come only from a flow control PDU.\<close>
  "peer_dispatch env p channelId securityFlags s =
     (let mcs = rdp_mcs (p_rdp p); message = messageChannelId mcs;
          on_message = (\<lambda>fl s. andthen (rdp_recv_message_channel_pdu (pe_handlers env) (p_rdp p) s fl)
                                 (\<lambda>(i, rdp) s. Ok (i, p\<lparr>p_rdp := rdp\<rparr>) s))
      in if channelId = MCS_GLOBAL_CHANNEL_ID then
           failing (rdp_read_share_control_header s) (-1, p) (\<lambda>(pduLength, pduType, pduSource) s.
             let p = p\<lparr>p_rdp := (p_rdp p)\<lparr>rdp_settings := (rdp_settings (p_rdp p))\<lparr>PduSource := ucast pduSource\<rparr>\<rparr>\<rparr>
             in if pduType = PDU_TYPE_DATA then as_int (peer_recv_data_pdu env p s)
                else if pduType = PDU_TYPE_CONFIRM_ACTIVE then as_int (rdp_server_accept_confirm_active env p s)
                else if pduType = PDU_TYPE_FLOW_RESPONSE \<or> pduType = PDU_TYPE_FLOW_STOP \<or> pduType = PDU_TYPE_FLOW_TEST
                then Ok (0, p) s
                else Ok (-1, p) s)
         else if message \<noteq> 0 \<and> channelId = message then
           (if \<not> UseRdpSecurityLayer (rdp_settings (p_rdp p))
            then failing (rdp_read_security_header s) (-1, p) on_message
            else on_message securityFlags s)
         else as_int (freerdp_channel_peer_process env p s channelId))"

definition peer_recv_tpkt_pdu :: "peer_env \<Rightarrow> freerdp_peer \<Rightarrow> wStream \<Rightarrow> (int \<times> freerdp_peer) res" where
  "peer_recv_tpkt_pdu env p s =
     andthen (recv_packet (s_crypto (pe_session env)) server_encrypted (p_rdp p) s (pe_garbage env)) (\<lambda>r s.
       case r of
         Inl (i, rdp) \<Rightarrow> Ok (i, p\<lparr>p_rdp := rdp\<rparr>) s
       | Inr (channelId, securityFlags, rdp) \<Rightarrow> peer_dispatch env (p\<lparr>p_rdp := rdp\<rparr>) channelId securityFlags s)"

definition fastpath_read_header_rdp :: "wStream \<Rightarrow> (u8 \<times> u8 \<times> u16 option) res" where
  \<comment> \<open>\<open>encryptionFlags\<close>, \<open>numberEvents\<close> and, unless it returns FALSE, the length.\<close>
  "fastpath_read_header_rdp s =
     andthen (Stream_Read_UINT8 s) (\<lambda>header s.
       let enc = drop_bit 6 (header AND 0xC0); events = drop_bit 2 (header AND 0x3C)
       in failing (per_read_length s) (enc, events, None) (\<lambda>len s.
            Ok (enc, events, Some (len - word_of_nat (s_pos s))) s))"

definition peer_recv_fastpath_pdu :: "peer_env \<Rightarrow> freerdp_peer \<Rightarrow> wStream \<Rightarrow> (int \<times> freerdp_peer) res" where
  \<comment> \<open>The result of reading the header is ignored: \<open>length\<close> may be uninitialised.\<close>
  "peer_recv_fastpath_pdu env p s =
     andthen (fastpath_read_header_rdp s) (\<lambda>(enc, events, len) s.
       let len = (case len of Some n \<Rightarrow> n | None \<Rightarrow> pe_garbage env)
       in if len = 0 \<or> unat len > Stream_GetRemainingLength s then Ok (-1, p) s
          else if enc AND 2 \<noteq> 0 then
            andthen (rdp_decrypt (s_crypto (pe_session env)) (p_rdp p) s (uint len)
                (if enc AND 1 \<noteq> 0 then ucast SEC_SECURE_CHECKSUM else 0)) (\<lambda>(ok, rdp) s.
              if \<not> ok then Ok (-1, p\<lparr>p_rdp := rdp\<rparr>) s
              else failing (pe_fastpath_recv_inputs env rdp s) (-1, p\<lparr>p_rdp := rdp\<rparr>) (\<lambda>i s. Ok (i, p\<lparr>p_rdp := rdp\<rparr>) s))
          else failing (pe_fastpath_recv_inputs env (p_rdp p) s) (-1, p) (\<lambda>i s. Ok (i, p) s))"

definition peer_recv_pdu :: "peer_env \<Rightarrow> freerdp_peer \<Rightarrow> wStream \<Rightarrow> (int \<times> freerdp_peer) res" where
  "peer_recv_pdu env p s =
     andthen (tpkt_verify_header s) (\<lambda>tpkt s.
       if tpkt then peer_recv_tpkt_pdu env p s else peer_recv_fastpath_pdu env p s)"

subsection \<open>The state machine\<close>

definition freerdp_peer_initialize :: "bool \<Rightarrow> bool \<Rightarrow> freerdp_peer \<Rightarrow> bool \<times> freerdp_peer" where
  \<comment> \<open>The arguments: whether the application runs on the local machine, and whether \<open>key_new\<close> reads the key.\<close>
  "freerdp_peer_initialize local key_ok p =
     (let rdp = p_rdp p; st = (rdp_settings rdp)\<lparr>ServerMode := True, FrameAcknowledge := 0, LocalConnection := local\<rparr>;
          init = (\<lambda>st. p\<lparr>p_rdp := rdp\<lparr>rdp_settings := st, conn_state := CONNECTION_STATE_INITIAL\<rparr>\<rparr>)
      in if RdpKeyFile st then (key_ok, init (st\<lparr>RdpServerRsaKey := key_ok\<rparr>)) else (True, init st))"

definition peer_logon :: "peer_env \<Rightarrow> freerdp_peer \<Rightarrow> bool \<Rightarrow> freerdp_peer" where
  \<comment> \<open>\<open>IFCALLRET(client->Logon, client->authenticated, ...)\<close>.\<close>
  "peer_logon env p automatic =
     (case pe_Logon env of None \<Rightarrow> p | Some f \<Rightarrow> p\<lparr>p_authenticated := f p automatic\<rparr>)"

definition peer_accept_client :: "peer_env \<Rightarrow> freerdp_peer \<Rightarrow> wStream \<Rightarrow> (int \<times> freerdp_peer) res" where
  \<comment> \<open>The case \<open>CONNECTION_STATE_INITIAL\<close>. With NLA \<open>transport->nla\<close> is followed without a check.\<close>
  "peer_accept_client env p s =
     andthen (rdp_server_accept_nego env p s) (\<lambda>(ok, p) s.
       if \<not> ok then Ok (-1, p) s
       else if SelectedProtocol (p_nego p) AND PROTOCOL_NLA \<noteq> 0 then
         (if \<not> p_nla p then Overrun else Ok (0, (peer_logon env p True)\<lparr>p_nla := False\<rparr>) s)
       else Ok (0, peer_logon env p False) s)"

definition peer_capabilities :: "peer_env \<Rightarrow> freerdp_peer \<Rightarrow> wStream option \<Rightarrow> (int \<times> freerdp_peer) res" where
  \<comment> \<open>The case \<open>CONNECTION_STATE_CAPABILITIES_EXCHANGE\<close>. \<open>s\<close> may be NULL.\<close>
  "peer_capabilities env p so =
     (let received = (\<lambda>p s. andthen (peer_recv_pdu env p s) (\<lambda>(i, p) s. Ok (if i < 0 then -1 else 0, p) s))
      in if \<not> AwaitCapabilities (p_rdp p) then
           (let p = p\<lparr>p_rdp := (p_rdp p)\<lparr>rdp_settings := pe_Capabilities env (rdp_settings (p_rdp p))\<rparr>\<rparr>
            in case rdp_send_demand_active env (p_rdp p) of
                 None \<Rightarrow> Overrun
               | Some (False, rdp) \<Rightarrow> Ok (-1, p\<lparr>p_rdp := rdp\<rparr>) (Stream_New [])
               | Some (True, rdp) \<Rightarrow>
                   (let p = p\<lparr>p_rdp := rdp\<lparr>AwaitCapabilities := True\<rparr>\<rparr>
                    in case so of None \<Rightarrow> Ok (0, p) (Stream_New []) | Some s \<Rightarrow> received p s))
         else (case so of None \<Rightarrow> Overrun | Some s \<Rightarrow> received p s))"

lemma conn_state_enter [simp]:
  "st \<noteq> CONNECTION_STATE_NLA \<Longrightarrow> conn_state (p_rdp (enter env st p)) = st"
  by (cases st) (simp_all add: rdp_server_transition_to_state_def Let_def)

function (sequential) peer_recv_callback :: "peer_env \<Rightarrow> freerdp_peer \<Rightarrow> wStream option \<Rightarrow> (int \<times> freerdp_peer) res" where
  \<comment> \<open>With a NULL stream only two states do not follow it. The stream of the result is not used.\<close>
  "peer_recv_callback env p so =
     (case (conn_state (p_rdp p), so) of
        (CONNECTION_STATE_LICENSING, _) \<Rightarrow>
          (case license_send_valid_client_error_packet env (p_rdp p) of
             None \<Rightarrow> Overrun
           | Some (ok, rdp) \<Rightarrow>
               (if \<not> ok then Ok (0, p\<lparr>p_rdp := rdp\<rparr>) (Stream_New [])
                else peer_recv_callback env (enter env CONNECTION_STATE_CAPABILITIES_EXCHANGE (p\<lparr>p_rdp := rdp\<rparr>)) None))
      | (CONNECTION_STATE_CAPABILITIES_EXCHANGE, _) \<Rightarrow> peer_capabilities env p so
      | (_, None) \<Rightarrow> Overrun
      | (CONNECTION_STATE_INITIAL, Some s) \<Rightarrow> peer_accept_client env p s
      | (CONNECTION_STATE_NEGO, Some s) \<Rightarrow> as_int (rdp_server_accept_mcs_connect_initial env p s)
      | (CONNECTION_STATE_MCS_CONNECT, Some s) \<Rightarrow> as_int (rdp_server_accept_mcs_erect_domain_request env p s)
      | (CONNECTION_STATE_MCS_ERECT_DOMAIN, Some s) \<Rightarrow> as_int (rdp_server_accept_mcs_attach_user_request env p s)
      | (CONNECTION_STATE_MCS_ATTACH_USER, Some s) \<Rightarrow> as_int (rdp_server_accept_mcs_channel_join_request env p s)
      | (CONNECTION_STATE_RDP_SECURITY_COMMENCEMENT, Some s) \<Rightarrow>
          andthen
            (if UseRdpSecurityLayer (rdp_settings (p_rdp p))
             then rdp_server_establish_keys (s_crypto (pe_session env)) (pe_bn env) (pe_mcs env) (pe_priv_exp env)
                    (pe_garbage env) (p_rdp p) s
             else Ok (True, p_rdp p) s) (\<lambda>(ok, rdp) s.
            if \<not> ok then Ok (-1, p\<lparr>p_rdp := rdp\<rparr>) s
            else
              (let p' = enter env CONNECTION_STATE_SECURE_SETTINGS_EXCHANGE (p\<lparr>p_rdp := rdp\<rparr>)
               in if Stream_GetRemainingLength s > 0 then peer_recv_callback env p' (Some s) else Ok (0, p') s))
      | (CONNECTION_STATE_SECURE_SETTINGS_EXCHANGE, Some s) \<Rightarrow>
          andthen (rdp_recv_client_info env (p_rdp p) s) (\<lambda>(ok, rdp) s.
            if \<not> ok then Ok (-1, p\<lparr>p_rdp := rdp\<rparr>) s
            else peer_recv_callback env (enter env CONNECTION_STATE_LICENSING (p\<lparr>p_rdp := rdp\<rparr>)) None)
      | (CONNECTION_STATE_FINALIZATION, Some s) \<Rightarrow>
          andthen (peer_recv_pdu env p s) (\<lambda>(i, p) s. Ok (if i < 0 then -1 else 0, p) s)
      | (CONNECTION_STATE_ACTIVE, Some s) \<Rightarrow>
          andthen (peer_recv_pdu env p s) (\<lambda>(i, p) s. Ok (if i < 0 then -1 else 0, p) s)
      | _ \<Rightarrow> Ok (-1, p) (Stream_New []))"
  by pat_completeness auto
termination
  by (relation "measure (\<lambda>(env, p, so). 15 - state_number (conn_state (p_rdp p)))") simp_all

subsection \<open>What every state of a server has\<close>

definition all_joined :: "rdpMcs \<Rightarrow> bool" where
  "all_joined mcs \<longleftrightarrow> userChannelJoined mcs \<and> globalChannelJoined mcs \<and>
     (messageChannelId mcs = 0 \<or> messageChannelJoined mcs) \<and>
     (\<forall>c \<in> set (take (unat (channelCount mcs)) (channels mcs)). ch_joined c)"

definition negotiated :: "secSettings \<Rightarrow> bool" where
  \<comment> \<open>One of the three protocols; the RDP security layer if it is RDP, unless the client is local.\<close>
  "negotiated st \<longleftrightarrow> set_SelectedProtocol st \<in> {PROTOCOL_RDP, PROTOCOL_TLS, PROTOCOL_NLA} \<and>
     (UseRdpSecurityLayer st \<longleftrightarrow> set_SelectedProtocol st = PROTOCOL_RDP \<and> \<not> LocalConnection st)"

definition peer_inv :: "freerdp_peer \<Rightarrow> bool" where
  "peer_inv p \<longleftrightarrow> (let rdp = p_rdp p; st = rdp_settings rdp; state = conn_state rdp in
     (CONNECTION_STATE_NEGO \<le> state \<longrightarrow> negotiated st) \<and>
     (CONNECTION_STATE_RDP_SECURITY_COMMENCEMENT \<le> state \<longrightarrow> all_joined (rdp_mcs rdp)) \<and>
     do_crypt rdp = (CONNECTION_STATE_SECURE_SETTINGS_EXCHANGE \<le> state \<and> UseRdpSecurityLayer st) \<and>
     (state = CONNECTION_STATE_ACTIVE \<longrightarrow> p_connected p \<and> p_activated p))"

definition keeps_protocol :: "secSettings \<Rightarrow> secSettings \<Rightarrow> bool" where
  "keeps_protocol a b \<longleftrightarrow> same_protocol (gccSettings.truncate a) (gccSettings.truncate b)"

lemma keeps_protocol_simp:
  "keeps_protocol a b \<longleftrightarrow> UseRdpSecurityLayer b = UseRdpSecurityLayer a \<and> set_SelectedProtocol b = set_SelectedProtocol a \<and>
     LocalConnection b = LocalConnection a \<and> ServerMode b = ServerMode a"
  by (simp add: keeps_protocol_def same_protocol_def gccSettings.defs)

definition application_ok :: "peer_env \<Rightarrow> bool" where
  \<comment> \<open>The application and the reader of capability sets do not change what was negotiated, and there is memory
    for the license packet.\<close>
  "application_ok env \<longleftrightarrow> pe_license_pool env \<noteq> None \<and> (\<forall>st. keeps_protocol st (pe_Capabilities env st)) \<and>
     (\<forall>st n s. gives (pe_read_capability_sets env st n s) (\<lambda>(ok, st'). keeps_protocol st st'))"

text \<open>The states after the keys are established, where every packet goes through \<open>peer_recv_pdu\<close>.\<close>

definition past :: "freerdp_peer \<Rightarrow> bool" where
  "past p \<longleftrightarrow> peer_inv p \<and> CONNECTION_STATE_SECURE_SETTINGS_EXCHANGE \<le> conn_state (p_rdp p)"

lemma states_less:
  "a \<le> b \<longleftrightarrow> state_number a \<le> state_number b" "a < b \<longleftrightarrow> state_number a < state_number b"
  by (simp_all add: less_eq_CONNECTION_STATE_def less_CONNECTION_STATE_def)

lemma past_iff:
  "past p \<longleftrightarrow> CONNECTION_STATE_SECURE_SETTINGS_EXCHANGE \<le> conn_state (p_rdp p) \<and> negotiated (rdp_settings (p_rdp p)) \<and>
     all_joined (rdp_mcs (p_rdp p)) \<and> do_crypt (p_rdp p) = UseRdpSecurityLayer (rdp_settings (p_rdp p)) \<and>
     (conn_state (p_rdp p) = CONNECTION_STATE_ACTIVE \<longrightarrow> p_connected p \<and> p_activated p)"
  by (auto simp: past_def peer_inv_def Let_def states_less)

lemma past_framed: "past p \<Longrightarrow> framed (p_rdp p) b \<Longrightarrow> past (p\<lparr>p_rdp := b\<rparr>)"
  by (simp add: past_iff framed_def)

lemma past_settings:
  "past p \<Longrightarrow> keeps_protocol (rdp_settings (p_rdp p)) st \<Longrightarrow> past (p\<lparr>p_rdp := (p_rdp p)\<lparr>rdp_settings := st\<rparr>\<rparr>)"
  by (auto simp: past_iff keeps_protocol_simp negotiated_def)

lemma past_other [simp]:
  "past (p\<lparr>p_rdp := (p_rdp p)\<lparr>AwaitCapabilities := x\<rparr>\<rparr>) = past p" "past (p\<lparr>ack_frame_id := f\<rparr>) = past p"
  "past (p\<lparr>p_rdp := (p_rdp p)\<lparr>rdp_events := es\<rparr>\<rparr>) = past p" "past (p\<lparr>p_rdp := (p_rdp p)\<lparr>finalize_sc_pdus := fi\<rparr>\<rparr>) = past p"
  "past (p\<lparr>p_rdp := (p_rdp p)\<lparr>do_secure_checksum := x\<rparr>\<rparr>) = past p"
  "past (p\<lparr>p_rdp := p_rdp p\<rparr>) = past p"
  by (simp_all add: past_iff)

lemma past_transition:
  assumes "past p" "CONNECTION_STATE_SECURE_SETTINGS_EXCHANGE \<le> st" "rdp_server_transition_to_state env st p = (i, p')"
    and "st = CONNECTION_STATE_ACTIVE \<longrightarrow> 0 \<le> i"
  shows "past p'"
  using assms
  by (cases st) (auto simp: rdp_server_transition_to_state_def past_iff states_less Let_def split: if_splits)

lemma past_enter:
  assumes "past p" "CONNECTION_STATE_SECURE_SETTINGS_EXCHANGE \<le> st" "st \<noteq> CONNECTION_STATE_ACTIVE"
  shows "past (enter env st p)"
  using past_transition [OF assms(1,2) prod.collapse [symmetric]] assms(3) by simp

subsection \<open>The handlers\<close>

definition preserves :: "('v \<Rightarrow> bool) \<Rightarrow> ('v \<times> freerdp_peer) res \<Rightarrow> bool" where
  \<comment> \<open>If the handler returns and reports success, \<open>past\<close> holds.\<close>
  "preserves good r \<longleftrightarrow> gives r (\<lambda>(v, p). good v \<longrightarrow> past p)"

lemma preserves_calling:
  assumes "past p" "\<And>ok b. r = Some (ok, b) \<Longrightarrow> framed (p_rdp p) b" "\<And>p. past p \<Longrightarrow> preserves (\<lambda>ok. ok) (k p)"
  shows "preserves (\<lambda>ok. ok) (calling r p s k)"
proof (cases "(r, p, s, k)" rule: calling.cases)
  case (2 ok b p' s' k')
  with assms past_framed [of p b] show ?thesis by (simp add: preserves_def)
qed (simp add: preserves_def)

lemma preserves_Ok: "past p \<Longrightarrow> preserves good (Ok (v, p) s)" "\<not> good v \<Longrightarrow> preserves good (Ok (v, p) s)"
  by (simp_all add: preserves_def)

lemma preserves_rules:
  "(\<And>v s. preserves good (k v s)) \<Longrightarrow> preserves good (andthen r k)"
  "\<not> good x \<Longrightarrow> (\<And>v s. preserves good (k v s)) \<Longrightarrow> preserves good (failing r (x, p) k)"
  "(b \<Longrightarrow> preserves good y) \<Longrightarrow> (\<not> b \<Longrightarrow> preserves good z) \<Longrightarrow> preserves good (if b then y else z)"
  "preserves good Overrun" "preserves good (Fail s)"
  unfolding preserves_def by (rule gives_any | assumption | simp)+

lemma preserves_on_rdp:
  assumes "past p" "gives r (\<lambda>(ok, b). framed (p_rdp p) b)"
  shows "preserves good (andthen r (\<lambda>(ok, b) s. Ok (v ok, p\<lparr>p_rdp := b\<rparr>) s))"
  using assms(2) unfolding preserves_def
  by (rule gives_andthen) (use past_framed [OF assms(1)] in auto)

lemma preserves_as_int: "preserves (\<lambda>ok. ok) r \<Longrightarrow> preserves (\<lambda>i. 0 \<le> i) (as_int r)"
  unfolding preserves_def by (erule gives_andthen) auto

lemma control_pdu_past: "past p \<Longrightarrow> preserves (\<lambda>ok. ok) (rdp_server_accept_client_control_pdu env p s)"
  unfolding rdp_server_accept_client_control_pdu_def
  by (intro preserves_rules preserves_calling preserves_Ok(1)) (auto intro: activation_send_frames)

lemma font_list_past: "past p \<Longrightarrow> preserves (\<lambda>ok. ok) (rdp_server_accept_client_font_list_pdu env p s)"
  unfolding rdp_server_accept_client_font_list_pdu_def
proof (intro preserves_rules preserves_calling, goal_cases)
  case (4 v s p)
  obtain i p' where "rdp_server_transition_to_state env CONNECTION_STATE_ACTIVE p = (i, p')" by fastforce
  with past_transition [OF 4(2) _ this] show ?case by (auto simp: preserves_def states_less)
qed (auto intro: activation_send_frames)

lemma rdp_send_demand_active_frame:
  assumes "rdp_send_demand_active env a = Some (ok, b)"
  shows "framed (a\<lparr>rdp_settings := (rdp_settings a)\<lparr>ShareId := ShareId (rdp_settings b)\<rparr>\<rparr>) b"
proof (cases "s_new (pe_session env) 4096")
  case (Some mem)
  obtain a' s where i: "rdp_init_stream_pdu a (Stream_New mem) = (a', s)" by fastforce
  let ?a = "a'\<lparr>rdp_settings := (rdp_settings a')\<lparr>ShareId := 0x10000 + ucast (userId (rdp_mcs a'))\<rparr>\<rparr>"
  from assms Some i have "sending (andthen (rdp_write_demand_active env s (rdp_settings ?a)) (\<lambda>_ s.
      rdp_send_pdu (s_crypto (pe_session env)) (s_write (pe_session env)) ?a s PDU_TYPE_DEMAND_ACTIVE (userId (rdp_mcs ?a)))) = Some (ok, b)"
    by (simp add: rdp_send_demand_active_def)
  then have "framed ?a b" by (rule sending_frame [rotated]) (intro gives_any send_frames)
  with init_frames(3) [OF i] show ?thesis by (auto simp: framed_def)
qed (use assms in \<open>simp add: rdp_send_demand_active_def\<close>)

lemma without_capabilities_protocol: "keeps_protocol a (without_capabilities b) = keeps_protocol a b"
  by (simp add: without_capabilities_def keeps_protocol_simp Let_def)

lemma rdp_recv_confirm_active_past:
  assumes "application_ok env" "past p"
  shows "gives (rdp_recv_confirm_active env (p_rdp p) s) (\<lambda>(ok, b). past (p\<lparr>p_rdp := b\<rparr>))"
proof -
  have "gives (pe_read_capability_sets env (rdp_settings (p_rdp p)) n u) (\<lambda>(ok, st). keeps_protocol (rdp_settings (p_rdp p)) st)" for n u
    using assms(1) by (simp add: application_ok_def)
  note caps = gives_andthen [OF this]
  show ?thesis
    unfolding rdp_recv_confirm_active_def
    by (rule gives_if caps gives_any(1) | auto intro!: past_settings simp: assms(2) without_capabilities_protocol)+
qed

lemma confirm_active_past:
  assumes "application_ok env" "past p"
  shows "preserves (\<lambda>ok. ok) (rdp_server_accept_confirm_active env p s)"
proof -
  have "preserves (\<lambda>ok. ok) (if \<not> ok then Ok (False, p\<lparr>p_rdp := b\<rparr>) s else
      (let b = (if SaltedChecksum (rdp_settings b) then b\<lparr>do_secure_checksum := True\<rparr> else b);
           p = enter env CONNECTION_STATE_FINALIZATION (p\<lparr>p_rdp := b\<rparr>)
       in calling (rdp_send_server_synchronize_pdu (pe_session env) (p_rdp p)) p s (\<lambda>p.
          calling (rdp_send_server_control_cooperate_pdu (pe_session env) (p_rdp p)) p s (\<lambda>p. Ok (True, p) s))))"
    if "past (p\<lparr>p_rdp := b\<rparr>)" for ok b s
  proof -
    have "past (p\<lparr>p_rdp := if SaltedChecksum (rdp_settings b) then b\<lparr>do_secure_checksum := True\<rparr> else b\<rparr>)"
      using that by (simp add: past_iff)
    then show ?thesis
      unfolding Let_def
      by (intro preserves_rules preserves_calling past_enter) (auto intro: activation_send_frames simp: states_less preserves_def)
  qed
  note step = this
  show ?thesis
  proof (cases "conn_state (p_rdp p) = CONNECTION_STATE_CAPABILITIES_EXCHANGE")
    case True
    have "preserves (\<lambda>ok. ok) (rdp_server_accept_confirm_active env p s) \<longleftrightarrow> preserves (\<lambda>ok. ok)
        (andthen (rdp_recv_confirm_active env (p_rdp p) s) (\<lambda>(ok, b) s. if \<not> ok then Ok (False, p\<lparr>p_rdp := b\<rparr>) s else
      (let b = (if SaltedChecksum (rdp_settings b) then b\<lparr>do_secure_checksum := True\<rparr> else b);
           p = enter env CONNECTION_STATE_FINALIZATION (p\<lparr>p_rdp := b\<rparr>)
       in calling (rdp_send_server_synchronize_pdu (pe_session env) (p_rdp p)) p s (\<lambda>p.
          calling (rdp_send_server_control_cooperate_pdu (pe_session env) (p_rdp p)) p s (\<lambda>p. Ok (True, p) s)))))"
      using True by (simp add: rdp_server_accept_confirm_active_def)
    also have "\<dots>"
      unfolding preserves_def
      by (rule gives_andthen [OF rdp_recv_confirm_active_past [OF assms]]) (clarify, rule step [unfolded preserves_def])
    finally show ?thesis .
  qed (simp add: rdp_server_accept_confirm_active_def preserves_def)
qed

lemma data_pdu_past: "past p \<Longrightarrow> preserves (\<lambda>ok. ok) (peer_recv_data_pdu env p s)"
proof -
  assume p: "past p"
  have sync: "preserves (\<lambda>ok. ok) (on_rdp p (rdp_recv_client_synchronize_pdu (p_rdp p) s))" for s
  proof -
    have "gives (rdp_recv_client_synchronize_pdu (p_rdp p) s) (\<lambda>(ok, b). past (p\<lparr>p_rdp := b\<rparr>))"
      unfolding rdp_recv_client_synchronize_pdu_def Let_def by (intro gives_if gives_any) (auto simp: p)
    then show ?thesis unfolding preserves_def by (rule gives_andthen) auto
  qed
  have ultimatum: "preserves (\<lambda>ok. ok) (case x of None \<Rightarrow> Overrun | Some (_, rdp) \<Rightarrow> Ok (False, p\<lparr>p_rdp := rdp\<rparr>) s)" for x :: "(bool \<times> rdpRdp) option" and s
    by (auto simp: preserves_def split: option.split)
  show ?thesis
    unfolding peer_recv_data_pdu_def Let_def
    by (intro preserves_rules preserves_Ok(1) control_pdu_past font_list_past sync ultimatum p) (auto simp: p preserves_Ok)
qed

lemma peer_dispatch_past:
  assumes "application_ok env" "past p"
  shows "preserves (\<lambda>i. 0 \<le> i) (peer_dispatch env p ch fl s)"
proof -
  have src: "past (p\<lparr>p_rdp := (p_rdp p)\<lparr>rdp_settings := (rdp_settings (p_rdp p))\<lparr>PduSource := x\<rparr>\<rparr>\<rparr>)" for x
    using assms(2) by (rule past_settings) (simp add: keeps_protocol_simp)
  have msg: "preserves (\<lambda>i. 0 \<le> i) (andthen (rdp_recv_message_channel_pdu (pe_handlers env) (p_rdp p) s fl)
      (\<lambda>(i, rdp) s. Ok (i, p\<lparr>p_rdp := rdp\<rparr>) s))" for s fl
    unfolding preserves_def by (rule gives_andthen [OF message_channel_frame]) (use assms(2) in auto)
  have chan: "preserves (\<lambda>ok. ok) (freerdp_channel_peer_process env p s ch)" for s
    unfolding freerdp_channel_peer_process_def Let_def
    by (intro preserves_rules) (auto simp: preserves_def assms(2))
  show ?thesis
    unfolding peer_dispatch_def Let_def
    by (rule preserves_rules(3), rule preserves_rules(2), simp, clarsimp)
      (intro conjI impI preserves_rules(3) preserves_as_int data_pdu_past confirm_active_past src assms(1) preserves_Ok(1) msg chan preserves_rules(2) | simp add: preserves_Ok)+
qed

lemma recv_tpkt_past:
  assumes "application_ok env" "past p"
  shows "preserves (\<lambda>i. 0 \<le> i) (peer_recv_tpkt_pdu env p s)"
  unfolding peer_recv_tpkt_pdu_def preserves_def
proof (rule gives_andthen [OF recv_packet_frame], goal_cases)
  case (1 r t)
  show ?case
  proof (cases r)
    case (Inl x)
    with 1 past_framed [OF assms(2)] show ?thesis by (cases x) simp
  next
    case (Inr x)
    with 1 peer_dispatch_past [OF assms(1) past_framed [OF assms(2)]] show ?thesis
      by (cases x) (simp add: preserves_def)
  qed
qed

lemma recv_fastpath_past:
  assumes "past p"
  shows "preserves (\<lambda>i. 0 \<le> i) (peer_recv_fastpath_pdu env p s)"
proof -
  have dec: "preserves (\<lambda>i. 0 \<le> i) (andthen (rdp_decrypt c (p_rdp p) s n fl) (\<lambda>(ok, rdp) s.
      if \<not> ok then Ok (-1, p\<lparr>p_rdp := rdp\<rparr>) s
      else failing (pe_fastpath_recv_inputs env rdp s) (-1, p\<lparr>p_rdp := rdp\<rparr>) (\<lambda>i s. Ok (i, p\<lparr>p_rdp := rdp\<rparr>) s)))" for c s n fl
    unfolding preserves_def
    by (rule gives_andthen [OF decrypt_frames]) (auto intro!: gives_any past_framed [OF assms])
  show ?thesis
    unfolding peer_recv_fastpath_pdu_def Let_def
    by (rule preserves_rules(1), clarify) (intro preserves_rules dec preserves_Ok(1) assms; simp add: preserves_def assms)
qed

lemma recv_pdu_past:
  assumes "application_ok env" "past p"
  shows "preserves (\<lambda>i. 0 \<le> i) (peer_recv_pdu env p s)"
  unfolding peer_recv_pdu_def
  by (intro preserves_rules recv_tpkt_past recv_fastpath_past assms)

lemma received_past:
  assumes "application_ok env" "past p"
  shows "preserves (\<lambda>i :: int. 0 \<le> i) (andthen (peer_recv_pdu env p s) (\<lambda>(i, p) s. Ok (if i < 0 then -1 else 0, p) s))"
  using recv_pdu_past [OF assms, of s] unfolding preserves_def by (rule gives_andthen) auto

lemma capabilities_past:
  assumes "application_ok env" "past p"
  shows "preserves (\<lambda>i. 0 \<le> i) (peer_capabilities env p so)"
proof -
  let ?p = "p\<lparr>p_rdp := (p_rdp p)\<lparr>rdp_settings := pe_Capabilities env (rdp_settings (p_rdp p))\<rparr>\<rparr>"
  have p: "past ?p" using assms by (intro past_settings) (simp_all add: application_ok_def)
  have d: "past (p\<lparr>p_rdp := b\<lparr>AwaitCapabilities := x\<rparr>\<rparr>)" if sent: "rdp_send_demand_active env (p_rdp ?p) = Some (ok, b)" for b ok x
  proof -
    obtain y where "framed ((p_rdp ?p)\<lparr>rdp_settings := (rdp_settings (p_rdp ?p))\<lparr>ShareId := y\<rparr>\<rparr>) b"
      using rdp_send_demand_active_frame [OF sent] by blast
    moreover have "past (?p\<lparr>p_rdp := (p_rdp ?p)\<lparr>rdp_settings := (rdp_settings (p_rdp ?p))\<lparr>ShareId := y\<rparr>\<rparr>\<rparr>)"
      using p by (rule past_settings) (simp add: keeps_protocol_simp)
    ultimately show ?thesis by (simp add: framed_def past_iff)
  qed
  have r: "preserves (\<lambda>i :: int. 0 \<le> i) (case so of None \<Rightarrow> x | Some s \<Rightarrow> andthen (peer_recv_pdu env q s) (\<lambda>(i, p) s. Ok (if i < 0 then -1 else 0, p) s))"
    if "past q" "preserves (\<lambda>i. 0 \<le> i) x" for q x
    using that received_past [OF assms(1)] by (cases so) simp_all
  show ?thesis
  proof (cases "AwaitCapabilities (p_rdp p)")
    case True
    then show ?thesis unfolding peer_capabilities_def Let_def by (simp add: r assms preserves_rules)
  next
    case False
    show ?thesis
    proof (cases "rdp_send_demand_active env (p_rdp ?p)")
      case None
      with False show ?thesis by (simp add: peer_capabilities_def preserves_rules)
    next
      case (Some x)
      obtain ok b where x: "x = (ok, b)" by fastforce
      show ?thesis
      proof (cases ok)
        case True
        with Some x have q: "past (p\<lparr>p_rdp := b\<lparr>AwaitCapabilities := True\<rparr>\<rparr>)" by (intro d) simp
        from r [OF q, of "Ok (0, p\<lparr>p_rdp := b\<lparr>AwaitCapabilities := True\<rparr>\<rparr>) (Stream_New [])"]
        show ?thesis using q False True Some x by (simp add: peer_capabilities_def preserves_def Let_def)
      qed (use False Some x in \<open>simp add: peer_capabilities_def preserves_def\<close>)
    qed
  qed
qed

subsection \<open>The states before\<close>

definition early :: "freerdp_peer \<Rightarrow> bool" where
  \<comment> \<open>In one of the states up to the commencement, without encryption.\<close>
  "early p \<longleftrightarrow> peer_inv p \<and> conn_state (p_rdp p) < CONNECTION_STATE_SECURE_SETTINGS_EXCHANGE"

lemma early_enter:
  assumes "\<not> do_crypt (p_rdp p)" "CONNECTION_STATE_INITIAL < st" "st < CONNECTION_STATE_SECURE_SETTINGS_EXCHANGE" "st \<noteq> CONNECTION_STATE_NLA"
    and "negotiated (rdp_settings (p_rdp p))" "st = CONNECTION_STATE_RDP_SECURITY_COMMENCEMENT \<Longrightarrow> all_joined (rdp_mcs (p_rdp p))"
  shows "peer_inv (enter env st p)"
  using assms by (cases st) (auto simp: rdp_server_transition_to_state_def peer_inv_def states_less Let_def)

lemma nego_update_settings_negotiated:
  assumes "nego_update_settings nego st = (ok, st')" "SelectedProtocol nego \<in> {PROTOCOL_RDP, PROTOCOL_TLS, PROTOCOL_NLA}"
  shows "set_SelectedProtocol st' \<in> {PROTOCOL_RDP, PROTOCOL_TLS, PROTOCOL_NLA} \<and>
     (UseRdpSecurityLayer st' \<longleftrightarrow> set_SelectedProtocol st' = PROTOCOL_RDP \<and> \<not> LocalConnection st')"
  using assms by (auto simp: nego_update_settings_def Let_def split: if_splits)

lemma nego_response_negotiated:
  assumes "nego_send_negotiation_response net nego st = Some (True, nego', st')"
    and "SelectedProtocol nego = server_selection settings req"
  shows "set_SelectedProtocol st' \<in> {PROTOCOL_RDP, PROTOCOL_TLS, PROTOCOL_NLA} \<and>
     (UseRdpSecurityLayer st' \<longleftrightarrow> set_SelectedProtocol st' = PROTOCOL_RDP \<and> \<not> LocalConnection st') \<and>
     set_SelectedProtocol st' = SelectedProtocol nego \<and> SelectedProtocol nego' = SelectedProtocol nego"
proof -
  have "SelectedProtocol nego AND PROTOCOL_FAILED_NEGO = 0 \<and> nego_update_settings nego' st = (True, st') \<and>
      SelectedProtocol nego' = SelectedProtocol nego"
    using assms(1)
    by (auto simp: nego_send_negotiation_response_def nego_transmit_def log_event_def Let_def
        split: option.splits res.splits if_splits prod.splits)
  moreover from this have "SelectedProtocol nego \<in> {PROTOCOL_RDP, PROTOCOL_TLS, PROTOCOL_NLA}"
    using assms(2) by (auto simp: server_selection_def split: if_splits)
  moreover have "set_SelectedProtocol st' = SelectedProtocol nego'"
    using calculation by (auto simp: nego_update_settings_def Let_def split: if_splits)
  ultimately show ?thesis using nego_update_settings_negotiated [of nego' st True st'] by simp
qed

lemma accept_client_inv:
  assumes "peer_inv p" "conn_state (p_rdp p) = CONNECTION_STATE_INITIAL"
  shows "gives (peer_accept_client env p s) (\<lambda>(i, p). 0 \<le> i \<longrightarrow> peer_inv p)"
proof -
  have crypt: "\<not> do_crypt (p_rdp p)" using assms by (simp add: peer_inv_def states_less Let_def)
  have logon [simp]: "peer_inv ((peer_logon env q x)\<lparr>p_nla := y\<rparr>) = peer_inv q" "peer_inv (peer_logon env q x) = peer_inv q" for q x y
    by (simp_all add: peer_logon_def peer_inv_def Let_def split: option.split)
  have "gives (rdp_server_accept_nego env p s) (\<lambda>(ok, p). ok \<longrightarrow> peer_inv p)"
  proof -
    have "peer_inv (enter env CONNECTION_STATE_NEGO q)"
      if "nego_send_negotiation_response net nego (rdpSettings.truncate st) = Some (True, nego', st')"
        "SelectedProtocol nego = server_selection st req"
        "rdp_settings (p_rdp q) = rdpSettings.extend st' (rdpSettings.more st)" "do_crypt (p_rdp q) = do_crypt (p_rdp p)"
      for net nego nego' st' st req q
      using nego_response_negotiated [OF that(1,2)] that(3,4) crypt
      by (intro early_enter) (auto simp: states_less negotiated_def rdpSettings.defs)
    then show ?thesis
      unfolding rdp_server_accept_nego_def Let_def
      by (intro gives_any) (auto simp: transport_accept_nla_def Let_def split: option.split)
  qed
  then show ?thesis
    unfolding peer_accept_client_def
    by (rule gives_andthen) auto
qed


lemma connect_initial_inv:
  assumes "peer_inv p" "conn_state (p_rdp p) = CONNECTION_STATE_NEGO"
  shows "gives (rdp_server_accept_mcs_connect_initial env p s) (\<lambda>(ok, p). ok \<longrightarrow> peer_inv p)"
proof -
  have p: "\<not> do_crypt (p_rdp p)" "negotiated (rdp_settings (p_rdp p))"
    using assms by (simp_all add: peer_inv_def states_less Let_def)
  have "peer_inv (enter env CONNECTION_STATE_MCS_CONNECT q)"
    if "do_crypt (p_rdp q) = do_crypt (p_rdp p)" "same_protocol (gccSettings.truncate (rdp_settings (p_rdp p))) st"
      "rdp_settings (p_rdp q) = gccSettings.extend st (gccSettings.more (rdp_settings (p_rdp p)))" for q st
    using that p by (intro early_enter) (auto simp: states_less negotiated_def same_protocol_def gccSettings.defs)
  note fin = this
  have sent: "calling (sent_by r (p_rdp (with_gcc g p))) (with_gcc g p) u (\<lambda>p. Ok (True, enter env CONNECTION_STATE_MCS_CONNECT p) u) = Ok (ok, p') v \<Longrightarrow>
      ok \<Longrightarrow> same_protocol (gccSettings.truncate (rdp_settings (p_rdp p))) (snd g) \<Longrightarrow> peer_inv p'" for r g u ok p' v
    by (cases r) (auto simp: sent_by_def with_gcc_def split: if_splits intro!: fin)
  have "ok \<longrightarrow> peer_inv p'" if r: "rdp_server_accept_mcs_connect_initial env p s = Ok (ok, p') t" for ok p' t
  proof
    assume ok
    obtain x where x: "mcs_recv_connect_initial (pe_lib env) s (gcc_of (p_rdp p)) = Some x"
      using r by (auto simp: rdp_server_accept_mcs_connect_initial_def split: option.splits)
    with r \<open>ok\<close> obtain g u where g: "x = Ok g u"
      by (cases x) (auto simp: rdp_server_accept_mcs_connect_initial_def)
    with r x obtain y g' where y: "mcs_send_connect_response (pe_mcs env) (pe_lib env) (pe_realloc env) g = Some (y, g')"
      and c: "calling (sent_by y (p_rdp (with_gcc g' p))) (with_gcc g' p) u (\<lambda>p. Ok (True, enter env CONNECTION_STATE_MCS_CONNECT p) u) = Ok (ok, p') t"
      by (auto simp: rdp_server_accept_mcs_connect_initial_def Let_def split: option.splits prod.splits)
    have "same_protocol (gccSettings.truncate (rdp_settings (p_rdp p))) (snd g)"
      using mcs_recv_connect_initial_protocol [of "pe_lib env" s] x g by (cases g) (auto simp: gcc_of_def)
    also have "same_protocol (snd g) (snd g')"
      using mcs_send_connect_response_protocol [of "pe_mcs env" "pe_lib env" "pe_realloc env"] y by (cases g; cases g') auto
    finally show "peer_inv p'" using sent c \<open>ok\<close> by blast
  qed
  then show ?thesis by (auto simp: gives_def)
qed

lemma sent_by_framed: "sent_by r a = Some (ok, b) \<Longrightarrow> framed a b"
  by (cases r) (auto simp: sent_by_def framed_def)

lemma domain_steps_inv:
  assumes "peer_inv p"
  shows "conn_state (p_rdp p) = CONNECTION_STATE_MCS_CONNECT \<Longrightarrow>
      gives (rdp_server_accept_mcs_erect_domain_request env p s) (\<lambda>(ok, p). ok \<longrightarrow> peer_inv p)"
    "conn_state (p_rdp p) = CONNECTION_STATE_MCS_ERECT_DOMAIN \<Longrightarrow>
      gives (rdp_server_accept_mcs_attach_user_request env p s) (\<lambda>(ok, p). ok \<longrightarrow> peer_inv p)"
proof -
  assume "conn_state (p_rdp p) = CONNECTION_STATE_MCS_CONNECT"
  then have "\<not> do_crypt (p_rdp p)" "negotiated (rdp_settings (p_rdp p))"
    using assms by (simp_all add: peer_inv_def states_less Let_def)
  then show "gives (rdp_server_accept_mcs_erect_domain_request env p s) (\<lambda>(ok, p). ok \<longrightarrow> peer_inv p)"
    unfolding rdp_server_accept_mcs_erect_domain_request_def
    by (intro gives_any) (auto intro!: early_enter simp: states_less)
next
  assume "conn_state (p_rdp p) = CONNECTION_STATE_MCS_ERECT_DOMAIN"
  then have p: "\<not> do_crypt (p_rdp p)" "negotiated (rdp_settings (p_rdp p))"
    using assms by (simp_all add: peer_inv_def states_less Let_def)
  have fin: "gives (calling (sent_by r ((p_rdp p)\<lparr>rdp_mcs := mcs\<rparr>)) p u (\<lambda>p. Ok (True, enter env CONNECTION_STATE_MCS_ATTACH_USER p) u))
      (\<lambda>(ok, p). ok \<longrightarrow> peer_inv p)" for r mcs u
    by (cases r) (auto simp: sent_by_def p states_less intro!: early_enter)
  show "gives (rdp_server_accept_mcs_attach_user_request env p s) (\<lambda>(ok, p). ok \<longrightarrow> peer_inv p)"
    unfolding rdp_server_accept_mcs_attach_user_request_def Let_def
    by (rule gives_any) (auto split: prod.split intro!: fin)
qed

lemma mark_joined_all:
  "mark_joined ch cs n = Some (cs', True) \<Longrightarrow> \<forall>c \<in> set (take n cs'). ch_joined c"
proof (induction cs arbitrary: n cs')
  case (Cons c cs)
  show ?case
  proof (cases n)
    case (Suc m)
    let ?c = "if ChannelId c = uint ch then c\<lparr>ch_joined := True\<rparr> else c"
    from Cons.prems Suc obtain cs1 where "mark_joined ch cs m = Some (cs1, True)" "cs' = ?c # cs1" "ch_joined ?c"
      by (auto simp: Let_def map_option_case split: option.splits)
    with Cons.IH Suc show ?thesis by simp
  qed simp
qed (simp split: if_splits)

lemma channel_join_inv:
  assumes "peer_inv p" "conn_state (p_rdp p) = CONNECTION_STATE_MCS_ATTACH_USER"
  shows "gives (rdp_server_accept_mcs_channel_join_request env p s) (\<lambda>(ok, p). ok \<longrightarrow> peer_inv p)"
proof -
  have p: "\<not> do_crypt (p_rdp p)" "negotiated (rdp_settings (p_rdp p))"
    using assms by (simp_all add: peer_inv_def states_less Let_def)
  have step: "gives (let mcs = rdp_mcs (p_rdp q);
       mcs = (if ch = userId mcs then mcs\<lparr>userChannelJoined := True\<rparr>
              else if ch = MCS_GLOBAL_CHANNEL_ID then mcs\<lparr>globalChannelJoined := True\<rparr>
              else if ch = messageChannelId mcs then mcs\<lparr>messageChannelJoined := True\<rparr> else mcs)
     in case mark_joined ch (channels mcs) (unat (channelCount mcs)) of None \<Rightarrow> Overrun
        | Some (cs, allJoined) \<Rightarrow>
            (let p = q\<lparr>p_rdp := (p_rdp q)\<lparr>rdp_mcs := mcs\<lparr>channels := cs\<rparr>\<rparr>\<rparr>
             in Ok (True, if userChannelJoined mcs \<and> globalChannelJoined mcs \<and> (messageChannelId mcs = 0 \<or> messageChannelJoined mcs) \<and> allJoined
                  then enter env CONNECTION_STATE_RDP_SECURITY_COMMENCEMENT p else p) u))
     (\<lambda>(ok, p). ok \<longrightarrow> peer_inv p)" if q: "framed (p_rdp p) (p_rdp q)" for q ch u
  proof -
    have q': "\<not> do_crypt (p_rdp q)" "negotiated (rdp_settings (p_rdp q))" "conn_state (p_rdp q) = CONNECTION_STATE_MCS_ATTACH_USER"
      using q p assms(2) by (simp_all add: framed_def)
    have stay: "peer_inv (q\<lparr>p_rdp := (p_rdp q)\<lparr>rdp_mcs := m\<rparr>\<rparr>)" for m
      using q' by (simp add: peer_inv_def states_less Let_def)
    have go: "peer_inv (enter env CONNECTION_STATE_RDP_SECURITY_COMMENCEMENT (q\<lparr>p_rdp := (p_rdp q)\<lparr>rdp_mcs := m\<rparr>\<rparr>))" if "all_joined m" for m
      using q' that by (intro early_enter) (simp_all add: states_less)
    have j: "all_joined (m\<lparr>channels := cs\<rparr>)"
      if "mark_joined ch (channels m) (unat (channelCount m)) = Some (cs, True)" "userChannelJoined m" "globalChannelJoined m"
        "messageChannelId m = 0 \<or> messageChannelJoined m" for m cs
      using mark_joined_all [OF that(1)] that by (simp add: all_joined_def)
    have fin: "gives (case mark_joined ch (channels m) (unat (channelCount m)) of None \<Rightarrow> Overrun
        | Some (cs, allJoined) \<Rightarrow>
             Ok (True, if userChannelJoined m \<and> globalChannelJoined m \<and> (messageChannelId m = 0 \<or> messageChannelJoined m) \<and> allJoined
                  then enter env CONNECTION_STATE_RDP_SECURITY_COMMENCEMENT (q\<lparr>p_rdp := (p_rdp q)\<lparr>rdp_mcs := m\<lparr>channels := cs\<rparr>\<rparr>\<rparr>)
                  else q\<lparr>p_rdp := (p_rdp q)\<lparr>rdp_mcs := m\<lparr>channels := cs\<rparr>\<rparr>\<rparr>) u)
     (\<lambda>(ok, p). ok \<longrightarrow> peer_inv p)" for m
    proof (cases "mark_joined ch (channels m) (unat (channelCount m))")
      case (Some x)
      obtain cs all where "x = (cs, all)" by fastforce
      with Some j [of m cs] stay go show ?thesis by (cases all) auto
    qed simp
    show ?thesis unfolding Let_def by (rule fin)
  qed
  have call: "gives (calling (sent_by r (p_rdp p)) p u k) (\<lambda>(ok, p). ok \<longrightarrow> peer_inv p)"
    if k: "\<And>q. framed (p_rdp p) (p_rdp q) \<Longrightarrow> gives (k q) (\<lambda>(ok, p). ok \<longrightarrow> peer_inv p)" for r u k
  proof (cases "sent_by r (p_rdp p)")
    case (Some x)
    obtain ok b where x: "x = (ok, b)" by fastforce
    with Some have "framed (p_rdp p) b" by (intro sent_by_framed) simp
    with k [of "p\<lparr>p_rdp := b\<rparr>"] Some x show ?thesis by simp
  qed simp
  show ?thesis
    unfolding rdp_server_accept_mcs_channel_join_request_def
    by (rule gives_any, simp, rule call, rule step)
qed

declare peer_recv_callback.simps [simp del]

subsection \<open>The keys, the client info and the license\<close>

definition yields :: "'a option \<Rightarrow> ('a \<Rightarrow> bool) \<Rightarrow> bool" where
  "yields r P \<longleftrightarrow> (\<forall>v. r = Some v \<longrightarrow> P v)"

lemma yields_rules:
  "(\<And>v. yields (k v) P) \<Longrightarrow> yields (x \<bind> k) P"
  "yields a P \<Longrightarrow> (\<And>v. yields (f v) P) \<Longrightarrow> yields (case x of None \<Rightarrow> a | Some v \<Rightarrow> f v) P"
  "(b \<Longrightarrow> yields a P) \<Longrightarrow> (\<not> b \<Longrightarrow> yields d P) \<Longrightarrow> yields (if b then a else d) P"
  "P v \<Longrightarrow> yields (Some v) P"
  by (auto simp: yields_def bind_eq_Some_conv split: option.split)

lemma establish_frames:
  "security_establish_keys c r a = Some (ok, b) \<Longrightarrow> framed a b" "install_ciphers c a = Some (ok, b) \<Longrightarrow> framed a b"
proof -
  have s: "framed a (security_salt_keys b) = framed a b" for a b by (simp add: security_salt_keys_def framed_def Let_def)
  have k: "framed a (b\<lparr>sign_key := x\<rparr>) = framed a b" "framed a (case o1 of None \<Rightarrow> b | Some k \<Rightarrow> b\<lparr>encrypt_key := k\<rparr>) = framed a b"
    "framed a (case o1 of None \<Rightarrow> b | Some k \<Rightarrow> b\<lparr>decrypt_key := k\<rparr>) = framed a b" for a b x o1
    by (auto simp: framed_def split: option.split)
  have e: "establish_session_keys c r a = Some (ok, b) \<Longrightarrow> framed a b" for a ok b
  proof -
    have "yields (establish_session_keys c r a) (\<lambda>(ok, b). framed a b)"
      unfolding establish_session_keys_def Let_def by (intro yields_rules) (simp_all add: s k)
    then show "establish_session_keys c r a = Some (ok, b) \<Longrightarrow> framed a b" by (auto simp: yields_def)
  qed
  have f: "establish_fips_keys c r a = Some (ok, b) \<Longrightarrow> framed a b" for a ok b
    by (auto simp: establish_fips_keys_def framed_def Let_def split: bind_splits if_splits)
  show "security_establish_keys c r a = Some (ok, b) \<Longrightarrow> framed a b"
    by (auto simp: security_establish_keys_def split: bind_splits if_splits dest!: e f intro: framed_trans)
  show "install_ciphers c a = Some (ok, b) \<Longrightarrow> framed a b"
    by (auto simp: install_ciphers_def framed_def Let_def split: bind_splits if_splits)
qed

lemma rdp_server_establish_keys_frame:
  assumes "UseRdpSecurityLayer (rdp_settings a)"
  shows "gives (rdp_server_establish_keys c bn env pe ch a s) (\<lambda>(ok, b). ok \<longrightarrow> framed (a\<lparr>do_crypt := True\<rparr>) b)"
proof -
  have fin: "gives (case do {
        (_, client_random) \<leftarrow> x;
        (ok, rdp) \<leftarrow> security_establish_keys c client_random b;
        if \<not> ok then Some (False, rdp) else install_ciphers c (rdp\<lparr>do_crypt := True\<rparr>)
      } of None \<Rightarrow> Overrun | Some (ok, rdp) \<Rightarrow> Ok (ok, rdp) u) (\<lambda>(ok, b). ok \<longrightarrow> framed (a\<lparr>do_crypt := True\<rparr>) b)"
    if "framed a b" for b u and x :: "(int \<times> bytes) option"
  proof -
    have "framed (a\<lparr>do_crypt := True\<rparr>) d" if 1: "security_establish_keys c y b = Some (True, e)" "install_ciphers c (e\<lparr>do_crypt := True\<rparr>) = Some (ok, d)" for y e ok d
      using establish_frames(1) [OF 1(1)] establish_frames(2) [OF 1(2)] \<open>framed a b\<close> by (simp add: framed_def)
    then show ?thesis by (auto split: option.splits bind_splits if_splits)
  qed
  have lic: "framed a (b\<lparr>do_crypt_license := x\<rparr>) = framed a b" for b x by (simp add: framed_def)
  show ?thesis
    unfolding rdp_server_establish_keys_def Let_def
    by (simp only: assms not_True_eq_False if_False, rule gives_failing [OF rdp_read_header_frame], simp, clarify)
      (intro gives_any gives_if; (rule gives_simps(1) [THEN iffD2], simp; fail | auto intro!: gives_any gives_if fin split: option.split simp: lic))
qed

lemma rdp_recv_client_info_frame: "gives (rdp_recv_client_info env a s) (\<lambda>(ok, b). framed a b)"
proof -
  have dec: "gives (andthen (rdp_decrypt c b s n fl) (\<lambda>(ok, rdp) s.
      if \<not> ok then Ok (False, rdp) s else failing (pe_read_info_packet env rdp s) (False, rdp) (\<lambda>_ s. Ok (True, rdp) s)))
      (\<lambda>(ok, d). framed a d)" if "framed a b" for c b s n fl
    by (rule gives_andthen [OF decrypt_frames]) (auto intro!: gives_any framed_trans [OF that])
  show ?thesis
    unfolding rdp_recv_client_info_def
    by (rule gives_failing [OF rdp_read_header_frame]) (auto intro!: gives_any gives_if dec)
qed

lemma license_packet_frame:
  assumes "license_send_valid_client_error_packet env a = Some (ok, b)" "pe_license_pool env \<noteq> None"
  shows "framed a b"
proof -
  obtain mem where mem: "pe_license_pool env = Some mem" using assms(2) by blast
  obtain a' s h where i: "license_send_stream_init a (Some (Stream_New mem)) = (a', Some (s, h))"
    by (fastforce simp: license_send_stream_init_def Let_def split: prod.splits)
  have f: "framed a a'"
  proof -
    let ?a = "let rdp = a\<lparr>sec_flags := SEC_LICENSE_PKT\<rparr> in
      if do_crypt a then rdp\<lparr>sec_flags := sec_flags rdp OR SEC_LICENSE_ENCRYPT_CS, do_crypt := do_crypt_license rdp\<rparr> else rdp"
    obtain x t where x: "rdp_init_stream ?a (Stream_New mem) = (x, t)" by fastforce
    then have "a' = x\<lparr>do_crypt := do_crypt a\<rparr>" using i by (simp add: license_send_stream_init_def Let_def)
    with init_frames(2) [OF x] show ?thesis by (auto simp: framed_def Let_def split: if_splits)
  qed
  have "gives (license_send c w a' s h t) (\<lambda>(ok, ws, b). framed a' b)" for c w s h t
    unfolding license_send_def Let_def
    by (rule gives_any, rule gives_andthen [OF send_frames(1)]) (auto simp: framed_def)
  then have "framed a' b"
    using assms(1) i mem unfolding license_send_valid_client_error_packet_def
    by (auto elim!: sending_frame [rotated] intro!: gives_any)
  with f show ?thesis by (rule framed_trans)
qed

lemma gives_andthen_eq: "gives r Q \<Longrightarrow> (\<And>v s. r = Ok v s \<Longrightarrow> Q v \<Longrightarrow> gives (k v s) P) \<Longrightarrow> gives (andthen r k) P"
  by (cases r) simp_all

lemma callback_inv:
  assumes "application_ok env" "peer_inv p"
  shows "gives (peer_recv_callback env p so) (\<lambda>(i, p'). 0 \<le> i \<longrightarrow> peer_inv p')"
  using assms
proof (induction env p so rule: peer_recv_callback.induct)
  case (1 env p so)
  let ?P = "\<lambda>(i :: int, p'). 0 \<le> i \<longrightarrow> peer_inv p'"
  have late: "gives r ?P" if "preserves (\<lambda>i. 0 \<le> i) r" for r
    using that unfolding preserves_def by (rule gives_mono) (auto simp: past_def)
  have asint: "gives (as_int r) ?P" if "gives r (\<lambda>(ok, p). ok \<longrightarrow> peer_inv p)" for r
    using that by (rule gives_andthen) auto
  have past: "past p" if "CONNECTION_STATE_SECURE_SETTINGS_EXCHANGE \<le> conn_state (p_rdp p)"
    using 1(5) that by (simp add: past_def)
  have license: "gives (case license_send_valid_client_error_packet env (p_rdp p) of None \<Rightarrow> Overrun
      | Some (ok, rdp) \<Rightarrow> if \<not> ok then Ok (0, p\<lparr>p_rdp := rdp\<rparr>) (Stream_New [])
          else peer_recv_callback env (enter env CONNECTION_STATE_CAPABILITIES_EXCHANGE (p\<lparr>p_rdp := rdp\<rparr>)) None) ?P"
    if st: "conn_state (p_rdp p) = CONNECTION_STATE_LICENSING"
  proof (cases "license_send_valid_client_error_packet env (p_rdp p)")
    case (Some x)
    obtain ok b where x: "x = (ok, b)" by fastforce
    have p': "past (p\<lparr>p_rdp := b\<rparr>)"
      using license_packet_frame [of env "p_rdp p" ok b] Some x 1(4) past past_framed st by (simp add: application_ok_def states_less)
    have "peer_inv (enter env CONNECTION_STATE_CAPABILITIES_EXCHANGE (p\<lparr>p_rdp := b\<rparr>))"
      using past_enter [OF p', of CONNECTION_STATE_CAPABILITIES_EXCHANGE env] by (simp add: states_less past_def)
    with 1(3) [OF refl st] Some x 1(4) p' show ?thesis by (simp add: past_def)
  qed simp
  note unf = peer_recv_callback.simps [of env p so]
  show ?case
  proof (cases so)
    case None
    show ?thesis
    proof (cases "conn_state (p_rdp p)")
      case CONNECTION_STATE_LICENSING
      with license 1(1) unf show ?thesis by simp
    next
      case CONNECTION_STATE_CAPABILITIES_EXCHANGE
      with late [OF capabilities_past [OF 1(4) past]] unf show ?thesis by (simp add: states_less)
    qed (use unf None in simp_all)
  next
    case (Some s)
    show ?thesis
    proof (cases "conn_state (p_rdp p)")
      case CONNECTION_STATE_INITIAL
      with accept_client_inv [OF 1(5)] unf Some show ?thesis by simp
    next
      case CONNECTION_STATE_NEGO
      with asint [OF connect_initial_inv [OF 1(5)]] unf Some show ?thesis by simp
    next
      case CONNECTION_STATE_MCS_CONNECT
      with asint [OF domain_steps_inv(1) [OF 1(5)]] unf Some show ?thesis by simp
    next
      case CONNECTION_STATE_MCS_ERECT_DOMAIN
      with asint [OF domain_steps_inv(2) [OF 1(5)]] unf Some show ?thesis by simp
    next
      case CONNECTION_STATE_MCS_ATTACH_USER
      with asint [OF channel_join_inv [OF 1(5)]] unf Some show ?thesis by simp
    next
      case CONNECTION_STATE_LICENSING
      with license 1(1) unf show ?thesis by simp
    next
      case CONNECTION_STATE_CAPABILITIES_EXCHANGE
      with late [OF capabilities_past [OF 1(4) past]] unf show ?thesis by (simp add: states_less)
    next
      case CONNECTION_STATE_FINALIZATION
      with late [OF received_past [OF 1(4) past]] unf Some show ?thesis by (simp add: states_less)
    next
      case CONNECTION_STATE_ACTIVE
      with late [OF received_past [OF 1(4) past]] unf Some show ?thesis by (simp add: states_less)
    next
      case CONNECTION_STATE_SECURE_SETTINGS_EXCHANGE
      note st = this
      have p: "past p" using past st by (simp add: states_less)
      have "peer_inv (enter env CONNECTION_STATE_LICENSING (p\<lparr>p_rdp := b\<rparr>))" if "framed (p_rdp p) b" for b
        using past_enter [OF past_framed [OF p that], of CONNECTION_STATE_LICENSING env] by (simp add: states_less past_def)
      then show ?thesis
        unfolding unf using st Some 1(2) [OF refl st Some] 1(4)
        by (auto intro!: gives_andthen_eq [OF rdp_recv_client_info_frame])
    next
      case CONNECTION_STATE_RDP_SECURITY_COMMENCEMENT
      note st = this
      have p: "\<not> do_crypt (p_rdp p)" "negotiated (rdp_settings (p_rdp p))" "all_joined (rdp_mcs (p_rdp p))"
        using 1(5) st by (simp_all add: peer_inv_def states_less Let_def)
      have n: "peer_inv (enter env CONNECTION_STATE_SECURE_SETTINGS_EXCHANGE (p\<lparr>p_rdp := b\<rparr>))"
        if "framed ((p_rdp p)\<lparr>do_crypt := UseRdpSecurityLayer (rdp_settings (p_rdp p))\<rparr>) b" for b
        using that p st
        by (simp add: framed_def peer_inv_def rdp_server_transition_to_state_def states_less Let_def)
      have e: "gives (if UseRdpSecurityLayer (rdp_settings (p_rdp p))
             then rdp_server_establish_keys (s_crypto (pe_session env)) (pe_bn env) (pe_mcs env) (pe_priv_exp env) (pe_garbage env) (p_rdp p) s
             else Ok (True, p_rdp p) s)
          (\<lambda>(ok, b). ok \<longrightarrow> framed ((p_rdp p)\<lparr>do_crypt := UseRdpSecurityLayer (rdp_settings (p_rdp p))\<rparr>) b)"
        using rdp_server_establish_keys_frame [of "p_rdp p"] p(1) by (auto simp: framed_def)
      have k: "gives (if \<not> ok then Ok (-1, p\<lparr>p_rdp := b\<rparr>) t
            else (let p' = enter env CONNECTION_STATE_SECURE_SETTINGS_EXCHANGE (p\<lparr>p_rdp := b\<rparr>)
                  in if Stream_GetRemainingLength t > 0 then peer_recv_callback env p' (Some t) else Ok (0, p') t)) ?P"
        if r: "(if UseRdpSecurityLayer (rdp_settings (p_rdp p))
             then rdp_server_establish_keys (s_crypto (pe_session env)) (pe_bn env) (pe_mcs env) (pe_priv_exp env) (pe_garbage env) (p_rdp p) s
             else Ok (True, p_rdp p) s) = Ok (ok, b) t"
          and f: "ok \<longrightarrow> framed ((p_rdp p)\<lparr>do_crypt := UseRdpSecurityLayer (rdp_settings (p_rdp p))\<rparr>) b" for ok b t
        using 1(1) [OF refl st Some r refl _ refl _ 1(4) n] f n by (auto simp: Let_def)
      have "peer_recv_callback env p so = andthen
          (if UseRdpSecurityLayer (rdp_settings (p_rdp p))
             then rdp_server_establish_keys (s_crypto (pe_session env)) (pe_bn env) (pe_mcs env) (pe_priv_exp env) (pe_garbage env) (p_rdp p) s
             else Ok (True, p_rdp p) s) (\<lambda>(ok, b) t. if \<not> ok then Ok (-1, p\<lparr>p_rdp := b\<rparr>) t
            else (let p' = enter env CONNECTION_STATE_SECURE_SETTINGS_EXCHANGE (p\<lparr>p_rdp := b\<rparr>)
                  in if Stream_GetRemainingLength t > 0 then peer_recv_callback env p' (Some t) else Ok (0, p') t))"
        using unf st Some by simp
      also have "gives \<dots> ?P"
        by (rule gives_andthen_eq [OF e]) (clarify, rule k)
      finally show ?thesis .
    qed (use unf Some in simp_all)
  qed
qed

subsection \<open>Reachable states\<close>

inductive peer_step :: "peer_env \<Rightarrow> freerdp_peer \<Rightarrow> freerdp_peer \<Rightarrow> bool" for env where
  packet: "peer_recv_callback env p (Some (Stream_New w)) = Ok (i, p') t \<Longrightarrow> 0 \<le> i \<Longrightarrow> peer_step env p p'"
| reactivation: "conn_state (p_rdp p) = CONNECTION_STATE_ACTIVE \<Longrightarrow>
    rdp_server_reactivate env p s = Ok (True, p') t \<Longrightarrow> peer_step env p p'"

text \<open>A packet of any bytes, or a reactivation by the application. A negative result ends the connection.\<close>

definition fresh_peer :: "secSettings \<Rightarrow> freerdp_peer" where
  \<comment> \<open>A peer after \<open>freerdp_peer_context_new\<close>.\<close>
  "fresh_peer st = \<lparr>p_rdp = rdp_new st False, p_nego = the (nego_new True []), p_nla = False, p_connected = False,
     p_activated = False, p_authenticated = False, ack_frame_id = 0\<rparr>"

inductive peer_reachable :: "peer_env \<Rightarrow> freerdp_peer \<Rightarrow> bool" for env where
  start: "freerdp_peer_initialize local key_ok (fresh_peer st) = (True, p) \<Longrightarrow> peer_reachable env p"
| step: "peer_reachable env p \<Longrightarrow> peer_step env p p' \<Longrightarrow> peer_reachable env p'"

lemma reactivate_inv:
  assumes "peer_inv p" "conn_state (p_rdp p) = CONNECTION_STATE_ACTIVE" "rdp_server_reactivate env p s = Ok (True, p') t"
  shows "peer_inv p'"
proof -
  let ?p = "p\<lparr>p_activated := False\<rparr>"
  obtain b where b: "rdp_send_deactivate_all (pe_session env) (p_rdp ?p) = Some (True, b)"
    using assms(3) by (cases "rdp_send_deactivate_all (pe_session env) (p_rdp ?p)") (auto simp: rdp_server_reactivate_def Let_def split: if_splits)
  let ?q = "enter env CONNECTION_STATE_CAPABILITIES_EXCHANGE (?p\<lparr>p_rdp := b\<rparr>)"
  have q: "past ?q"
    using rdp_send_deactivate_all_frame [OF b] assms(1,2)
    by (auto simp: framed_def past_iff peer_inv_def rdp_server_transition_to_state_def states_less Let_def)
  obtain d where d: "rdp_send_demand_active env (p_rdp ?q) = Some (True, d)" "p' = ?q\<lparr>p_rdp := d\<lparr>AwaitCapabilities := True\<rparr>\<rparr>"
    using assms(3) b by (cases "rdp_send_demand_active env (p_rdp ?q)") (auto simp: rdp_server_reactivate_def Let_def split: if_splits)
  obtain x where "framed ((p_rdp ?q)\<lparr>rdp_settings := (rdp_settings (p_rdp ?q))\<lparr>ShareId := x\<rparr>\<rparr>) d"
    using rdp_send_demand_active_frame [OF d(1)] by blast
  moreover have "past (?q\<lparr>p_rdp := (p_rdp ?q)\<lparr>rdp_settings := (rdp_settings (p_rdp ?q))\<lparr>ShareId := x\<rparr>\<rparr>\<rparr>)"
    using q by (rule past_settings) (simp add: keeps_protocol_simp)
  ultimately have "past p'" using d(2) by (simp add: framed_def past_iff)
  then show ?thesis by (simp add: past_def)
qed

lemma initialize_inv: "freerdp_peer_initialize local key_ok (fresh_peer st) = (ok, p) \<Longrightarrow> peer_inv p"
  by (auto simp: freerdp_peer_initialize_def fresh_peer_def rdp_new_def peer_inv_def states_less Let_def split: if_splits)

lemma peer_reachable_invariant:
  assumes "application_ok env" "peer_reachable env p"
  shows "peer_inv p"
  using assms(2)
proof induction
  case (step p p')
  from step(2,3) show ?case
    by cases (use callback_inv [OF assms(1)] reactivate_inv in \<open>auto dest: givesD\<close>)
qed (rule initialize_inv)

text \<open>C4: the server. Whatever packets a client sends and whenever the application starts a reactivation,
  in every state of a connection: once negotiated, the protocol is one of the three and RDP security is on
  exactly for the protocol RDP with a remote client; from the security commencement on, the user channel, the global channel, the
  message channel if there is one and all virtual channels are joined; the connection encrypts exactly from the secure settings
  exchange on and exactly with RDP security; and an active session is one the application has
  accepted and activated.\<close>

theorem peer_states:
  assumes "application_ok env" "peer_reachable env p"
  shows "(CONNECTION_STATE_NEGO \<le> conn_state (p_rdp p) \<longrightarrow>
      set_SelectedProtocol (rdp_settings (p_rdp p)) \<in> {PROTOCOL_RDP, PROTOCOL_TLS, PROTOCOL_NLA} \<and>
      (UseRdpSecurityLayer (rdp_settings (p_rdp p)) \<longleftrightarrow>
        set_SelectedProtocol (rdp_settings (p_rdp p)) = PROTOCOL_RDP \<and> \<not> LocalConnection (rdp_settings (p_rdp p)))) \<and>
    (CONNECTION_STATE_RDP_SECURITY_COMMENCEMENT \<le> conn_state (p_rdp p) \<longrightarrow>
      userChannelJoined (rdp_mcs (p_rdp p)) \<and> globalChannelJoined (rdp_mcs (p_rdp p)) \<and>
      (messageChannelId (rdp_mcs (p_rdp p)) = 0 \<or> messageChannelJoined (rdp_mcs (p_rdp p))) \<and>
      (\<forall>c \<in> set (take (unat (channelCount (rdp_mcs (p_rdp p)))) (channels (rdp_mcs (p_rdp p)))). ch_joined c)) \<and>
    (do_crypt (p_rdp p) \<longleftrightarrow> CONNECTION_STATE_SECURE_SETTINGS_EXCHANGE \<le> conn_state (p_rdp p) \<and>
      UseRdpSecurityLayer (rdp_settings (p_rdp p))) \<and>
    (conn_state (p_rdp p) = CONNECTION_STATE_ACTIVE \<longrightarrow> p_connected p \<and> p_activated p)"
  using peer_reachable_invariant [OF assms] unfolding peer_inv_def negotiated_def all_joined_def Let_def by blast

definition plain_session_env :: session_env where
  "plain_session_env = \<lparr>s_crypto = plain_crypto, s_write = (\<lambda>w. int (length w)), s_pool = Some (replicate 2048 0),
     s_new = (\<lambda>n. Some (replicate n 0))\<rparr>"

definition idle_handlers :: handlers where
  \<comment> \<open>Handlers that accept everything and read nothing.\<close>
  "idle_handlers = \<lparr>h_update_recv = (\<lambda>_ s. Ok () s), h_update_recv_pointer = (\<lambda>_ s. Ok () s),
     h_update_recv_play_sound = (\<lambda>_ s. Ok () s), h_save_session_info = (\<lambda>_ s. Ok () s), h_bulk_decompress = (\<lambda>_ _ _. None),
     h_autodetect_request = (\<lambda>_ s. Ok 0 s), h_autodetect_response = (\<lambda>_ s. Ok 0 s), h_heartbeat = (\<lambda>_ s. Ok 0 s),
     h_multitransport = (\<lambda>_ s. Ok 0 s), h_redirection = (\<lambda>_ s. Ok 1 s),
     h_calloc = (\<lambda>_. True)\<rparr>"

definition plain_peer_env :: peer_env where
  \<comment> \<open>An application that accepts every client.\<close>
  "plain_peer_env = \<lparr>pe_session = plain_session_env, pe_mcs = good_env, pe_lib = plain_library, pe_net = honest_net 0,
     pe_bn = plain_bn, pe_priv_exp = [], pe_realloc = True, pe_license_pool = Some (replicate 4096 0),
     pe_tls_accept = (\<lambda>_. True), pe_nla_authenticate = (\<lambda>_. 0), pe_Logon = None, pe_PostConnect = Some (\<lambda>_. True),
     pe_Activate = Some (\<lambda>_. True), pe_Capabilities = (\<lambda>st. st), pe_VirtualChannelRead = False, pe_ReceiveChannelData = True,
     pe_read_info_packet = (\<lambda>_ s. Ok () s), pe_read_capability_sets = (\<lambda>st _ s. Ok (True, st) s),
     pe_write_capability_sets = (\<lambda>_ s. Ok () s), pe_input_recv = (\<lambda>_ s. Ok () s), pe_refresh_rect = (\<lambda>_ s. Ok () s),
     pe_suppress_output = (\<lambda>_ s. Ok () s), pe_fastpath_recv_inputs = (\<lambda>_ s. Ok 0 s), pe_handlers = idle_handlers,
     pe_garbage = 0\<rparr>"

lemma plain_application_ok: "application_ok plain_peer_env"
  by (simp add: application_ok_def plain_peer_env_def keeps_protocol_simp)


subsection \<open>The negotiation of a server\<close>

lemma accept_nego_result:
  assumes "rdp_server_accept_nego env p s = Ok (True, p') t"
  obtains nego u nego' st' where "nego_read_request (pe_realloc env) (p_nego p) s = Ok nego u"
    "nego_send_negotiation_response (pe_net env)
       (nego\<lparr>SelectedProtocol := server_selection (rdp_settings (p_rdp p)) (RequestedProtocols nego)\<rparr>)
       (rdpSettings.truncate (rdp_settings (p_rdp p))) = Some (True, nego', st')"
    "rdp_settings (p_rdp p') = rdpSettings.extend st' (rdpSettings.more (rdp_settings (p_rdp p)))"
    "conn_state (p_rdp p') = CONNECTION_STATE_NEGO" "p_nego p' = nego'"
    "SelectedProtocol nego' = PROTOCOL_RDP \<or> (\<exists>q. pe_tls_accept env q)"
    "SelectedProtocol nego' AND PROTOCOL_NLA \<noteq> 0 \<Longrightarrow> Authentication (rdp_settings (p_rdp p')) \<Longrightarrow> \<exists>q. 0 \<le> pe_nla_authenticate env q"
proof (cases "nego_read_request (pe_realloc env) (p_nego p) s")
  case (Ok nego u)
  let ?n = "nego\<lparr>SelectedProtocol := server_selection (rdp_settings (p_rdp p)) (RequestedProtocols nego)\<rparr>"
  show thesis
  proof (cases "nego_send_negotiation_response (pe_net env) ?n (rdpSettings.truncate (rdp_settings (p_rdp p)))")
    case (Some x)
    obtain ok nego' st' where x: "x = (ok, nego', st')" by (cases x)
    have e [simp]: "p_nego (enter env CONNECTION_STATE_NEGO q) = p_nego q"
      "rdp_settings (p_rdp (enter env CONNECTION_STATE_NEGO q)) = rdp_settings (p_rdp q)" for q
      by (simp_all add: rdp_server_transition_to_state_def Let_def)
    from assms Ok Some x that [OF Ok, of nego' st'] show thesis
      by (auto simp: rdp_server_accept_nego_def transport_accept_nla_def transport_accept_tls_def Let_def not_less split: if_splits) blast+
  qed (use assms Ok in \<open>simp add: rdp_server_accept_nego_def Let_def\<close>)
qed (use assms in \<open>simp_all add: rdp_server_accept_nego_def\<close>)


abbreviation (input) tls_server :: freerdp_peer where
  "tls_server \<equiv> snd (freerdp_peer_initialize False True (fresh_peer (peer_settings True 0 [])))"

definition tls_request :: bytes where
  \<comment> \<open>The request of a client that asks for TLS.\<close>
  "tls_request = nego_request_bytes ((the (nego_new True []))\<lparr>RequestedProtocols := PROTOCOL_TLS\<rparr>)"

lemma tls_server:
  "freerdp_peer_initialize False True (fresh_peer (peer_settings True 0 [])) = (True, tls_server)"
  "conn_state (p_rdp tls_server) = CONNECTION_STATE_INITIAL" "p_nego tls_server = the (nego_new True [])"
  "rdp_settings (p_rdp tls_server) = (peer_settings True 0 [])\<lparr>ServerMode := True, FrameAcknowledge := 0, LocalConnection := False\<rparr>"
  by (simp_all add: freerdp_peer_initialize_def fresh_peer_def rdp_new_def Let_def peer_settings_def gccSettings.defs freerdp_settings_new_def)

lemma tls_negotiation:
  "\<exists>p' t. rdp_server_accept_nego plain_peer_env tls_server (Stream_New tls_request) = Ok (True, p') t \<and>
     conn_state (p_rdp p') = CONNECTION_STATE_NEGO \<and> set_SelectedProtocol (rdp_settings (p_rdp p')) = PROTOCOL_TLS \<and>
     SelectedProtocol (p_nego p') = PROTOCOL_TLS"
proof -
  let ?cl = "(the (nego_new True []))\<lparr>RequestedProtocols := PROTOCOL_TLS\<rparr>"
  let ?srv = "the (nego_new True [])"
  obtain t where r: "nego_read_request True ?srv (Stream_New tls_request) =
      Ok (?srv\<lparr>RequestedProtocols := PROTOCOL_TLS, state := NEGO_STATE_FINAL\<rparr>) t"
    using request_roundtrip [of ?cl ?srv]
    by (auto simp: tls_request_def nego_new_def nego_init_def request_token_def request_data_def with_cookie_def nego_data_def)
  have sel: "server_selection (rdp_settings (p_rdp tls_server)) PROTOCOL_TLS = PROTOCOL_TLS"
    unfolding tls_server(4) by (simp add: server_selection_def peer_settings_def gccSettings.defs freerdp_settings_new_def)
  have net: "net_ok (pe_net plain_peer_env)" by (simp add: plain_peer_env_def net_ok_def honest_net_def)
  have w: "0 \<le> n_write (pe_net plain_peer_env) tr x" for tr x by (simp add: plain_peer_env_def honest_net_def)
  have pe: "pe_realloc plain_peer_env" "pe_tls_accept plain_peer_env q" for q by (simp_all add: plain_peer_env_def)
  show ?thesis
    unfolding rdp_server_accept_nego_def Let_def tls_server(3) pe r
    by (simp add: sel [unfolded tls_server(4)] r nego_send_negotiation_response_eq [OF net] nego_transmitted_def w log_event_def Let_def
        nego_update_settings_def transport_accept_tls_def pe rdpSettings.defs tls_server(4)
        rdp_server_transition_to_state_def states_less tls_server(2))
qed


theorem peer_states_witness:
  "\<exists>p. peer_reachable plain_peer_env p \<and> conn_state (p_rdp p) = CONNECTION_STATE_NEGO \<and> \<not> do_crypt (p_rdp p) \<and>
     \<not> UseRdpSecurityLayer (rdp_settings (p_rdp p))"
proof -
  obtain p' t where a: "rdp_server_accept_nego plain_peer_env tls_server (Stream_New tls_request) = Ok (True, p') t"
    "conn_state (p_rdp p') = CONNECTION_STATE_NEGO" "set_SelectedProtocol (rdp_settings (p_rdp p')) = PROTOCOL_TLS"
    "SelectedProtocol (p_nego p') = PROTOCOL_TLS" using tls_negotiation by blast
  have n: "pe_Logon plain_peer_env = None" by (simp add: plain_peer_env_def)
  have "peer_recv_callback plain_peer_env tls_server (Some (Stream_New tls_request)) = Ok (0, p') t"
    by (subst peer_recv_callback.simps) (simp only: tls_server(2) prod.case CONNECTION_STATE.case option.case peer_accept_client_def a andthen.simps;
      simp add: a(4) peer_logon_def n)
  then have "peer_step plain_peer_env tls_server p'" by (rule packet) simp
  with start [OF tls_server(1)] have r: "peer_reachable plain_peer_env p'" by (rule step)
  from peer_states [OF plain_application_ok r] a(2,3) r show ?thesis by (auto simp: states_less)
qed

end
