(* ===== verification/Client.thy ===== *)
theory Client
  imports Peer
begin

text \<open>
  The client: libfreerdp/core/rdp.c with the callback \<open>rdp_recv_callback\<close> that a packet of the server drives,
  the steps of libfreerdp/core/connection.c it calls, and the routines of capabilities.c, info.c,
  license.c, activation.c, channels.c and transport.c around them.

  A deactivation that arrives in a session makes the client wait, inside the handler of the packet, for the
  session to be active again: \<open>rdp_recv_deactivate_all\<close> calls \<open>rdp_check_fds\<close>, which calls the callback.
  The functions below \<open>rdp_recv_callback\<close> therefore take that wait as their argument \<open>await\<close>; the recursion is
  closed at the end, in \<open>transport_check_fds\<close>.
\<close>

abbreviation (input) STATUS_VALID_CLIENT :: u32 where "STATUS_VALID_CLIENT \<equiv> 7"
abbreviation (input) ST_TOTAL_ABORT :: u32 where "ST_TOTAL_ABORT \<equiv> 1"
abbreviation (input) ST_NO_TRANSITION :: u32 where "ST_NO_TRANSITION \<equiv> 2"
abbreviation (input) ST_RESET_PHASE_TO_START :: u32 where "ST_RESET_PHASE_TO_START \<equiv> 3"
abbreviation (input) BB_ANY_BLOB :: u16 where "BB_ANY_BLOB \<equiv> 0"
abbreviation (input) BB_ERROR_BLOB :: u16 where "BB_ERROR_BLOB \<equiv> 4"
abbreviation (input) LICENSE_REQUEST :: u8 where "LICENSE_REQUEST \<equiv> 0x01"
abbreviation (input) PLATFORM_CHALLENGE :: u8 where "PLATFORM_CHALLENGE \<equiv> 0x02"
abbreviation (input) NEW_LICENSE :: u8 where "NEW_LICENSE \<equiv> 0x03"
abbreviation (input) UPGRADE_LICENSE :: u8 where "UPGRADE_LICENSE \<equiv> 0x04"
abbreviation (input) ERROR_ALERT :: u8 where "ERROR_ALERT \<equiv> 0xFF"

subsection \<open>The client\<close>

datatype LICENSE_STATE =
    LICENSE_STATE_AWAIT
  | LICENSE_STATE_PROCESS
  | LICENSE_STATE_ABORTED
  | LICENSE_STATE_COMPLETED

record LICENSE_BLOB =
  blob_type :: u16
  blob_length :: u16
  blob_data :: bytes

record rdpLicense =
  license_state :: LICENSE_STATE
  ErrorInfo_blob :: LICENSE_BLOB

datatype pdu_read = No_Pdu | Read_Error | Read_Pdu bytes

record rdp_client =
  c_rdp :: rdpRdp
  c_license :: rdpLicense
  c_nla :: "bytes list option"
  c_reads :: "pdu_read list"

text \<open>
  \<open>c_reads\<close> is what the coming calls of \<open>transport_read_pdu\<close> return: nothing yet (0), an error, or a PDU; after
  them the connection is closed. \<open>c_nla\<close> is whether \<open>rdp->nla\<close> is there, with the PDUs it has got.
\<close>

record client_env =
  ce_session :: session_env
  ce_mcs :: env
  ce_lib :: library
  ce_bn :: bignum
  ce_nonce :: bytes
  ce_cert_info :: "secSettings \<Rightarrow> bytes \<times> bytes"
  ce_take :: bool
  ce_malloc :: "nat \<Rightarrow> bool"
  ce_nla_recv_pdu :: "bytes list \<Rightarrow> int \<times> bool"
  ce_write_info_packet :: "secSettings \<Rightarrow> wStream \<Rightarrow> unit res"
  ce_license_request :: "rdpRdp \<Rightarrow> wStream \<Rightarrow> (bool \<times> rdpRdp) res"
  ce_platform_challenge :: "rdpRdp \<Rightarrow> wStream \<Rightarrow> (bool \<times> rdpRdp) res"
  ce_read_capability_sets :: "secSettings \<Rightarrow> u16 \<Rightarrow> wStream \<Rightarrow> (bool \<times> secSettings) res"
  ce_write_capability_sets :: "secSettings \<Rightarrow> wStream \<Rightarrow> (u16 \<times> secSettings) res"
  ce_register_callbacks :: bool
  ce_DesktopResize :: "(secSettings \<Rightarrow> bool) option"
  ce_ReceiveChannelData :: bool
  ce_fastpath_recv_updates :: "rdpRdp \<Rightarrow> wStream \<Rightarrow> int res"
  ce_redirect :: "rdpRdp \<Rightarrow> int \<times> rdpRdp"
  ce_handlers :: handlers
  ce_garbage :: u16

text \<open>
  What is not modelled: modulus and exponent of the server's certificate; whether \<open>StreamPool_Take\<close> and
  \<open>malloc\<close> succeed; \<open>nla_recv_pdu\<close> with whether the authentication is over; \<open>rdp_write_info_packet\<close>; reading the
  license request and the platform challenge and answering them; the capability sets (the writer with the
  number of sets it has written); the callbacks of the application; the fast path; \<open>rdp_client_redirect\<close>. No
  gateway is used. \<open>ce_garbage\<close> is what an uninitialised variable holds.
\<close>

definition rdp_client_transition_to_state :: "CONNECTION_STATE \<Rightarrow> rdpRdp \<Rightarrow> rdpRdp" where
  \<comment> \<open>Without the reset of update.c and the report to \<open>gReportState\<close>. The default case is no state.\<close>
  "rdp_client_transition_to_state st rdp =
     (case st of
        CONNECTION_STATE_FINALIZATION \<Rightarrow> rdp\<lparr>conn_state := st, finalize_sc_pdus := 0\<rparr>
      | _ \<Rightarrow> rdp\<lparr>conn_state := st\<rparr>)"

abbreviation (input) with_rdp :: "rdp_client \<Rightarrow> rdpRdp \<Rightarrow> rdp_client" where
  "with_rdp c rdp \<equiv> c\<lparr>c_rdp := rdp\<rparr>"

abbreviation (input) go_to :: "CONNECTION_STATE \<Rightarrow> rdp_client \<Rightarrow> rdp_client" where
  "go_to st c \<equiv> c\<lparr>c_rdp := rdp_client_transition_to_state st (c_rdp c)\<rparr>"

definition sent_then :: "(bool \<times> rdpRdp) option \<Rightarrow> (rdpRdp \<Rightarrow> (bool \<times> rdpRdp) option) \<Rightarrow> (bool \<times> rdpRdp) option" where
  \<comment> \<open>A call that sends, whose FALSE makes the caller return FALSE.\<close>
  "sent_then r k = (case r of None \<Rightarrow> None | Some (ok, rdp) \<Rightarrow> if ok then k rdp else Some (False, rdp))"

subsection \<open>Joining the channels\<close>

definition rdp_send_client_info :: "client_env \<Rightarrow> rdpRdp \<Rightarrow> (bool \<times> rdpRdp) option" where
  "rdp_send_client_info env rdp =
     (let rdp = rdp\<lparr>sec_flags := sec_flags rdp OR ucast SEC_INFO_PKT\<rparr>
      in case s_new (ce_session env) 2048 of None \<Rightarrow> Some (False, rdp)
         | Some mem \<Rightarrow>
             (case rdp_init_stream rdp (Stream_New mem) of (rdp, s) \<Rightarrow>
                sending (andthen (ce_write_info_packet env (rdp_settings rdp) s) (\<lambda>_ s.
                  rdp_send (s_crypto (ce_session env)) (s_write (ce_session env)) rdp s MCS_GLOBAL_CHANNEL_ID))))"

definition client_channel_join_confirm :: "client_env \<Rightarrow> rdpRdp \<Rightarrow> wStream \<Rightarrow> (bool \<times> rdpRdp) option" where
  \<comment> \<open>\<open>rdp_client_connect_mcs_channel_join_confirm\<close>, with what follows the last confirm.\<close>
  "client_channel_join_confirm env rdp s =
     (let told = (\<lambda>mcs ps. rdp\<lparr>rdp_mcs := mcs, rdp_events := map Sent (rev ps) @ rdp_events rdp\<rparr>)
      in case rdp_client_connect_mcs_channel_join_confirm (ce_mcs env) (rdp_mcs rdp) s of
           Join_Crash \<Rightarrow> None
         | Join_False mcs ps \<Rightarrow> Some (False, told mcs ps)
         | Join_More mcs ps \<Rightarrow> Some (True, told mcs ps)
         | Join_All mcs ps \<Rightarrow>
             (case rdp_client_establish_keys (s_crypto (ce_session env)) (ce_bn env) (ce_mcs env) (ce_nonce env)
                     (ce_cert_info env (rdp_settings rdp)) (told mcs ps) of
                None \<Rightarrow> None
              | Some (ok, ws, rdp) \<Rightarrow>
                  sent_then (Some (ok, rdp\<lparr>rdp_events := map Sent (rev ws) @ rdp_events rdp\<rparr>)) (\<lambda>rdp.
                  sent_then (rdp_send_client_info env rdp) (\<lambda>rdp.
                  Some (True, rdp_client_transition_to_state CONNECTION_STATE_LICENSING rdp)))))"

subsection \<open>Licensing\<close>

definition license_read_preamble :: "wStream \<Rightarrow> (u8 \<times> u8 \<times> u16) res" where
  "license_read_preamble s =
     (if Stream_GetRemainingLength s < 4 then Fail s
      else
        andthen (Stream_Read_UINT8 s) (\<lambda>bMsgType s.
        andthen (Stream_Read_UINT8 s) (\<lambda>fl s.
        andthen (Stream_Read_UINT16 s) (\<lambda>wMsgSize s. Ok (bMsgType, fl, wMsgSize) s))))"

definition license_read_binary_blob :: "(nat \<Rightarrow> bool) \<Rightarrow> LICENSE_BLOB \<Rightarrow> wStream \<Rightarrow> (bool \<times> LICENSE_BLOB) res" where
  \<comment> \<open>A type that does not match is only reported.\<close>
  "license_read_binary_blob room_for blob s =
     (if Stream_GetRemainingLength s < 4 then Ok (False, blob) s
      else
        andthen (Stream_Read_UINT16 s) (\<lambda>wBlobType s.
        andthen (Stream_Read_UINT16 s) (\<lambda>len s.
          let blob = blob\<lparr>blob_length := len\<rparr>
          in if Stream_GetRemainingLength s < unat len then Ok (False, blob) s
             else if blob_type blob \<noteq> BB_ANY_BLOB \<and> len = 0 then Ok (True, blob) s
             else
               (let blob = blob\<lparr>blob_type := wBlobType\<rparr>
                in if \<not> room_for (unat len) then Ok (False, blob\<lparr>blob_data := []\<rparr>) s
                   else andthen (Stream_Read s (unat len)) (\<lambda>data s. Ok (True, blob\<lparr>blob_data := data\<rparr>) s)))))"

definition license_read_new_license_packet :: "rdpLicense \<Rightarrow> rdpLicense" where
  "license_read_new_license_packet license = license\<lparr>license_state := LICENSE_STATE_COMPLETED\<rparr>"

definition license_read_upgrade_license_packet :: "rdpLicense \<Rightarrow> rdpLicense" where
  "license_read_upgrade_license_packet license = license\<lparr>license_state := LICENSE_STATE_COMPLETED\<rparr>"

definition license_read_error_alert_packet :: "(nat \<Rightarrow> bool) \<Rightarrow> rdpLicense \<Rightarrow> wStream \<Rightarrow> (bool \<times> rdpLicense) res" where
  "license_read_error_alert_packet room_for license s =
     (if Stream_GetRemainingLength s < 8 then Ok (False, license) s
      else
        andthen (Stream_Read_UINT32 s) (\<lambda>dwErrorCode s.
        andthen (Stream_Read_UINT32 s) (\<lambda>dwStateTransition s.
        andthen (license_read_binary_blob room_for (ErrorInfo_blob license) s) (\<lambda>(ok, blob) s.
          let license = license\<lparr>ErrorInfo_blob := blob\<rparr>
          in if \<not> ok then Ok (False, license) s
             else Ok (True,
               if dwErrorCode = STATUS_VALID_CLIENT then license\<lparr>license_state := LICENSE_STATE_COMPLETED\<rparr>
               else if dwStateTransition = ST_TOTAL_ABORT then license\<lparr>license_state := LICENSE_STATE_ABORTED\<rparr>
               else if dwStateTransition = ST_NO_TRANSITION then license\<lparr>license_state := LICENSE_STATE_COMPLETED\<rparr>
               else if dwStateTransition = ST_RESET_PHASE_TO_START then license\<lparr>license_state := LICENSE_STATE_AWAIT\<rparr>
               else license) s))))"

definition license_recv :: "client_env \<Rightarrow> rdp_client \<Rightarrow> wStream \<Rightarrow> (int \<times> rdp_client) res" where
  \<comment> \<open>An unknown message type returns FALSE, which is 0.\<close>
  "license_recv env c s =
     failing (rdp_read_header (c_rdp c) s (ce_garbage env)) (-1, c) (\<lambda>(len, channelId, rdp) s.
       failing (rdp_read_security_header s) (-1, with_rdp c rdp) (\<lambda>securityFlags s.
           andthen
             (if securityFlags AND ucast SEC_ENCRYPT \<noteq> 0
              then rdp_decrypt (s_crypto (ce_session env)) rdp s (uint len - 4) securityFlags
              else Ok (True, rdp) s) (\<lambda>(ok, rdp) s.
             let c = with_rdp c rdp
             in if \<not> ok then Ok (-1, c) s
                else if securityFlags AND ucast SEC_LICENSE_PKT = 0 then
                  (let s = (if securityFlags AND ucast SEC_ENCRYPT = 0 then Stream_Rewind s 4 else s)
                   in andthen (rdp_recv_out_of_sequence_pdu (ce_handlers env) rdp s) (\<lambda>(status, rdp) s.
                        Ok (if status < 0 then status else 0, with_rdp c rdp) s))
                else
                  failing (license_read_preamble s) (-1, c) (\<lambda>(bMsgType, fl, wMsgSize) s.
                    if bMsgType = LICENSE_REQUEST then
                      failing (ce_license_request env rdp s) (-1, c) (\<lambda>(ok, rdp) s. Ok (if ok then 0 else -1, with_rdp c rdp) s)
                    else if bMsgType = PLATFORM_CHALLENGE then
                      failing (ce_platform_challenge env rdp s) (-1, c) (\<lambda>(ok, rdp) s. Ok (if ok then 0 else -1, with_rdp c rdp) s)
                    else if bMsgType = NEW_LICENSE then Ok (0, c\<lparr>c_license := license_read_new_license_packet (c_license c)\<rparr>) s
                    else if bMsgType = UPGRADE_LICENSE then Ok (0, c\<lparr>c_license := license_read_upgrade_license_packet (c_license c)\<rparr>) s
                    else if bMsgType = ERROR_ALERT then
                      andthen (license_read_error_alert_packet (ce_malloc env) (c_license c) s) (\<lambda>(ok, license) s.
                        Ok (if ok then 0 else -1, c\<lparr>c_license := license\<rparr>) s)
                    else Ok (0, c) s))))"

definition rdp_client_connect_license :: "client_env \<Rightarrow> rdp_client \<Rightarrow> wStream \<Rightarrow> (int \<times> rdp_client) res" where
  "rdp_client_connect_license env c s =
     andthen (license_recv env c s) (\<lambda>(status, c) s.
       if status < 0 then Ok (status, c) s
       else if license_state (c_license c) = LICENSE_STATE_ABORTED then Ok (-1, c) s
       else if license_state (c_license c) = LICENSE_STATE_COMPLETED
       then Ok (0, go_to CONNECTION_STATE_CAPABILITIES_EXCHANGE c) s
       else Ok (0, c) s)"

subsection \<open>Capabilities\<close>

definition rdp_recv_get_active_header :: "client_env \<Rightarrow> rdpRdp \<Rightarrow> wStream \<Rightarrow> (bool \<times> rdpRdp) res" where
  "rdp_recv_get_active_header env rdp s =
     failing (rdp_read_header rdp s (ce_garbage env)) (False, rdp) (\<lambda>(len, channelId, rdp) s.
       if freerdp_shall_disconnect rdp then Ok (True, rdp) s
       else
         failing (if UseRdpSecurityLayer (rdp_settings rdp) then rdp_read_security_header s else Ok 0 s) (False, rdp) (\<lambda>securityFlags s.
           andthen
             (if securityFlags AND ucast SEC_ENCRYPT \<noteq> 0
              then rdp_decrypt (s_crypto (ce_session env)) rdp s (uint len - 4) securityFlags
              else Ok (True, rdp) s) (\<lambda>(ok, rdp) s.
             if \<not> ok then Ok (False, rdp) s
             else Ok (channelId = MCS_GLOBAL_CHANNEL_ID \<or>
                        (messageChannelId (rdp_mcs rdp) \<noteq> 0 \<and> channelId = messageChannelId (rdp_mcs rdp)), rdp) s)))"

definition rdp_recv_demand_active :: "client_env \<Rightarrow> rdpRdp \<Rightarrow> wStream \<Rightarrow> (bool \<times> rdpRdp) res" where
  "rdp_recv_demand_active env rdp s =
     andthen (rdp_recv_get_active_header env rdp s) (\<lambda>(ok, rdp) s.
       if \<not> ok then Ok (False, rdp) s
       else if freerdp_shall_disconnect rdp then Ok (True, rdp) s
       else
         failing (rdp_read_share_control_header s) (False, rdp) (\<lambda>(pduLength, pduType, pduSource) s.
           if pduType = PDU_TYPE_DATA then
             andthen (rdp_recv_data_pdu (ce_handlers env) rdp s) (\<lambda>(_, rdp) s. Ok (False, rdp) s)
           else if pduType \<noteq> PDU_TYPE_DEMAND_ACTIVE then Ok (False, rdp) s
           else
             (let rdp = rdp\<lparr>rdp_settings := (rdp_settings rdp)\<lparr>PduSource := ucast pduSource\<rparr>\<rparr>
              in if Stream_GetRemainingLength s < 8 then Ok (False, rdp) s
                 else
                   andthen (Stream_Read_UINT32 s) (\<lambda>shareId s.
                   andthen (Stream_Read_UINT16 s) (\<lambda>lengthSourceDescriptor s.
                   andthen (Stream_Read_UINT16 s) (\<lambda>lengthCombinedCapabilities s.
                     let rdp = rdp\<lparr>rdp_settings := (rdp_settings rdp)\<lparr>ShareId := shareId\<rparr>\<rparr>
                     in failing (Stream_SafeSeek s (unat lengthSourceDescriptor)) (False, rdp) (\<lambda>_ s.
                          if Stream_GetRemainingLength s < 4 then Ok (False, rdp) s
                          else
                            andthen (Stream_Read_UINT16 s) (\<lambda>numberCapabilities s.
                            failing (ce_read_capability_sets env (rdp_settings rdp) numberCapabilities (Stream_Seek s 2)) (False, rdp) (\<lambda>(ok, settings) s.
                              Ok (ok, rdp\<lparr>rdp_settings := settings\<rparr>) s)))))))))"

definition rdp_write_confirm_active :: "client_env \<Rightarrow> wStream \<Rightarrow> secSettings \<Rightarrow> secSettings res" where
  \<comment> \<open>The source descriptor is \<open>FREERDP\<close> with its terminating 0. Writing the sets can change the settings.\<close>
  "rdp_write_confirm_active env s settings =
     andthen (Stream_Write_UINT32 s (ShareId settings)) (\<lambda>_ s.
     andthen (Stream_Write_UINT16 s 0x03EA) (\<lambda>_ s.
     andthen (Stream_Write_UINT16 s 8) (\<lambda>_ s.
     let lm = s_pos s
     in andthen (Stream_Write (Stream_Seek s 2) [0x46, 0x52, 0x45, 0x45, 0x52, 0x44, 0x50, 0]) (\<lambda>_ s.
        let bm = s_pos s
        in andthen (Stream_Write_UINT16 (Stream_Seek s 2) 0) (\<lambda>_ s.
           andthen (ce_write_capability_sets env settings s) (\<lambda>(numberCapabilities, settings) s.
           let em = s_pos s
           in andthen (Stream_Write_UINT16 (Stream_SetPosition s lm) (word_of_int (int em - int bm))) (\<lambda>_ s.
              andthen (Stream_Write_UINT16 (Stream_SetPosition s bm) numberCapabilities) (\<lambda>_ s.
              Ok settings (Stream_SetPosition s em)))))))))"

definition rdp_send_confirm_active :: "client_env \<Rightarrow> rdpRdp \<Rightarrow> (bool \<times> rdpRdp) option" where
  "rdp_send_confirm_active env rdp =
     (case s_new (ce_session env) 4096 of None \<Rightarrow> Some (False, rdp)
      | Some mem \<Rightarrow>
          (case rdp_init_stream_pdu rdp (Stream_New mem) of (rdp, s) \<Rightarrow>
             sending
               (andthen (rdp_write_confirm_active env s (rdp_settings rdp)) (\<lambda>settings s.
                rdp_send_pdu (s_crypto (ce_session env)) (s_write (ce_session env)) (rdp\<lparr>rdp_settings := settings\<rparr>) s
                  PDU_TYPE_CONFIRM_ACTIVE (userId (rdp_mcs rdp))))))"

definition rdp_client_connect_finalize :: "session_env \<Rightarrow> rdpRdp \<Rightarrow> (int \<times> rdpRdp) option" where
  "rdp_client_connect_finalize env rdp =
     map_option (\<lambda>(ok, rdp). (if ok then 0 else -1, rdp))
       (sent_then (rdp_send_client_synchronize_pdu env rdp) (\<lambda>rdp.
        sent_then (rdp_send_client_control_pdu env rdp CTRLACTION_COOPERATE) (\<lambda>rdp.
        sent_then (rdp_send_client_control_pdu env rdp CTRLACTION_REQUEST_CONTROL) (\<lambda>rdp.
        sent_then
          (if \<not> deactivation_reactivation rdp \<and> BitmapCachePersistEnabled (rdp_settings rdp)
           then rdp_send_client_persistent_key_list_pdu env rdp else Some (True, rdp)) (\<lambda>rdp.
        rdp_send_client_font_list_pdu env rdp (FONTLIST_FIRST OR FONTLIST_LAST))))))"

definition rdp_client_connect_demand_active :: "client_env \<Rightarrow> rdpRdp \<Rightarrow> wStream \<Rightarrow> (int \<times> rdpRdp) res" where
  \<comment> \<open>Anything but a Demand Active PDU is read again from its start.\<close>
  "rdp_client_connect_demand_active env rdp s =
     (let width = DesktopWidth (rdp_settings rdp); height = DesktopHeight (rdp_settings rdp); mark = s_pos s
      in andthen (rdp_recv_demand_active env rdp s) (\<lambda>(ok, rdp) s.
           if \<not> ok then
             andthen (rdp_recv_get_active_header env rdp (Stream_SetPosition s mark)) (\<lambda>(_, rdp) s.
               rdp_recv_out_of_sequence_pdu (ce_handlers env) rdp s)
           else if freerdp_shall_disconnect rdp then Ok (0, rdp) s
           else
             (case rdp_send_confirm_active env rdp of None \<Rightarrow> Overrun
              | Some (ok, rdp) \<Rightarrow>
                  if \<not> ok \<or> \<not> ce_register_callbacks env then Ok (-1, rdp) s
                  else if (width \<noteq> DesktopWidth (rdp_settings rdp) \<or> height \<noteq> DesktopHeight (rdp_settings rdp)) \<and>
                    (case ce_DesktopResize env of None \<Rightarrow> False | Some f \<Rightarrow> \<not> f (rdp_settings rdp)) then Ok (-1, rdp) s
                  else
                    (case rdp_client_connect_finalize (ce_session env) (rdp_client_transition_to_state CONNECTION_STATE_FINALIZATION rdp) of
                       None \<Rightarrow> Overrun
                     | Some r \<Rightarrow> Ok r s))))"

subsection \<open>Packets of a session\<close>

definition freerdp_channel_process :: "client_env \<Rightarrow> rdpRdp \<Rightarrow> wStream \<Rightarrow> u16 \<Rightarrow> (bool \<times> rdpRdp) res" where
  \<comment> \<open>What the callback of the application is given is an event.\<close>
  "freerdp_channel_process env rdp s channelId =
     (if Stream_GetRemainingLength s < 8 then Ok (False, rdp) s
      else
        andthen (Stream_Read_UINT32 s) (\<lambda>_ s.
        andthen (Stream_Read_UINT32 s) (\<lambda>_ s.
          Ok (True, if ce_ReceiveChannelData env then rdp\<lparr>rdp_events := ChannelData channelId (avail s) # rdp_events rdp\<rparr> else rdp) s)))"

definition rdp_client_connect_auto_detect :: "client_env \<Rightarrow> rdpRdp \<Rightarrow> wStream \<Rightarrow> (bool \<times> rdpRdp) res" where
  "rdp_client_connect_auto_detect env rdp s =
     (if messageChannelId (rdp_mcs rdp) = 0 then Ok (False, rdp) s
      else
        (case rdp_read_header rdp s (ce_garbage env) of
           Overrun \<Rightarrow> Overrun
         | Fail t \<Rightarrow> Ok (False, rdp) (Stream_SetPosition t (s_pos s))
         | Ok (len, channelId, rdp) t \<Rightarrow>
             if channelId \<noteq> messageChannelId (rdp_mcs rdp) then Ok (False, rdp) (Stream_SetPosition t (s_pos s))
             else
               failing (rdp_read_security_header t) (False, rdp) (\<lambda>securityFlags t.
               andthen (rdp_recv_message_channel_pdu (ce_handlers env) rdp t securityFlags) (\<lambda>(status, rdp) t.
                 if status = 0 then Ok (True, rdp) t else Ok (False, rdp) (Stream_SetPosition t (s_pos s))))))"

definition rdp_recv_deactivate_all :: "(rdp_client \<Rightarrow> (bool \<times> rdp_client) res) \<Rightarrow> rdp_client \<Rightarrow> wStream \<Rightarrow> (bool \<times> rdp_client) res" where
  \<comment> \<open>\<open>await\<close> is the loop at the end.\<close>
  "rdp_recv_deactivate_all await c s =
     (let rdp = (c_rdp c)\<lparr>deactivation_reactivation := (conn_state (c_rdp c) = CONNECTION_STATE_ACTIVE)\<rparr>
      in andthen
           (if Stream_GetRemainingLength s < 4 then Ok (ShareId (rdp_settings rdp)) s
            else
              andthen (Stream_Read_UINT32 s) (\<lambda>shareId s.
                if Stream_GetRemainingLength s < 2 then Ok shareId s
                else
                  andthen (Stream_Read_UINT16 s) (\<lambda>lengthSourceDescriptor s.
                    Ok shareId (if Stream_GetRemainingLength s < unat lengthSourceDescriptor then s
                                else Stream_Seek s (unat lengthSourceDescriptor))))) (\<lambda>shareId s.
           let rdp = rdp\<lparr>rdp_settings := (rdp_settings rdp)\<lparr>ShareId := shareId\<rparr>\<rparr>
           in await (with_rdp c (rdp_client_transition_to_state CONNECTION_STATE_CAPABILITIES_EXCHANGE rdp))))"

definition rdp_recv_share_pdu :: "client_env \<Rightarrow> (rdp_client \<Rightarrow> (bool \<times> rdp_client) res) \<Rightarrow> rdp_client \<Rightarrow> u16 \<Rightarrow> wStream \<Rightarrow> (int option \<times> rdp_client) res" where
  \<comment> \<open>The \<open>switch\<close> of \<open>rdp_recv_tpkt_pdu\<close>; Some is a return.\<close>
  "rdp_recv_share_pdu env await c pduType s =
     (if pduType = PDU_TYPE_DATA then
        andthen (rdp_recv_data_pdu (ce_handlers env) (c_rdp c) s) (\<lambda>(i, rdp) s. Ok (if i < 0 then Some (-1) else None, with_rdp c rdp) s)
      else if pduType = PDU_TYPE_DEACTIVATE_ALL then
        andthen (rdp_recv_deactivate_all await c s) (\<lambda>(ok, c) s. Ok (if ok then None else Some (-1), c) s)
      else if pduType = PDU_TYPE_SERVER_REDIRECTION then
        failing (h_redirection (ce_handlers env) (c_rdp c) s) (Some (-1), c) (\<lambda>i s. Ok (Some i, c) s)
      else Ok (None, c) s)"

lemma share_control_header_room:
  assumes "rdp_read_share_control_header s = Ok (len, type, ch) t"
  shows "s_pos s < s_length s" "s_length s - s_pos s < 2 ^ 64 \<Longrightarrow> 0 < unat len"
proof -
  from assms have two: "2 \<le> length (avail s)"
    by (auto simp: rdp_read_share_control_header_def Stream_Read_UINT16_def split: if_splits list.splits)
  then show lt: "s_pos s < s_length s" by (simp add: avail_def)
  from two obtain b0 b1 rest where b: "avail s = b0 # b1 # rest" by (auto simp: numeral_2_eq_2 Suc_le_length_iff)
  let ?n = "ucast b0 + push_bit 8 (ucast b1) :: u16"
  have fc: "andthen (rdp_read_flow_control_pdu u) (\<lambda>type. Ok (8, type, 0)) = Ok (0 :: u16, type, ch :: u16) t \<Longrightarrow> False" for u
    by (cases "rdp_read_flow_control_pdu u") simp_all
  assume h: "s_length s - s_pos s < 2 ^ 64"
  have "\<not> size_of_int (- 2) \<le> Stream_GetRemainingLength (Stream_Seek s 2)"
    using h two by (simp add: size_of_int_def Stream_GetRemainingLength_def Stream_Seek_def avail_def) arith
  then have "len \<noteq> 0"
    using assms b fc
    by (auto simp: rdp_read_share_control_header_def Stream_Read_UINT16_def Let_def not_less andthen_Ok_iff split: if_splits)
  then show "0 < unat len" by (simp add: unat_gt_0)
qed

function rdp_recv_share_pdus :: "client_env \<Rightarrow> (rdp_client \<Rightarrow> (bool \<times> rdp_client) res) \<Rightarrow> rdp_client \<Rightarrow> wStream \<Rightarrow> (int \<times> rdp_client) res" where
  \<comment> \<open>The loop of \<open>rdp_recv_tpkt_pdu\<close> over the PDUs of a packet. The handlers read the stream and leave its
    memory as it is. There is no stream with 2^64 bytes left. With the cursor past the end the remaining length is a huge
    number, and the loop goes on.\<close>
  "rdp_recv_share_pdus env await c s =
     (if \<not> 3 < Stream_GetRemainingLength s then Ok (0, c) s
      else if 2 ^ 64 \<le> s_length s - s_pos s then Overrun
      else
        (case rdp_read_share_control_header s of
           Overrun \<Rightarrow> Overrun
         | Fail t \<Rightarrow> Ok (-1, c) t
         | Ok (pduLength, pduType, pduSource) t \<Rightarrow>
             (let rdp = c_rdp c; rdp = rdp\<lparr>rdp_settings := (rdp_settings rdp)\<lparr>PduSource := ucast pduSource\<rparr>\<rparr>
              in andthen (rdp_recv_share_pdu env await (with_rdp c rdp) pduType t) (\<lambda>(returned, c) u.
                   case returned of Some i \<Rightarrow> Ok (i, c) u
                   | None \<Rightarrow> rdp_recv_share_pdus env await c (Stream_SetPosition s (s_pos s + unat pduLength))))))"
  by pat_completeness auto
termination
  by (relation "measure (\<lambda>(env, await, c, s). s_length s - s_pos s)")
    (auto simp: Stream_SetPosition_def not_le dest: share_control_header_room intro!: diff_less_mono2)

declare rdp_recv_share_pdus.simps [simp del]

definition rdp_recv_tpkt_pdu :: "client_env \<Rightarrow> (rdp_client \<Rightarrow> (bool \<times> rdp_client) res) \<Rightarrow> rdp_client \<Rightarrow> wStream \<Rightarrow> (int \<times> rdp_client) res" where
  "rdp_recv_tpkt_pdu env await c s =
     andthen (recv_packet (s_crypto (ce_session env)) client_encrypted (c_rdp c) s 0) (\<lambda>r s.
       case r of
         Inl (i, rdp) \<Rightarrow> Ok (i, with_rdp c rdp) s
       | Inr (channelId, securityFlags, rdp) \<Rightarrow>
           (let c = with_rdp c rdp; message = messageChannelId (rdp_mcs rdp);
                on_message = (\<lambda>fl s. andthen (rdp_recv_message_channel_pdu (ce_handlers env) rdp s fl) (\<lambda>(i, rdp) s. Ok (i, with_rdp c rdp) s))
            in if UseRdpSecurityLayer (rdp_settings rdp) \<and> securityFlags AND ucast SEC_REDIRECTION_PKT \<noteq> 0
               then failing (h_redirection (ce_handlers env) rdp (Stream_Rewind s 2)) (-1, c) (\<lambda>i s. Ok (i, c) s)
               else if channelId = MCS_GLOBAL_CHANNEL_ID then rdp_recv_share_pdus env await c s
               else if message \<noteq> 0 \<and> channelId = message then
                 (if \<not> UseRdpSecurityLayer (rdp_settings rdp)
                  then failing (rdp_read_security_header s) (-1, c) on_message
                  else on_message securityFlags s)
               else andthen (freerdp_channel_process env rdp s channelId) (\<lambda>(ok, rdp) s. Ok (if ok then 0 else -1, with_rdp c rdp) s)))"

definition rdp_recv_fastpath_pdu :: "client_env \<Rightarrow> rdp_client \<Rightarrow> wStream \<Rightarrow> (int \<times> rdp_client) res" where
  "rdp_recv_fastpath_pdu env c s =
     andthen (fastpath_read_header_rdp s) (\<lambda>(enc, events, len) s.
       case len of None \<Rightarrow> Ok (-1, c) s
       | Some len \<Rightarrow>
           if len = 0 \<or> unat len > Stream_GetRemainingLength s then Ok (-1, c) s
           else
             andthen
               (if enc AND 2 \<noteq> 0
                then rdp_decrypt (s_crypto (ce_session env)) (c_rdp c) s (uint len) (if enc AND 1 \<noteq> 0 then ucast SEC_SECURE_CHECKSUM else 0)
                else Ok (True, c_rdp c) s) (\<lambda>(ok, rdp) s.
               if \<not> ok then Ok (-1, with_rdp c rdp) s
               else failing (ce_fastpath_recv_updates env rdp s) (-1, with_rdp c rdp) (\<lambda>i s. Ok (i, with_rdp c rdp) s)))"

definition rdp_recv_pdu :: "client_env \<Rightarrow> (rdp_client \<Rightarrow> (bool \<times> rdp_client) res) \<Rightarrow> rdp_client \<Rightarrow> wStream \<Rightarrow> (int \<times> rdp_client) res" where
  "rdp_recv_pdu env await c s =
     andthen (tpkt_verify_header s) (\<lambda>tpkt s.
       if tpkt then rdp_recv_tpkt_pdu env await c s else rdp_recv_fastpath_pdu env c s)"

subsection \<open>The state machine\<close>

definition gcc_into :: "gcc \<Rightarrow> rdpRdp \<Rightarrow> rdpRdp" where
  "gcc_into g rdp = rdp\<lparr>rdp_mcs := fst g, rdp_settings := gccSettings.extend (snd g) (gccSettings.more (rdp_settings rdp))\<rparr>"

definition client_nla :: "client_env \<Rightarrow> rdp_client \<Rightarrow> wStream \<Rightarrow> (int \<times> rdp_client) res" where
  \<comment> \<open>The case \<open>CONNECTION_STATE_NLA\<close>.\<close>
  "client_nla env c s =
     (case c_nla c of None \<Rightarrow> Overrun
      | Some got \<Rightarrow>
          (let got = got @ [avail s]; (status, auth_info) = ce_nla_recv_pdu env got
           in if status < 1 then Ok (-1, c\<lparr>c_nla := Some got\<rparr>) s
              else if \<not> auth_info then Ok (0, c\<lparr>c_nla := Some got\<rparr>) s
              else
                (case mcs_client_begin (ce_mcs env) (ce_lib env) (LastError (c_rdp c)) (gcc_of (c_rdp c)) of
                   (r, err, g) \<Rightarrow>
                     (case sent_by r (gcc_into g ((c_rdp c)\<lparr>LastError := err\<rparr>)) of
                        None \<Rightarrow> Overrun
                      | Some (ok, rdp) \<Rightarrow>
                          Ok (if ok then (0, go_to CONNECTION_STATE_MCS_CONNECT (c\<lparr>c_nla := None, c_rdp := rdp\<rparr>))
                              else (-1, c\<lparr>c_nla := None, c_rdp := rdp\<rparr>)) s))))"

definition client_mcs_connect :: "client_env \<Rightarrow> rdpRdp \<Rightarrow> wStream \<Rightarrow> (int \<times> rdpRdp) res" where
  \<comment> \<open>The case \<open>CONNECTION_STATE_MCS_CONNECT\<close>. A call that does not end counts as a crash.\<close>
  "client_mcs_connect env rdp s =
     (case mcs_recv_connect_response (ce_mcs env) (ce_lib env) s (gcc_of rdp) of
        None \<Rightarrow> Overrun
      | Some r \<Rightarrow>
          failing r (-1, rdp) (\<lambda>g s.
            case sent_then (sent_by (mcs_send_erect_domain_request (ce_mcs env)) (gcc_into g rdp)) (\<lambda>rdp.
                 sent_by (mcs_send_attach_user_request (ce_mcs env)) rdp) of
              None \<Rightarrow> Overrun
            | Some (ok, rdp) \<Rightarrow>
                Ok (if ok then (0, rdp_client_transition_to_state CONNECTION_STATE_MCS_ATTACH_USER rdp) else (-1, rdp)) s))"

definition client_attach_user :: "client_env \<Rightarrow> rdpRdp \<Rightarrow> wStream \<Rightarrow> (int \<times> rdpRdp) res" where
  \<comment> \<open>The case \<open>CONNECTION_STATE_MCS_ATTACH_USER\<close>.\<close>
  "client_attach_user env rdp s =
     failing (mcs_recv_attach_user_confirm (rdp_mcs rdp) s) (-1, rdp) (\<lambda>mcs s.
       case sent_by (mcs_send_channel_join_request (ce_mcs env) mcs (userId mcs)) (rdp\<lparr>rdp_mcs := mcs\<rparr>) of
         None \<Rightarrow> Overrun
       | Some (ok, rdp) \<Rightarrow>
           Ok (if ok then (0, rdp_client_transition_to_state CONNECTION_STATE_MCS_CHANNEL_JOIN rdp) else (-1, rdp)) s)"

abbreviation (input) by_rdp :: "rdp_client \<Rightarrow> (int \<times> rdpRdp) res \<Rightarrow> (int \<times> rdp_client) res" where
  "by_rdp c r \<equiv> andthen r (\<lambda>(i, rdp) s. Ok (i, with_rdp c rdp) s)"

definition client_state :: "client_env \<Rightarrow> (rdp_client \<Rightarrow> (bool \<times> rdp_client) res) \<Rightarrow> rdp_client \<Rightarrow> wStream \<Rightarrow> (int \<times> rdp_client) res" where
  \<comment> \<open>The \<open>switch\<close> of \<open>rdp_recv_callback\<close>.\<close>
  "client_state env await c s =
     (case conn_state (c_rdp c) of
        CONNECTION_STATE_NLA \<Rightarrow> client_nla env c s
      | CONNECTION_STATE_MCS_CONNECT \<Rightarrow> by_rdp c (client_mcs_connect env (c_rdp c) s)
      | CONNECTION_STATE_MCS_ATTACH_USER \<Rightarrow> by_rdp c (client_attach_user env (c_rdp c) s)
      | CONNECTION_STATE_MCS_CHANNEL_JOIN \<Rightarrow>
          (case client_channel_join_confirm env (c_rdp c) s of None \<Rightarrow> Overrun
           | Some (ok, rdp) \<Rightarrow> Ok (if ok then 0 else -1, with_rdp c rdp) s)
      | CONNECTION_STATE_LICENSING \<Rightarrow> rdp_client_connect_license env c s
      | CONNECTION_STATE_CAPABILITIES_EXCHANGE \<Rightarrow> by_rdp c (rdp_client_connect_demand_active env (c_rdp c) s)
      | CONNECTION_STATE_FINALIZATION \<Rightarrow>
          andthen (rdp_recv_pdu env await c s) (\<lambda>(status, c) s.
            if 0 \<le> status \<and> finalize_sc_pdus (c_rdp c) = FINALIZE_SC_COMPLETE
            then Ok (2, go_to CONNECTION_STATE_ACTIVE c) s
            else Ok (status, c) s)
      | CONNECTION_STATE_ACTIVE \<Rightarrow> rdp_recv_pdu env await c s
      | _ \<Rightarrow> Ok (-1, c) s)"

definition rdp_recv_callback :: "client_env \<Rightarrow> (rdp_client \<Rightarrow> (bool \<times> rdp_client) res) \<Rightarrow> rdp_client \<Rightarrow> wStream \<Rightarrow> (int \<times> rdp_client) res" where
  "rdp_recv_callback env await c s =
     andthen
       (if CONNECTION_STATE_MCS_CHANNEL_JOIN < conn_state (c_rdp c) \<and> conn_state (c_rdp c) < CONNECTION_STATE_ACTIVE
        then rdp_client_connect_auto_detect env (c_rdp c) s else Ok (False, c_rdp c) s) (\<lambda>(detected, rdp) s.
       if detected then Ok (0, with_rdp c rdp) s else client_state env await (with_rdp c rdp) s)"

subsection \<open>Reading from the transport\<close>

definition redirecting :: "client_env \<Rightarrow> (int \<times> rdp_client) res \<Rightarrow> (int \<times> rdp_client) res" where
  \<comment> \<open>The end of \<open>rdp_check_fds\<close>.\<close>
  "redirecting env r =
     andthen r (\<lambda>(status, c) s.
       if status = 1 then (case ce_redirect env (c_rdp c) of (status, rdp) \<Rightarrow> Ok (status, with_rdp c rdp) s) else Ok (status, c) s)"

fun transport_check_fds :: "client_env \<Rightarrow> (int \<times> rdp_client) res \<Rightarrow> nat \<Rightarrow> rdp_client \<Rightarrow> (int \<times> rdp_client) res"
  and await_active :: "client_env \<Rightarrow> (int \<times> rdp_client) res \<Rightarrow> nat \<Rightarrow> rdp_client \<Rightarrow> (bool \<times> rdp_client) res" where
  \<comment> \<open>With fuel; \<open>d\<close> is the result when it is used up. \<open>await_active\<close> is the loop of \<open>rdp_recv_deactivate_all\<close> around
    \<open>rdp_check_fds\<close>.\<close>
  "transport_check_fds env d 0 c = d"
| "transport_check_fds env d (Suc n) c =
     (if freerdp_shall_disconnect (c_rdp c) then Ok (0, c) (Stream_New [])
      else
        (case c_reads c of
           [] \<Rightarrow> Ok (-1, c) (Stream_New [])
         | No_Pdu # rs \<Rightarrow> Ok (0, c\<lparr>c_reads := rs\<rparr>) (Stream_New [])
         | Read_Error # rs \<Rightarrow> Ok (-1, c\<lparr>c_reads := rs\<rparr>) (Stream_New [])
         | Read_Pdu w # rs \<Rightarrow>
             (if \<not> ce_take env then Ok (-1, c\<lparr>c_reads := rs\<rparr>) (Stream_New [])
              else
                andthen (rdp_recv_callback env (await_active env d n) (c\<lparr>c_reads := rs\<rparr>) (Stream_New w)) (\<lambda>(recv_status, c) s.
                  if recv_status = 1 \<or> recv_status = 2 then Ok (recv_status, c) s
                  else if recv_status < 0 then Ok (-1, c) s
                  else transport_check_fds env d n c))))"
| "await_active env d 0 c = andthen d (\<lambda>(i, c) s. Ok (0 \<le> i, c) s)"
| "await_active env d (Suc n) c =
     (if conn_state (c_rdp c) = CONNECTION_STATE_ACTIVE then Ok (True, c) (Stream_New [])
      else
        andthen (redirecting env (transport_check_fds env d n c)) (\<lambda>(i, c) s.
          if i < 0 then Ok (False, c) s
          else if freerdp_shall_disconnect (c_rdp c) then Ok (True, c) s
          else await_active env d n c))"

definition rdp_check_fds :: "client_env \<Rightarrow> rdp_client \<Rightarrow> (int \<times> rdp_client) res" where
  \<comment> \<open>Two rounds for each PDU that is still to come, and one.\<close>
  "rdp_check_fds env c = redirecting env (transport_check_fds env Overrun (Suc (2 * length (c_reads c))) c)"

fun client_connect_loop :: "client_env \<Rightarrow> nat \<Rightarrow> rdp_client \<Rightarrow> (bool \<times> rdp_client) res option" where
  \<comment> \<open>The loop at the end of \<open>rdp_client_connect\<close>, with fuel.\<close>
  "client_connect_loop env 0 c = None"
| "client_connect_loop env (Suc n) c =
     (if conn_state (c_rdp c) = CONNECTION_STATE_ACTIVE then Some (Ok (True, c) (Stream_New []))
      else
        (case rdp_check_fds env c of
           Overrun \<Rightarrow> Some Overrun
         | Fail s \<Rightarrow> Some (Fail s)
         | Ok (status, c) s \<Rightarrow>
             if status < 0 then
               Some (Ok (False, if LastError (c_rdp c) = 0 then with_rdp c ((c_rdp c)\<lparr>LastError := 0x2000D\<rparr>) else c) s)
             else client_connect_loop env n c))"

subsection \<open>The wait ends\<close>

text \<open>Every round of the two loops takes one of the reads that are still to come, or ends the loop.\<close>

abbreviation (input) reads_left :: "rdp_client \<Rightarrow> nat" where
  "reads_left c \<equiv> length (c_reads c)"

definition agree :: "nat \<Rightarrow> (rdp_client \<Rightarrow> (bool \<times> rdp_client) res) \<Rightarrow> (rdp_client \<Rightarrow> (bool \<times> rdp_client) res) \<Rightarrow> bool" where
  \<comment> \<open>On clients with at most \<open>k\<close> reads left the two functions are equal, and no reads are added.\<close>
  "agree k f g \<longleftrightarrow> (\<forall>c. reads_left c \<le> k \<longrightarrow> f c = g c \<and> gives (g c) (\<lambda>(_, c'). reads_left c' \<le> reads_left c))"

lemma deactivate_all_agree:
  assumes "agree k f g" "reads_left c \<le> k"
  shows "rdp_recv_deactivate_all f c s = rdp_recv_deactivate_all g c s"
    "gives (rdp_recv_deactivate_all g c s) (\<lambda>(_, c'). reads_left c' \<le> reads_left c)"
proof -
  have "f (c\<lparr>c_rdp := rdp\<rparr>) = g (c\<lparr>c_rdp := rdp\<rparr>)" "gives (g (c\<lparr>c_rdp := rdp\<rparr>)) (\<lambda>(_, c'). reads_left c' \<le> reads_left c)" for rdp
    using assms(1) [unfolded agree_def, rule_format, of "c\<lparr>c_rdp := rdp\<rparr>"] assms(2) by simp_all
  then show "rdp_recv_deactivate_all f c s = rdp_recv_deactivate_all g c s"
    "gives (rdp_recv_deactivate_all g c s) (\<lambda>(_, c'). reads_left c' \<le> reads_left c)"
    unfolding rdp_recv_deactivate_all_def Let_def by (simp, intro gives_any)
qed

lemma share_pdu_agree:
  assumes "agree k f g" "reads_left c \<le> k"
  shows "rdp_recv_share_pdu env f c t s = rdp_recv_share_pdu env g c t s"
    "gives (rdp_recv_share_pdu env g c t s) (\<lambda>(_, c'). reads_left c' \<le> reads_left c)"
proof -
  show "rdp_recv_share_pdu env f c t s = rdp_recv_share_pdu env g c t s"
    unfolding rdp_recv_share_pdu_def deactivate_all_agree(1) [OF assms] ..
  have "gives (andthen (rdp_recv_deactivate_all g c s) (\<lambda>(ok, c) s. Ok (if ok then None else Some (-1 :: int), c) s))
      (\<lambda>(_, c'). reads_left c' \<le> reads_left c)"
    by (rule gives_andthen [OF deactivate_all_agree(2) [OF assms]]) auto
  then show "gives (rdp_recv_share_pdu env g c t s) (\<lambda>(_, c'). reads_left c' \<le> reads_left c)"
    unfolding rdp_recv_share_pdu_def by (auto intro!: gives_any)
qed

lemma share_pdus_agree:
  assumes "agree k f g" "reads_left c \<le> k"
  shows "rdp_recv_share_pdus env f c s = rdp_recv_share_pdus env g c s \<and>
    gives (rdp_recv_share_pdus env g c s) (\<lambda>(_, c'). reads_left c' \<le> reads_left c)"
  using assms
proof (induction env f c s rule: rdp_recv_share_pdus.induct)
  case (1 env f c s)
  show ?case
  proof (cases "\<not> 3 < Stream_GetRemainingLength s \<or> 2 ^ 64 \<le> s_length s - s_pos s")
    case False
    show ?thesis
    proof (cases "rdp_read_share_control_header s")
      case (Ok v t)
      obtain n ty src where v: "v = (n, ty, src)" by (cases v)
      let ?c = "c\<lparr>c_rdp := (c_rdp c)\<lparr>rdp_settings := (rdp_settings (c_rdp c))\<lparr>PduSource := ucast src\<rparr>\<rparr>\<rparr>"
      have r: "reads_left ?c \<le> k" using 1(3) by simp
      note sp = share_pdu_agree [OF 1(2) r, of env ty t]
      show ?thesis
      proof (cases "rdp_recv_share_pdu env f ?c ty t")
        case (Ok w u)
        obtain ret c' where w: "w = (ret, c')" by (cases w)
        have c': "reads_left c' \<le> reads_left c" using givesD [OF sp(2) Ok [unfolded sp(1)]] w by simp
        have u: "rdp_recv_share_pdus env h c s = (case ret of Some i \<Rightarrow> Ok (i, c') u
            | None \<Rightarrow> rdp_recv_share_pdus env h c' (Stream_SetPosition s (s_pos s + unat n)))"
          if "rdp_recv_share_pdu env h ?c ty t = Ok w u" for h
          using False that w v \<open>rdp_read_share_control_header s = Ok v t\<close>
          by (subst rdp_recv_share_pdus.simps) (simp add: Let_def)
        have "rdp_recv_share_pdus env f c' (Stream_SetPosition s (s_pos s + unat n)) = rdp_recv_share_pdus env g c' (Stream_SetPosition s (s_pos s + unat n)) \<and>
          gives (rdp_recv_share_pdus env g c' (Stream_SetPosition s (s_pos s + unat n))) (\<lambda>(_, c''). reads_left c'' \<le> reads_left c')" if "ret = None"
          using 1(1) [OF _ _ \<open>rdp_read_share_control_header s = Ok v t\<close> v [symmetric] refl refl refl Ok w [symmetric] that 1(2)] False 1(3) c' by simp
        with u [of f] u [of g] Ok sp(1) c' show ?thesis
          by (auto split: option.split simp: gives_def)
      qed (use False sp v Ok in \<open>subst (1 2 3) rdp_recv_share_pdus.simps; simp add: Let_def\<close>)+
    qed (use False in \<open>subst (1 2 3) rdp_recv_share_pdus.simps; simp\<close>)+
  qed (subst (1 2 3) rdp_recv_share_pdus.simps; auto)
qed

lemma tpkt_pdu_agree:
  assumes "agree k f g" "reads_left c \<le> k"
  shows "rdp_recv_tpkt_pdu env f c s = rdp_recv_tpkt_pdu env g c s \<and>
    gives (rdp_recv_tpkt_pdu env g c s) (\<lambda>(_, c'). reads_left c' \<le> reads_left c)"
proof -
  have eq: "rdp_recv_share_pdus env f (c\<lparr>c_rdp := rdp\<rparr>) t = rdp_recv_share_pdus env g (c\<lparr>c_rdp := rdp\<rparr>) t"
    and sg: "gives (rdp_recv_share_pdus env g (c\<lparr>c_rdp := rdp\<rparr>) t) (\<lambda>(_, c'). reads_left c' \<le> reads_left c)" for rdp t
    using share_pdus_agree [OF assms(1), of "c\<lparr>c_rdp := rdp\<rparr>" env t] assms(2) by simp_all
  show ?thesis
    unfolding rdp_recv_tpkt_pdu_def Let_def eq by (auto intro!: gives_any sg split: sum.split)
qed

lemma recv_pdu_agree:
  assumes "agree k f g" "reads_left c \<le> k"
  shows "rdp_recv_pdu env f c s = rdp_recv_pdu env g c s \<and>
    gives (rdp_recv_pdu env g c s) (\<lambda>(_, c'). reads_left c' \<le> reads_left c)"
proof -
  have "gives (rdp_recv_fastpath_pdu env c s) (\<lambda>(_, c'). reads_left c' \<le> reads_left c)" for s
    unfolding rdp_recv_fastpath_pdu_def by (auto intro!: gives_any split: option.split)
  moreover have rt: "rdp_recv_tpkt_pdu env f c s = rdp_recv_tpkt_pdu env g c s"
    and rg: "gives (rdp_recv_tpkt_pdu env g c s) (\<lambda>(_, c'). reads_left c' \<le> reads_left c)" for s
    using tpkt_pdu_agree [OF assms] by simp_all
  ultimately show ?thesis unfolding rdp_recv_pdu_def rt by (auto intro!: gives_any)
qed

lemma client_parts_reads:
  "gives (client_nla env c s) (\<lambda>(_, c'). reads_left c' \<le> reads_left c)"
  "gives (rdp_client_connect_license env c s) (\<lambda>(_, c'). reads_left c' \<le> reads_left c)"
proof -
  show "gives (client_nla env c s) (\<lambda>(_, c'). reads_left c' \<le> reads_left c)"
    unfolding client_nla_def Let_def by (auto split: option.split prod.split)
  have "gives (license_recv env c s) (\<lambda>(_, c'). reads_left c' \<le> reads_left c)"
    unfolding license_recv_def Let_def by (auto intro!: gives_any)
  then show "gives (rdp_client_connect_license env c s) (\<lambda>(_, c'). reads_left c' \<le> reads_left c)"
    unfolding rdp_client_connect_license_def by (rule gives_andthen) auto
qed

lemma callback_agree:
  assumes "agree k f g" "reads_left c \<le> k"
  shows "rdp_recv_callback env f c s = rdp_recv_callback env g c s \<and>
    gives (rdp_recv_callback env g c s) (\<lambda>(_, c'). reads_left c' \<le> reads_left c)"
proof -
  have "client_state env f c' t = client_state env g c' t \<and> gives (client_state env g c' t) (\<lambda>(_, c''). reads_left c'' \<le> reads_left c)"
    if c': "reads_left c' = reads_left c" for c' t
  proof -
    have r: "reads_left c' \<le> k" using c' assms(2) by simp
    have rp: "rdp_recv_pdu env f c' t = rdp_recv_pdu env g c' t"
      and rg: "gives (rdp_recv_pdu env g c' t) (\<lambda>(_, c''). reads_left c'' \<le> reads_left c)"
      using recv_pdu_agree [OF assms(1) r, of env t] c' by simp_all
    note parts = client_parts_reads [of env c' t, unfolded c']
    show ?thesis
      unfolding client_state_def rp
      using parts rg c' by (cases "conn_state (c_rdp c')")
        (auto intro!: gives_any(1) gives_andthen [OF rg] split: option.split)
  qed
  then have st: "client_state env f (c\<lparr>c_rdp := rdp\<rparr>) t = client_state env g (c\<lparr>c_rdp := rdp\<rparr>) t"
    and sg: "gives (client_state env g (c\<lparr>c_rdp := rdp\<rparr>) t) (\<lambda>(_, c'). reads_left c' \<le> reads_left c)" for rdp t by simp_all
  show ?thesis unfolding rdp_recv_callback_def st using sg [of "c_rdp c" s]
    by (auto intro!: gives_any sg)
qed

lemma redirecting_reads:
  "gives r (\<lambda>(_, c'). reads_left c' \<le> k) \<Longrightarrow> gives (redirecting env r) (\<lambda>(_, c'). reads_left c' \<le> k)"
  unfolding redirecting_def by (erule gives_andthen) (auto split: prod.split)

lemma transport_step:
  assumes "c_reads c = r # rs" "agree (length rs) (await_active env d n) (await_active env e m)"
    and nx: "\<And>c'. reads_left c' \<le> length rs \<Longrightarrow> transport_check_fds env d n c' = transport_check_fds env e m c' \<and>
      gives (transport_check_fds env e m c') (\<lambda>(_, c''). reads_left c'' \<le> reads_left c')"
  shows "transport_check_fds env d (Suc n) c = transport_check_fds env e (Suc m) c \<and>
    gives (transport_check_fds env e (Suc m) c) (\<lambda>(i, c'). reads_left c' < reads_left c \<or> freerdp_shall_disconnect (c_rdp c) \<and> i = 0 \<and> c' = c)"
proof (cases r)
  case (Read_Pdu w)
  let ?c = "c\<lparr>c_reads := rs\<rparr>"
  let ?k = "\<lambda>d n (recv_status :: int, c) s. if recv_status = 1 \<or> recv_status = 2 then Ok (recv_status, c) s
      else if recv_status < 0 then Ok (-1, c) s else transport_check_fds env d n c"
  have cb: "rdp_recv_callback env (await_active env d n) ?c (Stream_New w) = rdp_recv_callback env (await_active env e m) ?c (Stream_New w)"
    and cg: "gives (rdp_recv_callback env (await_active env e m) ?c (Stream_New w)) (\<lambda>(_, c'). reads_left c' \<le> length rs)"
    using callback_agree [OF assms(2), of ?c env "Stream_New w"] by simp_all
  have "?k d n v s = ?k e m v s \<and> gives (?k e m v s) (\<lambda>(_, c'). reads_left c' \<le> length rs)"
    if "rdp_recv_callback env (await_active env e m) ?c (Stream_New w) = Ok v s" for v s
  proof -
    obtain i c' where v: "v = (i, c')" by (cases v)
    have "reads_left c' \<le> length rs" using givesD [OF cg that] v by simp
    with nx [OF this] show ?thesis unfolding v by (auto simp: gives_def)
  qed
  then have "andthen (rdp_recv_callback env (await_active env e m) ?c (Stream_New w)) (?k d n) =
      andthen (rdp_recv_callback env (await_active env e m) ?c (Stream_New w)) (?k e m)"
    "gives (andthen (rdp_recv_callback env (await_active env e m) ?c (Stream_New w)) (?k e m)) (\<lambda>(_, c'). reads_left c' \<le> length rs)"
    by (cases "rdp_recv_callback env (await_active env e m) ?c (Stream_New w)"; simp)+
  then show ?thesis using assms(1) Read_Pdu cb by (auto simp: gives_def)
qed (use assms(1) in simp_all)

lemma await_step:
  assumes tr: "transport_check_fds env d n c = transport_check_fds env e m c"
    "gives (transport_check_fds env e m c) (\<lambda>(i, c'). reads_left c' < reads_left c \<or> i < 0 \<and> c' = c \<or>
      freerdp_shall_disconnect (c_rdp c) \<and> i = 0 \<and> c' = c)"
    and nx: "\<And>c'. reads_left c' < reads_left c \<Longrightarrow> await_active env d n c' = await_active env e m c' \<and>
      gives (await_active env e m c') (\<lambda>(_, c''). reads_left c'' \<le> reads_left c')"
  shows "await_active env d (Suc n) c = await_active env e (Suc m) c \<and>
    gives (await_active env e (Suc m) c) (\<lambda>(_, c'). reads_left c' \<le> reads_left c)"
proof (cases "transport_check_fds env e m c")
  case (Ok v s)
  obtain i c' where v: "v = (i, c')" by (cases v)
  obtain j c'' where red: "redirecting env (transport_check_fds env e m c) = Ok (j, c'') s" "reads_left c'' = reads_left c'"
    "i \<noteq> 1 \<Longrightarrow> j = i \<and> c'' = c'"
    using Ok v by (cases "i = 1"; cases "ce_redirect env (c_rdp c')") (auto simp: redirecting_def)
  have cases: "reads_left c' < reads_left c \<or> i < 0 \<and> c' = c \<or> freerdp_shall_disconnect (c_rdp c) \<and> i = 0 \<and> c' = c"
    using givesD [OF tr(2) Ok] v by simp
  then consider "reads_left c'' < reads_left c" | "j < 0" "c'' = c" | "freerdp_shall_disconnect (c_rdp c'')" "0 \<le> j" "c'' = c"
    using red(2,3) by fastforce
  then show ?thesis
  proof cases
    case 1
    from nx [OF this] 1 show ?thesis unfolding await_active.simps tr(1) red(1) by (auto simp: gives_def)
  qed (unfold await_active.simps tr(1) red(1), auto)
qed (simp_all add: tr(1) redirecting_def)

lemma loops_total:
  "2 * reads_left c < n \<Longrightarrow> 2 * reads_left c < m \<Longrightarrow>
     transport_check_fds env d n c = transport_check_fds env e m c \<and>
     gives (transport_check_fds env e m c) (\<lambda>(i, c'). reads_left c' < reads_left c \<or> i < 0 \<and> c' = c \<or>
       freerdp_shall_disconnect (c_rdp c) \<and> i = 0 \<and> c' = c)"
  "2 * reads_left c + 1 < n \<Longrightarrow> 2 * reads_left c + 1 < m \<Longrightarrow>
     await_active env d n c = await_active env e m c \<and>
     gives (await_active env e m c) (\<lambda>(_, c'). reads_left c' \<le> reads_left c)"
proof (induction "reads_left c" arbitrary: c n m rule: less_induct)
  case less
  have tr: "transport_check_fds env d n c = transport_check_fds env e m c \<and>
     gives (transport_check_fds env e m c) (\<lambda>(i, c'). reads_left c' < reads_left c \<or> i < 0 \<and> c' = c \<or>
       freerdp_shall_disconnect (c_rdp c) \<and> i = 0 \<and> c' = c)"
    if nm: "2 * reads_left c < n" "2 * reads_left c < m" for n m
  proof -
    obtain n' m' where s: "n = Suc n'" "m = Suc m'" using nm by (cases n; cases m) auto
    show ?thesis
    proof (cases "c_reads c")
      case (Cons r rs)
      have "agree (length rs) (await_active env d n') (await_active env e m')"
        unfolding agree_def
      proof (intro allI impI)
        fix c' assume "reads_left c' \<le> length rs"
        then show "await_active env d n' c' = await_active env e m' c' \<and>
            gives (await_active env e m' c') (\<lambda>(_, c''). reads_left c'' \<le> reads_left c')"
          using nm Cons s by (intro less(2)) auto
      qed
      moreover have "transport_check_fds env d n' c' = transport_check_fds env e m' c' \<and>
          gives (transport_check_fds env e m' c') (\<lambda>(_, c''). reads_left c'' \<le> reads_left c')" if "reads_left c' \<le> length rs" for c'
        using less(1) [of c' n' m'] that nm Cons s by (auto elim!: gives_mono)
      ultimately have st: "transport_check_fds env d (Suc n') c = transport_check_fds env e (Suc m') c"
        and sg: "gives (transport_check_fds env e (Suc m') c)
          (\<lambda>(i, c'). reads_left c' < reads_left c \<or> freerdp_shall_disconnect (c_rdp c) \<and> i = 0 \<and> c' = c)"
        using transport_step [OF Cons] by blast+
      show ?thesis unfolding s st by (rule conjI [OF refl gives_mono [OF sg]]) auto
    qed (simp add: s)
  qed
  { case 1 then show ?case by (rule tr) }
  { case 2
    then obtain n' m' where s: "n = Suc n'" "m = Suc m'" by (cases n; cases m) auto
    show ?case
      unfolding s by (rule await_step) (use tr [of n' m'] less(2) [of _ n' m'] 2 s in auto) }
qed

subsection \<open>Reading ends, connecting need not\<close>


definition plain_client_env :: client_env where
  \<comment> \<open>A client that accepts everything.\<close>
  "plain_client_env = \<lparr>ce_session = plain_session_env, ce_mcs = good_env, ce_lib = plain_library, ce_bn = plain_bn,
     ce_nonce = replicate 32 0, ce_cert_info = (\<lambda>_. ([], [])), ce_take = True, ce_malloc = (\<lambda>_. True), ce_nla_recv_pdu = (\<lambda>_. (1, True)),
     ce_write_info_packet = (\<lambda>_ s. Ok () s), ce_license_request = (\<lambda>rdp s. Ok (True, rdp) s),
     ce_platform_challenge = (\<lambda>rdp s. Ok (True, rdp) s), ce_read_capability_sets = (\<lambda>st _ s. Ok (True, st) s),
     ce_write_capability_sets = (\<lambda>st s. Ok (0, st) s), ce_register_callbacks = True, ce_DesktopResize = Some (\<lambda>_. True),
     ce_ReceiveChannelData = True, ce_fastpath_recv_updates = (\<lambda>_ s. Ok 0 s), ce_redirect = (\<lambda>rdp. (0, rdp)),
     ce_handlers = idle_handlers, ce_garbage = 0\<rparr>"

definition plain_client :: "rdpRdp \<Rightarrow> pdu_read list \<Rightarrow> rdp_client" where
  "plain_client rdp rs = \<lparr>c_rdp = rdp, c_license = \<lparr>license_state = LICENSE_STATE_COMPLETED, ErrorInfo_blob = \<lparr>blob_type = 4, blob_length = 0, blob_data = []\<rparr>\<rparr>,
     c_nla = None, c_reads = rs\<rparr>"


definition disconnect_request :: bytes where
  \<comment> \<open>What \<open>tpkt_write_header\<close> and \<open>tpdu_write_disconnect_request\<close> write.\<close>
  "disconnect_request = [3, 0, 0, 11, 6, 0x80, 0, 0, 0, 0, 0]"

lemma disconnect_request_headers:
  "tpkt_verify_header (Stream_New disconnect_request) = Ok True (Stream_New disconnect_request)"
  "tpkt_read_header (Stream_New disconnect_request) = Ok 11 (Stream_Seek (Stream_New disconnect_request) 4)"
  "tpdu_read_header (Stream_Seek (Stream_New disconnect_request) 4) =
     Ok (X224_TPDU_DISCONNECT_REQUEST, 6) (Stream_Seek (Stream_New disconnect_request) 11)"
  by code_simp+

lemma disconnect_request_aborts:
  "rdp_read_header rdp (Stream_New disconnect_request) ch =
     Ok (11, ch, freerdp_abort_connect rdp) (Stream_Seek (Stream_New disconnect_request) 11)"
  by (simp add: rdp_read_header_def disconnect_request_headers)

lemma aborted_loop:
  assumes "freerdp_shall_disconnect (c_rdp c)" "conn_state (c_rdp c) \<noteq> CONNECTION_STATE_ACTIVE"
  shows "client_connect_loop env n c = None"
  using assms by (induction n) (simp_all add: rdp_check_fds_def redirecting_def)

text \<open>C7: a client that is told to disconnect while it waits for the finalization PDUs never returns: the packet sets the
  abort event, from then on \<open>rdp_check_fds\<close> returns 0 at once, and the loop at the end of \<open>rdp_client_connect\<close>
  waits only for the active state or an error.\<close>

theorem client_connect_hangs:
  assumes "conn_state (c_rdp c) = CONNECTION_STATE_FINALIZATION" "finalize_sc_pdus (c_rdp c) \<noteq> FINALIZE_SC_COMPLETE"
    and "has_instance (c_rdp c)" "messageChannelId (rdp_mcs (c_rdp c)) = 0" "ce_take env"
    and "\<not> freerdp_shall_disconnect (c_rdp c)" "c_reads c = Read_Pdu disconnect_request # rs"
  shows "client_connect_loop env n c = None"
proof (cases n)
  case (Suc k)
  let ?r = "freerdp_abort_connect (c_rdp c)"
  let ?c = "c\<lparr>c_reads := rs, c_rdp := ?r\<rparr>"
  have r: "freerdp_shall_disconnect ?r" "conn_state ?r = CONNECTION_STATE_FINALIZATION" "finalize_sc_pdus ?r = finalize_sc_pdus (c_rdp c)"
    using assms(1,3) by (simp_all add: freerdp_abort_connect_def freerdp_shall_disconnect_def)
  have "recv_packet cr en (c_rdp c) (Stream_New disconnect_request) 0 = Ok (Inl (0, ?r)) (Stream_Seek (Stream_New disconnect_request) 11)" for cr en
    using r(1) by (simp add: recv_packet_def disconnect_request_aborts)
  then have "rdp_recv_callback env await (c\<lparr>c_reads := rs\<rparr>) (Stream_New disconnect_request) =
      Ok (0, ?c) (Stream_Seek (Stream_New disconnect_request) 11)" for await
    using assms(1,2,4) r by (simp add: rdp_recv_callback_def client_state_def rdp_client_connect_auto_detect_def rdp_recv_pdu_def
        rdp_recv_tpkt_pdu_def disconnect_request_headers(1) states_less)
  then have "rdp_check_fds env c = Ok (0, ?c) (Stream_New [])"
    using assms(5-7) r(1) by (simp add: rdp_check_fds_def redirecting_def)
  then show ?thesis using Suc assms(1) aborted_loop [of ?c env k] r by simp
qed simp

theorem client_connect_hangs_witness:
  "client_connect_loop plain_client_env 1000
    (plain_client ((fips_peer False)\<lparr>conn_state := CONNECTION_STATE_FINALIZATION\<rparr>) [Read_Pdu disconnect_request]) = None"
  by (rule client_connect_hangs)
    (simp_all add: plain_client_def plain_client_env_def fips_peer_def rdp_new_def mcs_new_def freerdp_shall_disconnect_def)

end
