(* ===== verification/Finalization.thy ===== *)
theory Finalization
  imports Client
begin

text \<open>
  The end of the connection sequence, with both peers: the PDUs the client sends in one go
  (\<open>rdp_client_connect_finalize\<close>) and those the server answers with, through the send and receive routines and
  the callbacks of both sides. Packets that are sent and not yet received are lists of messages; \<open>linked\<close> says that
  both directions of a session are in step once these have arrived.
\<close>

subsection \<open>Packets on their way\<close>

lemma talks_other [simp]:
  "talks c (a\<lparr>conn_state := st\<rparr>) b = talks c a b" "talks c a (b\<lparr>conn_state := st\<rparr>) = talks c a b"
  "talks c (a\<lparr>finalize_sc_pdus := fi\<rparr>) b = talks c a b" "talks c a (b\<lparr>finalize_sc_pdus := fi\<rparr>) = talks c a b"
  "talks c (a\<lparr>rdp_events := es\<rparr>) b = talks c a b" "talks c a (b\<lparr>rdp_events := es\<rparr>) = talks c a b"
  "talks c (a\<lparr>resendFocus := rf\<rparr>) b = talks c a b" "talks c a (b\<lparr>resendFocus := rf\<rparr>) = talks c a b"
  "talks c (a\<lparr>rdp_settings := (rdp_settings a)\<lparr>PduSource := n\<rparr>\<rparr>) b = talks c a b"
  "talks c a (b\<lparr>rdp_settings := (rdp_settings b)\<lparr>PduSource := n\<rparr>\<rparr>) = talks c a b"
  by (simp_all add: talks_def rc4_half_def fips_half_def mirrored_def freerdp_shall_disconnect_def)

lemma talks_sender:
  assumes "talks c a x" "received_only a a'"
  shows "talks c a' x"
  using assms(2) by (elim received_onlyE)
    (use assms(1) in \<open>auto simp: talks_def rc4_half_def fips_half_def mirrored_def freerdp_shall_disconnect_def\<close>)

lemma talks_receiver:
  assumes "talks c x b" "sent_only b b'"
  shows "talks c x b'"
  using assms(2) by (elim sent_onlyE)
    (use assms(1) in \<open>auto simp: talks_def rc4_half_def fips_half_def mirrored_def freerdp_shall_disconnect_def\<close>)

type_synonym sent_message = "bytes \<times> u16 \<times> bytes"

fun chain :: "crypto \<Rightarrow> rdpRdp \<Rightarrow> sent_message list \<Rightarrow> rdpRdp \<Rightarrow> bool" where
  \<comment> \<open>Packets that take any receiver in step with the sender \<open>d\<close> to one in step with \<open>a\<close>.\<close>
  "chain c d [] a \<longleftrightarrow> (\<forall>x. talks c d x \<longrightarrow> talks c a x)"
| "chain c d ((w, m) # q) a \<longleftrightarrow>
     (\<exists>e. (\<forall>x. talks c d x \<longrightarrow> (\<exists>x'. talks c e x' \<and> arrives c x w m x')) \<and> chain c e q a)"

definition in_flight :: "crypto \<Rightarrow> rdpRdp \<Rightarrow> sent_message list \<Rightarrow> rdpRdp \<Rightarrow> bool" where
  \<comment> \<open>\<open>a\<close> has sent the packets of \<open>q\<close>, which \<open>b\<close> has still to receive.\<close>
  "in_flight c a q b \<longleftrightarrow> (\<exists>d. talks c d b \<and> chain c d q a)"

lemma chain_sender: "chain c d q a \<Longrightarrow> (\<And>x. talks c a x \<Longrightarrow> talks c a' x) \<Longrightarrow> chain c d q a'"
  by (induction c d q a rule: chain.induct) auto

lemma chain_end: "chain c d q a \<Longrightarrow> talks c d x \<Longrightarrow> \<exists>y. talks c a y"
proof (induction c d q a arbitrary: x rule: chain.induct)
  case (2 c d w m q a)
  then obtain e x' where "chain c e q a" "talks c e x'" by auto
  with 2(1) show ?case by blast
qed auto

lemma chain_append:
  "chain c d q a \<Longrightarrow> \<forall>x. talks c a x \<longrightarrow> (\<exists>x'. talks c e x' \<and> arrives c x w m x') \<Longrightarrow> chain c d (q @ [(w, m)]) e"
  by (induction c d q a rule: chain.induct) auto

lemma in_flight_none: "talks c a b \<Longrightarrow> in_flight c a [] b"
  by (auto simp: in_flight_def)

lemma in_flight_end: "in_flight c a [] b \<Longrightarrow> talks c a b"
  by (auto simp: in_flight_def)

lemma in_flight_sender: "in_flight c a q b \<Longrightarrow> (\<And>x. talks c a x \<Longrightarrow> talks c a' x) \<Longrightarrow> in_flight c a' q b"
  unfolding in_flight_def using chain_sender by blast

lemma in_flight_receiver: "in_flight c a q b \<Longrightarrow> (\<And>x. talks c x b \<Longrightarrow> talks c x b') \<Longrightarrow> in_flight c a q b'"
  unfolding in_flight_def by blast

definition linked :: "crypto \<Rightarrow> rdpRdp \<Rightarrow> sent_message list \<Rightarrow> sent_message list \<Rightarrow> rdpRdp \<Rightarrow> bool" where
  \<comment> \<open>With the packets on their way in both directions.\<close>
  "linked c a q r b \<longleftrightarrow> in_flight c a q b \<and> in_flight c b r a"

lemma linked_sym: "linked c a q r b \<longleftrightarrow> linked c b r q a"
  by (auto simp: linked_def)

lemma linked_change:
  assumes "linked c a q r b" "\<And>x. talks c a' x \<longleftrightarrow> talks c a x" "\<And>x. talks c x a' \<longleftrightarrow> talks c x a"
  shows "linked c a' q r b"
  using assms unfolding linked_def by (blast intro: in_flight_sender in_flight_receiver)

lemma linked_receive:
  assumes "linked c a ((w, m) # q) r b"
  shows "\<exists>b'. arrives c b w m b' \<and> linked c a q r b'"
proof -
  from assms obtain d e where d: "talks c d b" "\<forall>x. talks c d x \<longrightarrow> (\<exists>x'. talks c e x' \<and> arrives c x w m x')" "chain c e q a"
    and bk: "in_flight c b r a" unfolding linked_def in_flight_def by auto
  then obtain b' where b': "talks c e b'" "arrives c b w m b'" by blast
  then have "received_only b b'" by (simp add: arrives_def)
  with bk have "in_flight c b' r a" by (blast intro: in_flight_sender talks_sender)
  with b' d(3) show ?thesis unfolding linked_def in_flight_def by blast
qed

definition sent_data :: "rdpRdp \<Rightarrow> bytes \<Rightarrow> rdpRdp \<Rightarrow> bool" where
  "sent_data a w a' \<longleftrightarrow> (\<exists>b. sent_only a b \<and> a' = b\<lparr>rdp_events := Sent w # rdp_events a\<rparr>)"

definition session_ready :: "crypto \<Rightarrow> session_env \<Rightarrow> bool" where
  \<comment> \<open>The transport takes every packet, the pool has a stream.\<close>
  "session_ready c env \<longleftrightarrow> (\<forall>x. 0 \<le> s_write env x) \<and> (\<exists>mem. s_pool env = Some mem \<and> 2048 \<le> length mem) \<and> s_crypto env = c"

lemma linked_send:
  assumes "linked c a q r b" "session_ready c env" "\<And>s. write s = put s p ()" "length p \<le> 1900"
  shows "\<exists>w a'. send_data_pdu env a write type = Some (True, a') \<and> sent_data a w a' \<and>
    linked c a' (q @ [(w, MCS_GLOBAL_CHANNEL_ID, data_message a type p)]) r b"
proof -
  from assms(2) obtain mem where env: "\<And>x. 0 \<le> s_write env x" "s_pool env = Some mem" "s_crypto env = c" "2048 \<le> length mem"
    by (auto simp: session_ready_def)
  from assms(1) obtain d where d: "talks c d b" "chain c d q a" by (auto simp: linked_def in_flight_def)
  from chain_end [OF d(2,1)] obtain y where y: "talks c a y" ..
  obtain w a' where s: "send_data_pdu env a write type = Some (True, a'\<lparr>rdp_events := Sent w # rdp_events a'\<rparr>)" "sent_only a a'"
    "\<forall>x. talks c a x \<longrightarrow> (\<exists>x'. talks c a' x' \<and> arrives c x w (MCS_GLOBAL_CHANNEL_ID, data_message a type p) x')"
    using data_pdu_travels [OF y assms(4) env(4) env(1-3) assms(3), of type] by blast
  let ?a = "a'\<lparr>rdp_events := Sent w # rdp_events a'\<rparr>"
  have "chain c d (q @ [(w, MCS_GLOBAL_CHANNEL_ID, data_message a type p)]) a'" by (rule chain_append [OF d(2) s(3)])
  then have "in_flight c ?a (q @ [(w, MCS_GLOBAL_CHANNEL_ID, data_message a type p)]) b"
    using d(1) unfolding in_flight_def by (auto elim!: chain_sender)
  moreover have "in_flight c b r ?a"
    using assms(1) unfolding linked_def by (auto elim!: in_flight_receiver dest: talks_receiver [OF _ s(2)])
  moreover have "sent_data a w ?a" unfolding sent_data_def using s(2) only_rest [of a a'] by auto
  ultimately show ?thesis using s(1) unfolding linked_def by blast
qed

lemma sent_data_rest:
  "sent_data a w a' \<Longrightarrow> rdp_settings a' = rdp_settings a \<and> conn_state a' = conn_state a \<and> rdp_mcs a' = rdp_mcs a \<and>
    finalize_sc_pdus a' = finalize_sc_pdus a \<and> deactivation_reactivation a' = deactivation_reactivation a \<and>
    rdp_events a' = Sent w # rdp_events a"
  unfolding sent_data_def using only_rest by fastforce

subsection \<open>The callbacks on a data PDU\<close>

lemma data_message_headers:
  assumes "swf s" "avail s = data_message a type p" "length p \<le> 1900"
  shows "rdp_read_share_control_header s = Ok (word_of_nat (18 + length p), PDU_TYPE_DATA, userId (rdp_mcs a)) (Stream_Seek s 6)"
    "\<exists>h. rdp_read_share_data_header (Stream_Seek s 6) = Ok h (Stream_Seek s 18) \<and> sd_type h = type \<and> sd_compressedType h = 0"
proof -
  let ?n = "word_of_nat (18 + length p) :: u16"
  have n: "unat ?n = 18 + length p" using assms(3) by (intro unat16) simp
  then have n': "?n \<noteq> 0x8000" "4 < ?n" using assms(3) by (auto simp: word_less_nat_alt)
  have "uint ?n = int (18 + length p)" using n by (metis uint_nat)
  then have u: "uint ?n - 2 = int (16 + length p)" by (simp only: of_nat_add of_nat_numeral)
  have rem: "Stream_GetRemainingLength (Stream_Seek s k) = length (avail s) - k" if "k \<le> length (avail s)" for k
    using assms(1) that by simp
  have l: "length (avail s) = 18 + length p" using assms(2) by simp
  have r1: "Stream_Read_UINT16 s = Ok ?n (Stream_Seek s 2)"
    "Stream_Read_UINT16 (Stream_Seek s 2) = Ok 0x17 (Stream_Seek s 4)"
    "Stream_Read_UINT16 (Stream_Seek s 4) = Ok (userId (rdp_mcs a)) (Stream_Seek s 6)"
    using read_known(4) [of s ?n] read_known(4) [of "Stream_Seek s 2" "0x17"] read_known(4) [of "Stream_Seek s 4" "userId (rdp_mcs a)"]
      assms(2) by (simp_all add: data_message_def)
  have sz: "size_of_int (int (16 + length p)) = 16 + length p" using assms(3) by (simp add: size_of_int_def)
  have r: "\<not> Stream_GetRemainingLength s < 2" "\<not> 16 + length p > Stream_GetRemainingLength (Stream_Seek s 2)"
    using rem [of 0] rem [of 2] l by simp_all
  have f: "(0x17 :: u16) AND 0x0F = PDU_TYPE_DATA" by simp
  show "rdp_read_share_control_header s = Ok (?n, PDU_TYPE_DATA, userId (rdp_mcs a)) (Stream_Seek s 6)"
    unfolding rdp_read_share_control_header_def if_not_P [OF r(1)] r1 andthen.simps if_not_P [OF n'(1)] u sz if_not_P [OF r(2)] Let_def
      if_P [OF n'(2)] f ..
  have r2: "Stream_Read_UINT32 (Stream_Seek s 6) = Ok (ShareId (rdp_settings a)) (Stream_Seek s 10)"
    "Stream_Read_UINT16 (Stream_Seek s 12) = Ok (word_of_nat (length p)) (Stream_Seek s 14)"
    "Stream_Read_UINT8 (Stream_Seek s 14) = Ok type (Stream_Seek s 15)"
    "Stream_Read_UINT8 (Stream_Seek s 15) = Ok 0 (Stream_Seek s 16)"
    "Stream_Read_UINT16 (Stream_Seek s 16) = Ok 0 (Stream_Seek s 18)"
    using read_known(6) [of "Stream_Seek s 6" "ShareId (rdp_settings a)"] read_known(4) [of "Stream_Seek s 12" "word_of_nat (length p)"]
      read_known(2) [of "Stream_Seek s 14" type] read_known(2) [of "Stream_Seek s 15" 0] read_known(4) [of "Stream_Seek s 16" 0]
      assms(2) by (simp_all add: data_message_def)
  have "\<not> Stream_GetRemainingLength (Stream_Seek s 6) < 12" using rem [of 6] l by simp
  then show "\<exists>h. rdp_read_share_data_header (Stream_Seek s 6) = Ok h (Stream_Seek s 18) \<and> sd_type h = type \<and> sd_compressedType h = 0"
    by (simp add: rdp_read_share_data_header_def r2)
qed

lemma whole_packet:
  assumes "swf t" "avail t = data_message a type p" "length p \<le> 1900"
  shows "3 < Stream_GetRemainingLength t" "\<not> 2 ^ 64 \<le> s_length t - s_pos t"
    "Stream_GetRemainingLength (Stream_SetPosition t (s_pos t + unat (word_of_nat (18 + length p) :: u16))) = 0"
proof -
  have "length (avail t) = 18 + length p" using assms(2) by simp
  then have l: "s_length t = s_pos t + (18 + length p)" "s_pos t \<le> s_length t" using assms(1) by (auto simp: swf_def avail_def)
  have n: "unat (word_of_nat (18 + length p) :: u16) = 18 + length p" using assms(3) by (intro unat16) simp
  show "3 < Stream_GetRemainingLength t" "\<not> 2 ^ 64 \<le> s_length t - s_pos t" using l assms(3) by (simp_all add: Stream_GetRemainingLength_def)
  show "Stream_GetRemainingLength (Stream_SetPosition t (s_pos t + unat (word_of_nat (18 + length p) :: u16))) = 0"
    unfolding n by (simp add: Stream_GetRemainingLength_def Stream_SetPosition_def l(1))
qed

lemma client_data:
  assumes arr: "arrives cr (c_rdp c) w (MCS_GLOBAL_CHANNEL_ID, data_message a type p) r'"
    and c: "conn_state (c_rdp c) = CONNECTION_STATE_FINALIZATION" "\<not> ServerMode (rdp_settings (c_rdp c))"
      "messageChannelId (rdp_mcs (c_rdp c)) \<noteq> MCS_GLOBAL_CHANNEL_ID"
    and env: "s_crypto (ce_session env) = cr" and l: "length p \<le> 1900"
    and handler: "\<And>t. swf t \<Longrightarrow> avail t = p \<Longrightarrow>
      \<exists>u. dispatch_data_pdu (ce_handlers env) (r'\<lparr>rdp_settings := (rdp_settings r')\<lparr>PduSource := ucast (userId (rdp_mcs a))\<rparr>\<rparr>) type t = Ok (True, r'') u"
  shows "\<exists>s. rdp_recv_callback env await c (Stream_New w) =
    (if finalize_sc_pdus r'' = FINALIZE_SC_COMPLETE
     then Ok (2, c\<lparr>c_rdp := rdp_client_transition_to_state CONNECTION_STATE_ACTIVE r''\<rparr>) s else Ok (0, c\<lparr>c_rdp := r''\<rparr>) s)"
proof -
  let ?m = "data_message a type p" and ?s = "Stream_New w"
  from arr obtain t fl where rp: "recv_packet cr client_encrypted (c_rdp c) ?s 0 = Ok (Inr (MCS_GLOBAL_CHANNEL_ID, fl, r')) t"
    and t: "swf t" "avail t = ?m" "fl AND ucast SEC_REDIRECTION_PKT = 0"
    and v: "tpkt_verify_header ?s = Ok True ?s" and ro: "received_only (c_rdp c) r'"
    and rh: "\<exists>n. rdp_read_header (c_rdp c) ?s (ce_garbage env) = Ok (n, MCS_GLOBAL_CHANNEL_ID, c_rdp c) (Stream_Seek ?s 15)"
    using c(2) unfolding arrives_def fst_conv snd_conv by fastforce
  let ?r = "r'\<lparr>rdp_settings := (rdp_settings r')\<lparr>PduSource := ucast (userId (rdp_mcs a))\<rparr>\<rparr>"
  note hd = data_message_headers [OF t(1,2) l]
  from hd(2) obtain h where h: "rdp_read_share_data_header (Stream_Seek t 6) = Ok h (Stream_Seek t 18)" "sd_type h = type" "sd_compressedType h = 0"
    by blast
  have "swf (Stream_Seek t 18)" "avail (Stream_Seek t 18) = p" using t(1,2) by (simp_all add: data_message_def)
  from handler [OF this] obtain u where u: "dispatch_data_pdu (ce_handlers env) ?r type (Stream_Seek t 18) = Ok (True, r'') u" by blast
  note wp = whole_packet [OF t(1,2) l]
  let ?t = "Stream_SetPosition t (s_pos t + unat (word_of_nat (18 + length p) :: u16))"
  have one: "rdp_recv_share_pdu env await (c\<lparr>c_rdp := ?r\<rparr>) PDU_TYPE_DATA (Stream_Seek t 6) = Ok (None, c\<lparr>c_rdp := r''\<rparr>) u"
    by (simp add: rdp_recv_share_pdu_def rdp_recv_data_pdu_def h u)
  have "rdp_recv_share_pdus env await (c\<lparr>c_rdp := r'\<rparr>) t = rdp_recv_share_pdus env await (c\<lparr>c_rdp := r''\<rparr>) ?t"
    by (subst rdp_recv_share_pdus.simps) (use wp(1,2) hd(1) one in \<open>simp add: Let_def\<close>)
  also have "\<dots> = Ok (0, c\<lparr>c_rdp := r''\<rparr>) ?t"
    by (subst rdp_recv_share_pdus.simps) (simp add: wp(3) del: of_nat_add)
  finally have "rdp_recv_pdu env await c ?s = Ok (0, c\<lparr>c_rdp := r''\<rparr>) ?t"
    using rp v t(3) env by (simp add: rdp_recv_pdu_def rdp_recv_tpkt_pdu_def Let_def)
  moreover have "rdp_client_connect_auto_detect env (c_rdp c) ?s = Ok (False, c_rdp c) ?s"
    using rh c(3) by (auto simp: rdp_client_connect_auto_detect_def Stream_SetPosition_def Stream_Seek_def Stream_New_def)
  ultimately show ?thesis
    using c(1) by (simp add: rdp_recv_callback_def client_state_def states_less)
qed

lemma server_data:
  assumes arr: "arrives cr (p_rdp q) w (MCS_GLOBAL_CHANNEL_ID, data_message a type p) r'"
    and c: "conn_state (p_rdp q) = CONNECTION_STATE_FINALIZATION" "ServerMode (rdp_settings (p_rdp q))"
    and env: "s_crypto (pe_session env) = cr" and l: "length p \<le> 1900"
  shows "\<exists>s t h. swf t \<and> avail t = p \<and> rdp_read_share_data_header s = Ok h t \<and> sd_type h = type \<and>
    peer_recv_callback env q (Some (Stream_New w)) =
      andthen (peer_recv_data_pdu env (q\<lparr>p_rdp := r'\<lparr>rdp_settings := (rdp_settings r')\<lparr>PduSource := ucast (userId (rdp_mcs a))\<rparr>\<rparr>\<rparr>) s)
        (\<lambda>(ok, p) s. Ok (if ok then 0 else -1, p) s)"
proof -
  let ?m = "data_message a type p" and ?s = "Stream_New w"
  let ?q = "q\<lparr>p_rdp := r'\<lparr>rdp_settings := (rdp_settings r')\<lparr>PduSource := ucast (userId (rdp_mcs a))\<rparr>\<rparr>\<rparr>"
  from arr obtain t fl where rp: "recv_packet cr server_encrypted (p_rdp q) ?s (pe_garbage env) = Ok (Inr (MCS_GLOBAL_CHANNEL_ID, fl, r')) t"
    and t: "swf t" "avail t = ?m" and v: "tpkt_verify_header ?s = Ok True ?s"
    using c(2) unfolding arrives_def fst_conv snd_conv by fastforce
  note hd = data_message_headers [OF t(1,2) l]
  from hd(2) obtain h where h: "rdp_read_share_data_header (Stream_Seek t 6) = Ok h (Stream_Seek t 18)" "sd_type h = type" by blast
  have "swf (Stream_Seek t 18)" "avail (Stream_Seek t 18) = p" using t(1,2) by (simp_all add: data_message_def)
  moreover have "peer_recv_callback env q (Some ?s) = andthen (peer_recv_data_pdu env ?q (Stream_Seek t 6)) (\<lambda>(ok, p) s. Ok (if ok then 0 else -1, p) s)"
  proof -
    have "peer_dispatch env (q\<lparr>p_rdp := r'\<rparr>) MCS_GLOBAL_CHANNEL_ID fl t = as_int (peer_recv_data_pdu env ?q (Stream_Seek t 6))"
      by (simp add: peer_dispatch_def hd(1) Let_def)
    then have "peer_recv_pdu env q ?s = as_int (peer_recv_data_pdu env ?q (Stream_Seek t 6))"
      using rp by (simp add: peer_recv_pdu_def v peer_recv_tpkt_pdu_def env)
    moreover have "peer_recv_callback env q (Some ?s) = andthen (peer_recv_pdu env q ?s) (\<lambda>(i, p) s. Ok (if i < 0 then -1 else 0, p) s)"
      by (subst peer_recv_callback.simps) (simp only: c(1) prod.case CONNECTION_STATE.case option.case)
    ultimately show ?thesis by (cases "peer_recv_data_pdu env ?q (Stream_Seek t 6)") auto
  qed
  ultimately show ?thesis using h by blast
qed

subsection \<open>What the peers send and what they make of it\<close>

abbreviation (input) sync_body :: "u16 \<Rightarrow> bytes" where "sync_body x \<equiv> le16 SYNCMSGTYPE_SYNC @ le16 x"
abbreviation (input) control_body :: "u16 \<Rightarrow> u16 \<Rightarrow> u32 \<Rightarrow> bytes" where "control_body act gid cid \<equiv> le16 act @ le16 gid @ le32 cid"
abbreviation (input) font_body :: "u16 \<Rightarrow> bytes" where "font_body n \<equiv> le16 0 @ le16 0 @ le16 (FONTLIST_FIRST OR FONTLIST_LAST) @ le16 n"
abbreviation (input) keys_body :: bytes where "keys_body \<equiv> replicate 20 0 @ [3] @ replicate 3 0"

lemma bodies:
  "rdp_write_synchronize_pdu s st = put s (sync_body (ucast (PduSource st))) ()"
  "rdp_write_client_control_pdu s act = put s (control_body act 0 0) ()"
  "andthen (Stream_Write_UINT16 s CTRLACTION_COOPERATE) (\<lambda>_ s. andthen (Stream_Write_UINT16 s 0) (\<lambda>_ s. Stream_Write_UINT32 s 0))
     = put s (control_body CTRLACTION_COOPERATE 0 0) ()"
  "andthen (Stream_Write_UINT16 s CTRLACTION_GRANTED_CONTROL) (\<lambda>_ s. andthen (Stream_Write_UINT16 s uid) (\<lambda>_ s. Stream_Write_UINT32 s 0x03EA))
     = put s (control_body CTRLACTION_GRANTED_CONTROL uid 0x03EA) ()"
  "rdp_write_client_font_list_pdu s (FONTLIST_FIRST OR FONTLIST_LAST) = put s (font_body 50) ()"
  "andthen (Stream_Write_UINT16 s 0) (\<lambda>_ s. andthen (Stream_Write_UINT16 s 0) (\<lambda>_ s.
     andthen (Stream_Write_UINT16 s (FONTLIST_FIRST OR FONTLIST_LAST)) (\<lambda>_ s. Stream_Write_UINT16 s 4))) = put s (font_body 4) ()"
  "rdp_write_client_persistent_key_list_pdu s = put s keys_body ()"
  by (simp_all add: rdp_write_synchronize_pdu_def rdp_write_client_control_pdu_def rdp_write_client_font_list_pdu_def
      rdp_write_client_persistent_key_list_pdu_def wr_simps le16_def numeral_eq_Suc)

lemma linked_sends:
  assumes "linked c a q r b" "session_ready c env"
  shows "\<exists>w a'. rdp_send_client_synchronize_pdu env a = Some (True, a') \<and> sent_data a w a' \<and>
      linked c a' (q @ [(w, MCS_GLOBAL_CHANNEL_ID, data_message a DATA_PDU_TYPE_SYNCHRONIZE (sync_body (ucast (PduSource (rdp_settings a)))))]) r b"
    "\<exists>w a'. rdp_send_server_synchronize_pdu env a = Some (True, a') \<and> sent_data a w a' \<and>
      linked c a' (q @ [(w, MCS_GLOBAL_CHANNEL_ID, data_message a DATA_PDU_TYPE_SYNCHRONIZE (sync_body (ucast (PduSource (rdp_settings a)))))]) r b"
    "\<exists>w a'. rdp_send_client_control_pdu env a act = Some (True, a') \<and> sent_data a w a' \<and>
      linked c a' (q @ [(w, MCS_GLOBAL_CHANNEL_ID, data_message a DATA_PDU_TYPE_CONTROL (control_body act 0 0))]) r b"
    "\<exists>w a'. rdp_send_server_control_cooperate_pdu env a = Some (True, a') \<and> sent_data a w a' \<and>
      linked c a' (q @ [(w, MCS_GLOBAL_CHANNEL_ID, data_message a DATA_PDU_TYPE_CONTROL (control_body CTRLACTION_COOPERATE 0 0))]) r b"
    "\<exists>w a'. rdp_send_server_control_granted_pdu env a = Some (True, a') \<and> sent_data a w a' \<and>
      linked c a' (q @ [(w, MCS_GLOBAL_CHANNEL_ID, data_message a DATA_PDU_TYPE_CONTROL (control_body CTRLACTION_GRANTED_CONTROL (userId (rdp_mcs a)) 0x03EA))]) r b"
    "\<exists>w a'. rdp_send_client_persistent_key_list_pdu env a = Some (True, a') \<and> sent_data a w a' \<and>
      linked c a' (q @ [(w, MCS_GLOBAL_CHANNEL_ID, data_message a DATA_PDU_TYPE_BITMAP_CACHE_PERSISTENT_LIST keys_body)]) r b"
    "\<exists>w a'. rdp_send_client_font_list_pdu env a (FONTLIST_FIRST OR FONTLIST_LAST) = Some (True, a') \<and> sent_data a w a' \<and>
      linked c a' (q @ [(w, MCS_GLOBAL_CHANNEL_ID, data_message a DATA_PDU_TYPE_FONT_LIST (font_body 50))]) r b"
    "\<exists>w a'. rdp_send_server_font_map_pdu env a = Some (True, a') \<and> sent_data a w a' \<and>
      linked c a' (q @ [(w, MCS_GLOBAL_CHANNEL_ID, data_message a DATA_PDU_TYPE_FONT_MAP (font_body 4))]) r b"
  unfolding rdp_send_client_synchronize_pdu_def rdp_send_server_synchronize_pdu_def rdp_send_client_control_pdu_def
    rdp_send_server_control_cooperate_pdu_def rdp_send_server_control_granted_pdu_def rdp_send_client_persistent_key_list_pdu_def
    rdp_send_client_font_list_pdu_def rdp_send_server_font_map_pdu_def
  by (rule linked_send [OF assms], rule bodies, simp)+

lemma server_bodies:
  "swf t \<Longrightarrow> avail t = sync_body x \<Longrightarrow> rdp_recv_client_synchronize_pdu r t =
     Ok (True, r\<lparr>finalize_sc_pdus := finalize_sc_pdus r OR FINALIZE_SC_SYNCHRONIZE_PDU\<rparr>) (Stream_Seek t 4)"
  "swf t \<Longrightarrow> avail t = control_body act gid cid \<Longrightarrow> rdp_recv_control_pdu t = Ok act (Stream_Seek t 8)"
  "swf t \<Longrightarrow> avail t = font_body n \<Longrightarrow> rdp_recv_client_font_list_pdu t = Ok () t"
  using read_known(4) [of t SYNCMSGTYPE_SYNC "le16 x"] read_known(4) [of t act "le16 gid @ le32 cid"]
  by (simp_all add: rdp_recv_client_synchronize_pdu_def rdp_recv_control_pdu_def rdp_recv_client_font_list_pdu_def)

definition waits :: "bool \<Rightarrow> rdpRdp \<Rightarrow> bool" where
  \<comment> \<open>A peer in the finalization of the connection.\<close>
  "waits server rdp \<longleftrightarrow> conn_state rdp = CONNECTION_STATE_FINALIZATION \<and> ServerMode (rdp_settings rdp) = server"

lemma waits_only: "received_only a b \<Longrightarrow> waits m b = waits m a" "sent_data a w b \<Longrightarrow> waits m b = waits m a"
  using only_rest [of a b] sent_data_rest [of a w b] by (simp_all add: waits_def)

lemma linked_set:
  "linked c a q r b \<Longrightarrow> linked c a q r (b\<lparr>rdp_settings := (rdp_settings b)\<lparr>PduSource := n\<rparr>\<rparr>)"
  "linked c a q r b \<Longrightarrow> linked c a q r (b\<lparr>finalize_sc_pdus := fi\<rparr>)"
  "linked c a q r b \<Longrightarrow> linked c a q r (b\<lparr>resendFocus := rf\<rparr>)"
  "linked c a q r b \<Longrightarrow> linked c a q r (b\<lparr>conn_state := st\<rparr>)"
  unfolding linked_sym [of c a] by (erule linked_change, simp, simp)+

text \<open>A packet that arrives at the server: the callback, up to the handler of the data PDU.\<close>

lemma server_arrival:
  assumes "linked cr a ((w, MCS_GLOBAL_CHANNEL_ID, data_message m type p) # q) r (p_rdp s)" "waits True (p_rdp s)"
    "s_crypto (pe_session env) = cr" "length p \<le> 1900"
  obtains b u t h where "linked cr a q r b" "waits True b" "rdp_events b = rdp_events (p_rdp s)"
    "swf t" "avail t = p" "rdp_read_share_data_header u = Ok h t" "sd_type h = type"
    "peer_recv_callback env s (Some (Stream_New w)) = andthen (peer_recv_data_pdu env (s\<lparr>p_rdp := b\<rparr>) u) (\<lambda>(ok, p) s. Ok (if ok then 0 else -1, p) s)"
proof -
  from linked_receive [OF assms(1)] obtain b where b: "arrives cr (p_rdp s) w (MCS_GLOBAL_CHANNEL_ID, data_message m type p) b" "linked cr a q r b"
    by blast
  then have ro: "received_only (p_rdp s) b" by (simp add: arrives_def)
  let ?b = "b\<lparr>rdp_settings := (rdp_settings b)\<lparr>PduSource := ucast (userId (rdp_mcs m))\<rparr>\<rparr>"
  from server_data [OF b(1) _ _ assms(3,4)] assms(2) obtain u t h where "swf t" "avail t = p" "rdp_read_share_data_header u = Ok h t" "sd_type h = type"
    "peer_recv_callback env s (Some (Stream_New w)) = andthen (peer_recv_data_pdu env (s\<lparr>p_rdp := ?b\<rparr>) u) (\<lambda>(ok, p) s. Ok (if ok then 0 else -1, p) s)"
    unfolding waits_def by blast
  moreover have "waits True ?b" using assms(2) waits_only(1) [OF ro, of True] by (simp add: waits_def)
  moreover have "rdp_events ?b = rdp_events (p_rdp s)" using only_rest [of "p_rdp s" b] ro by simp
  ultimately show thesis using that [of ?b t u h] linked_set(1) [OF b(2)] by blast
qed

lemma server_quiet:
  assumes "linked cr a ((w, MCS_GLOBAL_CHANNEL_ID, data_message m type p) # q) r (p_rdp s)" "waits True (p_rdp s)"
    "s_crypto (pe_session env) = cr"
    and quiet: "type = DATA_PDU_TYPE_SYNCHRONIZE \<and> p = sync_body x \<or> type = DATA_PDU_TYPE_CONTROL \<and> p = control_body CTRLACTION_COOPERATE 0 0 \<or>
      type = DATA_PDU_TYPE_BITMAP_CACHE_PERSISTENT_LIST \<and> p = keys_body"
  shows "\<exists>b u. peer_recv_callback env s (Some (Stream_New w)) = Ok (0, s\<lparr>p_rdp := b\<rparr>) u \<and> linked cr a q r b \<and> waits True b \<and>
    rdp_events b = rdp_events (p_rdp s)"
proof -
  have "length p \<le> 1900" using quiet by auto
  from server_arrival [OF assms(1-3) this] obtain b u t h where b: "linked cr a q r b" "waits True b" "rdp_events b = rdp_events (p_rdp s)"
    and t: "swf t" "avail t = p" "rdp_read_share_data_header u = Ok h t" "sd_type h = type"
    and cb: "peer_recv_callback env s (Some (Stream_New w)) = andthen (peer_recv_data_pdu env (s\<lparr>p_rdp := b\<rparr>) u) (\<lambda>(ok, p) s. Ok (if ok then 0 else -1, p) s)" .
  let ?f = "b\<lparr>finalize_sc_pdus := finalize_sc_pdus b OR FINALIZE_SC_SYNCHRONIZE_PDU\<rparr>"
  have f: "linked cr a q r ?f" "waits True ?f" "rdp_events ?f = rdp_events (p_rdp s)"
    using b linked_set(2) [OF b(1)] by (simp_all add: waits_def)
  from quiet consider
      "type = DATA_PDU_TYPE_SYNCHRONIZE" "p = sync_body x"
    | "type = DATA_PDU_TYPE_CONTROL" "p = control_body CTRLACTION_COOPERATE 0 0"
    | "type = DATA_PDU_TYPE_BITMAP_CACHE_PERSISTENT_LIST" by blast
  then show ?thesis
  proof cases
    case 1
    with server_bodies(1) [OF t(1), of x] t(2-4)
    have "peer_recv_callback env s (Some (Stream_New w)) = Ok (0, s\<lparr>p_rdp := ?f\<rparr>) (Stream_Seek t 4)"
      unfolding cb by (simp add: peer_recv_data_pdu_def)
    with f show ?thesis by blast
  next
    case 2
    with server_bodies(2) [OF t(1), of CTRLACTION_COOPERATE 0 0] t(2-4)
    have "peer_recv_callback env s (Some (Stream_New w)) = Ok (0, s\<lparr>p_rdp := b\<rparr>) (Stream_Seek t 8)"
      unfolding cb by (simp add: peer_recv_data_pdu_def rdp_server_accept_client_control_pdu_def)
    with b show ?thesis by blast
  next
    case 3
    with t(3,4) have "peer_recv_callback env s (Some (Stream_New w)) = Ok (0, s\<lparr>p_rdp := b\<rparr>) t"
      unfolding cb by (simp add: peer_recv_data_pdu_def)
    with b show ?thesis by blast
  qed
qed

lemma server_grants:
  assumes "linked cr a ((w, MCS_GLOBAL_CHANNEL_ID, data_message m DATA_PDU_TYPE_CONTROL (control_body CTRLACTION_REQUEST_CONTROL 0 0)) # q) r (p_rdp s)"
    "waits True (p_rdp s)" "session_ready cr (pe_session env)"
  shows "\<exists>g m' uid b u. peer_recv_callback env s (Some (Stream_New w)) = Ok (0, s\<lparr>p_rdp := b\<rparr>) u \<and>
    linked cr a q (r @ [(g, MCS_GLOBAL_CHANNEL_ID, data_message m' DATA_PDU_TYPE_CONTROL (control_body CTRLACTION_GRANTED_CONTROL uid 0x03EA))]) b \<and>
    waits True b \<and> rdp_events b = Sent g # rdp_events (p_rdp s)"
proof -
  have cr: "s_crypto (pe_session env) = cr" using assms(3) by (simp add: session_ready_def)
  obtain b u t h where b: "linked cr a q r b" "waits True b" "rdp_events b = rdp_events (p_rdp s)"
    and t: "swf t" "avail t = control_body CTRLACTION_REQUEST_CONTROL 0 0" "rdp_read_share_data_header u = Ok h t" "sd_type h = DATA_PDU_TYPE_CONTROL"
    and cb: "peer_recv_callback env s (Some (Stream_New w)) = andthen (peer_recv_data_pdu env (s\<lparr>p_rdp := b\<rparr>) u) (\<lambda>(ok, p) s. Ok (if ok then 0 else -1, p) s)"
    by (rule server_arrival [OF assms(1,2) cr]) simp
  from b(1) have "linked cr b r q a" by (simp add: linked_sym)
  from linked_sends(5) [OF this assms(3)] obtain g b' where g: "rdp_send_server_control_granted_pdu (pe_session env) b = Some (True, b')" "sent_data b g b'"
    "linked cr b' (r @ [(g, MCS_GLOBAL_CHANNEL_ID, data_message b DATA_PDU_TYPE_CONTROL (control_body CTRLACTION_GRANTED_CONTROL (userId (rdp_mcs b)) 0x03EA))]) q a"
    by blast
  have "peer_recv_callback env s (Some (Stream_New w)) = Ok (0, s\<lparr>p_rdp := b'\<rparr>) (Stream_Seek t 8)"
    unfolding cb using t(3,4) server_bodies(2) [OF t(1,2)] g(1) by (simp add: peer_recv_data_pdu_def rdp_server_accept_client_control_pdu_def)
  moreover have "waits True b'" "rdp_events b' = Sent g # rdp_events (p_rdp s)"
    using b(2,3) waits_only(2) [OF g(2)] sent_data_rest [OF g(2)] by simp_all
  ultimately show ?thesis using g(3) [unfolded linked_sym [of cr b']] by blast
qed

lemma server_activates:
  assumes "linked cr a ((w, MCS_GLOBAL_CHANNEL_ID, data_message m DATA_PDU_TYPE_FONT_LIST (font_body 50)) # q) r (p_rdp s)"
    "waits True (p_rdp s)" "session_ready cr (pe_session env)"
    and app: "p_connected s \<or> (\<exists>f. pe_PostConnect env = Some f \<and> (\<forall>p. f p))" "\<exists>f. pe_Activate env = Some f \<and> (\<forall>p. f p)"
  shows "\<exists>g m' s' u. peer_recv_callback env s (Some (Stream_New w)) = Ok (0, s') u \<and>
    linked cr a q (r @ [(g, MCS_GLOBAL_CHANNEL_ID, data_message m' DATA_PDU_TYPE_FONT_MAP (font_body 4))]) (p_rdp s') \<and>
    conn_state (p_rdp s') = CONNECTION_STATE_ACTIVE \<and> p_connected s' \<and> p_activated s' \<and> rdp_events (p_rdp s') = Sent g # rdp_events (p_rdp s)"
proof -
  have cr: "s_crypto (pe_session env) = cr" using assms(3) by (simp add: session_ready_def)
  obtain b u t h where b: "linked cr a q r b" "waits True b" "rdp_events b = rdp_events (p_rdp s)"
    and t: "swf t" "avail t = font_body 50" "rdp_read_share_data_header u = Ok h t" "sd_type h = DATA_PDU_TYPE_FONT_LIST"
    and cb: "peer_recv_callback env s (Some (Stream_New w)) = andthen (peer_recv_data_pdu env (s\<lparr>p_rdp := b\<rparr>) u) (\<lambda>(ok, p) s. Ok (if ok then 0 else -1, p) s)"
    by (rule server_arrival [OF assms(1,2) cr]) simp
  from b(1) have "linked cr b r q a" by (simp add: linked_sym)
  from linked_sends(8) [OF this assms(3)] obtain g b' where g: "rdp_send_server_font_map_pdu (pe_session env) b = Some (True, b')" "sent_data b g b'"
    "linked cr b' (r @ [(g, MCS_GLOBAL_CHANNEL_ID, data_message b DATA_PDU_TYPE_FONT_MAP (font_body 4))]) q a"
    by blast
  have b': "conn_state b' = CONNECTION_STATE_FINALIZATION" "rdp_events b' = Sent g # rdp_events (p_rdp s)"
    using b(2,3) sent_data_rest [OF g(2)] by (simp_all add: waits_def)
  obtain s' where s': "rdp_server_transition_to_state env CONNECTION_STATE_ACTIVE (s\<lparr>p_rdp := b'\<rparr>) = (0, s')"
    "p_rdp s' = b'\<lparr>conn_state := CONNECTION_STATE_ACTIVE\<rparr>" "p_connected s'" "p_activated s'"
    using app b'(1) by (cases "p_connected s") (auto simp: rdp_server_transition_to_state_def states_less Let_def)
  have "peer_recv_callback env s (Some (Stream_New w)) = Ok (0, s') t"
    unfolding cb using t(3,4) server_bodies(3) [OF t(1,2)] g(1) s'(1)
    by (simp add: peer_recv_data_pdu_def rdp_server_accept_client_font_list_pdu_def)
  moreover have "linked cr a q (r @ [(g, MCS_GLOBAL_CHANNEL_ID, data_message b DATA_PDU_TYPE_FONT_MAP (font_body 4))]) (p_rdp s')"
    unfolding s'(2) by (rule linked_set(4)) (use g(3) in \<open>simp add: linked_sym\<close>)
  ultimately show ?thesis using s' b'(2) by auto
qed

lemma linked_connected: "linked c a q r b \<Longrightarrow> \<not> freerdp_shall_disconnect b"
  by (auto simp: linked_def in_flight_def talks_def)

lemma client_gets:
  assumes "linked cr a ((w, MCS_GLOBAL_CHANNEL_ID, data_message m type p) # q) r (c_rdp c)" "waits False (c_rdp c)"
    "messageChannelId (rdp_mcs (c_rdp c)) \<noteq> MCS_GLOBAL_CHANNEL_ID" "s_crypto (ce_session env) = cr"
    and step: "type = DATA_PDU_TYPE_SYNCHRONIZE \<and> p = sync_body x \<and> f = 1 \<or> type = DATA_PDU_TYPE_CONTROL \<and> p = control_body CTRLACTION_COOPERATE 0 0 \<and> f = 2 \<or>
      type = DATA_PDU_TYPE_CONTROL \<and> p = control_body CTRLACTION_GRANTED_CONTROL y z \<and> f = 4 \<or> type = DATA_PDU_TYPE_FONT_MAP \<and> p = font_body v \<and> f = 8"
  shows "\<exists>b u. rdp_recv_callback env await c (Stream_New w) =
      (if finalize_sc_pdus b = FINALIZE_SC_COMPLETE then Ok (2, c\<lparr>c_rdp := rdp_client_transition_to_state CONNECTION_STATE_ACTIVE b\<rparr>) u
       else Ok (0, c\<lparr>c_rdp := b\<rparr>) u) \<and>
    linked cr a q r b \<and> waits False b \<and> finalize_sc_pdus b = finalize_sc_pdus (c_rdp c) OR f \<and>
    rdp_mcs b = rdp_mcs (c_rdp c) \<and> rdp_events b = rdp_events (c_rdp c)"
proof -
  have l: "length p \<le> 1900" using step by auto
  from linked_receive [OF assms(1)] obtain b where b: "arrives cr (c_rdp c) w (MCS_GLOBAL_CHANNEL_ID, data_message m type p) b" "linked cr a q r b"
    by blast
  then have ro: "received_only (c_rdp c) b" by (simp add: arrives_def)
  let ?s = "b\<lparr>rdp_settings := (rdp_settings b)\<lparr>PduSource := ucast (userId (rdp_mcs m))\<rparr>\<rparr>"
  let ?f = "?s\<lparr>finalize_sc_pdus := finalize_sc_pdus ?s OR f\<rparr>"
  have w: "conn_state (c_rdp c) = CONNECTION_STATE_FINALIZATION" "\<not> ServerMode (rdp_settings (c_rdp c))" "\<not> ServerMode (rdp_settings b)"
    using assms(2) waits_only(1) [OF ro, of False] by (simp_all add: waits_def)
  have lf: "linked cr a q r ?s" "linked cr a q r ?f" using linked_set(1) [OF b(2)] linked_set(2) by blast+
  have wf: "waits False ?f" "rdp_mcs ?f = rdp_mcs (c_rdp c)" "rdp_events ?f = rdp_events (c_rdp c)" "finalize_sc_pdus ?f = finalize_sc_pdus (c_rdp c) OR f"
    using assms(2) waits_only(1) [OF ro, of False] only_rest [of "c_rdp c" b] ro by (simp_all add: waits_def)
  have ?thesis if d: "\<And>t. swf t \<Longrightarrow> avail t = p \<Longrightarrow> \<exists>u. dispatch_data_pdu (ce_handlers env) ?s type t = Ok (True, g) u"
    and g: "g = ?f \<or> g = ?f\<lparr>resendFocus := True\<rparr>" for g
  proof -
    from client_data [OF b(1) w(1,2) assms(3,4) l d, of await] obtain u where
      cb: "rdp_recv_callback env await c (Stream_New w) =
      (if finalize_sc_pdus g = FINALIZE_SC_COMPLETE then Ok (2, c\<lparr>c_rdp := rdp_client_transition_to_state CONNECTION_STATE_ACTIVE g\<rparr>) u
       else Ok (0, c\<lparr>c_rdp := g\<rparr>) u)" by blast
    have "linked cr a q r g" using g lf(2) linked_set(3) [OF lf(2)] by blast
    moreover have "waits False g" "finalize_sc_pdus g = finalize_sc_pdus (c_rdp c) OR f" "rdp_mcs g = rdp_mcs (c_rdp c)" "rdp_events g = rdp_events (c_rdp c)"
      using g wf by (auto simp: waits_def)
    ultimately show ?thesis using cb by blast
  qed
  note gets = this
  from step consider (sync) "type = DATA_PDU_TYPE_SYNCHRONIZE" "p = sync_body x" "f = 1"
    | (cooperate) "type = DATA_PDU_TYPE_CONTROL" "p = control_body CTRLACTION_COOPERATE 0 0" "f = 2"
    | (granted) "type = DATA_PDU_TYPE_CONTROL" "p = control_body CTRLACTION_GRANTED_CONTROL y z" "f = 4"
    | (font) "type = DATA_PDU_TYPE_FONT_MAP" "f = 8" by blast
  then show ?thesis
  proof cases
    case sync
    have "\<exists>u. dispatch_data_pdu (ce_handlers env) ?s type t = Ok (True, ?f) u" if "swf t" "avail t = p" for t
      using w sync server_bodies(1) [OF that(1), of x] that by (simp add: dispatch_data_pdu_def rdp_recv_synchronize_pdu_def)
    from gets [OF this] show ?thesis by blast
  next
    case cooperate
    have "\<exists>u. dispatch_data_pdu (ce_handlers env) ?s type t = Ok (True, ?f) u" if "swf t" "avail t = p" for t
      using cooperate server_bodies(2) [OF that(1), of CTRLACTION_COOPERATE 0 0] that
      by (simp add: dispatch_data_pdu_def rdp_recv_server_control_pdu_def)
    from gets [OF this] show ?thesis by blast
  next
    case granted
    have "\<exists>u. dispatch_data_pdu (ce_handlers env) ?s type t = Ok (True, ?f\<lparr>resendFocus := True\<rparr>) u" if "swf t" "avail t = p" for t
      using granted server_bodies(2) [OF that(1), of CTRLACTION_GRANTED_CONTROL y z] that
      by (simp add: dispatch_data_pdu_def rdp_recv_server_control_pdu_def)
    from gets [OF this] show ?thesis by blast
  next
    case font
    have "\<exists>u. dispatch_data_pdu (ce_handlers env) ?s type t = Ok (True, ?f) u" for t
      using w font by (simp add: dispatch_data_pdu_def rdp_recv_font_map_pdu_def rdp_recv_client_font_map_pdu_def)
    from gets [OF this] show ?thesis by blast
  qed
qed

lemma client_finalizes:
  assumes "linked cr a q r b" "session_ready cr env"
  shows "\<exists>w1 w2 w3 w4 m1 m2 m3 m4 x ks a'. rdp_client_connect_finalize env a = Some (0, a') \<and> conn_state a' = conn_state a \<and>
    rdp_settings a' = rdp_settings a \<and> rdp_mcs a' = rdp_mcs a \<and> finalize_sc_pdus a' = finalize_sc_pdus a \<and>
    rdp_events a' = map Sent (rev (w1 # w2 # w3 # map fst ks @ [w4])) @ rdp_events a \<and>
    (ks = [] \<or> (\<exists>k m. ks = [(k, MCS_GLOBAL_CHANNEL_ID, data_message m DATA_PDU_TYPE_BITMAP_CACHE_PERSISTENT_LIST keys_body)])) \<and>
    linked cr a' (q @ [(w1, MCS_GLOBAL_CHANNEL_ID, data_message m1 DATA_PDU_TYPE_SYNCHRONIZE (sync_body x)),
      (w2, MCS_GLOBAL_CHANNEL_ID, data_message m2 DATA_PDU_TYPE_CONTROL (control_body CTRLACTION_COOPERATE 0 0)),
      (w3, MCS_GLOBAL_CHANNEL_ID, data_message m3 DATA_PDU_TYPE_CONTROL (control_body CTRLACTION_REQUEST_CONTROL 0 0))] @ ks @
      [(w4, MCS_GLOBAL_CHANNEL_ID, data_message m4 DATA_PDU_TYPE_FONT_LIST (font_body 50))]) r b"
proof -
  note sends = linked_sends [OF _ assms(2)]
  from sends(1) [OF assms(1)] obtain w1 a1 where 1: "rdp_send_client_synchronize_pdu env a = Some (True, a1)" "sent_data a w1 a1"
    "linked cr a1 (q @ [(w1, MCS_GLOBAL_CHANNEL_ID, data_message a DATA_PDU_TYPE_SYNCHRONIZE (sync_body (ucast (PduSource (rdp_settings a)))))]) r b" by blast
  from sends(3) [OF 1(3)] obtain w2 a2 where 2: "rdp_send_client_control_pdu env a1 CTRLACTION_COOPERATE = Some (True, a2)" "sent_data a1 w2 a2"
    "linked cr a2 ((q @ [(w1, MCS_GLOBAL_CHANNEL_ID, data_message a DATA_PDU_TYPE_SYNCHRONIZE (sync_body (ucast (PduSource (rdp_settings a)))))]) @
      [(w2, MCS_GLOBAL_CHANNEL_ID, data_message a1 DATA_PDU_TYPE_CONTROL (control_body CTRLACTION_COOPERATE 0 0))]) r b" by blast
  from sends(3) [OF 2(3)] obtain w3 a3 where 3: "rdp_send_client_control_pdu env a2 CTRLACTION_REQUEST_CONTROL = Some (True, a3)" "sent_data a2 w3 a3"
    "linked cr a3 (((q @ [(w1, MCS_GLOBAL_CHANNEL_ID, data_message a DATA_PDU_TYPE_SYNCHRONIZE (sync_body (ucast (PduSource (rdp_settings a)))))]) @
      [(w2, MCS_GLOBAL_CHANNEL_ID, data_message a1 DATA_PDU_TYPE_CONTROL (control_body CTRLACTION_COOPERATE 0 0))]) @
      [(w3, MCS_GLOBAL_CHANNEL_ID, data_message a2 DATA_PDU_TYPE_CONTROL (control_body CTRLACTION_REQUEST_CONTROL 0 0))]) r b" by blast
  let ?q = "((q @ [(w1, MCS_GLOBAL_CHANNEL_ID, data_message a DATA_PDU_TYPE_SYNCHRONIZE (sync_body (ucast (PduSource (rdp_settings a)))))]) @
      [(w2, MCS_GLOBAL_CHANNEL_ID, data_message a1 DATA_PDU_TYPE_CONTROL (control_body CTRLACTION_COOPERATE 0 0))]) @
      [(w3, MCS_GLOBAL_CHANNEL_ID, data_message a2 DATA_PDU_TYPE_CONTROL (control_body CTRLACTION_REQUEST_CONTROL 0 0))]"
  let ?k = "\<not> deactivation_reactivation a3 \<and> BitmapCachePersistEnabled (rdp_settings a3)"
  obtain ks a4 where 4: "(if ?k then rdp_send_client_persistent_key_list_pdu env a3 else Some (True, a3)) = Some (True, a4)"
    "rdp_settings a4 = rdp_settings a3 \<and> conn_state a4 = conn_state a3 \<and> rdp_mcs a4 = rdp_mcs a3 \<and> finalize_sc_pdus a4 = finalize_sc_pdus a3 \<and>
      rdp_events a4 = map Sent (rev (map fst ks)) @ rdp_events a3"
    "ks = [] \<or> (\<exists>k m. ks = [(k, MCS_GLOBAL_CHANNEL_ID, data_message m DATA_PDU_TYPE_BITMAP_CACHE_PERSISTENT_LIST keys_body)])"
    "linked cr a4 (?q @ ks) r b"
  proof (cases ?k)
    case True
    from sends(6) [OF 3(3)] obtain wk ak where k: "rdp_send_client_persistent_key_list_pdu env a3 = Some (True, ak)" "sent_data a3 wk ak"
      "linked cr ak (?q @ [(wk, MCS_GLOBAL_CHANNEL_ID, data_message a3 DATA_PDU_TYPE_BITMAP_CACHE_PERSISTENT_LIST keys_body)]) r b" by blast
    show thesis
      by (rule that [of ak "[(wk, MCS_GLOBAL_CHANNEL_ID, data_message a3 DATA_PDU_TYPE_BITMAP_CACHE_PERSISTENT_LIST keys_body)]"])
        (use True k sent_data_rest [OF k(2)] in auto)
  next
    case False
    show thesis by (rule that [of a3 "[]"]) (use False 3(3) in auto)
  qed
  from sends(7) [OF 4(4)] obtain w5 a5 where 5: "rdp_send_client_font_list_pdu env a4 (FONTLIST_FIRST OR FONTLIST_LAST) = Some (True, a5)" "sent_data a4 w5 a5"
    "linked cr a5 ((?q @ ks) @ [(w5, MCS_GLOBAL_CHANNEL_ID, data_message a4 DATA_PDU_TYPE_FONT_LIST (font_body 50))]) r b" by blast
  have "rdp_client_connect_finalize env a = Some (0, a5)"
    unfolding rdp_client_connect_finalize_def sent_then_def using 1(1) 2(1) 3(1) 4(1) 5(1) by simp
  moreover have "conn_state a5 = conn_state a \<and> rdp_settings a5 = rdp_settings a \<and> rdp_mcs a5 = rdp_mcs a \<and> finalize_sc_pdus a5 = finalize_sc_pdus a \<and>
    rdp_events a5 = map Sent (rev (w1 # w2 # w3 # map fst ks @ [w5])) @ rdp_events a"
    using sent_data_rest [OF 1(2)] sent_data_rest [OF 2(2)] sent_data_rest [OF 3(2)] 4(2) sent_data_rest [OF 5(2)] by simp
  ultimately show ?thesis using 4(3) 5(3) [simplified append.assoc append_Cons append_Nil] by (simp only: append_Cons append_Nil) blast
qed

fun peer_receives :: "peer_env \<Rightarrow> freerdp_peer \<Rightarrow> bytes list \<Rightarrow> freerdp_peer option" where
  \<comment> \<open>The packets the transport reads, through the callback, until one of them makes the server give up.\<close>
  "peer_receives env p [] = Some p"
| "peer_receives env p (w # ws) =
     (case peer_recv_callback env p (Some (Stream_New w)) of
        Ok (status, p) _ \<Rightarrow> if status < 0 then None else peer_receives env p ws
      | _ \<Rightarrow> None)"

definition app_accepts :: "peer_env \<Rightarrow> freerdp_peer \<Rightarrow> bool" where
  \<comment> \<open>The callbacks of the application are there and say TRUE.\<close>
  "app_accepts env s \<longleftrightarrow> (p_connected s \<or> (\<exists>f. pe_PostConnect env = Some f \<and> (\<forall>p. f p))) \<and> (\<exists>f. pe_Activate env = Some f \<and> (\<forall>p. f p))"

lemma receives_one: "peer_recv_callback env s (Some (Stream_New w)) = Ok (0, s') u \<Longrightarrow> peer_receives env s (w # ws) = peer_receives env s' ws"
  by simp

lemma peer_quiet:
  assumes "linked cr a ((w, MCS_GLOBAL_CHANNEL_ID, data_message m type p) # q) r (p_rdp s)" "waits True (p_rdp s)"
    "session_ready cr (pe_session env)"
    and "type = DATA_PDU_TYPE_SYNCHRONIZE \<and> p = sync_body x \<or> type = DATA_PDU_TYPE_CONTROL \<and> p = control_body CTRLACTION_COOPERATE 0 0 \<or>
      type = DATA_PDU_TYPE_BITMAP_CACHE_PERSISTENT_LIST \<and> p = keys_body"
  obtains s' where "\<And>ws. peer_receives env s (w # ws) = peer_receives env s' ws" "linked cr a q r (p_rdp s')" "waits True (p_rdp s')"
    "rdp_events (p_rdp s') = rdp_events (p_rdp s)" "p_connected s' = p_connected s"
proof -
  have cr: "s_crypto (pe_session env) = cr" using assms(3) by (simp add: session_ready_def)
  from server_quiet [OF assms(1,2) cr assms(4)] obtain b u where b: "peer_recv_callback env s (Some (Stream_New w)) = Ok (0, s\<lparr>p_rdp := b\<rparr>) u"
    "linked cr a q r b" "waits True b" "rdp_events b = rdp_events (p_rdp s)" by blast
  show thesis by (rule that [of "s\<lparr>p_rdp := b\<rparr>"]) (rule receives_one [OF b(1)], simp_all add: b(2-4))
qed

lemma server_finalizes:
  assumes "linked cr a ([(w1, MCS_GLOBAL_CHANNEL_ID, data_message m1 DATA_PDU_TYPE_SYNCHRONIZE (sync_body x)),
      (w2, MCS_GLOBAL_CHANNEL_ID, data_message m2 DATA_PDU_TYPE_CONTROL (control_body CTRLACTION_COOPERATE 0 0)),
      (w3, MCS_GLOBAL_CHANNEL_ID, data_message m3 DATA_PDU_TYPE_CONTROL (control_body CTRLACTION_REQUEST_CONTROL 0 0))] @ ks @
      [(w4, MCS_GLOBAL_CHANNEL_ID, data_message m4 DATA_PDU_TYPE_FONT_LIST (font_body 50))]) r (p_rdp s)"
    and ks: "ks = [] \<or> (\<exists>k m. ks = [(k, MCS_GLOBAL_CHANNEL_ID, data_message m DATA_PDU_TYPE_BITMAP_CACHE_PERSISTENT_LIST keys_body)])"
    and st: "waits True (p_rdp s)" "session_ready cr (pe_session env)" "app_accepts env s"
  shows "\<exists>g1 g2 m5 m6 uid s'. peer_receives env s (w1 # w2 # w3 # map fst ks @ [w4]) = Some s' \<and>
    linked cr a [] (r @ [(g1, MCS_GLOBAL_CHANNEL_ID, data_message m5 DATA_PDU_TYPE_CONTROL (control_body CTRLACTION_GRANTED_CONTROL uid 0x03EA)),
      (g2, MCS_GLOBAL_CHANNEL_ID, data_message m6 DATA_PDU_TYPE_FONT_MAP (font_body 4))]) (p_rdp s') \<and>
    conn_state (p_rdp s') = CONNECTION_STATE_ACTIVE \<and> p_connected s' \<and> p_activated s' \<and>
    rdp_events (p_rdp s') = Sent g2 # Sent g1 # rdp_events (p_rdp s)"
proof -
  note peer_receives.simps(2) [simp del]
  obtain s1 where 1: "\<And>ws. peer_receives env s (w1 # ws) = peer_receives env s1 ws" "linked cr a ([
      (w2, MCS_GLOBAL_CHANNEL_ID, data_message m2 DATA_PDU_TYPE_CONTROL (control_body CTRLACTION_COOPERATE 0 0)),
      (w3, MCS_GLOBAL_CHANNEL_ID, data_message m3 DATA_PDU_TYPE_CONTROL (control_body CTRLACTION_REQUEST_CONTROL 0 0))] @ ks @
      [(w4, MCS_GLOBAL_CHANNEL_ID, data_message m4 DATA_PDU_TYPE_FONT_LIST (font_body 50))]) r (p_rdp s1)" "waits True (p_rdp s1)"
    "rdp_events (p_rdp s1) = rdp_events (p_rdp s)" "p_connected s1 = p_connected s"
    by (rule peer_quiet [OF assms(1) [unfolded append_Cons] st(1,2)], blast) (simp only: append_Cons)
  obtain s2 where 2: "\<And>ws. peer_receives env s1 (w2 # ws) = peer_receives env s2 ws" "linked cr a ([
      (w3, MCS_GLOBAL_CHANNEL_ID, data_message m3 DATA_PDU_TYPE_CONTROL (control_body CTRLACTION_REQUEST_CONTROL 0 0))] @ ks @
      [(w4, MCS_GLOBAL_CHANNEL_ID, data_message m4 DATA_PDU_TYPE_FONT_LIST (font_body 50))]) r (p_rdp s2)" "waits True (p_rdp s2)"
    "rdp_events (p_rdp s2) = rdp_events (p_rdp s)" "p_connected s2 = p_connected s"
    by (rule peer_quiet [OF 1(2) [unfolded append_Cons] 1(3) st(2)], blast) (simp only: append_Cons 1(4,5))
  from server_grants [OF 2(2) [unfolded append_Cons append_Nil] 2(3) st(2)] obtain g1 m5 uid b u where
    3: "peer_recv_callback env s2 (Some (Stream_New w3)) = Ok (0, s2\<lparr>p_rdp := b\<rparr>) u"
    "linked cr a (ks @ [(w4, MCS_GLOBAL_CHANNEL_ID, data_message m4 DATA_PDU_TYPE_FONT_LIST (font_body 50))])
       (r @ [(g1, MCS_GLOBAL_CHANNEL_ID, data_message m5 DATA_PDU_TYPE_CONTROL (control_body CTRLACTION_GRANTED_CONTROL uid 0x03EA))]) b"
    "waits True b" "rdp_events b = Sent g1 # rdp_events (p_rdp s2)" by blast
  let ?r = "r @ [(g1, MCS_GLOBAL_CHANNEL_ID, data_message m5 DATA_PDU_TYPE_CONTROL (control_body CTRLACTION_GRANTED_CONTROL uid 0x03EA))]"
  let ?s = "s2\<lparr>p_rdp := b\<rparr>"
  obtain s4 where 4: "\<And>ws. peer_receives env ?s (map fst ks @ ws) = peer_receives env s4 ws"
    "linked cr a [(w4, MCS_GLOBAL_CHANNEL_ID, data_message m4 DATA_PDU_TYPE_FONT_LIST (font_body 50))] ?r (p_rdp s4)" "waits True (p_rdp s4)"
    "rdp_events (p_rdp s4) = rdp_events b" "p_connected s4 = p_connected s"
  proof (cases "ks = []")
    case True
    then show thesis using 3(2,3) 2(5) by (intro that [of ?s]) simp_all
  next
    case False
    with ks obtain k m where k: "ks = [(k, MCS_GLOBAL_CHANNEL_ID, data_message m DATA_PDU_TYPE_BITMAP_CACHE_PERSISTENT_LIST keys_body)]" by blast
    have l: "linked cr a ((k, MCS_GLOBAL_CHANNEL_ID, data_message m DATA_PDU_TYPE_BITMAP_CACHE_PERSISTENT_LIST keys_body) #
        [(w4, MCS_GLOBAL_CHANNEL_ID, data_message m4 DATA_PDU_TYPE_FONT_LIST (font_body 50))]) ?r (p_rdp ?s)" "waits True (p_rdp ?s)"
      using 3(2,3) [unfolded k append_Cons append_Nil] by simp_all
    obtain s4 where s4: "\<And>ws. peer_receives env ?s (k # ws) = peer_receives env s4 ws"
      "linked cr a [(w4, MCS_GLOBAL_CHANNEL_ID, data_message m4 DATA_PDU_TYPE_FONT_LIST (font_body 50))] ?r (p_rdp s4)" "waits True (p_rdp s4)"
      "rdp_events (p_rdp s4) = rdp_events (p_rdp ?s)" "p_connected s4 = p_connected ?s"
      by (rule peer_quiet [OF l st(2)]) auto
    show thesis by (rule that [of s4]) (use s4 k 2(5) in simp_all)
  qed
  have app: "p_connected s4 \<or> (\<exists>f. pe_PostConnect env = Some f \<and> (\<forall>p. f p))" "\<exists>f. pe_Activate env = Some f \<and> (\<forall>p. f p)"
    using st(3) 4(5) by (auto simp: app_accepts_def)
  from server_activates [OF 4(2,3) st(2) app] obtain g2 m6 s5 v where 5: "peer_recv_callback env s4 (Some (Stream_New w4)) = Ok (0, s5) v"
    "linked cr a [] (?r @ [(g2, MCS_GLOBAL_CHANNEL_ID, data_message m6 DATA_PDU_TYPE_FONT_MAP (font_body 4))]) (p_rdp s5)"
    "conn_state (p_rdp s5) = CONNECTION_STATE_ACTIVE" "p_connected s5" "p_activated s5" "rdp_events (p_rdp s5) = Sent g2 # rdp_events (p_rdp s4)" by blast
  have "peer_receives env s (w1 # w2 # w3 # map fst ks @ [w4]) = Some s5"
    by (simp only: 1(1) 2(1) receives_one [OF 3(1)] 4(1) receives_one [OF 5(1)] peer_receives.simps(1))
  then show ?thesis using 5(2-5) 5(6) [unfolded 4(4) 3(4) 2(4)] by (simp only: append.assoc append_Cons append_Nil) blast
qed

lemma client_round:
  assumes "linked cr a ((w, MCS_GLOBAL_CHANNEL_ID, data_message m type p) # q) r (c_rdp c)" "waits False (c_rdp c)"
    "messageChannelId (rdp_mcs (c_rdp c)) \<noteq> MCS_GLOBAL_CHANNEL_ID" "s_crypto (ce_session env) = cr"
    and step: "type = DATA_PDU_TYPE_SYNCHRONIZE \<and> p = sync_body x \<and> f = 1 \<or> type = DATA_PDU_TYPE_CONTROL \<and> p = control_body CTRLACTION_COOPERATE 0 0 \<and> f = 2 \<or>
      type = DATA_PDU_TYPE_CONTROL \<and> p = control_body CTRLACTION_GRANTED_CONTROL y z \<and> f = 4 \<or> type = DATA_PDU_TYPE_FONT_MAP \<and> p = font_body v \<and> f = 8"
    and rd: "c_reads c = Read_Pdu w # rs" "ce_take env"
  obtains b u where "transport_check_fds env d (Suc n) c =
      (if finalize_sc_pdus b = FINALIZE_SC_COMPLETE then Ok (2, c\<lparr>c_reads := rs, c_rdp := rdp_client_transition_to_state CONNECTION_STATE_ACTIVE b\<rparr>) u
       else transport_check_fds env d n (c\<lparr>c_reads := rs, c_rdp := b\<rparr>))"
    "linked cr a q r b" "waits False b" "finalize_sc_pdus b = finalize_sc_pdus (c_rdp c) OR f"
    "rdp_mcs b = rdp_mcs (c_rdp c)" "rdp_events b = rdp_events (c_rdp c)"
proof -
  let ?c = "c\<lparr>c_reads := rs\<rparr>"
  from client_gets [of cr a w m type p q r ?c env x f y z v "await_active env d n"] assms(1-5) obtain b u where
    b: "rdp_recv_callback env (await_active env d n) ?c (Stream_New w) =
      (if finalize_sc_pdus b = FINALIZE_SC_COMPLETE then Ok (2, ?c\<lparr>c_rdp := rdp_client_transition_to_state CONNECTION_STATE_ACTIVE b\<rparr>) u
       else Ok (0, ?c\<lparr>c_rdp := b\<rparr>) u)" "linked cr a q r b" "waits False b" "finalize_sc_pdus b = finalize_sc_pdus (c_rdp c) OR f"
    "rdp_mcs b = rdp_mcs (c_rdp c)" "rdp_events b = rdp_events (c_rdp c)" by auto
  have "transport_check_fds env d (Suc n) c =
      (if finalize_sc_pdus b = FINALIZE_SC_COMPLETE then Ok (2, c\<lparr>c_reads := rs, c_rdp := rdp_client_transition_to_state CONNECTION_STATE_ACTIVE b\<rparr>) u
       else transport_check_fds env d n (c\<lparr>c_reads := rs, c_rdp := b\<rparr>))"
    using linked_connected [OF assms(1)] rd b(1) by simp
  then show thesis using that b(2-6) by blast
qed

definition tells :: "u32 \<Rightarrow> sent_message \<Rightarrow> bool" where
  \<comment> \<open>The message is the one of the server that sets the flag in \<open>finalize_sc_pdus\<close>.\<close>
  "tells f msg \<longleftrightarrow> (\<exists>m type p x y z v. snd msg = (MCS_GLOBAL_CHANNEL_ID, data_message m type p) \<and>
     (type = DATA_PDU_TYPE_SYNCHRONIZE \<and> p = sync_body x \<and> f = 1 \<or> type = DATA_PDU_TYPE_CONTROL \<and> p = control_body CTRLACTION_COOPERATE 0 0 \<and> f = 2 \<or>
      type = DATA_PDU_TYPE_CONTROL \<and> p = control_body CTRLACTION_GRANTED_CONTROL y z \<and> f = 4 \<or> type = DATA_PDU_TYPE_FONT_MAP \<and> p = font_body v \<and> f = 8))"

fun completes :: "u32 \<Rightarrow> u32 list \<Rightarrow> bool" where
  \<comment> \<open>The flags are all there with the last one and not before.\<close>
  "completes v [] \<longleftrightarrow> False"
| "completes v [f] \<longleftrightarrow> v OR f = FINALIZE_SC_COMPLETE"
| "completes v (f # fs) \<longleftrightarrow> v OR f \<noteq> FINALIZE_SC_COMPLETE \<and> completes (v OR f) fs"

lemma client_completes:
  assumes "completes (finalize_sc_pdus (c_rdp c)) fs" "list_all2 tells fs ms" "linked cr a ms r (c_rdp c)" "waits False (c_rdp c)"
    "messageChannelId (rdp_mcs (c_rdp c)) \<noteq> MCS_GLOBAL_CHANNEL_ID" "c_reads c = map Read_Pdu (map fst ms) @ rs"
    and env: "s_crypto (ce_session env) = cr" "ce_take env"
  shows "\<exists>b u. transport_check_fds env d (length fs + n) c = Ok (2, c\<lparr>c_reads := rs, c_rdp := b\<rparr>) u \<and> linked cr a [] r b \<and>
    conn_state b = CONNECTION_STATE_ACTIVE \<and> rdp_events b = rdp_events (c_rdp c)"
  using assms(1-6)
proof (induction fs arbitrary: c ms)
  case (Cons f fs)
  then obtain w chm ms' where ms: "ms = (w, chm) # ms'" "tells f (w, chm)" "list_all2 tells fs ms'"
    by (auto simp: list_all2_Cons1)
  then obtain m type p x y z v where t: "chm = (MCS_GLOBAL_CHANNEL_ID, data_message m type p)"
    "type = DATA_PDU_TYPE_SYNCHRONIZE \<and> p = sync_body x \<and> f = 1 \<or> type = DATA_PDU_TYPE_CONTROL \<and> p = control_body CTRLACTION_COOPERATE 0 0 \<and> f = 2 \<or>
      type = DATA_PDU_TYPE_CONTROL \<and> p = control_body CTRLACTION_GRANTED_CONTROL y z \<and> f = 4 \<or> type = DATA_PDU_TYPE_FONT_MAP \<and> p = font_body v \<and> f = 8"
    unfolding tells_def snd_conv by blast
  let ?rs = "map Read_Pdu (map fst ms') @ rs"
  have rd: "c_reads c = Read_Pdu w # ?rs" using Cons(7) ms(1) by simp
  from client_round [OF Cons(4) [unfolded ms(1) t(1)] Cons(5,6) env(1) t(2) rd env(2), of d "length fs + n"]
  obtain b u where b: "transport_check_fds env d (Suc (length fs + n)) c =
      (if finalize_sc_pdus b = FINALIZE_SC_COMPLETE then Ok (2, c\<lparr>c_reads := ?rs, c_rdp := rdp_client_transition_to_state CONNECTION_STATE_ACTIVE b\<rparr>) u
       else transport_check_fds env d (length fs + n) (c\<lparr>c_reads := ?rs, c_rdp := b\<rparr>))"
    "linked cr a ms' r b" "waits False b" "finalize_sc_pdus b = finalize_sc_pdus (c_rdp c) OR f"
    "rdp_mcs b = rdp_mcs (c_rdp c)" "rdp_events b = rdp_events (c_rdp c)" by metis
  show ?case
  proof (cases fs)
    case Nil
    let ?b = "rdp_client_transition_to_state CONNECTION_STATE_ACTIVE b"
    from Nil ms(3) have "ms' = []" by simp
    with b(2) have l: "linked cr a [] r ?b" by (simp add: rdp_client_transition_to_state_def linked_set(4))
    have "finalize_sc_pdus b = FINALIZE_SC_COMPLETE" using Cons(2) Nil b(4) by simp
    then have "transport_check_fds env d (length (f # fs) + n) c = Ok (2, c\<lparr>c_reads := rs, c_rdp := ?b\<rparr>) u"
      using b(1) \<open>ms' = []\<close> by (simp del: transport_check_fds.simps)
    moreover have "conn_state ?b = CONNECTION_STATE_ACTIVE" "rdp_events ?b = rdp_events (c_rdp c)"
      using b(6) by (simp_all add: rdp_client_transition_to_state_def)
    ultimately show ?thesis using l by blast
  next
    case (Cons g gs)
    let ?c = "c\<lparr>c_reads := ?rs, c_rdp := b\<rparr>"
    have go: "finalize_sc_pdus b \<noteq> FINALIZE_SC_COMPLETE" "completes (finalize_sc_pdus b) fs"
      using Cons.prems(1) Cons b(4) by simp_all
    have "completes (finalize_sc_pdus (c_rdp ?c)) fs" "linked cr a ms' r (c_rdp ?c)" "waits False (c_rdp ?c)"
      "messageChannelId (rdp_mcs (c_rdp ?c)) \<noteq> MCS_GLOBAL_CHANNEL_ID" "c_reads ?c = map Read_Pdu (map fst ms') @ rs"
      using go(2) b(2,3,5) Cons.prems(5) by simp_all
    from Cons.IH [OF this(1) ms(3) this(2-5)] obtain b' u' where "transport_check_fds env d (length fs + n) ?c = Ok (2, ?c\<lparr>c_reads := rs, c_rdp := b'\<rparr>) u'"
      "linked cr a [] r b'" "conn_state b' = CONNECTION_STATE_ACTIVE" "rdp_events b' = rdp_events (c_rdp ?c)" by blast
    moreover from this(1) have "transport_check_fds env d (length (f # fs) + n) c = Ok (2, c\<lparr>c_reads := rs, c_rdp := b'\<rparr>) u'"
      using b(1) go(1) by (simp del: transport_check_fds.simps)
    ultimately show ?thesis using b(6) by auto
  qed
qed simp

text \<open>C5: the end of the connection sequence. The server has sent its synchronize and cooperate PDUs when the client
  sends all of its own: every send succeeds, the server takes all of them, answers with the granted control and
  the font map, and becomes active; the client, reading the four PDUs of the server in one call of
  \<open>rdp_check_fds\<close>, becomes active with the last of them and leaves what follows for the session. Both are
  in step afterwards, with any of the encryptions.\<close>

theorem finalization_completes:
  assumes "in_session cr (c_rdp c) (p_rdp s)" "ServerMode (rdp_settings (p_rdp s))"
    and "conn_state (p_rdp s) = CONNECTION_STATE_FINALIZATION"
    and "messageChannelId (rdp_mcs (c_rdp c)) \<noteq> MCS_GLOBAL_CHANNEL_ID"
    and "session_ready cr (ce_session cenv)" "ce_take cenv"
    and "session_ready cr (pe_session penv)" "app_accepts penv s"
  shows "\<exists>s1 s2 ss ca ws s' gs cb u.
    rdp_send_server_synchronize_pdu (pe_session penv) (p_rdp s) = Some (True, s1) \<and>
    rdp_send_server_control_cooperate_pdu (pe_session penv) s1 = Some (True, s2) \<and>
    rdp_events s2 = map Sent (rev ss) @ rdp_events (p_rdp s) \<and>
    rdp_client_connect_finalize (ce_session cenv) (rdp_client_transition_to_state CONNECTION_STATE_FINALIZATION (c_rdp c)) = Some (0, ca) \<and>
    rdp_events ca = map Sent (rev ws) @ rdp_events (c_rdp c) \<and>
    peer_receives penv (s\<lparr>p_rdp := s2\<rparr>) ws = Some s' \<and>
    conn_state (p_rdp s') = CONNECTION_STATE_ACTIVE \<and> p_connected s' \<and> p_activated s' \<and>
    rdp_events (p_rdp s') = map Sent (rev gs) @ rdp_events s2 \<and>
    rdp_check_fds cenv (c\<lparr>c_rdp := ca, c_reads := map Read_Pdu (ss @ gs) @ rs\<rparr>) = Ok (2, c\<lparr>c_rdp := cb, c_reads := rs\<rparr>) u \<and>
    conn_state cb = CONNECTION_STATE_ACTIVE \<and> in_session cr cb (p_rdp s')"
proof -
  let ?c = "rdp_client_transition_to_state CONNECTION_STATE_FINALIZATION (c_rdp c)"
  have c: "conn_state ?c = CONNECTION_STATE_FINALIZATION" "finalize_sc_pdus ?c = 0" "rdp_settings ?c = rdp_settings (c_rdp c)"
    "rdp_mcs ?c = rdp_mcs (c_rdp c)" "rdp_events ?c = rdp_events (c_rdp c)"
    by (simp_all add: rdp_client_transition_to_state_def)
  have "talks cr ?c (p_rdp s)" "talks cr (p_rdp s) ?c"
    using assms(1) by (simp_all add: in_session_talks rdp_client_transition_to_state_def)
  then have "linked cr (p_rdp s) [] [] ?c" by (simp add: linked_def in_flight_none)
  from linked_sends(2) [OF this assms(7)] obtain w1 s1 x1 m1 where 1: "rdp_send_server_synchronize_pdu (pe_session penv) (p_rdp s) = Some (True, s1)"
    "sent_data (p_rdp s) w1 s1" "linked cr s1 [(w1, MCS_GLOBAL_CHANNEL_ID, data_message m1 DATA_PDU_TYPE_SYNCHRONIZE (sync_body x1))] [] ?c"
    by (simp only: append_Nil) blast
  from linked_sends(4) [OF 1(3) assms(7)] obtain w2 s2 m2 where 2: "rdp_send_server_control_cooperate_pdu (pe_session penv) s1 = Some (True, s2)"
    "sent_data s1 w2 s2" "linked cr ?c [] [(w1, MCS_GLOBAL_CHANNEL_ID, data_message m1 DATA_PDU_TYPE_SYNCHRONIZE (sync_body x1)),
      (w2, MCS_GLOBAL_CHANNEL_ID, data_message m2 DATA_PDU_TYPE_CONTROL (control_body CTRLACTION_COOPERATE 0 0))] s2"
    unfolding linked_sym [of cr ?c] by (simp only: append_Nil append_Cons) blast
  let ?ss = "[(w1, MCS_GLOBAL_CHANNEL_ID, data_message m1 DATA_PDU_TYPE_SYNCHRONIZE (sync_body x1)),
      (w2, MCS_GLOBAL_CHANNEL_ID, data_message m2 DATA_PDU_TYPE_CONTROL (control_body CTRLACTION_COOPERATE 0 0))]"
  have e2: "rdp_events s2 = map Sent (rev [w1, w2]) @ rdp_events (p_rdp s)" "waits True s2"
    using sent_data_rest [OF 1(2)] sent_data_rest [OF 2(2)] assms(2,3) by (simp_all add: waits_def)
  from client_finalizes [OF 2(3) assms(5)] obtain v1 v2 v3 v4 n1 n2 n3 n4 x ks ca where 3:
    "rdp_client_connect_finalize (ce_session cenv) ?c = Some (0, ca)" "conn_state ca = conn_state ?c" "rdp_settings ca = rdp_settings ?c"
    "rdp_mcs ca = rdp_mcs ?c" "finalize_sc_pdus ca = finalize_sc_pdus ?c"
    "rdp_events ca = map Sent (rev (v1 # v2 # v3 # map fst ks @ [v4])) @ rdp_events ?c"
    "ks = [] \<or> (\<exists>k m. ks = [(k, MCS_GLOBAL_CHANNEL_ID, data_message m DATA_PDU_TYPE_BITMAP_CACHE_PERSISTENT_LIST keys_body)])"
    "linked cr ca ([(v1, MCS_GLOBAL_CHANNEL_ID, data_message n1 DATA_PDU_TYPE_SYNCHRONIZE (sync_body x)),
      (v2, MCS_GLOBAL_CHANNEL_ID, data_message n2 DATA_PDU_TYPE_CONTROL (control_body CTRLACTION_COOPERATE 0 0)),
      (v3, MCS_GLOBAL_CHANNEL_ID, data_message n3 DATA_PDU_TYPE_CONTROL (control_body CTRLACTION_REQUEST_CONTROL 0 0))] @ ks @
      [(v4, MCS_GLOBAL_CHANNEL_ID, data_message n4 DATA_PDU_TYPE_FONT_LIST (font_body 50))]) ?ss s2"
    by (simp only: append_Nil) blast
  let ?s = "s\<lparr>p_rdp := s2\<rparr>"
  have s: "p_rdp ?s = s2" "app_accepts penv ?s" using assms(8) by (simp_all add: app_accepts_def)
  from server_finalizes [of cr ca v1 n1 x v2 n2 v3 n3 ks v4 n4 ?ss ?s penv, unfolded s(1), OF 3(8,7) e2(2) assms(7) s(2)]
  obtain g1 g2 m5 m6 uid s' where 4: "peer_receives penv ?s (v1 # v2 # v3 # map fst ks @ [v4]) = Some s'"
    "linked cr (p_rdp s') (?ss @ [(g1, MCS_GLOBAL_CHANNEL_ID, data_message m5 DATA_PDU_TYPE_CONTROL (control_body CTRLACTION_GRANTED_CONTROL uid 0x03EA)),
      (g2, MCS_GLOBAL_CHANNEL_ID, data_message m6 DATA_PDU_TYPE_FONT_MAP (font_body 4))]) [] ca"
    "conn_state (p_rdp s') = CONNECTION_STATE_ACTIVE" "p_connected s'" "p_activated s'" "rdp_events (p_rdp s') = Sent g2 # Sent g1 # rdp_events s2"
    unfolding linked_sym [of cr _ _ _ ca] by blast
  let ?ms = "?ss @ [(g1, MCS_GLOBAL_CHANNEL_ID, data_message m5 DATA_PDU_TYPE_CONTROL (control_body CTRLACTION_GRANTED_CONTROL uid 0x03EA)),
      (g2, MCS_GLOBAL_CHANNEL_ID, data_message m6 DATA_PDU_TYPE_FONT_MAP (font_body 4))]"
  let ?d = "c\<lparr>c_rdp := ca, c_reads := map Read_Pdu ([w1, w2] @ [g1, g2]) @ rs\<rparr>"
  have sm: "\<not> ServerMode (rdp_settings (c_rdp c))" using assms(1,2) by (simp add: in_session_def)
  have tells: "tells 1 (w1, MCS_GLOBAL_CHANNEL_ID, data_message m1 DATA_PDU_TYPE_SYNCHRONIZE (sync_body x1))"
    "tells 2 (w2, MCS_GLOBAL_CHANNEL_ID, data_message m2 DATA_PDU_TYPE_CONTROL (control_body CTRLACTION_COOPERATE 0 0))"
    "tells 4 (g1, MCS_GLOBAL_CHANNEL_ID, data_message m5 DATA_PDU_TYPE_CONTROL (control_body CTRLACTION_GRANTED_CONTROL uid 0x03EA))"
    "tells 8 (g2, MCS_GLOBAL_CHANNEL_ID, data_message m6 DATA_PDU_TYPE_FONT_MAP (font_body 4))"
    unfolding tells_def snd_conv by blast+
  have pre: "completes (finalize_sc_pdus (c_rdp ?d)) [1, 2, 4, 8]" "list_all2 tells [1, 2, 4, 8] ?ms" "linked cr (p_rdp s') ?ms [] (c_rdp ?d)"
    "waits False (c_rdp ?d)" "messageChannelId (rdp_mcs (c_rdp ?d)) \<noteq> MCS_GLOBAL_CHANNEL_ID" "c_reads ?d = map Read_Pdu (map fst ?ms) @ rs"
    using 3(2-5) c sm assms(4) tells 4(2) by (simp_all add: waits_def)
  have cr: "s_crypto (ce_session cenv) = cr" using assms(5) by (simp add: session_ready_def)
  have n: "length [1, 2, 4, 8 :: u32] + (5 + 2 * length rs) = Suc (2 * length (c_reads ?d))" by simp
  from client_completes [OF pre cr assms(6), of Overrun "5 + 2 * length rs", unfolded n] obtain cb u where
    5: "transport_check_fds cenv Overrun (Suc (2 * length (c_reads ?d))) ?d = Ok (2, ?d\<lparr>c_reads := rs, c_rdp := cb\<rparr>) u"
    "linked cr (p_rdp s') [] [] cb" "conn_state cb = CONNECTION_STATE_ACTIVE" by blast
  have "rdp_check_fds cenv ?d = Ok (2, c\<lparr>c_rdp := cb, c_reads := rs\<rparr>) u"
    unfolding rdp_check_fds_def 5(1) by (simp add: redirecting_def)
  moreover have "in_session cr cb (p_rdp s')"
    using 5(2) by (simp add: linked_def in_session_talks in_flight_end)
  moreover have "rdp_events (p_rdp s') = map Sent (rev [g1, g2]) @ rdp_events s2" using 4(6) by simp
  ultimately show ?thesis using 1(1) 2(1) e2(1) 3(1) 3(6) [unfolded c(5)] 4(1,3-5) 5(3) by blast
qed

theorem finalization_completes_witness:
  "\<exists>s1 s2 ss ca ws s' gs cb u.
    rdp_send_server_synchronize_pdu (pe_session plain_peer_env) ((fips_peer True)\<lparr>conn_state := CONNECTION_STATE_FINALIZATION\<rparr>) = Some (True, s1) \<and>
    rdp_send_server_control_cooperate_pdu (pe_session plain_peer_env) s1 = Some (True, s2) \<and>
    rdp_client_connect_finalize (ce_session plain_client_env)
      (rdp_client_transition_to_state CONNECTION_STATE_FINALIZATION (fips_peer False)) = Some (0, ca) \<and>
    peer_receives plain_peer_env ((fresh_peer (peer_settings True 0 []))\<lparr>p_rdp := s2\<rparr>) ws = Some s' \<and>
    conn_state (p_rdp s') = CONNECTION_STATE_ACTIVE \<and>
    rdp_check_fds plain_client_env ((plain_client (fips_peer False) [])\<lparr>c_rdp := ca, c_reads := map Read_Pdu (ss @ gs) @ [No_Pdu]\<rparr>) =
      Ok (2, (plain_client (fips_peer False) [])\<lparr>c_rdp := cb, c_reads := [No_Pdu]\<rparr>) u \<and>
    conn_state cb = CONNECTION_STATE_ACTIVE \<and> in_session plain_crypto cb (p_rdp s')"
proof -
  let ?s = "(fresh_peer (peer_settings True 0 []))\<lparr>p_rdp := (fips_peer True)\<lparr>conn_state := CONNECTION_STATE_FINALIZATION\<rparr>\<rparr>"
  let ?c = "plain_client (fips_peer False) []"
  have 1: "in_session plain_crypto (c_rdp ?c) (p_rdp ?s)"
    unfolding in_session_def
    by (simp add: plain_crypto_ok plain_cbc_ok fips_peer_def rdp_new_def freerdp_shall_disconnect_def fips_half_def plain_client_def)
      (simp add: plain_crypto_def)
  have 2: "ServerMode (rdp_settings (p_rdp ?s))" "conn_state (p_rdp ?s) = CONNECTION_STATE_FINALIZATION"
    "messageChannelId (rdp_mcs (c_rdp ?c)) \<noteq> MCS_GLOBAL_CHANNEL_ID"
    by (simp_all add: plain_client_def fips_peer_def rdp_new_def mcs_new_def)
  have 3: "session_ready plain_crypto (ce_session plain_client_env)" "ce_take plain_client_env"
    "session_ready plain_crypto (pe_session plain_peer_env)" "app_accepts plain_peer_env ?s"
    by (simp_all add: session_ready_def plain_client_env_def plain_peer_env_def plain_session_env_def app_accepts_def)
  have "p_rdp ?s = (fips_peer True)\<lparr>conn_state := CONNECTION_STATE_FINALIZATION\<rparr>" "c_rdp ?c = fips_peer False"
    "?s\<lparr>p_rdp := x\<rparr> = (fresh_peer (peer_settings True 0 []))\<lparr>p_rdp := x\<rparr>" for x
    by (simp_all add: plain_client_def)
  note eq = this
  from finalization_completes [OF 1 2 3, of "[No_Pdu]", unfolded eq] show ?thesis by blast
qed

end
