(* ===== verification/Gcc_Wire.thy ===== *)
theory Gcc_Wire
  imports Gcc
begin

text \<open>
  The conference PDUs of \<open>Gcc\<close> as byte strings: every writer of a client or server data block puts a
  fixed string into the stream, so that its size, the room it needs and what the other side makes of it
  are statements about that string.
\<close>

subsection \<open>Client data blocks\<close>

lemma length_wide_field [simp]:
  assumes "0 < k"
  shows "length (wide_field lib str k) = 2 * k"
proof -
  have c: "length (concat (map le16 w)) = 2 * length w" for w
    by (induction w) simp_all
  show ?thesis using assms by (simp add: wide_field_def Let_def c)
qed

definition client_core_bytes :: "library \<Rightarrow> gccSettings \<Rightarrow> bytes" where
  "client_core_bytes lib settings0 =
     (let settings = gcc_connection_type settings0
      in le16 CS_CORE @ le16 234 @
         le32 (if RdpVersion settings \<ge> 5 then RDP_VERSION_5_PLUS else RDP_VERSION_4) @
         le16 (ucast (DesktopWidth settings)) @ le16 (ucast (DesktopHeight settings)) @
         le16 0xCA01 @ le16 0xAA03 @ le32 (KeyboardLayout settings) @ le32 (ClientBuild settings) @
         wide_field lib (ClientHostname settings) 16 @
         le32 (KeyboardType settings) @ le32 (KeyboardSubType settings) @ le32 (KeyboardFunctionKey settings) @
         replicate 64 0 @ le16 0xCA01 @ le16 1 @ le32 0 @
         le16 (ucast (min (ColorDepth settings) 24)) @
         le16 (0x0007 OR (if ColorDepth settings = 32 then 0x0008 else 0)) @
         le16 (gcc_early_capability_flags settings) @ wide_field lib (ClientProductId settings) 32 @
         [ucast (ConnectionType settings), 0] @ le32 (set_SelectedProtocol settings) @
         le32 (DesktopPhysicalWidth settings) @ le32 (DesktopPhysicalHeight settings) @
         le16 (DesktopOrientation settings) @ le32 (DesktopScaleFactor settings) @
         le32 (DeviceScaleFactor settings))"

lemma gcc_connection_type_sel [simp]:
  "RdpVersion (gcc_connection_type st) = RdpVersion st"
  "DesktopWidth (gcc_connection_type st) = DesktopWidth st"
  "DesktopHeight (gcc_connection_type st) = DesktopHeight st"
  "KeyboardLayout (gcc_connection_type st) = KeyboardLayout st"
  "ClientBuild (gcc_connection_type st) = ClientBuild st"
  "ClientHostname (gcc_connection_type st) = ClientHostname st"
  "KeyboardType (gcc_connection_type st) = KeyboardType st"
  "KeyboardSubType (gcc_connection_type st) = KeyboardSubType st"
  "KeyboardFunctionKey (gcc_connection_type st) = KeyboardFunctionKey st"
  "DesktopPhysicalWidth (gcc_connection_type st) = DesktopPhysicalWidth st"
  "DesktopPhysicalHeight (gcc_connection_type st) = DesktopPhysicalHeight st"
  "DesktopOrientation (gcc_connection_type st) = DesktopOrientation st"
  "DesktopScaleFactor (gcc_connection_type st) = DesktopScaleFactor st"
  "DeviceScaleFactor (gcc_connection_type st) = DeviceScaleFactor st"
  "ClientProductId (gcc_connection_type st) = ClientProductId st"
  "NetworkAutoDetect (gcc_connection_type st) = NetworkAutoDetect st"
  "SupportHeartbeatPdu (gcc_connection_type st) = SupportHeartbeatPdu st"
  "SupportDynamicTimeZone (gcc_connection_type st) = SupportDynamicTimeZone st"
  "SupportMultitransport (gcc_connection_type st) = SupportMultitransport st"
  "ColorDepth (gcc_connection_type st) = ColorDepth st"
  "set_SelectedProtocol (gcc_connection_type st) = set_SelectedProtocol st"
  "set_NegotiationFlags (gcc_connection_type st) = set_NegotiationFlags st"
  "UseRdpSecurityLayer (gcc_connection_type st) = UseRdpSecurityLayer st"
  "EncryptionMethods (gcc_connection_type st) = EncryptionMethods st"
  "ConsoleSession (gcc_connection_type st) = ConsoleSession st"
  "RedirectedSessionId (gcc_connection_type st) = RedirectedSessionId st"
  "MonitorCount (gcc_connection_type st) = MonitorCount st"
  "MonitorDefArray (gcc_connection_type st) = MonitorDefArray st"
  "HasMonitorAttributes (gcc_connection_type st) = HasMonitorAttributes st"
  "UseMultimon (gcc_connection_type st) = UseMultimon st"
  "SpanMonitors (gcc_connection_type st) = SpanMonitors st"
  "ForceMultimon (gcc_connection_type st) = ForceMultimon st"
  "MultitransportFlags (gcc_connection_type st) = MultitransportFlags st"
  by (simp_all add: gcc_connection_type_def Let_def)

lemma length_client_core_bytes [simp]: "length (client_core_bytes lib settings) = 234"
  by (simp add: client_core_bytes_def Let_def)

lemma gcc_write_client_core_data_put [wr_simps]:
  "gcc_write_client_core_data lib s settings = put s (client_core_bytes lib settings) (gcc_connection_type settings)"
  by (simp add: gcc_write_client_core_data_def wr_simps client_core_bytes_def Let_def)

definition channel_def_bytes :: "rdpMcsChannel \<Rightarrow> bytes" where
  "channel_def_bytes c = ch_Name c @ le32 (ch_options c)"

lemma take_Suc_drop: "i < length xs \<Longrightarrow> take (Suc n) (drop i xs) = xs ! i # take n (drop (Suc i) xs)"
  by (simp flip: Cons_nth_drop_Suc)

lemma write_channel_defs_put:
  "i + n \<le> length (channels mcs) \<Longrightarrow>
   write_channel_defs n i mcs = (\<lambda>s. put s (concat (map channel_def_bytes (take n (drop i (channels mcs))))) ())"
  by (induction n arbitrary: i; rule ext)
    (simp_all add: wr_simps channel_def_bytes_def take_Suc_drop del: take_Suc)

definition client_network_bytes :: "rdpMcs \<Rightarrow> bytes" where
  "client_network_bytes mcs =
     (if channelCount mcs > 0 then
        le16 CS_NET @ le16 (ucast (channelCount mcs * 12 + 8)) @ le32 (channelCount mcs) @
        concat (map channel_def_bytes (take (unat (channelCount mcs)) (channels mcs)))
      else [])"

lemma gcc_write_client_network_data_put:
  "channels_ok mcs \<Longrightarrow> gcc_write_client_network_data s mcs = put s (client_network_bytes mcs) ()"
  by (simp add: gcc_write_client_network_data_def channels_ok_def write_channel_defs_put wr_simps client_network_bytes_def)

definition monitor_def_bytes :: "rdpMonitor \<Rightarrow> bytes" where
  "monitor_def_bytes m =
     le32 (mon_x m) @ le32 (mon_y m) @ le32 (mon_x m + mon_width m - 1) @ le32 (mon_y m + mon_height m - 1) @
     le32 (if is_primary m \<noteq> 0 then 1 else 0)"

definition monitor_attribute_bytes :: "rdpMonitor \<Rightarrow> bytes" where
  "monitor_attribute_bytes m =
     le32 (physicalWidth (attributes m)) @ le32 (physicalHeight (attributes m)) @
     le32 (orientation (attributes m)) @ le32 (desktopScaleFactor (attributes m)) @
     le32 (deviceScaleFactor (attributes m))"

lemma write_monitor_defs_put:
  "i + n \<le> length ms \<Longrightarrow>
   write_monitor_defs n i ms = (\<lambda>s. put s (concat (map monitor_def_bytes (take n (drop i ms)))) ())"
  by (induction n arbitrary: i; rule ext)
    (simp_all add: wr_simps monitor_def_bytes_def take_Suc_drop Let_def del: take_Suc)

lemma write_monitor_attributes_put:
  "i + n \<le> length ms \<Longrightarrow>
   write_monitor_attributes n i ms = (\<lambda>s. put s (concat (map monitor_attribute_bytes (take n (drop i ms)))) ())"
  by (induction n arbitrary: i; rule ext)
    (simp_all add: wr_simps monitor_attribute_bytes_def take_Suc_drop Let_def del: take_Suc)

definition client_monitor_bytes :: "gccSettings \<Rightarrow> bytes" where
  "client_monitor_bytes settings =
     (if MonitorCount settings > 1 then
        le16 CS_MONITOR @ le16 (word_of_int (20 * MonitorCount settings + 12)) @ le32 0 @
        le32 (word_of_int (MonitorCount settings)) @
        concat (map monitor_def_bytes (take (nat (MonitorCount settings)) (MonitorDefArray settings)))
      else [])"

definition client_monitor_extended_bytes :: "gccSettings \<Rightarrow> bytes" where
  "client_monitor_extended_bytes settings =
     (if HasMonitorAttributes settings then
        le16 CS_MONITOR_EX @ le16 (word_of_int (20 * MonitorCount settings + 16)) @ le32 0 @ le32 20 @
        le32 (word_of_int (MonitorCount settings)) @
        concat (map monitor_attribute_bytes (take (nat (MonitorCount settings)) (MonitorDefArray settings)))
      else [])"

definition monitors_ok :: "gccSettings \<Rightarrow> bool" where
  "monitors_ok settings \<longleftrightarrow> nat (MonitorCount settings) \<le> length (MonitorDefArray settings)"

lemma gcc_write_client_monitors_put:
  assumes "monitors_ok settings"
  shows "gcc_write_client_monitor_data s settings = put s (client_monitor_bytes settings) ()"
    and "gcc_write_client_monitor_extended_data s settings = put s (client_monitor_extended_bytes settings) ()"
  using assms
  by (simp_all add: gcc_write_client_monitor_data_def gcc_write_client_monitor_extended_data_def monitors_ok_def
      write_monitor_defs_put write_monitor_attributes_put wr_simps client_monitor_bytes_def
      client_monitor_extended_bytes_def)

definition client_security_bytes :: "gccSettings \<Rightarrow> bytes" where
  "client_security_bytes settings =
     le16 CS_SECURITY @ le16 12 @
     (if UseRdpSecurityLayer settings then le32 (EncryptionMethods settings) @ le32 0
      else le32 0 @ le32 (EncryptionMethods settings))"

definition client_cluster_bytes :: "gccSettings \<Rightarrow> bytes" where
  "client_cluster_bytes settings =
     le16 CS_CLUSTER @ le16 12 @
     le32 (1 OR push_bit 2 3 OR (if ConsoleSession settings \<or> RedirectedSessionId settings \<noteq> 0 then 2 else 0)) @
     le32 (RedirectedSessionId settings)"

definition client_message_channel_bytes :: "gccSettings \<Rightarrow> bytes" where
  "client_message_channel_bytes settings =
     (if NetworkAutoDetect settings \<or> SupportHeartbeatPdu settings \<or> SupportMultitransport settings
      then le16 CS_MCS_MSGCHANNEL @ le16 8 @ le32 0 else [])"

definition client_multitransport_bytes :: "gccSettings \<Rightarrow> bytes" where
  "client_multitransport_bytes settings =
     (if MultitransportFlags settings \<noteq> 0
      then le16 CS_MULTITRANSPORT @ le16 8 @ le32 (MultitransportFlags settings) else [])"

lemma gcc_write_client_small_blocks_put [wr_simps]:
  "gcc_write_client_security_data s settings = put s (client_security_bytes settings) ()"
  "gcc_write_client_cluster_data s settings = put s (client_cluster_bytes settings) ()"
  "gcc_write_client_message_channel_data s settings = put s (client_message_channel_bytes settings) ()"
  "gcc_write_client_multitransport_channel_data s settings = put s (client_multitransport_bytes settings) ()"
  by (simp_all add: gcc_write_client_security_data_def gcc_write_client_cluster_data_def
      gcc_write_client_message_channel_data_def gcc_write_client_multitransport_channel_data_def wr_simps
      client_security_bytes_def client_cluster_bytes_def client_message_channel_bytes_def
      client_multitransport_bytes_def)

definition client_extended_bytes :: "gccSettings \<Rightarrow> bytes" where
  "client_extended_bytes settings =
     (let multimon = UseMultimon settings \<and> \<not> SpanMonitors settings;
          monitors = client_monitor_bytes settings @ client_monitor_extended_bytes settings
      in if set_NegotiationFlags settings AND 1 \<noteq> 0 then
           (if multimon then monitors else []) @ client_message_channel_bytes settings @
           client_multitransport_bytes settings
         else if multimon \<and> ForceMultimon settings then monitors else [])"

definition client_data_bytes :: "library \<Rightarrow> rdpMcs \<Rightarrow> gccSettings \<Rightarrow> bytes" where
  "client_data_bytes lib mcs settings0 =
     (let settings = gcc_connection_type settings0
      in client_core_bytes lib settings0 @ client_cluster_bytes settings @ client_security_bytes settings @
         client_network_bytes mcs @ client_extended_bytes settings)"

lemma put_result: "andthen (put s a x) k = andthen (put s a ()) (\<lambda>_. k x)"
  by (auto simp: put_def Stream_Write_def)

lemma client_extended_put:
  assumes "monitors_ok settings"
  shows "(if set_NegotiationFlags settings AND 1 \<noteq> 0 then
       andthen (if UseMultimon settings \<and> \<not> SpanMonitors settings
                then andthen (gcc_write_client_monitor_data s settings) (\<lambda>_ s.
                     gcc_write_client_monitor_extended_data s settings) else Ok () s) (\<lambda>_ s.
       andthen (gcc_write_client_message_channel_data s settings) (\<lambda>_ s.
       gcc_write_client_multitransport_channel_data s settings))
     else if (UseMultimon settings \<and> \<not> SpanMonitors settings) \<and> ForceMultimon settings
     then andthen (gcc_write_client_monitor_data s settings) (\<lambda>_ s.
          gcc_write_client_monitor_extended_data s settings)
     else Ok () s) = put s (client_extended_bytes settings) ()"
  using assms by (simp add: gcc_write_client_monitors_put wr_simps client_extended_bytes_def Let_def)

lemma gcc_write_client_data_blocks_put:
  assumes "channels_ok mcs" "monitors_ok settings"
  shows "gcc_write_client_data_blocks lib s (mcs, settings)
    = put s (client_data_bytes lib mcs settings) (mcs, gcc_connection_type settings)"
proof -
  have ok: "monitors_ok (gcc_connection_type settings)"
    using assms(2) by (simp add: monitors_ok_def gcc_connection_type_def Let_def)
  show ?thesis
    unfolding gcc_write_client_data_blocks_def Let_def prod.case gcc_write_client_core_data_put
    by (subst put_result, simp only: client_extended_put [OF ok])
      (simp only: gcc_write_client_network_data_put [OF assms(1)] wr_simps client_data_bytes_def Let_def append_assoc)
qed

subsection \<open>The conference PDUs and the MCS PDUs around them\<close>

definition conference_request_bytes :: "bytes \<Rightarrow> bytes" where
  "conference_request_bytes ud =
     [0, 5, 0, 20, 124, 0, 1] @ per_length_bytes (int (length ud) + 14) @
     [0, 8, 0, 0x10, 0, 1, 0xC0, 0] @ h221_cs_key @ per_length_bytes (int (length ud)) @ ud"

definition conference_response_bytes :: "bytes \<Rightarrow> bytes" where
  "conference_response_bytes ud =
     [0, 5, 0, 20, 124, 0, 1, 0x2A, 0x14] @ be16 (0x79F3 - 1001) @ [1, 1, 0, 1, 0xC0, 0] @ h221_sc_key @
     per_length_bytes (int (length ud)) @ ud"

lemma per_write_octet_string_prefix:
  assumes "s_pos u \<le> length (s_buffer u)"
  shows "per_write_octet_string s (s_buffer u) (int (s_pos u)) 0 =
    put s (per_length_bytes (int (length (packet u))) @ packet u) ()"
  using assms by (simp add: per_write_octet_string_def wr_simps packet_def)

lemma gcc_write_conference_put:
  assumes "s_pos u \<le> length (s_buffer u)"
  shows "gcc_write_conference_create_request s u = put s (conference_request_bytes (packet u)) ()"
    and "gcc_write_conference_create_response s u = put s (conference_response_bytes (packet u)) ()"
proof -
  have key: "per_write_octet_string s h221_cs_key 4 4 = put s (0 # h221_cs_key) ()"
    "per_write_octet_string s h221_sc_key 4 4 = put s (0 # h221_sc_key) ()" for s
    using per_write_octet_string_put [of s h221_cs_key 4] per_write_octet_string_put [of s h221_sc_key 4]
    by (simp_all add: h221_cs_key_def h221_sc_key_def per_length_bytes_def)
  have digits: "push_bit 4 (per_digit 49) OR per_digit 48 = 0x10"
    by (simp add: per_digit_def push_bit_eq_mult)
  have p: "int (length (packet u)) = int (s_pos u)" using assms by (simp add: packet_def)
  show "gcc_write_conference_create_request s u = put s (conference_request_bytes (packet u)) ()"
    unfolding gcc_write_conference_create_request_def conference_request_bytes_def
    by (simp add: key per_write_octet_string_prefix [OF assms] t124_02_98_oid_def wr_simps p digits
        per_write_numeric_string_def per_length_bytes_def)
  show "gcc_write_conference_create_response s u = put s (conference_response_bytes (packet u)) ()"
    unfolding gcc_write_conference_create_response_def conference_response_bytes_def
    by (simp add: key per_write_octet_string_prefix [OF assms] t124_02_98_oid_def wr_simps p
        per_length_bytes_def per_integer_bytes_def)
qed

definition connect_packet :: "bytes \<Rightarrow> bytes" where
  "connect_packet body = tpkt_bytes (word_of_nat (7 + length body)) @ [2, 0xF0, 0x80] @ body"

lemma send_connect_put:
  assumes "malloc_total env" "length body \<le> 1024 + s_pos ccr" "\<And>s. write s = put s body ()"
  shows "send_connect env ccr write =
    Returned (0 \<le> transport_write env (connect_packet body)) [connect_packet body]"
proof -
  obtain mem where mem: "malloc env (1024 + (s_pos ccr + 7)) = Some mem" "length mem = 1024 + (s_pos ccr + 7)"
    using assms(1) by (rule malloc_total_obtains)
  let ?s = "Stream_Seek (Stream_New mem) 7"
  let ?t = "?s\<lparr>s_buffer := take 7 mem @ body @ drop (7 + length body) mem, s_pos := 7 + length body\<rparr>"
  have w: "write ?s = Ok () ?t"
    using assms(2) mem by (simp add: assms(3) put_fits Stream_Capacity_def Stream_New_def)
  let ?h = "tpkt_bytes (word_of_nat (7 + length body)) @ [2, 0xF0, 0x80]"
  have "andthen (tpkt_write_header (Stream_SetPosition ?t 0) (word_of_nat (s_pos ?t))) (\<lambda>_ s.
      andthen (tpdu_write_data s) (\<lambda>_ s. Ok () (Stream_SetPosition s (s_pos ?t))))
    = andthen (put (Stream_SetPosition ?t 0) ?h ()) (\<lambda>_ s. Ok () (Stream_SetPosition s (s_pos ?t)))"
    by (simp add: wr_simps tpdu_bytes_def)
  also have "put (Stream_SetPosition ?t 0) ?h () = Ok () (?t\<lparr>s_buffer := ?h @ body @ drop (7 + length body) mem, s_pos := 7\<rparr>)"
    using assms(2) mem by (simp add: put_fits Stream_Capacity_def Stream_SetPosition_def tpdu_bytes_def)
  finally show ?thesis
    using mem w by (simp add: send_connect_def Let_def packet_def connect_packet_def Stream_SetPosition_def not_less numeral_3_eq_3)
qed

lemma mcs_initialize_client_channels_ok:
  "mcs_initialize_client_channels n defs mcs = Some m \<Longrightarrow> channels_ok m"
  by (auto simp: mcs_initialize_client_channels_def channels_ok_def Let_def word_less_nat_alt split: if_splits)

lemma length_per_length_bytes_le: "length (per_length_bytes n) \<le> 2"
  by (simp add: per_length_bytes_def)

lemma length_conference_bytes:
  "length (conference_request_bytes ud) \<le> length ud + 23"
  "length (conference_response_bytes ud) \<le> length ud + 23"
  using length_per_length_bytes_le [of "int (length ud)"] length_per_length_bytes_le [of "int (length ud) + 14"]
  by (simp_all add: conference_request_bytes_def conference_response_bytes_def h221_cs_key_def h221_sc_key_def)

lemma mcs_send_connect_initial_cases:
  assumes "malloc_total env" "nat (MonitorCount settings) \<le> length (MonitorDefArray settings)"
    "mcs_initialize_client_channels (ChannelCount settings) (ChannelDefArray settings) mcs0 = Some mcs"
    "blocks = client_data_bytes lib mcs settings"
    "pkt = connect_packet (connect_initial_bytes mcs (conference_request_bytes blocks))"
  shows "fst (mcs_send_connect_initial env lib (mcs0, settings)) =
    (if 512 < length blocks then Crashed else Returned (0 \<le> transport_write env pkt) [pkt])"
proof -
  obtain mem mem' where mem: "malloc env 512 = Some mem" "length mem = 512"
      "malloc env 1024 = Some mem'" "length mem' = 1024"
    by (meson malloc_total_obtains [OF assms(1)])
  have w: "gcc_write_client_data_blocks lib (Stream_New mem) (mcs, settings)
      = put (Stream_New mem) blocks (mcs, gcc_connection_type settings)"
    using gcc_write_client_data_blocks_put [OF mcs_initialize_client_channels_ok [OF assms(3)]] assms(2,4)
    by (simp add: monitors_ok_def)
  show ?thesis
  proof (cases "512 < length blocks")
    case True
    with w mem show ?thesis by (simp add: mcs_send_connect_initial_def assms(3) put_new)
  next
    case False
    let ?data = "\<lparr>s_buffer = blocks @ drop (length blocks) mem, s_pos = length blocks, s_length = 512\<rparr>"
    let ?req = "conference_request_bytes blocks"
    let ?ccr = "\<lparr>s_buffer = ?req @ drop (length ?req) mem', s_pos = length ?req, s_length = 1024\<rparr>"
    have "packet ?data = blocks" by (simp add: packet_def)
    then have "gcc_write_conference_create_request (Stream_New mem') ?data = put (Stream_New mem') ?req ()"
      using gcc_write_conference_put(1) [of ?data] by simp
    also have "\<dots> = Ok () ?ccr"
      using length_conference_bytes(1) [of blocks] False mem(4) by (simp add: put_new)
    finally have ccr: "gcc_write_conference_create_request (Stream_New mem') ?data = Ok () ?ccr" .
    have "packet ?ccr = ?req" by (simp add: packet_def)
    then have "mcs_write_connect_initial env s mcs ?ccr = put s (connect_initial_bytes mcs ?req) ()" for s
      using mcs_write_connect_put(1) [OF assms(1), of ?ccr] by simp
    from send_connect_put [OF assms(1) _ this] length_connect_bytes(1) [of mcs ?req]
    have "send_connect env ?ccr (\<lambda>s. mcs_write_connect_initial env s mcs ?ccr)
      = Returned (0 \<le> transport_write env pkt) [pkt]"
      by (simp add: assms(5))
    with w mem ccr False show ?thesis
      by (simp add: mcs_send_connect_initial_def assms(3) put_new)
  qed
qed

text \<open>C24: what a client sends as its Connect-Initial, exactly: the data blocks of its settings in a
  Conference Create Request in an MCS Connect-Initial in a TPKT packet. The data blocks go into 512
  bytes, and the program writes past them when they are longer.\<close>

theorem mcs_send_connect_initial_exact:
  assumes "malloc_total env" "nat (MonitorCount settings) \<le> length (MonitorDefArray settings)"
    "mcs_initialize_client_channels (ChannelCount settings) (ChannelDefArray settings) mcs0 = Some mcs"
  shows "fst (mcs_send_connect_initial env lib (mcs0, settings)) =
    (let blocks = client_data_bytes lib mcs settings;
         pkt = connect_packet (connect_initial_bytes mcs (conference_request_bytes blocks))
     in if 512 < length blocks then Crashed else Returned (0 \<le> transport_write env pkt) [pkt])"
  using mcs_send_connect_initial_cases [OF assms refl refl] by (simp only: Let_def)

lemma fresh_channels:
  "mcs_initialize_client_channels 0 defs fresh_mcs = Some fresh_mcs"
  by (simp add: mcs_initialize_client_channels_def fresh_mcs_def mcs_new_def)

theorem mcs_send_connect_initial_exact_witness:
  "\<exists>pkt. fst (mcs_send_connect_initial good_env plain_library (fresh_mcs, freerdp_settings_new False [])) =
    Returned True [pkt]"
proof -
  let ?st = "freerdp_settings_new False []"
  have "length (client_data_bytes plain_library fresh_mcs ?st) = 258"
    by (simp add: client_data_bytes_def client_cluster_bytes_def client_security_bytes_def client_network_bytes_def
        client_extended_bytes_def gcc_connection_type_def freerdp_settings_new_def fresh_mcs_def mcs_new_def Let_def)
  moreover have "MonitorCount ?st = 0" "ChannelCount ?st = 0" by (simp_all add: freerdp_settings_new_def)
  ultimately show ?thesis
    using mcs_send_connect_initial_exact [of good_env ?st fresh_mcs fresh_mcs plain_library]
    by (simp add: fresh_channels Let_def)
qed

lemma client_network_bytes_length:
  assumes "mcs_initialize_client_channels n defs mcs0 = Some mcs" "n \<le> channelMaxCount mcs0"
    "\<forall>d \<in> set defs. 8 \<le> length (fst d)"
  shows "length (client_network_bytes mcs) = (if n = 0 then 0 else 8 + 12 * unat n)"
proof -
  let ?chs = "map (\<lambda>(name, opts). zero_channel\<lparr>ch_Name := take 8 name, ch_options := opts\<rparr>) (take (unat n) defs)"
  have n: "channelCount mcs = n" "take (unat n) (channels mcs) = ?chs" "length ?chs = unat n"
    using assms(1,2) by (auto simp: mcs_initialize_client_channels_def Let_def not_less split: if_splits)
  have "length (channel_def_bytes c) = 12" if "c \<in> set ?chs" for c
    using that assms(3) by (auto simp: channel_def_bytes_def dest!: in_set_takeD)
  then have "map length (map channel_def_bytes ?chs) = map (\<lambda>_. 12) ?chs"
    by (simp only: map_map comp_def) (rule map_cong; simp)
  then have "length (concat (map channel_def_bytes ?chs)) = 12 * unat n"
    by (simp only: length_concat map_replicate_const sum_list_replicate n(3)) simp
  then show ?thesis
    by (simp add: client_network_bytes_def n word_greater_zero_iff)
qed

text \<open>More than twenty virtual channels overflow the 512 bytes, with no monitors and no other optional
  block at all; up to twenty fit. The settings have room for 32 channels, MCS for 30.\<close>

theorem mcs_send_connect_initial_channel_limit:
  assumes "malloc_total env" "nat (MonitorCount settings) \<le> length (MonitorDefArray settings)"
    "mcs_initialize_client_channels (ChannelCount settings) (ChannelDefArray settings) mcs0 = Some mcs"
    "ChannelCount settings \<le> channelMaxCount mcs0" "\<forall>d \<in> set (ChannelDefArray settings). 8 \<le> length (fst d)"
    "set_NegotiationFlags settings AND 1 = 0" "\<not> ForceMultimon settings"
  shows "fst (mcs_send_connect_initial env lib (mcs0, settings)) = Crashed \<longleftrightarrow> 20 < unat (ChannelCount settings)"
proof -
  have "client_extended_bytes (gcc_connection_type settings) = []"
    using assms(6,7) by (simp add: client_extended_bytes_def gcc_connection_type_def Let_def)
  then have "length (client_data_bytes lib mcs settings)
      = 258 + (if ChannelCount settings = 0 then 0 else 8 + 12 * unat (ChannelCount settings))"
    using client_network_bytes_length [OF assms(3-5)]
    by (simp add: client_data_bytes_def client_cluster_bytes_def client_security_bytes_def Let_def)
  then show ?thesis
    using mcs_send_connect_initial_cases [OF assms(1-3) refl refl, of lib] by auto
qed

definition channel_settings :: "nat \<Rightarrow> gccSettings" where
  "channel_settings n = (freerdp_settings_new False [])
     \<lparr>ChannelCount := word_of_nat n, ChannelDefArray := replicate 32 (replicate 8 0x61, 0)\<rparr>"

theorem mcs_send_connect_initial_channel_limit_witness:
  "fst (mcs_send_connect_initial good_env plain_library (fresh_mcs, channel_settings 21)) = Crashed"
proof -
  let ?st = "channel_settings 21"
  have st: "ChannelCount ?st = 21" "ChannelDefArray ?st = replicate 32 (replicate 8 0x61, 0)"
    "MonitorCount ?st = 0" "set_NegotiationFlags ?st = 0" "\<not> ForceMultimon ?st"
    by (simp_all add: channel_settings_def freerdp_settings_new_def)
  have "\<exists>m. mcs_initialize_client_channels 21 (replicate 32 (replicate 8 0x61, 0)) fresh_mcs = Some m"
    by (simp add: mcs_initialize_client_channels_def fresh_mcs_def mcs_new_def)
  moreover have "channelMaxCount fresh_mcs = 30" by (simp add: fresh_mcs_def mcs_new_def)
  ultimately show ?thesis
    using mcs_send_connect_initial_channel_limit [of good_env ?st fresh_mcs _ plain_library] by (auto simp: st)
qed

subsection \<open>What the server makes of the client's blocks\<close>

definition core_seen :: "library \<Rightarrow> gccSettings \<Rightarrow> gccSettings \<Rightarrow> gccSettings" where
  \<comment> \<open>The settings of the server after the core block of a client with settings \<open>c\<close>.\<close>
  "core_seen lib c srv =
     (let c = gcc_connection_type c; early = gcc_early_capability_flags c;
          depth = (if ColorDepth c = 32 then 32 else ucast (ucast (min (ColorDepth c) 24) :: u16));
          name = (\<lambda>str k. ConvertFromUnicode lib (wide_field lib str k))
      in srv\<lparr>RdpVersion := (if RdpVersion c \<ge> 5 then 7 else 4),
         DesktopWidth := ucast (ucast (DesktopWidth c) :: u16), DesktopHeight := ucast (ucast (DesktopHeight c) :: u16),
         ColorDepth := (if depth < ColorDepth srv \<or> \<not> ServerMode srv then depth else ColorDepth srv),
         ConnectionType := ucast (ucast (ConnectionType c) :: u8),
         ClientBuild := ClientBuild c, ClientHostname := take 30 (name (ClientHostname c) 16),
         ClientProductId := take 31 (name (ClientProductId c) 32), EarlyCapabilityFlags := ucast early,
         NetworkAutoDetect := (NetworkAutoDetect srv \<and> NetworkAutoDetect c),
         SupportErrorInfoPdu := True,
         SupportDynamicTimeZone := (SupportDynamicTimeZone srv \<and> SupportDynamicTimeZone c),
         SupportHeartbeatPdu := (SupportHeartbeatPdu srv \<and> SupportHeartbeatPdu c),
         DesktopPhysicalWidth := DesktopPhysicalWidth c, DesktopPhysicalHeight := DesktopPhysicalHeight c,
         DesktopOrientation := DesktopOrientation c, DesktopScaleFactor := DesktopScaleFactor c,
         DeviceScaleFactor := DeviceScaleFactor c, KeyboardLayout := KeyboardLayout c,
         KeyboardType := KeyboardType c, KeyboardSubType := KeyboardSubType c,
         KeyboardFunctionKey := KeyboardFunctionKey c\<rparr>)"

lemma flag_test:
  fixes w :: "'a::len word"
  assumes "n < LENGTH('a)"
  shows "(w AND 2 ^ n = 0) = (\<not> bit w n)"
proof -
  have "bit (w AND 2 ^ n) k = (k = n \<and> bit w n)" for k
    using assms by (auto simp: bit_simps bit_pow2_word)
  then show ?thesis
    by (metis (full_types) bit_0_eq bit_word_eqI bot_apply bot_bool_def)
qed

lemma bit_if_flag: "bit (if c then x else (0 :: 'a::len word)) n = (c \<and> bit x n)"
  by simp

lemma bit_flags:
  "bit (0x0002 :: u16) n = (n = 1)" "bit (0x0020 :: u16) n = (n = 5)" "bit (0x0080 :: u16) n = (n = 7)"
  "bit (0x0100 :: u16) n = (n = 8)" "bit (0x0200 :: u16) n = (n = 9)" "bit (0x0400 :: u16) n = (n = 10)"
  using bit_pow2_word [where 'a = 16 and m = 1 and n = n] bit_pow2_word [where 'a = 16 and m = 5 and n = n]
    bit_pow2_word [where 'a = 16 and m = 7 and n = n] bit_pow2_word [where 'a = 16 and m = 8 and n = n]
    bit_pow2_word [where 'a = 16 and m = 9 and n = n] bit_pow2_word [where 'a = 16 and m = 10 and n = n]
  by simp_all

lemma early_flag_bits:
  "bit (gcc_early_capability_flags c) n =
    (n = 0 \<or> n = 8 \<or> n = 5 \<and> (ucast (ConnectionType c) :: u8) \<noteq> 0 \<or> n = 1 \<and> ColorDepth c = 32 \<or>
     n = 7 \<and> NetworkAutoDetect c \<or> n = 10 \<and> SupportHeartbeatPdu c \<or> n = 9 \<and> SupportDynamicTimeZone c)"
  unfolding gcc_early_capability_flags_def bit_or_iff bit_if_flag bit_flags bit_1_iff One_nat_def by blast

lemmas early_flag_test =
  flag_test [where 'a = 16 and n = 0, simplified] flag_test [where 'a = 16 and n = 1, simplified]
  flag_test [where 'a = 16 and n = 5, simplified] flag_test [where 'a = 16 and n = 7, simplified]
  flag_test [where 'a = 16 and n = 8, simplified] flag_test [where 'a = 16 and n = 9, simplified]
  flag_test [where 'a = 16 and n = 10, simplified]

lemma early_flags:
  "gcc_early_capability_flags c AND 0x0001 \<noteq> 0"
  "(gcc_early_capability_flags c AND 0x0002 \<noteq> 0) = (ColorDepth c = 32)"
  "(gcc_early_capability_flags c AND 0x0020 = 0) = ((ucast (ConnectionType c) :: u8) = 0)"
  "(gcc_early_capability_flags c AND 0x0080 \<noteq> 0) = NetworkAutoDetect c"
  "gcc_early_capability_flags c AND 0x0100 \<noteq> 0"
  "(gcc_early_capability_flags c AND 0x0200 \<noteq> 0) = SupportDynamicTimeZone c"
  "(gcc_early_capability_flags c AND 0x0400 \<noteq> 0) = SupportHeartbeatPdu c"
  by (simp_all add: early_flag_test early_flag_bits del: bit_0)

lemma core_optional_read:
  assumes "swf s"
    "avail s = le16 a @ le16 b @ le32 c @ le16 d @ le16 e @ le16 early @ name @ [ct, z] @ le32 prot @ le32 pw @ le32 ph @
       le16 ori @ le32 dsf @ le32 dev @ r"
    "length name = 64"
  shows "gcc_read_client_core_optional lib s st 102 =
    (if set_SelectedProtocol st \<noteq> prot then Fail (Stream_Seek s 102)
     else Ok \<lparr>cf_settings = st\<lparr>EarlyCapabilityFlags := ucast early, ClientProductId := take 31 (ConvertFromUnicode lib name),
             DesktopPhysicalWidth := pw, DesktopPhysicalHeight := ph, DesktopOrientation := ori,
             DesktopScaleFactor := dsf, DeviceScaleFactor := dev\<rparr>,
           cf_postBeta2ColorDepth = a, cf_highColorDepth = d, cf_earlyCapabilityFlags = early, cf_connectionType = ct\<rparr>
         (Stream_Seek s 102))"
  using assms unfolding gcc_read_client_core_optional_def Let_def
  by (simp add: read_now)

lemma core_depth:
  assumes "ColorDepth c \<noteq> 0" "cf_highColorDepth f = ucast (min (ColorDepth c) 24)"
    "cf_earlyCapabilityFlags f = gcc_early_capability_flags c"
  shows "gcc_client_color_depth d f =
    Some (if ColorDepth c = 32 then 32 else ucast (ucast (min (ColorDepth c) 24) :: u16))"
proof -
  have "min (ColorDepth c) 24 \<noteq> 0" "min (ColorDepth c) 24 \<le> 0xFFFF"
    using assms(1) by (auto simp: min_def word_le_nat_alt)
  then have "(ucast (min (ColorDepth c) 24) :: u16) \<noteq> 0"
    by (metis ucast_ucast_small(2) unsigned_0)
  then show ?thesis
    using assms(2,3) early_flags(2) [of c] by (simp add: gcc_client_color_depth_def word_neq_0_conv)
qed

lemma update_if_set:
  "(if NetworkAutoDetect st then st\<lparr>NetworkAutoDetect := b\<rparr> else st) = st\<lparr>NetworkAutoDetect := (NetworkAutoDetect st \<and> b)\<rparr>"
  "(if SupportHeartbeatPdu st then st\<lparr>SupportHeartbeatPdu := b\<rparr> else st) = st\<lparr>SupportHeartbeatPdu := (SupportHeartbeatPdu st \<and> b)\<rparr>"
  "(if SupportGraphicsPipeline st then st\<lparr>SupportGraphicsPipeline := True\<rparr> else st) = st"
  "(if SupportDynamicTimeZone st then st\<lparr>SupportDynamicTimeZone := b\<rparr> else st) = st\<lparr>SupportDynamicTimeZone := (SupportDynamicTimeZone st \<and> b)\<rparr>"
  "(if p then st\<lparr>ColorDepth := d\<rparr> else st) = st\<lparr>ColorDepth := (if p then d else ColorDepth st)\<rparr>"
  by (cases st; simp)+

lemma core_apply_seen:
  assumes "cf_settings f = st" "cf_earlyCapabilityFlags f = gcc_early_capability_flags c"
    "cf_connectionType f = ucast (ConnectionType c)"
  shows "gcc_client_core_apply f depth = st
    \<lparr>ColorDepth := (if depth < ColorDepth st \<or> \<not> ServerMode st then depth else ColorDepth st),
     NetworkAutoDetect := (NetworkAutoDetect st \<and> NetworkAutoDetect c),
     SupportHeartbeatPdu := (SupportHeartbeatPdu st \<and> SupportHeartbeatPdu c),
     SupportDynamicTimeZone := (SupportDynamicTimeZone st \<and> SupportDynamicTimeZone c),
     SupportErrorInfoPdu := True, ConnectionType := ucast (ucast (ConnectionType c) :: u8)\<rparr>"
proof -
  have ct: "(if gcc_early_capability_flags c AND 0x0020 = 0 then 0 else ucast (ConnectionType c)) = (ucast (ConnectionType c) :: u8)"
    by (simp add: early_flags)
  have t: "(gcc_early_capability_flags c AND 0x0001 \<noteq> 0) = True" "(gcc_early_capability_flags c AND 0x0100 \<noteq> 0) = True"
    by (simp_all add: early_flags)
  show ?thesis
    unfolding gcc_client_core_apply_def Let_def assms ct t early_flags(2,4,6,7) update_if_set by simp
qed

lemma gcc_read_client_core_data_seen:
  assumes "swf s" "avail s = drop 4 (client_core_bytes lib c) @ r" "ColorDepth c \<noteq> 0"
    "set_SelectedProtocol srv = set_SelectedProtocol c"
  shows "gcc_read_client_core_data lib s srv 230 = Ok (core_seen lib c srv) (Stream_Seek s 230)"
proof -
  let ?t = "Stream_Seek s 128"
  define st where "st = srv\<lparr>RdpVersion := (if RdpVersion c \<ge> 5 then 7 else 4),
                 DesktopWidth := ucast (ucast (DesktopWidth c) :: u16), DesktopHeight := ucast (ucast (DesktopHeight c) :: u16),
                 KeyboardLayout := KeyboardLayout c, ClientBuild := ClientBuild c,
                 ClientHostname := take 30 (ConvertFromUnicode lib (wide_field lib (ClientHostname c) 16)),
                 KeyboardType := KeyboardType c, KeyboardSubType := KeyboardSubType c,
                 KeyboardFunctionKey := KeyboardFunctionKey c\<rparr>"
  have t: "swf ?t" using assms(1,2) by simp
  let ?f = "\<lparr>cf_settings = st\<lparr>EarlyCapabilityFlags := ucast (gcc_early_capability_flags (gcc_connection_type c)),
             ClientProductId := take 31 (ConvertFromUnicode lib (wide_field lib (ClientProductId c) 32)),
             DesktopPhysicalWidth := DesktopPhysicalWidth c, DesktopPhysicalHeight := DesktopPhysicalHeight c,
             DesktopOrientation := DesktopOrientation c,
             DesktopScaleFactor := DesktopScaleFactor c, DeviceScaleFactor := DeviceScaleFactor c\<rparr>,
           cf_postBeta2ColorDepth = 0xCA01, cf_highColorDepth = ucast (min (ColorDepth c) 24),
           cf_earlyCapabilityFlags = gcc_early_capability_flags (gcc_connection_type c),
           cf_connectionType = ucast (ConnectionType (gcc_connection_type c))\<rparr>"
  have av: "avail ?t = le16 0xCA01 @ le16 1 @ le32 0 @ le16 (ucast (min (ColorDepth c) 24)) @
      le16 (0x0007 OR (if ColorDepth c = 32 then 0x0008 else 0)) @
      le16 (gcc_early_capability_flags (gcc_connection_type c)) @ wide_field lib (ClientProductId c) 32 @
      [ucast (ConnectionType (gcc_connection_type c)), 0] @ le32 (set_SelectedProtocol c) @
      le32 (DesktopPhysicalWidth c) @ le32 (DesktopPhysicalHeight c) @ le16 (DesktopOrientation c) @
      le32 (DesktopScaleFactor c) @ le32 (DeviceScaleFactor c) @ r"
    by (simp add: assms(2) client_core_bytes_def Let_def)
  have opt: "gcc_read_client_core_optional lib ?t st 102 = Ok ?f (Stream_Seek s 230)"
    using core_optional_read [OF t av, of lib st] assms(4) by (simp add: st_def)
  have "gcc_read_client_core_data lib s srv 230 =
      andthen (gcc_read_client_core_optional lib ?t st 102) (\<lambda>f s.
        case gcc_client_color_depth 0xCA01 f of None \<Rightarrow> Fail s | Some depth \<Rightarrow> Ok (gcc_client_core_apply f depth) s)"
    unfolding gcc_read_client_core_data_def
    by (simp add: assms(2) client_core_bytes_def Let_def read_now st_def)
  also have "\<dots> = Ok (gcc_client_core_apply ?f
      (if ColorDepth c = 32 then 32 else ucast (ucast (min (ColorDepth c) 24) :: u16))) (Stream_Seek s 230)"
    using core_depth [of "gcc_connection_type c" ?f] assms(3) by (simp add: opt)
  also have "gcc_client_core_apply ?f
      (if ColorDepth c = 32 then 32 else ucast (ucast (min (ColorDepth c) 24) :: u16)) = core_seen lib c srv"
    by (subst core_apply_seen [OF refl, where c = "gcc_connection_type c"])
      (simp_all add: core_seen_def Let_def st_def)
  finally show ?thesis .
qed

definition cluster_seen :: "gccSettings \<Rightarrow> gccSettings \<Rightarrow> gccSettings" where
  "cluster_seen c srv =
     (if ConsoleSession c \<or> RedirectedSessionId c \<noteq> 0
      then srv\<lparr>RedirectedSessionId := RedirectedSessionId c\<rparr> else srv)"

definition security_seen :: "gccSettings \<Rightarrow> gccSettings \<Rightarrow> gccSettings" where
  "security_seen c srv =
     (if UseRdpSecurityLayer srv then srv\<lparr>EncryptionMethods := EncryptionMethods c\<rparr> else srv)"

lemma gcc_read_client_small_blocks_seen:
  assumes "swf s"
  shows "avail s = drop 4 (client_cluster_bytes c) @ r \<Longrightarrow>
      gcc_read_client_cluster_data s srv 8 = Ok (cluster_seen c srv) (Stream_Seek s 8)"
    and "avail s = drop 4 (client_security_bytes c) @ r \<Longrightarrow>
      gcc_read_client_security_data s srv 8 = Ok (security_seen c srv) (Stream_Seek s 8)"
  using assms
  by (auto simp: gcc_read_client_cluster_data_def gcc_read_client_security_data_def read_now cluster_seen_def
      security_seen_def client_cluster_bytes_def client_security_bytes_def Let_def)

text \<open>The channels: the server keeps the names and options in order and gives each a channel id of its own.\<close>

fun channels_seen :: "nat \<Rightarrow> rdpMcsChannel list \<Rightarrow> rdpMcs \<Rightarrow> rdpMcs" where
  "channels_seen i [] srv = srv"
| "channels_seen i (c # cs) srv =
     channels_seen (i + 1) cs
       (srv\<lparr>channels := (channels srv)[i := (channels srv ! i)
               \<lparr>ch_Name := ch_Name c, ch_options := ch_options c, ChannelId := uint (baseChannelId srv)\<rparr>],
            baseChannelId := baseChannelId srv + 1\<rparr>)"

lemma read_channel_defs_seen:
  assumes "swf s" "avail s = concat (map channel_def_bytes cs) @ r" "\<forall>c \<in> set cs. length (ch_Name c) = 8"
    "i + length cs \<le> length (channels srv)"
  shows "read_channel_defs (length cs) i srv s = Ok (channels_seen i cs srv) (Stream_Seek s (12 * length cs))"
  using assms
proof (induction cs arbitrary: i srv s)
  case (Cons c cs)
  let ?srv = "srv\<lparr>channels := (channels srv)[i := (channels srv ! i)
               \<lparr>ch_Name := ch_Name c, ch_options := ch_options c, ChannelId := uint (baseChannelId srv)\<rparr>],
            baseChannelId := baseChannelId srv + 1\<rparr>"
  have a: "avail s = ch_Name c @ le32 (ch_options c) @ concat (map channel_def_bytes cs) @ r" "length (ch_Name c) = 8"
    using Cons.prems by (simp_all add: channel_def_bytes_def [of c])
  then have "read_channel_defs (length (c # cs)) i srv s = read_channel_defs (length cs) (i + 1) ?srv (Stream_Seek s 12)"
    using Cons.prems(4) by (simp add: read_now)
  moreover have "avail (Stream_Seek s 12) = concat (map channel_def_bytes cs) @ r" "swf (Stream_Seek s 12)"
    using a Cons.prems(1) by simp_all
  ultimately show ?case
    using Cons.IH [of "Stream_Seek s 12" "i + 1" ?srv] Cons.prems(3,4) by (simp del: read_channel_defs.simps)
qed simp

lemma channels_seen_sel:
  assumes "i + length cs \<le> length (channels srv)"
  shows "channelCount (channels_seen i cs srv) = channelCount srv"
    and "baseChannelId (channels_seen i cs srv) = baseChannelId srv + word_of_nat (length cs)"
    and "length (channels (channels_seen i cs srv)) = length (channels srv)"
    and "j < i \<Longrightarrow> channels (channels_seen i cs srv) ! j = channels srv ! j"
  using assms by (induction cs arbitrary: i srv) (simp_all add: add.assoc)

lemma channels_seen_nth:
  assumes "i + length cs \<le> length (channels srv)" "j < length cs"
  shows "ch_Name (channels (channels_seen i cs srv) ! (i + j)) = ch_Name (cs ! j) \<and>
    ch_options (channels (channels_seen i cs srv) ! (i + j)) = ch_options (cs ! j) \<and>
    ChannelId (channels (channels_seen i cs srv) ! (i + j)) = uint (baseChannelId srv + word_of_nat j)"
  using assms
proof (induction cs arbitrary: i j srv)
  case (Cons c cs)
  let ?srv = "srv\<lparr>channels := (channels srv)[i := (channels srv ! i)
               \<lparr>ch_Name := ch_Name c, ch_options := ch_options c, ChannelId := uint (baseChannelId srv)\<rparr>],
            baseChannelId := baseChannelId srv + 1\<rparr>"
  show ?case
  proof (cases j)
    case 0
    with Cons.prems channels_seen_sel(4) [of "Suc i" cs ?srv i] show ?thesis by simp
  next
    case (Suc k)
    with Cons.IH [of "Suc i" ?srv k] Cons.prems show ?thesis by (simp add: add.assoc)
  qed
qed simp

lemma gcc_read_client_network_data_seen:
  assumes "swf s" "channels_ok mcs" "channelCount mcs \<le> 16" "16 \<le> length (channels srv)"
    "\<forall>c \<in> set (channels mcs). length (ch_Name c) = 8"
    "avail s = le32 (channelCount mcs) @ concat (map channel_def_bytes (take (unat (channelCount mcs)) (channels mcs))) @ r"
  shows "gcc_read_client_network_data s srv (4 + 12 * unat (channelCount mcs)) =
    Ok (channels_seen 0 (take (unat (channelCount mcs)) (channels mcs)) (srv\<lparr>channelCount := channelCount mcs\<rparr>))
      (Stream_Seek s (4 + 12 * unat (channelCount mcs)))"
proof -
  let ?n = "channelCount mcs" and ?cs = "take (unat (channelCount mcs)) (channels mcs)"
  let ?srv = "srv\<lparr>channelCount := ?n\<rparr>"
  have n: "unat ?n \<le> 16" using assms(3) by (simp add: word_le_nat_alt)
  have len: "length ?cs = unat ?n" using assms(2) by (simp add: channels_ok_def)
  have wrap: "unat (4 + ?n * 12) = 4 + 12 * unat ?n" using n by (simp add: unat_word_ariths)
  have "read_channel_defs (length ?cs) 0 ?srv (Stream_Seek s 4)
      = Ok (channels_seen 0 ?cs ?srv) (Stream_Seek (Stream_Seek s 4) (12 * length ?cs))"
    using assms n len by (intro read_channel_defs_seen [where r = r]) (auto dest: in_set_takeD)
  then show ?thesis
    using assms(3,6) unfolding gcc_read_client_network_data_def len
    by (simp add: read_now wrap not_less)
qed

text \<open>The monitors.\<close>

definition monitor_seen :: "rdpMonitor \<Rightarrow> rdpMonitor \<Rightarrow> rdpMonitor" where
  "monitor_seen m old = old\<lparr>mon_x := mon_x m, mon_y := mon_y m, mon_width := mon_width m, mon_height := mon_height m,
     is_primary := (if is_primary m \<noteq> 0 then 1 else 0)\<rparr>"

definition attributes_seen :: "rdpMonitor \<Rightarrow> rdpMonitor \<Rightarrow> rdpMonitor" where
  "attributes_seen m old = old\<lparr>attributes := attributes m\<rparr>"

fun update_from :: "('a \<Rightarrow> 'b \<Rightarrow> 'b) \<Rightarrow> nat \<Rightarrow> 'a list \<Rightarrow> 'b list \<Rightarrow> 'b list" where
  "update_from f i [] ys = ys"
| "update_from f i (x # xs) ys = update_from f (i + 1) xs (ys[i := f x (ys ! i)])"

lemma length_update_from [simp]: "length (update_from f i xs ys) = length ys"
  by (induction xs arbitrary: i ys) simp_all

lemma update_from_nth_before: "j < i \<Longrightarrow> update_from f i xs ys ! j = ys ! j"
  by (induction xs arbitrary: i ys) simp_all

lemma update_from_nth:
  "i + length xs \<le> length ys \<Longrightarrow> j < length xs \<Longrightarrow> update_from f i xs ys ! (i + j) = f (xs ! j) (ys ! (i + j))"
proof (induction xs arbitrary: i j ys)
  case (Cons x xs)
  show ?case
  proof (cases j)
    case 0
    with Cons.prems update_from_nth_before [of i "Suc i" f xs "ys[i := f x (ys ! i)]"] show ?thesis by simp
  next
    case (Suc k)
    with Cons.IH [of "Suc i" "ys[i := f x (ys ! i)]" k] Cons.prems show ?thesis by simp
  qed
qed simp

lemma read_monitor_defs_seen:
  assumes "avail s = concat (map monitor_def_bytes ms) @ r" "i + length ms \<le> length old"
  shows "read_monitor_defs (length ms) i old s = Ok (update_from monitor_seen i ms old) (Stream_Seek s (20 * length ms))"
  using assms
proof (induction ms arbitrary: i old s)
  case (Cons m ms)
  have "((if is_primary m \<noteq> 0 then 1 else 0) AND 1) = (if is_primary m \<noteq> 0 then 1 else (0 :: u32))" by simp
  then have "read_monitor_defs (length (m # ms)) i old s
      = read_monitor_defs (length ms) (i + 1) (old[i := monitor_seen m (old ! i)]) (Stream_Seek s 20)"
    using Cons.prems by (simp add: read_now monitor_def_bytes_def [of m] monitor_seen_def del: and_one_eq)
  with Cons.IH [of "Stream_Seek s 20" "i + 1" "old[i := monitor_seen m (old ! i)]"] Cons.prems show ?case
    by (simp add: monitor_def_bytes_def [of m])
qed simp

lemma attributes_eta:
  "\<lparr>physicalWidth = physicalWidth a, physicalHeight = physicalHeight a, orientation = orientation a,
    desktopScaleFactor = desktopScaleFactor a, deviceScaleFactor = deviceScaleFactor a\<rparr> = a"
  by simp

lemma read_monitor_attributes_seen:
  assumes "avail s = concat (map monitor_attribute_bytes ms) @ r" "i + length ms \<le> length old"
  shows "read_monitor_attributes (length ms) i old s
    = Ok (update_from attributes_seen i ms old) (Stream_Seek s (20 * length ms))"
  using assms
proof (induction ms arbitrary: i old s)
  case (Cons m ms)
  have "read_monitor_attributes (length (m # ms)) i old s
      = read_monitor_attributes (length ms) (i + 1) (old[i := attributes_seen m (old ! i)]) (Stream_Seek s 20)"
    using Cons.prems by (simp add: read_now monitor_attribute_bytes_def [of m] attributes_seen_def
        attributes_eta)
  with Cons.IH [of "Stream_Seek s 20" "i + 1" "old[i := attributes_seen m (old ! i)]"] Cons.prems show ?case
    by (simp add: monitor_attribute_bytes_def [of m])
qed simp

text \<open>Sequences of blocks: what a reader of one block makes of each, one after the other.\<close>

definition block_bytes :: "u16 \<times> bytes \<Rightarrow> bytes" where
  "block_bytes b = le16 (fst b) @ le16 (word_of_nat (4 + length (snd b))) @ snd b"

definition reads_block :: "library \<Rightarrow> gcc \<Rightarrow> u16 \<times> bytes \<Rightarrow> gcc \<Rightarrow> bool" where
  "reads_block lib st = (\<lambda>(type, body) st'. 4 + length body < 65536 \<and>
     (\<forall>s r. swf s \<and> avail s = body @ r \<longrightarrow>
        gcc_read_client_block lib type s st (length body) = Ok st' (Stream_Seek s (length body))))"

fun reads_blocks :: "library \<Rightarrow> gcc \<Rightarrow> (u16 \<times> bytes) list \<Rightarrow> gcc \<Rightarrow> bool" where
  "reads_blocks lib st [] st' \<longleftrightarrow> st = st'"
| "reads_blocks lib st (b # bs) st' \<longleftrightarrow> (\<exists>st1. reads_block lib st b st1 \<and> reads_blocks lib st1 bs st')"

lemma reads_blocks_append:
  "reads_blocks lib st xs st1 \<Longrightarrow> reads_blocks lib st1 ys st2 \<Longrightarrow> reads_blocks lib st (xs @ ys) st2"
  by (induction xs arbitrary: st) auto

lemma client_blocks_reads:
  assumes "reads_blocks lib st bs st'" "swf s" "avail s = concat (map block_bytes bs) @ r" "length bs \<le> fuel"
  shows "client_blocks fuel lib s st (int (length (concat (map block_bytes bs))))
    = Some (Ok st' (Stream_Seek s (length (concat (map block_bytes bs)))))"
  using assms
proof (induction bs arbitrary: st s fuel)
  case Nil
  then show ?case by (simp add: client_blocks.simps)
next
  case (Cons b bs)
  obtain type body where b: "b = (type, body)" by (cases b)
  from Cons.prems(1) b obtain st1 where st1: "reads_block lib st (type, body) st1" "reads_blocks lib st1 bs st'"
    by auto
  let ?rest = "concat (map block_bytes bs)" and ?n = "4 + length body" and ?t = "Stream_Seek s 4"
  have n: "unat (word_of_nat ?n :: u16) = ?n"
    using st1(1) by (simp add: reads_block_def unsigned_of_nat take_bit_nat_eq_self del: of_nat_add)
  have a: "avail s = le16 type @ le16 (word_of_nat ?n) @ body @ ?rest @ r"
    using Cons.prems(3) by (simp add: b block_bytes_def [of "(type, body)"])
  obtain fuel' where fuel: "fuel = Suc fuel'" using Cons.prems(4) by (cases fuel) auto
  have t: "swf ?t" "avail ?t = body @ ?rest @ r" using a Cons.prems(2) by simp_all
  then have block: "gcc_read_client_block lib type ?t st (length body) = Ok st1 (Stream_Seek s ?n)"
    using st1(1) by (auto simp: reads_block_def)
  have "gcc_read_user_data_header s = Ok (type, word_of_nat ?n) ?t"
    using Cons.prems(2) a n by (simp add: gcc_header_swf del: of_nat_add)
  moreover have "uint (word_of_nat ?n :: u16) = int ?n" using n by (metis uint_nat)
  moreover have "Stream_SetPosition (Stream_Seek s ?n) (s_pos s + ?n) = Stream_Seek s ?n"
    by (simp add: Stream_SetPosition_def Stream_Seek_def)
  ultimately have step: "client_blocks fuel lib s st (int ?n + int k)
      = client_blocks fuel' lib (Stream_Seek s ?n) st1 (int k)" for k
    using n t block
    by (simp add: client_blocks.simps [of "Suc fuel'"] fuel size_of_int_short del: of_nat_add)
  have "client_blocks fuel' lib (Stream_Seek s ?n) st1 (int (length ?rest)) =
      Some (Ok st' (Stream_Seek (Stream_Seek s ?n) (length ?rest)))"
    using Cons.prems(2,4) a st1(2) by (intro Cons.IH) (simp_all add: fuel)
  with step [of "length ?rest"] show ?case by (simp add: b block_bytes_def [of "(type, body)"] add.assoc)
qed

text \<open>The blocks of a client, in order, and the state of the server after them.\<close>

definition monitor_blocks :: "gccSettings \<Rightarrow> (u16 \<times> bytes) list" where
  "monitor_blocks c =
     (if MonitorCount c > 1 then [(CS_MONITOR, drop 4 (client_monitor_bytes c))] else []) @
     (if HasMonitorAttributes c then [(CS_MONITOR_EX, drop 4 (client_monitor_extended_bytes c))] else [])"

definition extended_blocks :: "gccSettings \<Rightarrow> (u16 \<times> bytes) list" where
  "extended_blocks c =
     (if set_NegotiationFlags c AND 1 \<noteq> 0 then
        (if UseMultimon c \<and> \<not> SpanMonitors c then monitor_blocks c else []) @
        (if NetworkAutoDetect c \<or> SupportHeartbeatPdu c \<or> SupportMultitransport c
         then [(CS_MCS_MSGCHANNEL, le32 0)] else []) @
        (if MultitransportFlags c \<noteq> 0 then [(CS_MULTITRANSPORT, le32 (MultitransportFlags c))] else [])
      else if (UseMultimon c \<and> \<not> SpanMonitors c) \<and> ForceMultimon c then monitor_blocks c else [])"

definition client_block_list :: "library \<Rightarrow> rdpMcs \<Rightarrow> gccSettings \<Rightarrow> (u16 \<times> bytes) list" where
  "client_block_list lib mcs c =
     [(CS_CORE, drop 4 (client_core_bytes lib c)), (CS_CLUSTER, drop 4 (client_cluster_bytes c)),
      (CS_SECURITY, drop 4 (client_security_bytes c))] @
     (if channelCount mcs > 0 then [(CS_NET, drop 4 (client_network_bytes mcs))] else []) @
     extended_blocks (gcc_connection_type c)"

definition monitors_seen :: "gccSettings \<Rightarrow> gcc \<Rightarrow> gcc" where
  "monitors_seen c = (\<lambda>(smcs, srv).
     let ms = take (nat (MonitorCount c)) (MonitorDefArray c);
         srv = (if MonitorCount c > 1 then
           srv\<lparr>MonitorCount := MonitorCount c, MonitorDefArray := update_from monitor_seen 0 ms (MonitorDefArray srv)\<rparr> else srv);
         srv = (if HasMonitorAttributes c then
           srv\<lparr>MonitorDefArray := update_from attributes_seen 0 ms (MonitorDefArray srv), HasMonitorAttributes := True\<rparr> else srv)
     in (smcs, srv))"

definition message_channel_seen :: "gccSettings \<Rightarrow> gcc \<Rightarrow> gcc" where
  "message_channel_seen c = (\<lambda>(smcs, srv).
     if NetworkAutoDetect c \<or> SupportHeartbeatPdu c \<or> SupportMultitransport c
     then (smcs\<lparr>messageChannelId := baseChannelId smcs, baseChannelId := baseChannelId smcs + 1\<rparr>, srv)
     else (smcs, srv))"

definition extended_seen :: "gccSettings \<Rightarrow> gcc \<Rightarrow> gcc" where
  "extended_seen c st =
     (let multimon = UseMultimon c \<and> \<not> SpanMonitors c
      in if set_NegotiationFlags c AND 1 \<noteq> 0 then
           message_channel_seen c (if multimon then monitors_seen c st else st)
         else if multimon \<and> ForceMultimon c then monitors_seen c st else st)"

definition client_seen :: "library \<Rightarrow> gcc \<Rightarrow> gcc \<Rightarrow> gcc" where
  "client_seen lib = (\<lambda>(mcs, c) (smcs, srv).
     extended_seen c
       (if channelCount mcs > 0
        then channels_seen 0 (take (unat (channelCount mcs)) (channels mcs)) (smcs\<lparr>channelCount := channelCount mcs\<rparr>)
        else smcs,
        security_seen c (cluster_seen c (core_seen lib c srv))))"

lemma reads_block_settings:
  assumes "4 + length body < 65536"
    "\<And>s r. swf s \<Longrightarrow> avail s = body @ r \<Longrightarrow> gcc_read_client_block lib type s st (length body) = Ok st' (Stream_Seek s (length body))"
  shows "reads_block lib st (type, body) st'"
  using assms by (auto simp: reads_block_def)

lemma reads_core:
  assumes "ColorDepth c \<noteq> 0" "set_SelectedProtocol srv = set_SelectedProtocol c"
  shows "reads_blocks lib (smcs, srv)
    [(CS_CORE, drop 4 (client_core_bytes lib c)), (CS_CLUSTER, drop 4 (client_cluster_bytes c)),
     (CS_SECURITY, drop 4 (client_security_bytes c))] (smcs, security_seen c (cluster_seen c (core_seen lib c srv)))"
proof -
  have l: "length (client_cluster_bytes c) = 12" "length (client_security_bytes c) = 12"
    by (simp_all add: client_cluster_bytes_def client_security_bytes_def)
  have "reads_block lib (smcs, srv) (CS_CORE, drop 4 (client_core_bytes lib c)) (smcs, core_seen lib c srv)"
    using gcc_read_client_core_data_seen [OF _ _ assms]
    by (intro reads_block_settings) (simp_all add: gcc_read_client_block_def)
  moreover have "reads_block lib (smcs, st) (CS_CLUSTER, drop 4 (client_cluster_bytes c)) (smcs, cluster_seen c st)"
    "reads_block lib (smcs, st) (CS_SECURITY, drop 4 (client_security_bytes c)) (smcs, security_seen c st)" for st
    using gcc_read_client_small_blocks_seen [where c = c and srv = st]
    by (intro reads_block_settings; simp add: gcc_read_client_block_def l)+
  ultimately show ?thesis unfolding reads_blocks.simps by blast
qed

lemma length_channel_def_bytes:
  "\<forall>c \<in> set cs. length (ch_Name c) = 8 \<Longrightarrow> length (concat (map channel_def_bytes cs)) = 12 * length cs"
  by (induction cs) (simp_all add: channel_def_bytes_def)

lemma reads_network:
  assumes "channels_ok mcs" "channelCount mcs \<le> 16" "16 \<le> length (channels smcs)"
    "\<forall>c \<in> set (channels mcs). length (ch_Name c) = 8" "channelCount mcs > 0"
  shows "reads_block lib (smcs, srv) (CS_NET, drop 4 (client_network_bytes mcs))
    (channels_seen 0 (take (unat (channelCount mcs)) (channels mcs)) (smcs\<lparr>channelCount := channelCount mcs\<rparr>), srv)"
proof -
  let ?n = "unat (channelCount mcs)" and ?cs = "take (unat (channelCount mcs)) (channels mcs)"
  have n: "?n \<le> 16" using assms(2) by (simp add: word_le_nat_alt)
  have l: "length (concat (map channel_def_bytes ?cs)) = 12 * ?n"
    using assms(1,4) length_channel_def_bytes [of ?cs] by (auto simp: channels_ok_def dest: in_set_takeD)
  have d: "drop 4 (client_network_bytes mcs) = le32 (channelCount mcs) @ concat (map channel_def_bytes ?cs)"
    "length (drop 4 (client_network_bytes mcs)) = 4 + 12 * ?n"
    using assms(5) l by (simp_all add: client_network_bytes_def)
  show ?thesis
  proof (rule reads_block_settings)
    fix s r assume "swf s" "avail s = drop 4 (client_network_bytes mcs) @ r"
    then show "gcc_read_client_block lib CS_NET s (smcs, srv) (length (drop 4 (client_network_bytes mcs))) =
      Ok (channels_seen 0 ?cs (smcs\<lparr>channelCount := channelCount mcs\<rparr>), srv)
        (Stream_Seek s (length (drop 4 (client_network_bytes mcs))))"
      using gcc_read_client_network_data_seen [OF _ assms(1-4), of s r] unfolding d(2)
      by (simp add: gcc_read_client_block_def d(1))
  qed (use n d(2) in simp)
qed

lemma length_monitor_bytes:
  "length (concat (map monitor_def_bytes ms)) = 20 * length ms"
  "length (concat (map monitor_attribute_bytes ms)) = 20 * length ms"
  by (induction ms) (simp_all add: monitor_def_bytes_def monitor_attribute_bytes_def)

definition few_monitors :: "gccSettings \<Rightarrow> gccSettings \<Rightarrow> bool" where
  \<comment> \<open>The arrays of both sides hold the monitors, and attributes come with at least two of them.\<close>
  "few_monitors c srv \<longleftrightarrow> nat (MonitorCount c) \<le> length (MonitorDefArray c) \<and>
     nat (MonitorCount c) \<le> length (MonitorDefArray srv) \<and> MonitorCount c \<le> 3000 \<and>
     (HasMonitorAttributes c \<longrightarrow> MonitorCount c > 1)"

lemma reads_monitor:
  assumes "few_monitors c srv" "MonitorCount c > 1"
  shows "reads_block lib (smcs, srv) (CS_MONITOR, drop 4 (client_monitor_bytes c))
    (smcs, srv\<lparr>MonitorCount := MonitorCount c,
       MonitorDefArray := update_from monitor_seen 0 (take (nat (MonitorCount c)) (MonitorDefArray c)) (MonitorDefArray srv)\<rparr>)"
proof -
  define n where "n = nat (MonitorCount c)"
  let ?ms = "take n (MonitorDefArray c)" and ?old = "MonitorDefArray srv"
  have n: "MonitorCount c = int n" "n \<le> 3000" "length ?ms = n" "n \<le> length ?old"
    using assms by (auto simp: few_monitors_def n_def)
  define u :: u32 where "u = word_of_int (MonitorCount c)"
  have w: "unat u = n" "sint u = int n"
    using n(1,2) by (simp_all add: u_def unsigned_of_nat take_bit_nat_eq_self signed_of_nat signed_take_bit_int_eq_self)
  have d: "drop 4 (client_monitor_bytes c) = le32 0 @ le32 u @ concat (map monitor_def_bytes ?ms)"
    using assms(2) by (simp add: client_monitor_bytes_def n_def u_def)
  have len: "length (concat (map monitor_def_bytes ?ms)) = 20 * n"
    by (simp only: length_monitor_bytes n(3))
  show ?thesis
  proof (rule reads_block_settings)
    fix s r assume s: "swf s" "avail s = drop 4 (client_monitor_bytes c) @ r"
    then have "read_monitor_defs (length ?ms) 0 ?old (Stream_Seek s 8)
        = Ok (update_from monitor_seen 0 ?ms ?old) (Stream_Seek (Stream_Seek s 8) (20 * length ?ms))"
      using n(3,4) by (intro read_monitor_defs_seen [where r = r]) (simp_all add: d)
    then have r: "read_monitor_defs n 0 ?old (Stream_Seek s 8) = Ok (update_from monitor_seen 0 ?ms ?old) (Stream_Seek s (8 + 20 * n))"
      by (simp only: n(3) Stream_Seek_Stream_Seek)
    have "gcc_read_client_monitor_data s srv (8 + 20 * n) =
        Ok (srv\<lparr>MonitorCount := int n, MonitorDefArray := update_from monitor_seen 0 ?ms ?old\<rparr>) (Stream_Seek s (8 + 20 * n))"
      using s(2) w r by (subst gcc_read_client_monitor_data_eq) (simp_all add: d len Let_def)
    then show "gcc_read_client_block lib CS_MONITOR s (smcs, srv) (length (drop 4 (client_monitor_bytes c))) =
        Ok (smcs, srv\<lparr>MonitorCount := MonitorCount c,
          MonitorDefArray := update_from monitor_seen 0 (take (nat (MonitorCount c)) (MonitorDefArray c)) ?old\<rparr>)
          (Stream_Seek s (length (drop 4 (client_monitor_bytes c))))"
      by (simp add: gcc_read_client_block_def d len n(1))
  qed (use n in \<open>simp add: d len\<close>)
qed

lemma reads_monitor_extended:
  assumes "few_monitors c srv" "HasMonitorAttributes c" "MonitorCount srv = MonitorCount c"
  shows "reads_block lib (smcs, srv) (CS_MONITOR_EX, drop 4 (client_monitor_extended_bytes c))
    (smcs, srv\<lparr>MonitorDefArray := update_from attributes_seen 0 (take (nat (MonitorCount c)) (MonitorDefArray c)) (MonitorDefArray srv),
       HasMonitorAttributes := True\<rparr>)"
proof -
  define n where "n = nat (MonitorCount c)"
  let ?ms = "take n (MonitorDefArray c)" and ?old = "MonitorDefArray srv"
  have n: "MonitorCount c = int n" "n \<le> 3000" "length ?ms = n" "n \<le> length ?old"
    using assms by (auto simp: few_monitors_def n_def)
  define u :: u32 where "u = word_of_int (MonitorCount c)"
  have w: "unat u = n"
    using n(1,2) by (simp add: u_def unsigned_of_nat take_bit_nat_eq_self)
  have d: "drop 4 (client_monitor_extended_bytes c) = le32 0 @ le32 20 @ le32 u @ concat (map monitor_attribute_bytes ?ms)"
    using assms(2) by (simp add: client_monitor_extended_bytes_def n_def u_def)
  have len: "length (concat (map monitor_attribute_bytes ?ms)) = 20 * n"
    by (simp only: length_monitor_bytes n(3))
  show ?thesis
  proof (rule reads_block_settings)
    fix s r assume s: "swf s" "avail s = drop 4 (client_monitor_extended_bytes c) @ r"
    then have "read_monitor_attributes (length ?ms) 0 ?old (Stream_Seek s 12)
        = Ok (update_from attributes_seen 0 ?ms ?old) (Stream_Seek (Stream_Seek s 12) (20 * length ?ms))"
      using n(3,4) by (intro read_monitor_attributes_seen [where r = r]) (simp_all add: d)
    then have r: "read_monitor_attributes n 0 ?old (Stream_Seek s 12) = Ok (update_from attributes_seen 0 ?ms ?old) (Stream_Seek s (12 + 20 * n))"
      by (simp only: n(3) Stream_Seek_Stream_Seek)
    have "gcc_read_client_monitor_extended_data s srv (12 + 20 * n) =
        Ok (srv\<lparr>MonitorDefArray := update_from attributes_seen 0 ?ms ?old, HasMonitorAttributes := True\<rparr>) (Stream_Seek s (12 + 20 * n))"
      using s(2) w r assms(3) by (subst gcc_read_client_monitor_extended_data_eq) (simp_all add: d len Let_def flip: u_def)
    then show "gcc_read_client_block lib CS_MONITOR_EX s (smcs, srv) (length (drop 4 (client_monitor_extended_bytes c))) =
        Ok (smcs, srv\<lparr>MonitorDefArray := update_from attributes_seen 0 (take (nat (MonitorCount c)) (MonitorDefArray c)) ?old,
          HasMonitorAttributes := True\<rparr>)
          (Stream_Seek s (length (drop 4 (client_monitor_extended_bytes c))))"
      by (simp add: gcc_read_client_block_def d len n(1))
  qed (use n in \<open>simp add: d len\<close>)
qed

lemma reads_one: "reads_block lib st b st' \<Longrightarrow> reads_blocks lib st [b] st'"
  by (simp del: split_paired_Ex)

lemma reads_two: "reads_block lib st b st1 \<Longrightarrow> reads_block lib st1 b' st2 \<Longrightarrow> reads_blocks lib st [b, b'] st2"
  by (auto simp del: split_paired_Ex)

lemma reads_monitors:
  assumes "few_monitors c srv"
  shows "reads_blocks lib (smcs, srv) (monitor_blocks c) (monitors_seen c (smcs, srv))"
proof (cases "MonitorCount c > 1")
  case True
  let ?srv = "srv\<lparr>MonitorCount := MonitorCount c,
       MonitorDefArray := update_from monitor_seen 0 (take (nat (MonitorCount c)) (MonitorDefArray c)) (MonitorDefArray srv)\<rparr>"
  have "few_monitors c ?srv" using assms by (simp add: few_monitors_def)
  from reads_two [OF reads_monitor [OF assms True] reads_monitor_extended [OF this]]
    reads_one [OF reads_monitor [OF assms True]] True show ?thesis
    unfolding monitor_blocks_def monitors_seen_def Let_def by simp
next
  case False
  with assms show ?thesis by (simp add: few_monitors_def monitor_blocks_def monitors_seen_def Let_def)
qed

lemma reads_message_blocks:
  "reads_block lib (smcs, srv) (CS_MCS_MSGCHANNEL, le32 0)
     (smcs\<lparr>messageChannelId := baseChannelId smcs, baseChannelId := baseChannelId smcs + 1\<rparr>, srv)"
  "reads_block lib st (CS_MULTITRANSPORT, le32 f) st"
  by (cases st; auto intro!: reads_block_settings simp: gcc_read_client_block_def read_now
      gcc_read_client_message_channel_data_def gcc_read_client_multitransport_channel_data_def)+

lemma reads_extended:
  assumes "few_monitors c (snd st)"
  shows "reads_blocks lib st (extended_blocks c) (extended_seen c st)"
proof -
  obtain smcs srv where st: "st = (smcs, srv)" by (cases st)
  note mon = reads_monitors [OF assms, of lib smcs, unfolded st snd_conv]
  have msg: "reads_blocks lib st2 (if NetworkAutoDetect c \<or> SupportHeartbeatPdu c \<or> SupportMultitransport c
         then [(CS_MCS_MSGCHANNEL, le32 0)] else []) (message_channel_seen c st2)" for st2
    by (cases st2) (auto simp: message_channel_seen_def reads_message_blocks(1))
  have multi: "reads_blocks lib st2 (if MultitransportFlags c \<noteq> 0 then [(CS_MULTITRANSPORT, le32 (MultitransportFlags c))] else []) st2" for st2
    by (simp add: reads_message_blocks(2) reads_one del: reads_blocks.simps(2))
  have mon': "reads_blocks lib (smcs, srv) (if m then monitor_blocks c else [])
      (if m then monitors_seen c (smcs, srv) else (smcs, srv))" for m
    using mon by simp
  show ?thesis
    unfolding extended_blocks_def extended_seen_def Let_def st
    by (cases "set_NegotiationFlags c AND 1 \<noteq> 0")
      (simp_all only: if_True if_False simp_thms mon' reads_blocks_append [OF mon' reads_blocks_append [OF msg multi]])
qed

text \<open>The bytes are those of the blocks.\<close>

lemma block_bytes_of:
  assumes "bs = le16 type @ le16 len @ body" "unat len = 4 + length body"
  shows "block_bytes (type, drop 4 bs) = bs"
proof -
  have "word_of_nat (unat len) = len" by simp
  then have "word_of_nat (4 + length body) = len" unfolding assms(2) .
  then show ?thesis using assms(1) by (simp add: block_bytes_def del: of_nat_add)
qed

lemma unat_small_word: "0 \<le> k \<Longrightarrow> k < 65536 \<Longrightarrow> unat (word_of_int k :: u16) = nat k"
  by (simp add: unsigned_of_int take_bit_int_eq_self)

lemma client_monitor_blocks_bytes:
  assumes "few_monitors c srv"
  shows "concat (map block_bytes (monitor_blocks c)) = client_monitor_bytes c @ client_monitor_extended_bytes c"
proof -
  define n where "n = nat (MonitorCount c)"
  have n: "length (take n (MonitorDefArray c)) = n" "int n \<le> 3000" "MonitorCount c > 1 \<Longrightarrow> MonitorCount c = int n"
    using assms by (auto simp: few_monitors_def n_def)
  have "block_bytes (CS_MONITOR, drop 4 (client_monitor_bytes c)) = client_monitor_bytes c" if "MonitorCount c > 1"
    using that n
    by (intro block_bytes_of [where len = "word_of_int (20 * MonitorCount c + 12)" and
          body = "le32 0 @ le32 (word_of_int (MonitorCount c)) @ concat (map monitor_def_bytes (take n (MonitorDefArray c)))"])
      (simp add: client_monitor_bytes_def n_def, subst unat_small_word, simp_all only: length_append length_monitor_bytes n(1), simp_all)
  moreover have "block_bytes (CS_MONITOR_EX, drop 4 (client_monitor_extended_bytes c)) = client_monitor_extended_bytes c"
    if "HasMonitorAttributes c" "MonitorCount c > 1"
    using that n
    by (intro block_bytes_of [where len = "word_of_int (20 * MonitorCount c + 16)" and
          body = "le32 0 @ le32 20 @ le32 (word_of_int (MonitorCount c)) @ concat (map monitor_attribute_bytes (take n (MonitorDefArray c)))"])
      (simp add: client_monitor_extended_bytes_def n_def, subst unat_small_word, simp_all only: length_append length_monitor_bytes n(1), simp_all)
  ultimately show ?thesis
    using assms by (auto simp: monitor_blocks_def few_monitors_def) (simp_all add: client_monitor_bytes_def client_monitor_extended_bytes_def)
qed

lemma client_network_block_bytes:
  assumes "channels_ok mcs" "channelCount mcs \<le> 16" "\<forall>c \<in> set (channels mcs). length (ch_Name c) = 8"
    "channelCount mcs > 0"
  shows "block_bytes (CS_NET, drop 4 (client_network_bytes mcs)) = client_network_bytes mcs"
proof -
  let ?n = "unat (channelCount mcs)" and ?cs = "take (unat (channelCount mcs)) (channels mcs)"
  have n: "?n \<le> 16" using assms(2) by (simp add: word_le_nat_alt)
  have l: "length (concat (map channel_def_bytes ?cs)) = 12 * ?n"
    using assms(1,3) length_channel_def_bytes [of ?cs] by (auto simp: channels_ok_def dest: in_set_takeD)
  have "unat (channelCount mcs * 12 + 8) = ?n * 12 + 8" using n by (simp add: unat_word_ariths)
  then have "unat (ucast (channelCount mcs * 12 + 8) :: u16) = ?n * 12 + 8"
    using n by (simp only: unsigned_ucast_eq) (simp add: take_bit_nat_eq_self)
  then show ?thesis
    using assms(4) l
    by (intro block_bytes_of [where len = "ucast (channelCount mcs * 12 + 8)" and
          body = "le32 (channelCount mcs) @ concat (map channel_def_bytes ?cs)"])
      (simp_all add: client_network_bytes_def)
qed

lemma client_data_bytes_blocks:
  assumes "channels_ok mcs" "channelCount mcs \<le> 16" "\<forall>c \<in> set (channels mcs). length (ch_Name c) = 8"
    "few_monitors c srv"
  shows "client_data_bytes lib mcs c = concat (map block_bytes (client_block_list lib mcs c))"
proof -
  have "block_bytes (CS_CORE, drop 4 (client_core_bytes lib c)) = client_core_bytes lib c"
    by (rule block_bytes_of [where len = 234 and body = "drop 4 (client_core_bytes lib c)"])
      (simp_all add: client_core_bytes_def Let_def)
  moreover have "block_bytes (CS_CLUSTER, drop 4 (client_cluster_bytes c)) = client_cluster_bytes c"
    "block_bytes (CS_SECURITY, drop 4 (client_security_bytes c)) = client_security_bytes c"
    by (rule block_bytes_of [where len = 12 and body = "drop 4 (client_cluster_bytes c)"]
        block_bytes_of [where len = 12 and body = "drop 4 (client_security_bytes c)"];
        simp add: client_cluster_bytes_def client_security_bytes_def)+
  moreover have "(if channelCount mcs > 0 then block_bytes (CS_NET, drop 4 (client_network_bytes mcs)) else [])
      = client_network_bytes mcs"
    using client_network_block_bytes [OF assms(1-3)] by (simp add: client_network_bytes_def)
  moreover have "few_monitors (gcc_connection_type c) srv"
    using assms(4) by (simp add: few_monitors_def)
  then have "concat (map block_bytes (extended_blocks (gcc_connection_type c))) = client_extended_bytes (gcc_connection_type c)"
    using client_monitor_blocks_bytes [of "gcc_connection_type c" srv]
    by (auto simp: extended_blocks_def client_extended_bytes_def client_message_channel_bytes_def
        client_multitransport_bytes_def block_bytes_def Let_def)
  moreover have "client_cluster_bytes (gcc_connection_type c) = client_cluster_bytes c"
    "client_security_bytes (gcc_connection_type c) = client_security_bytes c"
    by (simp_all add: client_cluster_bytes_def client_security_bytes_def)
  ultimately show ?thesis
    by (simp add: client_data_bytes_def client_block_list_def Let_def split: if_splits)
qed

lemma client_block_list_reads:
  assumes "channels_ok mcs" "channelCount mcs \<le> 16" "\<forall>c \<in> set (channels mcs). length (ch_Name c) = 8"
    "16 \<le> length (channels smcs)" "few_monitors c srv" "ColorDepth c \<noteq> 0"
    "set_SelectedProtocol srv = set_SelectedProtocol c"
  shows "reads_blocks lib (smcs, srv) (client_block_list lib mcs c) (client_seen lib (mcs, c) (smcs, srv))"
proof -
  let ?srv = "security_seen c (cluster_seen c (core_seen lib c srv))"
  let ?smcs = "if channelCount mcs > 0
        then channels_seen 0 (take (unat (channelCount mcs)) (channels mcs)) (smcs\<lparr>channelCount := channelCount mcs\<rparr>)
        else smcs"
  have net: "reads_blocks lib (smcs, ?srv)
      (if channelCount mcs > 0 then [(CS_NET, drop 4 (client_network_bytes mcs))] else []) (?smcs, ?srv)"
    using reads_one [OF reads_network [OF assms(1,2,4,3)]] by simp
  have "few_monitors (gcc_connection_type c) (snd (?smcs, ?srv))"
    using assms(5) by (simp add: few_monitors_def security_seen_def cluster_seen_def core_seen_def Let_def)
  moreover have "extended_seen (gcc_connection_type c) = extended_seen c"
    by (simp only: fun_eq_iff extended_seen_def message_channel_seen_def monitors_seen_def gcc_connection_type_sel) simp
  ultimately have "reads_blocks lib (?smcs, ?srv) (extended_blocks (gcc_connection_type c))
      (client_seen lib (mcs, c) (smcs, srv))"
    using reads_extended [of "gcc_connection_type c" "(?smcs, ?srv)" lib] by (simp only: client_seen_def prod.case)
  then show ?thesis
    unfolding client_block_list_def
    by (rule reads_blocks_append [OF reads_core [OF assms(6,7)] reads_blocks_append [OF net]])
qed

lemma gcc_client_data_read:
  assumes "channels_ok mcs" "channelCount mcs \<le> 16" "\<forall>c \<in> set (channels mcs). length (ch_Name c) = 8"
    "16 \<le> length (channels smcs)" "few_monitors c srv" "ColorDepth c \<noteq> 0"
    "set_SelectedProtocol srv = set_SelectedProtocol c"
    "swf s" "avail s = client_data_bytes lib mcs c @ r"
  shows "gcc_read_client_data_blocks lib s (smcs, srv) (int (length (client_data_bytes lib mcs c)))
    = Some (Ok (client_seen lib (mcs, c) (smcs, srv)) (Stream_Seek s (length (client_data_bytes lib mcs c))))"
proof -
  have "length bs \<le> length (concat (map block_bytes bs))" for bs
    by (induction bs) (simp_all add: block_bytes_def)
  then show ?thesis
    using client_blocks_reads [OF client_block_list_reads [OF assms(1-7), of lib] assms(8)] assms(9)
    unfolding client_data_bytes_blocks [OF assms(1-3,5)] gcc_read_client_data_blocks_def by simp
qed

subsection \<open>A Connect-Initial, end to end\<close>

lemma avail_Seek_append: "avail s = a @ b \<Longrightarrow> avail (Stream_Seek s (length a)) = b"
  by simp

lemma conference_prefix_known:
  assumes "swf s" "avail s = [0, 5, 0, 20, 124, 0, 1] @ r"
  shows "per_read_choice s = Ok 0 (Stream_Seek s 1)"
    and "per_read_object_identifier (Stream_Seek s 1) t124_02_98_oid = Ok () (Stream_Seek s 7)"
  using assms
  by (simp_all add: per_read_choice_def per_read_object_identifier_def t124_02_98_oid_def per_read_small_length read_known
      drop_bit_eq_div)

lemma conference_key_known:
  assumes "swf s" "avail s = 0 # h221_cs_key @ r"
  shows "per_read_octet_string s h221_cs_key 4 4 = Ok () (Stream_Seek s 5)"
  using assms c_int_remaining [of "Stream_Seek s 1"]
  by (simp add: per_read_octet_string_def per_read_small_length Let_def h221_cs_key_def)

lemma conference_middle_known:
  assumes "swf s" "avail s = [0, 8, 0, 0x10, 0, 1, 0xC0, 0] @ h221_cs_key @ r"
  shows "per_read_choice s = Ok 0 (Stream_Seek s 1)"
    and "per_read_selection (Stream_Seek s 1) = Ok 8 (Stream_Seek s 2)"
    and "per_read_numeric_string (Stream_Seek s 2) 1 = Ok () (Stream_Seek s 4)"
    and "per_read_padding (Stream_Seek s 4) 1 = Ok () (Stream_Seek s 5)"
    and "per_read_number_of_sets (Stream_Seek s 5) = Ok 1 (Stream_Seek s 6)"
    and "per_read_choice (Stream_Seek s 6) = Ok 0xC0 (Stream_Seek s 7)"
    and "per_read_octet_string (Stream_Seek s 7) h221_cs_key 4 4 = Ok () (Stream_Seek s 12)"
  using assms conference_key_known [of "Stream_Seek s 7" r] c_int_remaining [of "Stream_Seek s 3"]
    c_int_remaining [of "Stream_Seek s 4"]
  by (simp_all add: per_read_choice_def per_read_selection_def per_read_numeric_string_def per_read_padding_def
      per_read_number_of_sets_def per_read_small_length read_known Let_def)

lemma conference_request_known:
  assumes "swf s" "avail s = conference_request_bytes ud @ r" "length ud \<le> 0x7F00"
  shows "gcc_read_conference_create_request lib s st =
    gcc_read_client_data_blocks lib (Stream_Seek s (length (conference_request_bytes ud) - length ud)) st (int (length ud))"
proof -
  let ?p = "per_length_bytes (int (length ud) + 14)" and ?q = "per_length_bytes (int (length ud))"
  let ?mid = "[0, 8, 0, 0x10, 0, 1, 0xC0, 0] @ h221_cs_key"
  let ?s1 = "Stream_Seek s 7" and ?s2 = "Stream_Seek s (7 + length ?p)" and ?s3 = "Stream_Seek s (7 + length ?p + 12)"
  have a: "avail s = [0, 5, 0, 20, 124, 0, 1] @ ?p @ ?mid @ ?q @ ud @ r"
    using assms(2) by (simp add: conference_request_bytes_def)
  then have a1: "avail ?s1 = ?p @ ?mid @ ?q @ ud @ r" by simp
  from avail_Seek_append [OF a1] have a2: "avail ?s2 = ?mid @ ?q @ ud @ r" by (simp only: Stream_Seek_Stream_Seek)
  have "length ?mid = 12" by (simp add: h221_cs_key_def)
  with avail_Seek_append [OF a2] have a3: "avail ?s3 = ?q @ ud @ r" by (simp only: Stream_Seek_Stream_Seek)
  have w: "swf ?s1" "swf ?s2" "swf ?s3"
    using assms(1) a by (simp_all add: h221_cs_key_def)
  have p: "per_read_length ?s1 = Ok (word_of_int (int (length ud) + 14)) ?s2"
    using per_read_length_bytes [OF w(1) _ _ a1] assms(3) by simp
  have q: "per_read_length ?s3 = Ok (word_of_int (int (length ud))) (Stream_Seek s (7 + length ?p + 12 + length ?q))"
    using per_read_length_bytes [OF w(3) _ _ a3] assms(3) by simp
  have u: "unat (word_of_int (int (length ud)) :: u16) = length ud" "uint (word_of_int (int (length ud)) :: u16) = int (length ud)"
    using assms(3) by (simp_all add: unsigned_of_int unsigned_of_nat take_bit_int_eq_self take_bit_nat_eq_self)
  have fin: "Stream_GetRemainingLength (Stream_Seek s (7 + length ?p + 12 + length ?q)) = length (ud @ r)"
    using w(3) a3 by (subst remaining) (simp_all flip: Stream_Seek_Stream_Seek)
  have len: "length (conference_request_bytes ud) - length ud = 7 + length ?p + 12 + length ?q"
    by (simp add: conference_request_bytes_def h221_cs_key_def)
  note mid = conference_middle_known [OF w(2) a2 [unfolded append_assoc]]
  show ?thesis
    unfolding gcc_read_conference_create_request_def len
    using conference_prefix_known [OF assms(1) a] p q fin u mid [simplified]
    by simp
qed

lemma selector_known:
  assumes "swf s" "avail s = octet_string_bytes bs @ r" "length bs \<le> 0xFFFF"
  shows "andthen (ber_read_octet_string_tag s) (\<lambda>len s. if c_int (Stream_GetRemainingLength s) < len then Fail s else Ok len s)
    = Ok (int (length bs)) (Stream_Seek s (1 + length (ber_length_bytes (int (length bs)))))"
proof -
  let ?h = "4 # ber_length_bytes (int (length bs))"
  have a: "avail s = ?h @ bs @ r" using assms(2) by (simp add: octet_string_bytes_def)
  have "ber_read_octet_string_tag s = Ok (int (length bs)) (Stream_Seek s (length ?h))"
    using ber_octets.rd_enc [of s "int (length bs)" "bs @ r"] assms(1,3) a by simp
  moreover have "swf (Stream_Seek s (length ?h))" "avail (Stream_Seek s (length ?h)) = bs @ r"
    using assms(1) a by simp_all
  ultimately show ?thesis using c_int_remaining [of "Stream_Seek s (length ?h)"] by simp
qed

lemma selector_one_known:
  assumes "swf s" "avail s = octet_string_bytes [1] @ r"
  shows "andthen (ber_read_octet_string_tag s) (\<lambda>len s. if c_int (Stream_GetRemainingLength s) < len then Fail s else Ok len s)
    = Ok 1 (Stream_Seek s 2)"
  using selector_known [OF assms] by (simp add: ber_length_bytes_def)

lemma connect_header_known:
  assumes "swf s" "avail s = connect_packet body @ r"
  shows "andthen (tpkt_read_header s) (\<lambda>_ s. andthen (tpdu_read_data s) k) = k 2 (Stream_Seek s 7)"
proof -
  have a: "avail s = tpkt_bytes (word_of_nat (7 + length body)) @ tpdu_bytes (X224_TPDU_DATA, 2) @ body @ r"
    using assms(2) by (simp add: connect_packet_def tpdu_bytes_def)
  have "tpkt_read_header s = Ok (word_of_nat (7 + length body)) (Stream_Seek s 4)"
    using tpkt.rd_enc [OF assms(1) _ a] by simp
  moreover have "swf (Stream_Seek s 4)" "avail (Stream_Seek s 4) = tpdu_bytes (X224_TPDU_DATA, ucast (2 :: u16)) @ body @ r"
    using assms(1) a by simp_all
  then have "tpdu_read_data (Stream_Seek s 4) = Ok 2 (Stream_Seek s 7)"
    using tpdu_data.rd_enc [of "Stream_Seek s 4" 2 "body @ r"] by (simp add: tpdu_bytes_def)
  ultimately show ?thesis by simp
qed

definition connect_parameters_small :: "rdpMcs \<Rightarrow> bool" where
  "connect_parameters_small mcs \<longleftrightarrow> domain_parameters_small (targetParameters mcs) \<and>
     domain_parameters_small (minimumParameters mcs) \<and> domain_parameters_small (maximumParameters mcs)"

lemma connect_initial_known:
  assumes "swf s" "avail s = connect_packet (connect_initial_bytes mcs ud) @ r" "length ud \<le> 0x7F00"
    "connect_parameters_small mcs"
  obtains u where "swf u" "avail u = ud @ r"
    "mcs_recv_connect_initial lib s (smcs, srv) =
       continues (gcc_read_conference_create_request lib u
         (smcs\<lparr>targetParameters := targetParameters mcs, minimumParameters := minimumParameters mcs,
            maximumParameters := maximumParameters mcs\<rparr>, srv))
         (\<lambda>(mcs, settings) s. Some
           (case mcs_merge_domain_parameters (targetParameters mcs) (minimumParameters mcs)
                   (maximumParameters mcs) (domainParameters mcs) of
              Inl _ \<Rightarrow> Fail s
            | Inr dp \<Rightarrow> Ok (mcs\<lparr>domainParameters := dp\<rparr>, settings) s))"
proof -
  let ?d1 = "domain_parameters_bytes (targetParameters mcs)"
  let ?d2 = "domain_parameters_bytes (minimumParameters mcs)"
  let ?d3 = "domain_parameters_bytes (maximumParameters mcs)"
  let ?oct = "octet_string_bytes"
  define B where "B = ?oct [1] @ ?oct [1] @ [1, 1, 0xFF] @ ?d1 @ ?d2 @ ?d3 @ ?oct ud"
  have B: "length B \<le> 0xFFFF"
    using length_domain_parameters_bytes [of "targetParameters mcs"] length_domain_parameters_bytes [of "minimumParameters mcs"]
      length_domain_parameters_bytes [of "maximumParameters mcs"] length_octet_string_bytes [of "[1]"]
      length_octet_string_bytes [of ud] assms(3) by (simp add: B_def)
  let ?app = "ber_application_bytes 0x65 (int (length B))"
  define s0 where "s0 = Stream_Seek s 7"
  define s1 where "s1 = Stream_Seek s0 (length ?app)"
  define s2 where "s2 = Stream_Seek s1 (length (?oct [1]))"
  define s3 where "s3 = Stream_Seek s2 (length (?oct [1]))"
  define s4 where "s4 = Stream_Seek s3 (length [1, 1, 0xFF :: u8])"
  define s5 where "s5 = Stream_Seek s4 (length ?d1)"
  define s6 where "s6 = Stream_Seek s5 (length ?d2)"
  define s7 where "s7 = Stream_Seek s6 (length ?d3)"
  define u where "u = Stream_Seek s7 (1 + length (ber_length_bytes (int (length ud))))"
  have one: "length (?oct [1]) = 3" by (simp add: octet_string_bytes_def ber_length_bytes_def)
  have a0: "avail s0 = ?app @ B @ r"
    using assms(2) by (simp add: s0_def connect_packet_def connect_initial_bytes_def B_def Let_def)
  note a1 = avail_Seek_append [OF a0, folded s1_def, unfolded B_def append_assoc]
  note a2 = avail_Seek_append [OF a1, folded s2_def]
  note a3 = avail_Seek_append [OF a2, folded s3_def]
  note a4 = avail_Seek_append [OF a3, folded s4_def]
  note a5 = avail_Seek_append [OF a4, folded s5_def]
  note a6 = avail_Seek_append [OF a5, folded s6_def]
  note a7 = avail_Seek_append [OF a6, folded s7_def]
  have au: "avail u = ud @ r" using a7 by (simp add: u_def octet_string_bytes_def)
  have "7 \<le> length (avail s)" using assms(2) by (simp add: connect_packet_def)
  then have w0: "swf s0" using assms(1) by (simp add: s0_def)
  have w1: "swf s1" using w0 a0 by (simp add: s1_def)
  have w2: "swf s2" using w1 a1 by (simp add: s2_def)
  have w3: "swf s3" using w2 a2 by (simp add: s3_def)
  have w4: "swf s4" using w3 a3 by (simp add: s4_def)
  have w5: "swf s5" using w4 a4 by (simp add: s5_def)
  have w6: "swf s6" using w5 a5 by (simp add: s6_def)
  have w7: "swf s7" using w6 a6 by (simp add: s7_def)
  have wu: "swf u" using w7 a7 by (simp add: u_def octet_string_bytes_def)
  have r0: "ber_read_application_tag s0 0x65 = Ok (int (length B)) s1"
    using ber_app.rd_enc [OF w0 _ a0] B by (simp add: s1_def)
  have sk: "Stream_Seek_int (Stream_Seek s1 2) 1 = s2" "Stream_Seek_int (Stream_Seek s2 2) 1 = s3"
    by (simp_all add: s2_def s3_def one)
  have r3: "ber_read_BOOL s3 = Ok True s4"
    using ber_bool.rd_enc [OF w3, of True] a3 by (simp add: s4_def)
  have r4: "mcs_read_domain_parameters s4 = Ok (targetParameters mcs) s5"
    "mcs_read_domain_parameters s5 = Ok (minimumParameters mcs) s6"
    "mcs_read_domain_parameters s6 = Ok (maximumParameters mcs) s7"
    using mcs_dp.rd_enc [OF w4 _ a4] mcs_dp.rd_enc [OF w5 _ a5] mcs_dp.rd_enc [OF w6 _ a6] assms(4)
    by (simp_all add: connect_parameters_small_def s5_def s6_def s7_def)
  note sel = selector_one_known [OF w1 a1] selector_one_known [OF w2 a2]
  have r7: "andthen (ber_read_octet_string_tag s7) (\<lambda>len s. if c_int (Stream_GetRemainingLength s) < len then Fail s else Ok len s)
      = Ok (int (length ud)) u"
    using selector_known [OF w7 a7] assms(3) by (simp add: u_def)
  show ?thesis
    by (rule that [OF wu au])
      (simp only: mcs_recv_connect_initial_def Let_def prod.case connect_header_known [OF assms(1,2)] r0 r3 r4 r7 sel sk
        andthen.simps continue.simps flip: s0_def)
qed

lemma channels_seen_parameters:
  "targetParameters (channels_seen i cs m) = targetParameters m"
  "minimumParameters (channels_seen i cs m) = minimumParameters m"
  "maximumParameters (channels_seen i cs m) = maximumParameters m"
  "domainParameters (channels_seen i cs m) = domainParameters m"
  by (induction cs arbitrary: i m) simp_all

lemma client_seen_parameters:
  assumes "client_seen lib (mcs, c) (smcs, srv) = (m, st)"
  shows "targetParameters m = targetParameters smcs" "minimumParameters m = minimumParameters smcs"
    "maximumParameters m = maximumParameters smcs" "domainParameters m = domainParameters smcs"
  using assms
  by (auto simp: client_seen_def extended_seen_def message_channel_seen_def monitors_seen_def Let_def
      channels_seen_parameters split: if_splits)

lemma initialized_client:
  assumes "mcs_initialize_client_channels n defs fresh_mcs = Some mcs" "n \<le> 16" "\<forall>d \<in> set defs. 8 \<le> length (fst d)"
  shows "channelCount mcs = n" "\<forall>c \<in> set (channels mcs). length (ch_Name c) = 8"
    "targetParameters mcs = targetParameters fresh_mcs" "minimumParameters mcs = minimumParameters fresh_mcs"
    "maximumParameters mcs = maximumParameters fresh_mcs"
    "\<forall>i < unat n. ch_Name (channels mcs ! i) = take 8 (fst (defs ! i)) \<and> ch_options (channels mcs ! i) = snd (defs ! i)"
    "unat n \<le> length defs"
proof -
  have f: "channelMaxCount fresh_mcs = 30" "channels fresh_mcs = replicate 30 zero_channel"
    by (simp_all add: fresh_mcs_def mcs_new_def)
  have "\<not> channelMaxCount fresh_mcs < n" using assms(2) f(1) by (simp add: word_less_nat_alt word_le_nat_alt)
  then have *: "mcs = fresh_mcs\<lparr>channelCount := n,
      channels := map (\<lambda>(name, opts). zero_channel\<lparr>ch_Name := take 8 name, ch_options := opts\<rparr>) (take (unat n) defs)
        @ drop (unat n) (replicate 30 zero_channel)\<rparr>" "unat n \<le> length defs"
    using assms(1) f by (auto simp: mcs_initialize_client_channels_def Let_def split: if_splits)
  show "channelCount mcs = n" "targetParameters mcs = targetParameters fresh_mcs" "unat n \<le> length defs"
    "minimumParameters mcs = minimumParameters fresh_mcs" "maximumParameters mcs = maximumParameters fresh_mcs"
    using * by simp_all
  show "\<forall>c \<in> set (channels mcs). length (ch_Name c) = 8"
    using *(1) assms(3) by (auto simp: zero_channel_def dest!: in_set_takeD in_set_dropD)
  show "\<forall>i < unat n. ch_Name (channels mcs ! i) = take 8 (fst (defs ! i)) \<and> ch_options (channels mcs ! i) = snd (defs ! i)"
    using * by (auto simp: nth_append split_beta)
qed

lemma fresh_parameters:
  "connect_parameters_small fresh_mcs"
  "mergeable (targetParameters fresh_mcs) (minimumParameters fresh_mcs) (maximumParameters fresh_mcs)"
  by (simp_all add: fresh_mcs_def mcs_new_def mcs_init_domain_parameters_def connect_parameters_small_def
      domain_parameters_small_def mergeable_def)

lemma conference_request_suffix:
  "drop (length (conference_request_bytes ud) - length ud) (conference_request_bytes ud) = ud"
  "length ud \<le> length (conference_request_bytes ud)"
proof -
  obtain pre where "conference_request_bytes ud = pre @ ud"
    unfolding conference_request_bytes_def by (metis append_assoc)
  then show "drop (length (conference_request_bytes ud) - length ud) (conference_request_bytes ud) = ud"
    "length ud \<le> length (conference_request_bytes ud)" by simp_all
qed

lemma connect_initial_roundtrip:
  assumes "mcs_initialize_client_channels (ChannelCount c) (ChannelDefArray c) fresh_mcs = Some mcs"
    "ChannelCount c \<le> 16" "\<forall>d \<in> set (ChannelDefArray c). 8 \<le> length (fst d)"
    "few_monitors c srv" "ColorDepth c \<noteq> 0" "set_SelectedProtocol srv = set_SelectedProtocol c"
    "16 \<le> length (channels smcs)" "length (client_data_bytes lib mcs c) \<le> 512"
    "pkt = connect_packet (connect_initial_bytes mcs (conference_request_bytes (client_data_bytes lib mcs c)))"
    "smcs' = smcs\<lparr>targetParameters := targetParameters fresh_mcs, minimumParameters := minimumParameters fresh_mcs,
              maximumParameters := maximumParameters fresh_mcs\<rparr>"
  shows "\<exists>m st t. client_seen lib (mcs, c) (smcs', srv) = (m, st) \<and>
    mcs_recv_connect_initial lib (Stream_New pkt) (smcs, srv) =
      Some (Ok (m\<lparr>domainParameters := merged (targetParameters fresh_mcs) (maximumParameters fresh_mcs)\<rparr>, st) t)"
proof -
  note init = initialized_client [OF assms(1-3)]
  let ?data = "client_data_bytes lib mcs c"
  let ?ud = "conference_request_bytes ?data"
  have ud: "length ?ud \<le> 600" using length_conference_bytes(1) [of ?data] assms(8) by simp
  have "length pkt < 2 ^ 31"
    using length_connect_bytes(1) [of mcs ?ud] ud by (simp add: assms(9) connect_packet_def)
  then have s: "swf (Stream_New pkt)" "avail (Stream_New pkt) = connect_packet (connect_initial_bytes mcs ?ud) @ []"
    using assms(9) by simp_all
  have small: "connect_parameters_small mcs"
    using fresh_parameters(1) init by (simp add: connect_parameters_small_def)
  have "length ?ud \<le> 0x7F00" using ud by simp
  from connect_initial_known [OF s this small, of lib smcs srv] obtain u where u: "swf u" "avail u = ?ud @ []"
    "mcs_recv_connect_initial lib (Stream_New pkt) (smcs, srv) =
       continues (gcc_read_conference_create_request lib u (smcs', srv))
         (\<lambda>(mcs, settings) s. Some
           (case mcs_merge_domain_parameters (targetParameters mcs) (minimumParameters mcs)
                   (maximumParameters mcs) (domainParameters mcs) of
              Inl _ \<Rightarrow> Fail s | Inr dp \<Rightarrow> Ok (mcs\<lparr>domainParameters := dp\<rparr>, settings) s))"
    by (simp only: init(3-5) assms(10)) blast
  let ?v = "Stream_Seek u (length ?ud - length ?data)"
  have v: "swf ?v" "avail ?v = ?data @ []"
    using u(1,2) conference_request_suffix [of ?data] by simp_all
  obtain m st where seen: "client_seen lib (mcs, c) (smcs', srv) = (m, st)" by fastforce
  have "gcc_read_client_data_blocks lib ?v (smcs', srv) (int (length ?data)) = Some (Ok (m, st) (Stream_Seek ?v (length ?data)))"
    using gcc_client_data_read [OF mcs_initialize_client_channels_ok [OF assms(1)] _ init(2) _ assms(4-6) v] assms(2,7,10) init(1) seen
    by simp
  then have "gcc_read_conference_create_request lib u (smcs', srv) = Some (Ok (m, st) (Stream_Seek ?v (length ?data)))"
    using conference_request_known [OF u(1,2)] assms(8) by simp
  moreover have "mcs_merge_domain_parameters (targetParameters m) (minimumParameters m) (maximumParameters m) (domainParameters m)
      = Inr (merged (targetParameters fresh_mcs) (maximumParameters fresh_mcs))"
    using client_seen_parameters [OF seen] fresh_parameters(2) by (simp add: mcs_merge_iff assms(10))
  ultimately show ?thesis using u(3) seen by simp
qed

end
