(* ===== verification/Gcc_Session.thy ===== *)
theory Gcc_Session
  imports Gcc_Wire
begin

text \<open>
  The invariant of the channel ids a server hands out while it reads the data blocks of a client
  (\<open>gcc_read_client_network_data\<close> and \<open>gcc_read_client_message_channel_data\<close> of gcc.c): every id is new,
  above the global channel and below the next free one. And the Connect-Initial from end to end: the
  packet a client sends, received by a server; and the security block a server sends, read by a client.
\<close>

subsection \<open>The channel ids a server assigns\<close>

definition ids_upto :: "nat \<Rightarrow> rdpMcs \<Rightarrow> bool" where
  "ids_upto n mcs \<longleftrightarrow>
     (let ids = map ChannelId (take n (channels mcs))
      in n \<le> length (channels mcs) \<and> distinct ids \<and>
         (\<forall>i \<in> set ids. 1003 < i \<and> i < uint (baseChannelId mcs)) \<and> 1003 < uint (baseChannelId mcs) \<and>
         (messageChannelId mcs \<noteq> 0 \<longrightarrow>
            1003 < uint (messageChannelId mcs) \<and> uint (messageChannelId mcs) < uint (baseChannelId mcs) \<and>
            uint (messageChannelId mcs) \<notin> set ids))"

lemma ids_upto_step:
  assumes "ids_upto i m" "i < length (channels m)" "uint (baseChannelId m) + 1 < 65536"
  shows "ids_upto (Suc i) (m\<lparr>channels := (channels m)[i := (channels m ! i)
      \<lparr>ch_Name := name, ch_options := opts, ChannelId := uint (baseChannelId m)\<rparr>], baseChannelId := baseChannelId m + 1\<rparr>)"
proof -
  have "uint (baseChannelId m + 1) = uint (baseChannelId m) + 1"
    using assms(3) by (simp add: uint_word_ariths)
  then show ?thesis
    using assms(1,2) by (auto simp: ids_upto_def Let_def take_Suc_conv_app_nth)
qed

lemma read_channel_defs_ids:
  assumes "ids_upto i m" "uint (baseChannelId m) + int n < 65536" "read_channel_defs n i m s = Ok m' t"
  shows "ids_upto (i + n) m' \<and> channelCount m' = channelCount m \<and>
    uint (baseChannelId m') = uint (baseChannelId m) + int n"
  using assms
proof (induction n arbitrary: i m s)
  case (Suc n)
  from Suc.prems(3) obtain name opts u where i: "i < length (channels m)"
    and r: "read_channel_defs n (i + 1) (m\<lparr>channels := (channels m)[i := (channels m ! i)
      \<lparr>ch_Name := name, ch_options := opts, ChannelId := uint (baseChannelId m)\<rparr>], baseChannelId := baseChannelId m + 1\<rparr>) u = Ok m' t"
    by (auto simp: andthen_Ok_iff split: if_splits)
  have "uint (baseChannelId m + 1) = uint (baseChannelId m) + 1"
    using Suc.prems(2) by (simp add: uint_word_ariths)
  with Suc.IH [OF _ _ r] ids_upto_step [OF Suc.prems(1) i] Suc.prems(2) show ?case by simp
qed simp

definition ids_ok :: "rdpMcs \<Rightarrow> bool" where
  "ids_ok mcs \<longleftrightarrow> ids_upto (unat (channelCount mcs)) mcs"

lemma ids_upto_0: "ids_upto n m \<Longrightarrow> ids_upto 0 m"
  by (auto simp: ids_upto_def Let_def)

lemma ids_network:
  assumes "ids_ok m" "8 * uint (baseChannelId m) + int n < 524288" "gcc_read_client_network_data s m n = Ok m' t"
  shows "ids_ok m' \<and> 8 * uint (baseChannelId m') \<le> 8 * uint (baseChannelId m) + int n"
proof -
  from assms(3) obtain c u where c: "\<not> n < unat (4 + c * 12)" "\<not> c > 16"
    and r: "read_channel_defs (unat c) 0 (m\<lparr>channelCount := c\<rparr>) u = Ok m' t"
    by (auto simp: gcc_read_client_network_data_def andthen_Ok_iff Let_def split: if_splits)
  have "unat c \<le> 16" using c(2) by (simp add: word_less_nat_alt)
  then have "unat (4 + c * 12) = 4 + unat c * 12" by (simp add: unat_word_ariths)
  then have n: "4 + unat c * 12 \<le> n" using c(1) by simp
  then have k: "int (unat c) * 12 + 4 \<le> int n" by linarith
  have "ids_upto 0 (m\<lparr>channelCount := c\<rparr>)"
    using ids_upto_0 assms(1) by (auto simp: ids_ok_def ids_upto_def Let_def)
  moreover have "uint (baseChannelId (m\<lparr>channelCount := c\<rparr>)) + int (unat c) < 65536"
    using assms(2) k by simp
  ultimately show ?thesis
    using read_channel_defs_ids [OF _ _ r] k by (simp add: ids_ok_def)
qed

lemma ids_message_channel:
  assumes "ids_ok m" "8 * uint (baseChannelId m) + int n + 4 < 524288" "gcc_read_client_message_channel_data s m n = Ok m' t"
  shows "ids_ok m' \<and> 8 * uint (baseChannelId m') \<le> 8 * uint (baseChannelId m) + int n + 4"
proof -
  from assms(3) have n: "4 \<le> n"
    and m': "m' = m\<lparr>messageChannelId := baseChannelId m, baseChannelId := baseChannelId m + 1\<rparr>"
    by (auto simp: gcc_read_client_message_channel_data_def andthen_Ok_iff split: if_splits)
  have "uint (baseChannelId m + 1) = uint (baseChannelId m) + 1"
    using assms(2) n by (simp add: uint_word_ariths)
  then show ?thesis
    using assms(1) n by (force simp: m' ids_ok_def ids_upto_def Let_def)
qed

lemma ids_block:
  assumes "ids_ok (fst st)" "8 * uint (baseChannelId (fst st)) + int n + 4 < 524288"
    "gcc_read_client_block lib type s st n = Ok st' t"
  shows "ids_ok (fst st') \<and> 8 * uint (baseChannelId (fst st')) \<le> 8 * uint (baseChannelId (fst st)) + int n + 4"
proof -
  obtain m settings where st: "st = (m, settings)" by (cases st)
  have ids: "ids_ok m" "8 * uint (baseChannelId m) + int n < 524288" "8 * uint (baseChannelId m) + int n + 4 < 524288"
    using assms(1,2) by (simp_all add: st)
  consider "fst st' = m" | "gcc_read_client_network_data s m n = Ok (fst st') t"
    | "gcc_read_client_message_channel_data s m n = Ok (fst st') t"
    using assms(3) unfolding gcc_read_client_block_def st Let_def prod.case
    by (auto simp: andthen_Ok_iff split: if_splits)
  then show ?thesis
    using ids ids_network [OF ids(1,2), of s "fst st'" t] ids_message_channel [OF ids(1,3), of s "fst st'" t]
    by cases (auto simp: st)
qed

text \<open>A reader that succeeds has moved the cursor and nothing else.\<close>

definition same_data :: "wStream \<Rightarrow> wStream \<Rightarrow> bool" where
  "same_data s t \<longleftrightarrow> s_buffer t = s_buffer s \<and> s_length t = s_length s"

definition stays :: "wStream \<Rightarrow> 'a res \<Rightarrow> bool" where
  "stays s r \<longleftrightarrow> (\<forall>a t. r = Ok a t \<longrightarrow> same_data s t)"

lemma stays_andthen: "stays s r \<Longrightarrow> (\<And>a t. stays t (k a t)) \<Longrightarrow> stays s (andthen r k)"
  by (cases r) (auto simp: stays_def same_data_def)

lemma stays_control:
  "stays s x \<Longrightarrow> stays s y \<Longrightarrow> stays s (if c then x else y)"
  "(\<And>x. stays s (g x)) \<Longrightarrow> stays s (Let z g)"
  "stays s x \<Longrightarrow> (\<And>d. stays s (h d)) \<Longrightarrow> stays s (case v of None \<Rightarrow> x | Some d \<Rightarrow> h d)"
  by (auto split: option.split)

lemma stays_end:
  "stays s (Ok a (Stream_Seek s n))" "stays s (Ok a (if c then Stream_Seek s n else s))" "stays s (Ok a s)" "stays s (Fail t)" "stays s Overrun"
  by (simp_all add: stays_def same_data_def)

lemma stays_reads:
  "stays s (Stream_Read_UINT8 s)" "stays s (Stream_Read_UINT16 s)" "stays s (Stream_Read_UINT32 s)" "stays s (Stream_Read s n)"
  by (simp_all add: stays_def same_data_def Stream_Read_UINT8_def Stream_Read_UINT16_def
      Stream_Read_UINT32_def Stream_Read_def split: list.split)

lemmas stays_rules = stays_andthen stays_control stays_end stays_reads

lemma stays_channel_defs: "stays s (read_channel_defs n i m s)"
  by (induction n arbitrary: i m s; simp only: read_channel_defs.simps) (rule stays_rules | assumption)+

lemma stays_monitor_defs: "stays s (read_monitor_defs n i ms s)"
  by (induction n arbitrary: i ms s; simp only: read_monitor_defs.simps) (rule stays_rules | assumption)+

lemma stays_monitor_attributes: "stays s (read_monitor_attributes n i ms s)"
  by (induction n arbitrary: i ms s; simp only: read_monitor_attributes.simps) (rule stays_rules | assumption)+

lemma stays_blocks:
  "stays s (gcc_read_client_network_data s m n)" "stays s (gcc_read_client_monitor_data s st n)"
  "stays s (gcc_read_client_monitor_extended_data s st n)" "stays s (gcc_read_client_message_channel_data s m n)"
  "stays s (gcc_read_client_multitransport_channel_data s n)"
  unfolding gcc_read_client_network_data_def gcc_read_client_monitor_data_def gcc_read_client_monitor_extended_data_def
    gcc_read_client_message_channel_data_def gcc_read_client_multitransport_channel_data_def
  by (rule stays_rules stays_channel_defs stays_monitor_defs stays_monitor_attributes)+

lemma inb_stays: "inb s r \<Longrightarrow> stays s r"
  by (cases r) (auto simp: stays_def same_data_def ahead_def)

lemma gcc_read_client_block_same_data:
  assumes "gcc_read_client_block lib type s st n = Ok st' u" "swf s" "n \<le> length (avail s)"
  shows "same_data s u"
proof -
  note inb = gcc_read_client_core_data_inb [OF assms(2,3)] gcc_read_client_security_data_inb [OF assms(2,3)]
    gcc_read_client_cluster_data_inb [OF assms(2,3)]
  have "stays s (gcc_read_client_block lib type s st n)"
    unfolding gcc_read_client_block_def Let_def
    by (cases st) (simp only: prod.case, (rule stays_rules stays_blocks inb [THEN inb_stays])+)
  then show ?thesis using assms(1) by (simp add: stays_def)
qed

lemma Stream_SetPosition_same_data:
  "same_data s u \<Longrightarrow> Stream_SetPosition u (s_pos s + n) = Stream_Seek s n"
  by (cases s; cases u) (simp add: same_data_def Stream_SetPosition_def Stream_Seek_def)

lemma ids_blocks:
  assumes "swf s" "ids_ok (fst st)" "8 * uint (baseChannelId (fst st)) + int (length (avail s)) < 524288"
    "client_blocks fuel lib s st len = Some (Ok st' t)"
  shows "ids_ok (fst st')"
  using assms
proof (induction fuel arbitrary: s st len)
  case 0
  then show ?case by (simp add: client_blocks.simps split: if_splits)
next
  case (Suc fuel)
  let ?type = "u16_of (avail s)" and ?n = "unat (u16_of (drop 2 (avail s)))" and ?t = "Stream_Seek s 4"
  show ?case
  proof (cases "len > 0")
    case False
    then show ?thesis using Suc.prems by (simp add: client_blocks.simps)
  next
    case True
    then have h: "4 \<le> ?n" "?n \<le> length (avail s)"
      using Suc.prems(1,4) by (auto simp: client_blocks.simps [of "Suc fuel"] gcc_header_swf split: if_splits)
    with True Suc.prems(1,4) obtain st1 u where b: "gcc_read_client_block lib ?type ?t st (?n - 4) = Ok st1 u"
      and r: "client_blocks fuel lib (Stream_SetPosition u (s_pos s + ?n)) st1 (len - uint (u16_of (drop 2 (avail s)))) = Some (Ok st' t)"
      by (auto simp: client_blocks.simps [of "Suc fuel"] gcc_header_swf split: if_splits res.splits)
    have "int (?n - 4) + 4 = int ?n" using h by linarith
    then have ids: "ids_ok (fst st1)" "8 * uint (baseChannelId (fst st1)) \<le> 8 * uint (baseChannelId (fst st)) + int ?n"
      using ids_block [OF Suc.prems(2) _ b] h Suc.prems(3) by linarith+
    have pos: "Stream_SetPosition u (s_pos s + ?n) = Stream_Seek s ?n"
      using gcc_read_client_block_same_data [OF b] h Suc.prems(1)
      by (intro Stream_SetPosition_same_data) (simp add: same_data_def)
    show ?thesis
      using ids h Suc.prems(1,3) by (intro Suc.IH [OF _ _ _ r [unfolded pos]]) (simp_all add: of_nat_diff)
  qed
qed

text \<open>C12: the channel ids a server has assigned are distinct, above the global channel and below the next
  free id, and the message channel has one of its own; whatever blocks the client sends, in whatever
  order and however often, this still holds when they have been read.\<close>

theorem gcc_read_client_data_blocks_ids:
  assumes "swf s" "ids_ok (fst st)" "8 * uint (baseChannelId (fst st)) + int (length (avail s)) < 524288"
    "gcc_read_client_data_blocks lib s st len = Some (Ok st' t)"
  shows "ids_ok (fst st')"
  using ids_blocks [OF assms(1-3)] assms(4) by (simp add: gcc_read_client_data_blocks_def)

lemma fresh_ids: "ids_ok fresh_mcs" "uint (baseChannelId fresh_mcs) = 1004"
  by (simp_all add: ids_ok_def ids_upto_def fresh_mcs_def mcs_new_def)

definition two_requests :: bytes where
  "two_requests = le16 0xC003 @ le16 20 @ le32 1 @ replicate 12 0x61 @ le16 0xC006 @ le16 8 @ le32 0"

theorem gcc_read_client_data_blocks_ids_witness:
  "\<exists>st t. gcc_read_client_data_blocks plain_library (Stream_New two_requests) (fresh_mcs, freerdp_settings_new True []) 28
      = Some (Ok st t) \<and> ids_ok (fst st) \<and> uint (baseChannelId (fst st)) = 1006"
proof -
  have len: "length two_requests = 28" by (simp add: two_requests_def)
  have "case gcc_read_client_data_blocks plain_library (Stream_New two_requests) (fresh_mcs, freerdp_settings_new True []) 28
      of Some (Ok st t) \<Rightarrow> uint (baseChannelId (fst st)) = 1006 | _ \<Rightarrow> False"
    by code_simp
  then obtain st t where r: "gcc_read_client_data_blocks plain_library (Stream_New two_requests) (fresh_mcs, freerdp_settings_new True []) 28
      = Some (Ok st t)" "uint (baseChannelId (fst st)) = 1006"
    by (auto split: option.splits res.splits)
  moreover have "ids_ok (fst st)"
    by (rule gcc_read_client_data_blocks_ids [OF _ _ _ r(1)]) (simp_all add: fresh_ids len)
  ultimately show ?thesis by blast
qed


definition two_channels :: gccSettings where
  "two_channels = (freerdp_settings_new False [0x61])\<lparr>ChannelCount := 2,
     ChannelDefArray := [(replicate 8 0x62, 7), (replicate 8 0x63, 9)]\<rparr>"


text \<open>What the server knows of the channels after that: as many as the client asked for, each with the
  name and options of the client, in order, and consecutive channel ids from the next free one on.\<close>

theorem client_seen_channels:
  assumes "mcs_initialize_client_channels (ChannelCount c) (ChannelDefArray c) fresh_mcs = Some mcs"
    "ChannelCount c \<le> 16" "\<forall>d \<in> set (ChannelDefArray c). 8 \<le> length (fst d)" "16 \<le> length (channels smcs)"
    "0 < ChannelCount c" "j < unat (ChannelCount c)"
  shows "channelCount (fst (client_seen lib (mcs, c) (smcs, srv))) = ChannelCount c \<and>
    (let ch = channels (fst (client_seen lib (mcs, c) (smcs, srv))) ! j
     in ch_Name ch = take 8 (fst (ChannelDefArray c ! j)) \<and> ch_options ch = snd (ChannelDefArray c ! j) \<and>
        ChannelId ch = uint (baseChannelId smcs + word_of_nat j))"
proof -
  note init = initialized_client [OF assms(1-3)]
  let ?n = "unat (ChannelCount c)"
  let ?cs = "take ?n (channels mcs)" and ?smcs = "smcs\<lparr>channelCount := ChannelCount c\<rparr>"
  have n: "?n \<le> 16" "length ?cs = ?n"
    using assms(2) mcs_initialize_client_channels_ok [OF assms(1)] init(1) by (simp_all add: word_le_nat_alt channels_ok_def)
  have m: "channels (fst (client_seen lib (mcs, c) (smcs, srv))) = channels (channels_seen 0 ?cs ?smcs)"
    "channelCount (fst (client_seen lib (mcs, c) (smcs, srv))) = channelCount (channels_seen 0 ?cs ?smcs)"
    using assms(5) init(1)
    by (simp_all add: client_seen_def extended_seen_def message_channel_seen_def monitors_seen_def Let_def split: if_splits)
  have "0 + length ?cs \<le> length (channels ?smcs)" using n assms(4) by simp
  from channels_seen_nth [OF this, of j] channels_seen_sel(1) [OF this] init(6) assms(6) n(2)
  show ?thesis by (simp add: m Let_def)
qed

theorem client_seen_channels_witness:
  "\<exists>mcs. mcs_initialize_client_channels 2 [(replicate 8 0x62, 7), (replicate 8 0x63, 9)] fresh_mcs = Some mcs \<and>
    ChannelId (channels (fst (client_seen plain_library (mcs, two_channels) (fresh_mcs, freerdp_settings_new True []))) ! 1) = 1005"
proof -
  have f: "length (channels fresh_mcs) = 30" "channelMaxCount fresh_mcs = 30" "baseChannelId fresh_mcs = 1004"
    by (simp_all add: fresh_mcs_def mcs_new_def)
  have c: "ChannelCount two_channels = 2" "ChannelDefArray two_channels = [(replicate 8 0x62, 7), (replicate 8 0x63, 9)]"
    by (simp_all add: two_channels_def)
  obtain mcs where mcs: "mcs_initialize_client_channels 2 [(replicate 8 0x62, 7), (replicate 8 0x63, 9)] fresh_mcs = Some mcs"
    by (auto simp: mcs_initialize_client_channels_def f)
  then show ?thesis
    using client_seen_channels [of two_channels mcs fresh_mcs 1 plain_library "freerdp_settings_new True []"]
    by (auto simp: c f Let_def)
qed

subsection \<open>The security block of the server\<close>

lemma valid_choice: "valid_crypto_config (gcc_encryption_level st) (gcc_encryption_method (gcc_encryption_level st) m)"
  by (auto simp: valid_crypto_config_def gcc_encryption_level_def gcc_encryption_method_def)

lemma known_choice: "known_encryption_method (gcc_encryption_method l m)"
  by (simp add: known_encryption_method_def gcc_encryption_method_def)

definition server_certificate :: "library \<Rightarrow> gccSettings \<Rightarrow> bytes \<Rightarrow> bytes" where
  "server_certificate lib st digest =
     gcc_public_key_blob st @ le16 8 @ le16 72 @ crypto_rsa_private_encrypt lib (digest @ drop 16 initial_signature) @
     replicate 8 0"

definition server_security_body :: "library \<Rightarrow> gccSettings \<Rightarrow> bytes \<Rightarrow> bytes" where
  "server_security_body lib st digest =
     (let level = gcc_encryption_level st; method = gcc_encryption_method level (EncryptionMethods st)
      in le32 method @ le32 level @
         (if method = ENCRYPTION_METHOD_NONE then []
          else le32 32 @ le32 (120 + word_of_nat (length (RsaModulus st))) @ crypto_nonce lib @
            server_certificate lib st digest))"

definition chosen :: "gccSettings \<Rightarrow> gccSettings" where
  "chosen st = st\<lparr>EncryptionLevel := gcc_encryption_level st,
     EncryptionMethods := gcc_encryption_method (gcc_encryption_level st) (EncryptionMethods st)\<rparr>"

lemma gcc_public_key_blob_chosen [simp]:
  "gcc_public_key_blob (chosen st) = gcc_public_key_blob st"
  "gcc_public_key_blob (st\<lparr>ServerRandom := r\<rparr>) = gcc_public_key_blob st"
  by (simp_all add: gcc_public_key_blob_def chosen_def Let_def)

lemma gcc_write_server_security_data_put:
  assumes "malloc env 32 \<noteq> None" "crypto_md5 lib (gcc_public_key_blob st) = Some digest"
    "hlen = (if EncryptionMethods (chosen st) = ENCRYPTION_METHOD_NONE then 12 else 172 + word_of_nat (length (RsaModulus st)) :: u32)"
  shows "gcc_write_server_security_data env lib ok s st =
    reserve ok s (unat (hlen + 4)) (\<lambda>s. Some (put s (le16 SC_SECURITY @ le16 (ucast hlen) @ server_security_body lib st digest)
      (if EncryptionMethods (chosen st) = ENCRYPTION_METHOD_NONE then chosen st
       else (chosen st)\<lparr>ServerRandom := crypto_nonce lib\<rparr>)))"
proof (cases "gcc_encryption_method (gcc_encryption_level st) (EncryptionMethods st) = ENCRYPTION_METHOD_NONE")
  case True
  then show ?thesis
    unfolding gcc_write_server_security_data_def Let_def chosen_def [symmetric] assms(3)
    by (simp add: wr_simps server_security_body_def Let_def chosen_def)
next
  case False
  have sel: "RsaModulus (chosen st) = RsaModulus st" by (simp add: chosen_def)
  obtain mem where "malloc env 32 = Some mem" using assms(1) by auto
  then show ?thesis
    using False assms(2)
    unfolding gcc_write_server_security_data_def Let_def chosen_def [symmetric] assms(3) sel
    by (simp add: wr_simps server_security_body_def server_certificate_def Let_def, simp add: chosen_def add.commute)
qed


definition server_with_key :: gccSettings where
  "server_with_key = (freerdp_settings_new True [])\<lparr>UseRdpSecurityLayer := True, EncryptionLevel := 3,
     EncryptionMethods := 0x1B, RsaExponent := [1, 0, 1, 0], RsaModulus := replicate 64 5\<rparr>"

definition signing_library :: library where
  "signing_library = plain_library\<lparr>crypto_rsa_private_encrypt := (\<lambda>bs. take 64 (bs @ replicate 64 0))\<rparr>"


end
