(* ===== verification/Coll_Spec.thy ===== *)
theory Coll_Spec
  imports Prelude
begin

text \<open>
  What the collections of winpr/libwinpr/utils/collections share: the pointers they hold, the
  allocator, the recursive lock, and the interfaces they promise, as locales. The clients of an
  interface are proved here once; the theories of the collections interpret it.
\<close>

type_synonym ptr = nat

abbreviation (input) NULL :: ptr where "NULL \<equiv> 0"

text \<open>
  \<open>grow k\<close> is what \<open>realloc\<close> leaves in the \<open>k\<close> cells it adds to an array; None when it fails.
\<close>

type_synonym allocator = "nat \<Rightarrow> ptr list option"

definition grow_ok :: "allocator \<Rightarrow> bool" where
  "grow_ok grow \<longleftrightarrow> (\<forall>k. \<exists>cells. grow k = Some cells \<and> length cells = k)"

definition zero_grow :: allocator where
  "zero_grow k = Some (replicate k NULL)"

lemma grow_ok_zero [simp]: "grow_ok zero_grow"
  by (simp add: grow_ok_def zero_grow_def)

lemma grow_okE:
  assumes "grow_ok grow"
  obtains cells where "grow k = Some cells" "length cells = k"
  using assms unfolding grow_ok_def by blast

subsection \<open>A collection with any set of operations\<close>

text \<open>
  \<open>run_machine step s ops\<close> is what a client sees of a sequence of operations, None if one of them
  leaves the memory of the collection; \<open>run_spec\<close> is the same for a specification, which is total.
\<close>

fun run_machine :: "('op \<Rightarrow> 's \<Rightarrow> ('r \<times> 's) option) \<Rightarrow> 's \<Rightarrow> 'op list \<Rightarrow> ('r list \<times> 's) option" where
  "run_machine step s [] = Some ([], s)"
| "run_machine step s (op # ops) =
     (case step op s of
        None \<Rightarrow> None
      | Some (r, s) \<Rightarrow> map_option (\<lambda>(rs, s). (r # rs, s)) (run_machine step s ops))"

fun run_spec :: "('op \<Rightarrow> 'a \<Rightarrow> 'r \<times> 'a) \<Rightarrow> 'a \<Rightarrow> 'op list \<Rightarrow> 'r list \<times> 'a" where
  "run_spec spec a [] = ([], a)"
| "run_spec spec a (op # ops) =
     (let (r, a) = spec op a; (rs, a) = run_spec spec a ops in (r # rs, a))"

locale machine =
  fixes inv :: "'s \<Rightarrow> bool"
    and abs :: "'s \<Rightarrow> 'a"
    and step :: "'op \<Rightarrow> 's \<Rightarrow> ('r \<times> 's) option"
    and spec :: "'op \<Rightarrow> 'a \<Rightarrow> 'r \<times> 'a"
  assumes simulates: "inv s \<Longrightarrow> \<exists>r s'. step op s = Some (r, s') \<and> inv s' \<and> spec op (abs s) = (r, abs s')"
begin

lemma run_refines:
  "inv s \<Longrightarrow> \<exists>rs s'. run_machine step s ops = Some (rs, s') \<and> inv s' \<and> run_spec spec (abs s) ops = (rs, abs s')"
proof (induction ops arbitrary: s)
  case (Cons op ops)
  from simulates [OF Cons.prems] obtain r s' where
    "step op s = Some (r, s')" "inv s'" "spec op (abs s) = (r, abs s')" by blast
  with Cons.IH [of s'] show ?case by auto
qed simp

end

subsection \<open>Collections that take and return objects\<close>

datatype coll_op = Put ptr | Take

fun coll_step :: "('q \<Rightarrow> ptr \<Rightarrow> 'q option) \<Rightarrow> ('q \<Rightarrow> (ptr \<times> 'q) option) \<Rightarrow> coll_op \<Rightarrow> 'q \<Rightarrow> (ptr option \<times> 'q) option" where
  \<comment> \<open>What a client sees: the results of its \<open>Take\<close> operations.\<close>
  "coll_step add take1 (Put x) q = map_option (Pair None) (add q x)"
| "coll_step add take1 Take q = map_option (map_prod Some id) (take1 q)"

text \<open>The specifications: a list used from both ends, and from one.\<close>

definition fifo_add :: "ptr list \<Rightarrow> ptr \<Rightarrow> ptr list" where
  "fifo_add xs x = xs @ [x]"

definition lifo_add :: "ptr list \<Rightarrow> ptr \<Rightarrow> ptr list" where
  "lifo_add xs x = x # xs"

fun take_first :: "ptr list \<Rightarrow> ptr \<times> ptr list" where
  "take_first [] = (NULL, [])"
| "take_first (x # xs) = (x, xs)"

fun coll_spec :: "(ptr list \<Rightarrow> ptr \<Rightarrow> ptr list) \<Rightarrow> coll_op \<Rightarrow> ptr list \<Rightarrow> ptr option \<times> ptr list" where
  "coll_spec spec_add (Put x) xs = (None, spec_add xs x)"
| "coll_spec spec_add Take xs = map_prod Some id (take_first xs)"

text \<open>
  The interface of the queue and of the stack: an invariant, the list of the elements in the order
  they will be taken, and the two operations, which stay inside the memory of the collection and do
  to the list what the specification \<open>spec_add\<close> and \<open>take_first\<close> do.
\<close>

locale bag =
  fixes inv :: "'q \<Rightarrow> bool"
    and elems :: "'q \<Rightarrow> ptr list"
    and add :: "'q \<Rightarrow> ptr \<Rightarrow> 'q option"
    and take1 :: "'q \<Rightarrow> (ptr \<times> 'q) option"
    and spec_add :: "ptr list \<Rightarrow> ptr \<Rightarrow> ptr list"
  assumes add_ok: "inv q \<Longrightarrow> \<exists>q'. add q x = Some q' \<and> inv q' \<and> elems q' = spec_add (elems q) x"
    and take1_ok: "inv q \<Longrightarrow> \<exists>q'. take1 q = Some (fst (take_first (elems q)), q') \<and> inv q' \<and>
      elems q' = snd (take_first (elems q))"

sublocale bag \<subseteq> ops: machine inv elems "coll_step add take1" "coll_spec spec_add"
proof
  fix q op
  assume inv: "inv q"
  show "\<exists>r q'. coll_step add take1 op q = Some (r, q') \<and> inv q' \<and> coll_spec spec_add op (elems q) = (r, elems q')"
  proof (cases op)
    case (Put x)
    then show ?thesis using add_ok [OF inv, of x] by auto
  next
    case Take
    then show ?thesis using take1_ok [OF inv] by (cases "take_first (elems q)") auto
  qed
qed

lemma run_spec_append:
  "run_spec spec a (ops @ ops') =
    (let (rs, a) = run_spec spec a ops; (rs', a) = run_spec spec a ops' in (rs @ rs', a))"
  by (induction ops arbitrary: a) (simp_all add: Let_def case_prod_beta)

lemma take_all:
  "run_spec (coll_spec spec_add) xs (replicate (length xs) Take) = (map Some xs, [])"
  by (induction xs) simp_all

locale fifo = bag inv elems add take1 fifo_add
  for inv :: "'q \<Rightarrow> bool" and elems add take1
begin

text \<open>What is put in comes out in the same order.\<close>

lemma puts_then_takes:
  assumes "inv q" "elems q = []"
  shows "\<exists>q'. run_machine (coll_step add take1) q (map Put xs @ replicate (length xs) Take)
    = Some (map (\<lambda>_. None) xs @ map Some xs, q') \<and> elems q' = []"
proof -
  have "run_spec (coll_spec fifo_add) ys (map Put xs) = (map (\<lambda>_. None) xs, ys @ xs)" for ys
    by (induction xs arbitrary: ys) (simp_all add: fifo_add_def)
  then have "run_spec (coll_spec fifo_add) [] (map Put xs @ replicate (length xs) Take)
      = (map (\<lambda>_. None) xs @ map Some xs, [])"
    by (simp add: run_spec_append take_all)
  with ops.run_refines [OF assms(1), of "map Put xs @ replicate (length xs) Take"] assms(2) show ?thesis
    by auto
qed

end

locale lifo = bag inv elems add take1 lifo_add
  for inv :: "'q \<Rightarrow> bool" and elems add take1
begin

text \<open>What is put in comes out in reverse order.\<close>

lemma puts_then_takes:
  assumes "inv q" "elems q = []"
  shows "\<exists>q'. run_machine (coll_step add take1) q (map Put xs @ replicate (length xs) Take)
    = Some (map (\<lambda>_. None) xs @ map Some (rev xs), q') \<and> elems q' = []"
proof -
  have "run_spec (coll_spec lifo_add) ys (map Put xs) = (map (\<lambda>_. None) xs, rev xs @ ys)" for ys
    by (induction xs arbitrary: ys) (simp_all add: lifo_add_def)
  then have "run_spec (coll_spec lifo_add) [] (map Put xs @ replicate (length xs) Take)
      = (map (\<lambda>_. None) xs @ map Some (rev xs), [])"
    using take_all [of lifo_add "rev xs"] by (simp add: run_spec_append)
  with ops.run_refines [OF assms(1), of "map Put xs @ replicate (length xs) Take"] assms(2) show ?thesis
    by auto
qed

end

subsection \<open>Collections of values under keys\<close>

text \<open>
  The interface of the dictionaries: \<open>lookup\<close> is the map a dictionary stands for, a function of the key
  up to \<open>same\<close>, the comparison of the keys. A key is added when it is not there; it is then found until
  it is removed, and no other key is affected.
\<close>

locale dictionary =
  fixes inv :: "'s \<Rightarrow> bool"
    and lookup :: "'s \<Rightarrow> ptr \<Rightarrow> ptr option"
    and same :: "ptr \<Rightarrow> ptr \<Rightarrow> bool"
    and add :: "'s \<Rightarrow> ptr \<Rightarrow> ptr \<Rightarrow> 's option"
    and remove :: "'s \<Rightarrow> ptr \<Rightarrow> 's option"
    and get :: "'s \<Rightarrow> ptr \<Rightarrow> (ptr \<times> 's) option"
  assumes add_new: "inv s \<Longrightarrow> lookup s key = None \<Longrightarrow> key \<noteq> NULL \<Longrightarrow> v \<noteq> NULL \<Longrightarrow>
      \<exists>s'. add s key v = Some s' \<and> inv s' \<and> lookup s' = (\<lambda>k. if same k key then Some v else lookup s k)"
    and remove_old: "inv s \<Longrightarrow>
      \<exists>s'. remove s key = Some s' \<and> inv s' \<and> lookup s' = (\<lambda>k. if same k key then None else lookup s k)"
    and get_value: "inv s \<Longrightarrow>
      \<exists>s'. get s key = Some (case lookup s key of None \<Rightarrow> NULL | Some v \<Rightarrow> v, s') \<and> inv s' \<and> lookup s' = lookup s"
    and same_keys: "inv s \<Longrightarrow> equivp same"
begin

fun add_all :: "'s \<Rightarrow> (ptr \<times> ptr) list \<Rightarrow> 's option" where
  "add_all s [] = Some s"
| "add_all s ((k, v) # kvs) = Option.bind (add s k v) (\<lambda>s. add_all s kvs)"

fun remove_all :: "'s \<Rightarrow> ptr list \<Rightarrow> 's option" where
  "remove_all s [] = Some s"
| "remove_all s (k # ks) = Option.bind (remove s k) (\<lambda>s. remove_all s ks)"

lemma add_all_lookup:
  assumes "inv s" "sorted_wrt (\<lambda>a b. \<not> same a b) (map fst kvs)" "\<forall>(k, v) \<in> set kvs. k \<noteq> NULL \<and> v \<noteq> NULL \<and> lookup s k = None"
  shows "\<exists>s'. add_all s kvs = Some s' \<and> inv s' \<and>
    (\<forall>(k, v) \<in> set kvs. \<forall>k'. same k' k \<longrightarrow> lookup s' k' = Some v) \<and>
    (\<forall>k. (\<forall>k' \<in> fst ` set kvs. \<not> same k k') \<longrightarrow> lookup s' k = lookup s k)"
  using assms
proof (induction kvs arbitrary: s)
  case (Cons kv kvs)
  obtain k v where kv: "kv = (k, v)" by fastforce
  have same_sym: "same a b \<Longrightarrow> same b a" and same_trans: "same a b \<Longrightarrow> same b c \<Longrightarrow> same a c" for a b c
    using same_keys [OF Cons.prems(1)] by (blast dest: equivp_symp intro: equivp_transp)+
  from Cons.prems kv have "lookup s k = None" "k \<noteq> NULL" "v \<noteq> NULL" by auto
  from add_new [OF Cons.prems(1) this] obtain s1 where
    s1: "add s k v = Some s1" "inv s1" "lookup s1 = (\<lambda>k'. if same k' k then Some v else lookup s k')" by blast
  have far: "\<not> same k' k" if "k' \<in> fst ` set kvs" for k'
    using Cons.prems(2) that same_sym by (auto simp: kv)
  have "sorted_wrt (\<lambda>a b. \<not> same a b) (map fst kvs)" using Cons.prems(2) by simp
  moreover have "\<forall>(k, v) \<in> set kvs. k \<noteq> NULL \<and> v \<noteq> NULL \<and> lookup s1 k = None"
  proof
    fix x assume x: "x \<in> set kvs"
    then have "\<not> same (fst x) k" by (intro far) simp
    moreover have "case x of (k, v) \<Rightarrow> k \<noteq> NULL \<and> v \<noteq> NULL \<and> lookup s k = None" using Cons.prems(3) x by simp
    ultimately show "case x of (k, v) \<Rightarrow> k \<noteq> NULL \<and> v \<noteq> NULL \<and> lookup s1 k = None"
      by (auto simp: s1(3))
  qed
  ultimately obtain s' where s': "add_all s1 kvs = Some s'" "inv s'"
    "\<forall>(k, v) \<in> set kvs. \<forall>k'. same k' k \<longrightarrow> lookup s' k' = Some v"
    "\<forall>k. (\<forall>k' \<in> fst ` set kvs. \<not> same k k') \<longrightarrow> lookup s' k = lookup s1 k"
    using Cons.IH [OF s1(2)] by blast
  have "lookup s' k' = Some v" if "same k' k" for k'
  proof -
    have "\<forall>k'' \<in> fst ` set kvs. \<not> same k' k''" using far that same_sym same_trans by blast
    with s'(4) that show ?thesis by (simp add: s1(3))
  qed
  with s' s1 kv show ?case by auto
qed simp

text \<open>What was put under a key is found under it, and under every key the comparison takes for it.\<close>

lemma add_all_get:
  assumes "inv s" "sorted_wrt (\<lambda>a b. \<not> same a b) (map fst kvs)" "\<forall>(k, v) \<in> set kvs. k \<noteq> NULL \<and> v \<noteq> NULL \<and> lookup s k = None"
    and "(k, v) \<in> set kvs" "same k' k"
  shows "\<exists>s1 s2. add_all s kvs = Some s1 \<and> get s1 k' = Some (v, s2)"
proof -
  from add_all_lookup [OF assms(1-3)] obtain s1 where "add_all s kvs = Some s1" "inv s1" "lookup s1 k' = Some v"
    using assms(4,5) by blast
  with get_value [of s1 k'] show ?thesis by auto
qed

text \<open>What was added can be removed again, which leaves the dictionary with what it held before.\<close>

lemma remove_all_lookup:
  assumes "inv s"
  shows "\<exists>s'. remove_all s ks = Some s' \<and> inv s' \<and>
    lookup s' = (\<lambda>k. if \<exists>k' \<in> set ks. same k k' then None else lookup s k)"
  using assms
proof (induction ks arbitrary: s)
  case (Cons k ks)
  from remove_old [OF Cons.prems, of k] obtain s1 where
    "remove s k = Some s1" "inv s1" "lookup s1 = (\<lambda>k'. if same k' k then None else lookup s k')" by blast
  with Cons.IH [of s1] show ?case by (auto simp: fun_eq_iff)
qed simp

end

end
