(* ===== verification/Queue.thy ===== *)
theory Queue
  imports Coll_Spec
begin

text \<open>
  The ring buffer of winpr/libwinpr/utils/collections/Queue.c. None is an access outside the array.
  The record keeps, beside the fields of \<open>wQueue\<close>, how often the lock is held and the objects
  passed to \<open>fnObjectFree\<close> (in order), when that callback is set. Capacities stay below 2^31, so
  the C ints do not overflow.
\<close>

record wQueue =
  q_capacity :: nat
  growthFactor :: nat
  q_synchronized :: bool
  q_array :: "ptr list"
  q_head :: nat
  q_tail :: nat
  q_size :: nat
  q_lock :: int
  q_event :: bool
  fnObjectFree :: bool
  fnObjectEquals :: "ptr \<Rightarrow> ptr \<Rightarrow> bool"
  q_freed :: "ptr list"

definition q_enter :: "wQueue \<Rightarrow> wQueue" where
  "q_enter q = (if q_synchronized q then q\<lparr>q_lock := q_lock q + 1\<rparr> else q)"

definition q_leave :: "wQueue \<Rightarrow> wQueue" where
  "q_leave q = (if q_synchronized q then q\<lparr>q_lock := q_lock q - 1\<rparr> else q)"

definition Queue_Count :: "wQueue \<Rightarrow> nat \<times> wQueue" where
  "Queue_Count q = (let q = q_enter q; ret = q_size q in (ret, q_leave q))"

definition Queue_Lock :: "wQueue \<Rightarrow> wQueue" where
  "Queue_Lock q = q\<lparr>q_lock := q_lock q + 1\<rparr>"

definition Queue_Unlock :: "wQueue \<Rightarrow> wQueue" where
  "Queue_Unlock q = q\<lparr>q_lock := q_lock q - 1\<rparr>"

fun clear_loop :: "nat \<Rightarrow> nat \<Rightarrow> wQueue \<Rightarrow> wQueue option" where
  \<comment> \<open>The loop of \<open>Queue_Clear\<close>; it takes fewer than \<open>capacity\<close> rounds, which is the fuel.\<close>
  "clear_loop fuel index q =
     (if index = q_tail q then Some q
      else case fuel of
        0 \<Rightarrow> None
      | Suc fuel \<Rightarrow>
          if length (q_array q) \<le> index then None
          else
            (let q = (if fnObjectFree q then q\<lparr>q_freed := q_freed q @ [q_array q ! index]\<rparr> else q);
                 q = q\<lparr>q_array := (q_array q)[index := NULL]\<rparr>
             in clear_loop fuel ((index + 1) mod q_capacity q) q))"

definition Queue_Clear :: "wQueue \<Rightarrow> wQueue option" where
  "Queue_Clear q =
     (let q = q_enter q
      in map_option (\<lambda>q. q_leave (q\<lparr>q_size := 0, q_head := 0, q_tail := 0\<rparr>))
           (clear_loop (q_capacity q) (q_head q) q))"

definition Queue_Contains :: "wQueue \<Rightarrow> ptr \<Rightarrow> (bool \<times> wQueue) option" where
  "Queue_Contains q obj =
     (let q = q_enter q
      in if length (q_array q) < q_tail q then None
         else Some (\<exists>x \<in> set (take (q_tail q) (q_array q)). fnObjectEquals q x obj, q_leave q))"

definition Queue_Enqueue :: "allocator \<Rightarrow> wQueue \<Rightarrow> ptr \<Rightarrow> (bool \<times> wQueue) option" where
  "Queue_Enqueue grow q obj =
     (let q = q_enter q;
          put = (\<lambda>q. if length (q_array q) \<le> q_tail q then None
                     else Some (True, q_leave (q\<lparr>q_array := (q_array q)[q_tail q := obj],
                                  q_tail := (q_tail q + 1) mod q_capacity q,
                                  q_size := q_size q + 1, q_event := True\<rparr>)))
      in if q_size q = q_capacity q then
           (let old_capacity = q_capacity q; new_capacity = q_capacity q * growthFactor q
            in case grow (new_capacity - old_capacity) of
                 None \<Rightarrow> Some (False, q_leave q)
               | Some cells \<Rightarrow>
                   if new_capacity < old_capacity + old_capacity then None
                   else
                     (let array = q_array q @ replicate old_capacity NULL @ drop old_capacity cells;
                          q = q\<lparr>q_capacity := new_capacity, q_array := array\<rparr>
                      in if q_tail q < old_capacity then
                           put (q\<lparr>q_array := take old_capacity array @ take (q_tail q) array
                                              @ drop (old_capacity + q_tail q) array,
                                  q_tail := q_tail q + old_capacity\<rparr>)
                         else put q))
         else put q)"

definition Queue_Dequeue :: "wQueue \<Rightarrow> (ptr \<times> wQueue) option" where
  "Queue_Dequeue q =
     (let q = q_enter q
      in if q_size q > 0 \<and> length (q_array q) \<le> q_head q then None
         else
           (let obj = (if q_size q > 0 then q_array q ! q_head q else NULL);
                q = (if q_size q > 0
                     then q\<lparr>q_array := (q_array q)[q_head q := NULL],
                            q_head := (q_head q + 1) mod q_capacity q, q_size := q_size q - 1\<rparr>
                     else q);
                q = (if q_size q < 1 then q\<lparr>q_event := False\<rparr> else q)
            in Some (obj, q_leave q)))"

definition Queue_Peek :: "wQueue \<Rightarrow> (ptr \<times> wQueue) option" where
  "Queue_Peek q =
     (let q = q_enter q
      in if q_size q > 0 \<and> length (q_array q) \<le> q_head q then None
         else Some (if q_size q > 0 then q_array q ! q_head q else NULL, q_leave q))"

definition Queue_New :: "bool \<Rightarrow> bool \<Rightarrow> bool \<Rightarrow> bool \<Rightarrow> bool \<Rightarrow> int \<Rightarrow> int \<Rightarrow> wQueue option" where
  \<comment> \<open>The first four arguments: whether the two allocations, the event and the lock are created.\<close>
  "Queue_New calloc_ok array_ok event_ok lock_ok synchronized capacity growth =
     (if \<not> calloc_ok then None
      else
        (let cap = (if capacity > 0 then nat capacity else 32);
             factor = (if growth > 0 then nat growth else 2)
         in if \<not> array_ok then None
            else if \<not> event_ok then None
            else if \<not> lock_ok then None
            else Some \<lparr>q_capacity = cap, growthFactor = factor, q_synchronized = synchronized,
                q_array = replicate cap NULL, q_head = 0, q_tail = 0, q_size = 0, q_lock = 0,
                q_event = False, fnObjectFree = False, fnObjectEquals = (=), q_freed = []\<rparr>))"

definition Queue_Free :: "wQueue \<Rightarrow> ptr list option" where
  \<comment> \<open>The queue is gone; what remains is the objects that were released.\<close>
  "Queue_Free q = map_option q_freed (Queue_Clear q)"

declare clear_loop.simps [simp del]

subsection \<open>The queue as a list\<close>

definition queue_wf :: "wQueue \<Rightarrow> bool" where
  "queue_wf q \<longleftrightarrow> 0 < q_capacity q \<and> length (q_array q) = q_capacity q \<and> q_size q \<le> q_capacity q \<and>
     q_head q < q_capacity q \<and> q_tail q = (q_head q + q_size q) mod q_capacity q \<and> 2 \<le> growthFactor q"

definition queue_elems :: "wQueue \<Rightarrow> ptr list" where
  "queue_elems q = map (\<lambda>i. q_array q ! ((q_head q + i) mod q_capacity q)) [0..<q_size q]"

lemma queue_elems_enter [simp]: "queue_elems (q_enter q) = queue_elems q" "queue_elems (q_leave q) = queue_elems q"
  by (simp_all add: queue_elems_def q_enter_def q_leave_def)

lemma queue_wf_enter [simp]: "queue_wf (q_enter q) = queue_wf q" "queue_wf (q_leave q) = queue_wf q"
  by (simp_all add: queue_wf_def q_enter_def q_leave_def)

lemma ring_index_inj:
  assumes "i < c" "j < c" "(h + i) mod c = (h + j) mod (c :: nat)"
  shows "i = j"
proof -
  have "i = j" if "i \<le> j" "j < c" "(h + j) mod c = (h + i) mod c" for i j
  proof -
    from that have "c dvd (h + j) - (h + i)" by (simp only: mod_eq_dvd_iff_nat add_left_mono)
    with that show ?thesis by (auto dest: dvd_imp_le)
  qed
  from this [of i j] this [of j i] assms show ?thesis by (cases "i \<le> j") simp_all
qed

lemma queue_elems_nth [simp]:
  "length (queue_elems q) = q_size q"
  "i < q_size q \<Longrightarrow> queue_elems q ! i = q_array q ! ((q_head q + i) mod q_capacity q)"
  by (simp_all add: queue_elems_def)

lemma queue_add_room:
  \<comment> \<open>Writing at the tail of a ring with room appends.\<close>
  assumes "0 < c" "length a = c" "n < c" "h < c"
  shows "map (\<lambda>i. a[(h + n) mod c := x] ! ((h + i) mod c)) [0..<Suc n]
    = map (\<lambda>i. a ! ((h + i) mod c)) [0..<n] @ [x]"
proof -
  have "a[(h + n) mod c := x] ! ((h + i) mod c) = a ! ((h + i) mod c)" if "i < n" for i
    using that ring_index_inj [of i c n h] assms by (intro nth_list_update_neq) auto
  with assms show ?thesis by simp
qed

lemma Queue_Enqueue_room:
  assumes "queue_wf q" "q_size q \<noteq> q_capacity q"
  shows "\<exists>q'. Queue_Enqueue grow q x = Some (True, q') \<and> queue_wf q' \<and> queue_elems q' = queue_elems q @ [x]"
proof -
  have wf: "0 < q_capacity q" "length (q_array q) = q_capacity q" "q_size q < q_capacity q" "q_head q < q_capacity q"
    "q_tail q = (q_head q + q_size q) mod q_capacity q" "2 \<le> growthFactor q"
    using assms by (auto simp: queue_wf_def)
  let ?q = "(q_enter q)\<lparr>q_array := (q_array q)[q_tail q := x], q_tail := (q_tail q + 1) mod q_capacity q,
      q_size := q_size q + 1, q_event := True\<rparr>"
  have "q_tail q < q_capacity q" using wf(1,5) by simp
  then have "Queue_Enqueue grow q x = Some (True, q_leave ?q)"
    using wf(2,3) by (simp add: Queue_Enqueue_def Let_def q_enter_def)
  moreover have "queue_wf ?q"
    using wf by (simp add: queue_wf_def q_enter_def mod_simps)
  moreover have "queue_elems ?q = queue_elems q @ [x]"
    using queue_add_room [OF wf(1,2,3,4), of x] wf(5) by (simp add: queue_elems_def q_enter_def)
  ultimately show ?thesis by auto
qed

lemma Queue_Enqueue_grow:
  assumes "queue_wf q" "q_size q = q_capacity q" "grow (q_capacity q * growthFactor q - q_capacity q) = Some cells"
    "length cells = q_capacity q * growthFactor q - q_capacity q"
  shows "\<exists>q'. Queue_Enqueue grow q x = Some (True, q') \<and> queue_wf q' \<and> queue_elems q' = queue_elems q @ [x]"
proof -
  define c where "c = q_capacity q"
  define h where "h = q_head q"
  define n where "n = c * growthFactor q"
  define a where "a = q_array q"
  have wf: "0 < c" "length a = c" "h < c" "q_tail q = h" "2 \<le> growthFactor q"
    using assms by (auto simp: queue_wf_def c_def h_def a_def)
  have n: "2 * c \<le> n" using wf(1,5) by (simp add: n_def mult.commute)
  let ?b = "a @ replicate c NULL @ drop c cells"
  let ?d = "take c ?b @ take h ?b @ drop (c + h) ?b"
  have "length cells = n - c" using assms(4) by (simp add: c_def n_def)
  then have lens: "length ?b = n" using n wf by simp
  have d: "length ?d = n" "\<And>i. i < c \<Longrightarrow> ?d ! (h + i) = a ! ((h + i) mod c)"
  proof -
    show "length ?d = n" using lens n wf by simp
    fix i assume i: "i < c"
    show "?d ! (h + i) = a ! ((h + i) mod c)"
    proof (cases "h + i < c")
      case True
      then show ?thesis using wf by (simp add: nth_append)
    next
      case False
      then have "(h + i) mod c = h + i - c" using i wf by (simp add: le_mod_geq)
      moreover have "h + i - c < h" using i False by simp
      ultimately show ?thesis using False wf by (simp add: nth_append)
    qed
  qed
  let ?q = "(q_enter q)\<lparr>q_capacity := n, q_array := ?d[h + c := x], q_tail := (h + c + 1) mod n,
      q_size := c + 1, q_event := True\<rparr>"
  have "h + c < n" using n wf by simp
  have "Queue_Enqueue grow q x = Some (True, q_leave ?q)"
    using wf assms n d(1) \<open>h + c < n\<close> lens
    by (simp add: Queue_Enqueue_def Let_def q_enter_def flip: c_def h_def a_def n_def)
  moreover have "queue_wf ?q"
    using wf n d(1) assms(1) by (simp add: queue_wf_def q_enter_def flip: c_def h_def a_def n_def)
  moreover have "queue_elems ?q = queue_elems q @ [x]"
  proof -
    have "map (\<lambda>i. ?d[(h + c) mod n := x] ! ((h + i) mod n)) [0..<Suc c] = map (\<lambda>i. ?d ! ((h + i) mod n)) [0..<c] @ [x]"
      using n wf d(1) by (intro queue_add_room) auto
    moreover have "(h + c) mod n = h + c" using \<open>h + c < n\<close> by simp
    moreover have "map (\<lambda>i. ?d ! ((h + i) mod n)) [0..<c] = map (\<lambda>i. a ! ((h + i) mod c)) [0..<c]"
    proof (rule map_cong [OF refl])
      fix i assume "i \<in> set [0..<c]"
      then have "i < c" "(h + i) mod n = h + i" using \<open>h + c < n\<close> by simp_all
      with d(2) show "?d ! ((h + i) mod n) = a ! ((h + i) mod c)" by simp
    qed
    ultimately show ?thesis
      using assms(2) by (simp add: queue_elems_def q_enter_def flip: c_def h_def a_def n_def)
  qed
  ultimately show ?thesis by auto
qed

lemma Queue_Enqueue_refines:
  assumes "queue_wf q" "grow_ok grow"
  shows "\<exists>q'. Queue_Enqueue grow q x = Some (True, q') \<and> queue_wf q' \<and> queue_elems q' = queue_elems q @ [x]"
proof (cases "q_size q = q_capacity q")
  case True
  obtain cells where "grow (q_capacity q * growthFactor q - q_capacity q) = Some cells"
    "length cells = q_capacity q * growthFactor q - q_capacity q"
    using assms(2) by (rule grow_okE)
  with Queue_Enqueue_grow [OF assms(1) True] show ?thesis by blast
qed (rule Queue_Enqueue_room [OF assms(1)])

lemma Queue_Dequeue_refines:
  assumes "queue_wf q"
  shows "\<exists>q'. Queue_Dequeue q = Some (fst (take_first (queue_elems q)), q') \<and> queue_wf q' \<and>
    queue_elems q' = snd (take_first (queue_elems q))"
proof (cases "q_size q")
  case 0
  then have "queue_elems q = []" by (simp add: queue_elems_def)
  moreover have "queue_wf ((q_enter q)\<lparr>q_event := False\<rparr>)" "queue_elems ((q_enter q)\<lparr>q_event := False\<rparr>) = []"
    using assms 0 by (simp_all add: queue_wf_def queue_elems_def q_enter_def)
  ultimately show ?thesis
    using 0 by (auto simp: Queue_Dequeue_def Let_def q_enter_def)
next
  case (Suc n)
  let ?c = "q_capacity q" and ?h = "q_head q" and ?a = "q_array q"
  have wf: "0 < ?c" "length ?a = ?c" "Suc n \<le> ?c" "?h < ?c"
    using assms Suc by (auto simp: queue_wf_def)
  let ?q = "(q_enter q)\<lparr>q_array := ?a[?h := NULL], q_head := (?h + 1) mod ?c, q_size := n\<rparr>"
  let ?r = "if n < 1 then ?q\<lparr>q_event := False\<rparr> else ?q"
  have "Queue_Dequeue q = Some (?a ! ?h, q_leave ?r)"
    using wf Suc by (simp add: Queue_Dequeue_def Let_def q_enter_def)
  moreover have e: "queue_elems q = ?a ! ?h # map (\<lambda>i. ?a ! ((?h + Suc i) mod ?c)) [0..<n]"
    using wf by (simp add: queue_elems_def Suc upt_conv_Cons map_Suc_upt [symmetric] del: upt_Suc)
  moreover have "queue_wf ?r"
    using assms Suc by (auto simp: queue_wf_def q_enter_def mod_simps)
  moreover have "queue_elems ?r = map (\<lambda>i. ?a ! ((?h + Suc i) mod ?c)) [0..<n]"
  proof -
    have "((?h + 1) mod ?c + i) mod ?c = (?h + Suc i) mod ?c" for i by (simp add: mod_simps)
    moreover have "?a[?h := NULL] ! ((?h + Suc i) mod ?c) = ?a ! ((?h + Suc i) mod ?c)" if "i < n" for i
      using ring_index_inj [of "Suc i" ?c 0 ?h] wf that by (intro nth_list_update_neq) auto
    ultimately show ?thesis by (simp add: queue_elems_def q_enter_def)
  qed
  ultimately show ?thesis by auto
qed

definition enqueued :: "allocator \<Rightarrow> wQueue \<Rightarrow> ptr \<Rightarrow> wQueue option" where
  \<comment> \<open>An enqueue that returned TRUE.\<close>
  "enqueued grow q x = (case Queue_Enqueue grow q x of Some (True, q') \<Rightarrow> Some q' | _ \<Rightarrow> None)"

interpretation ring: fifo "\<lambda>q. queue_wf q \<and> grow_ok grow" queue_elems "enqueued grow" Queue_Dequeue
  for grow
proof
  fix q :: wQueue and x :: ptr
  assume "queue_wf q \<and> grow_ok grow"
  with Queue_Enqueue_refines [of q grow x]
  show "\<exists>q'. enqueued grow q x = Some q' \<and> (queue_wf q' \<and> grow_ok grow) \<and> queue_elems q' = fifo_add (queue_elems q) x"
    by (auto simp: enqueued_def fifo_add_def)
qed (use Queue_Dequeue_refines in blast)

subsection \<open>Clearing\<close>

lemma clear_loop_frees:
  assumes "length (q_array q) = c" "q_capacity q = c" "q_tail q = (h + n) mod c" "n < c" "h < c"
    and "i \<le> n" "n - i \<le> fuel"
  shows "\<exists>a. clear_loop fuel ((h + i) mod c) q =
    Some (q\<lparr>q_array := a, q_freed := q_freed q @
      (if fnObjectFree q then map (\<lambda>j. q_array q ! ((h + j) mod c)) [i..<n] else [])\<rparr>) \<and> length a = c"
  using assms
proof (induction "n - i" arbitrary: i fuel q)
  case 0
  then have "i = n" by simp
  with 0 show ?case by (intro exI [of _ "q_array q"]) (simp add: clear_loop.simps)
next
  case (Suc k)
  then obtain f where f: "fuel = Suc f" by (cases fuel) auto
  have i: "i < n" using Suc.hyps(2) by simp
  have ne: "(h + i) mod c \<noteq> q_tail q"
    using ring_index_inj [of i c n h] Suc.prems i by auto
  have lt: "(h + i) mod c < length (q_array q)" using Suc.prems by simp
  let ?x = "q_array q ! ((h + i) mod c)"
  let ?q = "(if fnObjectFree q then q\<lparr>q_freed := q_freed q @ [?x]\<rparr> else q)\<lparr>q_array := (q_array q)[(h + i) mod c := NULL]\<rparr>"
  have step: "clear_loop fuel ((h + i) mod c) q = clear_loop f ((h + Suc i) mod c) ?q"
    using ne lt Suc.prems(2) by (subst clear_loop.simps) (simp add: f Let_def mod_simps)
  have "\<exists>a. clear_loop f ((h + Suc i) mod c) ?q =
    Some (?q\<lparr>q_array := a, q_freed := q_freed ?q @
      (if fnObjectFree ?q then map (\<lambda>j. q_array ?q ! ((h + j) mod c)) [Suc i..<n] else [])\<rparr>) \<and> length a = c"
    using Suc.hyps(2) Suc.prems i f by (intro Suc.hyps(1)) auto
  then obtain a where a: "clear_loop f ((h + Suc i) mod c) ?q =
    Some (?q\<lparr>q_array := a, q_freed := q_freed ?q @
      (if fnObjectFree ?q then map (\<lambda>j. q_array ?q ! ((h + j) mod c)) [Suc i..<n] else [])\<rparr>)" "length a = c"
    by blast
  have m: "map (\<lambda>j. q_array ?q ! ((h + j) mod c)) [Suc i..<n] = map (\<lambda>j. q_array q ! ((h + j) mod c)) [Suc i..<n]"
  proof (rule map_cong [OF refl])
    fix j assume "j \<in> set [Suc i..<n]"
    then have "(h + i) mod c \<noteq> (h + j) mod c"
      using ring_index_inj [of i c j h] Suc.prems(4) by auto
    then show "q_array ?q ! ((h + j) mod c) = q_array q ! ((h + j) mod c)" by simp
  qed
  show ?case
    unfolding step a(1) m using a(2) i
    by (intro exI [of _ a]) (cases "fnObjectFree q"; simp add: upt_conv_Cons)
qed

lemma Queue_Clear_result:
  assumes "queue_wf q"
  shows "\<exists>q'. Queue_Clear q = Some q' \<and> queue_wf q' \<and> queue_elems q' = [] \<and>
    q_freed q' = q_freed q @ (if fnObjectFree q \<and> q_size q \<noteq> q_capacity q then queue_elems q else [])"
proof (cases "q_size q = q_capacity q")
  case True
  then have "q_tail q = q_head q" using assms by (simp add: queue_wf_def)
  then show ?thesis
    using assms True
    by (auto simp: Queue_Clear_def Let_def clear_loop.simps q_enter_def q_leave_def queue_wf_def queue_elems_def)
next
  case False
  let ?q = "q_enter q"
  have wf: "length (q_array ?q) = q_capacity q" "q_capacity ?q = q_capacity q"
    "q_tail ?q = (q_head q + q_size q) mod q_capacity q" "q_size q < q_capacity q" "q_head q < q_capacity q"
    using assms False by (auto simp: queue_wf_def q_enter_def)
  from clear_loop_frees [OF wf, of 0 "q_capacity q"] wf(5) obtain a where
    a: "clear_loop (q_capacity q) (q_head q) ?q = Some (?q\<lparr>q_array := a, q_freed := q_freed ?q @
      (if fnObjectFree ?q then map (\<lambda>j. q_array ?q ! ((q_head q + j) mod q_capacity q)) [0..<q_size q] else [])\<rparr>)"
    "length a = q_capacity q"
    using wf(4) by auto
  let ?r = "?q\<lparr>q_array := a, q_freed := q_freed ?q @
      (if fnObjectFree ?q then map (\<lambda>j. q_array ?q ! ((q_head q + j) mod q_capacity q)) [0..<q_size q] else [])\<rparr>"
  have "Queue_Clear q = Some (q_leave (?r\<lparr>q_size := 0, q_head := 0, q_tail := 0\<rparr>))"
  proof -
    have "q_head ?q = q_head q" by (simp add: q_enter_def)
    then show ?thesis by (simp only: Queue_Clear_def Let_def wf(2) a(1) option.map)
  qed
  then show ?thesis
    using assms False a(2) by (simp add: q_enter_def q_leave_def queue_wf_def queue_elems_def)
qed

lemma Queue_lock_balanced:
  "Queue_Enqueue grow q x = Some r \<Longrightarrow> q_lock (snd r) = q_lock q"
  "Queue_Dequeue q = Some s \<Longrightarrow> q_lock (snd s) = q_lock q"
  "Queue_Peek q = Some s \<Longrightarrow> q_lock (snd s) = q_lock q"
  "Queue_Contains q x = Some t \<Longrightarrow> q_lock (snd t) = q_lock q"
  "q_lock (snd (Queue_Count q)) = q_lock q"
  by (auto simp: Queue_Enqueue_def Queue_Dequeue_def Queue_Peek_def Queue_Contains_def Queue_Count_def
      Let_def q_enter_def q_leave_def split: if_splits option.splits)

lemma Queue_New_empty:
  assumes "Queue_New c a e l sync cap growth = Some q" "growth \<noteq> 1"
  shows "queue_wf q \<and> queue_elems q = []"
  using assms by (auto simp: Queue_New_def Let_def queue_wf_def queue_elems_def split: if_splits)

subsection \<open>Properties\<close>



text \<open>clearing a queue leaves it empty and well-formed, and passes every element to the object's
  free callback once and in order, unless the buffer is exactly full: then no element is released.\<close>

theorem Queue_Clear_frees:
  assumes "queue_wf q" "fnObjectFree q"
  shows "\<exists>q'. Queue_Clear q = Some q' \<and> queue_wf q' \<and> queue_elems q' = [] \<and>
    q_freed q' = q_freed q @ (if q_size q = q_capacity q then [] else queue_elems q)"
  using Queue_Clear_result [OF assms(1)] assms(2) by auto

definition full_queue :: wQueue where
  "full_queue = (the (Queue_New True True True True False 2 2))
     \<lparr>q_array := [11, 12], q_size := 2, fnObjectFree := True\<rparr>"

theorem Queue_Clear_frees_witness:
  "queue_elems full_queue = [11, 12] \<and> (\<exists>q'. Queue_Clear full_queue = Some q' \<and> q_freed q' = [])"
proof -
  have "queue_wf full_queue" "fnObjectFree full_queue" "queue_elems full_queue = [11, 12]"
    "q_freed full_queue = []" "q_size full_queue = q_capacity full_queue"
    by (simp_all add: full_queue_def Queue_New_def queue_wf_def queue_elems_def upt_rec)
  with Queue_Clear_frees [of full_queue] show ?thesis by auto
qed

text \<open>\<open>Queue_Contains\<close> can deny an element that is in the queue: it scans the array from index 0 to
  the tail, which misses what lies between the head and the end of a buffer that has wrapped around.\<close>

theorem Queue_Contains_misses:
  "case Queue_Enqueue zero_grow (the (Queue_New True True True True False 2 2)) 11 of
     Some (_, q1) \<Rightarrow> (case Queue_Enqueue zero_grow q1 12 of
       Some (_, q2) \<Rightarrow> (case Queue_Dequeue q2 of
         Some (_, q3) \<Rightarrow> (case Queue_Enqueue zero_grow q3 13 of
           Some (_, q4) \<Rightarrow> queue_elems q4 = [12, 13] \<and> map_option fst (Queue_Contains q4 12) = Some False
         | None \<Rightarrow> False) | None \<Rightarrow> False) | None \<Rightarrow> False) | None \<Rightarrow> False"
  by code_simp

text \<open>A queue created with growth factor one (which \<open>Queue_New\<close> accepts) overruns its array when an
  object is added to the full buffer: the code clears as many new cells as there were old ones,
  although it added none.\<close>

theorem Queue_growth_one_overruns:
  assumes "Queue_New True True True True sync cap 1 = Some q" "grow_ok grow"
    and "q' = q\<lparr>q_size := q_capacity q, q_array := a\<rparr>"
  shows "Queue_Enqueue grow q' x = None"
proof -
  have "0 < q_capacity q" "growthFactor q = 1"
    using assms(1) by (auto simp: Queue_New_def Let_def split: if_splits)
  moreover obtain cells where "grow 0 = Some cells" using assms(2) by (rule grow_okE)
  ultimately show ?thesis using assms(3) by (simp add: Queue_Enqueue_def Let_def q_enter_def)
qed

theorem Queue_growth_one_overruns_witness:
  "Queue_Enqueue zero_grow ((the (Queue_New True True True True False 1 1))\<lparr>q_size := 1, q_array := [11]\<rparr>) 12 = None"
  by (rule Queue_growth_one_overruns [where q = "the (Queue_New True True True True False 1 1)" and a = "[11]"
        and sync = False and cap = 1 and grow = zero_grow])
    (simp_all add: Queue_New_def)

end
