(* ===== verification/Stack.thy ===== *)
theory Stack
  imports Coll_Spec
begin

text \<open>
  The stack of winpr/libwinpr/utils/collections/Stack.c, an array that doubles. None is an access
  outside the array; the record keeps how often the lock is held and what was passed to
  \<open>fnObjectFree\<close>, as for the queue.
\<close>

record wStack =
  st_capacity :: nat
  st_synchronized :: bool
  st_array :: "ptr list"
  st_size :: nat
  st_lock :: int
  st_fnObjectFree :: bool
  st_fnObjectEquals :: "ptr \<Rightarrow> ptr \<Rightarrow> bool"
  st_freed :: "ptr list"

definition st_enter :: "wStack \<Rightarrow> wStack" where
  "st_enter s = (if st_synchronized s then s\<lparr>st_lock := st_lock s + 1\<rparr> else s)"

definition st_leave :: "wStack \<Rightarrow> wStack" where
  "st_leave s = (if st_synchronized s then s\<lparr>st_lock := st_lock s - 1\<rparr> else s)"

definition Stack_Count :: "wStack \<Rightarrow> nat \<times> wStack" where
  "Stack_Count s = (let s = st_enter s; ret = st_size s in (ret, st_leave s))"

definition Stack_IsSynchronized :: "wStack \<Rightarrow> bool" where
  "Stack_IsSynchronized s = st_synchronized s"

definition Stack_Clear :: "wStack \<Rightarrow> wStack option" where
  "Stack_Clear s =
     (let s = st_enter s; n = st_size s
      in if length (st_array s) < n then None
         else
           (let s = (if st_fnObjectFree s then s\<lparr>st_freed := st_freed s @ take n (st_array s)\<rparr> else s);
                s = s\<lparr>st_array := replicate n NULL @ drop n (st_array s), st_size := 0\<rparr>
            in Some (st_leave s)))"

definition Stack_Contains :: "wStack \<Rightarrow> ptr \<Rightarrow> (bool \<times> wStack) option" where
  "Stack_Contains s obj =
     (let s = st_enter s
      in if length (st_array s) < st_size s then None
         else Some (\<exists>x \<in> set (take (st_size s) (st_array s)). st_fnObjectEquals s x obj, st_leave s))"

definition Stack_Push :: "allocator \<Rightarrow> wStack \<Rightarrow> ptr \<Rightarrow> wStack option" where
  \<comment> \<open>When the reallocation fails the routine returns at once, without leaving the critical section.\<close>
  "Stack_Push grow s obj =
     (let s = st_enter s;
          put = (\<lambda>s. if length (st_array s) \<le> st_size s then None
                     else Some (st_leave (s\<lparr>st_array := (st_array s)[st_size s := obj],
                                            st_size := st_size s + 1\<rparr>)))
      in if st_size s + 1 \<ge> st_capacity s then
           (let new_cap = st_capacity s * 2
            in case grow (new_cap - st_capacity s) of
                 None \<Rightarrow> Some s
               | Some cells \<Rightarrow> put (s\<lparr>st_array := st_array s @ cells, st_capacity := new_cap\<rparr>))
         else put s)"

definition Stack_Pop :: "wStack \<Rightarrow> (ptr \<times> wStack) option" where
  "Stack_Pop s =
     (let s = st_enter s
      in if st_size s > 0 then
           (let n = st_size s - 1
            in if length (st_array s) \<le> n then None
               else Some (st_array s ! n, st_leave (s\<lparr>st_size := n\<rparr>)))
         else Some (NULL, st_leave s))"

definition Stack_Peek :: "wStack \<Rightarrow> (ptr \<times> wStack) option" where
  "Stack_Peek s =
     (let s = st_enter s
      in if st_size s > 0 then
           (if length (st_array s) \<le> st_size s then None
            else Some (st_array s ! st_size s, st_leave s))
         else Some (NULL, st_leave s))"

definition Stack_New :: "bool \<Rightarrow> allocator \<Rightarrow> bool \<Rightarrow> bool \<Rightarrow> wStack option" where
  \<comment> \<open>The arguments: whether \<open>calloc\<close> succeeds, the allocator of the array, whether the lock can be
    initialised, and the parameter \<open>synchronized\<close>.\<close>
  "Stack_New calloc_ok grow lock_ok synchronized =
     (if \<not> calloc_ok then None
      else
        (case grow 32 of
           None \<Rightarrow> None
         | Some cells \<Rightarrow>
             if synchronized \<and> \<not> lock_ok then None
             else Some \<lparr>st_capacity = 32, st_synchronized = synchronized, st_array = cells, st_size = 0,
                        st_lock = 0, st_fnObjectFree = False, st_fnObjectEquals = (=), st_freed = []\<rparr>))"

definition Stack_Free :: "wStack \<Rightarrow> ptr list option" where
  \<comment> \<open>The stack is gone; what remains is the objects that were released before: it is not cleared.\<close>
  "Stack_Free s = Some (st_freed s)"

subsection \<open>The stack as a list\<close>

definition stack_wf :: "wStack \<Rightarrow> bool" where
  "stack_wf s \<longleftrightarrow> 0 < st_capacity s \<and> length (st_array s) = st_capacity s \<and> st_size s < st_capacity s"

definition stack_elems :: "wStack \<Rightarrow> ptr list" where
  "stack_elems s = rev (take (st_size s) (st_array s))"

lemma stack_enter [simp]:
  "stack_elems (st_enter s) = stack_elems s" "stack_elems (st_leave s) = stack_elems s"
  "stack_wf (st_enter s) = stack_wf s" "stack_wf (st_leave s) = stack_wf s"
  by (simp_all add: stack_elems_def stack_wf_def st_enter_def st_leave_def)

lemma st_enter_fields [simp]:
  "st_size (st_enter s) = st_size s" "st_array (st_enter s) = st_array s" "st_capacity (st_enter s) = st_capacity s"
  by (simp_all add: st_enter_def)

lemma Stack_Push_refines:
  assumes "stack_wf s" "grow_ok grow"
  shows "\<exists>s'. Stack_Push grow s x = Some s' \<and> stack_wf s' \<and> stack_elems s' = x # stack_elems s"
proof -
  have wf: "0 < st_capacity s" "length (st_array s) = st_capacity s" "st_size s < st_capacity s"
    using assms(1) by (simp_all add: stack_wf_def)
  obtain cells where c: "grow (st_capacity s) = Some cells" "length cells = st_capacity s"
    using assms(2) by (rule grow_okE)
  have upd: "rev (take (Suc n) (a[n := x])) = x # rev (take n a)" if "n < length a" for n and a :: "ptr list"
    using that by (simp add: take_Suc_conv_app_nth)
  show ?thesis
  proof (cases "st_size s + 1 \<ge> st_capacity s")
    case True
    let ?s = "(st_enter s)\<lparr>st_capacity := st_capacity s * 2, st_array := (st_array s @ cells)[st_size s := x],
        st_size := st_size s + 1\<rparr>"
    have "Stack_Push grow s x = Some (st_leave ?s)"
      using True wf c by (simp add: Stack_Push_def Let_def)
    moreover have "stack_wf ?s" using wf c(2) by (simp add: stack_wf_def)
    moreover have "stack_elems ?s = x # stack_elems s"
      using upd [of "st_size s" "st_array s @ cells"] wf by (simp add: stack_elems_def)
    ultimately show ?thesis by auto
  next
    case False
    let ?s = "(st_enter s)\<lparr>st_array := (st_array s)[st_size s := x], st_size := st_size s + 1\<rparr>"
    have "Stack_Push grow s x = Some (st_leave ?s)"
      using False wf by (simp add: Stack_Push_def Let_def)
    moreover have "stack_wf ?s" using wf False by (simp add: stack_wf_def)
    moreover have "stack_elems ?s = x # stack_elems s"
      using upd [of "st_size s" "st_array s"] wf by (simp add: stack_elems_def)
    ultimately show ?thesis by auto
  qed
qed

lemma Stack_Pop_refines:
  assumes "stack_wf s"
  shows "\<exists>s'. Stack_Pop s = Some (fst (take_first (stack_elems s)), s') \<and> stack_wf s' \<and>
    stack_elems s' = snd (take_first (stack_elems s))"
proof (cases "st_size s")
  case 0
  then have "stack_elems s = []" by (simp add: stack_elems_def)
  with 0 assms show ?thesis by (simp add: Stack_Pop_def Let_def)
next
  case (Suc n)
  have wf: "length (st_array s) = st_capacity s" "Suc n < st_capacity s"
    using assms Suc by (simp_all add: stack_wf_def)
  have "Stack_Pop s = Some (st_array s ! n, st_leave ((st_enter s)\<lparr>st_size := n\<rparr>))"
    using Suc wf by (simp add: Stack_Pop_def Let_def)
  moreover have "stack_elems s = st_array s ! n # rev (take n (st_array s))"
    using wf by (simp add: stack_elems_def Suc take_Suc_conv_app_nth)
  moreover have "stack_wf ((st_enter s)\<lparr>st_size := n\<rparr>)"
    using wf by (simp add: stack_wf_def)
  moreover have "stack_elems ((st_enter s)\<lparr>st_size := n\<rparr>) = rev (take n (st_array s))"
    by (simp add: stack_elems_def)
  ultimately show ?thesis by simp
qed

interpretation lstack: lifo "\<lambda>s. stack_wf s \<and> grow_ok grow" stack_elems "Stack_Push grow" Stack_Pop
  for grow
proof
  fix s :: wStack and x :: ptr
  assume "stack_wf s \<and> grow_ok grow"
  with Stack_Push_refines [of s grow x]
  show "\<exists>s'. Stack_Push grow s x = Some s' \<and> (stack_wf s' \<and> grow_ok grow) \<and> stack_elems s' = lifo_add (stack_elems s) x"
    by (auto simp: lifo_add_def)
qed (use Stack_Pop_refines in blast)

lemma Stack_New_empty:
  assumes "Stack_New True grow lock_ok sync = Some s" "grow_ok grow"
  shows "stack_wf s \<and> stack_elems s = []"
proof -
  obtain cells where "grow 32 = Some cells" "length cells = 32"
    using assms(2) by (rule grow_okE)
  with assms(1) show ?thesis
    by (auto simp: Stack_New_def stack_wf_def stack_elems_def split: if_splits)
qed

subsection \<open>Properties\<close>

text \<open>The stack is last-in first-out: as long as memory can be allocated, any sequence of pushes and
  pops on a new stack stays in the array and returns exactly what it returns on a list.\<close>

theorem Stack_refines_list:
  assumes "Stack_New True grow lock_ok sync = Some s" "grow_ok grow"
  shows "\<exists>rs s'. run_machine (coll_step (Stack_Push grow) Stack_Pop) s ops = Some (rs, s') \<and>
    run_spec (coll_spec lifo_add) [] ops = (rs, stack_elems s')"
  using lstack.ops.run_refines [of s grow ops] Stack_New_empty [OF assms] assms(2) by auto

theorem Stack_refines_list_witness:
  "\<exists>s. run_machine (coll_step (Stack_Push zero_grow) Stack_Pop) (the (Stack_New True zero_grow True True))
     [Put 11, Put 12, Take, Put 13, Take, Take, Take]
   = Some ([None, None, Some 12, None, Some 13, Some 11, Some NULL], s)"
proof -
  let ?ops = "[Put 11, Put 12, Take, Put 13, Take, Take, Take]"
  obtain s where s: "Stack_New True zero_grow True True = Some s"
    by (simp add: Stack_New_def zero_grow_def)
  have "run_spec (coll_spec lifo_add) [] ?ops = ([None, None, Some 12, None, Some 13, Some 11, Some NULL], [])"
    by (simp add: lifo_add_def)
  with Stack_refines_list [OF s grow_ok_zero, of ?ops] show ?thesis
    unfolding s option.sel by (auto simp del: run_machine.simps run_spec.simps)
qed

text \<open>\<open>Stack_Peek\<close> does not return the object at the top: it returns the cell above it, which on a
  stack that was never higher is whatever the allocation left there.\<close>

theorem Stack_Peek_above_top:
  assumes "stack_wf s" "stack_elems s = x # xs"
  shows "map_option fst (Stack_Peek s) = Some (st_array s ! st_size s) \<and> x = st_array s ! (st_size s - 1)"
proof -
  have n: "0 < st_size s" using assms(2) by (cases "st_size s") (simp_all add: stack_elems_def)
  have "x = last (take (st_size s) (st_array s))"
    using assms(2) by (metis stack_elems_def last_rev list.sel(1) rev_rev_ident hd_rev)
  moreover have "length (take (st_size s) (st_array s)) = st_size s"
    using assms(1) by (simp add: stack_wf_def)
  ultimately have "x = st_array s ! (st_size s - 1)"
    using n by (subst (asm) last_conv_nth) auto
  then show ?thesis
    using n assms(1) by (simp add: Stack_Peek_def Let_def stack_wf_def)
qed

theorem Stack_Peek_above_top_witness:
  "\<exists>s. stack_elems s = [11] \<and> map_option fst (Stack_Peek s) = Some NULL"
proof -
  let ?s = "the (Stack_Push zero_grow (the (Stack_New True zero_grow True False)) 11)"
  have e: "stack_wf ?s" "stack_elems ?s = [11]" "st_array ?s ! st_size ?s = NULL"
    by (simp_all add: Stack_Push_def Stack_New_def zero_grow_def Let_def st_enter_def st_leave_def
        stack_wf_def stack_elems_def numeral_eq_Suc)
  with Stack_Peek_above_top [OF e(1,2)] show ?thesis by auto
qed

text \<open>A push that cannot get memory on a synchronized stack returns with the critical section still
  entered; every other push leaves it as often as it entered it.\<close>

theorem Stack_Push_lock:
  assumes "stack_wf s" "Stack_Push grow s x = Some s'"
  shows "st_lock s' = st_lock s + (if st_synchronized s \<and> st_capacity s \<le> st_size s + 1 \<and>
    grow (st_capacity s) = None then 1 else 0)"
  using assms
  by (auto simp: Stack_Push_def Let_def st_enter_def st_leave_def split: if_splits option.splits)

theorem Stack_Push_lock_witness:
  "\<exists>s'. Stack_Push (\<lambda>_. None) ((the (Stack_New True zero_grow True True))\<lparr>st_size := 31\<rparr>) 11 = Some s' \<and> st_lock s' = 1"
proof -
  let ?s = "(the (Stack_New True zero_grow True True))\<lparr>st_size := 31\<rparr>"
  have s: "stack_wf ?s" "st_synchronized ?s" "st_capacity ?s = 32" "st_size ?s = 31" "st_lock ?s = 0"
    by (simp_all add: stack_wf_def Stack_New_def zero_grow_def)
  then obtain s' where s': "Stack_Push (\<lambda>_. None) ?s 11 = Some s'"
    by (simp add: Stack_Push_def Let_def)
  from Stack_Push_lock [OF s(1) s'] s s' show ?thesis by auto
qed

end
