(* ===== verification/ArrayList.thy ===== *)
theory ArrayList
  imports Coll_Spec
begin

text \<open>
  The growing array of winpr/libwinpr/utils/collections/ArrayList.c. None is an access outside the
  array. The C ints are integers here: sizes and indexes stay below 2^31, so none of the sums
  overflows. The record keeps, beside the fields of \<open>wArrayList\<close>, how often the lock is held and the
  objects passed to \<open>fnObjectFree\<close>, as for the queue.
\<close>

record wArrayList =
  al_capacity :: int
  al_growthFactor :: int
  al_synchronized :: bool
  al_array :: "ptr list"
  al_size :: int
  al_lock :: int
  al_fnObjectFree :: bool
  al_fnObjectEquals :: "ptr \<Rightarrow> ptr \<Rightarrow> bool"
  al_freed :: "ptr list"

definition al_enter :: "wArrayList \<Rightarrow> wArrayList" where
  "al_enter l = (if al_synchronized l then l\<lparr>al_lock := al_lock l + 1\<rparr> else l)"

definition al_leave :: "wArrayList \<Rightarrow> wArrayList" where
  "al_leave l = (if al_synchronized l then l\<lparr>al_lock := al_lock l - 1\<rparr> else l)"

definition ArrayList_Capacity :: "wArrayList \<Rightarrow> int" where
  "ArrayList_Capacity l = al_capacity l"

definition ArrayList_Count :: "wArrayList \<Rightarrow> int" where
  "ArrayList_Count l = al_size l"

definition ArrayList_Items :: "wArrayList \<Rightarrow> ptr list \<times> int" where
  "ArrayList_Items l = (al_array l, al_size l)"

definition ArrayList_IsFixedSized :: "wArrayList \<Rightarrow> bool" where
  "ArrayList_IsFixedSized l = False"

definition ArrayList_IsReadOnly :: "wArrayList \<Rightarrow> bool" where
  "ArrayList_IsReadOnly l = False"

definition ArrayList_IsSynchronized :: "wArrayList \<Rightarrow> bool" where
  "ArrayList_IsSynchronized l = al_synchronized l"

definition ArrayList_Lock :: "wArrayList \<Rightarrow> wArrayList" where
  "ArrayList_Lock l = l\<lparr>al_lock := al_lock l + 1\<rparr>"

definition ArrayList_Unlock :: "wArrayList \<Rightarrow> wArrayList" where
  "ArrayList_Unlock l = l\<lparr>al_lock := al_lock l - 1\<rparr>"

definition ArrayList_GetItem :: "wArrayList \<Rightarrow> int \<Rightarrow> ptr option" where
  "ArrayList_GetItem l index =
     (if index \<ge> 0 \<and> index < al_size l then
        (if index < int (length (al_array l)) then Some (al_array l ! nat index) else None)
      else Some NULL)"

definition ArrayList_SetItem :: "wArrayList \<Rightarrow> int \<Rightarrow> ptr \<Rightarrow> wArrayList option" where
  "ArrayList_SetItem l index obj =
     (if index \<ge> 0 \<and> index < al_size l then
        (if index < int (length (al_array l)) then Some (l\<lparr>al_array := (al_array l)[nat index := obj]\<rparr>)
         else None)
      else Some l)"

definition al_realloc :: "allocator \<Rightarrow> wArrayList \<Rightarrow> wArrayList option" where
  \<comment> \<open>The array grown to \<open>capacity * growthFactor\<close>; None when \<open>realloc\<close> fails.\<close>
  "al_realloc grow l =
     (let newCapacity = al_capacity l * al_growthFactor l;
          n = nat newCapacity; old = length (al_array l)
      in map_option (\<lambda>cells. l\<lparr>al_capacity := newCapacity, al_array := take n (al_array l @ cells)\<rparr>)
           (grow (n - old)))"

definition MoveMemory :: "ptr list \<Rightarrow> int \<Rightarrow> int \<Rightarrow> int \<Rightarrow> ptr list option" where
  "MoveMemory a dst src n =
     (if n = 0 then Some a
      else if n < 0 \<or> dst < 0 \<or> src < 0 \<or> int (length a) < dst + n \<or> int (length a) < src + n then None
      else Some (take (nat dst) a @ take (nat n) (drop (nat src) a) @ drop (nat (dst + n)) a))"

definition ArrayList_Shift :: "allocator \<Rightarrow> wArrayList \<Rightarrow> int \<Rightarrow> int \<Rightarrow> (bool \<times> wArrayList) option" where
  "ArrayList_Shift grow l index count =
     (if count > 0 then
        (case (if al_size l + count > al_capacity l then al_realloc grow l else Some l) of
           None \<Rightarrow> Some (False, l)
         | Some l \<Rightarrow>
             map_option (\<lambda>a. (True, l\<lparr>al_array := a, al_size := al_size l + count\<rparr>))
               (MoveMemory (al_array l) (index + count) index (al_size l - index)))
      else if count < 0 then
        (let chunk = al_size l - index + count
         in map_option (\<lambda>a. (True, l\<lparr>al_array := a, al_size := al_size l + count\<rparr>))
              (if chunk > 0 then MoveMemory (al_array l) index (index - count) chunk else Some (al_array l)))
      else Some (True, l))"

definition ArrayList_Clear :: "wArrayList \<Rightarrow> wArrayList option" where
  "ArrayList_Clear l =
     (let l = al_enter l; n = nat (al_size l)
      in if length (al_array l) < n then None
         else
           (let l = (if al_fnObjectFree l then l\<lparr>al_freed := al_freed l @ take n (al_array l)\<rparr> else l);
                l = l\<lparr>al_array := replicate n NULL @ drop n (al_array l), al_size := 0\<rparr>
            in Some (al_leave l)))"

fun scan_up :: "(ptr \<Rightarrow> bool) \<Rightarrow> ptr list \<Rightarrow> int \<Rightarrow> nat \<Rightarrow> int option option" where
  \<comment> \<open>The loops over \<open>n\<close> cells from \<open>index\<close> on: the index of the first cell that is accepted, if any.\<close>
  "scan_up accept a index 0 = Some None"
| "scan_up accept a index (Suc n) =
     (if index < 0 \<or> int (length a) \<le> index then None
      else if accept (a ! nat index) then Some (Some index)
      else scan_up accept a (index + 1) n)"

fun scan_down :: "(ptr \<Rightarrow> bool) \<Rightarrow> ptr list \<Rightarrow> int \<Rightarrow> nat \<Rightarrow> int option option" where
  \<comment> \<open>The loop of \<open>ArrayList_LastIndexOf\<close> over the \<open>n\<close> cells from \<open>startIndex\<close> on, last cell first.\<close>
  "scan_down accept a startIndex 0 = Some None"
| "scan_down accept a startIndex (Suc n) =
     (let index = startIndex + int n
      in if index < 0 \<or> int (length a) \<le> index then None
         else if accept (a ! nat index) then Some (Some index)
         else scan_down accept a startIndex n)"

definition ArrayList_Contains :: "wArrayList \<Rightarrow> ptr \<Rightarrow> (bool \<times> wArrayList) option" where
  \<comment> \<open>The index is a \<open>DWORD\<close>, so the size is compared as an unsigned number.\<close>
  "ArrayList_Contains l obj =
     (let l = al_enter l
      in map_option (\<lambda>hit. (hit \<noteq> None, al_leave l))
           (scan_up (\<lambda>x. al_fnObjectEquals l x obj) (al_array l) 0
              (nat (if al_size l < 0 then al_size l + 2 ^ 32 else al_size l))))"

definition ArrayList_Add :: "allocator \<Rightarrow> wArrayList \<Rightarrow> ptr \<Rightarrow> (int \<times> wArrayList) option" where
  "ArrayList_Add grow l obj =
     (let l = al_enter l
      in case (if al_size l + 1 > al_capacity l then al_realloc grow l else Some l) of
           None \<Rightarrow> Some (-1, al_leave l)
         | Some l \<Rightarrow>
             if al_size l < 0 \<or> int (length (al_array l)) \<le> al_size l then None
             else
               (let l = l\<lparr>al_array := (al_array l)[nat (al_size l) := obj], al_size := al_size l + 1\<rparr>
                in Some (al_size l, al_leave l)))"

definition ArrayList_Insert :: "allocator \<Rightarrow> wArrayList \<Rightarrow> int \<Rightarrow> ptr \<Rightarrow> (bool \<times> wArrayList) option" where
  "ArrayList_Insert grow l index obj =
     (let l = al_enter l
      in if index \<ge> 0 \<and> index < al_size l then
           (case ArrayList_Shift grow l index 1 of
              None \<Rightarrow> None
            | Some (False, l) \<Rightarrow> Some (False, al_leave l)
            | Some (True, l) \<Rightarrow>
                if int (length (al_array l)) \<le> index then None
                else Some (True, al_leave (l\<lparr>al_array := (al_array l)[nat index := obj]\<rparr>)))
         else Some (True, al_leave l))"

definition al_remove :: "allocator \<Rightarrow> wArrayList \<Rightarrow> int \<Rightarrow> (bool \<times> wArrayList) option" where
  \<comment> \<open>What \<open>ArrayList_Remove\<close> and \<open>ArrayList_RemoveAt\<close> do with the cell they found.\<close>
  "al_remove grow l index =
     (if int (length (al_array l)) \<le> index then None
      else
        (let l = (if al_fnObjectFree l then l\<lparr>al_freed := al_freed l @ [al_array l ! nat index]\<rparr> else l)
         in map_option (\<lambda>(ret, l). (ret, al_leave l)) (ArrayList_Shift grow l index (-1))))"

definition ArrayList_Remove :: "allocator \<Rightarrow> wArrayList \<Rightarrow> ptr \<Rightarrow> (bool \<times> wArrayList) option" where
  "ArrayList_Remove grow l obj =
     (let l = al_enter l
      in case scan_up (\<lambda>x. x = obj) (al_array l) 0 (nat (al_size l)) of
           None \<Rightarrow> None
         | Some None \<Rightarrow> Some (True, al_leave l)
         | Some (Some index) \<Rightarrow> al_remove grow l index)"

definition ArrayList_RemoveAt :: "allocator \<Rightarrow> wArrayList \<Rightarrow> int \<Rightarrow> (bool \<times> wArrayList) option" where
  "ArrayList_RemoveAt grow l index =
     (let l = al_enter l
      in if index \<ge> 0 \<and> index < al_size l then al_remove grow l index
         else Some (True, al_leave l))"

definition ArrayList_IndexOf :: "wArrayList \<Rightarrow> ptr \<Rightarrow> int \<Rightarrow> int \<Rightarrow> (int \<times> wArrayList) option" where
  "ArrayList_IndexOf l obj startIndex count =
     (let l = al_enter l;
          startIndex = (if startIndex < 0 then 0 else startIndex);
          count = (if count < 0 then al_size l else count)
      in map_option (\<lambda>hit. (case hit of None \<Rightarrow> -1 | Some index \<Rightarrow> index, al_leave l))
           (scan_up (\<lambda>x. al_fnObjectEquals l x obj) (al_array l) startIndex (nat count)))"

definition ArrayList_LastIndexOf :: "wArrayList \<Rightarrow> ptr \<Rightarrow> int \<Rightarrow> int \<Rightarrow> (int \<times> wArrayList) option" where
  "ArrayList_LastIndexOf l obj startIndex count =
     (let l = al_enter l;
          startIndex = (if startIndex < 0 then 0 else startIndex);
          count = (if count < 0 then al_size l else count)
      in map_option (\<lambda>hit. (case hit of None \<Rightarrow> -1 | Some index \<Rightarrow> index, al_leave l))
           (scan_down (\<lambda>x. al_fnObjectEquals l x obj) (al_array l) startIndex (nat count)))"

definition ArrayList_New :: "bool \<Rightarrow> allocator \<Rightarrow> bool \<Rightarrow> wArrayList option" where
  \<comment> \<open>The first two arguments: whether \<open>calloc\<close> succeeds, and the allocator of the array. The lock is
    not checked.\<close>
  "ArrayList_New calloc_ok grow synchronized =
     (if \<not> calloc_ok then None
      else map_option (\<lambda>cells. \<lparr>al_capacity = 32, al_growthFactor = 2, al_synchronized = synchronized,
             al_array = cells, al_size = 0, al_lock = 0, al_fnObjectFree = False,
             al_fnObjectEquals = (=), al_freed = []\<rparr>) (grow 32))"

definition ArrayList_Free :: "wArrayList \<Rightarrow> ptr list option" where
  \<comment> \<open>The list is gone; what remains is the objects that were released.\<close>
  "ArrayList_Free l = map_option al_freed (ArrayList_Clear l)"

subsection \<open>The list it stores\<close>

definition al_wf :: "wArrayList \<Rightarrow> bool" where
  "al_wf l \<longleftrightarrow> 0 < al_capacity l \<and> 2 \<le> al_growthFactor l \<and> int (length (al_array l)) = al_capacity l \<and>
     0 \<le> al_size l \<and> al_size l \<le> al_capacity l"

definition al_elems :: "wArrayList \<Rightarrow> ptr list" where
  "al_elems l = take (nat (al_size l)) (al_array l)"

text \<open>What no operation changes.\<close>

definition al_same :: "wArrayList \<Rightarrow> wArrayList \<Rightarrow> bool" where
  "al_same l l' \<longleftrightarrow> al_growthFactor l' = al_growthFactor l \<and> al_synchronized l' = al_synchronized l \<and>
     al_fnObjectFree l' = al_fnObjectFree l \<and> al_fnObjectEquals l' = al_fnObjectEquals l"

lemma al_lock_fields [simp]:
  "al_elems (al_enter l) = al_elems l" "al_elems (al_leave l) = al_elems l"
  "al_wf (al_enter l) = al_wf l" "al_wf (al_leave l) = al_wf l"
  "al_size (al_enter l) = al_size l" "al_size (al_leave l) = al_size l"
  "al_array (al_enter l) = al_array l" "al_array (al_leave l) = al_array l"
  "al_capacity (al_enter l) = al_capacity l" "al_growthFactor (al_enter l) = al_growthFactor l"
  "al_fnObjectFree (al_enter l) = al_fnObjectFree l" "al_fnObjectEquals (al_enter l) = al_fnObjectEquals l"
  "al_freed (al_enter l) = al_freed l" "al_freed (al_leave l) = al_freed l"
  "al_synchronized (al_enter l) = al_synchronized l"
  by (simp_all add: al_elems_def al_wf_def al_enter_def al_leave_def)

lemma al_lock_balance:
  assumes "al_lock l' = al_lock (al_enter l)" "al_synchronized l' = al_synchronized l"
  shows "al_lock (al_leave l') = al_lock l"
  using assms by (simp add: al_enter_def al_leave_def)

lemma al_same_lock [simp]:
  "al_same l (al_enter l') = al_same l l'" "al_same l (al_leave l') = al_same l l'"
  "al_same (al_enter l) l' = al_same l l'" "al_same l l"
  by (auto simp: al_same_def al_enter_def al_leave_def)

lemma length_al_elems: "al_wf l \<Longrightarrow> int (length (al_elems l)) = al_size l"
  by (auto simp: al_elems_def al_wf_def min_def)

lemma take_splice_up:
  assumes "i < n" "c + n \<le> length a"
  shows "take (c + n) (take (i + c) a @ take (n - i) (drop i a) @ drop (c + n) a) = take (i + c) a @ drop i (take n a)"
  using assms by (simp add: min_def drop_take)

lemma take_splice_down:
  assumes "i < n" "n \<le> length a"
  shows "take (n - 1) (take i a @ take (n - Suc i) (drop (Suc i) a) @ drop (n - 1) a) = take i a @ drop (Suc i) (take n a)"
proof -
  obtain k where n: "n = Suc (i + k)" using assms(1) less_iff_Suc_add by auto
  show ?thesis using assms(2) unfolding n by (auto simp: min_def drop_take)
qed

lemma al_realloc_ok:
  assumes "al_wf l" "grow_ok grow"
  obtains cells where "al_realloc grow l = Some (l\<lparr>al_capacity := al_capacity l * al_growthFactor l,
    al_array := al_array l @ cells\<rparr>)"
    "int (length (al_array l @ cells)) = al_capacity l * al_growthFactor l"
proof -
  let ?n = "nat (al_capacity l * al_growthFactor l)"
  from assms(2) obtain cells where c: "grow (?n - length (al_array l)) = Some cells"
    "length cells = ?n - length (al_array l)" by (rule grow_okE)
  have cap: "int (length (al_array l)) = al_capacity l" "0 < al_capacity l" "2 \<le> al_growthFactor l"
    using assms(1) by (simp_all add: al_wf_def)
  have "al_capacity l * 1 \<le> al_capacity l * al_growthFactor l"
    using cap(2,3) by (intro mult_left_mono) auto
  then have "length (al_array l) \<le> ?n" "0 \<le> al_capacity l * al_growthFactor l" using cap by linarith+
  with c that [of cells] show thesis by (simp add: al_realloc_def)
qed

lemma al_room:
  \<comment> \<open>Room for \<open>count\<close> more elements, as \<open>ArrayList_Shift\<close> and \<open>ArrayList_Add\<close> make it: the array grows
    once.\<close>
  assumes "al_wf l" "grow_ok grow" "0 < count"
  obtains l' where
    "(if al_size l + count > al_capacity l then al_realloc grow l else Some l) = Some l'"
    "al_wf l'" "al_same l l'" "al_elems l' = al_elems l" "al_freed l' = al_freed l" "al_size l' = al_size l"
    "al_lock l' = al_lock l"
    "al_size l + count \<le> al_capacity l' \<longleftrightarrow> al_size l + count \<le> al_capacity l * al_growthFactor l"
proof -
  have wf: "0 < al_capacity l" "2 \<le> al_growthFactor l" "int (length (al_array l)) = al_capacity l"
    "0 \<le> al_size l" "al_size l \<le> al_capacity l" using assms(1) by (simp_all add: al_wf_def)
  have dbl: "al_capacity l * 2 \<le> al_capacity l * al_growthFactor l"
    using wf(1,2) by (intro mult_left_mono) auto
  show thesis
  proof (cases "al_size l + count > al_capacity l")
    case True
    obtain cells where c: "al_realloc grow l = Some (l\<lparr>al_capacity := al_capacity l * al_growthFactor l,
        al_array := al_array l @ cells\<rparr>)"
      "int (length (al_array l @ cells)) = al_capacity l * al_growthFactor l"
      using assms(1,2) by (rule al_realloc_ok)
    show thesis
      by (rule that [of "l\<lparr>al_capacity := al_capacity l * al_growthFactor l, al_array := al_array l @ cells\<rparr>"])
        (use True c wf dbl in \<open>auto simp: al_wf_def al_same_def al_elems_def\<close>)
  next
    case False
    have "al_size l + count \<le> al_capacity l * al_growthFactor l"
      using False wf(1) dbl by linarith
    then show thesis by (intro that [of l]) (use False assms(1) in auto)
  qed
qed

lemma ArrayList_Shift_up:
  assumes "al_wf l" "grow_ok grow" "0 \<le> index" "index < al_size l" "0 < count"
  shows "(ArrayList_Shift grow l index count = None \<longleftrightarrow> al_capacity l * al_growthFactor l < al_size l + count) \<and>
    (al_size l + count \<le> al_capacity l * al_growthFactor l \<longrightarrow>
      (\<exists>l'. ArrayList_Shift grow l index count = Some (True, l') \<and> al_wf l' \<and> al_same l l' \<and>
        al_size l' = al_size l + count \<and> al_freed l' = al_freed l \<and> al_lock l' = al_lock l \<and>
        take (nat index) (al_elems l') = take (nat index) (al_elems l) \<and>
        drop (nat (index + count)) (al_elems l') = drop (nat index) (al_elems l)))"
proof -
  from al_room [OF assms(1,2,5)] obtain l1 where l1:
    "(if al_size l + count > al_capacity l then al_realloc grow l else Some l) = Some l1"
    "al_wf l1" "al_same l l1" "al_elems l1 = al_elems l" "al_freed l1 = al_freed l" "al_size l1 = al_size l"
    "al_lock l1 = al_lock l"
    "al_size l + count \<le> al_capacity l1 \<longleftrightarrow> al_size l + count \<le> al_capacity l * al_growthFactor l" .
  have shift: "ArrayList_Shift grow l index count =
      map_option (\<lambda>a. (True, l1\<lparr>al_array := a, al_size := al_size l1 + count\<rparr>))
        (MoveMemory (al_array l1) (index + count) index (al_size l - index))"
    using assms(5) l1(6) by (simp add: ArrayList_Shift_def l1(1))
  have len: "int (length (al_array l1)) = al_capacity l1" "al_size l \<le> al_capacity l1"
    using l1(2,6) by (simp_all add: al_wf_def)
  show ?thesis
  proof (cases "al_size l + count \<le> al_capacity l1")
    case True
    define i c n where inc: "i = nat index" "c = nat count" "n = nat (al_size l)"
    let ?a = "al_array l1"
    let ?a' = "take (i + c) ?a @ take (n - i) (drop i ?a) @ drop (c + n) ?a"
    have ints: "index = int i" "count = int c" "al_size l = int n" using assms by (auto simp: inc)
    have nats: "i < n" "c + n \<le> length ?a" using assms len True by (auto simp: ints)
    have mv: "MoveMemory ?a (index + count) index (al_size l - index) = Some ?a'"
      using nats assms(5) by (auto simp: MoveMemory_def ints nat_diff_distrib nat_int_add add.commute)
    have el: "al_elems (l1\<lparr>al_array := ?a', al_size := al_size l1 + count\<rparr>) = take (i + c) ?a @ drop i (al_elems l1)"
      using take_splice_up [OF nats] by (simp add: al_elems_def l1(6) ints nat_int_add add.commute)
    have "length ?a' = length ?a" using nats by simp
    then have "al_wf (l1\<lparr>al_array := ?a', al_size := al_size l1 + count\<rparr>)"
      using l1(2,6) len True assms(5) by (simp add: al_wf_def)
    moreover have "take i (take (i + c) ?a @ drop i (al_elems l1)) = take i (al_elems l)"
      "drop (i + c) (take (i + c) ?a @ drop i (al_elems l1)) = drop i (al_elems l)"
      using nats by (simp_all add: l1(4) [symmetric]) (simp add: al_elems_def l1(6) ints)
    moreover have "nat index = i" "nat (index + count) = i + c" by (simp_all add: ints nat_int_add)
    ultimately show ?thesis
      using True l1 shift mv el by (auto simp: al_same_def)
  next
    case False
    then have "MoveMemory (al_array l1) (index + count) index (al_size l - index) = None"
      using assms len by (auto simp: MoveMemory_def)
    with False l1(8) shift show ?thesis by auto
  qed
qed

lemma ArrayList_Shift_down:
  assumes "al_wf l" "0 \<le> index" "index < al_size l"
  shows "\<exists>l'. ArrayList_Shift grow l index (-1) = Some (True, l') \<and> al_wf l' \<and> al_same l l' \<and>
    al_freed l' = al_freed l \<and> al_lock l' = al_lock l \<and>
    al_elems l' = take (nat index) (al_elems l) @ drop (Suc (nat index)) (al_elems l)"
proof -
  define i n where inn: "i = nat index" "n = nat (al_size l)"
  let ?a = "al_array l"
  have ints: "index = int i" "al_size l = int n" using assms by (auto simp: inn)
  have wf: "n \<le> length ?a" "i < n" using assms by (auto simp: al_wf_def ints)
  show ?thesis
  proof (cases "Suc i < n")
    case True
    let ?a' = "take i ?a @ take (n - Suc i) (drop (Suc i) ?a) @ drop (n - 1) ?a"
    have nn: "nat (int n - int i - 1) = n - Suc i" "nat (int i + 1) = Suc i"
      "nat (int i + (int n - int i - 1)) = n - 1" "nat (int n - 1) = n - 1" using wf(2) by auto
    have "MoveMemory ?a (int i) (int i + 1) (int n - int i - 1) = Some ?a'"
      using True wf by (auto simp: MoveMemory_def nn)
    then have sh: "ArrayList_Shift grow l index (-1) = Some (True, l\<lparr>al_array := ?a', al_size := al_size l - 1\<rparr>)"
      using True by (simp add: ArrayList_Shift_def Let_def ints)
    have el: "al_elems (l\<lparr>al_array := ?a', al_size := al_size l - 1\<rparr>) = take i (al_elems l) @ drop (Suc i) (al_elems l)"
      using take_splice_down [OF wf(2,1)] wf by (simp add: al_elems_def ints nn(4) min_def)
    have "length ?a' = length ?a" using wf by simp
    then have "al_wf (l\<lparr>al_array := ?a', al_size := al_size l - 1\<rparr>)"
      using assms by (simp add: al_wf_def)
    with sh el show ?thesis by (simp add: al_same_def ints)
  next
    case False
    then have n: "n = Suc i" using wf(2) by simp
    have "ArrayList_Shift grow l index (-1) = Some (True, l\<lparr>al_size := al_size l - 1\<rparr>)"
      by (simp add: ArrayList_Shift_def Let_def ints n)
    moreover have "al_elems (l\<lparr>al_size := al_size l - 1\<rparr>) = take i (al_elems l) @ drop (Suc i) (al_elems l)"
      using wf(1) by (auto simp: al_elems_def ints n min_def nat_int_add nat_add_distrib)
    moreover have "al_wf (l\<lparr>al_size := al_size l - 1\<rparr>)" using assms by (simp add: al_wf_def)
    ultimately show ?thesis by (simp add: al_same_def ints)
  qed
qed

lemma scan_up_find:
  assumes "i + n \<le> length a"
  shows "scan_up accept a (int i) n = Some (map_option int (List.find (\<lambda>k. accept (a ! k)) [i..<i + n]))"
  using assms
proof (induction n arbitrary: i)
  case (Suc n)
  have "scan_up accept a (int i + 1) n = Some (map_option int (List.find (\<lambda>k. accept (a ! k)) [Suc i..<i + Suc n]))"
    using Suc.IH [of "Suc i"] Suc.prems by (simp add: add.commute)
  moreover have "[i..<i + Suc n] = i # [Suc i..<i + Suc n]" by (simp add: upt_rec)
  ultimately show ?case using Suc.prems by simp
qed simp

lemma scan_down_find:
  assumes "i + n \<le> length a"
  shows "scan_down accept a (int i) n = Some (map_option int (List.find (\<lambda>k. accept (a ! k)) (rev [i..<i + n])))"
  using assms by (induction n) (auto simp: Let_def nat_int_add)

lemma find_nth_take:
  "n \<le> length a \<Longrightarrow> List.find (\<lambda>k. accept (a ! k)) [0..<n] = List.find (\<lambda>k. accept (take n a ! k)) [0..<n]"
  by (intro find_cong) auto

lemma find_rev_nth_take:
  "n \<le> length a \<Longrightarrow> List.find (\<lambda>k. accept (a ! k)) (rev [0..<n]) = List.find (\<lambda>k. accept (take n a ! k)) (rev [0..<n])"
  by (intro find_cong) auto

subsection \<open>The specification: a list, and what was released\<close>

datatype al_op =
    Add ptr | Insert int ptr | SetItem int ptr | Remove ptr | RemoveAt int | ClearAll
  | GetItem int | Contains ptr | IndexOf ptr | LastIndexOf ptr

datatype al_ret = Num int | Truth bool | Ptr ptr | Void

definition in_list :: "int \<Rightarrow> 'a list \<Rightarrow> bool" where
  "in_list i xs \<longleftrightarrow> 0 \<le> i \<and> i < int (length xs)"

definition position :: "nat option \<Rightarrow> int" where
  "position hit = (case hit of None \<Rightarrow> -1 | Some k \<Rightarrow> int k)"

fun al_spec :: "bool \<Rightarrow> (ptr \<Rightarrow> ptr \<Rightarrow> bool) \<Rightarrow> al_op \<Rightarrow> ptr list \<times> ptr list \<Rightarrow> al_ret \<times> ptr list \<times> ptr list" where
  "al_spec free eq (Add x) (xs, f) = (Num (int (length xs) + 1), xs @ [x], f)"
| "al_spec free eq (Insert i x) (xs, f) =
     (Truth True, if in_list i xs then take (nat i) xs @ x # drop (nat i) xs else xs, f)"
| "al_spec free eq (SetItem i x) (xs, f) = (Void, if in_list i xs then xs[nat i := x] else xs, f)"
| "al_spec free eq (Remove x) (xs, f) = (Truth True, remove1 x xs, if free \<and> x \<in> set xs then f @ [x] else f)"
| "al_spec free eq (RemoveAt i) (xs, f) =
     (Truth True, if in_list i xs then take (nat i) xs @ drop (Suc (nat i)) xs else xs,
      if free \<and> in_list i xs then f @ [xs ! nat i] else f)"
| "al_spec free eq ClearAll (xs, f) = (Void, [], if free then f @ xs else f)"
| "al_spec free eq (GetItem i) (xs, f) = (Ptr (if in_list i xs then xs ! nat i else NULL), xs, f)"
| "al_spec free eq (Contains x) (xs, f) = (Truth (\<exists>y \<in> set xs. eq y x), xs, f)"
| "al_spec free eq (IndexOf x) (xs, f) =
     (Num (position (List.find (\<lambda>k. eq (xs ! k) x) [0..<length xs])), xs, f)"
| "al_spec free eq (LastIndexOf x) (xs, f) =
     (Num (position (List.find (\<lambda>k. eq (xs ! k) x) (rev [0..<length xs]))), xs, f)"

fun al_step :: "allocator \<Rightarrow> al_op \<Rightarrow> wArrayList \<Rightarrow> (al_ret \<times> wArrayList) option" where
  "al_step grow (Add x) l = map_option (map_prod Num id) (ArrayList_Add grow l x)"
| "al_step grow (Insert i x) l = map_option (map_prod Truth id) (ArrayList_Insert grow l i x)"
| "al_step grow (SetItem i x) l = map_option (Pair Void) (ArrayList_SetItem l i x)"
| "al_step grow (Remove x) l = map_option (map_prod Truth id) (ArrayList_Remove grow l x)"
| "al_step grow (RemoveAt i) l = map_option (map_prod Truth id) (ArrayList_RemoveAt grow l i)"
| "al_step grow ClearAll l = map_option (Pair Void) (ArrayList_Clear l)"
| "al_step grow (GetItem i) l = map_option (\<lambda>x. (Ptr x, l)) (ArrayList_GetItem l i)"
| "al_step grow (Contains x) l = map_option (map_prod Truth id) (ArrayList_Contains l x)"
| "al_step grow (IndexOf x) l = map_option (map_prod Num id) (ArrayList_IndexOf l x 0 (-1))"
| "al_step grow (LastIndexOf x) l = map_option (map_prod Num id) (ArrayList_LastIndexOf l x 0 (-1))"

definition al_abs :: "wArrayList \<Rightarrow> ptr list \<times> ptr list" where
  "al_abs l = (al_elems l, al_freed l)"

text \<open>
  The invariant of a list in use: the array is consistent, the callbacks are the ones the client
  set, and the lock is held as often as at the start.
\<close>

definition al_inv :: "allocator \<Rightarrow> bool \<Rightarrow> (ptr \<Rightarrow> ptr \<Rightarrow> bool) \<Rightarrow> int \<Rightarrow> wArrayList \<Rightarrow> bool" where
  "al_inv grow free eq lock l \<longleftrightarrow> al_wf l \<and> grow_ok grow \<and> al_fnObjectFree l = free \<and>
     al_fnObjectEquals l = eq \<and> al_lock l = lock"

lemma al_inv_leave:
  assumes "al_inv grow free eq lock l" "al_wf l'" "al_same l l'" "al_lock l' = al_lock (al_enter l)"
  shows "al_inv grow free eq lock (al_leave l')"
  using assms al_lock_balance [of l' l]
  by (auto simp: al_inv_def al_same_def) (simp_all add: al_leave_def)

lemma al_inv_unchanged: "al_inv grow free eq lock l \<Longrightarrow> al_inv grow free eq lock (al_leave (al_enter l))"
  by (rule al_inv_leave) (auto simp: al_inv_def)

lemma al_in_list: "al_wf l \<Longrightarrow> in_list i (al_elems l) \<longleftrightarrow> 0 \<le> i \<and> i < al_size l"
  by (simp add: in_list_def length_al_elems)

lemma al_array_elems:
  assumes "al_wf l" "0 \<le> i" "i < al_size l"
  shows "i < int (length (al_array l))" "al_array l ! nat i = al_elems l ! nat i"
  using assms by (auto simp: al_wf_def al_elems_def)

lemma al_one_more:
  assumes "al_wf l"
  shows "al_size l + 1 \<le> al_capacity l * al_growthFactor l"
proof -
  have "al_capacity l * 2 \<le> al_capacity l * al_growthFactor l"
    using assms by (intro mult_left_mono) (simp_all add: al_wf_def)
  moreover have "al_size l \<le> al_capacity l" "0 < al_capacity l" using assms by (simp_all add: al_wf_def)
  ultimately show ?thesis by linarith
qed

lemma ArrayList_Add_refines:
  assumes "al_inv grow free eq lock l"
  shows "\<exists>l'. ArrayList_Add grow l x = Some (al_size l + 1, l') \<and> al_inv grow free eq lock l' \<and>
    al_abs l' = (al_elems l @ [x], al_freed l)"
proof -
  let ?l = "al_enter l"
  have wf: "al_wf ?l" "grow_ok grow" using assms by (simp_all add: al_inv_def)
  from al_room [OF wf, of 1] obtain l1 where l1:
    "(if al_size ?l + 1 > al_capacity ?l then al_realloc grow ?l else Some ?l) = Some l1"
    "al_wf l1" "al_same ?l l1" "al_elems l1 = al_elems ?l" "al_freed l1 = al_freed ?l" "al_size l1 = al_size ?l"
    "al_lock l1 = al_lock ?l"
    "al_size ?l + 1 \<le> al_capacity l1 \<longleftrightarrow> al_size ?l + 1 \<le> al_capacity ?l * al_growthFactor ?l" by auto
  have room: "al_size l + 1 \<le> al_capacity l1" using l1(8) al_one_more [OF wf(1)] by simp
  have wf1: "int (length (al_array l1)) = al_capacity l1" "0 \<le> al_size l"
    using l1(2,6) by (simp_all add: al_wf_def)
  let ?l' = "l1\<lparr>al_array := (al_array l1)[nat (al_size l) := x], al_size := al_size l + 1\<rparr>"
  have "ArrayList_Add grow l x = Some (al_size l + 1, al_leave ?l')"
    using l1(1,6) room wf1 by (simp add: ArrayList_Add_def Let_def)
  moreover have "al_wf ?l'" using l1(2,6) room wf1 by (simp add: al_wf_def)
  then have "al_inv grow free eq lock (al_leave ?l')"
    using l1(3,7) by (intro al_inv_leave [OF assms]) (simp_all add: al_same_def)
  moreover have "nat (al_size l) < length (al_array l1)" "nat (al_size l + 1) = Suc (nat (al_size l))"
    using room wf1 by auto
  then have "al_elems ?l' = al_elems l @ [x]"
    using l1(4) by (simp add: al_elems_def l1(6) take_Suc_conv_app_nth)
  ultimately show ?thesis using l1(5) by (auto simp: al_abs_def)
qed

lemma ArrayList_Insert_refines:
  assumes "al_inv grow free eq lock l" "0 \<le> index" "index < al_size l"
  shows "\<exists>l'. ArrayList_Insert grow l index x = Some (True, l') \<and> al_inv grow free eq lock l' \<and>
    al_abs l' = (take (nat index) (al_elems l) @ x # drop (nat index) (al_elems l), al_freed l)"
proof -
  let ?l = "al_enter l"
  have wf: "al_wf ?l" "grow_ok grow" "index < al_size ?l" using assms by (simp_all add: al_inv_def)
  from ArrayList_Shift_up [OF wf(1,2) assms(2) wf(3), of 1] al_one_more [OF wf(1)] obtain l1 where l1:
    "ArrayList_Shift grow ?l index 1 = Some (True, l1)" "al_wf l1" "al_same ?l l1" "al_size l1 = al_size l + 1"
    "al_freed l1 = al_freed l" "al_lock l1 = al_lock ?l"
    "take (nat index) (al_elems l1) = take (nat index) (al_elems l)"
    "drop (nat (index + 1)) (al_elems l1) = drop (nat index) (al_elems l)" by auto
  let ?l' = "l1\<lparr>al_array := (al_array l1)[nat index := x]\<rparr>"
  have len: "index < int (length (al_array l1))" "nat index < length (al_elems l1)"
    using l1(2,4) assms(2,3) length_al_elems [OF l1(2)] al_array_elems(1) [OF l1(2) assms(2)] by auto
  have "ArrayList_Insert grow l index x = Some (True, al_leave ?l')"
    using l1(1) assms(2,3) len by (simp add: ArrayList_Insert_def Let_def)
  moreover have "al_wf ?l'" using l1(2) by (simp add: al_wf_def)
  then have "al_inv grow free eq lock (al_leave ?l')"
    using l1(3,6) by (intro al_inv_leave [OF assms(1)]) (simp_all add: al_same_def)
  moreover have "al_elems ?l' = (al_elems l1)[nat index := x]"
    by (simp add: al_elems_def take_update_swap)
  then have "al_elems ?l' = take (nat index) (al_elems l) @ x # drop (nat index) (al_elems l)"
    using l1(7,8) len(2) assms(2) by (simp add: upd_conv_take_nth_drop nat_add_distrib)
  ultimately show ?thesis using l1(5) by (auto simp: al_abs_def)
qed

lemma al_remove_refines:
  assumes "al_inv grow free eq lock l" "0 \<le> index" "index < al_size l"
  shows "\<exists>l'. al_remove grow (al_enter l) index = Some (True, l') \<and> al_inv grow free eq lock l' \<and>
    al_abs l' = (take (nat index) (al_elems l) @ drop (Suc (nat index)) (al_elems l),
      if free then al_freed l @ [al_elems l ! nat index] else al_freed l)"
proof -
  let ?l = "if free then (al_enter l)\<lparr>al_freed := al_freed l @ [al_elems l ! nat index]\<rparr> else al_enter l"
  have wf: "al_wf l" "al_fnObjectFree l = free" using assms(1) by (simp_all add: al_inv_def)
  have l: "al_wf ?l" "index < al_size ?l" "al_elems ?l = al_elems l" "al_lock ?l = al_lock (al_enter l)" "al_same l ?l"
    "al_freed ?l = (if free then al_freed l @ [al_elems l ! nat index] else al_freed l)"
    using wf(1) assms(3) by (simp_all add: al_wf_def al_elems_def al_same_def)
  from ArrayList_Shift_down [OF l(1) assms(2) l(2), of grow] obtain l1 where l1:
    "ArrayList_Shift grow ?l index (-1) = Some (True, l1)" "al_wf l1" "al_same ?l l1" "al_freed l1 = al_freed ?l"
    "al_lock l1 = al_lock ?l" "al_elems l1 = take (nat index) (al_elems ?l) @ drop (Suc (nat index)) (al_elems ?l)" by blast
  have "al_remove grow (al_enter l) index = Some (True, al_leave l1)"
    using l1(1) wf al_array_elems [OF wf(1) assms(2,3)] by (auto simp: al_remove_def Let_def split: if_splits)
  moreover have "al_inv grow free eq lock (al_leave l1)"
    using l1(2,3,5) l(4,5) by (intro al_inv_leave [OF assms(1)]) (simp_all add: al_same_def)
  ultimately show ?thesis using l1(4,6) l(3,6) by (auto simp: al_abs_def)
qed

lemma remove1_at:
  assumes "k < length xs" "xs ! k = x" "\<And>j. j < k \<Longrightarrow> xs ! j \<noteq> x"
  shows "remove1 x xs = take k xs @ drop (Suc k) xs"
proof -
  have "x \<notin> set (take k xs)" using assms(1,3) by (auto simp: in_set_conv_nth)
  moreover have "xs = take k xs @ x # drop (Suc k) xs" using id_take_nth_drop [OF assms(1)] assms(2) by simp
  ultimately show ?thesis by (metis remove1.simps(2) remove1_append)
qed


lemma ArrayList_Remove_refines:
  assumes "al_inv grow free eq lock l"
  shows "\<exists>l'. ArrayList_Remove grow l x = Some (True, l') \<and> al_inv grow free eq lock l' \<and>
    al_abs l' = (remove1 x (al_elems l), if free \<and> x \<in> set (al_elems l) then al_freed l @ [x] else al_freed l)"
proof -
  let ?n = "nat (al_size l)" and ?xs = "al_elems l"
  have wf: "al_wf l" using assms by (simp add: al_inv_def)
  then have n: "?n \<le> length (al_array l)" "length ?xs = ?n" "take ?n (al_array l) = ?xs"
    using length_al_elems [OF wf] by (auto simp: al_wf_def al_elems_def)
  have scan: "scan_up (\<lambda>y. y = x) (al_array l) 0 ?n =
      Some (map_option int (List.find (\<lambda>k. ?xs ! k = x) [0..<?n]))"
    using scan_up_find [of 0 ?n "al_array l" "\<lambda>y. y = x"] find_nth_take [OF n(1), of "\<lambda>y. y = x"] n by simp
  show ?thesis
  proof (cases "List.find (\<lambda>k. ?xs ! k = x) [0..<?n]")
    case None
    then have "x \<notin> set ?xs" using n(2) by (auto simp: find_None_iff in_set_conv_nth)
    moreover have "ArrayList_Remove grow l x = Some (True, al_leave (al_enter l))"
      using scan None by (simp add: ArrayList_Remove_def Let_def)
    ultimately show ?thesis using al_inv_unchanged [OF assms] by (simp add: al_abs_def remove1_idem)
  next
    case (Some k)
    then have k: "k < ?n" "?xs ! k = x" "\<And>j. j < k \<Longrightarrow> ?xs ! j \<noteq> x"
      by (auto simp: find_Some_iff)
    have "ArrayList_Remove grow l x = al_remove grow (al_enter l) (int k)"
      using scan Some by (simp add: ArrayList_Remove_def Let_def)
    moreover have "x \<in> set ?xs" using k(1,2) n(2) by auto
    moreover have "remove1 x ?xs = take k ?xs @ drop (Suc k) ?xs"
      using k n(2) by (intro remove1_at) auto
    moreover have "int k < al_size l" using k(1) by simp
    ultimately show ?thesis using al_remove_refines [OF assms, of "int k"] k(2) by (cases free) simp_all
  qed
qed

lemma al_searches:
  assumes "al_inv grow free eq lock l"
  shows "ArrayList_Contains l x = Some (\<exists>y \<in> set (al_elems l). eq y x, al_leave (al_enter l))"
    and "ArrayList_IndexOf l x 0 (-1) =
      Some (position (List.find (\<lambda>k. eq (al_elems l ! k) x) [0..<length (al_elems l)]), al_leave (al_enter l))"
    and "ArrayList_LastIndexOf l x 0 (-1) =
      Some (position (List.find (\<lambda>k. eq (al_elems l ! k) x) (rev [0..<length (al_elems l)])), al_leave (al_enter l))"
proof -
  let ?n = "nat (al_size l)" and ?xs = "al_elems l"
  have wf: "al_wf l" "al_fnObjectEquals l = eq" using assms by (simp_all add: al_inv_def)
  then have n: "?n \<le> length (al_array l)" "length ?xs = ?n" "take ?n (al_array l) = ?xs" "0 \<le> al_size l"
    using length_al_elems [OF wf(1)] by (auto simp: al_wf_def al_elems_def)
  have up: "scan_up (\<lambda>y. eq y x) (al_array l) 0 ?n =
      Some (map_option int (List.find (\<lambda>k. eq (?xs ! k) x) [0..<?n]))"
    using scan_up_find [of 0 ?n "al_array l" "\<lambda>y. eq y x"] find_nth_take [OF n(1), of "\<lambda>y. eq y x"] n by simp
  have down: "scan_down (\<lambda>y. eq y x) (al_array l) 0 ?n =
      Some (map_option int (List.find (\<lambda>k. eq (?xs ! k) x) (rev [0..<?n])))"
    using scan_down_find [of 0 ?n "al_array l" "\<lambda>y. eq y x"] find_rev_nth_take [OF n(1), of "\<lambda>y. eq y x"] n by simp
  have "List.find (\<lambda>k. eq (?xs ! k) x) [0..<?n] \<noteq> None \<longleftrightarrow> (\<exists>y \<in> set ?xs. eq y x)"
    using n(2) by (auto simp: find_None_iff in_set_conv_nth Bex_def)
  then show "ArrayList_Contains l x = Some (\<exists>y \<in> set ?xs. eq y x, al_leave (al_enter l))"
    using up n(4) wf(2) by (simp add: ArrayList_Contains_def Let_def)
  show "ArrayList_IndexOf l x 0 (-1) = Some (position (List.find (\<lambda>k. eq (?xs ! k) x) [0..<length ?xs]), al_leave (al_enter l))"
    using up n(2) wf(2) by (simp add: ArrayList_IndexOf_def Let_def position_def split: option.split)
  show "ArrayList_LastIndexOf l x 0 (-1) = Some (position (List.find (\<lambda>k. eq (?xs ! k) x) (rev [0..<length ?xs])), al_leave (al_enter l))"
    using down n(2) wf(2) by (simp add: ArrayList_LastIndexOf_def Let_def position_def split: option.split)
qed

lemma ArrayList_Clear_refines:
  assumes "al_inv grow free eq lock l"
  shows "\<exists>l'. ArrayList_Clear l = Some l' \<and> al_inv grow free eq lock l' \<and>
    al_abs l' = ([], if free then al_freed l @ al_elems l else al_freed l)"
proof -
  let ?n = "nat (al_size l)"
  let ?e = "if free then (al_enter l)\<lparr>al_freed := al_freed l @ al_elems l\<rparr> else al_enter l"
  let ?l = "?e\<lparr>al_array := replicate ?n NULL @ drop ?n (al_array l), al_size := 0\<rparr>"
  have wf: "al_wf l" "al_fnObjectFree l = free" using assms by (simp_all add: al_inv_def)
  have n: "?n \<le> length (al_array l)" using wf(1) by (auto simp: al_wf_def)
  have "ArrayList_Clear l = Some (al_leave ?l)"
    using n wf(2) by (cases free) (simp_all add: ArrayList_Clear_def Let_def al_elems_def)
  moreover have "al_wf ?l" using wf(1) n by (simp add: al_wf_def)
  then have "al_inv grow free eq lock (al_leave ?l)"
    by (intro al_inv_leave [OF assms]) (simp_all add: al_same_def)
  moreover have "al_elems ?l = []" "al_freed ?l = (if free then al_freed l @ al_elems l else al_freed l)"
    by (simp_all add: al_elems_def)
  ultimately show ?thesis by (auto simp: al_abs_def)
qed

interpretation alist: machine "al_inv grow free eq lock" al_abs "al_step grow" "al_spec free eq"
  for grow free eq lock
proof
  fix l :: wArrayList and op
  assume inv: "al_inv grow free eq lock l"
  then have wf: "al_wf l" by (simp add: al_inv_def)
  note same = al_inv_unchanged [OF inv]
  show "\<exists>r l'. al_step grow op l = Some (r, l') \<and> al_inv grow free eq lock l' \<and> al_spec free eq op (al_abs l) = (r, al_abs l')"
  proof (cases op)
    case (Add x)
    with ArrayList_Add_refines [OF inv, of x] length_al_elems [OF wf] show ?thesis by (auto simp: al_abs_def)
  next
    case (Insert i x)
    show ?thesis
    proof (cases "0 \<le> i \<and> i < al_size l")
      case True
      with Insert ArrayList_Insert_refines [OF inv, of i x] show ?thesis
        by (auto simp: al_abs_def al_in_list [OF wf])
    next
      case False
      then have "ArrayList_Insert grow l i x = Some (True, al_leave (al_enter l))"
        by (auto simp: ArrayList_Insert_def Let_def)
      with False Insert same show ?thesis by (auto simp: al_abs_def al_in_list [OF wf])
    qed
  next
    case (SetItem i x)
    have "al_inv grow free eq lock (l\<lparr>al_array := (al_array l)[nat i := x]\<rparr>)"
      "al_elems (l\<lparr>al_array := (al_array l)[nat i := x]\<rparr>) = (al_elems l)[nat i := x]"
      using inv by (simp_all add: al_inv_def al_wf_def al_elems_def take_update_swap)
    with SetItem inv al_array_elems [OF wf, of i] show ?thesis
      by (auto simp: ArrayList_SetItem_def al_abs_def al_in_list [OF wf])
  next
    case (Remove x)
    with ArrayList_Remove_refines [OF inv, of x] show ?thesis by (auto simp: al_abs_def)
  next
    case (RemoveAt i)
    show ?thesis
    proof (cases "0 \<le> i \<and> i < al_size l")
      case True
      with RemoveAt al_remove_refines [OF inv, of i] show ?thesis
        by (auto simp: ArrayList_RemoveAt_def Let_def al_abs_def al_in_list [OF wf])
    next
      case False
      then have "ArrayList_RemoveAt grow l i = Some (True, al_leave (al_enter l))"
        by (auto simp: ArrayList_RemoveAt_def Let_def)
      with False RemoveAt same show ?thesis by (auto simp: al_abs_def al_in_list [OF wf])
    qed
  next
    case ClearAll
    with ArrayList_Clear_refines [OF inv] show ?thesis by (auto simp: al_abs_def)
  next
    case (GetItem i)
    with inv al_array_elems [OF wf, of i] show ?thesis
      by (auto simp: ArrayList_GetItem_def al_abs_def al_in_list [OF wf])
  qed (use same al_searches [OF inv] in \<open>auto simp: al_abs_def\<close>)
qed

subsection \<open>Properties\<close>

lemma ArrayList_New_inv:
  assumes "ArrayList_New True grow sync = Some l" "grow_ok grow"
  shows "al_inv grow free eq 0 (l\<lparr>al_fnObjectFree := free, al_fnObjectEquals := eq\<rparr>)"
    and "al_abs (l\<lparr>al_fnObjectFree := free, al_fnObjectEquals := eq\<rparr>) = ([], [])"
proof -
  from assms(2) obtain cells where "grow 32 = Some cells" "length cells = 32" by (rule grow_okE)
  with assms show "al_inv grow free eq 0 (l\<lparr>al_fnObjectFree := free, al_fnObjectEquals := eq\<rparr>)"
    "al_abs (l\<lparr>al_fnObjectFree := free, al_fnObjectEquals := eq\<rparr>) = ([], [])"
    by (auto simp: ArrayList_New_def al_inv_def al_wf_def al_abs_def al_elems_def)
qed



text \<open>\<open>ArrayList_Shift\<close> opens a gap of \<open>count\<close> cells before an element exactly when the array grown once is
  large enough; it grows the array once whatever the count, and a larger gap writes outside of it.\<close>

theorem ArrayList_Shift_gap:
  assumes "al_wf l" "grow_ok grow" "0 \<le> index" "index < al_size l" "0 < count"
  shows "case ArrayList_Shift grow l index count of
      None \<Rightarrow> al_capacity l * al_growthFactor l < al_size l + count
    | Some (ok, l') \<Rightarrow> al_size l + count \<le> al_capacity l * al_growthFactor l \<and> ok \<and> al_wf l' \<and>
        al_size l' = al_size l + count \<and>
        take (nat index) (al_elems l') = take (nat index) (al_elems l) \<and>
        drop (nat (index + count)) (al_elems l') = drop (nat index) (al_elems l)"
  using ArrayList_Shift_up [OF assms] by (auto split: option.split)

theorem ArrayList_Shift_gap_witness:
  "\<exists>l. ArrayList_Count l = 1 \<and> ArrayList_Shift zero_grow l 0 64 = None"
proof -
  let ?l = "(the (ArrayList_New True zero_grow False))\<lparr>al_size := 1\<rparr>"
  have l: "al_wf ?l" "al_size ?l = 1" "al_capacity ?l = 32" "al_growthFactor ?l = 2"
    by (simp_all add: ArrayList_New_def zero_grow_def al_wf_def)
  have "ArrayList_Shift zero_grow ?l 0 64 = None"
    using ArrayList_Shift_gap [of ?l zero_grow 0 64] l by (auto split: option.splits)
  moreover have "ArrayList_Count ?l = 1" using l(2) by (simp only: ArrayList_Count_def)
  ultimately show ?thesis by blast
qed

end
