(* ===== verification/HashTable.thy ===== *)
theory HashTable
  imports Coll_Spec Complex_Main "HOL-Library.Multiset"
begin

text \<open>
  The hash table of winpr/libwinpr/utils/collections/HashTable.c. A bucket is the list of the pairs of
  its chain, first pair first: every node belongs to one chain, and the code reaches it only through
  that chain. None is a division by zero or an access outside the bucket array. The record keeps, beside
  the fields of \<open>wHashTable\<close>, how often the lock is held and the keys and values that were released.
  Element counts stay below 2^31.

  A call gets its environment: whether its allocations succeed, what its clone callbacks return, and how
  the machine rounds a quotient of type float.
\<close>

record ht_env =
  pair_ok :: bool
  buckets_ok :: "int \<Rightarrow> bool"
  key_clone :: "ptr \<Rightarrow> ptr"
  value_clone :: "ptr \<Rightarrow> ptr"
  float_round :: "rat \<Rightarrow> rat"

type_synonym pair = "ptr \<times> ptr"

record wHashTable =
  ht_synchronized :: bool
  ht_lock :: int
  numOfBuckets :: int
  numOfElements :: int
  idealRatio :: rat
  lowerRehashThreshold :: rat
  upperRehashThreshold :: rat
  bucketArray :: "pair list list"
  ht_hash :: "ptr \<Rightarrow> u32"
  keyCompare :: "ptr \<Rightarrow> ptr \<Rightarrow> bool"
  valueCompare :: "ptr \<Rightarrow> ptr \<Rightarrow> bool"
  keyClone :: bool
  valueClone :: bool
  keyFree :: bool
  valueFree :: bool
  keys_freed :: "ptr list"
  values_freed :: "ptr list"

subsection \<open>Keys\<close>

definition HashTable_PointerCompare :: "ptr \<Rightarrow> ptr \<Rightarrow> bool" where
  "HashTable_PointerCompare pointer1 pointer2 \<longleftrightarrow> pointer1 = pointer2"

definition HashTable_PointerHash :: "ptr \<Rightarrow> u32" where
  "HashTable_PointerHash pointer = drop_bit 4 (word_of_nat pointer)"

definition HashTable_StringCompare :: "bytes option \<Rightarrow> bytes option \<Rightarrow> bool" where
  \<comment> \<open>None is NULL; a string is the bytes before the terminating zero.\<close>
  "HashTable_StringCompare string1 string2 \<longleftrightarrow> 
     (case (string1, string2) of (Some a, Some b) \<Rightarrow> a = b | _ \<Rightarrow> string1 = None \<and> string2 = None)"

fun string_hash :: "u32 \<Rightarrow> bytes \<Rightarrow> u32" where
  "string_hash h [] = h"
| "string_hash h (c # str) = string_hash (h * 33 + ucast c) str"

definition HashTable_StringHash :: "bytes \<Rightarrow> u32" where
  "HashTable_StringHash key = string_hash 5381 key"

subsection \<open>The number of buckets\<close>

fun trial_division :: "int \<Rightarrow> int list \<Rightarrow> bool" where
  "trial_division oddNumber [] = True"
| "trial_division oddNumber (i # js) =
     (if oddNumber = i then True
      else if c_mod oddNumber i = 0 then False
      else trial_division oddNumber js)"

definition HashTable_IsProbablePrime :: "int \<Rightarrow> bool" where
  "HashTable_IsProbablePrime oddNumber =
     trial_division oddNumber [3,5,7,9,11,13,15,17,19,21,23,25,27,29,31,33,35,37,39,41,43,45,47,49]"


lemma c_mod_sgn: "0 < b \<Longrightarrow> c_mod a b = sgn a * (\<bar>a\<bar> mod b)"
  by (cases "a < 0"; cases "a = 0") (simp_all add: c_mod_def c_div_def minus_div_mult_eq_mod [symmetric])

lemma c_mod_0_iff: "0 < b \<Longrightarrow> c_mod a b = 0 \<longleftrightarrow> b dvd a"
  by (auto simp: c_mod_sgn sgn_0_0 dvd_eq_mod_eq_0 [symmetric])

lemma trial_division_no_divisor:
  "\<forall>i \<in> set js. 0 < i \<and> \<not> i dvd n \<Longrightarrow> trial_division n js"
  by (induction js) (simp_all add: c_mod_0_iff)

lemma probable_prime_ahead:
  "\<exists>k. HashTable_IsProbablePrime (n + 2 * int k)"
proof -
  let ?L = "96845140757687397075 :: int"
  define k where "k = nat ((1 - n) * 48422570378843698538 mod ?L)"
  have "2 * ((1 - n) * 48422570378843698538) = (1 - n) + (1 - n) * ?L" by simp
  then have "(2 * ((1 - n) * 48422570378843698538)) mod ?L = (1 - n) mod ?L" by (simp only: mod_mult_self1)
  then have "(2 * int k) mod ?L = (1 - n) mod ?L"
    unfolding k_def by (simp add: mod_mult_right_eq)
  then have L: "?L dvd n + 2 * int k - 1"
    by (simp add: mod_eq_dvd_iff algebra_simps)
  have "\<not> i dvd n + 2 * int k" if "i dvd ?L" "1 < i" for i
  proof
    assume "i dvd n + 2 * int k"
    moreover have "i dvd n + 2 * int k - 1" using that(1) L by (rule dvd_trans)
    ultimately have "i dvd 1" by (metis dvd_diff diff_diff_eq2 add_diff_cancel_left' diff_add_cancel)
    with that(2) show False by simp
  qed
  then have "HashTable_IsProbablePrime (n + 2 * int k)"
    unfolding HashTable_IsProbablePrime_def by (intro trial_division_no_divisor) simp
  then show ?thesis ..
qed

function next_probable_prime :: "int \<Rightarrow> int" where
  \<comment> \<open>The loop of \<open>HashTable_CalculateIdealNumOfBuckets\<close>.\<close>
  "next_probable_prime n = (if HashTable_IsProbablePrime n then n else next_probable_prime (n + 2))"
  by auto

termination
proof (relation "measure (\<lambda>n. LEAST k. HashTable_IsProbablePrime (n + 2 * int k))")
  fix n
  assume n: "\<not> HashTable_IsProbablePrime n"
  let ?P = "\<lambda>n k. HashTable_IsProbablePrime (n + 2 * int k)"
  obtain k where k: "(LEAST k. ?P n k) = Suc k"
    using n LeastI_ex [OF probable_prime_ahead [of n]] by (cases "LEAST k. ?P n k") auto
  then have "?P (n + 2) k" using LeastI_ex [OF probable_prime_ahead [of n]] by (simp add: algebra_simps)
  then have "(LEAST k. ?P (n + 2) k) \<le> k" by (rule Least_le)
  with k show "(n + 2, n) \<in> measure (\<lambda>n. LEAST k. ?P n k)" by simp
qed simp

declare next_probable_prime.simps [simp del]



definition HashTable_CalculateIdealNumOfBuckets :: "wHashTable \<Rightarrow> int option" where
  "HashTable_CalculateIdealNumOfBuckets t =
     (let d = (if idealRatio t < 0 then - \<lfloor>- idealRatio t\<rfloor> else \<lfloor>idealRatio t\<rfloor>)
      in if d = 0 then None
         else
           (let ideal = c_div (numOfElements t) d;
                ideal = (if ideal < 5 then 5 else ideal OR 1)
            in Some (next_probable_prime ideal)))"

definition slot :: "(ptr \<Rightarrow> u32) \<Rightarrow> int \<Rightarrow> ptr \<Rightarrow> nat" where
  \<comment> \<open>The remainder is taken in UINT32.\<close>
  "slot hash n key = unat (hash key mod word_of_int n)"

fun rehash_chain :: "(ptr \<Rightarrow> u32) \<Rightarrow> int \<Rightarrow> pair list \<Rightarrow> pair list list \<Rightarrow> pair list list" where
  "rehash_chain hash n [] b = b"
| "rehash_chain hash n (p # ps) b =
     rehash_chain hash n ps (b[slot hash n (fst p) := p # b ! slot hash n (fst p)])"

definition HashTable_Rehash :: "ht_env \<Rightarrow> wHashTable \<Rightarrow> int \<Rightarrow> wHashTable option" where
  \<comment> \<open>A negative number is a size no allocator can provide. The new array has \<open>n\<close> cells, so no remainder
    is outside of it.\<close>
  "HashTable_Rehash env t n =
     (case (if n = 0 then HashTable_CalculateIdealNumOfBuckets t else Some n) of
        None \<Rightarrow> None
      | Some n \<Rightarrow>
          if n = numOfBuckets t then Some t
          else if n < 0 \<or> \<not> buckets_ok env n then Some t
          else Some (t\<lparr>bucketArray := fold (rehash_chain (ht_hash t) n) (bucketArray t) (replicate (nat n) []),
                       numOfBuckets := n\<rparr>))"

definition HashTable_SetIdealRatio :: "wHashTable \<Rightarrow> rat \<Rightarrow> rat \<Rightarrow> rat \<Rightarrow> wHashTable" where
  "HashTable_SetIdealRatio t ideal lower upper =
     t\<lparr>idealRatio := ideal, lowerRehashThreshold := lower, upperRehashThreshold := upper\<rparr>"

subsection \<open>Operations\<close>

definition ht_enter :: "wHashTable \<Rightarrow> wHashTable" where
  "ht_enter t = (if ht_synchronized t then t\<lparr>ht_lock := ht_lock t + 1\<rparr> else t)"

definition ht_leave :: "wHashTable \<Rightarrow> wHashTable" where
  "ht_leave t = (if ht_synchronized t then t\<lparr>ht_lock := ht_lock t - 1\<rparr> else t)"

definition bucket :: "wHashTable \<Rightarrow> ptr \<Rightarrow> nat option" where
  \<comment> \<open>\<open>table->hash(key) % table->numOfBuckets\<close>, as an index of the array.\<close>
  "bucket t key =
     (if (word_of_int (numOfBuckets t) :: u32) = 0 then None
      else let i = slot (ht_hash t) (numOfBuckets t) key
           in if i < length (bucketArray t) then Some i else None)"

definition chain_from :: "wHashTable \<Rightarrow> ptr \<Rightarrow> nat \<Rightarrow> pair list \<times> pair list" where
  \<comment> \<open>The chain of bucket \<open>i\<close> before and from the pair where \<open>while (pair && !keyCompare(..))\<close> stops.\<close>
  "chain_from t key i =
     (let miss = (\<lambda>p. \<not> keyCompare t key (fst p)); chain = bucketArray t ! i
      in (takeWhile miss chain, dropWhile miss chain))"

definition HashTable_Get :: "wHashTable \<Rightarrow> ptr \<Rightarrow> pair option option" where
  "HashTable_Get t key =
     (case bucket t key of
        None \<Rightarrow> None
      | Some i \<Rightarrow> Some (case snd (chain_from t key i) of [] \<Rightarrow> None | p # _ \<Rightarrow> Some p))"

definition HashTable_Count :: "wHashTable \<Rightarrow> int" where
  "HashTable_Count t = numOfElements t"

definition elementToBucketRatio :: "ht_env \<Rightarrow> wHashTable \<Rightarrow> rat" where
  "elementToBucketRatio env t = float_round env (of_int (numOfElements t) / of_int (numOfBuckets t))"

definition free_key :: "wHashTable \<Rightarrow> ptr \<Rightarrow> wHashTable" where
  "free_key t key = (if keyFree t then t\<lparr>keys_freed := keys_freed t @ [key]\<rparr> else t)"

definition free_value :: "wHashTable \<Rightarrow> ptr \<Rightarrow> wHashTable" where
  "free_value t v = (if valueFree t then t\<lparr>values_freed := values_freed t @ [v]\<rparr> else t)"

definition add_entry :: "ht_env \<Rightarrow> wHashTable \<Rightarrow> ptr \<Rightarrow> ptr \<Rightarrow> (int \<times> wHashTable) option" where
  \<comment> \<open>\<open>HashTable_Add\<close> between \<open>EnterCriticalSection\<close> and \<open>LeaveCriticalSection\<close>.\<close>
  "add_entry env t key v =
     (case bucket t key of
        None \<Rightarrow> None
      | Some i \<Rightarrow>
          (case chain_from t key i of
             (before, p # after) \<Rightarrow>
               (let t = (if fst p \<noteq> key then free_key t (fst p) else t);
                    t = (if snd p \<noteq> v then free_value t (snd p) else t)
                in Some (0, t\<lparr>bucketArray := (bucketArray t)[i := before @ (key, v) # after]\<rparr>))
           | (before, []) \<Rightarrow>
               if \<not> pair_ok env then Some (-1, t)
               else
                 (let t = t\<lparr>bucketArray := (bucketArray t)[i := (key, v) # bucketArray t ! i],
                            numOfElements := numOfElements t + 1\<rparr>
                  in map_option (Pair 0)
                       (if upperRehashThreshold t > idealRatio t \<and>
                           elementToBucketRatio env t > upperRehashThreshold t
                        then HashTable_Rehash env t 0 else Some t))))"

definition HashTable_Add :: "ht_env \<Rightarrow> wHashTable \<Rightarrow> ptr \<Rightarrow> ptr \<Rightarrow> (int \<times> wHashTable) option" where
  "HashTable_Add env t key v =
     (if key = NULL \<or> v = NULL then Some (-1, t)
      else
        (let key = (if keyClone t then key_clone env key else key)
         in if keyClone t \<and> key = NULL then Some (-1, t)
            else
              (let v = (if valueClone t then value_clone env v else v)
               in if valueClone t \<and> v = NULL then Some (-1, t)
                  else map_option (map_prod id ht_leave) (add_entry env (ht_enter t) key v))))"

definition remove_entry :: "ht_env \<Rightarrow> wHashTable \<Rightarrow> ptr \<Rightarrow> (bool \<times> wHashTable) option" where
  \<comment> \<open>\<open>HashTable_Remove\<close> inside the critical section.\<close>
  "remove_entry env t key =
     (case bucket t key of
        None \<Rightarrow> None
      | Some i \<Rightarrow>
          (case chain_from t key i of
             (before, []) \<Rightarrow> Some (False, t)
           | (before, p # after) \<Rightarrow>
               (let t = free_value (free_key t (fst p)) (snd p);
                    t = t\<lparr>bucketArray := (bucketArray t)[i := before @ after],
                          numOfElements := numOfElements t - 1\<rparr>
                in map_option (Pair True)
                     (if lowerRehashThreshold t > 0 \<and>
                         elementToBucketRatio env t < lowerRehashThreshold t
                      then HashTable_Rehash env t 0 else Some t))))"

definition HashTable_Remove :: "ht_env \<Rightarrow> wHashTable \<Rightarrow> ptr \<Rightarrow> (bool \<times> wHashTable) option" where
  "HashTable_Remove env t key = map_option (map_prod id ht_leave) (remove_entry env (ht_enter t) key)"

definition HashTable_GetItemValue :: "wHashTable \<Rightarrow> ptr \<Rightarrow> (ptr \<times> wHashTable) option" where
  "HashTable_GetItemValue t key =
     (let t = ht_enter t
      in map_option (\<lambda>p. (case p of None \<Rightarrow> NULL | Some p \<Rightarrow> snd p, ht_leave t)) (HashTable_Get t key))"

definition set_entry :: "wHashTable \<Rightarrow> ptr \<Rightarrow> ptr \<Rightarrow> (bool \<times> wHashTable) option" where
  \<comment> \<open>\<open>HashTable_SetItemValue\<close> inside the critical section. The old value is not released.\<close>
  "set_entry t key v =
     (case bucket t key of
        None \<Rightarrow> None
      | Some i \<Rightarrow>
          (case chain_from t key i of
             (before, []) \<Rightarrow> Some (False, t)
           | (before, p # after) \<Rightarrow>
               Some (True, t\<lparr>bucketArray := (bucketArray t)[i := before @ (fst p, v) # after]\<rparr>)))"

definition HashTable_SetItemValue :: "ht_env \<Rightarrow> wHashTable \<Rightarrow> ptr \<Rightarrow> ptr \<Rightarrow> (bool \<times> wHashTable) option" where
  "HashTable_SetItemValue env t key v =
     (let cloned = (valueClone t \<and> v \<noteq> NULL); v = (if cloned then value_clone env v else v)
      in if cloned \<and> v = NULL then Some (False, t)
         else map_option (map_prod id ht_leave) (set_entry (ht_enter t) key v))"

fun free_chain :: "wHashTable \<Rightarrow> pair list \<Rightarrow> wHashTable" where
  "free_chain t [] = t"
| "free_chain t (p # ps) = free_chain (free_value (free_key t (fst p)) (snd p)) ps"

definition HashTable_Clear :: "ht_env \<Rightarrow> wHashTable \<Rightarrow> wHashTable option" where
  "HashTable_Clear env t =
     (let t = ht_enter t;
          t = fold (\<lambda>c t. free_chain t c) (bucketArray t) t;
          t = t\<lparr>bucketArray := map (\<lambda>_. []) (bucketArray t), numOfElements := 0\<rparr>
      in map_option ht_leave (HashTable_Rehash env t 5))"

definition HashTable_GetKeys :: "ht_env \<Rightarrow> wHashTable \<Rightarrow> ((int \<times> ptr list) \<times> wHashTable) option" where
  \<comment> \<open>The array of the keys is empty where \<open>*ppKeys\<close> is not set.\<close>
  "HashTable_GetKeys env t =
     (let t = ht_enter t; count = numOfElements t; ks = map fst (concat (bucketArray t))
      in if count < 1 then Some ((0, []), ht_leave t)
         else if \<not> pair_ok env then Some ((-1, []), ht_leave t)
         else if count < int (length ks) then None
         else Some ((count, ks @ replicate (nat count - length ks) NULL), ht_leave t))"

definition HashTable_Contains :: "wHashTable \<Rightarrow> ptr \<Rightarrow> (bool \<times> wHashTable) option" where
  "HashTable_Contains t key =
     (let t = ht_enter t in map_option (\<lambda>p. (p \<noteq> None, ht_leave t)) (HashTable_Get t key))"

definition HashTable_ContainsKey :: "wHashTable \<Rightarrow> ptr \<Rightarrow> (bool \<times> wHashTable) option" where
  "HashTable_ContainsKey t key =
     (let t = ht_enter t in map_option (\<lambda>p. (p \<noteq> None, ht_leave t)) (HashTable_Get t key))"

definition HashTable_ContainsValue :: "wHashTable \<Rightarrow> ptr \<Rightarrow> bool \<times> wHashTable" where
  "HashTable_ContainsValue t v =
     (let t = ht_enter t
      in (\<exists>p \<in> set (concat (bucketArray t)). valueCompare t v (snd p), ht_leave t))"

definition HashTable_New :: "bool \<Rightarrow> bool \<Rightarrow> bool \<Rightarrow> wHashTable option" where
  \<comment> \<open>The first two arguments: whether the two allocations succeed.\<close>
  "HashTable_New table_ok array_ok synchronized =
     (if \<not> table_ok \<or> \<not> array_ok then None
      else Some \<lparr>ht_synchronized = synchronized, ht_lock = 0, numOfBuckets = 64, numOfElements = 0,
             idealRatio = 3, lowerRehashThreshold = 0, upperRehashThreshold = 15,
             bucketArray = replicate 64 [], ht_hash = HashTable_PointerHash,
             keyCompare = HashTable_PointerCompare, valueCompare = HashTable_PointerCompare,
             keyClone = False, valueClone = False, keyFree = False, valueFree = False,
             keys_freed = [], values_freed = []\<rparr>)"

definition HashTable_Free :: "wHashTable \<Rightarrow> ptr list \<times> ptr list" where
  \<comment> \<open>The table is gone; what remains is the keys and values that were released.\<close>
  "HashTable_Free t =
     (let t = fold (\<lambda>c t. free_chain t c) (bucketArray t) t in (keys_freed t, values_freed t))"


subsection \<open>What a table holds\<close>

text \<open>
  \<open>view cmp ps\<close> is the map a list of pairs stands for, up to the comparison of the keys; \<open>single\<close> says
  that no key occurs twice.
\<close>

definition hits :: "(ptr \<Rightarrow> ptr \<Rightarrow> bool) \<Rightarrow> pair list \<Rightarrow> ptr \<Rightarrow> pair list" where
  "hits cmp ps key = filter (\<lambda>p. cmp key (fst p)) ps"

definition view :: "(ptr \<Rightarrow> ptr \<Rightarrow> bool) \<Rightarrow> pair list \<Rightarrow> ptr \<Rightarrow> ptr option" where
  "view cmp ps key = (case hits cmp ps key of [] \<Rightarrow> None | p # _ \<Rightarrow> Some (snd p))"

definition single :: "(ptr \<Rightarrow> ptr \<Rightarrow> bool) \<Rightarrow> pair list \<Rightarrow> bool" where
  "single cmp ps \<longleftrightarrow> (\<forall>key. length (hits cmp ps key) \<le> 1)"

lemma hits_simps [simp]:
  "hits cmp [] key = []"
  "hits cmp (p # ps) key = (if cmp key (fst p) then p # hits cmp ps key else hits cmp ps key)"
  "hits cmp (ps @ qs) key = hits cmp ps key @ hits cmp qs key"
  by (simp_all add: hits_def)

lemma hits_none: "hits cmp ps key = [] \<longleftrightarrow> (\<forall>p \<in> set ps. \<not> cmp key (fst p))"
  by (simp add: hits_def filter_empty_conv)

lemma view_mset:
  assumes "single cmp ps" "mset ps = mset qs"
  shows "single cmp qs" and "view cmp qs = view cmp ps"
proof -
  have m: "mset (hits cmp qs key) = mset (hits cmp ps key)" for key
    unfolding hits_def mset_filter assms(2) ..
  with assms(1) show "single cmp qs"
    unfolding single_def by (metis size_mset)
  have "hits cmp qs key = hits cmp ps key" for key
  proof (cases "hits cmp ps key")
    case (Cons p r)
    then have "hits cmp ps key = [p]" using assms(1) by (auto simp: single_def dest!: spec [of _ key])
    with m [of key] show ?thesis by simp
  qed (use m [of key] in simp)
  then show "view cmp qs = view cmp ps" by (simp add: view_def fun_eq_iff)
qed

locale hashing =
  fixes hash :: "ptr \<Rightarrow> u32" and cmp :: "ptr \<Rightarrow> ptr \<Rightarrow> bool"
  assumes cmp_refl: "cmp a a"
    and cmp_sym: "cmp a b \<Longrightarrow> cmp b a"
    and cmp_trans: "cmp a b \<Longrightarrow> cmp b c \<Longrightarrow> cmp a c"
    and hash_cmp: "cmp a b \<Longrightarrow> hash a = hash b"
begin

lemma cmp_cong: "cmp a b \<Longrightarrow> cmp k a = cmp k b"
  by (metis cmp_sym cmp_trans)

lemma replace_pair:
  assumes "cmp key (fst p)" "single cmp (ps @ p # qs)" "fst p' = key \<or> fst p' = fst p"
  shows "single cmp (ps @ p' # qs)"
    and "view cmp (ps @ p' # qs) = (\<lambda>k. if cmp k key then Some (snd p') else view cmp (ps @ p # qs) k)"
proof -
  have c: "cmp k (fst p') = cmp k (fst p)" "cmp k key = cmp k (fst p)" for k
    using assms(1,3) cmp_cong by metis+
  have n: "length (hits cmp ps k @ (if cmp k (fst p) then [p] else []) @ hits cmp qs k) \<le> 1" for k
    using assms(2) by (auto simp: single_def dest!: spec [of _ k] split: if_splits)
  show "single cmp (ps @ p' # qs)"
    unfolding single_def
  proof
    fix k show "length (hits cmp (ps @ p' # qs) k) \<le> 1" using n [of k] by (simp add: c split: if_splits)
  qed
  show "view cmp (ps @ p' # qs) = (\<lambda>k. if cmp k key then Some (snd p') else view cmp (ps @ p # qs) k)"
  proof
    fix k
    show "view cmp (ps @ p' # qs) k = (if cmp k key then Some (snd p') else view cmp (ps @ p # qs) k)"
      using n [of k] by (simp add: view_def c split: if_splits)
  qed
qed

lemma insert_pair:
  assumes "hits cmp (ps @ qs) key = []" "single cmp (ps @ qs)"
  shows "single cmp (ps @ (key, v) # qs)"
    and "view cmp (ps @ (key, v) # qs) = (\<lambda>k. if cmp k key then Some v else view cmp (ps @ qs) k)"
proof -
  have h: "cmp k key \<Longrightarrow> hits cmp (ps @ qs) k = []" for k
    using assms(1) unfolding hits_none by (metis cmp_sym cmp_trans)
  show "single cmp (ps @ (key, v) # qs)"
    using assms(2) h by (auto simp: single_def)
  show "view cmp (ps @ (key, v) # qs) = (\<lambda>k. if cmp k key then Some v else view cmp (ps @ qs) k)"
    using h by (auto simp: view_def fun_eq_iff)
qed

lemma remove_pair:
  assumes "cmp key (fst p)" "single cmp (ps @ p # qs)"
  shows "single cmp (ps @ qs)"
    and "view cmp (ps @ qs) = (\<lambda>k. if cmp k key then None else view cmp (ps @ p # qs) k)"
proof -
  have n: "length (hits cmp (ps @ p # qs) k) \<le> 1" for k
    using assms(2) by (simp add: single_def)
  show "single cmp (ps @ qs)"
    unfolding single_def
  proof
    fix k show "length (hits cmp (ps @ qs) k) \<le> 1" using n [of k] by (simp split: if_splits)
  qed
  show "view cmp (ps @ qs) = (\<lambda>k. if cmp k key then None else view cmp (ps @ p # qs) k)"
  proof
    fix k
    have "cmp k key = cmp k (fst p)" by (rule cmp_cong [OF assms(1)])
    with n [of k] show "view cmp (ps @ qs) k = (if cmp k key then None else view cmp (ps @ p # qs) k)"
      by (simp add: view_def split: if_splits)
  qed
qed

end

text \<open>Both kinds of keys the table provides satisfy the contract.\<close>

interpretation pointer_keys: hashing HashTable_PointerHash HashTable_PointerCompare
  by unfold_locales (simp_all add: HashTable_PointerCompare_def)

definition string_at :: "(ptr \<Rightarrow> bytes) \<Rightarrow> ptr \<Rightarrow> bytes option" where
  \<comment> \<open>A pointer as the string it points to.\<close>
  "string_at str p = (if p = NULL then None else Some (str p))"

interpretation string_keys: hashing "\<lambda>p. HashTable_StringHash (case string_at str p of None \<Rightarrow> [] | Some b \<Rightarrow> b)"
    "\<lambda>p q. HashTable_StringCompare (string_at str p) (string_at str q)" for str
  by unfold_locales (auto simp: HashTable_StringCompare_def split: option.splits)


subsection \<open>The table as a map\<close>

definition in_slots :: "(ptr \<Rightarrow> u32) \<Rightarrow> int \<Rightarrow> pair list list \<Rightarrow> bool" where
  "in_slots hash n b \<longleftrightarrow> length b = nat n \<and> (\<forall>i < length b. \<forall>p \<in> set (b ! i). slot hash n (fst p) = i)"

definition ht_pairs :: "wHashTable \<Rightarrow> pair list" where
  "ht_pairs t = concat (bucketArray t)"

definition ht_wf :: "wHashTable \<Rightarrow> bool" where
  "ht_wf t \<longleftrightarrow> 0 < numOfBuckets t \<and> (word_of_int (numOfBuckets t) :: u32) \<noteq> 0 \<and>
     in_slots (ht_hash t) (numOfBuckets t) (bucketArray t) \<and> single (keyCompare t) (ht_pairs t) \<and>
     numOfElements t = int (length (ht_pairs t)) \<and> 1 \<le> idealRatio t"

definition ht_abs :: "wHashTable \<Rightarrow> (ptr \<Rightarrow> ptr option) \<times> int" where
  "ht_abs t = (view (keyCompare t) (ht_pairs t), numOfElements t)"

lemma slot_less: "0 < n \<Longrightarrow> (word_of_int n :: u32) \<noteq> 0 \<Longrightarrow> slot hash n key < nat n"
proof -
  assume n: "0 < n" "(word_of_int n :: u32) \<noteq> 0"
  have "unat (hash key mod word_of_int n) < unat (word_of_int n :: u32)"
    using n(2) by (simp add: unat_mod unat_gt_0)
  also have "unat (word_of_int n :: u32) \<le> nat n"
    using n(1) by (simp add: unat_eq_nat_uint uint_word_of_int nat_mono zmod_le_nonneg_dividend)
  finally show ?thesis by (simp add: slot_def)
qed

lemma in_slots_replicate: "in_slots hash n (replicate (nat n) [])"
  by (simp add: in_slots_def)

lemma in_slots_update:
  assumes "in_slots hash n b" "i < length b" "\<forall>p \<in> set c. slot hash n (fst p) = i"
  shows "in_slots hash n (b[i := c])"
  using assms by (auto simp: in_slots_def nth_list_update)

lemma mset_concat_update:
  "i < length b \<Longrightarrow> mset (concat (b[i := p # b ! i])) = add_mset p (mset (concat b))"
proof (induction b arbitrary: i)
  case (Cons c b)
  then show ?case by (cases i) simp_all
qed simp

lemma rehash_chain_spec:
  assumes "0 < n" "(word_of_int n :: u32) \<noteq> 0" "in_slots hash n b"
  shows "in_slots hash n (rehash_chain hash n ps b) \<and>
    mset (concat (rehash_chain hash n ps b)) = mset ps + mset (concat b)"
  using assms(3)
proof (induction ps arbitrary: b)
  case (Cons p ps)
  let ?i = "slot hash n (fst p)"
  have i: "?i < length b"
    using slot_less [OF assms(1,2)] Cons.prems by (simp add: in_slots_def)
  have "in_slots hash n (b[?i := p # b ! ?i])"
    by (rule in_slots_update [OF Cons.prems i]) (use Cons.prems i in \<open>auto simp: in_slots_def\<close>)
  from Cons.IH [OF this] i show ?case by (simp add: mset_concat_update)
qed simp

lemma rehash_chains_spec:
  assumes "0 < n" "(word_of_int n :: u32) \<noteq> 0" "in_slots hash n b"
  shows "in_slots hash n (fold (rehash_chain hash n) cs b) \<and>
    mset (concat (fold (rehash_chain hash n) cs b)) = mset (concat cs) + mset (concat b)"
  using assms(3)
proof (induction cs arbitrary: b)
  case (Cons c cs)
  from rehash_chain_spec [OF assms(1,2) Cons.prems, of c] Cons.IH [of "rehash_chain hash n c b"]
  show ?case by simp
qed simp

lemma next_probable_prime_bounds: "odd n \<Longrightarrow> odd (next_probable_prime n) \<and> n \<le> next_probable_prime n"
proof (induction n rule: next_probable_prime.induct)
  case (1 n)
  then show ?case
    by (cases "HashTable_IsProbablePrime n") (auto simp: next_probable_prime.simps [of n])
qed

lemma odd_word: "odd n \<Longrightarrow> (word_of_int n :: u32) \<noteq> 0"
proof
  assume "odd n" and "(word_of_int n :: u32) = 0"
  then have "uint (word_of_int n :: u32) = 0" by simp
  then have "n mod 2 ^ 32 = 0" by (simp add: uint_word_of_int)
  then have "2 ^ 32 dvd n" by (simp add: dvd_eq_mod_eq_0)
  then have "even n" by (metis dvd_power dvd_trans zero_less_numeral)
  with \<open>odd n\<close> show False by simp
qed

lemma ideal_buckets:
  assumes "1 \<le> idealRatio t" "0 \<le> numOfElements t"
  obtains n where "HashTable_CalculateIdealNumOfBuckets t = Some n" "5 \<le> n" "odd n"
proof -
  have "1 \<le> \<lfloor>idealRatio t\<rfloor>" using assms(1) by linarith
  let ?i = "numOfElements t div \<lfloor>idealRatio t\<rfloor>"
  define m where "m = (if ?i < 5 then 5 else ?i OR 1)"
  have "odd m" by (simp add: m_def even_or_iff)
  moreover have "5 \<le> m"
    by (auto simp: m_def or_one_eq)
  ultimately show ?thesis
    using that [of "next_probable_prime m"] next_probable_prime_bounds [of m] assms \<open>1 \<le> \<lfloor>idealRatio t\<rfloor>\<close>
    by (simp add: HashTable_CalculateIdealNumOfBuckets_def m_def Let_def)
qed

lemma HashTable_Rehash_wf:
  assumes "ht_wf t" "n = 0 \<or> n = 5"
  shows "\<exists>b m. HashTable_Rehash env t n = Some (t\<lparr>bucketArray := b, numOfBuckets := m\<rparr>) \<and>
    ht_wf (t\<lparr>bucketArray := b, numOfBuckets := m\<rparr>) \<and> ht_abs (t\<lparr>bucketArray := b, numOfBuckets := m\<rparr>) = ht_abs t"
proof -
  have "0 \<le> numOfElements t" "1 \<le> idealRatio t" using assms(1) by (simp_all add: ht_wf_def)
  then obtain k where k: "(if n = 0 then HashTable_CalculateIdealNumOfBuckets t else Some n) = Some k" "0 < k" "odd k"
    using assms(2) by (cases "n = 0") (auto elim: ideal_buckets [of t])
  have w: "(word_of_int k :: u32) \<noteq> 0" by (rule odd_word [OF k(3)])
  define b where "b = fold (rehash_chain (ht_hash t) k) (bucketArray t) (replicate (nat k) [])"
  have "in_slots (ht_hash t) k b" "mset (concat b) = mset (ht_pairs t)"
    using rehash_chains_spec [OF k(2) w in_slots_replicate, of "ht_hash t" "bucketArray t"]
    by (simp_all add: b_def ht_pairs_def)
  then have "ht_wf (t\<lparr>bucketArray := b, numOfBuckets := k\<rparr>) \<and> ht_abs (t\<lparr>bucketArray := b, numOfBuckets := k\<rparr>) = ht_abs t"
    using assms(1) k(2) w view_mset [of "keyCompare t" "ht_pairs t" "concat b"]
    by (auto simp: ht_wf_def ht_abs_def ht_pairs_def dest: mset_eq_length)
  moreover have "HashTable_Rehash env t n = Some t \<or>
      HashTable_Rehash env t n = Some (t\<lparr>bucketArray := b, numOfBuckets := k\<rparr>)"
    using k by (simp add: HashTable_Rehash_def b_def)
  moreover have "t = t\<lparr>bucketArray := bucketArray t, numOfBuckets := numOfBuckets t\<rparr>" by simp
  ultimately show ?thesis using assms(1) by metis
qed


lemma ht_lock_fields [simp]:
  "ht_wf (ht_enter t) = ht_wf t" "ht_wf (ht_leave t) = ht_wf t"
  "ht_abs (ht_enter t) = ht_abs t" "ht_abs (ht_leave t) = ht_abs t"
  "ht_wf (free_key t k) = ht_wf t" "ht_wf (free_value t k) = ht_wf t"
  "ht_abs (free_key t k) = ht_abs t" "ht_abs (free_value t k) = ht_abs t"
  "ht_pairs (ht_enter t) = ht_pairs t" "ht_pairs (ht_leave t) = ht_pairs t"
  by (simp_all add: ht_wf_def ht_abs_def ht_pairs_def ht_enter_def ht_leave_def free_key_def free_value_def)

lemma free_fields [simp]:
  "bucketArray (free_key t k) = bucketArray t" "bucketArray (free_value t k) = bucketArray t"
  "numOfBuckets (free_key t k) = numOfBuckets t" "numOfBuckets (free_value t k) = numOfBuckets t"
  "numOfElements (free_key t k) = numOfElements t" "numOfElements (free_value t k) = numOfElements t"
  by (simp_all add: free_key_def free_value_def)

definition ht_same :: "wHashTable \<Rightarrow> wHashTable \<Rightarrow> bool" where
  \<comment> \<open>The configuration of a table, which no operation changes.\<close>
  "ht_same t t' \<longleftrightarrow> ht_synchronized t' = ht_synchronized t \<and> ht_hash t' = ht_hash t \<and>
     keyCompare t' = keyCompare t \<and> valueCompare t' = valueCompare t \<and> keyClone t' = keyClone t \<and>
     valueClone t' = valueClone t \<and> keyFree t' = keyFree t \<and> valueFree t' = valueFree t"

lemma bucketE:
  assumes "hashing (ht_hash t) (keyCompare t)" "ht_wf t"
  obtains bs c cs where "bucket t key = Some (length bs)" "bucketArray t = bs @ c # cs"
    "length bs = slot (ht_hash t) (numOfBuckets t) key"
    "hits (keyCompare t) (concat bs) key = []" "hits (keyCompare t) (concat cs) key = []"
proof -
  note hash_cmp = hashing.hash_cmp [OF assms(1)]
  let ?i = "slot (ht_hash t) (numOfBuckets t) key" and ?b = "bucketArray t"
  have sl: "in_slots (ht_hash t) (numOfBuckets t) ?b" using assms(2) by (simp add: ht_wf_def)
  have i: "?i < length ?b"
    using assms(2) slot_less by (auto simp: ht_wf_def in_slots_def)
  have away: "\<not> keyCompare t key (fst p)" if "j < length ?b" "p \<in> set (?b ! j)" "j \<noteq> ?i" for j p
    using that sl hash_cmp [of key "fst p"] by (auto simp: in_slots_def slot_def)
  have "hits (keyCompare t) (concat (take ?i ?b)) key = []"
    unfolding hits_none
  proof
    fix p assume "p \<in> set (concat (take ?i ?b))"
    then obtain j where "j < ?i" "p \<in> set (?b ! j)" using i by (auto simp: in_set_conv_nth [of _ "take ?i ?b"])
    then show "\<not> keyCompare t key (fst p)" using away [of j p] i by auto
  qed
  moreover have "hits (keyCompare t) (concat (drop (Suc ?i) ?b)) key = []"
    unfolding hits_none
  proof
    fix p assume "p \<in> set (concat (drop (Suc ?i) ?b))"
    then obtain j where "j < length ?b - Suc ?i" "p \<in> set (?b ! (Suc ?i + j))"
      by (auto simp: in_set_conv_nth [of _ "drop (Suc ?i) ?b"])
    then show "\<not> keyCompare t key (fst p)" using away [of "Suc ?i + j" p] by auto
  qed
  moreover have "bucket t key = Some ?i"
    using i assms(2) by (simp add: bucket_def ht_wf_def)
  moreover have "?b = take ?i ?b @ ?b ! ?i # drop (Suc ?i) ?b" by (rule id_take_nth_drop [OF i])
  ultimately show ?thesis
    using that [of "take ?i ?b" "?b ! ?i" "drop (Suc ?i) ?b"] i by simp
qed

lemma chain_fromE:
  assumes "bucketArray t = bs @ c # cs"
  obtains "chain_from t key (length bs) = (c, [])" "hits (keyCompare t) c key = []"
  | before p after where "chain_from t key (length bs) = (before, p # after)" "c = before @ p # after"
      "keyCompare t key (fst p)" "hits (keyCompare t) before key = []"
proof -
  let ?miss = "\<lambda>p. \<not> keyCompare t key (fst p)"
  have c: "chain_from t key (length bs) = (takeWhile ?miss c, dropWhile ?miss c)"
    using assms by (simp add: chain_from_def Let_def)
  show ?thesis
  proof (cases "dropWhile ?miss c")
    case Nil
    then have "\<forall>p \<in> set c. ?miss p" by (simp add: dropWhile_eq_Nil_conv)
    moreover from this have "takeWhile ?miss c = c" by (simp add: takeWhile_eq_all_conv)
    ultimately show ?thesis using that(1) c Nil by (simp add: hits_none)
  next
    case (Cons p after)
    have "c = takeWhile ?miss c @ p # after" using takeWhile_dropWhile_id [of ?miss c] Cons by simp
    moreover have "keyCompare t key (fst p)" using Cons by (simp add: dropWhile_eq_Cons_conv)
    moreover have "hits (keyCompare t) (takeWhile ?miss c) key = []"
      by (auto simp: hits_none dest: set_takeWhileD)
    ultimately show ?thesis using that(2) c Cons by metis
  qed
qed

lemma ht_wf_chain:
  assumes "ht_wf t" "bucketArray t = bs @ c # cs"
    and "\<forall>p \<in> set c'. slot (ht_hash t) (numOfBuckets t) (fst p) = length bs"
    and "single (keyCompare t) (concat bs @ c' @ concat cs)"
    and "n = numOfElements t + int (length c') - int (length c)"
  shows "ht_wf (t\<lparr>bucketArray := bs @ c' # cs, numOfElements := n\<rparr>)"
  using assms in_slots_update [of "ht_hash t" "numOfBuckets t" "bucketArray t" "length bs" c']
  by (simp add: ht_wf_def ht_pairs_def)


lemma ht_wfD:
  assumes "ht_wf t" "bucketArray t = bs @ c # cs"
  shows "\<forall>p \<in> set c. slot (ht_hash t) (numOfBuckets t) (fst p) = length bs"
    and "single (keyCompare t) (concat bs @ c @ concat cs)"
    and "ht_abs t = (view (keyCompare t) (concat bs @ c @ concat cs), numOfElements t)"
proof -
  have "\<forall>p \<in> set (bucketArray t ! length bs). slot (ht_hash t) (numOfBuckets t) (fst p) = length bs"
    using assms by (simp add: ht_wf_def in_slots_def del: nth_append_length)
  then show "\<forall>p \<in> set c. slot (ht_hash t) (numOfBuckets t) (fst p) = length bs"
    using assms(2) by simp
qed (use assms in \<open>simp_all add: ht_wf_def ht_abs_def ht_pairs_def\<close>)

definition ht_becomes :: "wHashTable \<Rightarrow> wHashTable \<Rightarrow> (ptr \<Rightarrow> ptr option) \<Rightarrow> int \<Rightarrow> bool" where
  \<comment> \<open>What a step on a table leaves: the same configuration and lock, and a new map.\<close>
  "ht_becomes t t' m n \<longleftrightarrow> ht_wf t' \<and> ht_same t t' \<and> ht_lock t' = ht_lock t \<and> ht_abs t' = (m, n)"

lemma ht_becomes_rehash:
  assumes "ht_becomes t t' m n"
  shows "\<exists>t''. (if c then HashTable_Rehash env t' 0 else Some t') = Some t'' \<and> ht_becomes t t'' m n"
proof (cases c)
  case True
  from assms have "ht_wf t'" by (simp add: ht_becomes_def)
  from HashTable_Rehash_wf [OF this, of 0 env] True assms show ?thesis
    by (auto simp: ht_becomes_def ht_same_def)
qed (use assms in simp)

lemma add_entry_abs:
  assumes "hashing (ht_hash t) (keyCompare t)" "ht_wf t" "ht_abs t = (m, n)"
  shows "\<exists>r t'. add_entry env t key v = Some (r, t') \<and>
    (if m key = None \<and> \<not> pair_ok env then r = -1 \<and> ht_becomes t t' m n
     else r = 0 \<and> ht_becomes t t' (\<lambda>k. if keyCompare t k key then Some v else m k) (if m key = None then n + 1 else n))"
proof -
  note replace_pair = hashing.replace_pair [OF assms(1)] and
    insert_pair = hashing.insert_pair [OF assms(1)]
  obtain bs c cs where b: "bucket t key = Some (length bs)" "bucketArray t = bs @ c # cs"
    "length bs = slot (ht_hash t) (numOfBuckets t) key"
    "hits (keyCompare t) (concat bs) key = []" "hits (keyCompare t) (concat cs) key = []"
    by (rule bucketE [OF assms(1,2)])
  note wf = ht_wfD [OF assms(2) b(2)]
  from assms(3) have mn: "m = view (keyCompare t) (concat bs @ c @ concat cs)" "n = numOfElements t"
    by (simp_all add: wf(3))
  show ?thesis
  proof (cases rule: chain_fromE [OF b(2), of key])
    case 1
    then have none: "m key = None" using b(4,5) by (simp add: mn view_def)
    show ?thesis
    proof (cases "pair_ok env")
      case True
      let ?t = "t\<lparr>bucketArray := bs @ ((key, v) # c) # cs, numOfElements := numOfElements t + 1\<rparr>"
      note ins = insert_pair [of "concat bs" "c @ concat cs" key v]
      have "ht_wf ?t"
        by (rule ht_wf_chain [OF assms(2) b(2)]) (use wf b(3-5) 1 ins in auto)
      moreover have "ht_abs ?t = (\<lambda>k. if keyCompare t k key then Some v else m k, n + 1)"
        using ins(2) wf(2) b(2,4,5) 1(2) unfolding mn by (simp add: ht_abs_def ht_pairs_def cong: if_cong)
      ultimately have "ht_becomes t ?t (\<lambda>k. if keyCompare t k key then Some v else m k) (n + 1)"
        by (simp add: ht_becomes_def ht_same_def)
      from ht_becomes_rehash [OF this, of "upperRehashThreshold ?t > idealRatio ?t \<and>
          elementToBucketRatio env ?t > upperRehashThreshold ?t" env] obtain t''
        where "add_entry env t key v = Some (0, t'')"
          "ht_becomes t t'' (\<lambda>k. if keyCompare t k key then Some v else m k) (n + 1)"
        using True b(1,2) 1(1) by (auto simp: add_entry_def Let_def)
      with none True show ?thesis by auto
    qed (use none b(1) 1(1) assms in \<open>auto simp: add_entry_def ht_becomes_def ht_same_def\<close>)
  next
    case (2 before p after)
    let ?c = "before @ (key, v) # after"
    let ?f = "\<lambda>t. let t = (if fst p \<noteq> key then free_key t (fst p) else t) in if snd p \<noteq> v then free_value t (snd p) else t"
    let ?t = "(?f t)\<lparr>bucketArray := bs @ ?c # cs\<rparr>"
    note rep = replace_pair [of key p "concat bs @ before" "after @ concat cs" "(key, v)"]
    have "slot (ht_hash t) (numOfBuckets t) key = length bs" using b(3) by simp
    then have "ht_wf (t\<lparr>bucketArray := bs @ ?c # cs, numOfElements := numOfElements t\<rparr>)"
      by (intro ht_wf_chain [OF assms(2) b(2)]) (use wf 2 rep in auto)
    then have "ht_wf ?t"
      by (simp add: ht_wf_def ht_pairs_def free_key_def free_value_def Let_def)
    moreover have "ht_abs ?t = (\<lambda>k. if keyCompare t k key then Some v else m k, n)"
      using rep(2) wf(2) b 2 unfolding mn by (simp add: ht_abs_def ht_pairs_def free_key_def free_value_def Let_def cong: if_cong)
    ultimately have "ht_becomes t ?t (\<lambda>k. if keyCompare t k key then Some v else m k) n"
      by (simp add: ht_becomes_def ht_same_def free_key_def free_value_def Let_def)
    moreover have "add_entry env t key v = Some (0, ?t)"
      using b(1,2) 2(1) by (simp add: add_entry_def Let_def)
    moreover have "m key \<noteq> None"
      using b(4) 2 by (simp add: mn view_def)
    ultimately show ?thesis by auto
  qed
qed

lemma remove_entry_abs:
  assumes "hashing (ht_hash t) (keyCompare t)" "ht_wf t" "ht_abs t = (m, n)"
  shows "\<exists>t'. remove_entry env t key = Some (m key \<noteq> None, t') \<and>
    ht_becomes t t' (\<lambda>k. if keyCompare t k key then None else m k) (if m key = None then n else n - 1)"
proof -
  note cmp_sym = hashing.cmp_sym [OF assms(1)] and
    cmp_trans = hashing.cmp_trans [OF assms(1)] and
    remove_pair = hashing.remove_pair [OF assms(1)]
  obtain bs c cs where b: "bucket t key = Some (length bs)" "bucketArray t = bs @ c # cs"
    "hits (keyCompare t) (concat bs) key = []" "hits (keyCompare t) (concat cs) key = []"
    by (rule bucketE [OF assms(1,2)])
  note wf = ht_wfD [OF assms(2) b(2)]
  from assms(3) have mn: "m = view (keyCompare t) (concat bs @ c @ concat cs)" "n = numOfElements t"
    by (simp_all add: wf(3))
  show ?thesis
  proof (cases rule: chain_fromE [OF b(2), of key])
    case 1
    then have h: "hits (keyCompare t) (concat bs @ c @ concat cs) key = []" using b(3,4) by simp
    then have "m key = None" by (simp add: mn view_def)
    moreover have "(\<lambda>k. if keyCompare t k key then None else m k) = m"
    proof
      fix k
      have "keyCompare t k key \<Longrightarrow> hits (keyCompare t) (concat bs @ c @ concat cs) k = []"
        using h unfolding hits_none by (metis cmp_sym cmp_trans)
      then show "(if keyCompare t k key then None else m k) = m k" by (simp add: mn view_def)
    qed
    ultimately show ?thesis
      using b(1) 1(1) assms by (auto simp: remove_entry_def ht_becomes_def ht_same_def)
  next
    case (2 before p after)
    let ?f = "free_value (free_key t (fst p)) (snd p)"
    let ?t = "?f\<lparr>bucketArray := bs @ (before @ after) # cs, numOfElements := numOfElements ?f - 1\<rparr>"
    note rem = remove_pair [of key p "concat bs @ before" "after @ concat cs"]
    have "ht_wf (t\<lparr>bucketArray := bs @ (before @ after) # cs, numOfElements := numOfElements t - 1\<rparr>)"
      by (intro ht_wf_chain [OF assms(2) b(2)]) (use wf 2 rem in auto)
    then have "ht_wf ?t"
      by (simp add: ht_wf_def ht_pairs_def free_key_def free_value_def)
    moreover have "ht_abs ?t = (\<lambda>k. if keyCompare t k key then None else m k, n - 1)"
      using rem(2) wf(2) b(2) 2 unfolding mn by (simp add: ht_abs_def ht_pairs_def free_key_def free_value_def cong: if_cong)
    ultimately have "ht_becomes t ?t (\<lambda>k. if keyCompare t k key then None else m k) (n - 1)"
      by (simp add: ht_becomes_def ht_same_def free_key_def free_value_def)
    from ht_becomes_rehash [OF this, of "lowerRehashThreshold ?t > 0 \<and>
        elementToBucketRatio env ?t < lowerRehashThreshold ?t" env] obtain t''
      where t'': "(if lowerRehashThreshold ?t > 0 \<and> elementToBucketRatio env ?t < lowerRehashThreshold ?t
          then HashTable_Rehash env ?t 0 else Some ?t) = Some t''"
        "ht_becomes t t'' (\<lambda>k. if keyCompare t k key then None else m k) (n - 1)" by blast
    have "remove_entry env t key = map_option (Pair True)
        (if lowerRehashThreshold ?t > 0 \<and> elementToBucketRatio env ?t < lowerRehashThreshold ?t
          then HashTable_Rehash env ?t 0 else Some ?t)"
      using b(1,2) 2(1) by (simp add: remove_entry_def Let_def cong: if_cong)
    with t'' have "remove_entry env t key = Some (True, t'')" by simp
    moreover note t''(2)
    moreover have "m key \<noteq> None" using b(3) 2 by (simp add: mn view_def)
    ultimately show ?thesis by auto
  qed
qed

lemma set_entry_abs:
  assumes "hashing (ht_hash t) (keyCompare t)" "ht_wf t" "ht_abs t = (m, n)"
  shows "\<exists>t'. set_entry t key v = Some (m key \<noteq> None, t') \<and>
    ht_becomes t t' (if m key = None then m else (\<lambda>k. if keyCompare t k key then Some v else m k)) n"
proof -
  note replace_pair = hashing.replace_pair [OF assms(1)]
  obtain bs c cs where b: "bucket t key = Some (length bs)" "bucketArray t = bs @ c # cs"
    "hits (keyCompare t) (concat bs) key = []" "hits (keyCompare t) (concat cs) key = []"
    by (rule bucketE [OF assms(1,2)])
  note wf = ht_wfD [OF assms(2) b(2)]
  from assms(3) have mn: "m = view (keyCompare t) (concat bs @ c @ concat cs)" "n = numOfElements t"
    by (simp_all add: wf(3))
  show ?thesis
  proof (cases rule: chain_fromE [OF b(2), of key])
    case 1
    then have "m key = None" using b(3,4) by (simp add: mn view_def)
    then show ?thesis
      using b(1) 1(1) assms by (auto simp: set_entry_def ht_becomes_def ht_same_def)
  next
    case (2 before p after)
    let ?t = "t\<lparr>bucketArray := bs @ (before @ (fst p, v) # after) # cs\<rparr>"
    note rep = replace_pair [of key p "concat bs @ before" "after @ concat cs" "(fst p, v)"]
    have "ht_wf (t\<lparr>bucketArray := bs @ (before @ (fst p, v) # after) # cs, numOfElements := numOfElements t\<rparr>)"
      by (intro ht_wf_chain [OF assms(2) b(2)]) (use wf 2 rep in auto)
    then have "ht_wf ?t" by simp
    moreover have "ht_abs ?t = (\<lambda>k. if keyCompare t k key then Some v else m k, n)"
      using rep(2) wf(2) b(2) 2 unfolding mn by (simp add: ht_abs_def ht_pairs_def cong: if_cong)
    moreover have "m key \<noteq> None" using b(3) 2 by (simp add: mn view_def)
    ultimately show ?thesis
      using b(1,2) 2(1) by (auto simp: set_entry_def ht_becomes_def ht_same_def)
  qed
qed

lemma HashTable_Get_abs:
  assumes "hashing (ht_hash t) (keyCompare t)" "ht_wf t" "ht_abs t = (m, n)"
  shows "\<exists>p. HashTable_Get t key = Some p \<and> map_option snd p = m key"
proof -
  obtain bs c cs where b: "bucket t key = Some (length bs)" "bucketArray t = bs @ c # cs"
    "hits (keyCompare t) (concat bs) key = []" "hits (keyCompare t) (concat cs) key = []"
    by (rule bucketE [OF assms(1,2)])
  from assms(3) have m: "m = view (keyCompare t) (concat bs @ c @ concat cs)"
    by (simp add: ht_wfD(3) [OF assms(2) b(2)])
  show ?thesis
    by (cases rule: chain_fromE [OF b(2), of key])
      (use b in \<open>auto simp: HashTable_Get_def m view_def\<close>)
qed

lemma free_chain_fields [simp]:
  "bucketArray (free_chain t ps) = bucketArray t" "numOfBuckets (free_chain t ps) = numOfBuckets t"
  "idealRatio (free_chain t ps) = idealRatio t" "ht_lock (free_chain t ps) = ht_lock t"
  "ht_same t' (free_chain t ps) = ht_same t' t"
  by (induction t ps rule: free_chain.induct) (simp_all add: free_key_def free_value_def ht_same_def)

lemma free_chains_fields [simp]:
  "bucketArray (fold (\<lambda>c t. free_chain t c) cs t) = bucketArray t"
  "numOfBuckets (fold (\<lambda>c t. free_chain t c) cs t) = numOfBuckets t"
  "idealRatio (fold (\<lambda>c t. free_chain t c) cs t) = idealRatio t"
  "ht_lock (fold (\<lambda>c t. free_chain t c) cs t) = ht_lock t"
  "ht_same t' (fold (\<lambda>c t. free_chain t c) cs t) = ht_same t' t"
  by (induction cs arbitrary: t) simp_all

lemma ht_lock_config [simp]:
  "ht_same (ht_enter t) t' = ht_same t t'" "ht_same t (ht_enter t') = ht_same t t'" "ht_same t (ht_leave t') = ht_same t t'"
  "ht_hash (ht_enter t) = ht_hash t" "keyCompare (ht_enter t) = keyCompare t"
  "keyClone (ht_enter t) = keyClone t" "valueClone (ht_enter t) = valueClone t"
  "ht_synchronized (ht_enter t) = ht_synchronized t" "ht_same t t"
  "valueCompare (ht_enter t) = valueCompare t" "keyFree (ht_enter t) = keyFree t" "valueFree (ht_enter t) = valueFree t"
  by (simp_all add: ht_same_def ht_enter_def ht_leave_def)

lemma ht_becomes_locked:
  assumes "ht_becomes (ht_enter t) t' m n"
  shows "ht_becomes t (ht_leave t') m n"
proof -
  have "ht_synchronized t' = ht_synchronized t" "ht_lock t' = ht_lock (ht_enter t)"
    using assms by (simp_all add: ht_becomes_def ht_same_def)
  then have "ht_lock (ht_leave t') = ht_lock t" by (simp add: ht_enter_def ht_leave_def)
  with assms show ?thesis by (simp add: ht_becomes_def)
qed

lemma HashTable_Clear_abs:
  assumes "ht_wf t"
  shows "\<exists>t'. HashTable_Clear env t = Some t' \<and> ht_becomes t t' (\<lambda>_. None) 0"
proof -
  define f where "f = fold (\<lambda>c t. free_chain t c) (bucketArray t) (ht_enter t)"
  let ?t = "f\<lparr>bucketArray := map (\<lambda>_. []) (bucketArray f), numOfElements := 0\<rparr>"
  have b: "bucketArray (ht_enter t) = bucketArray t" "numOfBuckets (ht_enter t) = numOfBuckets t"
    "idealRatio (ht_enter t) = idealRatio t"
    by (simp_all add: ht_enter_def)
  have s: "ht_same t f" "ht_lock f = ht_lock (ht_enter t)" by (simp_all add: f_def)
  then have c: "keyCompare f = keyCompare t" "ht_hash f = ht_hash t" by (simp_all add: ht_same_def)
  have e: "concat (map (\<lambda>_. []) cs) = []" for cs :: "pair list list"
    by (induction cs) simp_all
  have w: "ht_wf ?t" and a: "ht_abs ?t = (\<lambda>_. None, 0)"
    using assms b c by (auto simp: ht_wf_def ht_pairs_def in_slots_def single_def e ht_abs_def view_def f_def)
  obtain b m where r: "HashTable_Rehash env ?t 5 = Some (?t\<lparr>bucketArray := b, numOfBuckets := m\<rparr>)"
    and r': "ht_wf (?t\<lparr>bucketArray := b, numOfBuckets := m\<rparr>)" "ht_abs (?t\<lparr>bucketArray := b, numOfBuckets := m\<rparr>) = (\<lambda>_. None, 0)"
    using HashTable_Rehash_wf [OF w, of 5 env] a by auto
  have "ht_becomes (ht_enter t) (?t\<lparr>bucketArray := b, numOfBuckets := m\<rparr>) (\<lambda>_. None) 0"
    using r' s by (simp add: ht_becomes_def ht_same_def)
  from ht_becomes_locked [OF this] r \<open>bucketArray (ht_enter t) = bucketArray t\<close> show ?thesis
    by (simp add: HashTable_Clear_def Let_def f_def)
qed

subsection \<open>Sequences of operations\<close>

datatype ht_op =
    HAdd ht_env ptr ptr
  | HRemove ht_env ptr
  | HGet ptr
  | HSet ht_env ptr ptr
  | HContains ptr
  | HContainsKey ptr
  | HCount
  | HClear ht_env

datatype ht_result = RInt int | RBool bool | RPtr ptr | RVoid

fun ht_step :: "ht_op \<Rightarrow> wHashTable \<Rightarrow> (ht_result \<times> wHashTable) option" where
  "ht_step (HAdd env key v) t = map_option (map_prod RInt id) (HashTable_Add env t key v)"
| "ht_step (HRemove env key) t = map_option (map_prod RBool id) (HashTable_Remove env t key)"
| "ht_step (HGet key) t = map_option (map_prod RPtr id) (HashTable_GetItemValue t key)"
| "ht_step (HSet env key v) t = map_option (map_prod RBool id) (HashTable_SetItemValue env t key v)"
| "ht_step (HContains key) t = map_option (map_prod RBool id) (HashTable_Contains t key)"
| "ht_step (HContainsKey key) t = map_option (map_prod RBool id) (HashTable_ContainsKey t key)"
| "ht_step HCount t = Some (RInt (HashTable_Count t), t)"
| "ht_step (HClear env) t = map_option (Pair RVoid) (HashTable_Clear env t)"

text \<open>
  The specification: a map and the number of its keys. A map is a function of the key that does not tell
  apart keys the comparison takes for equal. \<open>kc\<close> and \<open>vc\<close> say whether the clone callbacks are set.
\<close>

fun ht_spec :: "(ptr \<Rightarrow> ptr \<Rightarrow> bool) \<Rightarrow> bool \<Rightarrow> bool \<Rightarrow> ht_op \<Rightarrow> (ptr \<Rightarrow> ptr option) \<times> int
    \<Rightarrow> ht_result \<times> (ptr \<Rightarrow> ptr option) \<times> int" where
  "ht_spec cmp kc vc (HAdd env key v) (m, n) =
     (let key' = (if kc then key_clone env key else key); v' = (if vc then value_clone env v else v)
      in if key = NULL \<or> v = NULL \<or> key' = NULL \<or> v' = NULL \<or> m key' = None \<and> \<not> pair_ok env
         then (RInt (-1), m, n)
         else (RInt 0, \<lambda>k. if cmp k key' then Some v' else m k, if m key' = None then n + 1 else n))"
| "ht_spec cmp kc vc (HRemove env key) (m, n) =
     (RBool (m key \<noteq> None), \<lambda>k. if cmp k key then None else m k, if m key = None then n else n - 1)"
| "ht_spec cmp kc vc (HGet key) (m, n) = (RPtr (case m key of None \<Rightarrow> NULL | Some v \<Rightarrow> v), m, n)"
| "ht_spec cmp kc vc (HSet env key v) (m, n) =
     (let v' = (if vc \<and> v \<noteq> NULL then value_clone env v else v)
      in if vc \<and> v \<noteq> NULL \<and> v' = NULL \<or> m key = None then (RBool False, m, n)
         else (RBool True, \<lambda>k. if cmp k key then Some v' else m k, n))"
| "ht_spec cmp kc vc (HContains key) (m, n) = (RBool (m key \<noteq> None), m, n)"
| "ht_spec cmp kc vc (HContainsKey key) (m, n) = (RBool (m key \<noteq> None), m, n)"
| "ht_spec cmp kc vc HCount (m, n) = (RInt n, m, n)"
| "ht_spec cmp kc vc (HClear env) (m, n) = (RVoid, \<lambda>_. None, 0)"

definition ht_inv :: "wHashTable \<Rightarrow> wHashTable \<Rightarrow> bool" where
  \<comment> \<open>Well-formed, with the configuration and the lock of \<open>t0\<close>.\<close>
  "ht_inv t0 t \<longleftrightarrow> ht_wf t \<and> ht_same t0 t \<and> ht_lock t = ht_lock t0"

lemma ht_inv_becomes: "ht_inv t0 t \<Longrightarrow> ht_becomes t t' m n \<Longrightarrow> ht_inv t0 t' \<and> ht_abs t' = (m, n)"
  by (auto simp: ht_inv_def ht_becomes_def ht_same_def)

lemma ht_becomes_refl: "ht_wf t \<Longrightarrow> ht_abs t = (m, n) \<Longrightarrow> ht_becomes t t m n"
  by (simp add: ht_becomes_def)

lemma HashTable_Add_abs:
  assumes "hashing (ht_hash t) (keyCompare t)" "ht_wf t" "ht_abs t = (m, n)"
  shows "\<exists>r t' m' n'. ht_step (HAdd env key v) t = Some (r, t') \<and> ht_becomes t t' m' n' \<and>
    ht_spec (keyCompare t) (keyClone t) (valueClone t) (HAdd env key v) (m, n) = (r, m', n')"
proof -
  define k' v' where "k' = (if keyClone t then key_clone env key else key)" and "v' = (if valueClone t then value_clone env v else v)"
  note kv = this
  have enter: "hashing (ht_hash (ht_enter t)) (keyCompare (ht_enter t))" "ht_wf (ht_enter t)" "ht_abs (ht_enter t) = (m, n)"
    using assms by simp_all
  show ?thesis
  proof (cases "key = NULL \<or> v = NULL \<or> k' = NULL \<or> v' = NULL")
    case True
    then have "HashTable_Add env t key v = Some (-1, t)"
      by (auto simp: HashTable_Add_def Let_def kv)
    with True ht_becomes_refl [OF assms(2,3)] show ?thesis by (auto simp: Let_def kv [symmetric])
  next
    case False
    then have a: "HashTable_Add env t key v = map_option (map_prod id ht_leave) (add_entry env (ht_enter t) k' v')"
      by (auto simp: HashTable_Add_def Let_def kv)
    obtain r t' where e: "add_entry env (ht_enter t) k' v' = Some (r, t')"
      "if m k' = None \<and> \<not> pair_ok env then r = -1 \<and> ht_becomes (ht_enter t) t' m n
       else r = 0 \<and> ht_becomes (ht_enter t) t' (\<lambda>k. if keyCompare t k k' then Some v' else m k)
              (if m k' = None then n + 1 else n)"
      using add_entry_abs [OF enter, of env k' v', unfolded ht_lock_config] by blast
    show ?thesis
    proof (cases "m k' = None \<and> \<not> pair_ok env")
      case True
      with a e show ?thesis using ht_becomes_locked [of t t' m n] by (auto simp: Let_def kv [symmetric])
    next
      case False': False
      with e have "ht_becomes t (ht_leave t') (\<lambda>k. if keyCompare t k k' then Some v' else m k)
          (if m k' = None then n + 1 else n)" "r = 0" by (auto intro!: ht_becomes_locked)
      with a e(1) False False' show ?thesis by (auto simp: Let_def kv [symmetric])
    qed
  qed
qed


lemma ht_step_abs:
  assumes "hashing (ht_hash t) (keyCompare t)" "ht_wf t" "ht_abs t = (m, n)"
  shows "\<exists>r t' m' n'. ht_step op t = Some (r, t') \<and> ht_becomes t t' m' n' \<and>
    ht_spec (keyCompare t) (keyClone t) (valueClone t) op (m, n) = (r, m', n')"
proof -
  have enter: "hashing (ht_hash (ht_enter t)) (keyCompare (ht_enter t))" "ht_wf (ht_enter t)" "ht_abs (ht_enter t) = (m, n)"
    using assms by simp_all
  have same: "ht_becomes t (ht_leave (ht_enter t)) m n"
    by (intro ht_becomes_locked ht_becomes_refl) (use assms in simp_all)
  have get: "\<exists>p. HashTable_Get (ht_enter t) key = Some p \<and> map_option snd p = m key" for key
    by (rule HashTable_Get_abs [OF enter])
  have found: "\<exists>p. HashTable_Get (ht_enter t) key = Some p \<and> (p \<noteq> None) = (m key \<noteq> None)" for key
    using get [of key] by (metis option.map_disc_iff)
  show ?thesis
  proof (cases op)
    case (HAdd env key v)
    show ?thesis unfolding HAdd by (rule HashTable_Add_abs [OF assms])
  next
    case (HRemove env key)
    from remove_entry_abs [OF enter, of env key] show ?thesis
      by (fastforce simp: HRemove HashTable_Remove_def intro: ht_becomes_locked)
  next
    case (HGet key)
    from get [of key] same show ?thesis
      by (fastforce simp: HGet HashTable_GetItemValue_def Let_def split: option.splits)
  next
    case (HSet env key v)
    define v' where "v' = (if valueClone t \<and> v \<noteq> NULL then value_clone env v else v)"
    show ?thesis
    proof (cases "valueClone t \<and> v \<noteq> NULL \<and> v' = NULL")
      case True
      with ht_becomes_refl [OF assms(2,3)] show ?thesis
        by (auto simp: HSet HashTable_SetItemValue_def Let_def v'_def)
    next
      case False
      from set_entry_abs [OF enter, of key v', unfolded ht_lock_config] obtain t' where
        e: "set_entry (ht_enter t) key v' = Some (m key \<noteq> None, t')"
        "ht_becomes t (ht_leave t') (if m key = None then m else (\<lambda>k. if keyCompare t k key then Some v' else m k)) n"
        using ht_becomes_locked by blast
      have "HashTable_SetItemValue env t key v = Some (m key \<noteq> None, ht_leave t')"
        using False e(1) by (auto simp: HashTable_SetItemValue_def Let_def v'_def)
      moreover have "ht_spec (keyCompare t) (keyClone t) (valueClone t) op (m, n) = (RBool (m key \<noteq> None),
          if m key = None then m else (\<lambda>k. if keyCompare t k key then Some v' else m k), n)"
        using False by (auto simp: HSet Let_def v'_def)
      ultimately show ?thesis using e(2) by (auto simp: HSet)
    qed
  next
    case (HContains key)
    from found [of key] same show ?thesis by (auto simp: HContains HashTable_Contains_def Let_def)
  next
    case (HContainsKey key)
    from found [of key] same show ?thesis by (auto simp: HContainsKey HashTable_ContainsKey_def Let_def)
  next
    case HCount
    with ht_becomes_refl [OF assms(2,3)] assms(3) show ?thesis
      by (auto simp: HashTable_Count_def ht_abs_def)
  next
    case (HClear env)
    from HashTable_Clear_abs [OF assms(2), of env] show ?thesis by (auto simp: HClear)
  qed
qed

interpretation table: machine
    "\<lambda>t. hashing (ht_hash t0) (keyCompare t0) \<and> ht_inv t0 t" ht_abs ht_step
    "ht_spec (keyCompare t0) (keyClone t0) (valueClone t0)" for t0
proof
  fix t op
  assume inv: "hashing (ht_hash t0) (keyCompare t0) \<and> ht_inv t0 t"
  then have c: "ht_hash t = ht_hash t0" "keyCompare t = keyCompare t0" "keyClone t = keyClone t0" "valueClone t = valueClone t0"
    "ht_wf t"
    by (simp_all add: ht_inv_def ht_same_def)
  obtain m n where mn: "ht_abs t = (m, n)" by fastforce
  from ht_step_abs [of t m n op] inv c mn obtain r t' m' n' where
    s: "ht_step op t = Some (r, t')" "ht_becomes t t' m' n'"
    "ht_spec (keyCompare t0) (keyClone t0) (valueClone t0) op (m, n) = (r, m', n')" by auto
  with ht_inv_becomes [of t0 t t' m' n'] inv mn show "\<exists>r t'. ht_step op t = Some (r, t') \<and>
      (hashing (ht_hash t0) (keyCompare t0) \<and> ht_inv t0 t') \<and>
      ht_spec (keyCompare t0) (keyClone t0) (valueClone t0) op (ht_abs t) = (r, ht_abs t')" by auto
qed


subsection \<open>Properties\<close>

definition ht_configured :: "wHashTable \<Rightarrow> (ptr \<Rightarrow> u32) \<Rightarrow> (ptr \<Rightarrow> ptr \<Rightarrow> bool) \<Rightarrow> bool \<Rightarrow> bool \<Rightarrow> bool \<Rightarrow> bool \<Rightarrow> wHashTable" where
  \<comment> \<open>A table whose callbacks its owner has set.\<close>
  "ht_configured t hash cmp kc vc kf vf =
     t\<lparr>ht_hash := hash, keyCompare := cmp, keyClone := kc, valueClone := vc, keyFree := kf, valueFree := vf\<rparr>"

lemma HashTable_New_inv:
  assumes "HashTable_New table_ok array_ok sync = Some t"
  shows "ht_wf (ht_configured t hash cmp kc vc kf vf)"
    and "ht_abs (ht_configured t hash cmp kc vc kf vf) = (\<lambda>_. None, 0)"
  using assms by (auto simp: HashTable_New_def ht_configured_def ht_wf_def ht_abs_def ht_pairs_def in_slots_def
      single_def view_def split: if_splits)


definition plain_env :: ht_env where
  "plain_env = \<lparr>pair_ok = True, buckets_ok = (\<lambda>_. True), key_clone = id, value_clone = id, float_round = id\<rparr>"


end
