(* ===== verification/ListDictionary.thy ===== *)
theory ListDictionary
  imports HashTable
begin

text \<open>
  The dictionary of winpr/libwinpr/utils/collections/ListDictionary.c, a singly-linked list of pairs. A
  node is reached only through the list, so the list of the pairs stands for the chain of nodes. The
  record keeps, beside the fields of \<open>wListDictionary\<close>, how often the lock is held and the keys and
  values that were passed to the callbacks \<open>fnObjectFree\<close>.
\<close>

record wListDictionary =
  ld_synchronized :: bool
  ld_lock :: int
  ld_head :: "pair list"
  ld_keyEquals :: "ptr \<Rightarrow> ptr \<Rightarrow> bool"
  ld_keyFree :: bool
  ld_valueFree :: bool
  ld_keys_freed :: "ptr list"
  ld_values_freed :: "ptr list"

definition ld_enter :: "wListDictionary \<Rightarrow> wListDictionary" where
  "ld_enter d = (if ld_synchronized d then d\<lparr>ld_lock := ld_lock d + 1\<rparr> else d)"

definition ld_leave :: "wListDictionary \<Rightarrow> wListDictionary" where
  "ld_leave d = (if ld_synchronized d then d\<lparr>ld_lock := ld_lock d - 1\<rparr> else d)"

definition ListDictionary_Count :: "wListDictionary \<Rightarrow> int \<times> wListDictionary" where
  "ListDictionary_Count d = (let d = ld_enter d in (int (length (ld_head d)), ld_leave d))"

definition ListDictionary_IsFixedSized :: "wListDictionary \<Rightarrow> bool" where
  "ListDictionary_IsFixedSized d = False"

definition ListDictionary_IsReadOnly :: "wListDictionary \<Rightarrow> bool" where
  "ListDictionary_IsReadOnly d = False"

definition ListDictionary_IsSynchronized :: "wListDictionary \<Rightarrow> bool" where
  "ListDictionary_IsSynchronized d = ld_synchronized d"

definition ListDictionary_Lock :: "wListDictionary \<Rightarrow> wListDictionary" where
  "ListDictionary_Lock d = d\<lparr>ld_lock := ld_lock d + 1\<rparr>"

definition ListDictionary_Unlock :: "wListDictionary \<Rightarrow> wListDictionary" where
  "ListDictionary_Unlock d = d\<lparr>ld_lock := ld_lock d - 1\<rparr>"

definition ListDictionary_GetKeys :: "bool \<Rightarrow> wListDictionary \<Rightarrow> (int \<times> ptr list) \<times> wListDictionary" where
  \<comment> \<open>The first argument: whether \<open>calloc\<close> succeeds. The array is empty where there is none.\<close>
  "ListDictionary_GetKeys mem d =
     (let d = ld_enter d; count = length (ld_head d)
      in if count \<noteq> 0 \<and> \<not> mem then ((-1, []), ld_leave d)
         else ((int count, map fst (ld_head d)), ld_leave d))"

definition ListDictionary_Add :: "bool \<Rightarrow> wListDictionary \<Rightarrow> ptr \<Rightarrow> ptr \<Rightarrow> bool \<times> wListDictionary" where
  "ListDictionary_Add mem d key v =
     (let d = ld_enter d
      in if \<not> mem then (False, ld_leave d)
         else (True, ld_leave (d\<lparr>ld_head := ld_head d @ [(key, v)]\<rparr>)))"

fun ld_free_items :: "wListDictionary \<Rightarrow> pair list \<Rightarrow> wListDictionary" where
  "ld_free_items d [] = d"
| "ld_free_items d (p # ps) =
     (let d = (if ld_keyFree d then d\<lparr>ld_keys_freed := ld_keys_freed d @ [fst p]\<rparr> else d);
          d = (if ld_valueFree d then d\<lparr>ld_values_freed := ld_values_freed d @ [snd p]\<rparr> else d)
      in ld_free_items d ps)"

definition ListDictionary_Clear :: "wListDictionary \<Rightarrow> wListDictionary" where
  "ListDictionary_Clear d =
     (let d = ld_enter d; d = ld_free_items d (ld_head d) in ld_leave (d\<lparr>ld_head := []\<rparr>))"

definition ld_find :: "wListDictionary \<Rightarrow> ptr \<Rightarrow> pair list \<times> pair list" where
  \<comment> \<open>The list before and from the item where \<open>if (keyEquals(item->key, key)) break\<close> ends the loop.\<close>
  "ld_find d key =
     (let other = (\<lambda>p. \<not> ld_keyEquals d (fst p) key)
      in (takeWhile other (ld_head d), dropWhile other (ld_head d)))"

definition ListDictionary_Contains :: "wListDictionary \<Rightarrow> ptr \<Rightarrow> bool \<times> wListDictionary" where
  "ListDictionary_Contains d key =
     (let d = ld_enter d; item = snd (ld_find d key) in (item \<noteq> [], ld_leave d))"

definition ListDictionary_Remove :: "wListDictionary \<Rightarrow> ptr \<Rightarrow> ptr \<times> wListDictionary" where
  "ListDictionary_Remove d key =
     (let d = ld_enter d
      in case ld_find d key of
           (before, []) \<Rightarrow> (NULL, ld_leave d)
         | (before, item # rest) \<Rightarrow> (snd item, ld_leave (d\<lparr>ld_head := before @ rest\<rparr>)))"

definition ListDictionary_Remove_Head :: "wListDictionary \<Rightarrow> ptr \<times> wListDictionary" where
  "ListDictionary_Remove_Head d =
     (let d = ld_enter d
      in case ld_head d of
           [] \<Rightarrow> (NULL, ld_leave d)
         | item # rest \<Rightarrow> (snd item, ld_leave (d\<lparr>ld_head := rest\<rparr>)))"

definition ListDictionary_GetItemValue :: "wListDictionary \<Rightarrow> ptr \<Rightarrow> ptr \<times> wListDictionary" where
  "ListDictionary_GetItemValue d key =
     (let d = ld_enter d
      in (case snd (ld_find d key) of [] \<Rightarrow> NULL | item # _ \<Rightarrow> snd item, ld_leave d))"

definition ListDictionary_SetItemValue :: "wListDictionary \<Rightarrow> ptr \<Rightarrow> ptr \<Rightarrow> bool \<times> wListDictionary" where
  "ListDictionary_SetItemValue d key v =
     (let d = ld_enter d
      in case ld_find d key of
           (before, []) \<Rightarrow> (False, ld_leave d)
         | (before, item # rest) \<Rightarrow>
             (let d = (if ld_valueFree d then d\<lparr>ld_values_freed := ld_values_freed d @ [snd item]\<rparr> else d)
              in (True, ld_leave (d\<lparr>ld_head := before @ (fst item, v) # rest\<rparr>))))"

definition ListDictionary_New :: "bool \<Rightarrow> bool \<Rightarrow> bool \<Rightarrow> wListDictionary option" where
  \<comment> \<open>The first two arguments: whether the dictionary is allocated and the lock created.\<close>
  "ListDictionary_New calloc_ok lock_ok synchronized =
     (if \<not> calloc_ok \<or> \<not> lock_ok then None
      else Some \<lparr>ld_synchronized = synchronized, ld_lock = 0, ld_head = [], ld_keyEquals = (=),
             ld_keyFree = False, ld_valueFree = False, ld_keys_freed = [], ld_values_freed = []\<rparr>)"

definition ListDictionary_Free :: "wListDictionary \<Rightarrow> ptr list \<times> ptr list" where
  \<comment> \<open>The dictionary is gone; what remains is the keys and values that were released.\<close>
  "ListDictionary_Free d = (let d = ListDictionary_Clear d in (ld_keys_freed d, ld_values_freed d))"

subsection \<open>The dictionary as a map\<close>

definition ld_inv :: "wListDictionary \<Rightarrow> wListDictionary \<Rightarrow> bool" where
  \<comment> \<open>No key occurs twice; the configuration and the lock are those of \<open>d0\<close>.\<close>
  "ld_inv d0 d \<longleftrightarrow> equivp (ld_keyEquals d0) \<and> single (ld_keyEquals d) (ld_head d) \<and>
     ld_keyEquals d = ld_keyEquals d0 \<and> ld_synchronized d = ld_synchronized d0 \<and> ld_lock d = ld_lock d0"

definition ld_abs :: "wListDictionary \<Rightarrow> ptr \<Rightarrow> ptr option" where
  "ld_abs d = view (ld_keyEquals d) (ld_head d)"

lemma ld_hashing: "equivp cmp \<Longrightarrow> hashing (\<lambda>_. 0) cmp"
  by unfold_locales (auto dest: equivp_reflp equivp_symp intro: equivp_transp)

lemma ld_findE:
  assumes "equivp (ld_keyEquals d)"
  obtains "ld_find d key = (ld_head d, [])" "hits (ld_keyEquals d) (ld_head d) key = []"
  | before p after where "ld_find d key = (before, p # after)" "ld_head d = before @ p # after"
      "ld_keyEquals d key (fst p)" "hits (ld_keyEquals d) before key = []"
proof -
  let ?other = "\<lambda>p. \<not> ld_keyEquals d (fst p) key"
  have sym: "ld_keyEquals d a b = ld_keyEquals d b a" for a b using assms by (metis equivp_symp)
  have f: "ld_find d key = (takeWhile ?other (ld_head d), dropWhile ?other (ld_head d))"
    by (simp add: ld_find_def Let_def)
  show ?thesis
  proof (cases "dropWhile ?other (ld_head d)")
    case Nil
    then have "\<forall>p \<in> set (ld_head d). ?other p" by (simp add: dropWhile_eq_Nil_conv)
    moreover from this have "takeWhile ?other (ld_head d) = ld_head d" by (simp add: takeWhile_eq_all_conv)
    ultimately show ?thesis using that(1) f Nil by (simp add: hits_none sym)
  next
    case (Cons p after)
    have "ld_head d = takeWhile ?other (ld_head d) @ p # after" using takeWhile_dropWhile_id [of ?other "ld_head d"] Cons by simp
    moreover have "ld_keyEquals d key (fst p)" using Cons by (simp add: dropWhile_eq_Cons_conv sym)
    moreover have "hits (ld_keyEquals d) (takeWhile ?other (ld_head d)) key = []"
      by (auto simp: hits_none sym dest: set_takeWhileD)
    ultimately show ?thesis using that(2) f Cons by metis
  qed
qed


lemma ld_lock_fields [simp]:
  "ld_head (ld_enter d) = ld_head d" "ld_keyEquals (ld_enter d) = ld_keyEquals d" "ld_abs (ld_enter d) = ld_abs d"
  "ld_valueFree (ld_enter d) = ld_valueFree d"
  by (simp_all add: ld_enter_def ld_abs_def)

lemma ld_inv_leave:
  assumes "ld_inv d0 d" "single (ld_keyEquals d) (ld_head d')" "ld_keyEquals d' = ld_keyEquals d"
    "ld_synchronized d' = ld_synchronized d" "ld_lock d' = ld_lock (ld_enter d)"
  shows "ld_inv d0 (ld_leave d')" and "ld_abs (ld_leave d') = view (ld_keyEquals d) (ld_head d')"
  using assms by (auto simp: ld_inv_def ld_enter_def ld_leave_def ld_abs_def)

lemma ListDictionary_Add_abs:
  assumes "ld_inv d0 d" "ld_abs d key = None"
  shows "\<exists>d'. ListDictionary_Add True d key v = (True, d') \<and> ld_inv d0 d' \<and>
    ld_abs d' = (\<lambda>k. if ld_keyEquals d0 k key then Some v else ld_abs d k)"
proof -
  have h: "hashing (\<lambda>_. 0) (ld_keyEquals d)" using assms(1) by (intro ld_hashing) (auto simp: ld_inv_def)
  note insert_pair = hashing.insert_pair [OF h]
  have "hits (ld_keyEquals d) (ld_head d) key = []"
    using assms(2) by (auto simp: ld_abs_def view_def split: list.splits)
  moreover have "single (ld_keyEquals d) (ld_head d)" using assms(1) by (auto simp: ld_inv_def)
  ultimately have ins: "single (ld_keyEquals d) (ld_head d @ [(key, v)])"
    "view (ld_keyEquals d) (ld_head d @ [(key, v)]) = (\<lambda>k. if ld_keyEquals d k key then Some v else ld_abs d k)"
    using insert_pair [of "ld_head d" "[]" key v] by (simp_all add: ld_abs_def cong: if_cong)
  let ?d = "(ld_enter d)\<lparr>ld_head := ld_head d @ [(key, v)]\<rparr>"
  from ld_inv_leave [OF assms(1), of ?d] ins have "ld_inv d0 (ld_leave ?d)"
    "ld_abs (ld_leave ?d) = (\<lambda>k. if ld_keyEquals d k key then Some v else ld_abs d k)"
    by (simp_all add: ld_enter_def)
  moreover have "ld_keyEquals d = ld_keyEquals d0" using assms(1) by (simp add: ld_inv_def)
  ultimately show ?thesis by (simp add: ListDictionary_Add_def Let_def)
qed

lemma ListDictionary_Remove_abs:
  assumes "ld_inv d0 d"
  shows "\<exists>d'. ListDictionary_Remove d key = (case ld_abs d key of None \<Rightarrow> NULL | Some v \<Rightarrow> v, d') \<and>
    ld_inv d0 d' \<and> ld_abs d' = (\<lambda>k. if ld_keyEquals d0 k key then None else ld_abs d k)"
proof -
  have e: "equivp (ld_keyEquals d)" and c: "ld_keyEquals d = ld_keyEquals d0" and s: "single (ld_keyEquals d) (ld_head d)"
    using assms by (auto simp: ld_inv_def)
  note cmp_sym = hashing.cmp_sym [OF ld_hashing [OF e]] and
    cmp_trans = hashing.cmp_trans [OF ld_hashing [OF e]] and
    remove_pair = hashing.remove_pair [OF ld_hashing [OF e]]
  have enter: "equivp (ld_keyEquals (ld_enter d))" using e by simp
  show ?thesis
  proof (cases rule: ld_findE [OF enter, of key])
    case 1
    then have n: "ld_abs d key = None" by (simp add: ld_abs_def view_def)
    have "ld_abs d k = None" if "ld_keyEquals d k key" for k
    proof -
      have "hits (ld_keyEquals d) (ld_head d) k = []"
        using 1(2) that unfolding hits_none ld_lock_fields by (metis cmp_sym cmp_trans)
      then show ?thesis by (simp add: ld_abs_def view_def)
    qed
    then have "ld_abs d = (\<lambda>k. if ld_keyEquals d0 k key then None else ld_abs d k)" by (auto simp: c)
    moreover from ld_inv_leave [OF assms, of "ld_enter d"] s have "ld_inv d0 (ld_leave (ld_enter d))"
      "ld_abs (ld_leave (ld_enter d)) = ld_abs d" by (simp_all add: ld_abs_def ld_enter_def)
    ultimately show ?thesis using 1(1) n by (simp add: ListDictionary_Remove_def Let_def)
  next
    case (2 before p after)
    let ?d = "(ld_enter d)\<lparr>ld_head := before @ after\<rparr>"
    have h: "ld_head d = before @ p # after" "ld_keyEquals d key (fst p)" "hits (ld_keyEquals d) before key = []"
      using 2 by simp_all
    have rem: "single (ld_keyEquals d) (before @ after)"
      "view (ld_keyEquals d) (before @ after) = (\<lambda>k. if ld_keyEquals d k key then None else ld_abs d k)"
      using remove_pair [OF h(2), of before after] s by (simp_all add: h(1) ld_abs_def cong: if_cong)
    from ld_inv_leave [OF assms, of ?d] rem have "ld_inv d0 (ld_leave ?d)"
      "ld_abs (ld_leave ?d) = (\<lambda>k. if ld_keyEquals d k key then None else ld_abs d k)"
      by (simp_all add: ld_enter_def)
    moreover have "ld_abs d key = Some (snd p)" using h by (simp add: ld_abs_def view_def)
    ultimately show ?thesis using 2(1) by (simp add: ListDictionary_Remove_def Let_def c)
  qed
qed

lemma ListDictionary_GetItemValue_abs:
  assumes "ld_inv d0 d"
  shows "\<exists>d'. ListDictionary_GetItemValue d key = (case ld_abs d key of None \<Rightarrow> NULL | Some v \<Rightarrow> v, d') \<and>
    ld_inv d0 d' \<and> ld_abs d' = ld_abs d"
proof -
  have e: "equivp (ld_keyEquals (ld_enter d))" and s: "single (ld_keyEquals d) (ld_head d)"
    using assms by (auto simp: ld_inv_def)
  from ld_inv_leave [OF assms, of "ld_enter d"] s have "ld_inv d0 (ld_leave (ld_enter d))"
    "ld_abs (ld_leave (ld_enter d)) = ld_abs d" by (simp_all add: ld_abs_def ld_enter_def)
  then show ?thesis
    by (cases rule: ld_findE [OF e, of key])
      (auto simp: ListDictionary_GetItemValue_def Let_def ld_abs_def view_def)
qed

text \<open>Both dictionaries satisfy the contract.\<close>

interpretation list_dictionary: dictionary "ld_inv d0" ld_abs "ld_keyEquals d0"
    "\<lambda>d k v. Some (snd (ListDictionary_Add True d k v))" "\<lambda>d k. Some (snd (ListDictionary_Remove d k))"
    "\<lambda>d k. Some (ListDictionary_GetItemValue d k)" for d0
proof (unfold_locales, goal_cases)
  case (1 d key v)
  then show ?case using ListDictionary_Add_abs [of d0 d key v] by auto
next
  case (2 d key)
  then show ?case using ListDictionary_Remove_abs [of d0 d key] by auto
next
  case (3 d key)
  then show ?case using ListDictionary_GetItemValue_abs [of d0 d key] by auto
qed (simp add: ld_inv_def)

definition table_inv :: "wHashTable \<Rightarrow> wHashTable \<Rightarrow> bool" where
  \<comment> \<open>A table that does not clone what it is given.\<close>
  "table_inv t0 t \<longleftrightarrow> hashing (ht_hash t0) (keyCompare t0) \<and> \<not> keyClone t0 \<and> \<not> valueClone t0 \<and> ht_inv t0 t"

interpretation hash_table: dictionary "table_inv t0" "\<lambda>t. fst (ht_abs t)" "keyCompare t0"
    "\<lambda>t k v. map_option snd (HashTable_Add plain_env t k v)" "\<lambda>t k. map_option snd (HashTable_Remove plain_env t k)"
    HashTable_GetItemValue for t0
proof (unfold_locales, goal_cases)
  case (1 t key v)
  then show ?case using table.simulates [of t0 t "HAdd plain_env key v"]
    by (cases "ht_abs t") (auto simp: table_inv_def plain_env_def dest!: arg_cong [where f = fst] cong: if_cong)
next
  case (2 t key)
  then show ?case using table.simulates [of t0 t "HRemove plain_env key"]
    by (cases "ht_abs t") (auto simp: table_inv_def dest!: arg_cong [where f = fst] cong: if_cong)
next
  case (3 t key)
  then show ?case using table.simulates [of t0 t "HGet key"]
    by (cases "ht_abs t") (auto simp: table_inv_def dest!: arg_cong [where f = fst])
next
  case (4 t)
  then have h: "hashing (ht_hash t0) (keyCompare t0)" by (simp add: table_inv_def)
  note cmp_refl = hashing.cmp_refl [OF h] and
    cmp_sym = hashing.cmp_sym [OF h] and
    cmp_trans = hashing.cmp_trans [OF h]
  show ?case by (rule equivpI) (auto simp: reflp_def symp_def transp_def cmp_refl intro: cmp_sym cmp_trans)
qed


subsection \<open>Properties\<close>

definition ld_add_all :: "pair list \<Rightarrow> wListDictionary \<Rightarrow> wListDictionary" where
  "ld_add_all kvs d = fold (\<lambda>(k, v) d. snd (ListDictionary_Add True d k v)) kvs d"

definition ld_remove_all :: "ptr list \<Rightarrow> wListDictionary \<Rightarrow> wListDictionary" where
  "ld_remove_all ks d = fold (\<lambda>k d. snd (ListDictionary_Remove d k)) ks d"

lemma ld_add_all_eq: "list_dictionary.add_all d kvs = Some (ld_add_all kvs d)"
  by (induction kvs arbitrary: d) (auto simp: ld_add_all_def)

lemma ld_remove_all_eq: "list_dictionary.remove_all d ks = Some (ld_remove_all ks d)"
  by (induction ks arbitrary: d) (auto simp: ld_remove_all_def)

lemma ListDictionary_New_inv:
  assumes "ListDictionary_New calloc_ok lock_ok sync = Some d" "equivp eq"
  shows "ld_inv (d\<lparr>ld_keyEquals := eq\<rparr>) (d\<lparr>ld_keyEquals := eq\<rparr>)" and "ld_abs (d\<lparr>ld_keyEquals := eq\<rparr>) = (\<lambda>_. None)"
  using assms by (auto simp: ListDictionary_New_def ld_inv_def single_def ld_abs_def view_def split: if_splits)



text \<open>A key that is there already is added a second time: the new value stays hidden behind the old one,
  and comes to light when the key is removed.\<close>

lemma ListDictionary_Add_duplicate:
  assumes "ListDictionary_New calloc_ok lock_ok sync = Some d0"
  shows "let d = snd (ListDictionary_Add True (snd (ListDictionary_Add True d0 key v)) key v')
    in fst (ListDictionary_GetItemValue d key) = v \<and>
       fst (ListDictionary_GetItemValue (snd (ListDictionary_Remove d key)) key) = v'"
proof -
  have add: "ld_head (snd (ListDictionary_Add True d key v)) = ld_head d @ [(key, v)]"
    "ld_keyEquals (snd (ListDictionary_Add True d key v)) = ld_keyEquals d" for d v
    by (simp_all add: ListDictionary_Add_def ld_enter_def ld_leave_def Let_def)
  have get: "fst (ListDictionary_GetItemValue d key) = v" if "ld_head d = (key, v) # r" "ld_keyEquals d = (=)" for d v r
    using that by (simp add: ListDictionary_GetItemValue_def ld_find_def Let_def)
  have rem: "ld_head (snd (ListDictionary_Remove d key)) = r \<and> ld_keyEquals (snd (ListDictionary_Remove d key)) = (=)"
    if "ld_head d = (key, v) # r" "ld_keyEquals d = (=)" for d v r
    using that by (simp add: ListDictionary_Remove_def ld_find_def Let_def) (simp add: ld_enter_def ld_leave_def)
  have "ld_head d0 = []" "ld_keyEquals d0 = (=)" using assms by (auto simp: ListDictionary_New_def split: if_splits)
  with rem [of "snd (ListDictionary_Add True (snd (ListDictionary_Add True d0 key v)) key v')" v "[(key, v')]"]
  show ?thesis by (auto simp: add Let_def intro!: get)
qed

end
