(* ===== verification/BipBuffer.thy ===== *)
theory BipBuffer
  imports Prelude
begin

text \<open>
  The bip buffer of winpr/libwinpr/utils/collections/BipBuffer.c: a byte FIFO in one buffer whose data
  lie in at most two blocks, \<open>blockA\<close> with the older bytes and \<open>blockB\<close> at the start of the buffer. A
  pointer into the buffer is an index; sizes are far below 2^64, so no sum of them wraps. None is an
  access outside the buffer. \<open>mem n\<close> is what \<open>malloc(n)\<close> returns.
\<close>

record wBipBlock =
  bl_index :: nat
  bl_size :: nat

record wBipBuffer =
  bip_size :: nat
  bip_buffer :: bytes
  pageSize :: nat
  blockA :: wBipBlock
  blockB :: wBipBlock
  readR :: wBipBlock
  writeR :: wBipBlock

type_synonym memory = "nat \<Rightarrow> bytes option"

definition BipBlock_Clear :: wBipBlock where
  "BipBlock_Clear = \<lparr>bl_index = 0, bl_size = 0\<rparr>"

definition BipBuffer_Clear :: "wBipBuffer \<Rightarrow> wBipBuffer" where
  "BipBuffer_Clear bb =
     bb\<lparr>blockA := BipBlock_Clear, blockB := BipBlock_Clear, readR := BipBlock_Clear, writeR := BipBlock_Clear\<rparr>"

definition BipBuffer_AllocBuffer :: "memory \<Rightarrow> wBipBuffer \<Rightarrow> nat \<Rightarrow> bool \<times> wBipBuffer" where
  "BipBuffer_AllocBuffer mem bb sz =
     (if sz < 1 then (False, bb)
      else
        (let sz = sz + sz mod pageSize bb
         in case mem sz of
              None \<Rightarrow> (False, bb)
            | Some buffer \<Rightarrow> (True, bb\<lparr>bip_buffer := buffer, bip_size := sz\<rparr>)))"

definition BipBuffer_FreeBuffer :: "wBipBuffer \<Rightarrow> wBipBuffer" where
  \<comment> \<open>The size is kept, so a buffer that is used afterwards has no memory behind it.\<close>
  "BipBuffer_FreeBuffer bb = BipBuffer_Clear (bb\<lparr>bip_buffer := []\<rparr>)"

definition BipBuffer_UsedSize :: "wBipBuffer \<Rightarrow> nat" where
  "BipBuffer_UsedSize bb = bl_size (blockA bb) + bl_size (blockB bb)"

definition BipBuffer_BufferSize :: "wBipBuffer \<Rightarrow> nat" where
  "BipBuffer_BufferSize bb = bip_size bb"

definition BipBuffer_ReadTryReserve :: "wBipBuffer \<Rightarrow> nat \<Rightarrow> nat option \<times> nat" where
  \<comment> \<open>The second component is \<open>*reserved\<close>.\<close>
  "BipBuffer_ReadTryReserve bb sz =
     (if bl_size (blockA bb) = 0 then (None, 0)
      else
        (let reservable = bl_size (blockA bb);
             reservable = (if sz \<noteq> 0 \<and> reservable > sz then sz else reservable)
         in (Some (bl_index (blockA bb)), reservable)))"

definition BipBuffer_ReadCommit :: "wBipBuffer \<Rightarrow> nat \<Rightarrow> wBipBuffer" where
  "BipBuffer_ReadCommit bb sz =
     (if sz \<ge> bl_size (blockA bb) then bb\<lparr>blockA := blockB bb, blockB := BipBlock_Clear\<rparr>
      else bb\<lparr>blockA := \<lparr>bl_index = bl_index (blockA bb) + sz, bl_size = bl_size (blockA bb) - sz\<rparr>\<rparr>)"

definition bip_slice :: "bytes \<Rightarrow> nat \<Rightarrow> nat \<Rightarrow> bytes option" where
  \<comment> \<open>The source of a \<open>CopyMemory\<close>.\<close>
  "bip_slice buffer i n = (if length buffer < i + n then None else Some (take n (drop i buffer)))"

definition bip_store :: "bytes \<Rightarrow> nat \<Rightarrow> bytes \<Rightarrow> bytes option" where
  \<comment> \<open>The target of a \<open>CopyMemory\<close>.\<close>
  "bip_store buffer i data =
     (if length buffer < i + length data then None
      else Some (take i buffer @ data @ drop (i + length data) buffer))"

definition grow_part :: "wBipBuffer \<Rightarrow> bytes \<Rightarrow> nat \<Rightarrow> (wBipBuffer \<times> bytes \<times> nat) option" where
  \<comment> \<open>The block of \<open>BipBuffer_Grow\<close> that is written twice: with the new buffer and \<open>commitSize\<close>.\<close>
  "grow_part bb buffer commitSize =
     (case BipBuffer_ReadTryReserve bb 0 of
        (None, _) \<Rightarrow> Some (bb, buffer, commitSize)
      | (Some i, blockSize) \<Rightarrow>
          Option.bind (bip_slice (bip_buffer bb) i blockSize) (\<lambda>d.
          Option.bind (bip_store buffer commitSize d) (\<lambda>buffer.
          Some (BipBuffer_ReadCommit bb blockSize, buffer, commitSize + blockSize))))"

definition BipBuffer_Grow :: "memory \<Rightarrow> wBipBuffer \<Rightarrow> nat \<Rightarrow> (bool \<times> wBipBuffer) option" where
  "BipBuffer_Grow mem bb sz =
     (let sz = sz + sz mod pageSize bb
      in if sz \<le> bip_size bb then Some (True, bb)
         else
           (case mem sz of
              None \<Rightarrow> Some (False, bb)
            | Some buffer \<Rightarrow>
                Option.bind (grow_part bb buffer 0) (\<lambda>(bb, buffer, commitSize).
                Option.bind (grow_part bb buffer commitSize) (\<lambda>(bb, buffer, commitSize).
                Some (True, (BipBuffer_Clear bb)\<lparr>bip_buffer := buffer, bip_size := sz,
                               blockA := \<lparr>bl_index = 0, bl_size = commitSize\<rparr>\<rparr>)))))"

definition BipBuffer_WriteTryReserve :: "wBipBuffer \<Rightarrow> nat \<Rightarrow> nat \<Rightarrow> (nat option \<times> nat \<times> wBipBuffer)" where
  \<comment> \<open>The third argument is \<open>*reserved\<close> before the call, the second component afterwards.\<close>
  "BipBuffer_WriteTryReserve bb sz reserved =
     (let A = blockA bb; B = blockB bb
      in if bl_size B = 0 then
           (let reservable = bip_size bb - bl_index A - bl_size A
            in if reservable \<ge> bl_index A then
                 if reservable = 0 then (None, reserved, bb)
                 else
                   (let reservable = (if sz < reservable then sz else reservable);
                        i = bl_index A + bl_size A
                    in (Some i, reservable, bb\<lparr>writeR := \<lparr>bl_index = i, bl_size = reservable\<rparr>\<rparr>))
               else if bl_index A = 0 then (None, reserved, bb)
               else
                 (let sz = (if bl_index A < sz then bl_index A else sz)
                  in (Some 0, sz, bb\<lparr>writeR := \<lparr>bl_index = 0, bl_size = sz\<rparr>\<rparr>)))
         else
           (let reservable = bl_index A - bl_index B - bl_size B;
                reservable = (if sz < reservable then sz else reservable)
            in if reservable = 0 then (None, reserved, bb)
               else
                 (let i = bl_index B + bl_size B
                  in (Some i, reservable, bb\<lparr>writeR := \<lparr>bl_index = i, bl_size = reservable\<rparr>\<rparr>))))"

definition BipBuffer_WriteReserve :: "memory \<Rightarrow> wBipBuffer \<Rightarrow> nat \<Rightarrow> (nat option \<times> wBipBuffer) option" where
  "BipBuffer_WriteReserve mem bb sz =
     (case BipBuffer_WriteTryReserve bb sz 0 of
        (block, reserved, bb) \<Rightarrow>
          if reserved = sz then Some (block, bb)
          else
            Option.bind (BipBuffer_Grow mem bb sz) (\<lambda>(ok, bb).
              if \<not> ok then Some (None, bb)
              else (case BipBuffer_WriteTryReserve bb sz reserved of (block, _, bb) \<Rightarrow> Some (block, bb))))"

definition BipBuffer_WriteCommit :: "wBipBuffer \<Rightarrow> nat \<Rightarrow> wBipBuffer" where
  "BipBuffer_WriteCommit bb sz =
     (if sz = 0 then bb\<lparr>writeR := BipBlock_Clear\<rparr>
      else
        (let sz = (if sz > bl_size (writeR bb) then bl_size (writeR bb) else sz);
             A = blockA bb; B = blockB bb
         in if bl_size A = 0 \<and> bl_size B = 0 then
              bb\<lparr>blockA := \<lparr>bl_index = bl_index (writeR bb), bl_size = sz\<rparr>, writeR := BipBlock_Clear\<rparr>
            else if bl_index (writeR bb) = bl_size A + bl_index A then
              bb\<lparr>blockA := A\<lparr>bl_size := bl_size A + sz\<rparr>, writeR := BipBlock_Clear\<rparr>
            else bb\<lparr>blockB := B\<lparr>bl_size := bl_size B + sz\<rparr>, writeR := BipBlock_Clear\<rparr>))"

definition write_part :: "bytes \<Rightarrow> nat \<times> wBipBuffer \<Rightarrow> (nat \<times> wBipBuffer + nat \<times> wBipBuffer) option" where
  \<comment> \<open>The block of \<open>BipBuffer_Write\<close> that is written twice, with \<open>status\<close>; \<open>Inl\<close> is its \<open>return\<close>.\<close>
  "write_part data st =
     (let (status, bb) = st
      in case BipBuffer_WriteTryReserve bb (length data - status) 0 of
           (None, _, bb) \<Rightarrow> Some (Inr (status, bb))
         | (Some i, blockSize, bb) \<Rightarrow>
             (let writeSize = length data - status;
                  writeSize = (if writeSize > blockSize then blockSize else writeSize)
              in Option.bind (bip_store (bip_buffer bb) i (take writeSize (drop status data))) (\<lambda>buffer.
                 let bb = BipBuffer_WriteCommit (bb\<lparr>bip_buffer := buffer\<rparr>) writeSize; status = status + writeSize
                 in Some (if status = length data \<or> writeSize < blockSize then Inl (status, bb) else Inr (status, bb)))))"

definition BipBuffer_Write :: "memory \<Rightarrow> wBipBuffer \<Rightarrow> bytes \<Rightarrow> (int \<times> wBipBuffer) option" where
  "BipBuffer_Write mem bb data =
     Option.bind (BipBuffer_WriteReserve mem bb (length data)) (\<lambda>(block, bb).
       if block = None then Some (-1, bb)
       else
         Option.bind (write_part data (0, bb)) (\<lambda>r. case r of
           Inl (status, bb) \<Rightarrow> Some (int status, bb)
         | Inr st \<Rightarrow>
             map_option (\<lambda>r. case r of Inl (status, bb) \<Rightarrow> (int status, bb) | Inr (status, bb) \<Rightarrow> (int status, bb))
               (write_part data st)))"

definition BipBuffer_ReadReserve :: "memory \<Rightarrow> wBipBuffer \<Rightarrow> nat \<Rightarrow> (nat option \<times> wBipBuffer) option" where
  "BipBuffer_ReadReserve mem bb sz =
     (if BipBuffer_UsedSize bb < sz then Some (None, bb)
      else
        (case BipBuffer_ReadTryReserve bb sz of
           (block, reserved) \<Rightarrow>
             if reserved = sz then Some (block, bb)
             else
               Option.bind (BipBuffer_Grow mem bb (bip_size bb + 1)) (\<lambda>(ok, bb).
                 if \<not> ok then Some (None, bb)
                 else
                   (case BipBuffer_ReadTryReserve bb sz of
                      (block, reserved) \<Rightarrow> Some (if reserved \<noteq> sz then None else block, bb)))))"

definition read_part :: "nat \<Rightarrow> bytes \<times> wBipBuffer \<Rightarrow> (bytes \<times> wBipBuffer + bytes \<times> wBipBuffer) option" where
  \<comment> \<open>The block of \<open>BipBuffer_Read\<close> that is written twice, with the bytes copied so far, whose number is
    \<open>status\<close>.\<close>
  "read_part sz st =
     (let (data, bb) = st
      in case BipBuffer_ReadTryReserve bb 0 of
           (None, _) \<Rightarrow> Some (Inr (data, bb))
         | (Some i, blockSize) \<Rightarrow>
             (let readSize = sz - length data;
                  readSize = (if readSize > blockSize then blockSize else readSize)
              in Option.bind (bip_slice (bip_buffer bb) i readSize) (\<lambda>d.
                 let bb = BipBuffer_ReadCommit bb readSize; data = data @ d
                 in Some (if length data = sz \<or> readSize < blockSize then Inl (data, bb) else Inr (data, bb)))))"

definition BipBuffer_Read :: "wBipBuffer \<Rightarrow> nat \<Rightarrow> (bytes \<times> wBipBuffer) option" where
  \<comment> \<open>The bytes that were read; the routine returns their number.\<close>
  "BipBuffer_Read bb sz =
     Option.bind (read_part sz ([], bb)) (\<lambda>r. case r of
       Inl st \<Rightarrow> Some st
     | Inr st \<Rightarrow> map_option (\<lambda>r. case r of Inl st \<Rightarrow> st | Inr st \<Rightarrow> st) (read_part sz st))"

definition BipBuffer_New :: "memory \<Rightarrow> bool \<Rightarrow> nat \<Rightarrow> nat \<Rightarrow> wBipBuffer option" where
  \<comment> \<open>Whether \<open>calloc\<close> succeeds, and the page sz of the system.\<close>
  "BipBuffer_New mem calloc_ok dwPageSize sz =
     (if \<not> calloc_ok then None
      else
        (let page = (if dwPageSize < 4096 then 4096 else dwPageSize);
             bb = \<lparr>bip_size = 0, bip_buffer = [], pageSize = page, blockA = BipBlock_Clear,
                   blockB = BipBlock_Clear, readR = BipBlock_Clear, writeR = BipBlock_Clear\<rparr>
         in case BipBuffer_AllocBuffer mem bb sz of
              (False, _) \<Rightarrow> None
            | (True, bb) \<Rightarrow> Some bb))"


subsection \<open>The buffer as a byte stream\<close>

definition bip_bytes :: "wBipBlock \<Rightarrow> bytes \<Rightarrow> bytes" where
  "bip_bytes bl buffer = take (bl_size bl) (drop (bl_index bl) buffer)"

definition bip_content :: "wBipBuffer \<Rightarrow> bytes" where
  "bip_content bb = bip_bytes (blockA bb) (bip_buffer bb) @ bip_bytes (blockB bb) (bip_buffer bb)"

definition bip_wf :: "wBipBuffer \<Rightarrow> bool" where
  "bip_wf bb \<longleftrightarrow> length (bip_buffer bb) = bip_size bb \<and>
     bl_index (blockA bb) + bl_size (blockA bb) \<le> bip_size bb \<and>
     bl_index (blockB bb) = 0 \<and> bl_size (blockB bb) \<le> bl_index (blockA bb) \<and>
     (bl_size (blockA bb) = 0 \<longrightarrow> bl_index (blockA bb) = 0)"

definition memory_ok :: "memory \<Rightarrow> bool" where
  "memory_ok mem \<longleftrightarrow> (\<forall>n b. mem n = Some b \<longrightarrow> length b = n)"

lemma bip_clear_fields [simp]: "bl_index BipBlock_Clear = 0" "bl_size BipBlock_Clear = 0"
  by (simp_all add: BipBlock_Clear_def)

lemma length_bip_content: "bip_wf bb \<Longrightarrow> length (bip_content bb) = BipBuffer_UsedSize bb"
  by (auto simp: bip_wf_def bip_content_def bip_bytes_def BipBuffer_UsedSize_def)

lemma bip_read_reserve:
  assumes "bip_wf bb"
  shows "BipBuffer_ReadTryReserve bb 0 =
    (if bip_content bb = [] then (None, 0) else (Some (bl_index (blockA bb)), bl_size (blockA bb)))"
  using assms length_bip_content [OF assms]
  by (auto simp: BipBuffer_ReadTryReserve_def bip_wf_def BipBuffer_UsedSize_def)

lemma bip_read_commit:
  assumes "bip_wf bb" "n \<le> bl_size (blockA bb)"
  shows "bip_slice (bip_buffer bb) (bl_index (blockA bb)) n = Some (take n (bip_content bb))"
    and "bip_wf (BipBuffer_ReadCommit bb n)"
    and "bip_content (BipBuffer_ReadCommit bb n) = drop n (bip_content bb)"
    and "bip_size (BipBuffer_ReadCommit bb n) = bip_size bb"
    and "pageSize (BipBuffer_ReadCommit bb n) = pageSize bb"
    and "n < bl_size (blockA bb) \<or> blockB (BipBuffer_ReadCommit bb n) = BipBlock_Clear"
  using assms
  by (auto simp: bip_slice_def bip_wf_def BipBuffer_ReadCommit_def bip_content_def bip_bytes_def drop_take add.commute)



lemma grow_part_spec:
  assumes "bip_wf bb" "length (bip_content bb) + n \<le> length buffer"
  shows "\<exists>bb' buffer'. grow_part bb buffer n = Some (bb', buffer', n + bl_size (blockA bb)) \<and> bip_wf bb' \<and>
    bip_content bb' = drop (bl_size (blockA bb)) (bip_content bb) \<and> blockA bb' = blockB bb \<and>
    blockB bb' = BipBlock_Clear \<and> length buffer' = length buffer \<and> pageSize bb' = pageSize bb \<and> bip_size bb' = bip_size bb \<and>
    take (n + bl_size (blockA bb)) buffer' = take n buffer @ take (bl_size (blockA bb)) (bip_content bb)"
proof (cases "bip_content bb = []")
  case True
  then have "bl_size (blockA bb) = 0" "bl_size (blockB bb) = 0"
    using length_bip_content [OF assms(1)] by (auto simp: BipBuffer_UsedSize_def)
  moreover from this have "blockA bb = blockB bb" "blockB bb = BipBlock_Clear"
    using assms(1) by (auto simp: bip_wf_def BipBlock_Clear_def)
  ultimately show ?thesis
    using True assms by (auto simp: grow_part_def bip_read_reserve)
next
  case False
  let ?k = "bl_size (blockA bb)"
  have k: "?k \<le> length (bip_content bb)"
    using length_bip_content [OF assms(1)] by (simp add: BipBuffer_UsedSize_def)
  note c = bip_read_commit [OF assms(1), of ?k]
  define buffer' where "buffer' = take n buffer @ take ?k (bip_content bb) @ drop (n + ?k) buffer"
  have "bip_store buffer n (take ?k (bip_content bb)) = Some buffer'"
    using assms(2) k by (simp add: bip_store_def buffer'_def)
  then have "grow_part bb buffer n = Some (BipBuffer_ReadCommit bb ?k, buffer', n + ?k)"
    using False c(1) by (simp add: grow_part_def bip_read_reserve [OF assms(1)])
  moreover have "blockA (BipBuffer_ReadCommit bb ?k) = blockB bb" by (simp add: BipBuffer_ReadCommit_def)
  ultimately show ?thesis
    using c k assms(2) by (auto simp: buffer'_def)
qed

lemma BipBuffer_Grow_spec:
  assumes "bip_wf bb" "memory_ok mem"
  shows "\<exists>ok bb'. BipBuffer_Grow mem bb n = Some (ok, bb') \<and> bip_wf bb' \<and> bip_content bb' = bip_content bb \<and>
    pageSize bb' = pageSize bb \<and> bip_size bb \<le> bip_size bb' \<and> (ok \<longrightarrow> n \<le> bip_size bb')"
proof -
  define m where "m = n + n mod pageSize bb"
  show ?thesis
  proof (cases "m \<le> bip_size bb \<or> mem m = None")
    case True
    with assms(1) show ?thesis by (auto simp: BipBuffer_Grow_def m_def Let_def)
  next
    case False
    then obtain buffer where b: "mem m = Some buffer" "bip_size bb < m" by auto
    then have len: "length buffer = m" using assms(2) by (simp add: memory_ok_def)
    have total: "length (bip_content bb) = bl_size (blockA bb) + bl_size (blockB bb)"
      using length_bip_content [OF assms(1)] by (simp add: BipBuffer_UsedSize_def)
    moreover have "bl_size (blockA bb) + bl_size (blockB bb) \<le> bip_size bb"
      using assms(1) by (auto simp: bip_wf_def)
    ultimately have "length (bip_content bb) + 0 \<le> length buffer" using b len by simp
    from grow_part_spec [OF assms(1) this] obtain bb1 buffer1 where
      g1: "grow_part bb buffer 0 = Some (bb1, buffer1, bl_size (blockA bb))" "bip_wf bb1"
      "bip_content bb1 = drop (bl_size (blockA bb)) (bip_content bb)" "blockA bb1 = blockB bb" "pageSize bb1 = pageSize bb"
      "length buffer1 = m" "take (bl_size (blockA bb)) buffer1 = take (bl_size (blockA bb)) (bip_content bb)"
      using len by auto
    have "length (bip_content bb1) + bl_size (blockA bb) \<le> length buffer1"
      using g1 total b len \<open>length (bip_content bb) + 0 \<le> length buffer\<close> by simp
    from grow_part_spec [OF g1(2) this] g1 total obtain bb2 buffer2 where
      g2: "grow_part bb1 buffer1 (bl_size (blockA bb)) = Some (bb2, buffer2, length (bip_content bb))"
      "pageSize bb2 = pageSize bb" "length buffer2 = m" "take (length (bip_content bb)) buffer2 = bip_content bb"
      by (auto simp: add.commute)
    let ?bb = "(BipBuffer_Clear bb2)\<lparr>bip_buffer := buffer2, bip_size := m,
        blockA := \<lparr>bl_index = 0, bl_size = length (bip_content bb)\<rparr>\<rparr>"
    have content: "bip_content ?bb = take (length (bip_content bb)) buffer2"
      by (simp add: bip_content_def [of "_\<lparr>blockA := _\<rparr>"] bip_bytes_def BipBuffer_Clear_def)
    have "BipBuffer_Grow mem bb n = Some (True, ?bb)"
      using b g1(1) g2(1) by (simp add: BipBuffer_Grow_def m_def)
    moreover have "bip_wf ?bb" "bip_content ?bb = bip_content bb" "pageSize ?bb = pageSize bb"
      using g2 total b \<open>length (bip_content bb) + 0 \<le> length buffer\<close> len
      unfolding content by (auto simp: bip_wf_def BipBuffer_Clear_def)
    ultimately show ?thesis using b(2) by (auto simp: m_def)
  qed
qed

lemma bip_write_reserve:
  assumes "bip_wf bb" "BipBuffer_WriteTryReserve bb n r0 = (block, r, bb')"
  obtains "block = None" "bb' = bb" "r = r0"
  | i where "block = Some i" "r \<le> n" "bb' = bb\<lparr>writeR := \<lparr>bl_index = i, bl_size = r\<rparr>\<rparr>"
      "(bl_size (blockB bb) = 0 \<and> i = bl_index (blockA bb) + bl_size (blockA bb) \<and> i + r \<le> bip_size bb) \<or>
       (0 < bl_size (blockA bb) \<and> i = bl_size (blockB bb) \<and> i + r \<le> bl_index (blockA bb))"
proof -
  have a: "bl_size (blockA bb) = 0 \<longrightarrow> bl_index (blockA bb) = 0 \<and> bl_size (blockB bb) = 0"
    using assms(1) by (auto simp: bip_wf_def)
  show ?thesis
  proof (cases block)
    case None
    with assms(2) show ?thesis
      by (intro that(1)) (auto simp: BipBuffer_WriteTryReserve_def Let_def split: if_splits)
  next
    case (Some i)
    with assms a show ?thesis
      by (intro that(2) [of i]) (auto simp: BipBuffer_WriteTryReserve_def bip_wf_def Let_def split: if_splits)
  qed
qed

lemma bip_store_spec:
  assumes "i + length d \<le> length b"
  obtains b' where "bip_store b i d = Some b'" "length b' = length b" "take i b' = take i b"
    "take (length d) (drop i b') = d" "\<forall>j \<ge> i + length d. drop j b' = drop j b"
proof -
  let ?b = "take i b @ d @ drop (i + length d) b"
  have "drop j ?b = drop j b" if "i + length d \<le> j" for j
  proof -
    have "j - (i + length d) + (i + length d) = j" using that by simp
    with assms that show ?thesis by (simp add: drop_append drop_drop)
  qed
  with assms show ?thesis by (intro that [of ?b]) (simp_all add: bip_store_def)
qed

lemma take_drop_add: "take (m + n) (drop i b) = take m (drop i b) @ take n (drop (i + m) b)"
  by (simp add: take_add add.commute)

lemma bip_write_commit:
  assumes "bip_wf bb" "length d = r"
    and "(bl_size (blockB bb) = 0 \<and> i = bl_index (blockA bb) + bl_size (blockA bb) \<and> i + r \<le> bip_size bb) \<or>
       (0 < bl_size (blockA bb) \<and> i = bl_size (blockB bb) \<and> i + r \<le> bl_index (blockA bb))"
    and "r \<le> w"
  shows "\<exists>buffer. bip_store (bip_buffer bb) i d = Some buffer \<and>
    (let bb' = BipBuffer_WriteCommit (bb\<lparr>writeR := \<lparr>bl_index = i, bl_size = w\<rparr>, bip_buffer := buffer\<rparr>) r
     in bip_wf bb' \<and> bip_content bb' = bip_content bb @ d \<and> bip_size bb' = bip_size bb \<and> pageSize bb' = pageSize bb)"
proof -
  let ?A = "blockA bb" and ?B = "blockB bb"
  have len: "i + length d \<le> length (bip_buffer bb)" using assms by (auto simp: bip_wf_def)
  obtain b where b: "bip_store (bip_buffer bb) i d = Some b" "length b = length (bip_buffer bb)"
    "take i b = take i (bip_buffer bb)" "take (length d) (drop i b) = d"
    "\<forall>j \<ge> i + length d. drop j b = drop j (bip_buffer bb)"
    by (rule bip_store_spec [OF len])
  have kept: "take n (drop j b) = take n (drop j (bip_buffer bb))" if "j + n \<le> i" for j n
  proof -
    have "take (n + j) b = take (n + j) (take i b)" using that by (simp add: min_def)
    also have "\<dots> = take (n + j) (bip_buffer bb)" unfolding b(3) using that by (simp add: min_def)
    finally show ?thesis by (simp add: take_drop)
  qed
  let ?bb = "BipBuffer_WriteCommit (bb\<lparr>writeR := \<lparr>bl_index = i, bl_size = w\<rparr>, bip_buffer := b\<rparr>) r"
  have "bip_wf ?bb \<and> bip_content ?bb = bip_content bb @ d \<and> bip_size ?bb = bip_size bb \<and> pageSize ?bb = pageSize bb"
  proof (cases "r = 0")
    case True
    with assms(2) b(4,5) have "b = bip_buffer bb" using b(1) len by (auto simp: bip_store_def split: if_splits)
    with True assms(1,2) show ?thesis
      by (simp add: BipBuffer_WriteCommit_def Let_def bip_wf_def bip_content_def)
  next
    case r: False
    from assms(3) show ?thesis
    proof (elim disjE conjE)
      assume B: "bl_size ?B = 0" and i: "i = bl_index ?A + bl_size ?A" "i + r \<le> bip_size bb"
      show ?thesis
      proof (cases "bl_size ?A = 0")
        case True
        then have "i = 0" using i assms(1) by (simp add: bip_wf_def)
        with True B r assms i b show ?thesis
          by (auto simp: BipBuffer_WriteCommit_def Let_def bip_wf_def bip_content_def bip_bytes_def)
      next
        case False
        have "take (bl_size ?A + r) (drop (bl_index ?A) b) = take (bl_size ?A) (drop (bl_index ?A) (bip_buffer bb)) @ d"
          using b(4) assms(2) i kept [of "bl_index ?A" "bl_size ?A"] by (simp add: take_drop_add)
        with False B r assms i b(2) show ?thesis
          by (simp add: BipBuffer_WriteCommit_def Let_def bip_wf_def bip_content_def bip_bytes_def)
      qed
    next
      assume A: "0 < bl_size ?A" and i: "i = bl_size ?B" "i + r \<le> bl_index ?A"
      have "take (bl_size ?B + r) b = take (bl_size ?B) (bip_buffer bb) @ d"
        using b(3,4) assms(2) i by (simp add: take_add)
      moreover have "drop (bl_index ?A) b = drop (bl_index ?A) (bip_buffer bb)"
        using b(5) assms(2) i by simp
      ultimately show ?thesis using A r assms(1,2,4) i b(2)
        by (auto simp: BipBuffer_WriteCommit_def Let_def bip_wf_def bip_content_def bip_bytes_def)
    qed
  qed
  with b(1) show ?thesis by (auto simp: Let_def)
qed

definition bip_took :: "wBipBuffer \<Rightarrow> wBipBuffer \<Rightarrow> bytes \<Rightarrow> bool" where
  \<comment> \<open>The buffer \<open>bb'\<close> is \<open>bb\<close> after the bytes \<open>d\<close> have been put in.\<close>
  "bip_took bb bb' d \<longleftrightarrow> bip_wf bb' \<and> bip_content bb' = bip_content bb @ d \<and> pageSize bb' = pageSize bb"

lemma write_part_spec:
  assumes "bip_wf bb" "k \<le> length data"
  shows "\<exists>n bb'. (write_part data (k, bb) = Some (Inl (n, bb')) \<or> write_part data (k, bb) = Some (Inr (n, bb'))) \<and>
    k \<le> n \<and> n \<le> length data \<and> bip_took bb bb' (take (n - k) (drop k data))"
proof -
  obtain block r bb1 where res: "BipBuffer_WriteTryReserve bb (length data - k) 0 = (block, r, bb1)"
    by (metis prod_cases3)
  show ?thesis
  proof (cases rule: bip_write_reserve [OF assms(1) res])
    case 1
    with res assms show ?thesis by (auto simp: write_part_def bip_took_def)
  next
    case (2 i)
    let ?d = "take r (drop k data)"
    have "length ?d = r" using 2(2) by simp
    from bip_write_commit [OF assms(1) this 2(4) order.refl] obtain b where
      b: "bip_store (bip_buffer bb) i ?d = Some b"
      "bip_took bb (BipBuffer_WriteCommit (bb1\<lparr>bip_buffer := b\<rparr>) r) ?d"
      by (auto simp: Let_def bip_took_def 2(3))
    then show ?thesis
      using res 2(1-3) assms(2) by (auto simp: write_part_def Let_def min_def not_less)
  qed
qed


lemma BipBuffer_WriteReserve_spec:
  assumes "bip_wf bb" "memory_ok mem"
  shows "\<exists>block bb'. BipBuffer_WriteReserve mem bb n = Some (block, bb') \<and> bip_took bb bb' []"
proof -
  have same: "bip_took x x' []" if "bip_wf x" "BipBuffer_WriteTryReserve x n r0 = (block, r, x')" for x x' r0 block r
    by (cases rule: bip_write_reserve [OF that])
      (use that(1) in \<open>auto simp: bip_took_def bip_wf_def bip_content_def\<close>)
  obtain block r bb1 where r: "BipBuffer_WriteTryReserve bb n 0 = (block, r, bb1)" by (metis prod_cases3)
  from same [OF assms(1) r] have bb1: "bip_took bb bb1 []" .
  then have "bip_wf bb1" by (simp add: bip_took_def)
  from BipBuffer_Grow_spec [OF this assms(2), of n] obtain ok bb2 where
    g: "BipBuffer_Grow mem bb1 n = Some (ok, bb2)" "bip_took bb1 bb2 []"
    by (auto simp: bip_took_def)
  obtain block' r' bb3 where r': "BipBuffer_WriteTryReserve bb2 n r = (block', r', bb3)" by (metis prod_cases3)
  from same [OF _ r'] g(2) have "bip_took bb2 bb3 []" by (auto simp: bip_took_def)
  with bb1 g r r' show ?thesis
    by (cases "r = n"; cases ok) (auto simp: BipBuffer_WriteReserve_def bip_took_def)
qed

lemma BipBuffer_Write_spec:
  assumes "bip_wf bb" "memory_ok mem"
  shows "\<exists>n bb'. BipBuffer_Write mem bb data = Some (n, bb') \<and> -1 \<le> n \<and> n \<le> int (length data) \<and>
    bip_took bb bb' (take (nat n) data)"
proof -
  from BipBuffer_WriteReserve_spec [OF assms, of "length data"] obtain block bb1 where
    r: "BipBuffer_WriteReserve mem bb (length data) = Some (block, bb1)" "bip_took bb bb1 []" by blast
  show ?thesis
  proof (cases block)
    case None
    with r show ?thesis by (intro exI [of _ "-1"]) (auto simp: BipBuffer_Write_def)
  next
    case (Some i)
    have "bip_wf bb1" using r(2) by (simp add: bip_took_def)
    from write_part_spec [OF this, of 0 data] obtain n1 bb2 where w:
      "write_part data (0, bb1) = Some (Inl (n1, bb2)) \<or> write_part data (0, bb1) = Some (Inr (n1, bb2))"
      "n1 \<le> length data" "bip_took bb1 bb2 (take n1 data)" by auto
    then have "bip_wf bb2" by (simp add: bip_took_def)
    from write_part_spec [OF this w(2)] obtain n2 bb3 where w':
      "write_part data (n1, bb2) = Some (Inl (n2, bb3)) \<or> write_part data (n1, bb2) = Some (Inr (n2, bb3))"
      "n1 \<le> n2" "n2 \<le> length data" "bip_took bb2 bb3 (take (n2 - n1) (drop n1 data))" by auto
    have "take n1 data @ take (n2 - n1) (drop n1 data) = take n2 data"
      using w'(2) by (metis le_add_diff_inverse take_add)
    then have "bip_took bb bb3 (take n2 data)" "bip_took bb bb2 (take n1 data)"
      using r(2) w(3) w'(4) by (simp_all add: bip_took_def)
    with r(1) Some w(1,2) w'(1,3) show ?thesis
      by (elim disjE) (auto simp: BipBuffer_Write_def split: if_splits)
  qed
qed

lemma read_part_spec:
  assumes "bip_wf bb" "length data \<le> n"
  shows "\<exists>bb' k. k = min (n - length data) (bl_size (blockA bb)) \<and> bip_wf bb' \<and>
    bip_content bb' = drop k (bip_content bb) \<and> pageSize bb' = pageSize bb \<and>
    (read_part n (data, bb) = Some (Inl (data @ take k (bip_content bb), bb')) \<and> k = n - length data \<or>
     read_part n (data, bb) = Some (Inr (data @ take k (bip_content bb), bb')) \<and> k = bl_size (blockA bb) \<and>
       bl_size (blockA bb') = bl_size (blockB bb) \<and> bl_size (blockB bb') = 0)"
proof (cases "bip_content bb = []")
  case True
  then have "bl_size (blockA bb) = 0" "bl_size (blockB bb) = 0"
    using length_bip_content [OF assms(1)] by (auto simp: BipBuffer_UsedSize_def)
  with True assms show ?thesis by (auto simp: read_part_def bip_read_reserve)
next
  case False
  define k where "k = min (n - length data) (bl_size (blockA bb))"
  have kA: "k \<le> bl_size (blockA bb)" by (simp add: k_def)
  note c = bip_read_commit [OF assms(1) kA]
  have len: "length (take k (bip_content bb)) = k"
    using kA length_bip_content [OF assms(1)] by (simp add: BipBuffer_UsedSize_def)
  have "(if bl_size (blockA bb) < n - length data then bl_size (blockA bb) else n - length data) = k"
    by (simp add: k_def min_def)
  then have r: "read_part n (data, bb) = Some (if length data + k = n \<or> k < bl_size (blockA bb)
      then Inl (data @ take k (bip_content bb), BipBuffer_ReadCommit bb k)
      else Inr (data @ take k (bip_content bb), BipBuffer_ReadCommit bb k))"
    using False c(1) len by (simp add: read_part_def bip_read_reserve [OF assms(1)] Let_def)
  show ?thesis
  proof (cases "length data + k = n \<or> k < bl_size (blockA bb)")
    case True
    then have "k = n - length data" using assms(2) by (auto simp: k_def)
    with r True c show ?thesis by (intro exI conjI) (auto simp: k_def)
  next
    case False
    then have k: "k = bl_size (blockA bb)" using kA by simp
    have "blockA (BipBuffer_ReadCommit bb k) = blockB bb" "blockB (BipBuffer_ReadCommit bb k) = BipBlock_Clear"
      by (simp_all add: BipBuffer_ReadCommit_def k)
    with r False c k show ?thesis
      by (intro exI [of _ "BipBuffer_ReadCommit bb k"] exI [of _ k]) (auto simp: k_def)
  qed
qed

lemma BipBuffer_Read_spec:
  assumes "bip_wf bb"
  shows "\<exists>bb'. BipBuffer_Read bb n = Some (take n (bip_content bb), bb') \<and> bip_wf bb' \<and>
    bip_content bb' = drop n (bip_content bb) \<and> pageSize bb' = pageSize bb"
proof -
  let ?c = "bip_content bb" and ?a = "bl_size (blockA bb)" and ?b = "bl_size (blockB bb)"
  have len: "length ?c = ?a + ?b" using length_bip_content [OF assms] by (simp add: BipBuffer_UsedSize_def)
  from read_part_spec [OF assms, of "[]" n] consider
    bb1 where "read_part n ([], bb) = Some (Inl (take n ?c, bb1))" "bip_wf bb1" "bip_content bb1 = drop n ?c"
      "pageSize bb1 = pageSize bb"
  | bb1 where "read_part n ([], bb) = Some (Inr (take ?a ?c, bb1))" "bip_wf bb1" "bip_content bb1 = drop ?a ?c"
      "pageSize bb1 = pageSize bb" "bl_size (blockA bb1) = ?b" "?a \<le> n"
    by auto
  then show ?thesis
  proof cases
    case 1
    then show ?thesis by (auto simp: BipBuffer_Read_def)
  next
    case 2
    define k where "k = min (n - ?a) ?b"
    have "take ?a ?c @ take k (drop ?a ?c) = take n ?c" "drop k (drop ?a ?c) = drop n ?c"
    proof -
      have "take n ?c = take (?a + k) ?c" "drop n ?c = drop (?a + k) ?c"
        using 2(6) len by (auto simp: k_def min_def)
      then show "take ?a ?c @ take k (drop ?a ?c) = take n ?c" "drop k (drop ?a ?c) = drop n ?c"
        by (simp_all only: take_add drop_drop add.commute [of k])
    qed
    moreover have "length (take ?a ?c) = ?a" using len by simp
    moreover from this 2(6) have "length (take ?a ?c) \<le> n" by simp
    ultimately show ?thesis
      using read_part_spec [OF 2(2), of "take ?a ?c" n] 2 by (auto simp: BipBuffer_Read_def k_def)
  qed
qed

subsection \<open>Sequences of reads and writes\<close>

datatype bip_op = BWrite memory bytes | BRead nat

datatype bip_result = Written int | ReadBytes bytes

fun bip_step :: "bip_op \<Rightarrow> wBipBuffer \<Rightarrow> (bip_result \<times> wBipBuffer) option" where
  "bip_step (BWrite mem data) bb = map_option (map_prod Written id) (BipBuffer_Write mem bb data)"
| "bip_step (BRead n) bb = map_option (map_prod ReadBytes id) (BipBuffer_Read bb n)"

fun bip_run :: "bip_op list \<Rightarrow> wBipBuffer \<Rightarrow> (bip_result list \<times> wBipBuffer) option" where
  "bip_run [] bb = Some ([], bb)"
| "bip_run (op # ops) bb =
     Option.bind (bip_step op bb) (\<lambda>(r, bb). map_option (\<lambda>(rs, bb). (r # rs, bb)) (bip_run ops bb))"

text \<open>What a client has got in (a result of \<open>n\<close> is \<open>n\<close> bytes accepted, -1 none) and out.\<close>

fun accepted :: "bip_op list \<Rightarrow> bip_result list \<Rightarrow> bytes" where
  "accepted (BWrite mem data # ops) (Written n # rs) = take (nat n) data @ accepted ops rs"
| "accepted (op # ops) (r # rs) = accepted ops rs"
| "accepted ops rs = []"

fun delivered :: "bip_result list \<Rightarrow> bytes" where
  "delivered [] = []"
| "delivered (ReadBytes d # rs) = d @ delivered rs"
| "delivered (Written n # rs) = delivered rs"

fun bip_op_ok :: "bip_op \<Rightarrow> bool" where
  "bip_op_ok (BWrite mem data) = memory_ok mem"
| "bip_op_ok (BRead n) = True"

lemma bip_run_stream:
  assumes "bip_wf bb" "\<forall>op \<in> set ops. bip_op_ok op"
  shows "\<exists>rs bb'. bip_run ops bb = Some (rs, bb') \<and> bip_wf bb' \<and>
    bip_content bb @ accepted ops rs = delivered rs @ bip_content bb'"
  using assms
proof (induction ops arbitrary: bb)
  case (Cons op ops)
  show ?case
  proof (cases op)
    case (BWrite mem data)
    with Cons.prems have "memory_ok mem" by simp
    from BipBuffer_Write_spec [OF Cons.prems(1) this, of data] obtain n bb1 where
      "BipBuffer_Write mem bb data = Some (n, bb1)" "bip_took bb bb1 (take (nat n) data)" by blast
    with Cons.IH [of bb1] Cons.prems(2) show ?thesis by (auto simp: BWrite bip_took_def)
  next
    case (BRead n)
    from BipBuffer_Read_spec [OF Cons.prems(1), of n] obtain bb1 where
      "BipBuffer_Read bb n = Some (take n (bip_content bb), bb1)" "bip_wf bb1" "bip_content bb1 = drop n (bip_content bb)"
      by blast
    moreover from this Cons.IH [of bb1] Cons.prems(2) obtain rs bb' where
      "bip_run ops bb1 = Some (rs, bb')" "bip_wf bb'" "drop n (bip_content bb) @ accepted ops rs = delivered rs @ bip_content bb'"
      by auto
    moreover have "bip_content bb @ accepted ops rs = take n (bip_content bb) @ drop n (bip_content bb) @ accepted ops rs"
      by simp
    ultimately show ?thesis by (simp add: BRead)
  qed
qed simp

lemma BipBuffer_New_wf:
  assumes "BipBuffer_New mem calloc_ok page n = Some bb" "memory_ok mem"
  shows "bip_wf bb \<and> bip_content bb = []"
  using assms by (auto simp: BipBuffer_New_def BipBuffer_AllocBuffer_def bip_wf_def bip_content_def bip_bytes_def
      memory_ok_def Let_def split: if_splits option.splits prod.splits bool.splits)

text \<open>C39: a bip buffer is a byte stream. Over any sequence of reads and writes on a new buffer, whatever
  allocations fail, no access leaves the buffer, and what was read, followed by what is still in the
  buffer, is what the writes reported as accepted, byte for byte and in order.\<close>

theorem BipBuffer_is_stream:
  assumes "BipBuffer_New mem calloc_ok page n = Some bb" "memory_ok mem" "\<forall>op \<in> set ops. bip_op_ok op"
  shows "\<exists>rs bb'. bip_run ops bb = Some (rs, bb') \<and> accepted ops rs = delivered rs @ bip_content bb' \<and>
    length (bip_content bb') = BipBuffer_UsedSize bb' \<and> BipBuffer_UsedSize bb' \<le> bip_size bb'"
proof -
  from BipBuffer_New_wf [OF assms(1,2)] have "bip_wf bb" and e: "bip_content bb = []" by simp_all
  from bip_run_stream [OF this(1) assms(3)] obtain rs bb' where
    r: "bip_run ops bb = Some (rs, bb')" "bip_wf bb'" "accepted ops rs = delivered rs @ bip_content bb'" by (auto simp: e)
  moreover from r(2) have "BipBuffer_UsedSize bb' \<le> bip_size bb'" by (auto simp: bip_wf_def BipBuffer_UsedSize_def)
  ultimately show ?thesis using length_bip_content by blast
qed

definition zero_memory :: memory where
  "zero_memory n = Some (replicate n 0)"

theorem BipBuffer_is_stream_witness:
  "\<exists>bb. BipBuffer_New zero_memory True 4096 10 = Some bb \<and>
    (\<exists>rs bb'. bip_run [BWrite zero_memory [1, 2, 3], BRead 2, BWrite zero_memory [4]] bb = Some (rs, bb') \<and>
      accepted [BWrite zero_memory [1, 2, 3], BRead 2, BWrite zero_memory [4]] rs = delivered rs @ bip_content bb')"
proof -
  have m: "memory_ok zero_memory" by (auto simp: memory_ok_def zero_memory_def)
  obtain bb where bb: "BipBuffer_New zero_memory True 4096 10 = Some bb"
    by (simp add: BipBuffer_New_def BipBuffer_AllocBuffer_def zero_memory_def)
  from BipBuffer_is_stream [OF bb m, of "[BWrite zero_memory [1, 2, 3], BRead 2, BWrite zero_memory [4]]"] bb m
  show ?thesis by auto
qed

end
