(* ===== verification/Spec2Isabelle.thy ===== *)
theory Spec2Isabelle
  imports Finalization Gcc_Session Mcs Nego Queue Stack ArrayList HashTable ListDictionary BipBuffer
begin

text \<open>
  A verification development for the RDP stack of this repository (a FreeRDP and WinPR tree under
  src/Rdp/src with project-specific channels): the code that reads and writes what comes from the
  network before a session exists, and the containers of the runtime library below it.

  \<^bold>\<open>The program.\<close> A client connects in phases. \<open>nego.c\<close> opens the transport and negotiates the security
  protocol with X.224 connection PDUs (\<open>tpkt.c\<close>, \<open>tpdu.c\<close>); \<open>mcs.c\<close> then connects the T.125 domain with
  BER-encoded PDUs (\<open>ber.c\<close>), erects it, attaches the user and joins the channels with PER-encoded PDUs
  (\<open>per.c\<close>), driven by the state machines of \<open>connection.c\<close> (client) and \<open>peer.c\<close> (server); licensing, capability exchange and the
  session proper follow. Everything is read from and written to \<open>wStream\<close> (winpr stream.h, stream.c),
  whose macros check nothing: each reader has to check the remaining length, each writer has to allocate
  enough. The same peer is trusted with nothing, so the readers are the program's attack surface.

  \<^bold>\<open>Theories, from the bottom.\<close>

  \<^item> \<open>Prelude\<close>: C integer arithmetic (conversion to int, division that truncates), words and byte lists,
    and the simplification sets the other theories share.

  \<^item> \<open>WStream\<close>: stream.h and stream.c. A stream is a buffer, a cursor and a length; a routine ends in
    \<open>Ok\<close>, in \<open>Fail\<close> (it returned FALSE) or in \<open>Overrun\<close> (it touched a byte it does not own), so memory
    safety of a reader is a theorem about its result. The locale \<open>codec\<close> is the contract of a wire format:
    what a reader makes of the bytes of a value, wherever they are in the stream. Shown: a stream that
    grew has the room asked for, and the doubling loop does not end for an empty stream.

  \<^item> \<open>Per\<close>, \<open>Ber\<close>, \<open>X224\<close>: per.c; ber.c and der.c; tpkt.c and tpdu.c, every routine. Each format interprets
    \<open>codec\<close>. Shown: the round trips with their exact ranges, that the sizes computed in advance are the
    sizes written, and that no reader leaves a stream of any content.

  \<^item> \<open>Mcs\<close>: mcs.c without the two PDUs that carry the GCC conference (they are in \<open>Gcc\<close>), and the channel-join phase of
    connection.c (\<open>rdp_client_connect_mcs_channel_join_confirm\<close>). Shown: every PDU is sent with the exact
    size in its header, the peers' routines invert each other, the merge of domain parameters succeeds
    exactly when the ranges intersect and then returns a point of them, no receiver overruns, and the
    join phase sends the requests of a plan in order and reaches its end with every channel joined.

  \<^item> \<open>Nego\<close>: nego.c, both sides. The transport is a record of functions of the history of the connection,
    so the theorems hold for every peer, and for every outcome of the calls to the TCP and TLS layers.
    Shown: the client never ends up with a protocol it did not enable when the peer answered with
    negotiation data, its loop ends within four rounds if the peer answers with PDUs the client knows, and
    the round trips of request and response with their exact conditions; and where the code falls short:
    a peer that answers otherwise holds the client in the loop for ever, a confirm without negotiation
    data leaves an old selection in force, a long routing token overruns the request, a short failure PDU
    is read past its end.

  \<^item> \<open>Gcc\<close>, \<open>Gcc_Wire\<close>, \<open>Gcc_Session\<close>: gcc.c, every routine, the connect PDUs of mcs.c and the defaults of
    \<open>freerdp_settings_new\<close> in settings.c. \<open>Gcc\<close> holds the code and what its readers do with arbitrary data:
    they end, and they stay inside the data and the arrays but for two cases, both stated exactly (the
    number of monitors is not compared with the array; two lengths of the security block are added with
    wrap-around). \<open>Gcc_Wire\<close> states what a client sends, byte for byte, and when the 512 bytes of the sender
    are too few. \<open>Gcc_Session\<close> puts both sides together: what a fresh client sends is what a fresh server
    has stored afterwards, channel ids stay distinct, and the security block a server writes is accepted
    by the client with the same encryption.

  \<^item> \<open>Security\<close>: security.c, the standard RDP security, over a record of the digests and ciphers of OpenSSL, and
    the state of a connection (rdp.h). Shown: client and server derive mirrored keys, exactly when the
    derivation leaves the server random, what the FIPS key expansion makes of a key bit by bit, and for
    each direction of RC4 and of FIPS that decryption inverts encryption, across the renewal of the keys.
    The locale \<open>duplex\<close> is the contract of a channel that works in both directions.

  \<^item> \<open>Rdp\<close>, \<open>Rdp_Session\<close>: the slow path of rdp.c, headers, sending with encryption and message
    authentication, receiving with decryption. \<open>Rdp_Session\<close> interprets \<open>duplex\<close> on the send and receive
    routines: in a session of two peers every message arrives, with its channel and its bytes.

  \<^item> \<open>Key_Exchange\<close>: the exchange of the client random (connection.c) with the RSA routines of crypto.c, over the
    numbers of OpenSSL as a parameter. Shown: the packet of the client brings both peers into the session
    of \<open>Rdp_Session\<close>, and when the block of the RSA computation is too short.

  \<^item> \<open>Activation\<close>: activation.c and the data PDUs of rdp.c: the PDUs of both peers between the capabilities and
    the session, and the dispatch of what arrives in a session. The handlers that belong to other files
    are parameters. Shown: a data PDU that a peer in a session sends arrives with its headers and its
    bytes, and what the reader of a monitor layout does with any count.

  \<^item> \<open>Frame\<close>: which part of a connection the routines of the slow path leave alone (\<open>framed\<close>), with a small
    calculus (\<open>gives\<close>) for what holds of a result if the routine returns.

  \<^item> \<open>Peer\<close>: the server. The callback of peer.c as a function of the state and the packet, the accept
    routines of connection.c, the license packet, the demand and the confirmation of the capabilities,
    and the dispatch of packets of a session. What an application does, the TLS and NLA layers and the
    parsers of capability sets, of the info packet and of input are parameters. The states a server
    reaches are the relation \<open>peer_reachable\<close>, over any packets and any reactivation. Shown: an invariant of all of
    them, and that the negotiation never settles for less than both peers have.

  \<^item> \<open>Client\<close>: the client. \<open>rdp_recv_callback\<close> of rdp.c with its states, the steps of connection.c they call,
    the license messages that end licensing, the demand and the confirmation of the capabilities, the
    loop over the PDUs of a packet, deactivation, and the loops that read: \<open>transport_check_fds\<close> and, inside the
    handler of a deactivation, \<open>rdp_recv_deactivate_all\<close>, which calls it again. What the transport reads is a
    list, \<open>c_reads\<close>. Shown: these loops end, and the loop of \<open>rdp_client_connect\<close> does not when the server
    disconnects at the end of the connection sequence.

  \<^item> \<open>Finalization\<close>: both peers. Packets on their way in both directions are lists (\<open>linked\<close>), and each send
    and each callback is a lemma about them. Shown: the PDUs the peers exchange at the end of the
    connection sequence make both of them active.

  \<^item> \<open>Coll_Spec\<close>: what the containers promise, as locales (\<open>bag\<close>, \<open>fifo\<close>, \<open>lifo\<close>, \<open>dictionary\<close>, \<open>machine\<close>): a sequence of
    operations on the container is indistinguishable from the same sequence on a list.

  \<^item> \<open>Queue\<close>, \<open>Stack\<close>, \<open>ArrayList\<close>: the files of the same names under
    winpr/libwinpr/utils/collections. Each interprets its contract for every allocator that does not
    fail; the lock and the objects released are part of the state. Shown besides: which operations do
    not do what their comment says.

  \<^item> \<open>HashTable\<close>, \<open>ListDictionary\<close>, \<open>BipBuffer\<close>: the files of the same names in the same directory. Both
    dictionaries interpret the contract \<open>dictionary\<close> of \<open>Coll_Spec\<close>; the hash table refines a map for every
    hash function that agrees with its comparison (the locale \<open>hashing\<close>, interpreted on the two pairs of
    functions the file offers), rehashing included. The bip buffer, with its two blocks that wrap, move
    and grow, delivers the bytes it was given in the order it was given them. Sizes are natural numbers:
    a \<open>size_t\<close> would wrap only for buffers no allocator can provide.

  \<^bold>\<open>Conventions.\<close> A structure is a record with a field per member the code reads; a UINT16 is a 16-bit
  word, an int is an integer, with the conversion to 32 bits written out where the code can leave the
  range; an out-parameter is part of the result. malloc, the transport and the clock are parameters.
  Early returns are the \<open>Fail\<close> branches in the order of the source.

  \<^bold>\<open>Bounds and fuel.\<close> The loop of \<open>Stream_EnsureCapacity\<close> has 64 rounds of fuel: a capacity that is not 0
  exceeds 2^64 after 64 doublings, and a capacity of 0 never grows, which is shown for every fuel. The
  client's negotiation loop is run with 4 rounds in \<open>nego_connect\<close>; every round with an answer the client
  knows moves to a later state, and there are four states, so the fuel is enough whenever the code
  returns; the loop that does not return is shown for every fuel. The loop over the data blocks of a
  client has as much fuel as the announced length, the one of a server one more than the bytes left: each
  round consumes a header at least, or fails. \<open>rdp_check_fds\<close> has two rounds for each read that is still to
  come, and one: every round of its two loops takes a read or ends, and more rounds are shown to change
  nothing. The loop of \<open>rdp_client_connect\<close> is shown not to end for every fuel. \<open>Queue_Clear\<close> has as many
  rounds as the queue has cells. All other loops are recursions over lists or counters.

  \<^bold>\<open>Not modelled.\<close> The start of \<open>rdp_client_connect\<close> up to its loop, redirection, the license request and the
  platform challenge; the counters of autodetect.c; the parsers of
  the capability sets and of the info packet; the fast path but for its header, orders, updates; the
  transport and its TLS and gateway variants; the codecs, caches, GDI and primitives; the channels; the
  remaining containers (linked list, pools, message queue, publisher and subscriber) and the
  Windows emulation of WinPR; the C++ front ends; OpenSSL. These are system calls, pixel arithmetic or
  third-party code, or handlers that the modelled code calls and that are its parameters.
\<close>

end
